(* ===== verification/Prelude.thy ===== *)
theory Prelude
  imports Main "HOL-Library.Word" "HOL-Library.Sublist" "HOL-Library.Countable"
begin

section \<open>Shared vocabulary: strings, bounded lists and machine integers\<close>

text \<open>
  What the Rust standard library gives every crate, written once. A Rust \<open>str\<close>,
  \<open>String\<close> or (valid UTF-8) path is the list of its UTF-8 bytes, an Isabelle \<open>string\<close>:
  \<open>len\<close> counts bytes, a slice is \<open>take\<close>/\<open>drop\<close>, and a character boundary is a
  position whose byte is no continuation byte. ASCII operations act on the bytes; the
  operations that look at Unicode white space (\<open>trim\<close>, \<open>split_whitespace\<close>) use the table of
  the UTF-8 encodings of the White_Space code points. \<open>Result<T, E>\<close> is \<open>'e + 't\<close> with
  \<open>Inl\<close> for \<open>Err\<close>. Unsigned integers are \<open>nat\<close> with the saturation written out.
\<close>

named_theorems str_simps \<open>equations that evaluate the string operations\<close>
named_theorems len_bounds \<open>upper bounds on the length of a bounded text\<close>

subsection \<open>Options and results\<close>

abbreviation is_ok :: "'e + 'a \<Rightarrow> bool" where
  "is_ok r \<equiv> (case r of Inl _ \<Rightarrow> False | Inr _ \<Rightarrow> True)"

lemma is_ok_iff: "is_ok r \<longleftrightarrow> (\<exists>x. r = Inr x)"
  by (cases r) auto

fun bind_result :: "'e + 'a \<Rightarrow> ('a \<Rightarrow> 'e + 'b) \<Rightarrow> 'e + 'b" where
  "bind_result (Inl e) f = Inl e"
| "bind_result (Inr x) f = f x"

lemma bind_result_Inr_iff [simp]:
  "bind_result r f = Inr y \<longleftrightarrow> (\<exists>x. r = Inr x \<and> f x = Inr y)"
  by (cases r) auto

subsection \<open>Saturating arithmetic\<close>

definition u32_max :: nat where
  "u32_max = 4294967295"

definition u64_max :: nat where
  "u64_max = 18446744073709551615"

definition sat_add32 :: "nat \<Rightarrow> nat \<Rightarrow> nat" where
  "sat_add32 a b = min (a + b) u32_max"

definition sat_mul32 :: "nat \<Rightarrow> nat \<Rightarrow> nat" where
  "sat_mul32 a b = min (a * b) u32_max"

definition sat_add64 :: "nat \<Rightarrow> nat \<Rightarrow> nat" where
  "sat_add64 a b = min (a + b) u64_max"

definition sat_mul64 :: "nat \<Rightarrow> nat \<Rightarrow> nat" where
  "sat_mul64 a b = min (a * b) u64_max"

text \<open>The wrap-around of an atomic \<open>u64\<close> counter.\<close>

definition wrap64 :: "nat \<Rightarrow> nat" where
  "wrap64 n = n mod 2 ^ 64"

lemma sat_add32_le [len_bounds]: "sat_add32 a b \<le> a + b"
  by (simp add: sat_add32_def)

lemma sat_mul32_le [len_bounds]: "sat_mul32 a b \<le> a * b"
  by (simp add: sat_mul32_def)

subsection \<open>Bytes and characters\<close>

abbreviation newline :: char where "newline \<equiv> CHR 0x0A"
abbreviation carriage_return :: char where "carriage_return \<equiv> CHR 0x0D"
abbreviation ellipsis :: string where "ellipsis \<equiv> [CHR 0xE2, CHR 0x80, CHR 0xA6]"
abbreviation bullet :: string where "bullet \<equiv> [CHR 0xE2, CHR 0x80, CHR 0xA2]"

definition byte_of :: "char \<Rightarrow> nat" where
  "byte_of c = of_char c"

definition is_digit :: "char \<Rightarrow> bool" where
  "is_digit c \<longleftrightarrow> 48 \<le> byte_of c \<and> byte_of c \<le> 57"

definition is_ascii_upper :: "char \<Rightarrow> bool" where
  "is_ascii_upper c \<longleftrightarrow> 65 \<le> byte_of c \<and> byte_of c \<le> 90"

definition is_ascii_lower :: "char \<Rightarrow> bool" where
  "is_ascii_lower c \<longleftrightarrow> 97 \<le> byte_of c \<and> byte_of c \<le> 122"

definition is_ascii_alnum :: "char \<Rightarrow> bool" where
  "is_ascii_alnum c \<longleftrightarrow> is_digit c \<or> is_ascii_upper c \<or> is_ascii_lower c"

definition lower_char :: "char \<Rightarrow> char" where
  "lower_char c = (if is_ascii_upper c then char_of (byte_of c + 32) else c)"

definition to_ascii_lowercase :: "string \<Rightarrow> string" where
  "to_ascii_lowercase s = map lower_char s"

definition eq_ignore_ascii_case :: "string \<Rightarrow> string \<Rightarrow> bool" where
  "eq_ignore_ascii_case s t \<longleftrightarrow> to_ascii_lowercase s = to_ascii_lowercase t"

lemma length_to_ascii_lowercase [simp]: "length (to_ascii_lowercase s) = length s"
  by (simp add: to_ascii_lowercase_def)

definition is_continuation :: "char \<Rightarrow> bool" where
  "is_continuation c \<longleftrightarrow> 128 \<le> byte_of c \<and> byte_of c < 192"

definition is_char_boundary :: "string \<Rightarrow> nat \<Rightarrow> bool" where
  "is_char_boundary s i \<longleftrightarrow>
     i = 0 \<or> i = length s \<or> (i < length s \<and> \<not> is_continuation (s ! i))"

text \<open>The two loops the code writes: step an index down, or up, to a boundary.\<close>

fun floor_boundary :: "string \<Rightarrow> nat \<Rightarrow> nat" where
  "floor_boundary s 0 = 0"
| "floor_boundary s (Suc n) =
     (if is_char_boundary s (Suc n) then Suc n else floor_boundary s n)"

function ceil_boundary :: "string \<Rightarrow> nat \<Rightarrow> nat" where
  "ceil_boundary s i =
     (if i < length s \<and> \<not> is_char_boundary s i then ceil_boundary s (Suc i) else i)"
  by pat_completeness auto
termination
  by (relation "measure (\<lambda>(s, i). length s - i)") auto

declare ceil_boundary.simps [simp del]

lemma floor_boundary_le [simp, len_bounds]: "floor_boundary s n \<le> n"
  by (induction s n rule: floor_boundary.induct) auto

lemma floor_boundary_is_boundary: "is_char_boundary s (floor_boundary s n)"
  by (induction s n rule: floor_boundary.induct) (auto simp: is_char_boundary_def)

lemma floor_boundary_greatest:
  "m \<le> n \<Longrightarrow> is_char_boundary s m \<Longrightarrow> m \<le> floor_boundary s n"
proof (induction s n rule: floor_boundary.induct)
  case (2 s n)
  then show ?case by (cases "m = Suc n") auto
qed simp

lemma ceil_boundary_ge: "i \<le> ceil_boundary s i"
proof (induction s i rule: ceil_boundary.induct)
  case (1 s i)
  then show ?case by (subst ceil_boundary.simps) (auto simp: Suc_le_eq less_imp_le)
qed

lemma ceil_boundary_le_length: "i \<le> length s \<Longrightarrow> ceil_boundary s i \<le> length s"
proof (induction s i rule: ceil_boundary.induct)
  case (1 s i)
  then show ?case by (subst ceil_boundary.simps) auto
qed

lemma ceil_boundary_is_boundary:
  "i \<le> length s \<Longrightarrow> is_char_boundary s (ceil_boundary s i)"
proof (induction s i rule: ceil_boundary.induct)
  case (1 s i)
  show ?case
  proof (cases "i < length s \<and> \<not> is_char_boundary s i")
    case True
    with 1 show ?thesis by (subst ceil_boundary.simps) simp
  next
    case False
    with 1 show ?thesis by (subst ceil_boundary.simps) (auto simp: is_char_boundary_def)
  qed
qed

text \<open>The characters of a text: each byte that starts one, with its continuation bytes.\<close>

function utf8_chars :: "string \<Rightarrow> string list" where
  "utf8_chars [] = []"
| "utf8_chars (c # cs) =
     (c # takeWhile is_continuation cs) # utf8_chars (dropWhile is_continuation cs)"
  by pat_completeness auto
termination
  by (relation "measure length") (auto simp: le_imp_less_Suc length_dropWhile_le)

lemma concat_utf8_chars [simp]: "concat (utf8_chars s) = s"
  by (induction s rule: utf8_chars.induct) auto

subsection \<open>Searching and splitting\<close>

abbreviation starts_with :: "string \<Rightarrow> string \<Rightarrow> bool" where
  "starts_with s p \<equiv> prefix p s"

abbreviation ends_with :: "string \<Rightarrow> string \<Rightarrow> bool" where
  "ends_with s p \<equiv> suffix p s"

fun str_contains :: "string \<Rightarrow> string \<Rightarrow> bool" where
  "str_contains [] n \<longleftrightarrow> n = []"
| "str_contains (c # cs) n \<longleftrightarrow> prefix n (c # cs) \<or> str_contains cs n"

lemma str_contains_iff: "str_contains s n \<longleftrightarrow> (\<exists>u v. s = u @ n @ v)"
proof (induction s)
  case (Cons c cs)
  have "(\<exists>u v. c # cs = u @ n @ v) \<longleftrightarrow> prefix n (c # cs) \<or> (\<exists>u v. cs = u @ n @ v)"
    by (auto simp: prefix_def Cons_eq_append_conv)
  with Cons show ?case by simp
qed auto

lemma str_contains_refl [simp]: "str_contains s s"
  by (auto simp: str_contains_iff intro: exI [of _ "[]"])

lemma str_contains_appendI1: "str_contains s n \<Longrightarrow> str_contains (t @ s) n"
  by (auto simp: str_contains_iff) (metis append.assoc)

lemma str_contains_appendI2: "str_contains s n \<Longrightarrow> str_contains (s @ t) n"
  by (auto simp: str_contains_iff) (metis append.assoc)

definition contains_any :: "string list \<Rightarrow> string \<Rightarrow> bool" where
  "contains_any needles s \<longleftrightarrow> list_ex (str_contains s) needles"

definition strip_prefix_str :: "string \<Rightarrow> string \<Rightarrow> string option" where
  "strip_prefix_str p s = (if prefix p s then Some (drop (length p) s) else None)"

fun split_once :: "string \<Rightarrow> string \<Rightarrow> (string \<times> string) option" where
  "split_once sep [] = (if sep = [] then Some ([], []) else None)"
| "split_once sep (c # cs) =
     (if prefix sep (c # cs) then Some ([], drop (length sep) (c # cs))
      else map_option (\<lambda>(a, b). (c # a, b)) (split_once sep cs))"

lemma split_once_Some: "split_once sep s = Some (a, b) \<Longrightarrow> s = a @ sep @ b"
proof (induction s arbitrary: a)
  case (Cons c cs)
  then show ?case by (auto split: if_splits simp: prefix_def)
qed (auto split: if_splits)

definition strip_cr :: "string \<Rightarrow> string" where
  "strip_cr l = (if l \<noteq> [] \<and> last l = carriage_return then butlast l else l)"

function str_lines :: "string \<Rightarrow> string list" where
  "str_lines s =
     (if s = [] then []
      else case dropWhile (\<lambda>c. c \<noteq> newline) s of
        [] \<Rightarrow> [s]
      | _ # rest \<Rightarrow> strip_cr (takeWhile (\<lambda>c. c \<noteq> newline) s) # str_lines rest)"
  by pat_completeness auto
termination
proof (relation "measure length")
  fix s x xs
  assume "dropWhile (\<lambda>c. c \<noteq> newline) s = (x :: char) # xs"
  then have "length (x # xs) \<le> length s"
    by (metis length_dropWhile_le)
  then show "(xs, s) \<in> measure length" by simp
qed simp

declare str_lines.simps [simp del]

lemma str_lines_Nil [simp, str_simps]: "str_lines [] = []"
  by (simp add: str_lines.simps)

lemma str_lines_last [str_simps]:
  assumes "newline \<notin> set l" "l \<noteq> []"
  shows "str_lines l = [l]"
proof -
  have "\<And>c. c \<in> set l \<Longrightarrow> c \<noteq> newline" using assms(1) by auto
  then have "dropWhile (\<lambda>c. c \<noteq> newline) l = []" by (simp add: dropWhile_eq_Nil_conv)
  then have "str_lines l = (if l = [] then [] else case [] of [] \<Rightarrow> [l] | _ # rest \<Rightarrow> [])"
    by (subst str_lines.simps) (simp only: list.case)
  with assms(2) show ?thesis by simp
qed

lemma str_lines_line [str_simps]:
  assumes "newline \<notin> set l"
  shows "str_lines (l @ newline # rest) = strip_cr l # str_lines rest"
proof -
  have "\<And>x. x \<in> set l \<Longrightarrow> x \<noteq> newline" using assms by auto
  then have "dropWhile (\<lambda>c. c \<noteq> newline) (l @ newline # rest) = newline # rest"
    and "takeWhile (\<lambda>c. c \<noteq> newline) (l @ newline # rest) = l"
    by (simp_all add: dropWhile_append2 takeWhile_append2)
  then show ?thesis by (subst str_lines.simps) simp
qed

fun join :: "string \<Rightarrow> string list \<Rightarrow> string" where
  "join sep [] = []"
| "join sep [x] = x"
| "join sep (x # y # zs) = x @ sep @ join sep (y # zs)"

text \<open>\<open>split(predicate)\<close> on single bytes: \<open>n\<close> separators give \<open>n + 1\<close> pieces.\<close>

fun split_on :: "(char \<Rightarrow> bool) \<Rightarrow> string \<Rightarrow> string list" where
  "split_on p [] = [[]]"
| "split_on p (c # cs) =
     (if p c then [] # split_on p cs
      else case split_on p cs of [] \<Rightarrow> [[c]] | w # ws \<Rightarrow> (c # w) # ws)"

text \<open>\<open>replace\<close> with a non-empty pattern: leftmost matches, not overlapping.\<close>

function str_replace :: "string \<Rightarrow> string \<Rightarrow> string \<Rightarrow> string" where
  "str_replace pat by_str s =
     (case s of
        [] \<Rightarrow> []
      | c # cs \<Rightarrow>
          if pat \<noteq> [] \<and> prefix pat s then by_str @ str_replace pat by_str (drop (length pat) s)
          else c # str_replace pat by_str cs)"
  by pat_completeness auto
termination
  by (relation "measure (\<lambda>(pat, r, s). length s)") (auto simp: prefix_def)

declare str_replace.simps [simp del]

lemma str_replace_Nil [simp, str_simps]: "str_replace pat r [] = []"
  by (simp add: str_replace.simps)

lemma str_replace_Cons [str_simps]:
  "str_replace pat r (c # cs) =
     (if pat \<noteq> [] \<and> prefix pat (c # cs) then r @ str_replace pat r (drop (length pat) (c # cs))
      else c # str_replace pat r cs)"
  by (subst str_replace.simps) simp

definition replace_char :: "char \<Rightarrow> char \<Rightarrow> string \<Rightarrow> string" where
  "replace_char a b s = map (\<lambda>c. if c = a then b else c) s"

subsection \<open>Trimming\<close>

text \<open>The UTF-8 encodings of the code points with the property White_Space.\<close>

definition white_space :: "string list" where
  "white_space =
     [[CHR 0x09], [CHR 0x0A], [CHR 0x0B], [CHR 0x0C], [CHR 0x0D], [CHR 0x20],
      [CHR 0xC2, CHR 0x85], [CHR 0xC2, CHR 0xA0], [CHR 0xE1, CHR 0x9A, CHR 0x80],
      [CHR 0xE2, CHR 0x80, CHR 0x80], [CHR 0xE2, CHR 0x80, CHR 0x81],
      [CHR 0xE2, CHR 0x80, CHR 0x82], [CHR 0xE2, CHR 0x80, CHR 0x83],
      [CHR 0xE2, CHR 0x80, CHR 0x84], [CHR 0xE2, CHR 0x80, CHR 0x85],
      [CHR 0xE2, CHR 0x80, CHR 0x86], [CHR 0xE2, CHR 0x80, CHR 0x87],
      [CHR 0xE2, CHR 0x80, CHR 0x88], [CHR 0xE2, CHR 0x80, CHR 0x89],
      [CHR 0xE2, CHR 0x80, CHR 0x8A], [CHR 0xE2, CHR 0x80, CHR 0xA8],
      [CHR 0xE2, CHR 0x80, CHR 0xA9], [CHR 0xE2, CHR 0x80, CHR 0xAF],
      [CHR 0xE2, CHR 0x81, CHR 0x9F], [CHR 0xE3, CHR 0x80, CHR 0x80]]"

text \<open>Drop the encodings of a character set from the front, as long as one is there.\<close>

function strip_front :: "string list \<Rightarrow> string \<Rightarrow> string" where
  "strip_front encs s =
     (case find (\<lambda>e. e \<noteq> [] \<and> prefix e s) encs of
        None \<Rightarrow> s
      | Some e \<Rightarrow> strip_front encs (drop (length e) s))"
  by pat_completeness auto
termination
  by (relation "measure (\<lambda>(encs, s). length s)")
    (auto simp: find_Some_iff prefix_def)

declare strip_front.simps [simp del]

definition strip_back :: "string list \<Rightarrow> string \<Rightarrow> string" where
  "strip_back encs s = rev (strip_front (map rev encs) (rev s))"

definition trim_start :: "string \<Rightarrow> string" where
  "trim_start s = strip_front white_space s"

definition trim_end :: "string \<Rightarrow> string" where
  "trim_end s = strip_back white_space s"

definition trim :: "string \<Rightarrow> string" where
  "trim s = trim_end (trim_start s)"

definition trim_start_chars :: "char list \<Rightarrow> string \<Rightarrow> string" where
  "trim_start_chars cs s = dropWhile (\<lambda>c. c \<in> set cs) s"

definition trim_end_chars :: "char list \<Rightarrow> string \<Rightarrow> string" where
  "trim_end_chars cs s = rev (dropWhile (\<lambda>c. c \<in> set cs) (rev s))"

text \<open>A simple fixed-point reading of \<open>strip_front\<close>: nothing of the set is left in front.\<close>

lemma strip_front_fix: "find (\<lambda>e. e \<noteq> [] \<and> prefix e (strip_front encs s)) encs = None"
proof (induction encs s rule: strip_front.induct)
  case (1 encs s)
  show ?case
  proof (cases "find (\<lambda>e. e \<noteq> [] \<and> prefix e s) encs")
    case None
    then show ?thesis by (simp add: strip_front.simps [of encs s])
  next
    case (Some e)
    with 1 show ?thesis by (simp add: strip_front.simps [of encs s])
  qed
qed

lemma suffix_strip_front: "suffix (strip_front encs s) s"
proof (induction encs s rule: strip_front.induct)
  case (1 encs s)
  then show ?case
    by (subst strip_front.simps)
      (auto split: option.splits intro: suffix_order.trans suffix_drop)
qed

lemma length_strip_front [len_bounds]: "length (strip_front encs s) \<le> length s"
  by (rule suffix_length_le [OF suffix_strip_front])

lemma length_strip_back [len_bounds]: "length (strip_back encs s) \<le> length s"
  using length_strip_front [of "map rev encs" "rev s"] by (simp add: strip_back_def)

lemma length_trim_end [len_bounds]: "length (trim_end s) \<le> length s"
  by (simp add: trim_end_def length_strip_back)

lemma length_trim [len_bounds]: "length (trim s) \<le> length s"
  using length_trim_end [of "trim_start s"] length_strip_front [of white_space s]
  by (simp add: trim_def trim_start_def)

text \<open>\<open>split_whitespace\<close>: the maximal runs of characters that are no white space.\<close>

definition is_white_space :: "string \<Rightarrow> bool" where
  "is_white_space ch \<longleftrightarrow> ch \<in> set white_space"

fun words_of :: "string list \<Rightarrow> string \<Rightarrow> string list" where
  "words_of [] acc = (if acc = [] then [] else [acc])"
| "words_of (ch # chs) acc =
     (if is_white_space ch
      then (if acc = [] then words_of chs [] else acc # words_of chs [])
      else words_of chs (acc @ ch))"

definition split_whitespace :: "string \<Rightarrow> string list" where
  "split_whitespace s = words_of (utf8_chars s) []"

subsection \<open>Numbers as text\<close>

function show_nat :: "nat \<Rightarrow> string" where
  "show_nat n =
     (case n div 10 of
        0 \<Rightarrow> [char_of (48 + n)]
      | Suc q \<Rightarrow> show_nat (Suc q) @ [char_of (48 + n mod 10)])"
  by pat_completeness auto
termination
proof (relation "measure id")
  fix n q :: nat
  assume "n div 10 = Suc q"
  then show "(Suc q, n) \<in> measure id" by simp
qed simp

declare show_nat.simps [simp del]

definition show_int :: "int \<Rightarrow> string" where
  "show_int i = (if i < 0 then CHR ''-'' # show_nat (nat (- i)) else show_nat (nat i))"

text \<open>\<open>str::parse::<u64>()\<close>: decimal digits, one optional plus sign, no overflow.\<close>

definition digits_value :: "string \<Rightarrow> nat" where
  "digits_value s = foldl (\<lambda>n c. 10 * n + (byte_of c - 48)) 0 s"

definition parse_unsigned :: "nat \<Rightarrow> string \<Rightarrow> nat option" where
  "parse_unsigned bound s =
     (let ds = (case s of c # cs \<Rightarrow> if c = CHR ''+'' then cs else s | [] \<Rightarrow> [])
      in if ds \<noteq> [] \<and> list_all is_digit ds \<and> digits_value ds \<le> bound
         then Some (digits_value ds) else None)"

abbreviation parse_u64 :: "string \<Rightarrow> nat option" where
  "parse_u64 s \<equiv> parse_unsigned u64_max s"

abbreviation parse_u32 :: "string \<Rightarrow> nat option" where
  "parse_u32 s \<equiv> parse_unsigned u32_max s"

subsection \<open>First match in a list\<close>

text \<open>\<open>iter_mut().find(p)\<close> followed by an update: the first element that satisfies \<open>p\<close>.\<close>

fun update_first :: "('a \<Rightarrow> bool) \<Rightarrow> ('a \<Rightarrow> 'a) \<Rightarrow> 'a list \<Rightarrow> 'a list" where
  "update_first p f [] = []"
| "update_first p f (x # xs) = (if p x then f x # xs else x # update_first p f xs)"

lemma length_update_first [simp]: "length (update_first p f xs) = length xs"
  by (induction xs) auto

lemma update_first_id: "\<forall>x \<in> set xs. \<not> p x \<Longrightarrow> update_first p f xs = xs"
  by (induction xs) auto

lemma map_update_first:
  "(\<And>x. g (f x) = g x) \<Longrightarrow> map g (update_first p f xs) = map g xs"
  by (induction xs) auto

lemma set_update_first: "set (update_first p f xs) \<subseteq> set xs \<union> f ` {x \<in> set xs. p x}"
  by (induction xs) auto

lemma update_first_split:
  assumes "\<exists>x \<in> set xs. p x"
  obtains us x vs where "xs = us @ x # vs" "p x" "\<forall>u \<in> set us. \<not> p u"
    "update_first p f xs = us @ f x # vs"
proof -
  from assms obtain us x vs where "xs = us @ x # vs" "p x" "\<forall>u \<in> set us. \<not> p u"
    using split_list_first_prop [of xs p] by blast
  moreover from this have "update_first p f xs = us @ f x # vs"
    by (induction us arbitrary: xs) auto
  ultimately show thesis by (rule that)
qed

subsection \<open>Interface: a text bounded to a number of bytes\<close>

text \<open>
  Several crates shorten a text to a budget. They all promise the same: the result fits,
  and a text that fits already is returned unchanged.
\<close>

locale byte_bounded =
  fixes bounded :: "string \<Rightarrow> nat \<Rightarrow> string"
  assumes bounded_fits: "length (bounded s n) \<le> n"
    and bounded_short: "length s \<le> n \<Longrightarrow> bounded s n = s"
begin

lemma bounded_idem: "bounded (bounded s n) n = bounded s n"
  by (rule bounded_short) (rule bounded_fits)

lemma bounded_changed_iff: "bounded s n \<noteq> s \<longleftrightarrow> n < length s"
  using bounded_fits [of s n] bounded_short [of s n] by (cases "length s \<le> n") auto

lemma bounded_length_min: "length (bounded s n) \<le> min n (length s) \<or> n < length s"
  using bounded_fits [of s n] bounded_short [of s n] by (cases "length s \<le> n") auto

end

end
