(* ===== verification/Core.thy ===== *)
theory Core
  imports Prelude
begin

section \<open>harness-core: errors, identifiers, configuration and redaction\<close>

text \<open>
  The value types every crate shares (\<open>error.rs\<close>, \<open>ids.rs\<close>, \<open>config.rs\<close>, \<open>runtime.rs\<close>)
  and the registry of credentials that are removed from logs and errors
  (\<open>redaction.rs\<close>). The registry is a list in registration order; logging itself, the
  lock around the registry and the zeroing of its memory are not modelled.
\<close>

subsection \<open>Errors and identifiers\<close>

type_synonym ident = string

datatype harness_error =
    InvalidConfig string
  | InvalidId string
  | InvalidRequest string
  | NotFound string ident
  | PermissionDenied string
  | PermissionRequired string string
  | ProviderError string string
  | ToolError string string
  | VerificationError string
  | InvalidEvent string
  | SessionError string
  | LoggingError string
  | IoError string

definition id_new :: "string \<Rightarrow> harness_error + ident" where
  "id_new value =
     (if trim value = [] then Inl (InvalidId ''identifier must not be empty'') else Inr value)"

subsection \<open>Configuration and run requests\<close>

record harness_config =
  workspace_root_cfg :: string
  max_iterations :: nat
  log_level :: string

definition harness_config_default :: harness_config where
  "harness_config_default =
     \<lparr>workspace_root_cfg = ''.'', max_iterations = 32, log_level = ''info''\<rparr>"

definition harness_config_validate :: "harness_config \<Rightarrow> harness_error + unit" where
  "harness_config_validate c =
     (if max_iterations c = 0
      then Inl (InvalidConfig ''max_iterations must be greater than zero'')
      else if trim (log_level c) = []
      then Inl (InvalidConfig ''log_level must not be empty'')
      else Inr ())"

record run_request =
  run_id :: ident
  run_session_id :: ident
  run_prompt :: string

definition run_request_new :: "ident \<Rightarrow> ident \<Rightarrow> string \<Rightarrow> harness_error + run_request" where
  "run_request_new rid sid prompt =
     (if trim prompt = [] then Inl (InvalidRequest ''prompt must not be empty'')
      else Inr \<lparr>run_id = rid, run_session_id = sid, run_prompt = prompt\<rparr>)"

subsection \<open>Redaction of registered credentials\<close>

definition register_sensitive_value :: "string list \<Rightarrow> string \<Rightarrow> string list" where
  "register_sensitive_value secrets secret =
     (if length (trim secret) < 8 then secrets
      else if secret \<in> set secrets then secrets
      else secrets @ [secret])"

definition redacted_marker :: string where
  "redacted_marker = ''[redacted]''"

definition redact_sensitive :: "string list \<Rightarrow> string \<Rightarrow> string" where
  "redact_sensitive secrets msg =
     fold (\<lambda>secret t. str_replace secret redacted_marker t) secrets msg"

definition is_credential_field :: "string \<Rightarrow> bool" where
  "is_credential_field name =
     contains_any [''api_key'', ''apikey'', ''secret'', ''credential'', ''authorization'',
       ''access_token''] (to_ascii_lowercase name)"
  \<comment> \<open>\<open>contains_any needles s\<close> is the source's \<open>needles.iter().any(|n| s.contains(n))\<close>\<close>

text \<open>
  \<open>RedactingVisitor::record_debug\<close>: \<open>rendered\<close> is the \<open>Debug\<close> rendering of the value, which
  the field's own type provides.
\<close>

definition record_debug :: "string list \<Rightarrow> string \<Rightarrow> string \<Rightarrow> string \<Rightarrow> string" where
  "record_debug secrets output name rendered =
     (let output = (if output \<noteq> [] then output @ '' '' else output);
          value = (if is_credential_field name then ''\"[redacted]\"''
                   else redact_sensitive secrets rendered)
      in output @ name @ ''='' @ value)"

subsection \<open>Registry lemmas\<close>

lemma register_sensitive_value_distinct:
  "distinct secrets \<Longrightarrow> distinct (register_sensitive_value secrets s)"
  by (simp add: register_sensitive_value_def)

lemma register_sensitive_value_mono:
  "set secrets \<subseteq> set (register_sensitive_value secrets s)"
  by (auto simp: register_sensitive_value_def)

lemma register_sensitive_value_min_length:
  assumes "\<forall>x \<in> set secrets. 8 \<le> length x"
  shows "\<forall>x \<in> set (register_sensitive_value secrets s). 8 \<le> length x"
  using assms length_trim [of s] by (auto simp: register_sensitive_value_def)

subsection \<open>What redaction removes\<close>

text \<open>
  A replacement text can complete a new occurrence of a secret: that is ruled out for a
  secret without square brackets that is no part of the word between them.
\<close>

definition marker_free :: "string \<Rightarrow> bool" where
  "marker_free t \<longleftrightarrow> CHR ''['' \<notin> set t \<and> CHR '']'' \<notin> set t \<and> \<not> str_contains ''redacted'' t"

text \<open>A word \<open>t\<close> without the byte \<open>c\<close> lies on one side of \<open>c\<close>.\<close>

lemma contains_around_char:
  assumes "str_contains (u @ c # v) t" "c \<notin> set t"
  shows "str_contains u t \<or> str_contains v t"
proof -
  from assms(1) obtain x y where *: "u @ c # v = x @ t @ y"
    by (auto simp: str_contains_iff)
  then consider w where "x = u @ w" "c # v = w @ t @ y"
    | w where "u = x @ w" "w @ c # v = t @ y"
    by (auto simp: append_eq_append_conv2)
  then show ?thesis
  proof cases
    case (1 w)
    show ?thesis
    proof (cases w)
      case Nil
      with 1 have "c # v = t @ y" by simp
      with assms(2) have "t = []" by (cases t) auto
      then show ?thesis by (auto simp: str_contains_iff)
    next
      case (Cons d w')
      with 1 show ?thesis by (auto simp: str_contains_iff)
    qed
  next
    case (2 w)
    then obtain z where "w = t @ z \<or> (t = w @ z \<and> c # v = z @ y)"
      by (auto simp: append_eq_append_conv2)
    then show ?thesis
    proof
      assume "w = t @ z"
      with 2(1) show ?thesis by (auto simp: str_contains_iff)
    next
      assume *: "t = w @ z \<and> c # v = z @ y"
      with assms(2) have "z = []" by (cases z) auto
      with * 2(1) show ?thesis by (auto simp: str_contains_iff) (metis append_Nil2)
    qed
  qed
qed

lemma contains_around_marker:
  assumes "str_contains (u @ redacted_marker @ v) t" "marker_free t"
  shows "str_contains u t \<or> str_contains v t"
proof -
  have "u @ redacted_marker @ v = u @ CHR ''['' # (''redacted'' @ CHR '']'' # v)"
    by (simp add: redacted_marker_def)
  with assms have "str_contains u t \<or> str_contains (''redacted'' @ CHR '']'' # v) t"
    by (metis contains_around_char marker_free_def)
  with assms(2) show ?thesis
    by (metis contains_around_char marker_free_def)
qed

lemma str_replace_keeps_absent:
  assumes "marker_free t" "str_contains (u @ str_replace pat redacted_marker s) t"
  shows "str_contains (u @ s) t"
  using assms(2)
proof (induction pat redacted_marker s arbitrary: u rule: str_replace.induct)
  case (1 pat s)
  show ?case
  proof (cases s)
    case Nil
    with 1 show ?thesis by simp
  next
    case (Cons c cs)
    show ?thesis
    proof (cases "pat \<noteq> [] \<and> prefix pat s")
      case True
      let ?rest = "drop (length pat) s"
      from 1 True Cons have "str_contains u t \<or> str_contains (str_replace pat redacted_marker ?rest) t"
        using contains_around_marker [OF _ assms(1)] by (simp add: str_replace_Cons)
      then have "str_contains u t \<or> str_contains ?rest t"
        using 1(1) [OF Cons, of "[]"] True Cons by auto
      moreover from True have "s = pat @ ?rest" by (auto simp: prefix_def)
      ultimately show ?thesis
        by (metis append.assoc str_contains_appendI1 str_contains_appendI2)
    next
      case False
      with 1(3) Cons have "str_contains ((u @ [c]) @ str_replace pat redacted_marker cs) t"
        by (auto simp: str_replace_Cons)
      with 1(2) [OF Cons, of "u @ [c]"] False Cons show ?thesis by auto
    qed
  qed
qed

text \<open>The pattern itself is gone: no occurrence starts in the part already read.\<close>

lemma str_replace_removes_aux:
  assumes "marker_free pat" "pat \<noteq> []"
    and "\<forall>i < length u. \<not> prefix pat (drop i (u @ s))"
  shows "\<not> str_contains (u @ str_replace pat redacted_marker s) pat"
  using assms(1,2,3)
proof (induction pat redacted_marker s arbitrary: u rule: str_replace.induct)
  case (1 pat s)
  have not_u: "\<not> str_contains u pat"
  proof
    assume "str_contains u pat"
    then obtain x y where u: "u = x @ pat @ y" by (auto simp: str_contains_iff)
    with \<open>pat \<noteq> []\<close> have "length x < length u" by simp
    moreover from u have "prefix pat (drop (length x) (u @ s))" by (simp add: prefix_def)
    ultimately show False using 1(5) by blast
  qed
  show ?case
  proof (cases s)
    case Nil
    with not_u show ?thesis by simp
  next
    case (Cons c cs)
    show ?thesis
    proof (cases "prefix pat s")
      case True
      then have "\<not> str_contains (str_replace pat redacted_marker (drop (length pat) s)) pat"
        using 1(1) [OF Cons, of "[]"] Cons 1(3,4) by auto
      with not_u True Cons 1(3,4) show ?thesis
        using contains_around_marker [of u "str_replace pat redacted_marker (drop (length pat) s)" pat]
        by (auto simp: str_replace_Cons)
    next
      case False
      have "\<forall>i < length (u @ [c]). \<not> prefix pat (drop i ((u @ [c]) @ cs))"
        using 1(5) False Cons by (auto simp: less_Suc_eq)
      then have "\<not> str_contains ((u @ [c]) @ str_replace pat redacted_marker cs) pat"
        using 1(2) [OF Cons, of "u @ [c]"] False Cons 1(3,4) by blast
      with False Cons show ?thesis by (auto simp: str_replace_Cons)
    qed
  qed
qed

lemma str_replace_removes:
  "marker_free pat \<Longrightarrow> pat \<noteq> [] \<Longrightarrow> \<not> str_contains (str_replace pat redacted_marker s) pat"
  using str_replace_removes_aux [of pat "[]" s] by simp

lemma redact_keeps_absent:
  assumes "marker_free t" "\<not> str_contains msg t"
  shows "\<not> str_contains (redact_sensitive secrets msg) t"
  using assms(2) unfolding redact_sensitive_def
proof (induction secrets arbitrary: msg)
  case (Cons p ps)
  have "\<not> str_contains (str_replace p redacted_marker msg) t"
    using str_replace_keeps_absent [OF assms(1), of "[]" p msg] Cons.prems by auto
  then show ?case using Cons.IH by simp
qed simp

text \<open>C40: no registered credential survives redaction, in whatever order the credentials were
  registered and however the message repeats or overlaps them. The credential must not itself
  contain a square bracket or the word that redaction writes between them.\<close>

theorem redact_removes_every_secret:
  assumes "s \<in> set secrets" "s \<noteq> []" "marker_free s"
  shows "\<not> str_contains (redact_sensitive secrets msg) s"
proof -
  from assms(1) obtain ps qs where secrets: "secrets = ps @ s # qs"
    by (auto dest: split_list)
  have "redact_sensitive secrets msg =
      redact_sensitive qs (str_replace s redacted_marker (redact_sensitive ps msg))"
    by (simp add: secrets redact_sensitive_def)
  with assms show ?thesis by (simp add: redact_keeps_absent str_replace_removes)
qed

theorem redact_removes_every_secret_witness:
  "\<not> str_contains (redact_sensitive [''hunter2-hunter2'', ''sk-live-0123'']
      ''key=sk-live-0123 pass=hunter2-hunter2'') ''sk-live-0123''"
  by (rule redact_removes_every_secret) (simp_all add: marker_free_def)

end
