(* ===== verification/Events.thy ===== *)
theory Events
  imports Core
begin

section \<open>harness-session: the event vocabulary\<close>

text \<open>
  The types of \<open>harness-session/src/events.rs\<close>: the payloads of the session log, the task
  state and the compaction artifact they carry, event identifiers and their generator,
  and the rendering of a compaction artifact. A \<open>PathBuf\<close> is its text; \<open>u32\<close>/\<open>u64\<close>
  counters are \<open>nat\<close>, exit codes \<open>int\<close>; a \<open>BTreeMap\<close> is its list of entries. The process
  environment the constructors read (process id, clock, global event counter) is the
  record \<open>event_env\<close>.
\<close>

subsection \<open>Event identifiers and timestamps\<close>

type_synonym event_id = string
type_synonym session_id = ident
type_synonym timestamp = nat

record event_env =
  env_pid :: nat
  env_clock :: "nat \<Rightarrow> nat"
  env_ticks :: nat
  env_counter :: nat

definition read_clock :: "event_env \<Rightarrow> nat \<times> event_env" where
  "read_clock env = (env_clock env (env_ticks env), env\<lparr>env_ticks := env_ticks env + 1\<rparr>)"

definition event_id_text :: "nat \<Rightarrow> nat \<Rightarrow> nat \<Rightarrow> event_id" where
  "event_id_text pid nanos counter = show_nat pid @ ''-'' @ show_nat nanos @ ''-'' @ show_nat counter"

definition event_id_new :: "event_env \<Rightarrow> event_id \<times> event_env" where
  "event_id_new env =
     (let (nanos, env) = read_clock env
      in (event_id_text (env_pid env) nanos (env_counter env),
          env\<lparr>env_counter := wrap64 (env_counter env + 1)\<rparr>))"

definition timestamp_now :: "event_env \<Rightarrow> timestamp \<times> event_env" where
  "timestamp_now env =
     (let (nanos, env) = read_clock env in (wrap64 (nanos div 1000000), env))"

subsection \<open>Event types\<close>

datatype event_type =
    T_SessionStarted | T_UserMessage | T_AssistantDelta | T_AssistantMessage
  | T_ModelRequested | T_ModelResponse | T_ModelChanged
  | T_ToolRequested | T_ToolApproved | T_ToolDenied | T_ToolStarted | T_ToolOutput
  | T_ToolCompleted | T_ToolFailed
  | T_SubagentStarted | T_SubagentCompleted | T_SubagentFailed | T_SubagentLinked
  | T_ProcessStarted | T_ProcessStdout | T_ProcessStderr | T_ProcessExited
  | T_BackgroundProcessStarted | T_BackgroundProcessStatus
  | T_PolicyDecision | T_FileChanged | T_CheckpointCreated | T_CheckpointRestored
  | T_VerificationStarted | T_VerificationResult
  | T_SessionResumed | T_ContextCompacted | T_TaskRunUpdated
  | T_SessionCompleted | T_SessionFailed

subsection \<open>Task state\<close>

datatype task_phase =
  Understand | PlanPhase | SearchRead | Edit | Verify | InspectDiff | Repair | Finish

datatype task_mode = Explore | PlanMode | CodeMode

record implementation_plan =
  ip_goal :: string
  relevant_architecture :: "string list"
  files_likely_affected :: "string list"
  implementation_steps :: "string list"
  ip_validation :: "string list"
  risks_or_unknowns :: "string list"

record goal =
  objective :: string
  constraints :: "string list"
  acceptance_criteria :: "string list"
  non_goals :: "string list"
  current_milestone :: "string option"
  completion_condition :: string

definition goal_default :: goal where
  "goal_default = \<lparr>objective = [], constraints = [], acceptance_criteria = [], non_goals = [],
     current_milestone = None, completion_condition = []\<rparr>"

definition goal_new :: "string \<Rightarrow> goal" where
  "goal_new obj = goal_default\<lparr>objective := obj, completion_condition :=
     ''Acceptance criteria pass, relevant validation succeeds, and the final diff is inspected; otherwise report the blocker or remaining work.''\<rparr>"

datatype plan_item_status = Pending | InProgress | Completed | BlockedItem

record execution_task =
  description :: string
  task_status :: plan_item_status

record execution_milestone =
  title :: string
  tasks :: "execution_task list"
  affected_architecture :: "string list"
  validation_commands :: "string list"
  completion_criteria :: "string list"
  milestone_status :: plan_item_status

record execution_plan =
  revision :: nat
  milestones :: "execution_milestone list"
  decision_notes :: "string list"
  plan_status :: plan_item_status

datatype task_completion_status =
  StatusInProgress | Done | Blocked | UserInputRequired | ResourceLimitReached | Cancelled

record task_verification_result =
  vr_command :: string
  vr_category :: string
  vr_passed :: bool
  vr_exit_code :: "int option"
  vr_summary :: string
  vr_affected_files :: "string list"
  vr_failure_origin :: "string option"
  vr_relevant_output :: string

record context_metrics =
  estimated_tokens_per_turn :: "nat list"
  reported_input_tokens_per_turn :: "nat option list"
  estimated_tokens_sent :: nat
  reused_context_tokens :: nat
  compactions :: nat
  retrieval_queries :: nat
  retrieved_files_used :: nat

definition context_metrics_default :: context_metrics where
  "context_metrics_default = \<lparr>estimated_tokens_per_turn = [], reported_input_tokens_per_turn = [],
     estimated_tokens_sent = 0, reused_context_tokens = 0, compactions = 0,
     retrieval_queries = 0, retrieved_files_used = 0\<rparr>"

record task_run =
  original_goal :: string
  run_goal :: goal
  run_task_mode :: task_mode
  run_acceptance_criteria :: "string list"
  current_phase :: task_phase
  current_plan :: "string list"
  run_context_metrics :: context_metrics
  structured_plan :: "implementation_plan option"
  run_execution_plan :: "execution_plan option"
  relevant_files :: "string list"
  changed_files :: "string list"
  commands_executed :: "string list"
  run_verification_results :: "task_verification_result list"
  final_diff_inspected :: bool
  unresolved_errors :: "string list"
  run_remaining_work :: "string list"
  completion_status :: task_completion_status

definition task_run_new :: "string \<Rightarrow> task_run" where
  "task_run_new g =
     \<lparr>original_goal = g, run_goal = goal_new g, run_task_mode = CodeMode,
      run_acceptance_criteria = [], current_phase = Understand, current_plan = [],
      run_context_metrics = context_metrics_default, structured_plan = None,
      run_execution_plan = None, relevant_files = [], changed_files = [],
      commands_executed = [], run_verification_results = [], final_diff_inspected = False,
      unresolved_errors = [], run_remaining_work = [], completion_status = StatusInProgress\<rparr>"

subsection \<open>The compaction artifact and its rendering\<close>

record compact_state =
  cs_task :: string
  cs_current_state :: string
  cs_goal :: "goal option"
  cs_execution_plan :: "execution_plan option"
  current_approach :: string
  discoveries :: "string list"
  important_symbols :: "string list"
  important_files :: "string list"
  files_modified :: "string list"
  decisions :: "string list"
  failed_attempts :: "string list"
  test_status :: "string list"
  commands_and_tests :: "string list"
  known_failures :: "string list"
  what_has_been_tried :: "string list"
  next_steps :: "string list"
  current_git_diff :: "string option"
  cs_remaining_work :: "string list"

definition compact_state_default :: compact_state where
  "compact_state_default =
     \<lparr>cs_task = [], cs_current_state = [], cs_goal = None, cs_execution_plan = None,
      current_approach = [], discoveries = [], important_symbols = [], important_files = [],
      files_modified = [], decisions = [], failed_attempts = [], test_status = [],
      commands_and_tests = [], known_failures = [], what_has_been_tried = [], next_steps = [],
      current_git_diff = None, cs_remaining_work = []\<rparr>"

definition push_section :: "string \<Rightarrow> string list \<Rightarrow> string list \<Rightarrow> string list" where
  "push_section name values sections =
     (if values = [] \<or> list_all (\<lambda>v. v = []) values then sections
      else sections @ [''### '' @ name @ [newline] @
        join [newline] (filter (\<lambda>v. trim v \<noteq> []) values)])"

fun debug_plan_item_status :: "plan_item_status \<Rightarrow> string" where
  "debug_plan_item_status Pending = ''Pending''"
| "debug_plan_item_status InProgress = ''InProgress''"
| "debug_plan_item_status Completed = ''Completed''"
| "debug_plan_item_status BlockedItem = ''Blocked''"

definition plan_progress_lines :: "execution_plan \<Rightarrow> string list" where
  "plan_progress_lines p =
     concat (map (\<lambda>m. (title m @ '' ['' @ debug_plan_item_status (milestone_status m) @ '']'') #
       map (\<lambda>t. ''- '' @ debug_plan_item_status (task_status t) @ '': '' @ description t) (tasks m))
       (milestones p))"

definition goal_sections :: "goal option \<Rightarrow> string list \<Rightarrow> string list" where
  "goal_sections g sections =
     (case g of
        None \<Rightarrow> sections
      | Some g \<Rightarrow>
          push_section ''completion condition'' [completion_condition g]
          (push_section ''non-goals'' (non_goals g)
          (push_section ''constraints'' (constraints g)
          (push_section ''acceptance criteria'' (acceptance_criteria g)
          (push_section ''persistent objective'' [objective g] sections)))))"

definition plan_sections :: "execution_plan option \<Rightarrow> string list \<Rightarrow> string list" where
  "plan_sections p sections =
     (case p of
        None \<Rightarrow> sections
      | Some p \<Rightarrow> push_section ''plan decisions'' (decision_notes p)
          (push_section ''execution plan progress'' (plan_progress_lines p) sections))"

definition rendered_goal :: "compact_state \<Rightarrow> string" where
  "rendered_goal s =
     (case cs_goal s of
        Some g \<Rightarrow> if objective g \<noteq> [] then objective g else cs_task s
      | None \<Rightarrow> cs_task s)"

definition render_sections :: "compact_state \<Rightarrow> string list" where
  "render_sections s =
     (let sections = push_section ''GOAL'' [rendered_goal s] [];
          sections = plan_sections (cs_execution_plan s) (goal_sections (cs_goal s) sections);
          current = (if cs_current_state s = [] then current_approach s else cs_current_state s);
          sections = push_section ''CURRENT STATE'' [current] sections;
          sections = push_section ''DECISIONS'' (decisions s) sections;
          sections = push_section ''FILES CHANGED'' (files_modified s) sections;
          sections = push_section ''IMPORTANT SYMBOLS'' (important_symbols s) sections;
          sections = push_section ''IMPORTANT FILES'' (important_files s) sections;
          sections = push_section ''DISCOVERIES'' (discoveries s) sections;
          sections = push_section ''COMMANDS/TESTS'' (commands_and_tests s) sections;
          sections = push_section ''TEST STATUS'' (test_status s) sections;
          sections = push_section ''KNOWN FAILURES'' (known_failures s) sections;
          sections = push_section ''FAILED ATTEMPTS'' (failed_attempts s) sections;
          sections = push_section ''WHAT HAS BEEN TRIED'' (what_has_been_tried s) sections;
          sections = push_section ''NEXT STEPS'' (next_steps s) sections;
          sections = push_section ''REMAINING WORK'' (cs_remaining_work s) sections
      in case current_git_diff s of
           None \<Rightarrow> sections
         | Some d \<Rightarrow> push_section ''CURRENT GIT DIFF'' [d] sections)"

definition render_compact_state :: "compact_state \<Rightarrow> string" where
  "render_compact_state s = join [newline, newline] (render_sections s)"

subsection \<open>Payloads and events\<close>

datatype file_change = Added | Modified | Deleted

datatype event_payload =
    SessionStarted string
  | UserMessage string
  | AssistantDelta string
  | AssistantMessage string
  | ModelRequested string string "nat option"
  | ModelResponse string string string "nat option" "nat option"
  | ModelChanged string string "string option"
  | ToolRequested string "(string \<times> string) list"
  | ToolApproved string "string option"
  | ToolDenied string string
  | ToolStarted string
  | ToolOutput string string
  | ToolCompleted string
  | ToolFailed string string
  | SubagentStarted string session_id string string
  | SubagentCompleted string session_id string string
  | SubagentFailed string session_id string string
  | SubagentLinked string session_id string
  | ProcessStarted string string nat
  | ProcessStdout string
  | ProcessStderr string
  | ProcessExited "int option" bool bool
  | BackgroundProcessStarted string string string nat nat
  | BackgroundProcessStatus string nat string "int option" bool
  | PolicyDecisionEvent string string string string string string "string list"
  | FileChanged string file_change
  | CheckpointCreated ident string
  | CheckpointRestored ident "string list" "string list"
  | VerificationStarted "string list"
  | VerificationResultEvent string string nat bool "int option" string "string list"
      "string list" "string option" string
  | SessionResumed "string option"
  | ContextCompacted nat string compact_state
  | TaskRunUpdated task_run
  | SessionCompleted "string option"
  | SessionFailed string

fun event_type_of :: "event_payload \<Rightarrow> event_type" where
  "event_type_of (SessionStarted _) = T_SessionStarted"
| "event_type_of (UserMessage _) = T_UserMessage"
| "event_type_of (AssistantDelta _) = T_AssistantDelta"
| "event_type_of (AssistantMessage _) = T_AssistantMessage"
| "event_type_of (ModelRequested _ _ _) = T_ModelRequested"
| "event_type_of (ModelResponse _ _ _ _ _) = T_ModelResponse"
| "event_type_of (ModelChanged _ _ _) = T_ModelChanged"
| "event_type_of (ToolRequested _ _) = T_ToolRequested"
| "event_type_of (ToolApproved _ _) = T_ToolApproved"
| "event_type_of (ToolDenied _ _) = T_ToolDenied"
| "event_type_of (ToolStarted _) = T_ToolStarted"
| "event_type_of (ToolOutput _ _) = T_ToolOutput"
| "event_type_of (ToolCompleted _) = T_ToolCompleted"
| "event_type_of (ToolFailed _ _) = T_ToolFailed"
| "event_type_of (SubagentStarted _ _ _ _) = T_SubagentStarted"
| "event_type_of (SubagentCompleted _ _ _ _) = T_SubagentCompleted"
| "event_type_of (SubagentFailed _ _ _ _) = T_SubagentFailed"
| "event_type_of (SubagentLinked _ _ _) = T_SubagentLinked"
| "event_type_of (ProcessStarted _ _ _) = T_ProcessStarted"
| "event_type_of (ProcessStdout _) = T_ProcessStdout"
| "event_type_of (ProcessStderr _) = T_ProcessStderr"
| "event_type_of (ProcessExited _ _ _) = T_ProcessExited"
| "event_type_of (BackgroundProcessStarted _ _ _ _ _) = T_BackgroundProcessStarted"
| "event_type_of (BackgroundProcessStatus _ _ _ _ _) = T_BackgroundProcessStatus"
| "event_type_of (PolicyDecisionEvent _ _ _ _ _ _ _) = T_PolicyDecision"
| "event_type_of (FileChanged _ _) = T_FileChanged"
| "event_type_of (CheckpointCreated _ _) = T_CheckpointCreated"
| "event_type_of (CheckpointRestored _ _ _) = T_CheckpointRestored"
| "event_type_of (VerificationStarted _) = T_VerificationStarted"
| "event_type_of (VerificationResultEvent _ _ _ _ _ _ _ _ _ _) = T_VerificationResult"
| "event_type_of (SessionResumed _) = T_SessionResumed"
| "event_type_of (ContextCompacted _ _ _) = T_ContextCompacted"
| "event_type_of (TaskRunUpdated _) = T_TaskRunUpdated"
| "event_type_of (SessionCompleted _) = T_SessionCompleted"
| "event_type_of (SessionFailed _) = T_SessionFailed"

record harness_event =
  schema_version :: nat
  ev_id :: event_id
  ev_session :: session_id
  ev_timestamp :: timestamp
  ev_type :: event_type
  parent_id :: "ident option"
  correlation_id :: "ident option"
  payload :: event_payload

definition harness_event_new ::
  "event_env \<Rightarrow> session_id \<Rightarrow> event_payload \<Rightarrow> ident option \<Rightarrow> ident option \<Rightarrow> harness_event \<times> event_env"
where
  "harness_event_new env sid p parent corr =
     (let (eid, env) = event_id_new env;
          (ts, env) = timestamp_now env
      in (\<lparr>schema_version = 1, ev_id = eid, ev_session = sid, ev_timestamp = ts,
           ev_type = event_type_of p, parent_id = parent, correlation_id = corr,
           payload = p\<rparr>, env))"

subsection \<open>Generated events\<close>

lemma harness_event_new_fields:
  assumes "harness_event_new env sid p parent corr = (e, env')"
  shows "schema_version e = 1" "ev_session e = sid" "payload e = p"
    "ev_type e = event_type_of p" "parent_id e = parent" "correlation_id e = corr"
    "env_pid env' = env_pid env" "env_counter env' = wrap64 (env_counter env + 1)"
  using assms
  by (auto simp: harness_event_new_def event_id_new_def timestamp_now_def read_clock_def)

lemma harness_event_new_id:
  "ev_id (fst (harness_event_new env sid p parent corr)) =
     event_id_text (env_pid env) (env_clock env (env_ticks env)) (env_counter env)"
  by (simp add: harness_event_new_def event_id_new_def timestamp_now_def read_clock_def Let_def)

text \<open>Decimal numerals have no hyphen and determine their number.\<close>

fun read_nat :: "string \<Rightarrow> nat \<Rightarrow> nat" where
  "read_nat [] n = n"
| "read_nat (c # cs) n = read_nat cs (10 * n + (byte_of c - 48))"

lemma read_nat_append: "read_nat (s @ t) n = read_nat t (read_nat s n)"
  by (induction s arbitrary: n) auto

lemma byte_of_digit: "d < 10 \<Longrightarrow> byte_of (char_of (48 + d :: nat)) = 48 + d"
  by (simp add: byte_of_def)

lemma show_nat_small: "n < 10 \<Longrightarrow> show_nat n = [char_of (48 + n)]"
  by (subst show_nat.simps) (simp add: div_eq_0_iff)

lemma show_nat_large: "\<not> n < 10 \<Longrightarrow> show_nat n = show_nat (n div 10) @ [char_of (48 + n mod 10)]"
  by (subst show_nat.simps) (auto simp: div_eq_0_iff split: nat.split)

lemma show_nat_induct [case_names small large]:
  assumes "\<And>n. n < 10 \<Longrightarrow> P n" "\<And>n. \<not> n < 10 \<Longrightarrow> P (n div 10) \<Longrightarrow> P n"
  shows "P (n :: nat)"
proof (induction n rule: less_induct)
  case (less n)
  show ?case
  proof (cases "n < 10")
    case False
    then have "n div 10 < n" by simp
    with less assms(2) False show ?thesis by blast
  qed (rule assms(1))
qed

lemma read_show_nat: "read_nat (show_nat n) 0 = n"
proof (induction n rule: show_nat_induct)
  case (small n)
  then show ?case by (simp add: show_nat_small byte_of_digit)
next
  case (large n)
  have "read_nat (show_nat n) 0 = 10 * read_nat (show_nat (n div 10)) 0 + n mod 10"
    by (simp add: show_nat_large [OF large(1)] read_nat_append byte_of_digit)
  also have "\<dots> = n" by (simp only: large(2)) simp
  finally show ?case .
qed

lemma show_nat_inject [simp]: "show_nat m = show_nat n \<longleftrightarrow> m = n"
  by (metis read_show_nat)

lemma digit_no_hyphen: "d < 10 \<Longrightarrow> CHR ''-'' \<noteq> char_of (48 + d :: nat)"
proof
  assume "d < 10" "CHR ''-'' = char_of (48 + d)"
  then have "byte_of (CHR ''-'') = 48 + d" using byte_of_digit by metis
  then show False by (simp add: byte_of_def)
qed

lemma show_nat_no_hyphen: "CHR ''-'' \<notin> set (show_nat n)"
proof (induction n rule: show_nat_induct)
  case (small n)
  then show ?case using digit_no_hyphen [of n] by (simp add: show_nat_small)
next
  case (large n)
  then show ?case using digit_no_hyphen [of "n mod 10"] by (simp add: show_nat_large)
qed

lemma hyphen_split:
  assumes "x @ c # y = x' @ c # y'" "c \<notin> set x" "c \<notin> set x'"
  shows "x = x' \<and> y = y'"
  using assms by (induction x arbitrary: x') (auto simp: Cons_eq_append_conv)

lemma event_id_text_inject:
  "event_id_text p n c = event_id_text p' n' c' \<Longrightarrow> p = p' \<and> n = n' \<and> c = c'"
  unfolding event_id_text_def
  by (auto dest!: hyphen_split simp: show_nat_no_hyphen)

section \<open>Every event can be numbered\<close>

text \<open>
  All parts of an event are finite data, so the event type is countable. The witnesses of
  the theorems about stored sessions use the numbering to give a concrete serializer.
\<close>

instance task_phase :: countable by countable_datatype
instance task_mode :: countable by countable_datatype
instance plan_item_status :: countable by countable_datatype
instance task_completion_status :: countable by countable_datatype
instance event_type :: countable by countable_datatype
instance file_change :: countable by countable_datatype

instance implementation_plan_ext :: (countable) countable
  by (rule countable_classI [of "\<lambda>r. to_nat (ip_goal r, relevant_architecture r,
    files_likely_affected r, implementation_steps r, ip_validation r, risks_or_unknowns r,
    implementation_plan.more r)"]) simp

instance goal_ext :: (countable) countable
  by (rule countable_classI [of "\<lambda>r. to_nat (objective r, constraints r, acceptance_criteria r,
    non_goals r, current_milestone r, completion_condition r, goal.more r)"]) simp

instance execution_task_ext :: (countable) countable
  by (rule countable_classI [of "\<lambda>r. to_nat (description r, task_status r,
    execution_task.more r)"]) simp

instance execution_milestone_ext :: (countable) countable
  by (rule countable_classI [of "\<lambda>r. to_nat (title r, tasks r, affected_architecture r,
    validation_commands r, completion_criteria r, milestone_status r,
    execution_milestone.more r)"]) simp

instance execution_plan_ext :: (countable) countable
  by (rule countable_classI [of "\<lambda>r. to_nat (revision r, milestones r, decision_notes r,
    plan_status r, execution_plan.more r)"]) simp

instance task_verification_result_ext :: (countable) countable
  by (rule countable_classI [of "\<lambda>r. to_nat (vr_command r, vr_category r, vr_passed r,
    vr_exit_code r, vr_summary r, vr_affected_files r, vr_failure_origin r,
    vr_relevant_output r, task_verification_result.more r)"]) simp

instance context_metrics_ext :: (countable) countable
  by (rule countable_classI [of "\<lambda>r. to_nat (estimated_tokens_per_turn r,
    reported_input_tokens_per_turn r, estimated_tokens_sent r, reused_context_tokens r,
    compactions r, retrieval_queries r, retrieved_files_used r, context_metrics.more r)"]) simp

instance task_run_ext :: (countable) countable
  by (rule countable_classI [of "\<lambda>r. to_nat ((original_goal r, run_goal r, run_task_mode r,
    run_acceptance_criteria r, current_phase r, current_plan r, run_context_metrics r,
    structured_plan r), run_execution_plan r, relevant_files r, changed_files r,
    commands_executed r, run_verification_results r, final_diff_inspected r,
    unresolved_errors r, run_remaining_work r, completion_status r, task_run.more r)"]) simp

instance compact_state_ext :: (countable) countable
  by (rule countable_classI [of "\<lambda>r. to_nat ((cs_task r, cs_current_state r, cs_goal r,
    cs_execution_plan r, current_approach r, discoveries r, important_symbols r,
    important_files r, files_modified r), decisions r, failed_attempts r, test_status r,
    commands_and_tests r, known_failures r, what_has_been_tried r, next_steps r,
    current_git_diff r, cs_remaining_work r, compact_state.more r)"]) simp

instance event_payload :: countable by countable_datatype

instance harness_event_ext :: (countable) countable
  by (rule countable_classI [of "\<lambda>r. to_nat (schema_version r, ev_id r, ev_session r,
    ev_timestamp r, ev_type r, parent_id r, correlation_id r, payload r,
    harness_event.more r)"]) simp

end
