(* ===== verification/Bus.thy ===== *)
theory Bus
  imports Events
begin

section \<open>harness-session: the event bus\<close>

text \<open>
  \<open>bus.rs\<close>: a bus keeps its subscribers in subscription order, each under an identifier of
  its own. Publishing takes a snapshot of the list and calls every subscriber of it once, in
  that order; the calls a publication makes are its value here. Dropping a subscription
  removes its entry. A handle of type \<open>'h\<close> stands for the subscriber object.
\<close>

record 'h event_bus =
  bus_next_id :: nat
  bus_subscribers :: "(nat \<times> 'h) list"

definition event_bus_new :: "'h event_bus" where
  "event_bus_new = \<lparr>bus_next_id = 0, bus_subscribers = []\<rparr>"

definition bus_subscribe :: "'h event_bus \<Rightarrow> 'h \<Rightarrow> nat \<times> 'h event_bus" where
  "bus_subscribe b h =
     (bus_next_id b,
      b\<lparr>bus_next_id := wrap64 (bus_next_id b + 1),
        bus_subscribers := bus_subscribers b @ [(bus_next_id b, h)]\<rparr>)"

definition bus_publish :: "'h event_bus \<Rightarrow> harness_event \<Rightarrow> ('h \<times> harness_event) list" where
  "bus_publish b e = map (\<lambda>(_, h). (h, e)) (bus_subscribers b)"

definition bus_unsubscribe :: "'h event_bus \<Rightarrow> nat \<Rightarrow> 'h event_bus" where
  "bus_unsubscribe b i = b\<lparr>bus_subscribers := filter (\<lambda>(j, _). j \<noteq> i) (bus_subscribers b)\<rparr>"

subsection \<open>A bus used within the range of its counter\<close>

datatype 'h bus_op = Subscribe 'h | Unsubscribe nat

fun bus_step :: "'h event_bus \<Rightarrow> 'h bus_op \<Rightarrow> 'h event_bus" where
  "bus_step b (Subscribe h) = snd (bus_subscribe b h)"
| "bus_step b (Unsubscribe i) = bus_unsubscribe b i"

definition bus_run :: "'h event_bus \<Rightarrow> 'h bus_op list \<Rightarrow> 'h event_bus" where
  "bus_run = foldl bus_step"

definition bus_inv :: "'h event_bus \<Rightarrow> bool" where
  "bus_inv b \<longleftrightarrow> distinct (map fst (bus_subscribers b)) \<and>
     (\<forall>i \<in> fst ` set (bus_subscribers b). i < bus_next_id b)"

lemma bus_inv_new: "bus_inv event_bus_new"
  by (simp add: bus_inv_def event_bus_new_def)

lemma bus_step_inv:
  assumes "bus_inv b" "bus_next_id b + 1 < 2 ^ 64"
  shows "bus_inv (bus_step b x) \<and> bus_next_id (bus_step b x) \<le> bus_next_id b + 1"
proof (cases x)
  case (Subscribe h)
  with assms show ?thesis
    by (auto simp: bus_inv_def bus_subscribe_def wrap64_def)
next
  case (Unsubscribe i)
  with assms show ?thesis
    by (auto simp: bus_inv_def bus_unsubscribe_def distinct_map_filter)
qed

lemma bus_run_inv:
  assumes "bus_inv b" "bus_next_id b + length xs < 2 ^ 64"
  shows "bus_inv (bus_run b xs) \<and> bus_next_id (bus_run b xs) \<le> bus_next_id b + length xs"
  using assms
proof (induction xs arbitrary: b)
  case (Cons x xs)
  then have "bus_inv (bus_step b x)" "bus_next_id (bus_step b x) \<le> bus_next_id b + 1"
    using bus_step_inv [of b x] by auto
  with Cons.IH [of "bus_step b x"] Cons.prems show ?case by (simp add: bus_run_def)
qed (simp add: bus_run_def)

lemma publish_after_unsubscribe:
  assumes "bus_inv b" "(i, h) \<in> set (bus_subscribers b)"
  shows "bus_publish (bus_unsubscribe b i) e =
    map (\<lambda>(_, h). (h, e)) (filter (\<lambda>p. p \<noteq> (i, h)) (bus_subscribers b))"
proof -
  have "\<And>p. p \<in> set (bus_subscribers b) \<Longrightarrow> fst p = i \<longleftrightarrow> p = (i, h)"
    using assms by (auto simp: bus_inv_def dest: eq_key_imp_eq_value)
  then have "filter (\<lambda>(j, _). j \<noteq> i) (bus_subscribers b) =
      filter (\<lambda>p. p \<noteq> (i, h)) (bus_subscribers b)"
    by (intro filter_cong refl) (simp add: case_prod_beta)
  then show ?thesis by (simp add: bus_publish_def bus_unsubscribe_def)
qed

lemma filter_neq_length:
  "distinct xs \<Longrightarrow> x \<in> set xs \<Longrightarrow> length (filter (\<lambda>y. y \<noteq> x) xs) + 1 = length xs"
proof (induction xs)
  case (Cons y ys)
  show ?case
  proof (cases "y = x")
    case True
    with Cons.prems have "filter (\<lambda>y. y \<noteq> x) ys = ys" by (auto simp: filter_id_conv)
    with True show ?thesis by simp
  next
    case False
    with Cons show ?thesis by simp
  qed
qed simp

end
