(* ===== verification/Paths.thy ===== *)
theory Paths
  imports Prelude
begin

section \<open>Paths\<close>

text \<open>
  What the crates use of \<open>std::path\<close>, on Unix: a path is its text; its components are the
  pieces between slashes, with empty pieces and every \<open>.\<close> that is not first left out.
  \<open>normalize_path\<close> is the function of that name in \<open>harness-policy/src/lib.rs\<close>, which
  resolves \<open>.\<close> and \<open>..\<close> on the text. Windows prefixes are not modelled.
\<close>

datatype component = RootDir | CurDir | ParentDir | Normal string

type_synonym path = string

abbreviation slash :: char where "slash \<equiv> CHR ''/''"

definition is_absolute :: "path \<Rightarrow> bool" where
  "is_absolute p \<longleftrightarrow> starts_with p [slash]"

definition piece_component :: "string \<Rightarrow> component" where
  "piece_component s = (if s = ''..'' then ParentDir else Normal s)"

definition path_pieces :: "path \<Rightarrow> string list" where
  "path_pieces p = split_on (\<lambda>c. c = slash) p"

definition components :: "path \<Rightarrow> component list" where
  "components p =
     (let pieces = path_pieces p;
          body = map piece_component (filter (\<lambda>s. s \<noteq> [] \<and> s \<noteq> ''.'') pieces)
      in if is_absolute p then RootDir # body
         else if pieces \<noteq> [] \<and> hd pieces = ''.'' then CurDir # body
         else body)"

text \<open>A \<open>PathBuf\<close> built by pushing and popping components, and its text.\<close>

definition path_text :: "component list \<Rightarrow> path" where
  "path_text cs =
     (let names = map (\<lambda>c. case c of Normal s \<Rightarrow> s | ParentDir \<Rightarrow> ''..'' | CurDir \<Rightarrow> ''.'' | RootDir \<Rightarrow> [])
                    (filter (\<lambda>c. c \<noteq> RootDir) cs)
      in (if cs \<noteq> [] \<and> hd cs = RootDir then [slash] else []) @ join [slash] names)"

text \<open>\<open>PathBuf::pop\<close>: the last component goes, but never the root.\<close>

definition pop_component :: "component list \<Rightarrow> component list" where
  "pop_component cs = (if cs = [] \<or> last cs = RootDir then cs else butlast cs)"

fun normalize_step :: "component list \<Rightarrow> component \<Rightarrow> component list" where
  "normalize_step acc RootDir = [RootDir]"
| "normalize_step acc CurDir = acc"
| "normalize_step acc ParentDir = pop_component acc"
| "normalize_step acc (Normal s) = acc @ [Normal s]"

definition normalize_components :: "component list \<Rightarrow> component list" where
  "normalize_components cs = foldl normalize_step [] cs"

definition normalize_path :: "path \<Rightarrow> path" where
  "normalize_path p = path_text (normalize_components (components p))"

text \<open>\<open>Path::starts_with\<close> compares whole components.\<close>

definition path_starts_with :: "path \<Rightarrow> path \<Rightarrow> bool" where
  "path_starts_with p root \<longleftrightarrow> prefix (components root) (components p)"

definition path_strip_prefix :: "path \<Rightarrow> path \<Rightarrow> path option" where
  "path_strip_prefix root p =
     (if path_starts_with p root
      then Some (path_text (drop (length (components root)) (components p)))
      else None)"

definition path_join :: "path \<Rightarrow> path \<Rightarrow> path" where
  "path_join root p =
     (if is_absolute p then p
      else if root = [] \<or> ends_with root [slash] then root @ p
      else root @ [slash] @ p)"

definition file_name :: "path \<Rightarrow> string option" where
  "file_name p =
     (let cs = components p
      in if cs = [] then None else case last cs of Normal s \<Rightarrow> Some s | _ \<Rightarrow> None)"

text \<open>\<open>file_stem\<close> and \<open>extension\<close>: split a file name at its last dot, unless it is first.\<close>

definition rsplit_dot :: "string \<Rightarrow> string \<times> string option" where
  "rsplit_dot name =
     (let ext = rev (takeWhile (\<lambda>c. c \<noteq> CHR ''.'') (rev name));
          stem = rev (drop 1 (dropWhile (\<lambda>c. c \<noteq> CHR ''.'') (rev name)))
      in if CHR ''.'' \<notin> set name \<or> stem = [] then (name, None) else (stem, Some ext))"

definition file_stem :: "path \<Rightarrow> string option" where
  "file_stem p = map_option (\<lambda>n. fst (rsplit_dot n)) (file_name p)"

definition path_extension :: "path \<Rightarrow> string option" where
  "path_extension p = (case file_name p of None \<Rightarrow> None | Some n \<Rightarrow> snd (rsplit_dot n))"

subsection \<open>Components and text\<close>

definition proper_name :: "string \<Rightarrow> bool" where
  "proper_name s \<longleftrightarrow> s \<noteq> [] \<and> s \<noteq> ''.'' \<and> s \<noteq> ''..'' \<and> slash \<notin> set s"

text \<open>A resolved path: an optional root, then names only.\<close>

definition resolved :: "component list \<Rightarrow> bool" where
  "resolved cs \<longleftrightarrow> (\<exists>names. list_all proper_name names \<and>
     (cs = map Normal names \<or> cs = RootDir # map Normal names))"

lemma split_on_no_sep: "s \<in> set (split_on p t) \<Longrightarrow> c \<in> set s \<Longrightarrow> \<not> p c"
proof (induction t arbitrary: s)
  case (Cons d t)
  then show ?case
    by (cases "split_on p t") (fastforce split: if_splits)+
qed simp

lemma split_on_word: "c \<notin> set x \<Longrightarrow> split_on (\<lambda>d. d = c) x = [x]"
  by (induction x) auto

lemma split_on_word_sep:
  "c \<notin> set x \<Longrightarrow> split_on (\<lambda>d. d = c) (x @ c # s) = x # split_on (\<lambda>d. d = c) s"
  by (induction x) auto

lemma split_on_join:
  assumes "\<forall>s \<in> set ws. c \<notin> set s" "ws \<noteq> []"
  shows "split_on (\<lambda>d. d = c) (join [c] ws) = ws"
  using assms
proof (induction ws)
  case (Cons w ws)
  then show ?case by (cases ws) (simp_all add: split_on_word split_on_word_sep)
qed simp

lemma resolved_cases:
  assumes "resolved cs"
  obtains names where "list_all proper_name names" "cs = map Normal names"
    | names where "list_all proper_name names" "cs = RootDir # map Normal names"
  using assms by (auto simp: resolved_def)

lemma proper_pieces:
  assumes "list_all proper_name names"
  shows "filter (\<lambda>s. s \<noteq> [] \<and> s \<noteq> ''.'') names = names"
    and "map piece_component names = map Normal names"
    and "\<forall>s \<in> set names. slash \<notin> set s"
  using assms by (auto simp: list_all_iff proper_name_def piece_component_def filter_id_conv)

lemma path_text_names: "path_text (map Normal names) = join [slash] names"
  by (cases names) (simp_all add: path_text_def comp_def filter_map)

lemma path_text_rooted: "path_text (RootDir # map Normal names) = slash # join [slash] names"
  by (simp add: path_text_def comp_def filter_map)

lemma components_empty_text: "components (path_text []) = []"
  by code_simp

lemma components_path_text:
  assumes "resolved cs"
  shows "components (path_text cs) = cs"
  using assms
proof (cases rule: resolved_cases)
  case (1 names)
  show ?thesis
  proof (cases names)
    case Nil
    with 1 have "cs = []" by simp
    then show ?thesis by (simp add: components_empty_text)
  next
    case (Cons n ns)
    then have pieces: "path_pieces (join [slash] names) = names"
      using proper_pieces(3) [OF 1(1)] by (simp add: path_pieces_def split_on_join)
    from 1(1) Cons have n: "n \<noteq> []" "n \<noteq> ''.''" "hd n \<noteq> slash"
      by (cases n; auto simp: proper_name_def)+
    then have "\<not> is_absolute (join [slash] names)"
      using Cons by (cases ns; cases n) (auto simp: is_absolute_def)
    moreover have "names \<noteq> []" "hd names \<noteq> ''.''"
      using n Cons by simp_all
    ultimately have "components (join [slash] names) = map Normal names"
      using pieces proper_pieces(1,2) [OF 1(1)] by (simp add: components_def Let_def)
    then show ?thesis by (simp only: 1(2) path_text_names)
  qed
next
  case (2 names)
  have "path_pieces (slash # join [slash] names) = [] # (if names = [] then [[]] else names)"
    using proper_pieces(3) [OF 2(1)] by (simp add: path_pieces_def split_on_join)
  then have "components (slash # join [slash] names) = RootDir # map Normal names"
    using proper_pieces(1,2) [OF 2(1)]
    by (simp add: components_def is_absolute_def Let_def)
  then show ?thesis by (simp only: 2(2) path_text_rooted)
qed

definition body_component :: "component \<Rightarrow> bool" where
  "body_component c \<longleftrightarrow> c = ParentDir \<or> (\<exists>s. c = Normal s \<and> proper_name s)"

lemma components_body:
  obtains hd_part body where "components p = hd_part @ body" "list_all body_component body"
    "hd_part = [] \<or> hd_part = [RootDir] \<or> hd_part = [CurDir]"
proof -
  let ?body = "map piece_component (filter (\<lambda>s. s \<noteq> [] \<and> s \<noteq> ''.'') (path_pieces p))"
  have "list_all body_component ?body"
    using split_on_no_sep [of _ "\<lambda>c. c = slash" p]
    by (auto simp: list_all_iff body_component_def piece_component_def proper_name_def
        path_pieces_def)
  moreover have "components p = [RootDir] @ ?body \<or> components p = [CurDir] @ ?body
      \<or> components p = [] @ ?body"
    by (simp add: components_def Let_def)
  ultimately show thesis using that by blast
qed

lemma resolved_Nil [simp]: "resolved []"
  by (auto simp: resolved_def intro: exI [of _ "[]"])

lemma resolved_root [simp]: "resolved [RootDir]"
  by (auto simp: resolved_def intro: exI [of _ "[]"])

lemma resolved_snoc: "resolved cs \<Longrightarrow> proper_name s \<Longrightarrow> resolved (cs @ [Normal s])"
  by (auto simp: resolved_def intro: exI [of _ "_ @ [s]"])

lemma resolved_pop:
  assumes "resolved cs"
  shows "resolved (pop_component cs)"
  using assms
proof (cases rule: resolved_cases)
  case (1 names)
  then show ?thesis
    by (cases names rule: rev_cases) (auto simp: pop_component_def resolved_def)
next
  case (2 names)
  then show ?thesis
  proof (cases names rule: rev_cases)
    case (snoc ns n)
    with 2 show ?thesis
      by (auto simp: pop_component_def resolved_def butlast_append)
  qed (simp add: pop_component_def)
qed

lemma normalize_fold_resolved:
  assumes "resolved acc" "list_all body_component body"
  shows "resolved (foldl normalize_step acc body)"
  using assms
proof (induction body arbitrary: acc)
  case (Cons c body)
  then have "resolved (normalize_step acc c)"
    by (cases c) (simp_all add: body_component_def resolved_pop resolved_snoc)
  with Cons show ?case by simp
qed simp

lemma resolved_normalize: "resolved (normalize_components (components p))"
proof -
  obtain h b where "components p = h @ b" "list_all body_component b"
    "h = [] \<or> h = [RootDir] \<or> h = [CurDir]"
    by (rule components_body)
  then have "normalize_components (components p) =
      foldl normalize_step (if h = [RootDir] then [RootDir] else []) b"
    by (auto simp: normalize_components_def)
  then show ?thesis
    using \<open>list_all body_component b\<close> by (simp add: normalize_fold_resolved)
qed

lemma components_normalize_path:
  "components (normalize_path p) = normalize_components (components p)"
  by (simp add: normalize_path_def components_path_text resolved_normalize)

lemma normalize_names: "foldl normalize_step acc (map Normal names) = acc @ map Normal names"
  by (induction names arbitrary: acc) auto

lemma normalize_resolved: "resolved cs \<Longrightarrow> normalize_components cs = cs"
  by (erule resolved_cases) (simp_all add: normalize_components_def normalize_names)

lemma normalize_path_idem [simp]: "normalize_path (normalize_path p) = normalize_path p"
  using resolved_normalize [of p]
  by (simp add: normalize_path_def components_path_text normalize_resolved)

lemma resolved_no_dots: "resolved cs \<Longrightarrow> ParentDir \<notin> set cs \<and> CurDir \<notin> set cs"
  by (auto simp: resolved_def)

lemma path_starts_with_refl [simp]: "path_starts_with p p"
  by (simp add: path_starts_with_def)

lemma path_starts_with_trans:
  "path_starts_with p q \<Longrightarrow> path_starts_with q r \<Longrightarrow> path_starts_with p r"
  by (auto simp: path_starts_with_def intro: prefix_order.trans)

subsection \<open>Joining a name\<close>

lemma split_on_ne: "split_on p s \<noteq> []"
  by (induction s) (auto split: list.split)

lemma split_on_sep: "p c \<Longrightarrow> split_on p (s @ c # t) = split_on p s @ split_on p t"
proof (induction s)
  case (Cons a s)
  then show ?case by (cases "split_on p s") (auto simp: split_on_ne)
qed simp

lemma components_join_name:
  assumes "slash \<notin> set n" "n \<noteq> []" "n \<noteq> ''.''" "n \<noteq> ''..''"
  shows "components (path_join root n) = components root @ [Normal n]"
proof -
  have pieces_n: "path_pieces n = [n]" and rel: "\<not> is_absolute n"
    using assms by (cases n; auto simp: path_pieces_def split_on_word is_absolute_def)+
  consider "root = []" | r where "root = r @ [slash]"
    | "root \<noteq> []" "\<not> ends_with root [slash]"
    by (auto simp: suffix_def)
  then show ?thesis
  proof cases
    case 1
    with assms pieces_n rel show ?thesis
      by (simp add: path_join_def components_def piece_component_def path_pieces_def is_absolute_def)
  next
    case (2 r)
    have "path_pieces root = path_pieces r @ [[]]" "path_pieces (root @ n) = path_pieces r @ path_pieces n"
      unfolding path_pieces_def 2
      using split_on_sep [of "\<lambda>c. c = slash" slash r "[]"]
        split_on_sep [of "\<lambda>c. c = slash" slash r n] by simp_all
    moreover have "path_pieces r \<noteq> []" by (simp add: path_pieces_def split_on_ne)
    moreover have "is_absolute (root @ n) = is_absolute root"
      unfolding is_absolute_def 2 by (cases r) simp_all
    ultimately have "components (root @ n) = components root @ [Normal n]"
      using assms pieces_n by (simp add: components_def Let_def piece_component_def hd_append)
    with rel 2 show ?thesis by (simp add: path_join_def suffix_def)
  next
    case 3
    have "path_pieces (root @ slash # n) = path_pieces root @ path_pieces n"
      unfolding path_pieces_def by (rule split_on_sep) simp
    moreover have "path_pieces root \<noteq> []" by (simp add: path_pieces_def split_on_ne)
    moreover have "is_absolute (root @ slash # n) = is_absolute root"
      using 3(1) by (cases root) (simp_all add: is_absolute_def)
    ultimately have "components (root @ slash # n) = components root @ [Normal n]"
      using assms pieces_n by (simp add: components_def Let_def piece_component_def hd_append)
    with rel 3 show ?thesis by (simp add: path_join_def)
  qed
qed

end
