(* ===== verification/Utf8.thy ===== *)
theory Utf8
  imports Prelude
begin

section \<open>Lossy UTF-8 decoding of file contents\<close>

text \<open>
  \<open>String::from_utf8_lossy\<close>, which the session store applies to a log before it splits it
  into lines: well-formed characters are kept, and every maximal ill-formed piece (a
  lead byte with the continuation bytes that fit, or one stray byte) becomes U+FFFD. The
  lemmas say what the store relies on: decoding never joins two lines.
\<close>

definition replacement :: string where
  "replacement = [CHR 0xEF, CHR 0xBF, CHR 0xBD]"

definition in_range :: "nat \<times> nat \<Rightarrow> char \<Rightarrow> bool" where
  "in_range r c \<longleftrightarrow> fst r \<le> byte_of c \<and> byte_of c \<le> snd r"

text \<open>The ranges of the bytes that must follow a lead byte; \<open>None\<close> for no lead byte.\<close>

definition tail_ranges :: "char \<Rightarrow> (nat \<times> nat) list option" where
  "tail_ranges a =
     (if byte_of a < 128 then Some []
      else if in_range (194, 223) a then Some [(128, 191)]
      else if byte_of a = 224 then Some [(160, 191), (128, 191)]
      else if byte_of a = 237 then Some [(128, 159), (128, 191)]
      else if in_range (225, 239) a then Some [(128, 191), (128, 191)]
      else if byte_of a = 240 then Some [(144, 191), (128, 191), (128, 191)]
      else if in_range (241, 243) a then Some [(128, 191), (128, 191), (128, 191)]
      else if byte_of a = 244 then Some [(128, 143), (128, 191), (128, 191)]
      else None)"

fun match_ranges :: "(nat \<times> nat) list \<Rightarrow> string \<Rightarrow> bool \<times> nat" where
  "match_ranges [] s = (True, 0)"
| "match_ranges (r # rs) [] = (False, 0)"
| "match_ranges (r # rs) (c # cs) =
     (if in_range r c then (let (ok, n) = match_ranges rs cs in (ok, Suc n)) else (False, 0))"

definition utf8_head :: "char \<Rightarrow> string \<Rightarrow> bool \<times> nat" where
  "utf8_head a s = (case tail_ranges a of None \<Rightarrow> (False, 0) | Some rs \<Rightarrow> match_ranges rs s)"

function from_utf8_lossy :: "string \<Rightarrow> string" where
  "from_utf8_lossy [] = []"
| "from_utf8_lossy (a # s) =
     (case utf8_head a s of (ok, n) \<Rightarrow>
        (if ok then a # take n s else replacement) @ from_utf8_lossy (drop n s))"
  by pat_completeness auto
termination
  by (relation "measure length") auto

subsection \<open>Decoding line by line\<close>

lemma match_ranges_length: "match_ranges rs s = (ok, n) \<Longrightarrow> n \<le> length s"
  by (induction rs s arbitrary: ok n rule: match_ranges.induct) (auto split: if_splits prod.splits)

lemma match_ranges_ascii:
  assumes "\<forall>r \<in> set rs. 128 \<le> fst r" "byte_of c < 128"
  shows "match_ranges rs (s @ c # t) = match_ranges rs s"
  using assms
proof (induction rs s rule: match_ranges.induct)
  case (2 r rs)
  then show ?case by (auto simp: in_range_def)
qed auto

lemma tail_ranges_high: "tail_ranges a = Some rs \<Longrightarrow> r \<in> set rs \<Longrightarrow> 128 \<le> fst r"
  by (auto simp: tail_ranges_def split: if_splits)

lemma utf8_head_before_ascii: "byte_of c < 128 \<Longrightarrow> utf8_head a (s @ c # t) = utf8_head a s"
  using tail_ranges_high [of a]
  by (auto simp: utf8_head_def split: option.split intro!: match_ranges_ascii)

lemma utf8_head_length: "utf8_head a s = (ok, n) \<Longrightarrow> n \<le> length s"
  by (auto simp: utf8_head_def dest: match_ranges_length split: option.splits)

lemma utf8_head_ascii: "byte_of a < 128 \<Longrightarrow> utf8_head a s = (True, 0)"
  by (simp add: utf8_head_def tail_ranges_def)

lemma from_utf8_lossy_ascii_Cons:
  "byte_of a < 128 \<Longrightarrow> from_utf8_lossy (a # s) = a # from_utf8_lossy s"
  by (simp add: utf8_head_ascii)

text \<open>Decoding splits at every ASCII byte.\<close>

lemma from_utf8_lossy_at_ascii:
  assumes "byte_of c < 128"
  shows "from_utf8_lossy (s @ c # t) = from_utf8_lossy s @ c # from_utf8_lossy t"
proof (induction s rule: from_utf8_lossy.induct)
  case 1
  show ?case
    using assms by (simp del: from_utf8_lossy.simps(2) add: from_utf8_lossy_ascii_Cons)
next
  case (2 a s)
  obtain ok n where head: "utf8_head a s = (ok, n)" by fastforce
  then have "n \<le> length s" by (rule utf8_head_length)
  with 2 [OF head [symmetric]] head assms show ?case by (simp add: utf8_head_before_ascii)
qed

lemma from_utf8_lossy_newline:
  "from_utf8_lossy (s @ newline # t) = from_utf8_lossy s @ newline # from_utf8_lossy t"
  by (rule from_utf8_lossy_at_ascii) (simp add: byte_of_def)

lemma from_utf8_lossy_ascii:
  "\<forall>c \<in> set s. byte_of c < 128 \<Longrightarrow> from_utf8_lossy s = s"
  by (induction s) (auto simp: utf8_head_ascii)

lemma set_from_utf8_lossy:
  "set (from_utf8_lossy s) \<subseteq> set s \<union> set replacement"
proof (induction s rule: from_utf8_lossy.induct)
  case (2 a s)
  obtain ok n where head: "utf8_head a s = (ok, n)" by fastforce
  with 2 [OF head [symmetric]] show ?case
    by (auto dest: in_set_takeD in_set_dropD)
qed simp

lemma newline_from_utf8_lossy: "newline \<notin> set s \<Longrightarrow> newline \<notin> set (from_utf8_lossy s)"
  using set_from_utf8_lossy [of s] by (auto simp: replacement_def)

declare from_utf8_lossy.simps(2) [simp del]

subsection \<open>Lines of a text that ends its last line\<close>

definition line_closed :: "string \<Rightarrow> bool" where
  "line_closed s \<longleftrightarrow> s = [] \<or> last s = newline"

lemma line_closed_cases:
  assumes "line_closed s"
  obtains "s = []" | u where "s = u @ [newline]"
  using assms by (metis line_closed_def append_butlast_last_id)

lemma str_lines_append:
  assumes "line_closed s"
  shows "str_lines (s @ t) = str_lines s @ str_lines t"
  using assms
proof (induction s rule: measure_induct_rule [where f = length])
  case (less s)
  show ?case
  proof (cases "newline \<in> set s")
    case False
    with less.prems have "s = []" by (metis line_closed_def last_in_set)
    then show ?thesis by simp
  next
    case True
    then obtain l r where s: "s = l @ newline # r" and l: "newline \<notin> set l"
      by (metis split_list_first)
    with less.prems have "line_closed r" by (auto simp: line_closed_def split: if_splits)
    with less.IH [of r] s l show ?thesis by (simp add: str_lines_line)
  qed
qed

lemma line_closed_from_utf8_lossy:
  assumes "line_closed s"
  shows "line_closed (from_utf8_lossy s)"
  using assms
proof (cases rule: line_closed_cases)
  case (2 u)
  then show ?thesis
    using from_utf8_lossy_newline [of u "[]"] by (simp add: line_closed_def)
qed (simp add: line_closed_def)

lemma from_utf8_lossy_append:
  assumes "line_closed s"
  shows "from_utf8_lossy (s @ t) = from_utf8_lossy s @ from_utf8_lossy t"
  using assms
proof (cases rule: line_closed_cases)
  case (2 u)
  then show ?thesis
    using from_utf8_lossy_newline [of u t] from_utf8_lossy_newline [of u "[]"] by simp
qed simp

end
