(* ===== verification/Session.thy ===== *)
theory Session
  imports Bus Paths Utf8 "HOL-Library.Product_Lexorder" "HOL-Library.Multiset"
begin

section \<open>harness-session: the JSONL session store\<close>

text \<open>
  \<open>harness-session/src/lib.rs\<close>. A store is a directory of append-only logs, one JSON record
  per line. Its state is the root, the bytes of each file, the event bus with the calls made
  so far, and the JSON codec (\<open>serde_json\<close>, third-party code: the fields \<open>encode\<close> and
  \<open>decode\<close>, which no operation changes). What the operating system does to one operation is
  the record \<open>io_env\<close>: \<open>canonicalize\<close>'s answer, the number of bytes a write puts on disk
  before it fails, and whether the clean-up \<open>remove_file\<close> succeeds. The append lock only
  serialises operations and is not modelled.
\<close>

subsection \<open>Sessions and their reconstructed state\<close>

record session =
  s_id :: session_id
  s_workspace_root :: path
  s_created_at :: timestamp
  s_last_updated_at :: timestamp
  s_events :: "harness_event list"

datatype session_status = Active | SCompleted | SFailed

datatype message_role = User | Assistant

record conversation_message =
  msg_role :: message_role
  msg_text :: string

record session_state =
  st_session_id :: session_id
  st_status :: session_status
  st_messages :: "conversation_message list"
  st_tool_events :: nat
  st_files_changed :: nat
  st_checkpoints_created :: nat
  st_verification_results :: nat
  st_context_compactions :: nat
  st_continuation :: "compact_state option"
  st_working_messages :: "conversation_message list"
  st_task_run :: "task_run option"
  st_last_event_id :: "event_id option"

record session_summary =
  sum_id :: session_id
  sum_workspace_root :: path
  sum_title :: "string option"
  sum_status :: session_status
  sum_created_at :: timestamp
  sum_last_updated_at :: timestamp
  sum_event_count :: nat
  sum_context_compactions :: nat

record session_warning =
  warn_line :: nat
  warn_reason :: string

record session_load_report =
  rep_session :: session
  rep_warnings :: "session_warning list"

subsection \<open>Validation\<close>

definition validate_event ::
  "harness_event \<Rightarrow> event_id set \<Rightarrow> harness_error + event_id set" where
  "validate_event e ids =
     (if schema_version e \<noteq> 1
      then Inl (InvalidEvent (''unsupported schema version '' @ show_nat (schema_version e)))
      else if ev_type e \<noteq> event_type_of (payload e)
      then Inl (InvalidEvent (''event type does not match payload for '' @ ev_id e))
      else if ev_id e \<in> ids
      then Inl (InvalidEvent (''duplicate event ID '' @ ev_id e))
      else Inr (insert (ev_id e) ids))"

fun validate_events_from ::
  "session_id \<Rightarrow> harness_event list \<Rightarrow> event_id set \<Rightarrow> harness_error + unit" where
  "validate_events_from sid [] ids = Inr ()"
| "validate_events_from sid (e # es) ids =
     (if ev_session e \<noteq> sid
      then Inl (InvalidEvent (''event '' @ ev_id e @ '' belongs to another session''))
      else case validate_event e ids of
        Inl err \<Rightarrow> Inl err
      | Inr ids' \<Rightarrow> validate_events_from sid es ids')"

definition validate_events :: "session_id \<Rightarrow> harness_event list \<Rightarrow> harness_error + unit" where
  "validate_events sid es = validate_events_from sid es {}"

definition reconstruct_session ::
  "session_id \<Rightarrow> harness_event list \<Rightarrow> harness_error + session" where
  "reconstruct_session sid es =
     (case es of
        [] \<Rightarrow> Inl (SessionError ''session history has no events'')
      | first # _ \<Rightarrow>
          (case payload first of
             SessionStarted root \<Rightarrow>
               (case validate_events sid es of
                  Inl err \<Rightarrow> Inl err
                | Inr _ \<Rightarrow> Inr \<lparr>s_id = sid, s_workspace_root = root,
                    s_created_at = ev_timestamp first,
                    s_last_updated_at = ev_timestamp (last es), s_events = es\<rparr>)
           | _ \<Rightarrow> Inl (InvalidEvent ''first session event must be session.started'')))"

subsection \<open>Replaying a log\<close>

definition initial_state :: "session_id \<Rightarrow> session_state" where
  "initial_state sid =
     \<lparr>st_session_id = sid, st_status = Active, st_messages = [], st_tool_events = 0,
      st_files_changed = 0, st_checkpoints_created = 0, st_verification_results = 0,
      st_context_compactions = 0, st_continuation = None, st_working_messages = [],
      st_task_run = None, st_last_event_id = None\<rparr>"

definition push_message :: "message_role \<Rightarrow> string \<Rightarrow> session_state \<Rightarrow> session_state" where
  "push_message role t st =
     (let m = \<lparr>msg_role = role, msg_text = t\<rparr>;
          st = st\<lparr>st_messages := st_messages st @ [m]\<rparr>
      in if st_continuation st \<noteq> None
         then st\<lparr>st_working_messages := st_working_messages st @ [m]\<rparr> else st)"

definition count_tool_event :: "session_state \<Rightarrow> session_state" where
  "count_tool_event st = st\<lparr>st_tool_events := st_tool_events st + 1\<rparr>"

text \<open>The \<open>match\<close> of the replay loop; the Boolean is its \<open>terminal\<close> flag.\<close>

fun apply_payload :: "event_payload \<Rightarrow> session_state \<times> bool \<Rightarrow> session_state \<times> bool" where
  "apply_payload (UserMessage t) (st, ended) = (push_message User t st, ended)"
| "apply_payload (AssistantMessage t) (st, ended) = (push_message Assistant t st, ended)"
| "apply_payload (ToolRequested _ _) (st, ended) = (count_tool_event st, ended)"
| "apply_payload (ToolApproved _ _) (st, ended) = (count_tool_event st, ended)"
| "apply_payload (ToolDenied _ _) (st, ended) = (count_tool_event st, ended)"
| "apply_payload (ToolStarted _) (st, ended) = (count_tool_event st, ended)"
| "apply_payload (ToolOutput _ _) (st, ended) = (count_tool_event st, ended)"
| "apply_payload (ToolCompleted _) (st, ended) = (count_tool_event st, ended)"
| "apply_payload (ToolFailed _ _) (st, ended) = (count_tool_event st, ended)"
| "apply_payload (FileChanged _ _) (st, ended) =
     (st\<lparr>st_files_changed := st_files_changed st + 1\<rparr>, ended)"
| "apply_payload (CheckpointCreated _ _) (st, ended) =
     (st\<lparr>st_checkpoints_created := st_checkpoints_created st + 1\<rparr>, ended)"
| "apply_payload (VerificationResultEvent _ _ _ _ _ _ _ _ _ _) (st, ended) =
     (st\<lparr>st_verification_results := st_verification_results st + 1\<rparr>, ended)"
| "apply_payload (ContextCompacted _ _ cs) (st, ended) =
     (st\<lparr>st_context_compactions := st_context_compactions st + 1,
         st_continuation := Some cs,
         st_working_messages := rev (take 4 (rev (st_messages st)))\<rparr>, ended)"
| "apply_payload (TaskRunUpdated tr) (st, ended) = (st\<lparr>st_task_run := Some tr\<rparr>, ended)"
| "apply_payload (SessionCompleted _) (st, ended) = (st\<lparr>st_status := SCompleted\<rparr>, True)"
| "apply_payload (SessionFailed _) (st, ended) = (st\<lparr>st_status := SFailed\<rparr>, True)"
| "apply_payload _ (st, ended) = (st, ended)"

definition is_resumed :: "event_payload \<Rightarrow> bool" where
  "is_resumed p = (case p of SessionResumed _ \<Rightarrow> True | _ \<Rightarrow> False)"

definition may_follow_terminal :: "event_payload \<Rightarrow> bool" where
  "may_follow_terminal p =
     (case p of SessionResumed _ \<Rightarrow> True | ModelChanged _ _ _ \<Rightarrow> True | _ \<Rightarrow> False)"

definition replay_step ::
  "session_state \<times> bool \<Rightarrow> harness_event \<Rightarrow> harness_error + (session_state \<times> bool)" where
  "replay_step s e =
     (if snd s \<and> \<not> may_follow_terminal (payload e)
      then Inl (InvalidEvent ''events cannot follow a terminal session event'')
      else
        let s = (if is_resumed (payload e) then ((fst s)\<lparr>st_status := Active\<rparr>, False) else s);
            s = apply_payload (payload e) s
        in Inr ((fst s)\<lparr>st_last_event_id := Some (ev_id e)\<rparr>, snd s))"

fun replay ::
  "session_state \<times> bool \<Rightarrow> harness_event list \<Rightarrow> harness_error + (session_state \<times> bool)" where
  "replay s [] = Inr s"
| "replay s (e # es) = bind_result (replay_step s e) (\<lambda>s'. replay s' es)"

definition is_started :: "event_payload \<Rightarrow> bool" where
  "is_started p = (case p of SessionStarted _ \<Rightarrow> True | _ \<Rightarrow> False)"

definition reconstruct_state ::
  "session_id \<Rightarrow> harness_event list \<Rightarrow> harness_error + session_state" where
  "reconstruct_state sid es =
     (case validate_events sid es of
        Inl err \<Rightarrow> Inl err
      | Inr _ \<Rightarrow>
          if es = [] \<or> \<not> is_started (payload (hd es))
          then Inl (InvalidEvent ''first session event must be session.started'')
          else bind_result (replay (initial_state sid, False) es) (\<lambda>s. Inr (fst s)))"

definition session_state_of :: "session \<Rightarrow> harness_error + session_state" where
  "session_state_of s = reconstruct_state (s_id s) (s_events s)"

subsection \<open>The store\<close>

record jsonl_store =
  root_dir :: path
  files :: "path \<rightharpoonup> string"
  encode :: "harness_event \<Rightarrow> string + string"
  decode :: "string \<Rightarrow> string + harness_event"
  event_bus :: "nat event_bus"
  calls :: "(nat \<times> harness_event) list"

record io_env =
  canonical :: "path \<Rightarrow> harness_error + path"
  write_limit :: "nat option"
  remove_works :: bool

definition bad_id_char :: "char \<Rightarrow> bool" where
  "bad_id_char c \<longleftrightarrow> c = CHR ''/'' \<or> c = CHR 0x5C \<or> c = CHR '':''"

definition session_path :: "jsonl_store \<Rightarrow> session_id \<Rightarrow> harness_error + path" where
  "session_path st sid =
     (if sid = [] \<or> sid = ''.'' \<or> sid = ''..'' \<or> list_ex bad_id_char sid
      then Inl (InvalidId ''session identifier cannot contain path separators'')
      else Inr (path_join (root_dir st) (sid @ ''.jsonl'')))"

text \<open>
  \<open>write_event\<close>: the record, then the newline, appended to what the file holds. With
  \<open>write_limit = Some k\<close> the first \<open>k\<close> bytes reach the disk and the write then fails; the
  store's file is changed all the same.
\<close>

definition write_event ::
  "io_env \<Rightarrow> jsonl_store \<Rightarrow> path \<Rightarrow> harness_event \<Rightarrow> (harness_error + unit) \<times> jsonl_store" where
  "write_event io st p e =
     (case encode st e of
        Inl err \<Rightarrow> (Inl (SessionError (''could not serialize event: '' @ err)), st)
      | Inr t \<Rightarrow>
          let old = (case files st p of None \<Rightarrow> [] | Some c \<Rightarrow> c);
              bytes = t @ [newline]
          in case write_limit io of
               None \<Rightarrow> (Inr (), st\<lparr>files := (files st)(p \<mapsto> old @ bytes)\<rparr>)
             | Some k \<Rightarrow> (Inl (IoError ''write failed''),
                 st\<lparr>files := (files st)(p \<mapsto> old @ take k bytes)\<rparr>))"

definition publish :: "jsonl_store \<Rightarrow> harness_event \<Rightarrow> jsonl_store" where
  "publish st e = st\<lparr>calls := calls st @ bus_publish (event_bus st) e\<rparr>"

definition numbered_lines :: "string \<Rightarrow> (nat \<times> string) list" where
  "numbered_lines contents =
     filter (\<lambda>(_, l). trim l \<noteq> []) (List.enumerate 0 (str_lines contents))"

fun parse_records ::
  "(string \<Rightarrow> string + harness_event) \<Rightarrow> path \<Rightarrow> nat \<Rightarrow> (nat \<times> string) list \<Rightarrow>
   harness_error + (harness_event list \<times> session_warning list)" where
  "parse_records dec p last_line [] = Inr ([], [])"
| "parse_records dec p last_line ((n, l) # rest) =
     (case dec l of
        Inr e \<Rightarrow> bind_result (parse_records dec p last_line rest) (\<lambda>(es, ws). Inr (e # es, ws))
      | Inl err \<Rightarrow>
          if n = last_line
          then bind_result (parse_records dec p last_line rest)
            (\<lambda>(es, ws). Inr (es, \<lparr>warn_line = n + 1,
               warn_reason = ''ignored incomplete trailing record: '' @ err\<rparr> # ws))
          else Inl (SessionError (p @ '':'' @ show_nat (n + 1) @ '': invalid JSONL record: '' @ err)))"

definition read_events ::
  "(string \<Rightarrow> string + harness_event) \<Rightarrow> path \<Rightarrow> string \<Rightarrow>
   harness_error + (harness_event list \<times> session_warning list)" where
  "read_events dec p bytes =
     (let lines = numbered_lines (from_utf8_lossy bytes);
          last_line = (if lines = [] then 0 else fst (last lines))
      in parse_records dec p last_line lines)"

definition load_with_report :: "jsonl_store \<Rightarrow> session_id \<Rightarrow> harness_error + session_load_report" where
  "load_with_report st sid =
     (case session_path st sid of
        Inl err \<Rightarrow> Inl err
      | Inr p \<Rightarrow>
          (case files st p of
             None \<Rightarrow> Inl (NotFound ''session'' sid)
           | Some c \<Rightarrow>
               bind_result (read_events (decode st) p c) (\<lambda>(es, ws).
               bind_result (reconstruct_session sid es) (\<lambda>s.
               Inr \<lparr>rep_session = s, rep_warnings = ws\<rparr>))))"

definition load :: "jsonl_store \<Rightarrow> session_id \<Rightarrow> harness_error + session" where
  "load st sid = bind_result (load_with_report st sid) (\<lambda>r. Inr (rep_session r))"

definition create ::
  "io_env \<Rightarrow> event_env \<Rightarrow> jsonl_store \<Rightarrow> path \<Rightarrow> (harness_error + session) \<times> jsonl_store \<times> event_env"
where
  "create io env st ws =
     (case canonical io ws of
        Inl err \<Rightarrow> (Inl err, st, env)
      | Inr ws \<Rightarrow>
          let (raw, env) = event_id_new env
          in case id_new raw of
               Inl err \<Rightarrow> (Inl err, st, env)
             | Inr sid \<Rightarrow>
                 (case session_path st sid of
                    Inl err \<Rightarrow> (Inl err, st, env)
                  | Inr p \<Rightarrow>
                      let (e, env) = harness_event_new env sid (SessionStarted ws) None None
                      in if files st p \<noteq> None then (Inl (IoError ''file exists''), st, env)
                         else case write_event io (st\<lparr>files := (files st)(p \<mapsto> [])\<rparr>) p e of
                           (Inl err, st') \<Rightarrow>
                             (Inl err, (if remove_works io then st'\<lparr>files := (files st')(p := None)\<rparr>
                                        else st'), env)
                         | (Inr _, st') \<Rightarrow> (reconstruct_session sid [e], publish st' e, env)))"

definition append_event ::
  "io_env \<Rightarrow> jsonl_store \<Rightarrow> session_id \<Rightarrow> harness_event \<Rightarrow> (harness_error + unit) \<times> jsonl_store"
where
  "append_event io st sid e =
     (if ev_session e \<noteq> sid
      then (Inl (InvalidEvent ''event session ID does not match the session''), st)
      else case session_path st sid of
        Inl err \<Rightarrow> (Inl err, st)
      | Inr p \<Rightarrow>
          if files st p = None then (Inl (NotFound ''session'' sid), st)
          else case load_with_report st sid of
            Inl err \<Rightarrow> (Inl err, st)
          | Inr report \<Rightarrow>
              if rep_warnings report \<noteq> []
              then (Inl (SessionError
                ''cannot append to a session with an incomplete trailing record''), st)
              else case validate_event e (set (map ev_id (s_events (rep_session report)))) of
                Inl err \<Rightarrow> (Inl err, st)
              | Inr _ \<Rightarrow>
                  (case write_event io st p e of
                     (Inl err, st') \<Rightarrow> (Inl err, st')
                   | (Inr _, st') \<Rightarrow> (Inr (), publish st' e)))"

text \<open>\<open>SessionStore::resume\<close>, the trait's default method, over any \<open>load\<close> and \<open>append\<close>.\<close>

definition resume_with ::
  "('s \<Rightarrow> session_id \<Rightarrow> harness_error + session) \<Rightarrow>
   ('s \<Rightarrow> session_id \<Rightarrow> harness_event \<Rightarrow> (harness_error + unit) \<times> 's) \<Rightarrow>
   event_env \<Rightarrow> 's \<Rightarrow> session_id \<Rightarrow> (harness_error + session) \<times> 's \<times> event_env" where
  "resume_with ld app env st sid =
     (case ld st sid of
        Inl err \<Rightarrow> (Inl err, st, env)
      | Inr _ \<Rightarrow>
          let (e, env) = harness_event_new env sid
                (SessionResumed (Some ''session resume requested'')) None None
          in case app st sid e of
               (Inl err, st') \<Rightarrow> (Inl err, st', env)
             | (Inr _, st') \<Rightarrow> (ld st' sid, st', env))"

definition resume ::
  "io_env \<Rightarrow> event_env \<Rightarrow> jsonl_store \<Rightarrow> session_id \<Rightarrow> (harness_error + session) \<times> jsonl_store \<times> event_env"
where
  "resume io = resume_with load (append_event io)"

subsection \<open>Titles and the list of recent sessions\<close>

fun first_user_message :: "harness_event list \<Rightarrow> string option" where
  "first_user_message [] = None"
| "first_user_message (e # es) =
     (case payload e of UserMessage t \<Rightarrow> Some t | _ \<Rightarrow> first_user_message es)"

definition session_title :: "harness_event list \<Rightarrow> string option" where
  "session_title es =
     (case first_user_message es of
        None \<Rightarrow> None
      | Some t \<Rightarrow>
          let normalized = join '' '' (split_whitespace t)
          in if normalized = [] then None
             else
               let chars = utf8_chars normalized;
                   cut = concat (take 64 chars)
               in Some (if 64 < length chars then trim_end cut @ ellipsis else cut))"

definition summarize :: "session \<Rightarrow> session_state \<Rightarrow> session_summary" where
  "summarize s st =
     \<lparr>sum_id = s_id s, sum_workspace_root = s_workspace_root s,
      sum_title = session_title (s_events s), sum_status = st_status st,
      sum_created_at = s_created_at s, sum_last_updated_at = s_last_updated_at s,
      sum_event_count = length (s_events s),
      sum_context_compactions = st_context_compactions st\<rparr>"

text \<open>\<open>entries\<close> are the paths \<open>read_dir\<close> yields, in its (unspecified) order.\<close>

fun summaries :: "jsonl_store \<Rightarrow> path list \<Rightarrow> harness_error + session_summary list" where
  "summaries st [] = Inr []"
| "summaries st (p # ps) =
     (if path_extension p \<noteq> Some ''jsonl'' then summaries st ps
      else case file_stem p of
        None \<Rightarrow> summaries st ps
      | Some stem \<Rightarrow>
          (case id_new stem of
             Inl _ \<Rightarrow> summaries st ps
           | Inr sid \<Rightarrow>
               bind_result (load st sid) (\<lambda>s.
               bind_result (session_state_of s) (\<lambda>state.
               bind_result (summaries st ps) (\<lambda>rest.
               Inr (summarize s state # rest))))))"

definition recent_key :: "session_summary \<Rightarrow> int \<times> int" where
  "recent_key s = (- int (sum_last_updated_at s), - int (sum_created_at s))"

definition recent :: "jsonl_store \<Rightarrow> path list \<Rightarrow> nat \<Rightarrow> harness_error + session_summary list" where
  "recent st entries limit =
     (if limit = 0 then Inr []
      else bind_result (summaries st entries)
        (\<lambda>xs. Inr (take limit (sort_key recent_key xs))))"

end
