(* ===== verification/Session_Laws.thy ===== *)
theory Session_Laws
  imports Session Events
begin

section \<open>What the session store guarantees\<close>

text \<open>
  The facts behind the properties of the session store: which logs load (\<open>valid_log\<close>), what
  a record on disk looks like line by line (\<open>record_lines\<close>), what an append adds, and what a
  torn write leaves. The interface of the trait \<open>SessionStore\<close> is the locale
  \<open>session_log\<close>; it is interpreted on \<open>load\<close> and \<open>append_event\<close>.
\<close>

lemma not_is_ok_iff: "\<not> is_ok r \<longleftrightarrow> (\<exists>e. r = Inl e)"
  by (cases r) auto

declare split_on_ne [simp]

subsection \<open>Valid logs\<close>

definition well_formed_event :: "session_id \<Rightarrow> harness_event \<Rightarrow> bool" where
  "well_formed_event sid e \<longleftrightarrow>
     ev_session e = sid \<and> schema_version e = 1 \<and> ev_type e = event_type_of (payload e)"

definition valid_log :: "session_id \<Rightarrow> harness_event list \<Rightarrow> bool" where
  "valid_log sid es \<longleftrightarrow> es \<noteq> [] \<and> is_started (payload (hd es)) \<and>
     list_all (well_formed_event sid) es \<and> distinct (map ev_id es)"

lemma validate_event_Inr:
  "validate_event e ids = Inr ids' \<longleftrightarrow>
     schema_version e = 1 \<and> ev_type e = event_type_of (payload e) \<and> ev_id e \<notin> ids \<and>
     ids' = insert (ev_id e) ids"
  by (auto simp: validate_event_def)

lemma validate_events_from_iff:
  "validate_events_from sid es ids = Inr () \<longleftrightarrow>
     list_all (well_formed_event sid) es \<and> distinct (map ev_id es) \<and>
     ids \<inter> ev_id ` set es = {}"
proof (induction es arbitrary: ids)
  case (Cons e es)
  show ?case
  proof (cases "validate_event e ids")
    case (Inl err)
    then have "\<not> (schema_version e = 1 \<and> ev_type e = event_type_of (payload e) \<and> ev_id e \<notin> ids)"
      by (auto simp: validate_event_def split: if_splits)
    with Inl show ?thesis by (auto simp: well_formed_event_def)
  next
    case (Inr ids')
    then have "schema_version e = 1" "ev_type e = event_type_of (payload e)" "ev_id e \<notin> ids"
      and ids': "ids' = insert (ev_id e) ids"
      by (auto simp: validate_event_Inr)
    with Inr Cons.IH [of ids'] show ?thesis by (auto simp: well_formed_event_def)
  qed
qed simp

lemma validate_events_iff:
  "validate_events sid es = Inr () \<longleftrightarrow>
     list_all (well_formed_event sid) es \<and> distinct (map ev_id es)"
  by (simp add: validate_events_def validate_events_from_iff)

definition session_of :: "session_id \<Rightarrow> harness_event list \<Rightarrow> session" where
  "session_of sid es =
     \<lparr>s_id = sid,
      s_workspace_root = (case payload (hd es) of SessionStarted root \<Rightarrow> root | _ \<Rightarrow> []),
      s_created_at = ev_timestamp (hd es), s_last_updated_at = ev_timestamp (last es),
      s_events = es\<rparr>"

lemma session_of_simps [simp]:
  "s_events (session_of sid es) = es" "s_id (session_of sid es) = sid"
  by (simp_all add: session_of_def)

lemma reconstruct_session_iff:
  "reconstruct_session sid es = Inr s \<longleftrightarrow> valid_log sid es \<and> s = session_of sid es"
proof (cases es)
  case (Cons first rest)
  show ?thesis
  proof (cases "is_started (payload first)")
    case False
    with Cons show ?thesis
      by (cases "payload first") (auto simp: reconstruct_session_def valid_log_def is_started_def)
  next
    case True
    then obtain root where root: "payload first = SessionStarted root"
      by (auto simp: is_started_def split: event_payload.splits)
    show ?thesis
    proof (cases "validate_events sid es")
      case (Inl err)
      then have "\<not> (list_all (well_formed_event sid) es \<and> distinct (map ev_id es))"
        using validate_events_iff [of sid es] by simp
      with Cons root Inl show ?thesis by (auto simp: reconstruct_session_def valid_log_def)
    next
      case (Inr u)
      then have "list_all (well_formed_event sid) es \<and> distinct (map ev_id es)"
        using validate_events_iff [of sid es] by simp
      with Cons root Inr show ?thesis
        by (auto simp: reconstruct_session_def valid_log_def session_of_def is_started_def)
    qed
  qed
qed (simp add: reconstruct_session_def valid_log_def)

lemma valid_log_snoc:
  "valid_log sid es \<Longrightarrow>
     valid_log sid (es @ [e]) \<longleftrightarrow> well_formed_event sid e \<and> ev_id e \<notin> ev_id ` set es"
  by (auto simp: valid_log_def hd_append)

lemma valid_log_prefix: "valid_log sid (es @ fs) \<Longrightarrow> es \<noteq> [] \<Longrightarrow> valid_log sid es"
  by (auto simp: valid_log_def hd_append)

subsection \<open>Records on disk\<close>

definition record_lines :: "string \<Rightarrow> string list" where
  "record_lines bytes = filter (\<lambda>l. trim l \<noteq> []) (str_lines (from_utf8_lossy bytes))"

text \<open>The shape of a serialised record: a JSON object on one line, valid UTF-8.\<close>

definition record_text :: "string \<Rightarrow> bool" where
  "record_text t \<longleftrightarrow> (\<exists>u. t = ''{'' @ u @ ''}'') \<and> newline \<notin> set t \<and> from_utf8_lossy t = t"

lemma strip_front_keeps:
  assumes "\<forall>e \<in> set encs. c \<notin> set e"
  shows "strip_front encs (xs @ [c]) \<noteq> []"
  using assms
proof (induction encs "xs @ [c]" arbitrary: xs rule: strip_front.induct)
  case (1 encs)
  show ?case
  proof (cases "find (\<lambda>e. e \<noteq> [] \<and> prefix e (xs @ [c])) encs")
    case None
    then show ?thesis by (simp add: strip_front.simps)
  next
    case (Some e)
    then have e: "e \<in> set encs" "prefix e (xs @ [c])"
      by (metis find_Some_iff nth_mem)+
    with 1(2) have "e \<noteq> xs @ [c]" by fastforce
    with e(2) have "prefix e xs" by (simp add: prefix_snoc)
    then have "drop (length e) (xs @ [c]) = drop (length e) xs @ [c]"
      by (auto simp: prefix_def)
    with 1(1) [OF Some this] 1(2) Some show ?thesis by (simp add: strip_front.simps [of encs "xs @ [c]"])
  qed
qed

lemma trim_brace: "trim (CHR ''{'' # s) \<noteq> []"
proof -
  have "trim_start (CHR ''{'' # s) = CHR ''{'' # s"
    by (simp add: trim_start_def strip_front.simps white_space_def)
  moreover have "strip_front (map rev white_space) (rev s @ [CHR ''{'']) \<noteq> []"
    by (rule strip_front_keeps) (simp add: white_space_def)
  ultimately show ?thesis by (simp add: trim_def trim_end_def strip_back_def)
qed

lemma record_textD:
  assumes "record_text t"
  shows "t \<noteq> []" "newline \<notin> set t" "trim t \<noteq> []" "strip_cr t = t" "from_utf8_lossy t = t"
  using assms trim_brace by (auto simp: record_text_def strip_cr_def)

lemma record_text_pair:
  assumes "record_text t" "record_text t'"
  shows "record_text (t @ t')"
proof -
  obtain u u' where u: "t = ''{'' @ u @ ''}''" "t' = ''{'' @ u' @ ''}''"
    using assms by (auto simp: record_text_def)
  have split: "from_utf8_lossy (s @ CHR ''}'' # r) = from_utf8_lossy s @ CHR ''}'' # from_utf8_lossy r"
    for s r
    by (rule from_utf8_lossy_at_ascii) (simp add: byte_of_def)
  have "from_utf8_lossy (t @ t') = from_utf8_lossy t @ from_utf8_lossy t'"
    using split [of "''{'' @ u" t'] split [of "''{'' @ u" "[]"] by (simp add: u(1))
  then have "from_utf8_lossy (t @ t') = t @ t'" using assms by (simp add: record_text_def)
  moreover have "\<exists>v. t @ t' = ''{'' @ v @ ''}''"
    by (rule exI [of _ "u @ ''}{'' @ u'"]) (simp add: u)
  ultimately show ?thesis using assms by (auto simp: record_text_def)
qed

lemma record_lines_append:
  "line_closed c \<Longrightarrow> record_lines (c @ d) = record_lines c @ record_lines d"
  by (simp add: record_lines_def from_utf8_lossy_append line_closed_from_utf8_lossy
      str_lines_append)

lemma record_lines_record: "record_text t \<Longrightarrow> record_lines (t @ [newline]) = [t]"
  using from_utf8_lossy_newline [of t "[]"] str_lines_line [of t "[]"]
  by (simp add: record_lines_def record_textD)

lemma record_lines_open:
  assumes "s = CHR ''{'' # r" "newline \<notin> set s"
  shows "record_lines s = [from_utf8_lossy s]"
proof -
  have brace: "from_utf8_lossy s = CHR ''{'' # from_utf8_lossy r"
    unfolding assms(1) by (rule from_utf8_lossy_ascii_Cons) (simp add: byte_of_def)
  then have "from_utf8_lossy s \<noteq> []" "trim (from_utf8_lossy s) \<noteq> []"
    by (simp_all add: trim_brace del: from_utf8_lossy.simps)
  then show ?thesis
    using newline_from_utf8_lossy [OF assms(2)] by (simp add: record_lines_def str_lines_last)
qed

lemma map_snd_filter_enumerate:
  "map snd (filter (\<lambda>(_, l). P l) (List.enumerate n xs)) = filter P xs"
  by (induction xs arbitrary: n) auto

lemma map_snd_numbered_lines:
  "map snd (numbered_lines (from_utf8_lossy bytes)) = record_lines bytes"
  by (simp add: numbered_lines_def record_lines_def map_snd_filter_enumerate)

lemma parse_records_clean:
  "parse_records dec p n xs = Inr (es, []) \<longleftrightarrow> map dec (map snd xs) = map Inr es"
proof (induction xs arbitrary: es)
  case (Cons x xs)
  obtain m l where x: "x = (m, l)" by force
  show ?case
  proof (cases "dec l")
    case (Inl err)
    with x show ?thesis by (auto split: if_splits)
  next
    case (Inr e)
    with x Cons show ?thesis by (cases es) auto
  qed
qed auto

lemma parse_records_torn:
  assumes "map dec (map snd xs) = map Inr es" "dec l = Inl err"
  shows "parse_records dec p n (xs @ [(n, l)]) = Inr (es, [\<lparr>warn_line = n + 1,
    warn_reason = ''ignored incomplete trailing record: '' @ err\<rparr>])"
  using assms
proof (induction xs arbitrary: es)
  case (Cons x xs)
  obtain m k where "x = (m, k)" by force
  with Cons show ?case by (cases es) auto
qed auto

lemma read_events_clean:
  "read_events dec p c = Inr (es, []) \<longleftrightarrow> map dec (record_lines c) = map Inr es"
  by (simp only: read_events_def Let_def parse_records_clean map_snd_numbered_lines)

lemma read_events_torn:
  assumes "record_lines c = ls @ [l]" "map dec ls = map Inr es" "dec l = Inl err"
  shows "\<exists>w. read_events dec p c = Inr (es, [w])"
proof -
  let ?xs = "numbered_lines (from_utf8_lossy c)"
  from assms(1) have snd: "map snd ?xs = ls @ [l]" by (simp add: map_snd_numbered_lines)
  then obtain ys n where xs: "?xs = ys @ [(n, l)]" "map snd ys = ls"
    by (cases ?xs rule: rev_cases) auto
  with assms parse_records_torn [of dec ys es l err p n] show ?thesis
    by (auto simp: read_events_def)
qed

subsection \<open>The codec\<close>

text \<open>What the store relies on of \<open>serde_json\<close>: a record round-trips, as one line of text.\<close>

definition codec_ok :: "jsonl_store \<Rightarrow> bool" where
  "codec_ok st \<longleftrightarrow>
     (\<forall>e. \<exists>t. encode st e = Inr t \<and> record_text t \<and> decode st t = Inr e)"

text \<open>A proper prefix of a JSON object is no JSON text, and neither are two in a row.\<close>

definition rejects_prefixes :: "jsonl_store \<Rightarrow> bool" where
  "rejects_prefixes st \<longleftrightarrow> (\<forall>e t k. encode st e = Inr t \<longrightarrow> 0 < k \<longrightarrow> k < length t \<longrightarrow>
     \<not> is_ok (decode st (from_utf8_lossy (take k t))))"

definition rejects_pairs :: "jsonl_store \<Rightarrow> bool" where
  "rejects_pairs st \<longleftrightarrow> (\<forall>e1 e2 t1 t2. encode st e1 = Inr t1 \<longrightarrow> encode st e2 = Inr t2 \<longrightarrow>
     \<not> is_ok (decode st (t1 @ t2)))"

definition store_inv :: "jsonl_store \<Rightarrow> bool" where
  "store_inv st \<longleftrightarrow> codec_ok st \<and> (\<forall>p c. files st p = Some c \<longrightarrow> line_closed c)"

lemma codec_okE:
  assumes "codec_ok st"
  obtains t where "encode st e = Inr t" "record_text t" "decode st t = Inr e"
  using assms unfolding codec_ok_def by blast


subsection \<open>Loading and appending\<close>

text \<open>The log of a session is intact and holds exactly \<open>es\<close>.\<close>

definition holds_log :: "jsonl_store \<Rightarrow> session_id \<Rightarrow> harness_event list \<Rightarrow> bool" where
  "holds_log st sid es \<longleftrightarrow> (\<exists>p c. session_path st sid = Inr p \<and> files st p = Some c \<and>
     map (decode st) (record_lines c) = map Inr es \<and> valid_log sid es)"

lemma load_with_report_clean:
  "load_with_report st sid = Inr r \<and> rep_warnings r = [] \<longleftrightarrow>
     (\<exists>es. holds_log st sid es \<and> r = \<lparr>rep_session = session_of sid es, rep_warnings = []\<rparr>)"
  by (cases r)
    (auto simp: load_with_report_def holds_log_def read_events_clean reconstruct_session_iff
      split: sum.splits option.splits)

lemma holds_log_load:
  "holds_log st sid es \<Longrightarrow> load_with_report st sid =
     Inr \<lparr>rep_session = session_of sid es, rep_warnings = []\<rparr>"
  using load_with_report_clean by blast

lemma holds_log_unique: "holds_log st sid es \<Longrightarrow> holds_log st sid fs \<Longrightarrow> es = fs"
  by (auto simp: holds_log_def dest: map_injective [OF _ inj_Inr])

text \<open>What an append needs in order to get as far as the write.\<close>

definition accepts :: "jsonl_store \<Rightarrow> session_id \<Rightarrow> harness_event list \<Rightarrow> harness_event \<Rightarrow> bool" where
  "accepts st sid es e \<longleftrightarrow>
     holds_log st sid es \<and> well_formed_event sid e \<and> ev_id e \<notin> ev_id ` set es"

definition writes :: "io_env \<Rightarrow> jsonl_store \<Rightarrow> session_id \<Rightarrow> harness_event \<Rightarrow>
    (harness_error + unit) \<times> jsonl_store" where
  "writes io st sid e =
     (case write_event io st (path_join (root_dir st) (sid @ ''.jsonl'')) e of
        (Inl err, st') \<Rightarrow> (Inl err, st')
      | (Inr _, st') \<Rightarrow> (Inr (), publish st' e))"

lemma session_path_Inr:
  "session_path st sid = Inr p \<Longrightarrow> p = path_join (root_dir st) (sid @ ''.jsonl'')"
  by (simp add: session_path_def split: if_splits)

lemma append_event_accepts:
  assumes "accepts st sid es e"
  shows "append_event io st sid e = writes io st sid e"
proof -
  from assms obtain p c where p: "session_path st sid = Inr p" "files st p = Some c"
    by (auto simp: accepts_def holds_log_def)
  from assms have "load_with_report st sid = Inr \<lparr>rep_session = session_of sid es, rep_warnings = []\<rparr>"
    by (simp add: accepts_def holds_log_load)
  moreover from assms have "validate_event e (ev_id ` set es) = Inr (insert (ev_id e) (ev_id ` set es))"
    "ev_session e = sid"
    by (auto simp: accepts_def well_formed_event_def validate_event_def)
  ultimately show ?thesis
    using p session_path_Inr [OF p(1)] by (simp add: append_event_def writes_def)
qed

lemma append_event_Inr_accepts:
  assumes "append_event io st sid e = (Inr (), st')"
  shows "\<exists>es. accepts st sid es e"
proof -
  from assms obtain report where report: "load_with_report st sid = Inr report"
      "rep_warnings report = []"
    and e: "ev_session e = sid"
      "is_ok (validate_event e (set (map ev_id (s_events (rep_session report)))))"
    by (auto simp: append_event_def split: if_splits sum.splits)
  from report obtain es where es: "holds_log st sid es" "report = \<lparr>rep_session = session_of sid es, rep_warnings = []\<rparr>"
    using load_with_report_clean by blast
  from e es have "accepts st sid es e"
    by (auto simp: accepts_def well_formed_event_def validate_event_def split: if_splits)
  then show ?thesis ..
qed

lemma writes_state:
  assumes "encode st e = Inr t"
  shows "writes io st sid e =
    (let p = path_join (root_dir st) (sid @ ''.jsonl'');
         old = (case files st p of None \<Rightarrow> [] | Some c \<Rightarrow> c)
     in case write_limit io of
          None \<Rightarrow> (Inr (), publish (st\<lparr>files := (files st)(p \<mapsto> old @ t @ [newline])\<rparr>) e)
        | Some k \<Rightarrow> (Inl (IoError ''write failed''),
            st\<lparr>files := (files st)(p \<mapsto> old @ take k (t @ [newline]))\<rparr>))"
  using assms by (simp add: writes_def write_event_def Let_def split: option.split)

lemma publish_simps [simp]:
  "files (publish st e) = files st" "root_dir (publish st e) = root_dir st"
  "decode (publish st e) = decode st" "encode (publish st e) = encode st"
  "event_bus (publish st e) = event_bus st"
  by (simp_all add: publish_def)

lemma session_path_cong:
  "root_dir st = root_dir st' \<Longrightarrow> session_path st sid = session_path st' sid"
  by (simp add: session_path_def)

text \<open>The paths of different sessions differ.\<close>

lemma session_path_inject:
  "session_path st sid = Inr p \<Longrightarrow> session_path st sid' = Inr p \<Longrightarrow> sid = sid'"
proof -
  have rel: "\<not> is_absolute (s @ ''.jsonl'')" if "session_path st s = Inr q" for s q
    using that by (cases s) (auto simp: session_path_def is_absolute_def bad_id_char_def split: if_splits)
  assume "session_path st sid = Inr p" "session_path st sid' = Inr p"
  then show "sid = sid'"
    using rel [of sid p] rel [of sid' p]
    by (auto dest!: session_path_Inr simp: path_join_def split: if_splits)
qed

lemma holds_log_other:
  assumes "session_path st sid = Inr p" "sid' \<noteq> sid" "root_dir st' = root_dir st"
    "decode st' = decode st" "files st' = (files st)(p := x)"
  shows "load_with_report st' sid' = load_with_report st sid'"
proof (cases "session_path st sid'")
  case (Inl err)
  with assms(3) show ?thesis by (simp add: load_with_report_def session_path_cong [of st' st])
next
  case (Inr q)
  with assms(1,2) have "q \<noteq> p" using session_path_inject by blast
  with Inr assms(3-5) show ?thesis
    by (simp add: load_with_report_def session_path_cong [of st' st] split: option.split)
qed

lemma append_adds_record:
  assumes inv: "store_inv st" and acc: "accepts st sid es e" and io: "write_limit io = None"
  shows "\<exists>st'. append_event io st sid e = (Inr (), st') \<and> holds_log st' sid (es @ [e]) \<and>
    store_inv st' \<and> (\<forall>sid'. sid' \<noteq> sid \<longrightarrow> load_with_report st' sid' = load_with_report st sid') \<and>
    calls st' = calls st @ bus_publish (event_bus st) e"
proof -
  from inv obtain t where t: "encode st e = Inr t" "record_text t" "decode st t = Inr e"
    using codec_okE [of st e] by (auto simp: store_inv_def)
  from acc obtain p c where p: "session_path st sid = Inr p" and c: "files st p = Some c"
      "map (decode st) (record_lines c) = map Inr es" and valid: "valid_log sid es"
    by (auto simp: accepts_def holds_log_def)
  define st1 where "st1 = st\<lparr>files := (files st)(p \<mapsto> c @ t @ [newline])\<rparr>"
  define st' where "st' = publish st1 e"
  have eq: "append_event io st sid e = (Inr (), st')"
    using append_event_accepts [OF acc] session_path_Inr [OF p] t(1) c(1) io
    by (simp add: writes_state st'_def st1_def)
  from inv c(1) have closed: "line_closed c" by (auto simp: store_inv_def)
  have same: "root_dir st' = root_dir st" "decode st' = decode st" "encode st' = encode st"
    and files': "files st' = (files st)(p \<mapsto> c @ t @ [newline])"
    by (simp_all add: st'_def st1_def)
  from closed t(2) have "record_lines (c @ t @ [newline]) = record_lines c @ [t]"
    by (simp add: record_lines_append record_lines_record)
  with c(2) t(3) valid acc p same files' have "holds_log st' sid (es @ [e])"
    by (auto simp: holds_log_def accepts_def valid_log_snoc session_path_cong [of st' st])
  moreover have "store_inv st'"
    using inv files' same by (auto simp: store_inv_def codec_ok_def line_closed_def)
  moreover have "calls st' = calls st @ bus_publish (event_bus st) e"
    by (simp add: st'_def st1_def publish_def)
  ultimately show ?thesis
    using eq holds_log_other [OF p _ same(1,2) files'] by blast
qed

lemma append_event_Inr_limit:
  "append_event io st sid e = (Inr (), st') \<Longrightarrow> write_limit io = None"
  by (auto simp: append_event_def write_event_def Let_def split: if_splits sum.splits option.splits)

lemma append_event_Inr:
  assumes "store_inv st" "append_event io st sid e = (Inr (), st')"
  obtains es where "accepts st sid es e" "holds_log st' sid (es @ [e])" "store_inv st'"
    "\<And>sid'. sid' \<noteq> sid \<Longrightarrow> load_with_report st' sid' = load_with_report st sid'"
    "calls st' = calls st @ bus_publish (event_bus st) e"
proof -
  from append_event_Inr_accepts [OF assms(2)] obtain es where acc: "accepts st sid es e" ..
  from append_adds_record [OF assms(1) acc append_event_Inr_limit [OF assms(2)]] assms(2) that [OF acc]
  show thesis by auto
qed


subsection \<open>Torn writes\<close>

text \<open>The log file after a write that put \<open>k\<close> bytes of the record on disk and failed.\<close>

lemma torn_append:
  assumes "accepts st sid es e" "write_limit io = Some k" "encode st e = Inr t"
  obtains p c st' where "append_event io st sid e = (Inl (IoError ''write failed''), st')"
    "session_path st sid = Inr p" "files st p = Some c"
    "map (decode st) (record_lines c) = map Inr es" "valid_log sid es"
    "st' = st\<lparr>files := (files st)(p \<mapsto> c @ take k (t @ [newline]))\<rparr>"
proof -
  from assms(1) obtain p c where p: "session_path st sid = Inr p" and c: "files st p = Some c"
      "map (decode st) (record_lines c) = map Inr es" "valid_log sid es"
    by (auto simp: accepts_def holds_log_def)
  have "append_event io st sid e =
      (Inl (IoError ''write failed''), st\<lparr>files := (files st)(p \<mapsto> c @ take k (t @ [newline]))\<rparr>)"
    using append_event_accepts [OF assms(1), of io] session_path_Inr [OF p] c(1) assms(2,3)
    by (simp add: writes_state)
  from that [OF this p c refl] show thesis .
qed

lemma record_text_take:
  assumes "record_text t" "0 < k" "k \<le> length t"
  shows "record_lines (take k t) = [from_utf8_lossy (take k t)]"
proof -
  from assms(1) obtain u where t: "t = CHR ''{'' # u" "newline \<notin> set t"
    by (auto simp: record_text_def)
  with assms(2,3) show ?thesis
    by (cases k) (auto simp del: from_utf8_lossy.simps intro!: record_lines_open dest: in_set_takeD)
qed

lemma load_after_torn_append:
  assumes inv: "store_inv st" and rej: "rejects_prefixes st" and acc: "accepts st sid es e"
    and io: "write_limit io = Some k" and t: "encode st e = Inr t"
    and k: "0 < k" "k < length t"
  shows "\<exists>st' w. append_event io st sid e = (Inl (IoError ''write failed''), st') \<and>
    load_with_report st' sid = Inr \<lparr>rep_session = session_of sid es, rep_warnings = [w]\<rparr>"
proof -
  from acc io t obtain p c st' where eq: "append_event io st sid e = (Inl (IoError ''write failed''), st')"
    and p: "session_path st sid = Inr p" and c: "files st p = Some c"
      "map (decode st) (record_lines c) = map Inr es" "valid_log sid es"
    and st': "st' = st\<lparr>files := (files st)(p \<mapsto> c @ take k (t @ [newline]))\<rparr>"
    by (rule torn_append)
  from inv t have rec: "record_text t"
    using codec_okE [of st e] by (auto simp: store_inv_def)
  from inv c(1) have "line_closed c" by (auto simp: store_inv_def)
  then have lines: "record_lines (c @ take k t) = record_lines c @ [from_utf8_lossy (take k t)]"
    using record_text_take [OF rec k(1)] k(2) by (simp add: record_lines_append)
  have "\<not> is_ok (decode st (from_utf8_lossy (take k t)))"
    using rej t k unfolding rejects_prefixes_def by blast
  then obtain err where "decode st (from_utf8_lossy (take k t)) = Inl err"
    by (metis not_is_ok_iff)
  then obtain w where w: "read_events (decode st) p (c @ take k t) = Inr (es, [w])"
    using read_events_torn [OF lines c(2)] by blast
  have "load_with_report st' sid = Inr \<lparr>rep_session = session_of sid es, rep_warnings = [w]\<rparr>"
  proof -
    have "session_path st' sid = Inr p" "files st' p = Some (c @ take k t)" "decode st' = decode st"
      using p k(2) session_path_cong [of st' st sid] by (simp_all add: st')
    with w c(3) reconstruct_session_iff [of sid es "session_of sid es"] show ?thesis
      by (simp add: load_with_report_def)
  qed
  with eq show ?thesis by blast
qed

lemma append_with_warnings:
  assumes "load_with_report st sid = Inr r" "rep_warnings r \<noteq> []" "ev_session e = sid"
  shows "append_event io st sid e =
    (Inl (SessionError ''cannot append to a session with an incomplete trailing record''), st)"
  using assms by (auto simp: append_event_def load_with_report_def split: sum.splits option.splits)

subsection \<open>Interface: an append-only session log\<close>

text \<open>
  The contract of the trait \<open>SessionStore\<close> that its clients rely on: \<open>log s i es\<close> says that
  the store holds the intact history \<open>es\<close> of session \<open>i\<close>.
\<close>

locale session_log =
  fixes inv :: "'s \<Rightarrow> bool"
    and log :: "'s \<Rightarrow> session_id \<Rightarrow> harness_event list \<Rightarrow> bool"
    and ld :: "'s \<Rightarrow> session_id \<Rightarrow> harness_error + session"
    and app :: "'s \<Rightarrow> session_id \<Rightarrow> harness_event \<Rightarrow> (harness_error + unit) \<times> 's"
  assumes log_loads: "log s i es \<Longrightarrow> \<exists>x. ld s i = Inr x \<and> s_events x = es"
    and app_ok: "inv s \<Longrightarrow> app s i e = (Inr (), s') \<Longrightarrow>
      \<exists>es. log s i es \<and> log s' i (es @ [e]) \<and> inv s'"
    and app_frame: "inv s \<Longrightarrow> app s i e = (Inr (), s') \<Longrightarrow> j \<noteq> i \<Longrightarrow> ld s' j = ld s j"
    and log_unique: "log s i es \<Longrightarrow> log s i fs \<Longrightarrow> es = fs"
begin

lemma load_after_append:
  assumes "inv s" "app s i e = (Inr (), s')"
  shows "\<exists>x x'. ld s i = Inr x \<and> ld s' i = Inr x' \<and> s_events x' = s_events x @ [e]"
  using app_ok [OF assms] log_loads by blast

lemma resume_appends:
  assumes "inv s" "resume_with ld app env s i = (Inr x, s', env')"
  shows "\<exists>es e. log s i es \<and> log s' i (es @ [e]) \<and> s_events x = es @ [e] \<and> inv s' \<and>
    e = fst (harness_event_new env i (SessionResumed (Some ''session resume requested'')) None None)"
proof -
  obtain e env1 where e: "harness_event_new env i
      (SessionResumed (Some ''session resume requested'')) None None = (e, env1)"
    by fastforce
  with assms(2) have app: "app s i e = (Inr (), s')" and ld: "ld s' i = Inr x"
    by (auto simp: resume_with_def split: sum.splits prod.splits)
  from app_ok [OF assms(1) app] log_loads ld e show ?thesis by fastforce
qed

lemma resume_frame:
  assumes "inv s" "resume_with ld app env s i = (Inr x, s', env')" "j \<noteq> i"
  shows "ld s' j = ld s j"
proof -
  obtain e env1 where "harness_event_new env i
      (SessionResumed (Some ''session resume requested'')) None None = (e, env1)"
    by fastforce
  with assms(2) have "app s i e = (Inr (), s')"
    by (auto simp: resume_with_def split: sum.splits prod.splits)
  with assms(1,3) show ?thesis by (simp add: app_frame)
qed

end

interpretation jsonl: session_log store_inv holds_log load "append_event io" for io
proof unfold_locales
  fix s i es
  assume "holds_log s i es"
  then show "\<exists>x. load s i = Inr x \<and> s_events x = es"
    by (simp add: load_def holds_log_load)
next
  fix s i e s'
  assume *: "store_inv s" "append_event io s i e = (Inr (), s')"
  then obtain es where "accepts s i es e" "holds_log s' i (es @ [e])" "store_inv s'"
    by (rule append_event_Inr)
  then show "\<exists>es. holds_log s i es \<and> holds_log s' i (es @ [e]) \<and> store_inv s'"
    by (auto simp: accepts_def)
next
  fix s i e s' j
  assume *: "store_inv s" "append_event io s i e = (Inr (), s')" and "j \<noteq> (i :: session_id)"
  from * have "load_with_report s' j = load_with_report s j"
    by (rule append_event_Inr) (use \<open>j \<noteq> i\<close> in blast)
  then show "load s' j = load s j" by (simp add: load_def)
qed (rule holds_log_unique)

subsection \<open>Replay\<close>

lemma replay_append:
  "replay s (xs @ ys) = bind_result (replay s xs) (\<lambda>s'. replay s' ys)"
proof (induction xs arbitrary: s)
  case (Cons x xs)
  then show ?case by (cases "replay_step s x") auto
qed simp

definition next_terminal :: "event_payload \<Rightarrow> bool \<Rightarrow> bool" where
  "next_terminal p ended =
     (case p of SessionCompleted _ \<Rightarrow> True | SessionFailed _ \<Rightarrow> True
      | SessionResumed _ \<Rightarrow> False | _ \<Rightarrow> ended)"

definition next_status :: "event_payload \<Rightarrow> session_status \<Rightarrow> session_status" where
  "next_status p x =
     (case p of SessionCompleted _ \<Rightarrow> SCompleted | SessionFailed _ \<Rightarrow> SFailed
      | SessionResumed _ \<Rightarrow> Active | _ \<Rightarrow> x)"

text \<open>Only a resume or a change of the model may follow the end of a session.\<close>

fun well_sequenced :: "bool \<Rightarrow> harness_event list \<Rightarrow> bool" where
  "well_sequenced ended [] \<longleftrightarrow> True"
| "well_sequenced ended (e # es) \<longleftrightarrow>
     (ended \<longrightarrow> may_follow_terminal (payload e)) \<and> well_sequenced (next_terminal (payload e) ended) es"

lemma replay_step_iff:
  "replay_step s e = Inr s' \<longleftrightarrow> (snd s \<longrightarrow> may_follow_terminal (payload e)) \<and>
     s' = (let r = apply_payload (payload e)
                 (if is_resumed (payload e) then ((fst s)\<lparr>st_status := Active\<rparr>, False) else s)
           in ((fst r)\<lparr>st_last_event_id := Some (ev_id e)\<rparr>, snd r))"
  by (auto simp: replay_step_def Let_def)

lemma apply_payload_terminal:
  "snd (apply_payload p (if is_resumed p then (st\<lparr>st_status := Active\<rparr>, False) else (st, ended))) =
     next_terminal p ended"
  by (cases p) (simp_all add: is_resumed_def next_terminal_def)

lemma replay_step_terminal:
  "replay_step s e = Inr s' \<Longrightarrow> snd s' = next_terminal (payload e) (snd s)"
  using apply_payload_terminal [of "payload e" "fst s" "snd s"]
  by (cases s) (auto simp: replay_step_iff Let_def)

lemma replay_ok_iff: "is_ok (replay s es) \<longleftrightarrow> well_sequenced (snd s) es"
proof (induction es arbitrary: s)
  case (Cons e es)
  show ?case
  proof (cases "replay_step s e")
    case (Inl err)
    then show ?thesis by (auto simp: replay_step_def Let_def split: if_splits)
  next
    case (Inr s')
    then have "snd s \<longrightarrow> may_follow_terminal (payload e)" by (simp add: replay_step_iff)
    with Inr Cons.IH [of s'] replay_step_terminal [OF Inr] show ?thesis by simp
  qed
qed simp

lemma reconstruct_state_replay:
  "reconstruct_state sid es = Inr st \<longleftrightarrow>
     valid_log sid es \<and> (\<exists>ended. replay (initial_state sid, False) es = Inr (st, ended))"
proof (cases "validate_events sid es")
  case (Inl err)
  then have "\<not> valid_log sid es" using validate_events_iff [of sid es] by (simp add: valid_log_def)
  with Inl show ?thesis by (simp add: reconstruct_state_def)
next
  case (Inr u)
  then have "list_all (well_formed_event sid) es \<and> distinct (map ev_id es)"
    using validate_events_iff [of sid es] by simp
  with Inr show ?thesis by (auto simp: reconstruct_state_def valid_log_def)
qed

lemma reconstruct_state_ok_iff:
  "is_ok (reconstruct_state sid es) \<longleftrightarrow> valid_log sid es \<and> well_sequenced False es"
proof -
  have "is_ok (reconstruct_state sid es) \<longleftrightarrow>
      valid_log sid es \<and> is_ok (replay (initial_state sid, False) es)"
    unfolding is_ok_iff reconstruct_state_replay by auto
  then show ?thesis by (simp add: replay_ok_iff)
qed

lemma well_sequenced_append:
  "well_sequenced ended (es @ fs) \<longleftrightarrow> well_sequenced ended es \<and>
     well_sequenced (foldl (\<lambda>t e. next_terminal (payload e) t) ended es) fs"
  by (induction es arbitrary: ended) auto

subsection \<open>The state a log stands for\<close>

definition message_of :: "event_payload \<Rightarrow> conversation_message list" where
  "message_of p =
     (case p of UserMessage t \<Rightarrow> [\<lparr>msg_role = User, msg_text = t\<rparr>]
      | AssistantMessage t \<Rightarrow> [\<lparr>msg_role = Assistant, msg_text = t\<rparr>] | _ \<Rightarrow> [])"

definition is_tool_event :: "event_payload \<Rightarrow> bool" where
  "is_tool_event p \<longleftrightarrow> event_type_of p \<in> {T_ToolRequested, T_ToolApproved, T_ToolDenied,
     T_ToolStarted, T_ToolOutput, T_ToolCompleted, T_ToolFailed}"

definition count_type :: "event_type set \<Rightarrow> harness_event list \<Rightarrow> nat" where
  "count_type ts es = length (filter (\<lambda>e. event_type_of (payload e) \<in> ts) es)"

definition log_messages :: "harness_event list \<Rightarrow> conversation_message list" where
  "log_messages es = concat (map (\<lambda>e. message_of (payload e)) es)"

definition log_status :: "harness_event list \<Rightarrow> session_status" where
  "log_status es = foldl (\<lambda>x e. next_status (payload e) x) Active es"

definition log_task_run :: "harness_event list \<Rightarrow> task_run option" where
  "log_task_run es =
     foldl (\<lambda>x e. case payload e of TaskRunUpdated tr \<Rightarrow> Some tr | _ \<Rightarrow> x) None es"

definition is_compaction :: "harness_event \<Rightarrow> bool" where
  "is_compaction e \<longleftrightarrow> event_type_of (payload e) = T_ContextCompacted"

definition compacted_state :: "event_payload \<Rightarrow> compact_state option" where
  "compacted_state p = (case p of ContextCompacted _ _ cs \<Rightarrow> Some cs | _ \<Rightarrow> None)"

text \<open>The log up to its last compaction, this one included, and what comes after it.\<close>

definition up_to_compaction :: "harness_event list \<Rightarrow> harness_event list" where
  "up_to_compaction es = rev (dropWhile (\<lambda>e. \<not> is_compaction e) (rev es))"

definition since_compaction :: "harness_event list \<Rightarrow> harness_event list" where
  "since_compaction es = rev (takeWhile (\<lambda>e. \<not> is_compaction e) (rev es))"

definition log_continuation :: "harness_event list \<Rightarrow> compact_state option" where
  "log_continuation es =
     (if up_to_compaction es = [] then None else compacted_state (payload (last (up_to_compaction es))))"

text \<open>The messages one works with: the last four at the latest compaction and all later ones.\<close>

definition log_working_messages :: "harness_event list \<Rightarrow> conversation_message list" where
  "log_working_messages es =
     (if up_to_compaction es = [] then []
      else let before = log_messages (up_to_compaction es)
        in drop (length before - 4) before @ log_messages (since_compaction es))"

lemma compaction_cut: "up_to_compaction es @ since_compaction es = es"
  by (metis rev_append rev_rev_ident takeWhile_dropWhile_id up_to_compaction_def since_compaction_def)

lemma compaction_snoc:
  "up_to_compaction (es @ [e]) = (if is_compaction e then es @ [e] else up_to_compaction es)"
  "since_compaction (es @ [e]) = (if is_compaction e then [] else since_compaction es @ [e])"
  by (simp_all add: up_to_compaction_def since_compaction_def)

lemma log_messages_snoc: "log_messages (es @ [e]) = log_messages es @ message_of (payload e)"
  by (simp add: log_messages_def)

lemma last_four: "rev (take 4 (rev xs)) = drop (length xs - 4) xs"
  by (simp add: rev_take)

lemma continuation_snoc:
  "log_continuation (es @ [e]) = (if is_compaction e then compacted_state (payload e) else log_continuation es)"
  by (simp add: log_continuation_def compaction_snoc)

lemma working_messages_snoc:
  "log_working_messages (es @ [e]) =
     (if is_compaction e then let ms = log_messages (es @ [e]) in drop (length ms - 4) ms
      else if up_to_compaction es = [] then [] else log_working_messages es @ message_of (payload e))"
  by (simp add: log_working_messages_def compaction_snoc log_messages_snoc Let_def) (simp add: log_messages_def)

lemma compaction_state_some: "is_compaction e \<Longrightarrow> compacted_state (payload e) \<noteq> None"
  by (cases "payload e") (simp_all add: is_compaction_def compacted_state_def)

lemma continuation_none: "log_continuation es = None \<longleftrightarrow> up_to_compaction es = []"
proof -
  have "up_to_compaction es \<noteq> [] \<Longrightarrow> is_compaction (last (up_to_compaction es))"
    using hd_dropWhile [of "\<lambda>e. \<not> is_compaction e" "rev es"] by (simp add: up_to_compaction_def last_rev)
  then show ?thesis using compaction_state_some by (auto simp: log_continuation_def)
qed

definition continues_from :: "session_state \<Rightarrow> harness_event list \<Rightarrow> bool" where
  "continues_from st es \<longleftrightarrow> st_continuation st = log_continuation es \<and> st_working_messages st = log_working_messages es"

lemma apply_payload_continuation:
  "st_continuation (fst (apply_payload p (st, b))) =
     (if event_type_of p = T_ContextCompacted then compacted_state p else st_continuation st)"
  by (cases p) (simp_all add: compacted_state_def push_message_def count_tool_event_def Let_def)

lemma apply_payload_working:
  "st_working_messages (fst (apply_payload p (st, b))) =
     (if event_type_of p = T_ContextCompacted then rev (take 4 (rev (st_messages st)))
      else if st_continuation st = None then st_working_messages st else st_working_messages st @ message_of p)"
  by (cases p) (simp_all add: push_message_def message_of_def count_tool_event_def Let_def)

lemmas apply_payload_continues = apply_payload_continuation apply_payload_working

lemma replay_step_continues:
  assumes "continues_from (fst s) es" "st_messages (fst s) = log_messages es" "replay_step s e = Inr s'"
  shows "continues_from (fst s') (es @ [e])"
proof -
  obtain st b where s: "s = (st, b)" by (cases s)
  obtain st1 b1 where step: "fst s' = (fst (apply_payload (payload e) (st1, b1)))\<lparr>st_last_event_id := Some (ev_id e)\<rparr>"
      and st1: "st_continuation st1 = st_continuation st" "st_working_messages st1 = st_working_messages st" "st_messages st1 = st_messages st"
    using assms(3) s by (fastforce simp: replay_step_def Let_def split: if_splits)
  show ?thesis
  proof (cases "is_compaction e")
    case True
    then have "message_of (payload e) = []" by (cases "payload e") (simp_all add: is_compaction_def message_of_def)
    then show ?thesis using True step st1 assms(2) s
      by (simp add: continues_from_def continuation_snoc working_messages_snoc apply_payload_continues is_compaction_def
          log_messages_snoc last_four Let_def)
  next
    case False
    moreover have "log_continuation es = None \<Longrightarrow> log_working_messages es = []"
      by (simp add: continuation_none log_working_messages_def)
    ultimately show ?thesis using step st1 assms(1) s continuation_none [of es]
      by (auto simp: continues_from_def continuation_snoc working_messages_snoc apply_payload_continues is_compaction_def)
  qed
qed

definition state_matches :: "session_state \<Rightarrow> harness_event list \<Rightarrow> bool" where
  "state_matches st es \<longleftrightarrow>
     st_messages st = log_messages es \<and>
     st_tool_events st = count_type {T_ToolRequested, T_ToolApproved, T_ToolDenied,
       T_ToolStarted, T_ToolOutput, T_ToolCompleted, T_ToolFailed} es \<and>
     st_files_changed st = count_type {T_FileChanged} es \<and>
     st_checkpoints_created st = count_type {T_CheckpointCreated} es \<and>
     st_verification_results st = count_type {T_VerificationResult} es \<and>
     st_context_compactions st = count_type {T_ContextCompacted} es \<and>
     continues_from st es \<and>
     st_status st = log_status es \<and>
     st_task_run st = log_task_run es \<and>
     st_last_event_id st = (if es = [] then None else Some (ev_id (last es)))"

lemmas log_defs = log_messages_def log_status_def log_task_run_def count_type_def

lemma replay_step_matches:
  assumes "state_matches (fst s) es" "replay_step s e = Inr s'"
  shows "state_matches (fst s') (es @ [e])"
proof -
  have "continues_from (fst s') (es @ [e])"
    using replay_step_continues [OF _ _ assms(2)] assms(1) by (simp add: state_matches_def)
  then show ?thesis using assms
    by (cases s; cases "payload e")
      (auto simp: state_matches_def log_defs replay_step_iff Let_def is_resumed_def message_of_def
        next_status_def push_message_def count_tool_event_def)
qed

lemma replay_matches:
  assumes "state_matches (fst s) es" "replay s fs = Inr s'"
  shows "state_matches (fst s') (es @ fs)"
  using assms
proof (induction fs arbitrary: s es)
  case (Cons f fs)
  then obtain s1 where "replay_step s f = Inr s1" "replay s1 fs = Inr s'" by auto
  with Cons.IH [of s1 "es @ [f]"] Cons.prems show ?case
    using replay_step_matches by fastforce
qed simp

lemma initial_state_ok: "state_matches (initial_state sid) []"
  by (simp add: state_matches_def continues_from_def initial_state_def log_defs log_continuation_def log_working_messages_def
      up_to_compaction_def)

lemma replay_session_id: "replay s es = Inr s' \<Longrightarrow> st_session_id (fst s') = st_session_id (fst s)"
proof (induction es arbitrary: s)
  case (Cons e es)
  then obtain s1 where step: "replay_step s e = Inr s1" and "replay s1 es = Inr s'" by auto
  moreover have "st_session_id (fst s1) = st_session_id (fst s)"
    using step by (cases s; cases "payload e")
      (auto simp: replay_step_iff Let_def is_resumed_def push_message_def count_tool_event_def)
  ultimately show ?case using Cons.IH by metis
qed simp

text \<open>The flag of the loop is set exactly while the status is not \<open>Active\<close>.\<close>

lemma replay_ended:
  assumes "replay s es = Inr s'" "snd s = (st_status (fst s) \<noteq> Active)"
  shows "snd s' = (st_status (fst s') \<noteq> Active)"
  using assms
proof (induction es arbitrary: s)
  case (Cons e es)
  then obtain s1 where step: "replay_step s e = Inr s1" and rest: "replay s1 es = Inr s'" by auto
  have "snd s1 = (st_status (fst s1) \<noteq> Active)"
    using step Cons.prems(2) by (cases s; cases "payload e")
      (auto simp: replay_step_iff Let_def is_resumed_def push_message_def count_tool_event_def)
  with Cons.IH rest show ?case by blast
qed simp

lemma reconstruct_state_matches:
  assumes "reconstruct_state sid es = Inr st"
  shows "state_matches st es \<and> st_session_id st = sid"
proof -
  from assms obtain ended where replay: "replay (initial_state sid, False) es = Inr (st, ended)"
    by (auto simp: reconstruct_state_replay)
  with replay_matches [of "(initial_state sid, False)" "[]" es] replay_session_id [OF replay]
    initial_state_ok [of sid]
  show ?thesis by (simp add: initial_state_def)
qed

subsection \<open>Resuming and creating\<close>

lemma append_event_Inr_root:
  "append_event io st sid e = (Inr (), st') \<Longrightarrow> root_dir st' = root_dir st"
proof -
  assume app: "append_event io st sid e = (Inr (), st')"
  then obtain es where "accepts st sid es e" using append_event_Inr_accepts by blast
  with app have "writes io st sid e = (Inr (), st')" by (simp add: append_event_accepts)
  then show ?thesis
    by (auto simp: writes_def write_event_def Let_def split: sum.splits option.splits prod.splits)
qed

lemma harness_event_new_payload:
  "payload (fst (harness_event_new env sid p a b)) = p"
  by (simp add: harness_event_new_def case_prod_beta Let_def)

lemma resume_with_loads:
  "resume_with ld app env st sid = (Inr s, st', env') \<Longrightarrow> ld st' sid = Inr s"
  by (auto simp: resume_with_def split: sum.splits prod.splits)

lemma create_Inr:
  assumes "create io env st ws = (Inr s, st', env')"
  obtains root sid p e env1 env2 st1 where "canonical io ws = Inr root" "session_path st sid = Inr p"
    "harness_event_new env1 sid (SessionStarted root) None None = (e, env2)" "files st p = None"
    "write_event io (st\<lparr>files := (files st)(p \<mapsto> [])\<rparr>) p e = (Inr (), st1)"
    "st' = publish st1 e" "reconstruct_session sid [e] = Inr s"
  using assms
  by (auto simp: create_def Let_def split: sum.splits prod.splits if_splits)

lemma holds_log_valid: "holds_log st sid es \<Longrightarrow> valid_log sid es"
  by (auto simp: holds_log_def)

subsection \<open>Identifiers drawn one after the other\<close>

fun drawn_ids :: "event_env \<Rightarrow> nat \<Rightarrow> event_id list" where
  "drawn_ids env 0 = []"
| "drawn_ids env (Suc n) = (let (i, env') = event_id_new env in i # drawn_ids env' n)"

lemma drawn_ids_length [simp]: "length (drawn_ids env n) = n"
  by (induction n arbitrary: env) (simp_all add: case_prod_beta Let_def)

lemma event_id_new_env:
  "env_pid (snd (event_id_new env)) = env_pid env"
  "env_counter (snd (event_id_new env)) = wrap64 (env_counter env + 1)"
  "\<exists>nanos. fst (event_id_new env) = event_id_text (env_pid env) nanos (env_counter env)"
  by (auto simp: event_id_new_def read_clock_def)

lemma drawn_ids_nth:
  assumes "i < n" "env_counter env < 2 ^ 64"
  shows "\<exists>nanos. drawn_ids env n ! i =
    event_id_text (env_pid env) nanos (wrap64 (env_counter env + i))"
  using assms
proof (induction n arbitrary: env i)
  case (Suc n)
  obtain x env' where step: "event_id_new env = (x, env')" by fastforce
  with event_id_new_env [of env] have env': "env_pid env' = env_pid env"
    "env_counter env' = wrap64 (env_counter env + 1)"
    "\<exists>nanos. x = event_id_text (env_pid env) nanos (env_counter env)"
    by simp_all
  show ?case
  proof (cases i)
    case 0
    with step env'(3) Suc.prems(2) show ?thesis by (simp add: wrap64_def)
  next
    case (Suc k)
    have "env_counter env' < 2 ^ 64" by (simp add: env'(2) wrap64_def)
    with Suc.IH [of k env'] Suc.prems Suc step env'(1,2) show ?thesis
      by (simp add: wrap64_def mod_Suc_eq mod_add_left_eq)
  qed
qed simp

subsection \<open>Where session files live\<close>

lemma components_session_path:
  assumes "session_path st sid = Inr p"
  shows "components p = components (root_dir st) @ [Normal (sid @ ''.jsonl'')]"
proof -
  have "sid \<noteq> []" using assms by (auto simp: session_path_def)
  then have "sid @ ''.jsonl'' \<noteq> ''.''" "sid @ ''.jsonl'' \<noteq> ''..''"
    by (cases sid; simp)+
  moreover have "slash \<notin> set (sid @ ''.jsonl'')"
    using assms by (auto simp: session_path_def bad_id_char_def list_ex_iff split: if_splits)
  ultimately show ?thesis
    using session_path_Inr [OF assms] components_join_name by simp
qed

section \<open>A concrete store for the witnesses\<close>

text \<open>
  A serializer that writes an event as its number in unary, between braces, and a store with
  one session of one event. It meets every assumption on the codec.
\<close>

definition unary_record :: "nat \<Rightarrow> string" where
  "unary_record n = ''{'' @ replicate n CHR ''a'' @ ''}''"

definition unary_encode :: "harness_event \<Rightarrow> string + string" where
  "unary_encode e = Inr (unary_record (to_nat e))"

definition unary_decode :: "string \<Rightarrow> string + harness_event" where
  "unary_decode s = (if s = unary_record (length s - 2) then Inr (from_nat (length s - 2))
     else Inl ''not a record'')"

definition sample_event :: "string \<Rightarrow> event_payload \<Rightarrow> harness_event" where
  "sample_event i p = \<lparr>schema_version = 1, ev_id = i, ev_session = ''a'', ev_timestamp = 7,
     ev_type = event_type_of p, parent_id = None, correlation_id = None, payload = p\<rparr>"

abbreviation sample_start :: harness_event where
  "sample_start \<equiv> sample_event ''1'' (SessionStarted ''/w'')"

definition sample_store :: "harness_event list \<Rightarrow> jsonl_store" where
  "sample_store es =
     \<lparr>root_dir = ''/s'',
      files = [''/s/a.jsonl'' \<mapsto> concat (map (\<lambda>e. unary_record (to_nat e) @ [newline]) es)],
      encode = unary_encode, decode = unary_decode, event_bus = event_bus_new, calls = []\<rparr>"

definition sample_io :: "nat option \<Rightarrow> io_env" where
  "sample_io k = \<lparr>canonical = (\<lambda>p. Inr p), write_limit = k, remove_works = True\<rparr>"

definition sample_env :: event_env where
  "sample_env = \<lparr>env_pid = 3, env_clock = (\<lambda>n. n), env_ticks = 0, env_counter = 5\<rparr>"

lemma length_unary_record [simp]: "length (unary_record n) = n + 2"
  by (simp add: unary_record_def)

lemma unary_record_ascii: "c \<in> set (unary_record n) \<Longrightarrow> byte_of c < 128 \<and> c \<noteq> newline"
  by (auto simp: unary_record_def byte_of_def)

lemma lossy_unary [simp]: "from_utf8_lossy (unary_record n) = unary_record n"
  by (rule from_utf8_lossy_ascii) (auto dest: unary_record_ascii)

lemma record_text_unary: "record_text (unary_record n)"
  unfolding record_text_def using unary_record_ascii [of newline n] lossy_unary [of n]
  by (auto simp: unary_record_def)

lemma unary_decode_record [simp]: "unary_decode (unary_record (to_nat e)) = Inr e"
  by (simp add: unary_decode_def)

lemma unary_decode_last: "is_ok (unary_decode s) \<Longrightarrow> s \<noteq> [] \<and> last s = CHR ''}''"
  by (auto simp: unary_decode_def unary_record_def split: if_splits) (metis last.simps last_append list.distinct(1) append_is_Nil_conv)+

lemma unary_brace_count: "count_list (unary_record n) (CHR ''}'') = 1"
  by (induction n) (auto simp: unary_record_def)

lemma sample_codec_ok: "codec_ok (sample_store es)"
  by (auto simp: codec_ok_def sample_store_def unary_encode_def record_text_unary)

lemma sample_rejects_pairs: "rejects_pairs (sample_store es)"
proof -
  have "unary_record m @ unary_record n \<noteq> unary_record k" for m n k
  proof
    assume "unary_record m @ unary_record n = unary_record k"
    then have "count_list (unary_record m @ unary_record n) (CHR ''}'') = 1"
      by (simp add: unary_brace_count)
    then show False by (simp add: unary_brace_count)
  qed
  then show ?thesis
    by (auto simp: rejects_pairs_def sample_store_def unary_encode_def unary_decode_def
        simp del: length_append)
qed

lemma sample_rejects_prefixes: "rejects_prefixes (sample_store es)"
proof -
  have "\<not> is_ok (unary_decode (from_utf8_lossy (take k (unary_record n))))"
    if "k < length (unary_record n)" for k n
  proof -
    have lossy: "from_utf8_lossy (take k (unary_record n)) = take k (unary_record n)"
      by (rule from_utf8_lossy_ascii) (auto dest!: in_set_takeD unary_record_ascii)
    have "unary_record n = (''{'' @ replicate n CHR ''a'') @ ''}''"
      by (simp add: unary_record_def)
    moreover have "k - length (''{'' @ replicate n CHR ''a'') = 0"
      using that by simp
    ultimately have "take k (unary_record n) = take k (''{'' @ replicate n CHR ''a'')"
      by (simp only: take_append) simp
    then have no_brace: "CHR ''}'' \<notin> set (take k (unary_record n))"
      by (auto dest: in_set_takeD)
    show ?thesis
    proof
      assume "is_ok (unary_decode (from_utf8_lossy (take k (unary_record n))))"
      from unary_decode_last [OF this] lossy no_brace show False
        by (metis last_in_set)
    qed
  qed
  then show ?thesis by (auto simp: rejects_prefixes_def sample_store_def unary_encode_def)
qed

lemma sample_files_closed:
  "line_closed (concat (map (\<lambda>e. unary_record (to_nat e) @ [newline]) es))"
  by (cases es rule: rev_cases) (auto simp: line_closed_def)

lemma sample_store_inv: "store_inv (sample_store es)"
  using sample_codec_ok sample_files_closed
  by (auto simp: store_inv_def sample_store_def split: if_splits)

lemma sample_record_lines:
  "record_lines (concat (map (\<lambda>e. unary_record (to_nat e) @ [newline]) es)) =
     map (\<lambda>e. unary_record (to_nat e)) es"
proof (induction es rule: rev_induct)
  case Nil
  show ?case by (simp add: record_lines_def)
next
  case (snoc e es)
  then show ?case
    using record_lines_append [OF sample_files_closed [of es]]
    by (simp add: record_lines_record record_text_unary)
qed

lemma sample_path: "session_path (sample_store es) ''a'' = Inr ''/s/a.jsonl''"
  by (simp add: session_path_def bad_id_char_def path_join_def is_absolute_def sample_store_def
      suffix_def)

lemma sample_holds_log:
  "valid_log ''a'' es \<Longrightarrow> holds_log (sample_store es) ''a'' es"
  using sample_path [of es] sample_record_lines [of es]
  by (auto simp: holds_log_def sample_store_def comp_def)

lemma sample_event_well_formed: "well_formed_event ''a'' (sample_event i p)"
  by (simp add: well_formed_event_def sample_event_def)

lemma sample_event_simps [simp]:
  "ev_id (sample_event i p) = i" "payload (sample_event i p) = p"
  "ev_session (sample_event i p) = ''a''" "ev_timestamp (sample_event i p) = 7"
  by (simp_all add: sample_event_def)

lemma sample_start_valid: "valid_log ''a'' [sample_start]"
  by (simp add: valid_log_def is_started_def sample_event_well_formed)

lemma sample_accepts:
  "valid_log ''a'' es \<Longrightarrow> i \<notin> ev_id ` set es \<Longrightarrow> accepts (sample_store es) ''a'' es (sample_event i p)"
  by (simp add: accepts_def sample_holds_log sample_event_well_formed)

lemma sample_io_simps [simp]:
  "write_limit (sample_io k) = k" "canonical (sample_io k) p = Inr p" "remove_works (sample_io k)"
  by (simp_all add: sample_io_def)

lemma sample_append:
  assumes "valid_log ''a'' es" "i \<notin> ev_id ` set es"
  obtains st where "append_event (sample_io None) (sample_store es) ''a'' (sample_event i p) = (Inr (), st)"
    "store_inv st" "holds_log st ''a'' (es @ [sample_event i p])"
  using append_adds_record [OF sample_store_inv sample_accepts [OF assms], of "sample_io None"]
  by auto

end
