(* ===== verification/Session_Properties.thy ===== *)
theory Session_Properties
  imports  Session_Laws
begin

section \<open>Properties of the session store\<close>

subsection \<open>Appending and loading\<close>

text \<open>C5: an append that succeeds adds exactly its event: the session loads before and after,
  the second time with the event behind all earlier ones; every other session loads as before,
  and the store stays in a state for which this holds again.\<close>

theorem append_then_load:
  assumes "store_inv st" "append_event io st sid e = (Inr (), st')"
  shows "(\<exists>s s'. load st sid = Inr s \<and> load st' sid = Inr s' \<and> s_events s' = s_events s @ [e]) \<and>
    (\<forall>sid'. sid' \<noteq> sid \<longrightarrow> load st' sid' = load st sid') \<and> store_inv st'"
  using jsonl.load_after_append [OF assms] jsonl.app_frame [OF assms] jsonl.app_ok [OF assms]
  by blast

theorem append_then_load_witness:
  "\<exists>st'. append_event (sample_io None) (sample_store [sample_start]) ''a''
       (sample_event ''2'' (UserMessage ''hi'')) = (Inr (), st') \<and>
     (\<exists>s s'. load (sample_store [sample_start]) ''a'' = Inr s \<and> load st' ''a'' = Inr s' \<and>
       s_events s' = s_events s @ [sample_event ''2'' (UserMessage ''hi'')])"
proof -
  obtain st' where "append_event (sample_io None) (sample_store [sample_start]) ''a''
      (sample_event ''2'' (UserMessage ''hi'')) = (Inr (), st')"
    using sample_append [OF sample_start_valid, of "''2''" "UserMessage ''hi''"] by auto
  with append_then_load [OF sample_store_inv this] show ?thesis by blast
qed

text \<open>an append is refused, with an error and without touching any file, when the event
  belongs to another session, has an unknown schema version, a type that is not its payload's,
  or an identifier the log already holds.\<close>

theorem append_refuses_bad_events:
  assumes "load_with_report st sid = Inr r"
    and "ev_session e \<noteq> sid \<or> schema_version e \<noteq> 1 \<or> ev_type e \<noteq> event_type_of (payload e) \<or>
      ev_id e \<in> ev_id ` set (s_events (rep_session r))"
  shows "\<exists>err. append_event io st sid e = (Inl err, st)"
  using assms
  by (cases "session_path st sid")
    (auto simp: append_event_def validate_event_def load_with_report_def split: option.splits)

theorem append_refuses_bad_events_witness:
  "\<exists>err. append_event (sample_io None) (sample_store [sample_start]) ''a''
     (sample_event ''1'' (UserMessage ''hi'')) = (Inl err, sample_store [sample_start])"
  by (rule append_refuses_bad_events [OF holds_log_load [OF sample_holds_log [OF sample_start_valid]]])
    simp

text \<open>C36: a write that stops inside a record loses that record only. The session loads with
  every earlier event and one warning, and no event is appended behind the torn record.\<close>

theorem torn_write_loses_only_its_record:
  assumes "store_inv st" "rejects_prefixes st"
    and ok: "append_event (io\<lparr>write_limit := None\<rparr>) st sid e = (Inr (), st1)"
    and "encode st e = Inr t" "write_limit io = Some k" "0 < k" "k < length t"
    and r: "load_with_report st sid = Inr r"
  shows "\<exists>st' w. append_event io st sid e = (Inl (IoError ''write failed''), st') \<and>
    load_with_report st' sid = Inr \<lparr>rep_session = rep_session r, rep_warnings = [w]\<rparr> \<and>
    (\<forall>io' e'. \<exists>err. append_event io' st' sid e' = (Inl err, st'))"
proof -
  from append_event_Inr_accepts [OF ok] obtain es where acc: "accepts st sid es e" ..
  then have "rep_session r = session_of sid es"
    using r holds_log_load [of st sid es] by (auto simp: accepts_def)
  with load_after_torn_append [OF assms(1,2) acc assms(5,4,6,7)]
  obtain st' w where st': "append_event io st sid e = (Inl (IoError ''write failed''), st')"
    "load_with_report st' sid = Inr \<lparr>rep_session = rep_session r, rep_warnings = [w]\<rparr>"
    by auto
  moreover have "\<exists>err. append_event io' st' sid e' = (Inl err, st')" for io' e'
    using append_with_warnings [OF st'(2), of e' io'] by (cases "ev_session e' = sid")
      (auto simp: append_event_def)
  ultimately show ?thesis by blast
qed

theorem torn_write_loses_only_its_record_witness:
  "\<exists>st' w. append_event (sample_io (Some 1)) (sample_store [sample_start]) ''a''
       (sample_event ''2'' (UserMessage ''hi'')) = (Inl (IoError ''write failed''), st') \<and>
     load_with_report st' ''a'' =
       Inr \<lparr>rep_session = session_of ''a'' [sample_start], rep_warnings = [w]\<rparr>"
proof -
  let ?e = "sample_event ''2'' (UserMessage ''hi'')"
  obtain st1 where st1: "append_event (sample_io None) (sample_store [sample_start]) ''a'' ?e = (Inr (), st1)"
    using sample_append [OF sample_start_valid, of "''2''" "UserMessage ''hi''"] by auto
  have io: "(sample_io (Some 1))\<lparr>write_limit := None\<rparr> = sample_io None"
    by (simp add: sample_io_def)
  have t: "encode (sample_store [sample_start]) ?e = Inr (unary_record (to_nat ?e))"
    by (simp add: sample_store_def unary_encode_def)
  note r = holds_log_load [OF sample_holds_log [OF sample_start_valid]]
  have lim: "write_limit (sample_io (Some 1)) = Some 1" by simp
  have k: "(0 :: nat) < 1" "1 < length (unary_record (to_nat ?e))" by simp_all
  from torn_write_loses_only_its_record [OF sample_store_inv sample_rejects_prefixes
      st1 [folded io] t lim k r]
  show ?thesis by auto
qed

lemma append_without_newline:
  assumes inv: "store_inv st" and acc: "accepts st sid es e"
    and t: "encode st e = Inr t" "write_limit io = Some (length t)"
  obtains p c where "session_path st sid = Inr p"
    "append_event io st sid e =
       (Inl (IoError ''write failed''), st\<lparr>files := (files st)(p \<mapsto> c @ t)\<rparr>)"
    "map (decode st) (record_lines c) = map Inr es" "line_closed c" "valid_log sid es"
    "record_text t" "holds_log (st\<lparr>files := (files st)(p \<mapsto> c @ t)\<rparr>) sid (es @ [e])"
proof -
  from acc t(2,1) obtain p c st' where st': "append_event io st sid e = (Inl (IoError ''write failed''), st')"
    and p: "session_path st sid = Inr p" and c: "files st p = Some c"
      "map (decode st) (record_lines c) = map Inr es" "valid_log sid es"
    and st'_def: "st' = st\<lparr>files := (files st)(p \<mapsto> c @ take (length t) (t @ [newline]))\<rparr>"
    by (rule torn_append)
  from inv have codec: "codec_ok st" by (simp add: store_inv_def)
  from t(1) have rec: "record_text t" "decode st t = Inr e"
    by (auto intro: codec_okE [OF codec, of e])
  from inv c(1) have closed: "line_closed c" by (auto simp: store_inv_def)
  from rec(1) have "record_lines t = [t]"
    using record_text_take [OF rec(1), of "length t"] record_textD [OF rec(1)] by simp
  then have "holds_log (st\<lparr>files := (files st)(p \<mapsto> c @ t)\<rparr>) sid (es @ [e])"
    using p c closed rec(2) acc
    by (auto simp: holds_log_def record_lines_append accepts_def valid_log_snoc
        session_path_cong [of "st\<lparr>files := (files st)(p \<mapsto> c @ t)\<rparr>" st])
  with p st' st'_def c closed rec(1) show thesis by (intro that [of p c]) simp_all
qed

text \<open>a crash between the two writes of \<open>write_event\<close>, after a record and before its
  newline, loses two records: the session still loads with the new event and no warning, the
  next append succeeds, and then both records are dropped as one unreadable line.\<close>

theorem missing_newline_loses_two_records:
  assumes inv: "store_inv st" and rej: "rejects_pairs st" and r: "load_with_report st sid = Inr r"
    and ok: "append_event (io\<lparr>write_limit := None\<rparr>) st sid e = (Inr (), st0)"
    and t: "encode st e = Inr t" "write_limit io = Some (length t)"
    and crash: "append_event io st sid e = (res, st1)"
    and next_append: "append_event io' st1 sid e' = (Inr (), st2)"
  shows "\<exists>s w. load_with_report st1 sid = Inr \<lparr>rep_session = s, rep_warnings = []\<rparr> \<and>
      s_events s = s_events (rep_session r) @ [e] \<and>
    load_with_report st2 sid = Inr \<lparr>rep_session = rep_session r, rep_warnings = [w]\<rparr>"
proof -
  from append_event_Inr_accepts [OF ok] obtain es where acc: "accepts st sid es e" ..
  then have r_es: "rep_session r = session_of sid es"
    using r holds_log_load [of st sid es] by (auto simp: accepts_def)
  from append_without_newline [OF inv acc t] obtain p c where p: "session_path st sid = Inr p"
    and app: "append_event io st sid e =
       (Inl (IoError ''write failed''), st\<lparr>files := (files st)(p \<mapsto> c @ t)\<rparr>)"
    and c: "map (decode st) (record_lines c) = map Inr es" "line_closed c" "valid_log sid es"
    and rec: "record_text t"
    and log: "holds_log (st\<lparr>files := (files st)(p \<mapsto> c @ t)\<rparr>) sid (es @ [e])" .
  from app crash have st1: "st1 = st\<lparr>files := (files st)(p \<mapsto> c @ t)\<rparr>" by simp
  note first = holds_log_load [OF log [folded st1]]
  obtain t' where t': "encode st e' = Inr t'" "record_text t'"
    using codec_okE [of st e'] inv unfolding store_inv_def by blast
  from append_event_Inr_accepts [OF next_append] obtain fs where acc': "accepts st1 sid fs e'" ..
  have "writes io' st1 sid e' = (Inr (), st2)"
    using next_append append_event_accepts [OF acc', of io'] by simp
  then have "st2 = publish (st1\<lparr>files := (files st1)(p \<mapsto> c @ (t @ t') @ [newline])\<rparr>) e'"
    using append_event_Inr_limit [OF next_append] session_path_Inr [OF p] t'(1)
    by (simp add: writes_state st1)
  then have files2: "files st2 p = Some (c @ (t @ t') @ [newline])" "decode st2 = decode st"
    "session_path st2 sid = Inr p"
    using p session_path_cong [of st2 st sid] by (simp_all add: st1)
  have es: "record_lines (c @ (t @ t') @ [newline]) = record_lines c @ [t @ t']"
    using record_lines_append [OF c(2), of "(t @ t') @ [newline]"]
      record_lines_record [OF record_text_pair [OF rec t'(2)]] by simp
  have "\<not> is_ok (decode st (t @ t'))" using rej t(1) t'(1) unfolding rejects_pairs_def by blast
  then obtain err where "decode st (t @ t') = Inl err" by (metis not_is_ok_iff)
  then obtain w where w: "read_events (decode st) p (c @ (t @ t') @ [newline]) = Inr (es, [w])"
    using read_events_torn [OF es c(1)] by blast
  have "load_with_report st2 sid = Inr \<lparr>rep_session = session_of sid es, rep_warnings = [w]\<rparr>"
    using files2 w c(3) reconstruct_session_iff [of sid es "session_of sid es"]
    by (simp add: load_with_report_def)
  with first r_es show ?thesis by auto
qed

theorem missing_newline_loses_two_records_witness:
  "\<exists>st1 st2 w. append_event (sample_io (Some (length (unary_record
        (to_nat (sample_event ''2'' (UserMessage ''hi''))))))) (sample_store [sample_start]) ''a''
       (sample_event ''2'' (UserMessage ''hi'')) = (Inl (IoError ''write failed''), st1) \<and>
     append_event (sample_io None) st1 ''a'' (sample_event ''3'' (UserMessage ''ho'')) = (Inr (), st2) \<and>
     load_with_report st2 ''a'' =
       Inr \<lparr>rep_session = session_of ''a'' [sample_start], rep_warnings = [w]\<rparr>"
proof -
  let ?e = "sample_event ''2'' (UserMessage ''hi'')"
  let ?e' = "sample_event ''3'' (UserMessage ''ho'')"
  let ?st = "sample_store [sample_start]"
  let ?t = "unary_record (to_nat ?e)"
  let ?io = "sample_io (Some (length ?t))"
  obtain st0 where ok: "append_event (sample_io None) ?st ''a'' ?e = (Inr (), st0)"
    using sample_append [OF sample_start_valid, of "''2''" "UserMessage ''hi''"] by auto
  have io: "?io\<lparr>write_limit := None\<rparr> = sample_io None" by (simp add: sample_io_def)
  have t: "encode ?st ?e = Inr ?t" by (simp add: sample_store_def unary_encode_def)
  have lim: "write_limit ?io = Some (length ?t)" by simp
  have acc: "accepts ?st ''a'' [sample_start] ?e"
    by (rule sample_accepts [OF sample_start_valid]) simp
  from append_without_newline [OF sample_store_inv acc t lim] obtain p c where
    app: "append_event ?io ?st ''a'' ?e =
      (Inl (IoError ''write failed''), ?st\<lparr>files := (files ?st)(p \<mapsto> c @ ?t)\<rparr>)"
    and log: "holds_log (?st\<lparr>files := (files ?st)(p \<mapsto> c @ ?t)\<rparr>) ''a'' ([sample_start] @ [?e])" .
  let ?st1 = "?st\<lparr>files := (files ?st)(p \<mapsto> c @ ?t)\<rparr>"
  have "accepts ?st1 ''a'' ([sample_start] @ [?e]) ?e'"
    using log sample_event_well_formed by (simp add: accepts_def)
  then have "append_event (sample_io None) ?st1 ''a'' ?e' = writes (sample_io None) ?st1 ''a'' ?e'"
    by (rule append_event_accepts)
  then obtain st2 where next_append: "append_event (sample_io None) ?st1 ''a'' ?e' = (Inr (), st2)"
    by (simp add: writes_def write_event_def sample_store_def unary_encode_def Let_def)
  show ?thesis
    using missing_newline_loses_two_records [OF sample_store_inv sample_rejects_pairs
        holds_log_load [OF sample_holds_log [OF sample_start_valid]] ok [folded io] t lim app
        next_append] app next_append
    by auto
qed

subsection \<open>The sessions of a directory\<close>

definition entry_session :: "path \<Rightarrow> session_id option" where
  "entry_session p =
     (if path_extension p \<noteq> Some ''jsonl'' then None
      else case file_stem p of None \<Rightarrow> None
      | Some stem \<Rightarrow> (case id_new stem of Inl _ \<Rightarrow> None | Inr sid \<Rightarrow> Some sid))"

definition listed_session :: "path list \<Rightarrow> session_id \<Rightarrow> bool" where
  "listed_session entries sid \<longleftrightarrow> Some sid \<in> entry_session ` set entries"

definition no_older :: "session_summary \<Rightarrow> session_summary \<Rightarrow> bool" where
  "no_older x y \<longleftrightarrow> sum_last_updated_at y < sum_last_updated_at x \<or>
     sum_last_updated_at y = sum_last_updated_at x \<and> sum_created_at y \<le> sum_created_at x"

definition summary_of :: "jsonl_store \<Rightarrow> session_id \<Rightarrow> session_summary \<Rightarrow> bool" where
  "summary_of st sid x \<longleftrightarrow>
     (\<exists>s state. load st sid = Inr s \<and> session_state_of s = Inr state \<and> x = summarize s state)"

lemma recent_key_no_older: "recent_key x \<le> recent_key y \<longleftrightarrow> no_older x y"
  by (auto simp: recent_key_def no_older_def)

lemma summaries_Cons:
  "summaries st (p # ps) =
     (case entry_session p of
        None \<Rightarrow> summaries st ps
      | Some sid \<Rightarrow>
          bind_result (load st sid) (\<lambda>s. bind_result (session_state_of s) (\<lambda>state.
          bind_result (summaries st ps) (\<lambda>rest. Inr (summarize s state # rest)))))"
  by (simp add: entry_session_def split: option.split sum.split)

lemma summaries_of_listed:
  "summaries st entries = Inr xs \<Longrightarrow>
     (\<forall>x \<in> set xs. \<exists>sid. listed_session entries sid \<and> summary_of st sid x) \<and>
     (\<forall>sid. listed_session entries sid \<longrightarrow> (\<exists>x \<in> set xs. summary_of st sid x))"
proof (induction entries arbitrary: xs)
  case (Cons p ps)
  show ?case
  proof (cases "entry_session p")
    case None
    then have "listed_session (p # ps) sid = listed_session ps sid" for sid by (simp add: listed_session_def)
    with Cons None show ?thesis by (simp del: summaries.simps add: summaries_Cons)
  next
    case (Some sid)
    with Cons.prems obtain s state rest where session: "load st sid = Inr s" "session_state_of s = Inr state"
        "summaries st ps = Inr rest" "xs = summarize s state # rest"
      by (auto simp del: summaries.simps simp: summaries_Cons)
    have first: "listed_session (p # ps) i \<longleftrightarrow> i = sid \<or> listed_session ps i" for i
      using Some by (auto simp: listed_session_def)
    have "summary_of st sid x \<longleftrightarrow> x = summarize s state" for x using session by (auto simp: summary_of_def)
    with session first Cons.IH [of rest] show ?thesis by auto
  qed
qed (simp add: listed_session_def)

subsection \<open>Replaying a log\<close>

text \<open>C38: a log has a state exactly when it is valid (not empty, opened by
  \<open>session.started\<close>, every event of this session, schema 1, typed as its payload, no event
  identifier twice) and nothing but a resume or a change of the model follows the end of the
  session; every other log is refused with an error.\<close>

theorem state_exists_iff:
  "is_ok (reconstruct_state sid es) = (valid_log sid es \<and> well_sequenced False es)"
  by (rule reconstruct_state_ok_iff)

text \<open>C18: the replayed state is the abstract reading of the log: its messages in order, the
  number of events of each kind, the status after the last ending or resume, the latest task
  run and the last event. It continues from the latest compaction, with the last four messages
  before it and all later ones; without a compaction there is nothing to continue from.\<close>

theorem state_refines_log:
  assumes "reconstruct_state sid es = Inr st"
  shows "state_matches st es \<and> st_session_id st = sid"
  using reconstruct_state_matches [OF assms] by simp

theorem state_refines_log_witness:
  "\<exists>st. reconstruct_state ''a'' [sample_start, sample_event ''2'' (UserMessage ''hi'')] = Inr st \<and>
     st_messages st = [\<lparr>msg_role = User, msg_text = ''hi''\<rparr>] \<and> st_status st = Active"
proof -
  let ?es = "[sample_start, sample_event ''2'' (UserMessage ''hi'')]"
  have "is_ok (reconstruct_state ''a'' ?es)"
    by (simp add: reconstruct_state_ok_iff valid_log_def is_started_def sample_event_well_formed
        next_terminal_def)
  then obtain st where st: "reconstruct_state ''a'' ?es = Inr st" by (auto simp: is_ok_iff)
  from state_refines_log [OF this] have "st_messages st = log_messages ?es" "st_status st = log_status ?es"
    by (simp_all add: state_matches_def)
  with st show ?thesis by (simp add: log_defs message_of_def next_status_def)
qed

text \<open>\<open>append_event\<close> does not check the order that replay demands: once a session has
  ended, an append of any ordinary event with a new identifier still succeeds, and from then
  on the session has no state and every list of recent sessions of a directory that holds it fails.\<close>

theorem append_after_end_breaks_recent:
  assumes inv: "store_inv st" and state: "load st sid = Inr s" "session_state_of s = Inr x"
    and ended: "st_status x \<noteq> Active"
    and app: "append_event io st sid e = (Inr (), st')"
    and e: "\<not> may_follow_terminal (payload e)"
    and path: "session_path st' sid = Inr p" "path_extension p = Some ''jsonl''"
      "file_stem p = Some sid" "trim sid \<noteq> []"
    and entries: "p \<in> set entries" "0 < limit"
  shows "(\<exists>s'. load st' sid = Inr s' \<and> \<not> is_ok (session_state_of s')) \<and>
    \<not> is_ok (recent st' entries limit)"
proof -
  from jsonl.app_ok [OF inv app] obtain es where log: "holds_log st sid es" "holds_log st' sid (es @ [e])"
    by blast
  then have loads: "load st sid = Inr (session_of sid es)" "load st' sid = Inr (session_of sid (es @ [e]))"
    by (simp_all add: load_def holds_log_load)
  with state obtain b where replay: "replay (initial_state sid, False) es = Inr (x, b)"
    by (auto simp: session_state_of_def reconstruct_state_replay)
  have "b" using replay_ended [OF replay] ended by (simp add: initial_state_def)
  then have "\<not> is_ok (reconstruct_state sid (es @ [e]))"
    using replay e by (auto simp: is_ok_iff reconstruct_state_replay replay_append replay_step_iff)
  then have no_state: "\<not> is_ok (session_state_of (session_of sid (es @ [e])))"
    by (simp add: session_state_of_def)
  have "entry_session p = Some sid" using path by (simp add: entry_session_def id_new_def)
  with entries(1) have "listed_session entries sid" unfolding listed_session_def by (metis imageI)
  then have listed: "\<exists>x \<in> set xs. summary_of st' sid x" if "summaries st' entries = Inr xs" for xs
    using summaries_of_listed [OF that] by blast
  have "\<not> summary_of st' sid x" for x using no_state loads(2) by (auto simp: is_ok_iff summary_of_def)
  with listed have "\<not> is_ok (summaries st' entries)" by (auto simp: is_ok_iff)
  then show ?thesis
    using no_state loads entries(2) by (auto simp: recent_def is_ok_iff)
qed

theorem append_after_end_breaks_recent_witness:
  "\<exists>st'. append_event (sample_io None) (sample_store [sample_start, sample_event ''2'' (SessionCompleted None)])
       ''a'' (sample_event ''3'' (UserMessage ''hi'')) = (Inr (), st') \<and>
     \<not> is_ok (recent st' [''/s/b.jsonl'', ''/s/a.jsonl''] 20)"
proof -
  let ?es = "[sample_start, sample_event ''2'' (SessionCompleted None)]"
  let ?e = "sample_event ''3'' (UserMessage ''hi'')"
  have valid: "valid_log ''a'' ?es"
    by (simp add: valid_log_def is_started_def sample_event_well_formed)
  have "is_ok (reconstruct_state ''a'' ?es)"
    using valid by (simp add: reconstruct_state_ok_iff next_terminal_def)
  then obtain x where x: "reconstruct_state ''a'' ?es = Inr x" by (auto simp: is_ok_iff)
  then have ended: "st_status x \<noteq> Active"
    using reconstruct_state_matches [OF x]
    by (simp add: state_matches_def log_status_def next_status_def)
  have loads: "load (sample_store ?es) ''a'' = Inr (session_of ''a'' ?es)"
    by (simp add: load_def holds_log_load [OF sample_holds_log [OF valid]])
  have state: "session_state_of (session_of ''a'' ?es) = Inr x"
    using x by (simp add: session_state_of_def)
  obtain st' where app: "append_event (sample_io None) (sample_store ?es) ''a'' ?e = (Inr (), st')"
    using sample_append [OF valid, of "''3''" "UserMessage ''hi''"] by auto
  from append_event_Inr_root [OF app] have path: "session_path st' ''a'' = Inr ''/s/a.jsonl''"
    using sample_path [of ?es] session_path_cong [of st' "sample_store ?es" "''a''"] by simp
  have names: "path_extension ''/s/a.jsonl'' = Some ''jsonl''" "file_stem ''/s/a.jsonl'' = Some ''a''"
    "trim ''a'' \<noteq> []"
    by code_simp+
  have rest: "\<not> may_follow_terminal (payload ?e)" "''/s/a.jsonl'' \<in> set [''/s/b.jsonl'', ''/s/a.jsonl'']" "(0 :: nat) < 20"
    by (simp_all add: may_follow_terminal_def)
  from append_after_end_breaks_recent [OF sample_store_inv loads state ended app rest(1) path names rest(2,3)]
  show ?thesis using app by blast
qed

subsection \<open>Resuming and creating\<close>

text \<open>resuming a session appends exactly one event, a \<open>session.resumed\<close>, and returns the
  session with it; the state of the resumed session is \<open>Active\<close> and no other session changes.\<close>

theorem resume_reactivates:
  assumes "store_inv st" "resume io env st sid = (Inr s, st', env')"
    and "session_state_of s = Inr x"
  shows "(\<exists>old e. load st sid = Inr old \<and> s_events s = s_events old @ [e] \<and>
      payload e = SessionResumed (Some ''session resume requested'')) \<and>
    load st' sid = Inr s \<and> st_status x = Active \<and>
    (\<forall>sid'. sid' \<noteq> sid \<longrightarrow> load st' sid' = load st sid')"
proof -
  note res = assms(2) [unfolded resume_def]
  from jsonl.resume_appends [OF assms(1) res] obtain es e where
    log: "holds_log st sid es" "holds_log st' sid (es @ [e])" and s: "s_events s = es @ [e]"
    and e: "e = fst (harness_event_new env sid
      (SessionResumed (Some ''session resume requested'')) None None)"
    by blast
  have pay: "payload e = SessionResumed (Some ''session resume requested'')"
    by (simp add: e harness_event_new_payload)
  have "load st' sid = Inr s" using res by (rule resume_with_loads)
  moreover have "st_status x = Active"
    using assms(3) s pay
    by (auto simp: session_state_of_def reconstruct_state_replay replay_append replay_step_iff
        Let_def is_resumed_def)
  moreover have "load st sid = Inr (session_of sid es)"
    using log(1) by (simp add: load_def holds_log_load)
  ultimately show ?thesis
    using s pay jsonl.resume_frame [OF assms(1) res] by auto
qed

theorem resume_reactivates_witness:
  "\<exists>s st' env'. resume (sample_io None) sample_env
       (sample_store [sample_start, sample_event ''2'' (SessionFailed ''x'')]) ''a'' = (Inr s, st', env') \<and>
     load st' ''a'' = Inr s \<and> (\<exists>x. session_state_of s = Inr x \<and> st_status x = Active)"
proof -
  let ?es = "[sample_start, sample_event ''2'' (SessionFailed ''x'')]"
  let ?p = "SessionResumed (Some ''session resume requested'')"
  obtain e env' where e: "harness_event_new sample_env ''a'' ?p None None = (e, env')" by fastforce
  have id: "ev_id e = event_id_text 3 0 5"
    using harness_event_new_id [of sample_env "''a''" ?p None None] e by (simp add: sample_env_def)
  have "CHR ''-'' \<in> set (ev_id e)" by (simp add: id event_id_text_def)
  then have fresh: "ev_id e \<notin> ev_id ` set ?es" by auto
  note fields = harness_event_new_fields [OF e]
  have valid: "valid_log ''a'' ?es"
    by (simp add: valid_log_def is_started_def sample_event_well_formed)
  have acc: "accepts (sample_store ?es) ''a'' ?es e"
    using fresh fields by (simp add: accepts_def sample_holds_log [OF valid] well_formed_event_def)
  then obtain st' where app: "append_event (sample_io None) (sample_store ?es) ''a'' e = (Inr (), st')"
    and log: "holds_log st' ''a'' (?es @ [e])"
    using append_adds_record [OF sample_store_inv acc, of "sample_io None"] by auto
  let ?s = "session_of ''a'' (?es @ [e])"
  have res: "resume (sample_io None) sample_env (sample_store ?es) ''a'' = (Inr ?s, st', env')"
    using e app holds_log_load [OF log] holds_log_load [OF sample_holds_log [OF valid]]
    by (simp add: resume_def resume_with_def load_def)
  have "is_ok (reconstruct_state ''a'' (?es @ [e]))"
    using holds_log_valid [OF log] fields(3)
    by (simp add: reconstruct_state_ok_iff next_terminal_def may_follow_terminal_def)
  then obtain x where "session_state_of ?s = Inr x" by (auto simp: is_ok_iff session_state_of_def)
  with resume_reactivates [OF sample_store_inv res this] res show ?thesis by blast
qed

text \<open>C37: a session that \<open>create\<close> returns is on disk: loading its identifier gives the same
  session, with the single event \<open>session.started\<close> for the canonical workspace, no file that
  existed before is touched, and a store that could be appended to still can be.\<close>

theorem create_then_load:
  assumes "store_inv st" "create io env st ws = (Inr s, st', env')"
  shows "load st' (s_id s) = Inr s \<and> store_inv st' \<and>
    (\<exists>root e. canonical io ws = Inr root \<and> s_events s = [e] \<and> payload e = SessionStarted root \<and>
      s_workspace_root s = root) \<and>
    (\<forall>p. files st p \<noteq> None \<longrightarrow> files st' p = files st p)"
proof -
  from create_Inr [OF assms(2)] obtain root sid p e env1 env2 st1 where
    root: "canonical io ws = Inr root" and p: "session_path st sid = Inr p"
    and e: "harness_event_new env1 sid (SessionStarted root) None None = (e, env2)"
    and fresh: "files st p = None"
    and w: "write_event io (st\<lparr>files := (files st)(p \<mapsto> [])\<rparr>) p e = (Inr (), st1)"
    and st': "st' = publish st1 e" and s: "reconstruct_session sid [e] = Inr s" .
  from assms(1) obtain t where t: "encode st e = Inr t" "record_text t" "decode st t = Inr e"
    using codec_okE [of st e] unfolding store_inv_def by blast
  from w t(1) have st1: "st1 = st\<lparr>files := (files st)(p \<mapsto> t @ [newline])\<rparr>"
    by (auto simp: write_event_def Let_def split: option.splits)
  have valid: "valid_log sid [e]" "s = session_of sid [e]"
    using s by (simp_all add: reconstruct_session_iff)
  have "holds_log st' sid [e]"
    using p t valid by (auto simp: holds_log_def st' st1 record_lines_record
        session_path_cong [of "publish (st\<lparr>files := (files st)(p \<mapsto> t @ [newline])\<rparr>) e" st])
  then have "load st' sid = Inr s" by (simp add: load_def holds_log_load valid)
  moreover have "store_inv st'"
    using assms(1) by (auto simp: store_inv_def codec_ok_def line_closed_def st' st1)
  moreover have "payload e = SessionStarted root"
    using harness_event_new_payload [of env1 sid "SessionStarted root" None None] e by simp
  ultimately show ?thesis
    using root valid fresh by (auto simp: session_of_def st' st1)
qed

theorem create_then_load_witness:
  "\<exists>s st' env'. create (sample_io None) sample_env (sample_store []) ''/w'' = (Inr s, st', env') \<and>
     load st' (s_id s) = Inr s"
proof -
  have "event_id_text 3 0 5 = ''3-0-5''" by code_simp
  then obtain env1 where id: "event_id_new sample_env = (''3-0-5'', env1)"
    by (auto simp: event_id_new_def read_clock_def sample_env_def)
  obtain e env2 where e: "harness_event_new env1 ''3-0-5'' (SessionStarted ''/w'') None None = (e, env2)"
    by fastforce
  have path: "session_path (sample_store []) ''3-0-5'' = Inr ''/s/3-0-5.jsonl''" "trim ''3-0-5'' \<noteq> []"
    by code_simp+
  have f: "files (sample_store []) ''/s/3-0-5.jsonl'' = None"
    "encode (sample_store []) e = Inr (unary_record (to_nat e))"
    by (simp_all add: sample_store_def unary_encode_def)
  have "reconstruct_session ''3-0-5'' [e] = Inr (session_of ''3-0-5'' [e])"
    using harness_event_new_fields [OF e]
    by (simp add: reconstruct_session_iff valid_log_def well_formed_event_def is_started_def)
  then obtain st' where
    "create (sample_io None) sample_env (sample_store []) ''/w'' = (Inr (session_of ''3-0-5'' [e]), st', env2)"
    using e id path f by (simp add: create_def id_new_def write_event_def Let_def)
  with create_then_load [OF sample_store_inv this] show ?thesis by blast
qed

subsection \<open>Identifiers and paths\<close>

text \<open>the event identifiers one process generates are distinct, whatever its clock does,
  for as long as its 64-bit counter does not come round: \<open>n\<close> draws give \<open>n\<close> identifiers for
  every \<open>n\<close> up to \<open>2^64\<close>.\<close>

theorem event_ids_distinct:
  assumes "n \<le> 2 ^ 64" "env_counter env < 2 ^ 64"
  shows "distinct (drawn_ids env n)"
proof -
  have "drawn_ids env n ! i \<noteq> drawn_ids env n ! j" if "i < j" "j < n" for i j
  proof
    assume "drawn_ids env n ! i = drawn_ids env n ! j"
    with that have "(env_counter env + i) mod 2 ^ 64 = (env_counter env + j) mod 2 ^ 64"
      using drawn_ids_nth [of i n env] drawn_ids_nth [of j n env] assms(2)
      by (auto dest!: event_id_text_inject simp: wrap64_def)
    then have "(2 :: nat) ^ 64 dvd (env_counter env + j) - (env_counter env + i)"
      using that mod_eq_dvd_iff_nat [of "env_counter env + i" "env_counter env + j" "2 ^ 64"]
      by (metis add_le_cancel_left less_imp_le)
    then have "(2 :: nat) ^ 64 dvd j - i" by (simp only: diff_add_inverse2 diff_cancel2 add_diff_cancel_left)
    with that assms(1) show False by (auto dest: dvd_imp_le)
  qed
  then show ?thesis
    by (metis distinct_conv_nth drawn_ids_length linorder_neqE_nat)
qed

theorem event_ids_distinct_witness:
  "distinct (drawn_ids (sample_env\<lparr>env_clock := (\<lambda>_. 0), env_counter := 2 ^ 64 - 1\<rparr>) 1000)"
  by (rule event_ids_distinct) (simp_all add: sample_env_def)

text \<open>a session file is a direct child of the store's directory, whatever the identifier:
  its path is the directory's components and one more name, and different identifiers never
  share a file.\<close>

theorem session_path_confined:
  assumes "session_path st sid = Inr p"
  shows "components p = components (root_dir st) @ [Normal (sid @ ''.jsonl'')] \<and>
    (\<forall>sid'. session_path st sid' = Inr p \<longrightarrow> sid' = sid)"
  using assms session_path_inject components_session_path by blast

theorem session_path_confined_witness:
  "components ''/s/a.jsonl'' = components ''/s'' @ [Normal ''a.jsonl'']"
  using session_path_confined [OF sample_path [of "[]"]] by (simp add: sample_store_def)

subsection \<open>Recent sessions and the event bus\<close>

text \<open>C39: the list of recent sessions: at most \<open>limit\<close> of them, each the summary of a session of the directory
  as it loads and replays, the one updated last first (and among equals the one created last); a
  session that is not listed is one the limit cuts off, no newer than any listed.\<close>

theorem recent_newest_first:
  assumes "recent st entries limit = Inr xs" "0 < limit"
  shows "length xs \<le> limit \<and> sorted_wrt no_older xs \<and>
    (\<forall>x \<in> set xs. \<exists>sid. listed_session entries sid \<and> summary_of st sid x) \<and>
    (\<forall>sid. listed_session entries sid \<longrightarrow>
       (\<exists>y. summary_of st sid y \<and> (y \<in> set xs \<or> length xs = limit \<and> (\<forall>x \<in> set xs. no_older x y))))"
proof -
  from assms obtain all where all: "summaries st entries = Inr all"
    and xs: "xs = take limit (sort_key recent_key all)"
    by (auto simp: recent_def)
  let ?ys = "sort_key recent_key all"
  have sorted: "sorted_wrt no_older ?ys"
    using sorted_sort_key [of recent_key all] by (simp add: sorted_map recent_key_no_older)
  then have cut: "sorted_wrt no_older (take limit ?ys @ drop limit ?ys)" by simp
  then have before: "\<forall>x \<in> set xs. \<forall>y \<in> set (drop limit ?ys). no_older x y" and "sorted_wrt no_older xs"
    unfolding xs sorted_wrt_append by auto
  moreover have members: "set all = set xs \<union> set (drop limit ?ys)"
    unfolding xs by (metis append_take_drop_id set_append set_sort)
  moreover have "length xs = limit" if "y \<in> set (drop limit ?ys)" for y
    using that unfolding xs by (cases "limit < length ?ys") auto
  moreover have "length xs \<le> limit" by (simp add: xs)
  ultimately show ?thesis using summaries_of_listed [OF all] by (metis UnCI UnE)
qed

theorem recent_newest_first_witness:
  "\<exists>xs. recent (sample_store [sample_start]) [''/s/a.jsonl'', ''/s/notes.txt''] 20 = Inr xs \<and>
     length xs = 1"
proof -
  let ?es = "[sample_start]"
  have names: "path_extension ''/s/a.jsonl'' = Some ''jsonl''" "file_stem ''/s/a.jsonl'' = Some ''a''"
    "trim ''a'' \<noteq> []" "path_extension ''/s/notes.txt'' = Some ''txt''"
    by code_simp+
  have loads: "load (sample_store ?es) ''a'' = Inr (session_of ''a'' ?es)"
    by (simp add: load_def holds_log_load [OF sample_holds_log [OF sample_start_valid]])
  have "is_ok (reconstruct_state ''a'' ?es)"
    using sample_start_valid by (simp add: reconstruct_state_ok_iff)
  then obtain x where "session_state_of (session_of ''a'' ?es) = Inr x"
    by (auto simp: is_ok_iff session_state_of_def)
  then have sums: "summaries (sample_store ?es) [''/s/a.jsonl'', ''/s/notes.txt''] =
      Inr [summarize (session_of ''a'' ?es) x]"
    using names loads by (simp add: id_new_def)
  then have rec: "recent (sample_store ?es) [''/s/a.jsonl'', ''/s/notes.txt''] 20 =
      Inr [summarize (session_of ''a'' ?es) x]"
    by (simp add: recent_def)
  from recent_newest_first [OF this] show ?thesis using rec by auto
qed

text \<open>on a bus that has seen any sequence of subscriptions and removals within the range
  of its counter, removing a subscription removes that subscriber only: a publication then
  calls every other one exactly once, in the order of subscription.\<close>

theorem unsubscribe_removes_one:
  assumes "length ops < 2 ^ 64" "b = bus_run event_bus_new ops" "(i, h) \<in> set (bus_subscribers b)"
  shows "bus_publish (bus_unsubscribe b i) e =
      map (\<lambda>(_, h). (h, e)) (filter (\<lambda>p. p \<noteq> (i, h)) (bus_subscribers b)) \<and>
    length (bus_publish (bus_unsubscribe b i) e) + 1 = length (bus_publish b e)"
proof -
  have inv: "bus_inv b"
    using bus_run_inv [OF bus_inv_new, of ops] assms(1,2) by (simp add: event_bus_new_def)
  then have "distinct (bus_subscribers b)" by (simp add: bus_inv_def distinct_map)
  then have "length (filter (\<lambda>p. p \<noteq> (i, h)) (bus_subscribers b)) + 1 = length (bus_subscribers b)"
    using assms(3) by (rule filter_neq_length)
  with publish_after_unsubscribe [OF inv assms(3), of e] show ?thesis by (simp add: bus_publish_def)
qed

theorem unsubscribe_removes_one_witness:
  "bus_publish (bus_unsubscribe (bus_run event_bus_new
      [Subscribe ''x'', Subscribe ''y'', Unsubscribe 0, Subscribe ''z'']) 2) sample_start =
     [(''y'', sample_start)]"
proof -
  let ?ops = "[Subscribe ''x'', Subscribe ''y'', Unsubscribe 0, Subscribe ''z'']"
  let ?b = "bus_run event_bus_new ?ops"
  have b: "bus_subscribers ?b = [(1, ''y''), (2, ''z'')]"
    by (simp add: bus_run_def bus_subscribe_def bus_unsubscribe_def event_bus_new_def wrap64_def)
  have "length ?ops < 2 ^ 64" "(2, ''z'') \<in> set (bus_subscribers ?b)"
    by (simp_all add: b)
  from unsubscribe_removes_one [OF this(1) refl this(2), of sample_start] show ?thesis
    by (simp add: b)
qed

end
