(* ===== verification/Policy.thy ===== *)
theory Policy
  imports Core Paths "HOL-Library.Product_Lexorder"
begin

section \<open>harness-policy: deciding what a tool call may do\<close>

text \<open>
  \<open>harness-policy/src/lib.rs\<close>. A request is classified into risks from its operation, path
  and command text; the engine applies the built-in guards, the configured rules and the
  default of its mode. \<open>globset\<close> is third-party code: the parameter \<open>glob\<close> maps a pattern to
  an error or to its matcher, as \<open>Glob::new\<close> does; \<open>toml\<close> is the parser of the configuration.
  A rule's \<open>i32\<close> priority is a 32-bit word, and its negation wraps round as it does in a
  release build.
\<close>

subsection \<open>Permissions, operations, risks and decisions\<close>

datatype permission = ReadWorkspace | WriteWorkspace | ExecuteCommand | AccessNetwork

fun permission_text :: "permission \<Rightarrow> string" where
  "permission_text ReadWorkspace = ''read-workspace''"
| "permission_text WriteWorkspace = ''write-workspace''"
| "permission_text ExecuteCommand = ''execute-command''"
| "permission_text AccessNetwork = ''access-network''"

datatype operation_kind = Read | Search | Write | Patch | Command | Network | Mcp

datatype risk_category =
  RRead | ProjectWrite | Process | PackageInstall | RNetwork | GitMutation | Destructive
  | OutsideWorkspace | SecretAccess

fun risk_rank :: "risk_category \<Rightarrow> nat" where
  "risk_rank RRead = 0"
| "risk_rank ProjectWrite = 1"
| "risk_rank Process = 2"
| "risk_rank PackageInstall = 3"
| "risk_rank RNetwork = 4"
| "risk_rank GitMutation = 5"
| "risk_rank Destructive = 6"
| "risk_rank OutsideWorkspace = 7"
| "risk_rank SecretAccess = 8"

lemma risk_rank_inject: "risk_rank x = risk_rank y \<Longrightarrow> x = y"
  by (cases x; cases y; simp)

text \<open>The derived order: the order of the variants.\<close>

instantiation risk_category :: linorder
begin

definition less_eq_risk_category :: "risk_category \<Rightarrow> risk_category \<Rightarrow> bool" where
  "less_eq_risk_category x y \<longleftrightarrow> risk_rank x \<le> risk_rank y"

definition less_risk_category :: "risk_category \<Rightarrow> risk_category \<Rightarrow> bool" where
  "less_risk_category x y \<longleftrightarrow> risk_rank x < risk_rank y"

instance
  by standard
    (auto simp: less_eq_risk_category_def less_risk_category_def intro: risk_rank_inject)

end

fun risk_text :: "risk_category \<Rightarrow> string" where
  "risk_text RRead = ''READ''"
| "risk_text ProjectWrite = ''PROJECT_WRITE''"
| "risk_text Process = ''PROCESS''"
| "risk_text PackageInstall = ''PACKAGE_INSTALL''"
| "risk_text RNetwork = ''NETWORK''"
| "risk_text GitMutation = ''GIT_MUTATION''"
| "risk_text Destructive = ''DESTRUCTIVE''"
| "risk_text OutsideWorkspace = ''OUTSIDE_WORKSPACE''"
| "risk_text SecretAccess = ''SECRET_ACCESS''"

datatype network_access = NetAsk | NetAllow | NetDeny

fun operation_permission :: "operation_kind \<Rightarrow> permission" where
  "operation_permission Read = ReadWorkspace"
| "operation_permission Search = ReadWorkspace"
| "operation_permission Write = WriteWorkspace"
| "operation_permission Patch = WriteWorkspace"
| "operation_permission Command = ExecuteCommand"
| "operation_permission Network = AccessNetwork"
| "operation_permission Mcp = AccessNetwork"

datatype policy_decision = Allow | Ask | Deny

fun decision_text :: "policy_decision \<Rightarrow> string" where
  "decision_text Allow = ''allow''"
| "decision_text Ask = ''ask''"
| "decision_text Deny = ''deny''"

datatype execution_mode = ReadOnly | Safe | NormalMode | Auto

subsection \<open>Requests, evaluations and rules\<close>

record policy_request =
  tool_name :: string
  request_operation :: operation_kind
  workspace_root :: path
  request_path :: "path option"
  request_command :: "string option"
  request_mode :: execution_mode

record policy_evaluation =
  decision :: policy_decision
  rule_of :: string
  reason_of :: string

definition evaluation :: "policy_decision \<Rightarrow> string \<Rightarrow> string \<Rightarrow> policy_evaluation" where
  "evaluation d rule reason = \<lparr>decision = d, rule_of = rule, reason_of = reason\<rparr>"

record policy_rule =
  rule_name :: string
  rule_action :: policy_decision
  rule_priority :: "32 word"
  rule_tools :: "string list option"
  rule_operations :: "operation_kind list option"
  rule_modes :: "execution_mode list option"
  rule_paths :: "string list option"
  rule_commands :: "string list option"
  rule_risks :: "risk_category list option"

definition default_rule_name :: string where
  "default_rule_name = ''unnamed''"

record policy_engine =
  engine_mode :: execution_mode
  network_access :: network_access
  engine_root :: path
  engine_rules :: "policy_rule list"

datatype policy_error = InvalidPolicyConfig string | InvalidGlob string string

fun policy_error_text :: "policy_error \<Rightarrow> string" where
  "policy_error_text (InvalidPolicyConfig reason) = ''invalid policy configuration: '' @ reason"
| "policy_error_text (InvalidGlob pattern msg) = ''invalid policy glob '' @ pattern @ '': '' @ msg"

record policy_settings =
  set_mode :: "execution_mode option"
  set_network_access :: network_access
  set_rules :: "policy_rule list"

subsection \<open>Configuration\<close>

definition policy_engine_new :: "execution_mode \<Rightarrow> path \<Rightarrow> policy_engine" where
  "policy_engine_new m root =
     \<lparr>engine_mode = m, network_access = NetAsk, engine_root = root, engine_rules = []\<rparr>"

definition policy_settings_default :: policy_settings where
  "policy_settings_default = \<lparr>set_mode = None, set_network_access = NetAsk, set_rules = []\<rparr>"

text \<open>The parser yields the \<open>[policy]\<close> table of the file, when it has one.\<close>

definition from_toml ::
  "(string \<Rightarrow> string + policy_settings option) \<Rightarrow> string \<Rightarrow> path \<Rightarrow> policy_error + policy_engine" where
  "from_toml toml contents root =
     (case toml contents of
        Inl err \<Rightarrow> Inl (InvalidPolicyConfig err)
      | Inr table \<Rightarrow>
          let settings = (case table of None \<Rightarrow> policy_settings_default | Some s \<Rightarrow> s)
          in Inr \<lparr>engine_mode = (case set_mode settings of None \<Rightarrow> NormalMode | Some m \<Rightarrow> m),
                  network_access = set_network_access settings, engine_root = root,
                  engine_rules = set_rules settings\<rparr>)"

definition with_mode :: "policy_engine \<Rightarrow> execution_mode \<Rightarrow> policy_engine" where
  "with_mode e m = e\<lparr>engine_mode := m\<rparr>"

definition from_file ::
  "(path \<Rightarrow> string + string) \<Rightarrow> (string \<Rightarrow> string + policy_settings option) \<Rightarrow> path \<Rightarrow> path \<Rightarrow>
   policy_error + policy_engine" where
  "from_file read_file toml p root =
     (case read_file p of
        Inl err \<Rightarrow> Inl (InvalidPolicyConfig (p @ '': '' @ err))
      | Inr contents \<Rightarrow> from_toml toml contents root)"

subsection \<open>Protected paths\<close>

definition high_risk_parts :: "string list" where
  "high_risk_parts =
     [''/.ssh/'', ''/.aws/'', ''/.azure/'', ''/.gnupg/'', ''/.kube/'', ''/.docker/'',
      ''/.config/opencode/'', ''/.local/share/opencode/'', ''/.config/gh/hosts.yml'',
      ''/.config/gcloud/'', ''/credentials/'']"

definition high_risk_ends :: "string list" where
  "high_risk_ends =
     [''/.ssh'', ''/.aws'', ''/.azure'', ''/.gnupg'', ''/.kube'', ''/.docker'',
      ''/.config/opencode'']"

definition high_risk_names :: "string list" where
  "high_risk_names =
     [''id_rsa'', ''id_ed25519'', ''id_ecdsa'', ''.netrc'', ''.npmrc'', ''.pypirc'',
      ''.git-credentials'', ''.envrc'', ''.profile'', ''.bashrc'', ''.bash_profile'', ''.zshrc'',
      ''.zprofile'', ''config.fish'', ''profile.ps1'', ''microsoft.powershell_profile.ps1'',
      ''authorized_keys'']"

definition is_high_risk_path :: "path \<Rightarrow> bool" where
  "is_high_risk_path p =
     (let normalized = to_ascii_lowercase (replace_char CHR 0x5C slash p);
          name = to_ascii_lowercase (case file_name p of None \<Rightarrow> [] | Some n \<Rightarrow> n)
      in contains_any high_risk_parts normalized \<or>
         list_ex (ends_with normalized) high_risk_ends \<or>
         name = ''.env'' \<or> starts_with name ''.env.'' \<or> name \<in> set high_risk_names \<or>
         (case path_extension p of None \<Rightarrow> False
          | Some x \<Rightarrow> to_ascii_lowercase x \<in> {''pem'', ''key'', ''p12'', ''pfx''}))"

definition is_protected_path :: "path \<Rightarrow> bool" where
  "is_protected_path p = is_high_risk_path (normalize_path p)"

subsection \<open>Classifying command text\<close>

fun tokens_of :: "(string \<Rightarrow> bool) \<Rightarrow> string list \<Rightarrow> string \<Rightarrow> string list" where
  "tokens_of sep [] acc = (if acc = [] then [] else [acc])"
| "tokens_of sep (ch # chs) acc =
     (if sep ch
      then (if acc = [] then tokens_of sep chs [] else acc # tokens_of sep chs [])
      else tokens_of sep chs (acc @ ch))"

definition token_separator :: "string \<Rightarrow> bool" where
  "token_separator ch \<longleftrightarrow> is_white_space ch \<or>
     ch \<in> {[CHR 0x22], [CHR 0x27], '';'', ''|'', ''&'', ''('', '')'', ''<'', ''>'', '',''}"

definition token_value :: "string \<Rightarrow> string" where
  "token_value token = (case split_once ''='' token of None \<Rightarrow> token | Some (_, v) \<Rightarrow> v)"

definition trim_brackets :: "string \<Rightarrow> string" where
  "trim_brackets s = trim_end_chars ''[]{}'' (trim_start_chars ''[]{}'' s)"

definition command_has_outside_absolute_path :: "string \<Rightarrow> path \<Rightarrow> bool" where
  "command_has_outside_absolute_path cmd root =
     (let workspace = normalize_path root
      in list_ex (\<lambda>token. is_absolute token \<and> \<not> path_starts_with (normalize_path token) workspace)
           (map (\<lambda>t. trim_brackets (token_value t)) (tokens_of token_separator (utf8_chars cmd) [])))"

definition outside_needles :: "string list" where
  "outside_needles =
     [''../'', ''..'' @ [CHR 0x5C], ''~/'', ''$home'', ''$userprofile'', ''$env:userprofile'',
      ''$env:appdata'', ''%userprofile%'', ''%appdata%'', ''/etc/'']"

definition secret_needles :: "string list" where
  "secret_needles =
     [''.env'', ''.ssh'', ''.aws'', ''.npmrc'', ''.netrc'', ''.pypirc'', ''id_rsa'', ''id_ed25519'',
      ''credentials'', ''printenv'', ''export '', ''$env:'', ''%openai_api_key%'',
      ''get-childitem env:'', ''get-item env:'', ''dir env:'', ''get-credential'',
      ''credential-manager'', ''.bashrc'', ''.zshrc'', ''profile.ps1'']"

definition package_needles :: "string list" where
  "package_needles =
     [''npm install'', ''npm i '', ''npm ci'', ''pnpm install'', ''pnpm add '', ''yarn install'',
      ''yarn add '', ''bun install'', ''bun add '', ''cargo add '', ''cargo install '',
      ''pip install'', ''pip3 install'', ''python -m pip install'', ''python3 -m pip install'',
      ''pipx install'', ''uv add '', ''uv tool install '', ''uv pip install'', ''poetry add '',
      ''poetry install'', ''bundle install'', ''go get '', ''dotnet add package'',
      ''gem install '', ''composer install'', ''composer require '', ''brew install '',
      ''apt install '', ''apt-get install '', ''winget install '', ''choco install '']"

definition network_needles :: "string list" where
  "network_needles =
     [''curl '', ''wget '', ''invoke-webrequest'', ''invoke-restmethod'', ''irm '', ''fetch('',
      ''http://'', ''https://'', ''ftp '']"

definition git_needles :: "string list" where
  "git_needles =
     [''git add '', ''git commit'', ''git checkout'', ''git switch'', ''git branch '', ''git reset'',
      ''git clean'', ''git stash'', ''git merge'', ''git push'', ''git pull'', ''git fetch'',
      ''git rebase'', ''git cherry-pick'', ''git tag '', ''git clone '']"

definition git_network_needles :: "string list" where
  "git_network_needles = [''git push'', ''git pull'', ''git fetch'', ''git clone'']"

definition destructive_needles :: "string list" where
  "destructive_needles =
     [''rm '', ''rmdir '', ''del '', ''erase '', ''remove-item '', ''unlink '', ''shred '',
      ''format '', ''diskpart'', ''truncate -s 0'', ''git clean -f'', ''cargo clean'']"

definition shell_needles :: "string list" where
  "shell_needles =
     [''bash -c '', ''bash -lc '', ''sh -c '', ''sh -lc '', ''cmd /c '', ''cmd /k '',
      ''cmd.exe /c '', ''cmd.exe /k '', ''powershell -command'', ''powershell -c '',
      ''powershell.exe -command'', ''powershell.exe -c '', ''pwsh -command'', ''pwsh -c '',
      ''python -c '', ''python3 -c '', ''node -e '', ''eval '', ''xargs '', ''sudo '']"

definition classify_command_risks :: "string \<Rightarrow> path \<Rightarrow> risk_category list" where
  "classify_command_risks cmd root =
     (let c = to_ascii_lowercase cmd;
          has = (\<lambda>needles. contains_any needles c)
      in (if has outside_needles \<or> command_has_outside_absolute_path c root
          then [OutsideWorkspace] else []) @
         (if has secret_needles \<or> trim c \<in> {''env'', ''set''} \<or>
            starts_with (trim_start c) ''env '' \<or> starts_with (trim_start c) ''set ''
          then [SecretAccess] else []) @
         (if has package_needles then [PackageInstall] else []) @
         (if has network_needles then [RNetwork] else []) @
         (if has git_needles
          then [GitMutation] @ (if has git_network_needles then [RNetwork] else []) else []) @
         (if has destructive_needles then [Destructive] else []) @
         (if has shell_needles then [Process] else []))"

definition safe_command_prefixes :: "string list" where
  "safe_command_prefixes =
     [''git status'', ''git diff'', ''git log'', ''git show'', ''cargo check'', ''cargo test'',
      ''cargo clippy'', ''cargo fmt'', ''npm test'', ''npm run build'', ''npm run lint'',
      ''npm run typecheck'', ''pnpm test'', ''pnpm run build'', ''pnpm run lint'',
      ''pnpm run typecheck'', ''yarn test'', ''yarn build'']"

definition is_safe_command :: "string \<Rightarrow> bool" where
  "is_safe_command cmd =
     (let c = to_ascii_lowercase (trim cmd)
      in list_ex (starts_with c) safe_command_prefixes \<or> c = ''ls'' \<or> c = ''pwd'')"

fun operation_risk :: "operation_kind \<Rightarrow> risk_category" where
  "operation_risk Read = RRead"
| "operation_risk Search = RRead"
| "operation_risk Write = ProjectWrite"
| "operation_risk Patch = ProjectWrite"
| "operation_risk Command = Process"
| "operation_risk Network = RNetwork"
| "operation_risk Mcp = RNetwork"

definition path_risks :: "policy_request \<Rightarrow> risk_category list" where
  "path_risks r =
     (case request_path r of None \<Rightarrow> []
      | Some p \<Rightarrow>
          let root = normalize_path (workspace_root r); p = normalize_path p
          in (if \<not> path_starts_with p root then [OutsideWorkspace] else []) @
             (if is_high_risk_path p then [SecretAccess] else []))"

definition risk_categories :: "policy_request \<Rightarrow> risk_category list" where
  "risk_categories r =
     remdups_adj (sort (operation_risk (request_operation r) # path_risks r @
       (case request_command r of None \<Rightarrow> [] | Some c \<Rightarrow> classify_command_risks c (workspace_root r))))"

fun operation_name :: "operation_kind \<Rightarrow> string" where
  "operation_name Read = ''read''"
| "operation_name Search = ''search''"
| "operation_name Write = ''write''"
| "operation_name Patch = ''patch''"
| "operation_name Command = ''command''"
| "operation_name Network = ''network''"
| "operation_name Mcp = ''mcp''"

end
