(* ===== verification/Policy_Engine.thy ===== *)
theory Policy_Engine
  imports Policy
begin

section \<open>harness-policy: the engine\<close>

text \<open>
  Rule matching, the evaluation of a request, the trait \<open>Policy\<close> with its implementations,
  and the functions that turn a decision into permission or an error. A policy is the record
  of its methods. The lemmas describe the evaluation by what it lets through; the locale
  \<open>guarded_policy\<close> is what a client of any policy with unconditional guards may rely on.
\<close>

type_synonym glob_matcher = "string \<Rightarrow> string + (string \<Rightarrow> bool)"

subsection \<open>Matching a rule\<close>

definition glob_matches :: "glob_matcher \<Rightarrow> string \<Rightarrow> string \<Rightarrow> policy_error + bool" where
  "glob_matches glob pattern v =
     (case glob pattern of Inl msg \<Rightarrow> Inl (InvalidGlob pattern msg) | Inr m \<Rightarrow> Inr (m v))"

fun any_glob :: "glob_matcher \<Rightarrow> string list \<Rightarrow> string \<Rightarrow> policy_error + bool" where
  "any_glob glob [] v = Inr False"
| "any_glob glob (p # ps) v =
     bind_result (glob_matches glob p v) (\<lambda>m. if m then Inr True else any_glob glob ps v)"

definition path_candidates :: "policy_request \<Rightarrow> path \<Rightarrow> string list" where
  "path_candidates r p =
     (let relative = (case path_strip_prefix (workspace_root r) p of None \<Rightarrow> p | Some q \<Rightarrow> q)
      in [replace_char CHR 0x5C slash relative, replace_char CHR 0x5C slash p])"

definition rule_matches ::
  "glob_matcher \<Rightarrow> policy_rule \<Rightarrow> policy_request \<Rightarrow> policy_error + bool" where
  "rule_matches glob rule r =
     (if (case rule_risks rule of None \<Rightarrow> False
          | Some risks \<Rightarrow> \<not> list_ex (\<lambda>x. x \<in> set (risk_categories r)) risks)
      then Inr False
      else bind_result
        (case rule_tools rule of None \<Rightarrow> Inr True | Some tools \<Rightarrow> any_glob glob tools (tool_name r))
        (\<lambda>tool_ok.
          if \<not> tool_ok then Inr False
          else if (case rule_operations rule of None \<Rightarrow> False
                   | Some ops \<Rightarrow> request_operation r \<notin> set ops) then Inr False
          else if (case rule_modes rule of None \<Rightarrow> False
                   | Some modes \<Rightarrow> request_mode r \<notin> set modes) then Inr False
          else if (case rule_paths rule of None \<Rightarrow> False
                   | Some patterns \<Rightarrow>
                       (case request_path r of None \<Rightarrow> True
                        | Some p \<Rightarrow> \<not> list_ex (\<lambda>pattern. list_ex
                            (\<lambda>c. glob_matches glob pattern c = Inr True) (path_candidates r p)) patterns))
          then Inr False
          else (case rule_commands rule of None \<Rightarrow> Inr True
                | Some patterns \<Rightarrow>
                    (case request_command r of None \<Rightarrow> Inr False
                     | Some c \<Rightarrow> any_glob glob patterns c))))"

fun matching_rules ::
  "glob_matcher \<Rightarrow> policy_request \<Rightarrow> nat \<Rightarrow> policy_rule list \<Rightarrow>
   policy_error + (nat \<times> policy_rule) list" where
  "matching_rules glob r n [] = Inr []"
| "matching_rules glob r n (rule # rules) =
     bind_result (rule_matches glob rule r) (\<lambda>m.
     bind_result (matching_rules glob r (Suc n) rules) (\<lambda>rest.
     Inr (if m then (n, rule) # rest else rest)))"

text \<open>The key of \<open>sort_by_key\<close>: the negated priority, then the position in the file.\<close>

definition match_key :: "nat \<times> policy_rule \<Rightarrow> int \<times> nat" where
  "match_key m = (sint (- rule_priority (snd m)), fst m)"

subsection \<open>Evaluating a request\<close>

fun mode_text :: "execution_mode \<Rightarrow> string" where
  "mode_text ReadOnly = ''ReadOnly''"
| "mode_text Safe = ''Safe''"
| "mode_text NormalMode = ''Normal''"
| "mode_text Auto = ''Auto''"

definition default_decision :: "policy_engine \<Rightarrow> policy_request \<Rightarrow> policy_decision" where
  "default_decision e r =
     (case request_mode r of
        ReadOnly \<Rightarrow> if request_operation r \<in> {Read, Search} then Allow else Deny
      | Safe \<Rightarrow>
          if request_operation r \<in> {Read, Search} then Allow
          else if request_operation r = Network \<and> network_access e = NetAllow then Allow
          else Ask
      | _ \<Rightarrow>
          (case request_operation r of
             Command \<Rightarrow>
               if is_safe_command (case request_command r of None \<Rightarrow> [] | Some c \<Rightarrow> c) \<or>
                  (network_access e = NetAllow \<and> RNetwork \<in> set (risk_categories r))
               then Allow else Ask
           | Network \<Rightarrow> if network_access e = NetAllow then Allow else Ask
           | Mcp \<Rightarrow> if network_access e = NetAllow then Allow else Ask
           | _ \<Rightarrow> Allow))"

definition default_evaluation :: "policy_engine \<Rightarrow> policy_request \<Rightarrow> policy_evaluation" where
  "default_evaluation e r =
     (let d = default_decision e r
      in evaluation d ''mode-default''
        (case d of
           Allow \<Rightarrow> mode_text (request_mode r) @ '' mode allows this operation''
         | Ask \<Rightarrow> mode_text (request_mode r) @ '' mode requires approval for this operation''
         | Deny \<Rightarrow> mode_text (request_mode r) @ '' mode denies this operation''))"

definition normalize_request :: "policy_engine \<Rightarrow> policy_request \<Rightarrow> policy_request" where
  "normalize_request e r =
     r\<lparr>request_mode := engine_mode e,
       workspace_root := normalize_path (workspace_root r),
       request_path := map_option normalize_path (request_path r)\<rparr>"

definition sensitive_risks :: "risk_category set" where
  "sensitive_risks = {PackageInstall, GitMutation, Destructive, SecretAccess}"

definition evaluate_request ::
  "glob_matcher \<Rightarrow> policy_engine \<Rightarrow> policy_request \<Rightarrow> policy_error + policy_evaluation" where
  "evaluate_request glob e request =
     (let r = normalize_request e request in
      if (case request_path r of None \<Rightarrow> False | Some p \<Rightarrow> \<not> path_starts_with p (workspace_root r))
      then Inr (evaluation Deny ''built-in:workspace-boundary''
        ''path is outside the permitted workspace'')
      else if (case request_path r of None \<Rightarrow> False | Some p \<Rightarrow> is_high_risk_path p)
      then Inr (evaluation Deny ''built-in:high-risk-path''
        ''path is protected as a credential or VCS secret'')
      else let risks = set (risk_categories r) in
      if OutsideWorkspace \<in> risks
      then Inr (evaluation Deny ''built-in:outside-workspace-command''
        ''commands that address paths outside the workspace are denied'')
      else bind_result (matching_rules glob r 0 (engine_rules e)) (\<lambda>matches.
        case find (\<lambda>(_, rule). rule_action rule = Deny) matches of
          Some (_, rule) \<Rightarrow> Inr (evaluation Deny (rule_name rule) ''explicit deny rule matched'')
        | None \<Rightarrow>
          if request_mode r = ReadOnly \<and> request_operation r \<notin> {Read, Search}
          then Inr (evaluation Deny ''built-in:read-only-mode''
            ''read-only mode denies every process or mutating operation'')
          else if sensitive_risks \<inter> risks \<noteq> {}
          then Inr (evaluation Ask ''built-in:sensitive-command''
            ''this command affects packages, Git state, destructive state, or secrets'')
          else if RNetwork \<in> risks \<and> network_access e = NetDeny
          then Inr (evaluation Deny ''built-in:network-denied''
            ''network access is denied by workspace policy'')
          else if RNetwork \<in> risks \<and> network_access e = NetAsk
          then Inr (evaluation Ask ''built-in:network-approval''
            ''network access requires explicit user approval'')
          else case sort_key match_key matches of
            (_, rule) # _ \<Rightarrow> Inr (evaluation (rule_action rule) (rule_name rule)
              (''rule '' @ rule_name rule @ '' matched''))
          | [] \<Rightarrow> Inr (default_evaluation e r)))"

subsection \<open>The trait \<open>Policy\<close>\<close>

record policy =
  check :: "permission \<Rightarrow> policy_decision"
  policy_mode :: execution_mode
  evaluate :: "policy_request \<Rightarrow> policy_evaluation"

fun permission_debug :: "permission \<Rightarrow> string" where
  "permission_debug ReadWorkspace = ''ReadWorkspace''"
| "permission_debug WriteWorkspace = ''WriteWorkspace''"
| "permission_debug ExecuteCommand = ''ExecuteCommand''"
| "permission_debug AccessNetwork = ''AccessNetwork''"

text \<open>A policy that defines \<open>check\<close> only and inherits the default methods.\<close>

definition legacy_policy :: "(permission \<Rightarrow> policy_decision) \<Rightarrow> policy" where
  "legacy_policy chk =
     \<lparr>check = chk, policy_mode = NormalMode,
      evaluate = (\<lambda>r. let p = operation_permission (request_operation r)
        in evaluation (chk p) ''legacy-permission'' (permission_debug p))\<rparr>"

definition allow_all_policy :: policy where
  "allow_all_policy = legacy_policy (\<lambda>_. Allow)"

definition deny_all_policy :: policy where
  "deny_all_policy = legacy_policy (\<lambda>_. Deny)"

fun permission_operation :: "permission \<Rightarrow> operation_kind" where
  "permission_operation ReadWorkspace = Read"
| "permission_operation WriteWorkspace = Write"
| "permission_operation ExecuteCommand = Command"
| "permission_operation AccessNetwork = Network"

definition engine_check :: "policy_engine \<Rightarrow> permission \<Rightarrow> policy_decision" where
  "engine_check e p =
     decision (default_evaluation e
       \<lparr>tool_name = [], request_operation = permission_operation p,
        workspace_root = engine_root e, request_path = None, request_command = None,
        request_mode = engine_mode e\<rparr>)"

definition engine_evaluate :: "glob_matcher \<Rightarrow> policy_engine \<Rightarrow> policy_request \<Rightarrow> policy_evaluation" where
  "engine_evaluate glob e r =
     (case evaluate_request glob e r of
        Inl err \<Rightarrow> evaluation Deny ''invalid-policy'' (policy_error_text err)
      | Inr ev \<Rightarrow> ev)"

definition engine_policy :: "glob_matcher \<Rightarrow> policy_engine \<Rightarrow> policy" where
  "engine_policy glob e =
     \<lparr>check = engine_check e, policy_mode = engine_mode e, evaluate = engine_evaluate glob e\<rparr>"

fun ensure_decision :: "string \<Rightarrow> policy_decision \<Rightarrow> string \<Rightarrow> harness_error + unit" where
  "ensure_decision capability Allow reason = Inr ()"
| "ensure_decision capability Ask reason = Inl (PermissionRequired capability reason)"
| "ensure_decision capability Deny reason = Inl (PermissionDenied capability)"

definition authorize :: "policy \<Rightarrow> permission \<Rightarrow> harness_error + unit" where
  "authorize pol p = ensure_decision (permission_text p) (check pol p) ''permission check''"

definition authorize_request :: "policy \<Rightarrow> policy_request \<Rightarrow> harness_error + unit" where
  "authorize_request pol r =
     (let ev = evaluate pol r
      in ensure_decision (operation_name (request_operation r) @ '' '' @ tool_name r)
           (decision ev) (reason_of ev))"

subsection \<open>The rules that match and the one that wins\<close>

definition matches_rule :: "glob_matcher \<Rightarrow> policy_request \<Rightarrow> policy_rule \<Rightarrow> bool" where
  "matches_rule glob r rule \<longleftrightarrow> rule_matches glob rule r = Inr True"

definition rules_ok :: "glob_matcher \<Rightarrow> policy_request \<Rightarrow> policy_rule list \<Rightarrow> bool" where
  "rules_ok glob r rules \<longleftrightarrow> list_all (\<lambda>rule. is_ok (rule_matches glob rule r)) rules"

definition matches_of ::
  "glob_matcher \<Rightarrow> policy_request \<Rightarrow> nat \<Rightarrow> policy_rule list \<Rightarrow> (nat \<times> policy_rule) list" where
  "matches_of glob r n rules =
     filter (\<lambda>m. matches_rule glob r (snd m)) (List.enumerate n rules)"

definition winning_rule :: "glob_matcher \<Rightarrow> policy_request \<Rightarrow> policy_rule list \<Rightarrow> policy_rule option" where
  "winning_rule glob r rules =
     (case sort_key match_key (matches_of glob r 0 rules) of [] \<Rightarrow> None | m # _ \<Rightarrow> Some (snd m))"

lemma matching_rules_eq:
  "matching_rules glob r n rules =
     (if rules_ok glob r rules then Inr (matches_of glob r n rules)
      else matching_rules glob r n rules)"
proof (induction rules arbitrary: n)
  case (Cons rule rules)
  show ?case
  proof (cases "rules_ok glob r (rule # rules)")
    case True
    then obtain m where m: "rule_matches glob rule r = Inr m"
      by (auto simp: rules_ok_def is_ok_iff)
    from True have "rules_ok glob r rules" by (simp add: rules_ok_def)
    with Cons.IH [of "Suc n"] have "matching_rules glob r (Suc n) rules = Inr (matches_of glob r (Suc n) rules)"
      by simp
    with True m show ?thesis by (simp add: matches_of_def matches_rule_def)
  qed simp
qed (simp add: matches_of_def)

lemma matching_rules_bad: "\<not> rules_ok glob r rules \<Longrightarrow> \<exists>err. matching_rules glob r n rules = Inl err"
proof (induction rules arbitrary: n)
  case (Cons rule rules)
  show ?case
  proof (cases "rule_matches glob rule r")
    case (Inr m)
    with Cons.prems have "\<not> rules_ok glob r rules" by (simp add: rules_ok_def)
    then obtain err where "matching_rules glob r (Suc n) rules = Inl err" using Cons.IH by blast
    with Inr show ?thesis by simp
  qed simp
qed (simp add: rules_ok_def)

lemma set_matches_of:
  "set (matches_of glob r 0 rules) = {(i, rules ! i) | i. i < length rules \<and> matches_rule glob r (rules ! i)}"
  by (auto simp: matches_of_def in_set_enumerate_eq)

lemma find_Some_ex: "(\<exists>m. find P xs = Some m) \<longleftrightarrow> (\<exists>x \<in> set xs. P x)"
  by (induction xs) auto

lemma deny_match_iff:
  "find (\<lambda>(_, rule). rule_action rule = Deny) (matches_of glob r 0 rules) = None \<longleftrightarrow>
     (\<forall>rule \<in> set rules. matches_rule glob r rule \<longrightarrow> rule_action rule \<noteq> Deny)"
proof -
  have "set (map snd (matches_of glob r 0 rules)) = {rule \<in> set rules. matches_rule glob r rule}"
    by (auto simp: set_matches_of in_set_conv_nth image_iff)
  moreover have "(\<forall>m \<in> set ms. rule_action (snd m) \<noteq> Deny) \<longleftrightarrow>
      (\<forall>x \<in> set (map snd ms). rule_action x \<noteq> Deny)" for ms :: "(nat \<times> policy_rule) list"
    by simp
  ultimately have "(\<forall>m \<in> set (matches_of glob r 0 rules). rule_action (snd m) \<noteq> Deny) \<longleftrightarrow>
      (\<forall>rule \<in> {rule \<in> set rules. matches_rule glob r rule}. rule_action rule \<noteq> Deny)"
    by (simp only:)
  then show ?thesis unfolding find_None_iff by (auto simp: case_prod_beta)
qed

text \<open>The winner: least in the order of the keys, which no two matches share.\<close>

lemma winning_rule_at:
  assumes i: "i < length rules" "matches_rule glob r (rules ! i)"
    and least: "\<And>j. j < length rules \<Longrightarrow> matches_rule glob r (rules ! j) \<Longrightarrow>
      match_key (i, rules ! i) \<le> match_key (j, rules ! j)"
  shows "winning_rule glob r rules = Some (rules ! i)"
proof -
  let ?ms = "matches_of glob r 0 rules"
  let ?sorted = "sort_key match_key ?ms"
  have mem: "(i, rules ! i) \<in> set ?sorted" using i by (auto simp: set_matches_of)
  then obtain m rest where sorted: "?sorted = m # rest" by (cases ?sorted) auto
  have "set ?sorted = set ?ms" by (rule set_sort)
  with sorted have "m \<in> set ?ms" by auto
  then obtain j where j: "m = (j, rules ! j)" "j < length rules" "matches_rule glob r (rules ! j)"
    by (auto simp: set_matches_of)
  have "sorted (map match_key (m # rest))" by (metis sorted sorted_sort_key)
  with mem sorted have "match_key m \<le> match_key (i, rules ! i)" by auto
  with least [OF j(2,3)] j(1) have "match_key m = match_key (i, rules ! i)" by simp
  with j(1) have "j = i" by (simp add: match_key_def)
  with sorted j(1) show ?thesis by (simp add: winning_rule_def)
qed

lemma winning_rule_None:
  "winning_rule glob r rules = None \<longleftrightarrow> (\<forall>rule \<in> set rules. \<not> matches_rule glob r rule)"
proof -
  have "winning_rule glob r rules = None \<longleftrightarrow> matches_of glob r 0 rules = []"
    by (auto simp: winning_rule_def split: list.splits) (metis list.distinct(1) set_empty set_sort)
  also have "\<dots> \<longleftrightarrow> (\<forall>rule \<in> set rules. \<not> matches_rule glob r rule)"
    using set_matches_of [of glob r rules] nth_mem [of _ rules]
    by (fastforce simp: in_set_conv_nth simp flip: set_empty)
  finally show ?thesis .
qed

text \<open>Negation of a priority is exact, except for the least one, which is its own negation.\<close>

lemma sint_uminus_no_min:
  assumes "(p :: 32 word) \<noteq> 0x80000000"
  shows "sint (- p) = - sint p"
proof -
  have range: "- (2 ^ 31) \<le> sint p" "sint p < 2 ^ 31"
    using sint_greater_eq [of p] sint_less [of p] by simp_all
  have "sint p \<noteq> - (2 ^ 31)"
  proof
    assume "sint p = - (2 ^ 31)"
    then have "word_of_int (sint p) = (word_of_int (- (2 ^ 31)) :: 32 word)" by simp
    with assms show False by simp
  qed
  with range have "signed_take_bit 31 (- sint p) = - sint p"
    by (intro signed_take_bit_int_eq_self) simp_all
  moreover have "sint (word_of_int (- sint p) :: 32 word) = signed_take_bit 31 (- sint p)"
    by (subst sint_sbintrunc') simp
  ultimately show ?thesis by simp
qed

subsection \<open>The decision as a table\<close>

definition in_bounds :: "policy_request \<Rightarrow> bool" where
  "in_bounds r \<longleftrightarrow>
     (case request_path r of None \<Rightarrow> True
      | Some p \<Rightarrow> path_starts_with (normalize_path p) (normalize_path (workspace_root r)) \<and>
          \<not> is_protected_path p)"

definition request_risks :: "policy_engine \<Rightarrow> policy_request \<Rightarrow> risk_category set" where
  "request_risks e r = set (risk_categories (normalize_request e r))"

definition deny_rule_matches :: "glob_matcher \<Rightarrow> policy_engine \<Rightarrow> policy_request \<Rightarrow> bool" where
  "deny_rule_matches glob e r \<longleftrightarrow>
     list_ex (\<lambda>rule. rule_action rule = Deny \<and> matches_rule glob (normalize_request e r) rule)
       (engine_rules e)"

definition changes_something :: "policy_request \<Rightarrow> bool" where
  "changes_something r \<longleftrightarrow> request_operation r \<notin> {Read, Search}"

definition forbidden :: "glob_matcher \<Rightarrow> policy_engine \<Rightarrow> policy_request \<Rightarrow> bool" where
  "forbidden glob e r \<longleftrightarrow>
     \<not> in_bounds r \<or> OutsideWorkspace \<in> request_risks e r \<or> deny_rule_matches glob e r \<or>
     \<not> rules_ok glob (normalize_request e r) (engine_rules e) \<or>
     (engine_mode e = ReadOnly \<and> changes_something r)"

definition sensitive :: "policy_engine \<Rightarrow> policy_request \<Rightarrow> bool" where
  "sensitive e r \<longleftrightarrow> sensitive_risks \<inter> request_risks e r \<noteq> {} \<or>
     (RNetwork \<in> request_risks e r \<and> network_access e \<noteq> NetAllow)"

lemmas request_defs = in_bounds_def request_risks_def changes_something_def normalize_request_def

lemma decision_evaluation [simp]:
  "decision (evaluation d n t) = d" "rule_of (evaluation d n t) = n"
  by (simp_all add: evaluation_def)

lemma decision_default [simp]: "decision (default_evaluation e r) = default_decision e r"
  by (simp add: default_evaluation_def Let_def)

lemma engine_decision:
  "decision (engine_evaluate glob e r) =
     (if forbidden glob e r then Deny
      else if sensitive_risks \<inter> request_risks e r \<noteq> {} then Ask
      else if RNetwork \<in> request_risks e r \<and> network_access e = NetDeny then Deny
      else if RNetwork \<in> request_risks e r \<and> network_access e = NetAsk then Ask
      else case winning_rule glob (normalize_request e r) (engine_rules e) of
        Some rule \<Rightarrow> rule_action rule
      | None \<Rightarrow> default_decision e (normalize_request e r))"
proof -
  let ?r = "normalize_request e r"
  show ?thesis
  proof (cases "\<not> in_bounds r \<or> OutsideWorkspace \<in> request_risks e r")
    case True
    then show ?thesis
      by (auto simp: engine_evaluate_def evaluate_request_def forbidden_def request_defs Let_def
          is_protected_path_def split: option.splits)
  next
    case False
    then have start: "engine_evaluate glob e r =
        (case bind_result (matching_rules glob ?r 0 (engine_rules e)) (\<lambda>matches. Inr matches) of
           Inl err \<Rightarrow> evaluation Deny ''invalid-policy'' (policy_error_text err)
         | Inr _ \<Rightarrow> engine_evaluate glob e r)"
      by (cases "matching_rules glob ?r 0 (engine_rules e)")
        (auto simp: engine_evaluate_def evaluate_request_def request_defs Let_def
          is_protected_path_def split: option.splits)
    show ?thesis
    proof (cases "rules_ok glob ?r (engine_rules e)")
      case bad: False
      then obtain err where "matching_rules glob ?r 0 (engine_rules e) = Inl err"
        using matching_rules_bad by blast
      with start bad show ?thesis by (simp add: forbidden_def)
    next
      case True
      then have m: "matching_rules glob ?r 0 (engine_rules e) = Inr (matches_of glob ?r 0 (engine_rules e))"
        using matching_rules_eq [of glob ?r 0 "engine_rules e"] by simp
      have guards: "\<not> (case request_path ?r of None \<Rightarrow> False | Some p \<Rightarrow> \<not> path_starts_with p (workspace_root ?r))"
        "\<not> (case request_path ?r of None \<Rightarrow> False | Some p \<Rightarrow> is_high_risk_path p)"
        "OutsideWorkspace \<notin> set (risk_categories ?r)"
        using False by (auto simp: request_defs is_protected_path_def split: option.splits)
      have mode: "request_mode ?r = engine_mode e" "request_operation ?r = request_operation r"
        by (simp_all add: normalize_request_def)
      show ?thesis
      proof (cases "deny_rule_matches glob e r")
        case deny: True
        then have "find (\<lambda>(_, rule). rule_action rule = Deny) (matches_of glob ?r 0 (engine_rules e)) \<noteq> None"
          unfolding deny_match_iff by (auto simp: deny_rule_matches_def list_ex_iff)
        then obtain i rule where "find (\<lambda>(_, rule). rule_action rule = Deny)
            (matches_of glob ?r 0 (engine_rules e)) = Some (i, rule)" by auto
        with m guards deny show ?thesis
          by (simp add: engine_evaluate_def evaluate_request_def Let_def forbidden_def)
      next
        case no_deny: False
        then have "find (\<lambda>(_, rule). rule_action rule = Deny) (matches_of glob ?r 0 (engine_rules e)) = None"
          unfolding deny_match_iff by (auto simp: deny_rule_matches_def list_ex_iff)
        with m guards mode no_deny False True show ?thesis
          by (cases "sort_key match_key (matches_of glob ?r 0 (engine_rules e))")
            (auto simp: engine_evaluate_def evaluate_request_def Let_def forbidden_def
              request_risks_def changes_something_def winning_rule_def split: list.splits)
      qed
    qed
  qed
qed

subsection \<open>Interface: a policy with guards that nothing opens\<close>

text \<open>
  What a client may rely on, whatever policy stands behind \<open>eval\<close>: a forbidden request is
  denied and a sensitive one is never allowed outright.
\<close>

locale guarded_policy =
  fixes eval :: "policy_request \<Rightarrow> policy_evaluation"
    and forb :: "policy_request \<Rightarrow> bool"
    and sens :: "policy_request \<Rightarrow> bool"
  assumes forbidden_denied: "forb r \<Longrightarrow> decision (eval r) = Deny"
    and sensitive_not_allowed: "sens r \<Longrightarrow> decision (eval r) \<noteq> Allow"
begin

lemma authorize_forbidden:
  "evaluate pol = eval \<Longrightarrow> forb r \<Longrightarrow> authorize_request pol r =
     Inl (PermissionDenied (operation_name (request_operation r) @ '' '' @ tool_name r))"
  by (simp add: authorize_request_def forbidden_denied Let_def)

lemma authorize_ok:
  assumes "evaluate pol = eval" "authorize_request pol r = Inr ()"
  shows "\<not> forb r \<and> \<not> sens r"
  using assms forbidden_denied [of r] sensitive_not_allowed [of r]
  by (cases "decision (eval r)") (auto simp: authorize_request_def Let_def)

end

interpretation engine: guarded_policy "engine_evaluate glob e" "forbidden glob e" "sensitive e" for glob e
proof unfold_locales
  fix r
  show "forbidden glob e r \<Longrightarrow> decision (engine_evaluate glob e r) = Deny"
    by (simp add: engine_decision)
  show "sensitive e r \<Longrightarrow> decision (engine_evaluate glob e r) \<noteq> Allow"
    by (cases "network_access e") (auto simp: engine_decision sensitive_def)
qed

end
