(* ===== verification/Policy_Properties.thy ===== *)
theory Policy_Properties
  imports Policy_Engine
begin

section \<open>Properties of the policy engine\<close>

subsection \<open>A sample engine for the witnesses\<close>

text \<open>A matcher with one wildcard pattern and one invalid pattern; all others are literal.\<close>

definition sample_glob :: glob_matcher where
  "sample_glob p = (if p = ''*'' then Inr (\<lambda>_. True)
     else if p = ''['' then Inl ''unclosed class'' else Inr (\<lambda>v. v = p))"

definition sample_rule :: "string \<Rightarrow> policy_decision \<Rightarrow> 32 word \<Rightarrow> policy_rule" where
  "sample_rule n d p = \<lparr>rule_name = n, rule_action = d, rule_priority = p, rule_tools = None,
     rule_operations = None, rule_modes = None, rule_paths = None, rule_commands = None,
     rule_risks = None\<rparr>"

definition sample_engine :: "execution_mode \<Rightarrow> policy_rule list \<Rightarrow> policy_engine" where
  "sample_engine m rs =
     \<lparr>engine_mode = m, network_access = NetAsk, engine_root = ''/w'', engine_rules = rs\<rparr>"

definition path_request :: "operation_kind \<Rightarrow> path \<Rightarrow> policy_request" where
  "path_request k p = \<lparr>tool_name = ''tool'', request_operation = k, workspace_root = ''/w'',
     request_path = Some p, request_command = None, request_mode = NormalMode\<rparr>"

definition command_request :: "path \<Rightarrow> string \<Rightarrow> policy_request" where
  "command_request root c = \<lparr>tool_name = ''shell'', request_operation = Command,
     workspace_root = root, request_path = None, request_command = Some c,
     request_mode = NormalMode\<rparr>"

lemma sample_rule_matches [simp]: "rule_matches glob (sample_rule n d p) r = Inr True"
  by (simp add: rule_matches_def sample_rule_def)

lemma sample_rule_simps [simp]:
  "rule_action (sample_rule n d p) = d" "rule_priority (sample_rule n d p) = p"
  "engine_rules (sample_engine m rs) = rs" "network_access (sample_engine m rs) = NetAsk"
  "engine_mode (sample_engine m rs) = m"
  by (simp_all add: sample_rule_def sample_engine_def)

lemmas sample_policy_defs = sample_glob_def sample_rule_def sample_engine_def path_request_def
  command_request_def

subsection \<open>Guards that no rule opens\<close>

text \<open>C20: a path that leaves the workspace once its dots are resolved, or that names a
  credential, is denied in every mode and under every list of rules, and \<open>authorize_request\<close>
  then fails with \<open>PermissionDenied\<close>.\<close>

theorem boundary_holds_under_every_rule:
  assumes "request_path r = Some p"
    and "\<not> path_starts_with (normalize_path p) (normalize_path (workspace_root r)) \<or> is_protected_path p"
  shows "decision (engine_evaluate glob e r) = Deny \<and>
    authorize_request (engine_policy glob e) r =
      Inl (PermissionDenied (operation_name (request_operation r) @ '' '' @ tool_name r))"
proof -
  have "forbidden glob e r" using assms by (auto simp: forbidden_def in_bounds_def)
  then show ?thesis
    using engine.forbidden_denied [of glob e r] engine.authorize_forbidden [of "engine_policy glob e" glob e r]
    by (simp add: engine_policy_def)
qed

theorem boundary_holds_under_every_rule_witness:
  "decision (engine_evaluate sample_glob (sample_engine Auto [sample_rule ''open'' Allow 9])
     (path_request Read ''/w/src/../../etc/passwd'')) = Deny"
proof -
  have "request_path (path_request Read ''/w/src/../../etc/passwd'') = Some ''/w/src/../../etc/passwd''"
    "workspace_root (path_request Read ''/w/src/../../etc/passwd'') = ''/w''"
    by (simp_all add: path_request_def)
  moreover have "\<not> path_starts_with (normalize_path ''/w/src/../../etc/passwd'') (normalize_path ''/w'')"
    by code_simp
  ultimately show ?thesis
    using boundary_holds_under_every_rule [of "path_request Read ''/w/src/../../etc/passwd''"] by simp
qed

text \<open>an explicit deny rule is final: when one matches, the request is denied whatever
  other rules, priorities and modes say, even when another rule is broken.\<close>

theorem deny_rule_is_final:
  assumes "rule \<in> set (engine_rules e)" "rule_action rule = Deny"
    and "rule_matches glob rule (normalize_request e r) = Inr True"
  shows "decision (engine_evaluate glob e r) = Deny"
proof -
  have "forbidden glob e r"
    using assms by (auto simp: forbidden_def deny_rule_matches_def list_ex_iff matches_rule_def)
  then show ?thesis by (rule engine.forbidden_denied)
qed

theorem deny_rule_is_final_witness:
  "decision (engine_evaluate sample_glob (sample_engine Auto
       [sample_rule ''open'' Allow 2147483647, sample_rule ''closed'' Deny 0])
     (path_request Write ''/w/a.txt'')) = Deny"
  by (rule deny_rule_is_final [of "sample_rule ''closed'' Deny 0"])
    (simp_all add: sample_policy_defs rule_matches_def)

text \<open>in read-only mode everything but reading and searching is denied, whatever the
  rules allow and whatever mode the request claims.\<close>

theorem read_only_denies_changes:
  assumes "engine_mode e = ReadOnly" "request_operation r \<notin> {Read, Search}"
  shows "decision (engine_evaluate glob e r) = Deny"
proof -
  have "forbidden glob e r" using assms by (simp add: forbidden_def changes_something_def)
  then show ?thesis by (rule engine.forbidden_denied)
qed

theorem read_only_denies_changes_witness:
  "decision (engine_evaluate sample_glob (sample_engine ReadOnly [sample_rule ''open'' Allow 9])
     ((path_request Write ''/w/a.txt'')\<lparr>request_mode := Auto\<rparr>)) = Deny"
  by (rule read_only_denies_changes) (simp_all add: sample_policy_defs)

text \<open>C31: a command that installs packages, changes Git state, destroys data or touches
  secrets is never allowed without a human, whatever the rules, the mode and the network
  setting are: the decision is \<open>Ask\<close> or \<open>Deny\<close>.\<close>

theorem sensitive_command_needs_human:
  assumes "x \<in> {PackageInstall, GitMutation, Destructive, SecretAccess}"
    and "x \<in> set (risk_categories (normalize_request e r))"
  shows "decision (engine_evaluate glob e r) = (if forbidden glob e r then Deny else Ask)"
  using assms by (auto simp: engine_decision sensitive_risks_def request_risks_def)

theorem sensitive_command_needs_human_witness:
  "decision (engine_evaluate sample_glob (sample_engine Auto [sample_rule ''open'' Allow 9])
     (command_request ''/w'' ''rm build'')) \<noteq> Allow"
proof -
  let ?e = "sample_engine Auto [sample_rule ''open'' Allow 9]"
  have "Destructive \<in> set (risk_categories (normalize_request ?e (command_request ''/w'' ''rm build'')))"
    by code_simp
  from sensitive_command_needs_human [OF _ this, of sample_glob] show ?thesis by simp
qed

subsection \<open>What is allowed\<close>

text \<open>C1: a request is allowed exactly when its path (if any) is inside the workspace and no
  credential, its command names no outside path, all rules are well formed, no deny rule
  matches, a read-only engine is asked to read, no sensitive risk is involved, a network risk
  is covered by \<open>network_access = allow\<close>, and the winning rule, or without one the default of
  the mode, says allow.\<close>

theorem allowed_iff:
  "decision (engine_evaluate glob e r) = Allow \<longleftrightarrow>
     in_bounds r \<and> OutsideWorkspace \<notin> request_risks e r \<and>
     rules_ok glob (normalize_request e r) (engine_rules e) \<and> \<not> deny_rule_matches glob e r \<and>
     \<not> (engine_mode e = ReadOnly \<and> changes_something r) \<and>
     sensitive_risks \<inter> request_risks e r = {} \<and>
     \<not> (RNetwork \<in> request_risks e r \<and> network_access e \<noteq> NetAllow) \<and>
     (case winning_rule glob (normalize_request e r) (engine_rules e) of
        Some rule \<Rightarrow> rule_action rule = Allow
      | None \<Rightarrow> default_decision e (normalize_request e r) = Allow)"
  by (cases "network_access e") (auto simp: engine_decision forbidden_def split: option.splits)

text \<open>what the caller writes into \<open>mode\<close>, and how it spells paths, has no influence: a
  request with another mode and already resolved paths is evaluated the same.\<close>

theorem request_mode_is_ignored:
  "engine_evaluate glob e r =
     engine_evaluate glob e (r\<lparr>request_mode := m, workspace_root := normalize_path (workspace_root r),
       request_path := map_option normalize_path (request_path r)\<rparr>)"
proof -
  have "normalize_request e (r\<lparr>request_mode := m, workspace_root := normalize_path (workspace_root r),
      request_path := map_option normalize_path (request_path r)\<rparr>) = normalize_request e r"
    by (simp add: normalize_request_def option.map_comp comp_def)
  then show ?thesis by (simp add: engine_evaluate_def evaluate_request_def)
qed

text \<open>among the rules that match, the one with the highest priority decides, the first in
  the file among equals, when no guard has decided before; priorities other than the least
  \<open>i32\<close> are assumed.\<close>

theorem highest_priority_rule_decides:
  assumes guards: "\<not> forbidden glob e r" "\<not> sensitive e r"
    and i: "i < length (engine_rules e)"
      "rule_matches glob (engine_rules e ! i) (normalize_request e r) = Inr True"
    and best: "\<forall>j < length (engine_rules e).
      rule_matches glob (engine_rules e ! j) (normalize_request e r) = Inr True \<longrightarrow>
      rule_priority (engine_rules e ! j) \<noteq> 0x80000000 \<and>
      (sint (rule_priority (engine_rules e ! j)) < sint (rule_priority (engine_rules e ! i)) \<or>
       (rule_priority (engine_rules e ! j) = rule_priority (engine_rules e ! i) \<and> i \<le> j))"
  shows "decision (engine_evaluate glob e r) = rule_action (engine_rules e ! i)"
proof -
  have "match_key (i, engine_rules e ! i) \<le> match_key (j, engine_rules e ! j)"
    if "j < length (engine_rules e)" "matches_rule glob (normalize_request e r) (engine_rules e ! j)" for j
    using best i that sint_uminus_no_min
    by (fastforce simp: match_key_def matches_rule_def less_eq_prod_def)
  then have "winning_rule glob (normalize_request e r) (engine_rules e) = Some (engine_rules e ! i)"
    using i by (intro winning_rule_at) (simp_all add: matches_rule_def)
  with guards show ?thesis
    by (cases "network_access e") (auto simp: engine_decision sensitive_def)
qed

theorem highest_priority_rule_decides_witness:
  "decision (engine_evaluate sample_glob (sample_engine NormalMode
       [sample_rule ''low'' Allow (- 1), sample_rule ''high'' Ask 5, sample_rule ''same'' Allow 5])
     (path_request Write ''/w/a.txt'')) = Ask"
proof -
  let ?e = "sample_engine NormalMode
     [sample_rule ''low'' Allow (- 1), sample_rule ''high'' Ask 5, sample_rule ''same'' Allow 5]"
  let ?r = "path_request Write ''/w/a.txt''"
  have "in_bounds ?r" "request_risks ?e ?r = {ProjectWrite}" by code_simp+
  then have g: "\<not> forbidden sample_glob ?e ?r" "\<not> sensitive ?e ?r"
    by (simp_all add: forbidden_def sensitive_def sensitive_risks_def deny_rule_matches_def
        rules_ok_def)
  have "decision (engine_evaluate sample_glob ?e ?r) = rule_action (engine_rules ?e ! 1)"
    by (rule highest_priority_rule_decides [OF g]) (auto simp: less_Suc_eq)
  then show ?thesis by simp
qed

subsection \<open>Where the engine falls short of its documentation\<close>

text \<open>the least priority wraps when it is negated: a rule with the lowest priority an
  \<open>i32\<close> has sorts before every other, so such an \<open>allow\<close> overrides an \<open>ask\<close> of any priority
  above it.\<close>

theorem least_priority_wins:
  assumes guards: "\<not> forbidden glob e r" "\<not> sensitive e r"
    and i: "i < length (engine_rules e)"
      "rule_matches glob (engine_rules e ! i) (normalize_request e r) = Inr True"
      "rule_priority (engine_rules e ! i) = 0x80000000"
    and only: "\<forall>j < length (engine_rules e). j \<noteq> i \<longrightarrow>
      sint (rule_priority (engine_rules e ! i)) < sint (rule_priority (engine_rules e ! j))"
  shows "decision (engine_evaluate glob e r) = rule_action (engine_rules e ! i)"
proof -
  have "match_key (i, engine_rules e ! i) \<le> match_key (j, engine_rules e ! j)"
    if "j < length (engine_rules e)" for j
  proof (cases "j = i")
    case False
    with only that have less: "sint (rule_priority (engine_rules e ! i)) < sint (rule_priority (engine_rules e ! j))"
      by blast
    with i(3) have "rule_priority (engine_rules e ! j) \<noteq> 0x80000000" by auto
    then have "sint (- rule_priority (engine_rules e ! j)) = - sint (rule_priority (engine_rules e ! j))"
      by (rule sint_uminus_no_min)
    moreover have "sint (- rule_priority (engine_rules e ! i)) = sint (rule_priority (engine_rules e ! i))"
      by (simp add: i(3))
    moreover have "sint (rule_priority (engine_rules e ! i)) = - 2147483648" by (simp add: i(3))
    moreover have "sint (rule_priority (engine_rules e ! j)) < 2147483648"
      using sint_less [of "rule_priority (engine_rules e ! j)"] by simp
    ultimately show ?thesis by (simp add: match_key_def less_eq_prod_def)
  qed simp
  then have "winning_rule glob (normalize_request e r) (engine_rules e) = Some (engine_rules e ! i)"
    using i by (intro winning_rule_at) (simp_all add: matches_rule_def)
  with guards show ?thesis
    by (cases "network_access e") (auto simp: engine_decision sensitive_def)
qed

theorem least_priority_wins_witness:
  "decision (engine_evaluate sample_glob (sample_engine Safe
       [sample_rule ''ask'' Ask 100, sample_rule ''last'' Allow 0x80000000])
     (path_request Write ''/w/a.txt'')) = Allow"
proof -
  let ?e = "sample_engine Safe [sample_rule ''ask'' Ask 100, sample_rule ''last'' Allow 0x80000000]"
  let ?r = "path_request Write ''/w/a.txt''"
  have "in_bounds ?r" "request_risks ?e ?r = {ProjectWrite}" by code_simp+
  then have g: "\<not> forbidden sample_glob ?e ?r" "\<not> sensitive ?e ?r"
    by (simp_all add: forbidden_def sensitive_def sensitive_risks_def deny_rule_matches_def
        rules_ok_def)
  have "decision (engine_evaluate sample_glob ?e ?r) = rule_action (engine_rules ?e ! 1)"
    by (rule least_priority_wins [OF g]) (auto simp: less_Suc_eq)
  then show ?thesis by simp
qed

text \<open>an invalid pattern in a rule's tools fails closed: the request is denied. The same
  pattern in the rule's paths is silently a pattern that matches nothing, so a deny rule with
  a mistyped path stops protecting it.\<close>

theorem invalid_globs_fail_closed_except_paths:
  assumes glob: "glob pattern = Inl msg" and other: "rule_risks rule = None"
    "rule_operations rule = None" "rule_modes rule = None" "rule_commands rule = None"
    "rule_tools rule = None" "rule_paths rule = None"
    and e: "rule\<lparr>rule_tools := Some [pattern]\<rparr> \<in> set (engine_rules e)"
  shows "decision (engine_evaluate glob e r) = Deny \<and>
    rule_matches glob (rule\<lparr>rule_paths := Some [pattern]\<rparr>) r = Inr False"
proof
  have "\<exists>err. rule_matches glob (rule\<lparr>rule_tools := Some [pattern]\<rparr>) (normalize_request e r) = Inl err"
    using glob other by (simp add: rule_matches_def glob_matches_def)
  then have "\<not> is_ok (rule_matches glob (rule\<lparr>rule_tools := Some [pattern]\<rparr>) (normalize_request e r))"
    by auto
  with e have "\<not> rules_ok glob (normalize_request e r) (engine_rules e)"
    unfolding rules_ok_def list_all_iff by blast
  then have "forbidden glob e r" by (simp add: forbidden_def)
  then show "decision (engine_evaluate glob e r) = Deny" by (rule engine.forbidden_denied)
next
  from glob other show "rule_matches glob (rule\<lparr>rule_paths := Some [pattern]\<rparr>) r = Inr False"
    by (cases "request_path r") (simp_all add: rule_matches_def glob_matches_def list_ex_iff)
qed

theorem invalid_globs_fail_closed_except_paths_witness:
  "decision (engine_evaluate sample_glob (sample_engine Auto
       [(sample_rule ''closed'' Deny 0)\<lparr>rule_tools := Some [''['']\<rparr>]) (path_request Write ''/w/a'')) = Deny \<and>
   rule_matches sample_glob ((sample_rule ''closed'' Deny 0)\<lparr>rule_paths := Some [''['']\<rparr>)
     (path_request Write ''/w/a'') = Inr False"
  by (rule invalid_globs_fail_closed_except_paths [of _ _ "''unclosed class''"])
    (simp_all add: sample_glob_def sample_rule_def)

text \<open>the guard for absolute paths in commands compares the lower-cased command with the
  workspace as it is spelled. In a workspace with a capital in its path a command that names a
  file of the workspace is denied, and a command that names a file of a different directory,
  equal to the workspace up to case, is not.\<close>

theorem command_guard_ignores_case:
  "decision (engine_evaluate glob (sample_engine Auto [])
     (command_request ''/home/Ann/p'' ''cat /home/Ann/p/a'')) = Deny \<and>
   OutsideWorkspace \<notin> request_risks (sample_engine Auto [])
     (command_request ''/home/ann/p'' ''cat /home/ANN/p/a'') \<and>
   \<not> path_starts_with ''/home/ANN/p/a'' ''/home/ann/p''"
proof -
  have "OutsideWorkspace \<in> request_risks (sample_engine Auto [])
      (command_request ''/home/Ann/p'' ''cat /home/Ann/p/a'')"
    by code_simp
  then have "forbidden glob (sample_engine Auto []) (command_request ''/home/Ann/p'' ''cat /home/Ann/p/a'')"
    by (simp add: forbidden_def)
  moreover have "OutsideWorkspace \<notin> request_risks (sample_engine Auto [])
      (command_request ''/home/ann/p'' ''cat /home/ANN/p/a'')"
    "\<not> path_starts_with ''/home/ANN/p/a'' ''/home/ann/p''"
    by code_simp+
  ultimately show ?thesis by (simp add: engine.forbidden_denied)
qed

text \<open>a command that is sensitive and uses the network, such as \<open>git push\<close>, only asks
  for approval under \<open>network_access = deny\<close>, where every other network command is denied.\<close>

theorem git_push_asks_although_network_denied:
  "decision (engine_evaluate glob ((sample_engine NormalMode [])\<lparr>network_access := NetDeny\<rparr>)
     (command_request ''/w'' ''git push'')) = Ask \<and>
   decision (engine_evaluate glob ((sample_engine NormalMode [])\<lparr>network_access := NetDeny\<rparr>)
     (command_request ''/w'' ''curl x'')) = Deny"
proof -
  let ?e = "(sample_engine NormalMode [])\<lparr>network_access := NetDeny\<rparr>"
  have "request_risks ?e (command_request ''/w'' ''git push'') = {Process, RNetwork, GitMutation}"
    "request_risks ?e (command_request ''/w'' ''curl x'') = {Process, RNetwork}"
    "in_bounds (command_request ''/w'' ''git push'')" "in_bounds (command_request ''/w'' ''curl x'')"
    by code_simp+
  then show ?thesis
    by (simp add: engine_decision forbidden_def deny_rule_matches_def rules_ok_def sensitive_risks_def
        sample_engine_def)
qed

text \<open>a command is safe by its first words only: whatever follows \<open>git status\<close> in the same
  line, such as a second command, runs without approval in normal mode.\<close>

theorem chained_command_is_allowed:
  "decision (engine_evaluate glob (sample_engine NormalMode [])
     (command_request ''/w'' ''git status; ./deploy.sh'')) = Allow \<and>
   decision (engine_evaluate glob (sample_engine NormalMode [])
     (command_request ''/w'' ''./deploy.sh'')) = Ask"
proof -
  let ?e = "sample_engine NormalMode []"
  let ?a = "command_request ''/w'' ''git status; ./deploy.sh''"
  let ?b = "command_request ''/w'' ''./deploy.sh''"
  have "request_risks ?e ?a = {Process}" "request_risks ?e ?b = {Process}"
    "in_bounds ?a" "in_bounds ?b" "default_decision ?e (normalize_request ?e ?a) = Allow"
    "default_decision ?e (normalize_request ?e ?b) = Ask"
    by code_simp+
  then show ?thesis
    by (simp add: engine_decision forbidden_def deny_rule_matches_def rules_ok_def sensitive_risks_def
        winning_rule_def matches_of_def)
qed

end
