(* ===== verification/Context.thy ===== *)
theory Context
  imports Session
begin

section \<open>harness-context: assembling the prompt\<close>

text \<open>
  \<open>harness-context/src/lib.rs\<close>. The builder turns its input into candidates with a priority
  and a recency, sorts them, and adds them one by one until the token budget of the model is
  used up; required candidates are cut to what is left, others are listed as excluded. The
  values of other crates it reads (\<open>ToolResult\<close>, \<open>InstructionFile\<close>, \<open>GitStatus\<close>) are records
  here. Token counts are \<open>u32\<close>: \<open>nat\<close> with the wrap-around of a cast and of a plain addition
  and the saturation written out.
\<close>

subsection \<open>Values of other crates\<close>

text \<open>JSON values; a number is kept as its text.\<close>

datatype json =
    JNull | JBool bool | JNumber string | JString string | JArray "json list"
  | JObject "(string \<times> json) list"

record tool_result =
  tr_output :: string
  tr_metadata :: "(string \<times> json) list"
  tr_changed_files :: "path list"
  tr_truncated :: bool
  tr_is_error :: bool

record instruction_file =
  instr_path :: path
  instr_precedence :: nat
  instr_content :: string

record git_status =
  gs_repository_root :: path
  gs_branch :: "string option"
  gs_head :: "string option"
  gs_is_clean :: bool
  gs_changed_files :: "string list"
  gs_staged_files :: "string list"
  gs_unstaged_files :: "string list"
  gs_untracked_files :: "string list"

subsection \<open>Budgets\<close>

record context_budget =
  max_individual_file_bytes :: nat
  max_tool_result_bytes :: nat
  max_shell_output_bytes :: nat
  max_git_diff_bytes :: nat
  max_compaction_summary_bytes :: nat
  max_working_context_tokens :: nat

definition context_budget_default :: context_budget where
  "context_budget_default =
     \<lparr>max_individual_file_bytes = 256 * 1024, max_tool_result_bytes = 64 * 1024,
      max_shell_output_bytes = 16 * 1024, max_git_diff_bytes = 12 * 1024,
      max_compaction_summary_bytes = 8 * 1024, max_working_context_tokens = 32 * 1024\<rparr>"

record context_budget_manager =
  base_budget :: context_budget
  context_fraction_percent :: nat

definition context_budget_manager_new :: "context_budget \<Rightarrow> context_budget_manager" where
  "context_budget_manager_new b = \<lparr>base_budget = b, context_fraction_percent = 75\<rparr>"

definition budget_for_context_window ::
  "context_budget_manager \<Rightarrow> nat option \<Rightarrow> context_budget" where
  "budget_for_context_window m window =
     (let b = base_budget m in
      case window of
        None \<Rightarrow> b
      | Some w \<Rightarrow>
          let model_budget = max (sat_mul32 w (context_fraction_percent m) div 100) 1
          in b\<lparr>max_working_context_tokens := min (max_working_context_tokens b) model_budget\<rparr>)"

definition context_budget_validate :: "context_budget \<Rightarrow> harness_error + unit" where
  "context_budget_validate b =
     (if max_working_context_tokens b = 0
      then Inl (InvalidConfig ''max_working_context_tokens must be greater than zero'')
      else Inr ())"

subsection \<open>Input and result\<close>

record workspace_metadata =
  wm_root :: "path option"
  wm_branch :: "string option"
  monorepo :: bool
  languages :: "string list"
  manifests :: "string list"
  details :: "(string \<times> string) list"

record explicit_file =
  ef_path :: path
  ef_content :: string

record tool_context_result =
  tc_name :: string
  tc_result :: tool_result
  tc_is_shell :: bool
  already_in_model_history :: bool

record context_input =
  system_instructions :: string
  in_workspace :: workspace_metadata
  in_instructions :: "instruction_file list"
  in_user_request :: string
  in_conversation :: "conversation_message list"
  in_files :: "explicit_file list"
  in_tool_results :: "tool_context_result list"
  in_compacted_state :: "compact_state option"
  in_git_status :: "git_status option"
  in_git_diff :: "string option"

datatype context_category =
  CatSystem | CatWorkspace | CatInstruction | CatGit | CatGitDiff | CatUserRequest
  | CatConversation | CatFile | CatToolResult | CatCompactionSummary

datatype context_reason =
  Required | ReasonWorkspaceMetadata | ProjectInstruction nat | GitState | CurrentUserRequest
  | RecentConversation | ExplicitlySelectedFile | RelevantToolResult | ReasonCompactionSummary

datatype context_limit =
  FileSize | ToolResultSize | ShellOutputSize | GitDiffSize | CompactionSummarySize | WorkingBudget

record context_item =
  item_id :: string
  item_category :: context_category
  item_source :: string
  item_reason :: context_reason
  item_content :: string
  original_bytes :: nat
  item_tokens :: nat
  included :: bool
  item_truncated :: bool
  item_limits :: "context_limit list"

record context_assembly =
  asm_prompt :: string
  asm_items :: "context_item list"
  asm_tokens :: nat
  asm_budget :: context_budget
  excluded_items :: nat

record candidate =
  cand_id :: string
  cand_category :: context_category
  cand_source :: string
  cand_reason :: context_reason
  cand_content :: string
  cand_required :: bool
  cand_limit :: "context_limit option"

subsection \<open>Measuring and shortening text\<close>

text \<open>\<open>value.len().saturating_add(3) as u32 / 4\<close>: the cast wraps before the division.\<close>

definition estimate_tokens :: "string \<Rightarrow> nat" where
  "estimate_tokens s = sat_add64 (length s) 3 mod 2 ^ 32 div 4"

definition truncated_marker :: string where
  "truncated_marker = newline # ''[truncated]''"

definition truncate_bytes :: "string \<Rightarrow> nat \<Rightarrow> string" where
  "truncate_bytes s max_bytes =
     (if length s \<le> max_bytes then s
      else if max_bytes \<le> length truncated_marker
      then take (floor_boundary s (min max_bytes (length s))) s
      else take (floor_boundary s (max_bytes - length truncated_marker)) s @ truncated_marker)"

definition diagnostic_signals :: "string list" where
  "diagnostic_signals =
     [''error'', ''failed'', ''failure'', ''warning'', ''passed'', ''test result'']"

definition summarize_shell_output :: "string \<Rightarrow> nat \<Rightarrow> string" where
  "summarize_shell_output s max_bytes =
     (if length s \<le> max_bytes then s
      else
        let lines = str_lines s;
            diagnostics = take 20
              (filter (\<lambda>l. contains_any diagnostic_signals (to_ascii_lowercase l)) lines);
            selected = remdups_adj (take 4 lines @ diagnostics @ rev (take 8 (rev lines)));
            omitted = length lines - length selected
        in truncate_bytes
             (''[shell output summarized: '' @ show_nat (length lines) @ '' lines, omitted '' @
              show_nat omitted @ '']'' @ [newline] @ join [newline] selected) max_bytes)"

definition is_repository_retrieval_source :: "string \<Rightarrow> bool" where
  "is_repository_retrieval_source name \<longleftrightarrow>
     name \<in> {''search_files'', ''search_text'', ''find_symbol'', ''find_references'',
       ''goto_definition'', ''get_diagnostics'', ''get_file_outline'', ''get_repo_tree''}"

definition show_bool :: "bool \<Rightarrow> string" where
  "show_bool b = (if b then ''true'' else ''false'')"

definition workspace_text :: "workspace_metadata \<Rightarrow> string" where
  "workspace_text w =
     (case wm_root w of None \<Rightarrow> [] | Some r \<Rightarrow> ''root: '' @ r @ [newline]) @
     (case wm_branch w of None \<Rightarrow> [] | Some b \<Rightarrow> ''branch: '' @ b @ [newline]) @
     ''monorepo: '' @ show_bool (monorepo w) @ [newline] @
     ''languages: '' @ join '', '' (languages w) @ [newline] @
     ''manifests: '' @ join '', '' (manifests w) @
     concat (map (\<lambda>(k, v). k @ '': '' @ v @ [newline]) (details w))"

definition git_text :: "git_status \<Rightarrow> string" where
  "git_text s =
     ''branch: '' @ (case gs_branch s of None \<Rightarrow> ''<detached>'' | Some b \<Rightarrow> b) @ [newline] @
     ''head: '' @ (case gs_head s of None \<Rightarrow> ''<none>'' | Some h \<Rightarrow> h) @ [newline] @
     ''clean: '' @ show_bool (gs_is_clean s) @ [newline] @
     ''changed: '' @ join '', '' (gs_changed_files s) @ [newline] @
     ''staged: '' @ join '', '' (gs_staged_files s) @ [newline] @
     ''unstaged: '' @ join '', '' (gs_unstaged_files s) @ [newline] @
     ''untracked: '' @ join '', '' (gs_untracked_files s)"

fun category_heading :: "context_category \<Rightarrow> string" where
  "category_heading CatSystem = ''System instructions''"
| "category_heading CatWorkspace = ''Workspace metadata''"
| "category_heading CatInstruction = ''Project instructions''"
| "category_heading CatGit = ''Git status''"
| "category_heading CatGitDiff = ''Current Git diff''"
| "category_heading CatUserRequest = ''User request''"
| "category_heading CatConversation = ''Recent conversation''"
| "category_heading CatFile = ''Selected files''"
| "category_heading CatToolResult = ''Relevant tool results''"
| "category_heading CatCompactionSummary = ''Compacted working state''"

definition render_prompt :: "context_item list \<Rightarrow> string" where
  "render_prompt items =
     join [newline, newline]
       (map (\<lambda>i. ''## '' @ category_heading (item_category i) @ [newline] @ ''Source: '' @
                 item_source i @ [newline] @ item_content i)
         (filter included items))"

fun role_name :: "message_role \<Rightarrow> string" where
  "role_name User = ''user''"
| "role_name Assistant = ''assistant''"

section \<open>harness-context: candidates and the budget\<close>

text \<open>
  \<open>add_item\<close> and \<open>build_for_context_window_reserving\<close>, one definition for each group of
  candidates in the order of the code. A ranked candidate carries the pair of its priority and
  its recency, by which the list is sorted (stably).
\<close>

type_synonym ranked = "(nat \<times> nat) \<times> candidate"

subsection \<open>Adding one candidate\<close>

definition limit_bytes :: "context_budget \<Rightarrow> context_limit \<Rightarrow> nat option" where
  "limit_bytes b l =
     (case l of
        FileSize \<Rightarrow> Some (max_individual_file_bytes b)
      | ToolResultSize \<Rightarrow> Some (max_tool_result_bytes b)
      | ShellOutputSize \<Rightarrow> Some (max_shell_output_bytes b)
      | GitDiffSize \<Rightarrow> Some (max_git_diff_bytes b)
      | CompactionSummarySize \<Rightarrow> Some (max_compaction_summary_bytes b)
      | WorkingBudget \<Rightarrow> None)"

definition apply_limit ::
  "context_budget \<Rightarrow> context_limit option \<Rightarrow> string \<Rightarrow> string \<times> bool \<times> context_limit list" where
  "apply_limit b limit content =
     (case limit of
        None \<Rightarrow> (content, False, [])
      | Some l \<Rightarrow>
          (case limit_bytes b l of
             None \<Rightarrow> (content, False, [])
           | Some n \<Rightarrow>
               if length content \<le> n then (content, False, [])
               else ((if l = ShellOutputSize then summarize_shell_output content n
                      else truncate_bytes content n), True, [l])))"

definition item_of ::
  "candidate \<Rightarrow> string \<Rightarrow> nat \<Rightarrow> bool \<Rightarrow> bool \<Rightarrow> context_limit list \<Rightarrow> context_item" where
  "item_of c content tokens inc trunc limits =
     \<lparr>item_id = cand_id c, item_category = cand_category c, item_source = cand_source c,
      item_reason = cand_reason c, item_content = content,
      original_bytes = length (cand_content c), item_tokens = tokens, included = inc,
      item_truncated = trunc, item_limits = limits\<rparr>"

definition add_item ::
  "context_budget \<Rightarrow> context_item list \<times> nat \<Rightarrow> candidate \<Rightarrow> context_item list \<times> nat" where
  "add_item b acc c =
     (let (items, used) = acc;
          (content, trunc, limits) = apply_limit b (cand_limit c) (cand_content c);
          tokens = estimate_tokens content;
          total = (used + tokens) mod 2 ^ 32
      in if max_working_context_tokens b < total
         then
           if cand_required c
           then
             let remaining = sat_mul32 (max_working_context_tokens b - used) 4;
                 content = truncate_bytes content remaining;
                 tokens = estimate_tokens content
             in if 0 < tokens \<or> content = []
                then (items @ [item_of c content tokens True True (limits @ [WorkingBudget])],
                      sat_add32 used tokens)
                else (items, used)
           else (items @ [item_of c [] tokens False False [WorkingBudget]], used)
         else (items @ [item_of c content tokens True trunc limits], total))"

subsection \<open>The candidates\<close>

definition required_candidates :: "context_input \<Rightarrow> ranked list" where
  "required_candidates i =
     [((0, 0), \<lparr>cand_id = ''system-instructions'', cand_category = CatSystem,
        cand_source = ''harness'', cand_reason = Required, cand_content = system_instructions i,
        cand_required = True, cand_limit = None\<rparr>),
      ((0, 1), \<lparr>cand_id = ''user-request'', cand_category = CatUserRequest,
        cand_source = ''conversation'', cand_reason = CurrentUserRequest,
        cand_content = in_user_request i, cand_required = True, cand_limit = None\<rparr>)]"

definition compacted_candidates :: "context_input \<Rightarrow> ranked list" where
  "compacted_candidates i =
     (case in_compacted_state i of None \<Rightarrow> []
      | Some s \<Rightarrow>
          [((3, u64_max), \<lparr>cand_id = ''compacted-state'', cand_category = CatCompactionSummary,
             cand_source = ''session.context.compacted'', cand_reason = ReasonCompactionSummary,
             cand_content = render_compact_state s, cand_required = False,
             cand_limit = Some CompactionSummarySize\<rparr>)])"

definition diff_candidates :: "context_input \<Rightarrow> ranked list" where
  "diff_candidates i =
     (case in_git_diff i of None \<Rightarrow> []
      | Some d \<Rightarrow>
          [((1, 0), \<lparr>cand_id = ''current-git-diff'', cand_category = CatGitDiff,
             cand_source = ''workspace task changes'', cand_reason = GitState,
             cand_content = d, cand_required = False, cand_limit = Some GitDiffSize\<rparr>)])"

definition instruction_candidates :: "context_input \<Rightarrow> ranked list" where
  "instruction_candidates i =
     map (\<lambda>(n, f). ((1, n), \<lparr>cand_id = ''instruction-'' @ show_nat (instr_precedence f),
            cand_category = CatInstruction, cand_source = instr_path f,
            cand_reason = ProjectInstruction (instr_precedence f),
            cand_content = instr_content f, cand_required = False, cand_limit = None\<rparr>))
       (List.enumerate 0 (sort_key instr_precedence (in_instructions i)))"

definition git_candidates :: "context_input \<Rightarrow> ranked list" where
  "git_candidates i =
     (case in_git_status i of None \<Rightarrow> []
      | Some s \<Rightarrow>
          [((1, length (in_instructions i) + 1), \<lparr>cand_id = ''git-status'', cand_category = CatGit,
             cand_source = gs_repository_root s, cand_reason = GitState,
             cand_content = git_text s, cand_required = False, cand_limit = None\<rparr>)])"

definition workspace_candidates :: "context_input \<Rightarrow> ranked list" where
  "workspace_candidates i =
     (let w = in_workspace i
      in if wm_root w \<noteq> None \<or> languages w \<noteq> [] \<or> manifests w \<noteq> [] \<or> details w \<noteq> []
         then [((3, 0), \<lparr>cand_id = ''workspace-metadata'', cand_category = CatWorkspace,
                 cand_source = ''workspace'', cand_reason = ReasonWorkspaceMetadata,
                 cand_content = workspace_text w, cand_required = False, cand_limit = None\<rparr>)]
         else [])"

definition conversation_candidates :: "context_input \<Rightarrow> ranked list" where
  "conversation_candidates i =
     (let conv = in_conversation i
      in map (\<lambda>(n, m). ((3, length conv - n), \<lparr>cand_id = ''conversation-'' @ show_nat n,
                cand_category = CatConversation, cand_source = role_name (msg_role m),
                cand_reason = RecentConversation, cand_content = msg_text m,
                cand_required = False, cand_limit = None\<rparr>))
           (drop (length conv - 8) (List.enumerate 0 conv)))"

definition file_candidates :: "context_input \<Rightarrow> ranked list" where
  "file_candidates i =
     map (\<lambda>(n, f). ((2, n), \<lparr>cand_id = ''file-'' @ ef_path f, cand_category = CatFile,
            cand_source = ef_path f, cand_reason = ExplicitlySelectedFile,
            cand_content = ef_content f, cand_required = False, cand_limit = Some FileSize\<rparr>))
       (List.enumerate 0 (in_files i))"

definition is_failure :: "tool_context_result \<Rightarrow> bool" where
  "is_failure r \<longleftrightarrow> tr_is_error (tc_result r) \<or> tc_name r = ''task_completion_check'' \<or>
     (tc_name r = ''verification'' \<and> str_contains (tr_output (tc_result r)) ''passed=false'')"

definition tool_priority :: "tool_context_result \<Rightarrow> nat" where
  "tool_priority r =
     (if is_failure r then 1
      else if tc_name r = ''read_file'' then 2
      else if tc_is_shell r then 5
      else if is_repository_retrieval_source (tc_name r) then 3
      else 4)"

definition tool_candidates :: "context_budget \<Rightarrow> context_input \<Rightarrow> ranked list" where
  "tool_candidates b i =
     (let visible = filter (\<lambda>(_, r). \<not> already_in_model_history r)
            (List.enumerate 0 (in_tool_results i));
          shown = drop (length visible - 24) (List.enumerate 0 visible)
      in map (\<lambda>(v, n, r). ((tool_priority r, length visible - v),
           \<lparr>cand_id = ''tool-'' @ show_nat n @ ''-'' @ tc_name r, cand_category = CatToolResult,
            cand_source = tc_name r, cand_reason = RelevantToolResult,
            cand_content = (if tc_is_shell r
              then summarize_shell_output (tr_output (tc_result r)) (max_shell_output_bytes b)
              else tr_output (tc_result r)),
            cand_required = is_failure r,
            cand_limit = Some (if tc_is_shell r then ShellOutputSize else ToolResultSize)\<rparr>))
         (rev shown))"

definition all_candidates :: "context_budget \<Rightarrow> context_input \<Rightarrow> ranked list" where
  "all_candidates b i =
     required_candidates i @ compacted_candidates i @ diff_candidates i @
     instruction_candidates i @ git_candidates i @ workspace_candidates i @
     conversation_candidates i @ file_candidates i @ tool_candidates b i"

subsection \<open>Building\<close>

definition build_for_context_window_reserving ::
  "context_budget_manager \<Rightarrow> context_input \<Rightarrow> nat option \<Rightarrow> nat \<Rightarrow> harness_error + context_assembly"
where
  "build_for_context_window_reserving m i window reserved =
     (let b = budget_for_context_window m window in
      bind_result (context_budget_validate b) (\<lambda>_.
        let b = b\<lparr>max_working_context_tokens := max (max_working_context_tokens b - reserved) 1\<rparr> in
        bind_result (context_budget_validate b) (\<lambda>_.
          let (items, used) =
                foldl (add_item b) ([], 0) (map snd (sort_key fst (all_candidates b i)))
          in Inr \<lparr>asm_prompt = render_prompt items, asm_items = items, asm_tokens = used,
                  asm_budget = b,
                  excluded_items = length (filter (\<lambda>it. \<not> included it) items)\<rparr>)))"

definition build_for_context_window ::
  "context_budget_manager \<Rightarrow> context_input \<Rightarrow> nat option \<Rightarrow> harness_error + context_assembly" where
  "build_for_context_window m i window = build_for_context_window_reserving m i window 0"

definition build :: "context_budget_manager \<Rightarrow> context_input \<Rightarrow> harness_error + context_assembly" where
  "build m i = build_for_context_window m i None"

end
