(* ===== verification/Context_Properties.thy ===== *)
theory Context_Properties
  imports Context
begin

section \<open>Properties of the context builder\<close>

subsection \<open>Shortening keeps the bound and cuts at characters\<close>

lemma length_marker: "length truncated_marker = 12"
  by (simp add: truncated_marker_def)

lemma length_truncate_bytes [len_bounds]: "length (truncate_bytes s n) \<le> n"
proof -
  have "floor_boundary s (n - 12) \<le> n - 12" "floor_boundary s (min n (length s)) \<le> min n (length s)"
    by (rule floor_boundary_le)+
  then show ?thesis
    by (auto simp: truncate_bytes_def length_marker simp del: floor_boundary_le)
qed

lemma truncate_bytes_short: "length s \<le> n \<Longrightarrow> truncate_bytes s n = s"
  by (simp add: truncate_bytes_def)

interpretation bytes: byte_bounded truncate_bytes
  by unfold_locales (rule length_truncate_bytes, rule truncate_bytes_short)

interpretation shell: byte_bounded summarize_shell_output
  by unfold_locales (auto simp: summarize_shell_output_def Let_def length_truncate_bytes)

text \<open>\<open>truncate_bytes\<close> returns at most the requested number of bytes; a text that fits is
  unchanged, and from one that does not fit it keeps the longest beginning that ends between
  two characters and leaves room for the marker.\<close>

theorem truncate_bytes_cuts_at_character:
  "length (truncate_bytes s n) \<le> n \<and>
   (length s \<le> n \<longrightarrow> truncate_bytes s n = s) \<and>
   (n < length s \<longrightarrow> (\<exists>k marker. truncate_bytes s n = take k s @ marker \<and>
      marker \<in> {[], truncated_marker} \<and> is_char_boundary s k \<and>
      (\<forall>m. is_char_boundary s m \<longrightarrow> m + length marker \<le> n \<longrightarrow> m \<le> k)))"
proof (intro conjI impI)
  assume long: "n < length s"
  show "\<exists>k marker. truncate_bytes s n = take k s @ marker \<and> marker \<in> {[], truncated_marker} \<and>
      is_char_boundary s k \<and> (\<forall>m. is_char_boundary s m \<longrightarrow> m + length marker \<le> n \<longrightarrow> m \<le> k)"
  proof (cases "n \<le> length truncated_marker")
    case True
    with long show ?thesis
      by (intro exI [of _ "floor_boundary s n"] exI [of _ "[]"])
        (auto simp: truncate_bytes_def floor_boundary_is_boundary min_def intro: floor_boundary_greatest)
  next
    case False
    with long show ?thesis
      by (intro exI [of _ "floor_boundary s (n - length truncated_marker)"] exI [of _ truncated_marker])
        (auto simp: truncate_bytes_def floor_boundary_is_boundary intro: floor_boundary_greatest)
  qed
qed (rule length_truncate_bytes, simp add: truncate_bytes_def)

theorem truncate_bytes_cuts_at_character_witness:
  "truncate_bytes (replicate 20 CHR ''a'' @ [CHR 0xC3, CHR 0xA9]) 21 =
     replicate 9 CHR ''a'' @ truncated_marker \<and>
   length (truncate_bytes (replicate 20 CHR ''a'' @ [CHR 0xC3, CHR 0xA9]) 21) \<le> 21"
  using truncate_bytes_cuts_at_character [of "replicate 20 CHR ''a'' @ [CHR 0xC3, CHR 0xA9]" 21]
  by (simp add: truncate_bytes_def length_marker numeral_eq_Suc is_char_boundary_def
      is_continuation_def byte_of_def nth_append)

subsection \<open>The budget\<close>

text \<open>the budget for a model is the configured one, or less: never above 75 percent of the
  model's window (1 for an empty window), and positive whenever the configured one is.\<close>

theorem budget_within_window:
  assumes "m = context_budget_manager_new b" "w \<le> u32_max"
  shows "max_working_context_tokens (budget_for_context_window m (Some w)) \<le> max_working_context_tokens b \<and>
    max_working_context_tokens (budget_for_context_window m (Some w)) \<le> max (w * 75 div 100) 1 \<and>
    (0 < max_working_context_tokens b \<longrightarrow>
      0 < max_working_context_tokens (budget_for_context_window m (Some w))) \<and>
    budget_for_context_window m None = b"
proof -
  have "sat_mul32 w 75 div 100 \<le> w * 75 div 100"
    by (rule div_le_mono) (rule sat_mul32_le)
  with assms show ?thesis
    by (auto simp: context_budget_manager_new_def budget_for_context_window_def Let_def)
qed

theorem budget_within_window_witness:
  "max_working_context_tokens (budget_for_context_window
     (context_budget_manager_new context_budget_default) (Some 8192)) = 6144"
  using budget_within_window [OF refl, of 8192 context_budget_default]
  by (simp add: budget_for_context_window_def context_budget_manager_new_def
      context_budget_default_def sat_mul32_def u32_max_def)

text \<open>Budgets for which a sum of \<open>u32\<close> token counts cannot wrap.\<close>

definition budget_ok :: "context_budget \<Rightarrow> bool" where
  "budget_ok b \<longleftrightarrow> 0 < max_working_context_tokens b \<and> max_working_context_tokens b \<le> 3 * 2 ^ 30"

definition included_tokens :: "context_item list \<Rightarrow> nat" where
  "included_tokens items = sum_list (map item_tokens (filter included items))"

lemma estimate_tokens_small: "estimate_tokens s < 2 ^ 30"
  by (simp add: estimate_tokens_def less_mult_imp_div_less)

lemma estimate_tokens_short:
  "length s \<le> 4 * n \<Longrightarrow> 4 * n + 3 < 2 ^ 32 \<Longrightarrow> estimate_tokens s \<le> n"
  by (simp add: estimate_tokens_def sat_add64_def u64_max_def)

lemma estimate_tokens_zero:
  "length s + 3 < 2 ^ 32 \<Longrightarrow> estimate_tokens s = 0 \<Longrightarrow> s = []"
  by (cases s) (auto simp: estimate_tokens_def sat_add64_def u64_max_def)

text \<open>The item a candidate becomes: its identifier, its size limit, and never dropped when required.\<close>

definition item_for :: "context_budget \<Rightarrow> candidate \<Rightarrow> context_item \<Rightarrow> bool" where
  "item_for b c it \<longleftrightarrow> item_id it = cand_id c \<and> (cand_required c \<longrightarrow> included it) \<and>
     (case cand_limit c of None \<Rightarrow> True
      | Some l \<Rightarrow> (case limit_bytes b l of None \<Rightarrow> True | Some n \<Rightarrow> length (item_content it) \<le> n))"

lemma length_truncate_le: "length (truncate_bytes s n) \<le> length s"
  using length_truncate_bytes [of s n] by (cases "length s \<le> n") (simp_all add: truncate_bytes_short)

lemma apply_limit_length:
  assumes "apply_limit b limit content = (content', trunc, limits)"
  shows "case limit of None \<Rightarrow> True
    | Some l \<Rightarrow> (case limit_bytes b l of None \<Rightarrow> True | Some n \<Rightarrow> length content' \<le> n)"
  using assms shell.bounded_fits [of content] length_truncate_bytes [of content]
  by (auto simp: apply_limit_def split: option.splits if_splits)

text \<open>What one candidate becomes: exactly one item, and a total within the budget.\<close>

lemma add_item_step:
  assumes b: "budget_ok b" and used: "used \<le> max_working_context_tokens b"
  obtains it used' where "add_item b (items, used) c = (items @ [it], used')"
    "used' \<le> max_working_context_tokens b"
    "used' = used + (if included it then item_tokens it else 0)"
    "item_for b c it"
proof -
  obtain content trunc limits where al: "apply_limit b (cand_limit c) (cand_content c) = (content, trunc, limits)"
    by (cases "apply_limit b (cand_limit c) (cand_content c)")
  note fits = apply_limit_length [OF al]
  let ?max = "max_working_context_tokens b"
  let ?tokens = "estimate_tokens content"
  have sum: "(used + ?tokens) mod 2 ^ 32 = used + ?tokens"
    using used b estimate_tokens_small [of content] by (simp add: budget_ok_def)
  show thesis
  proof (cases "?max < used + ?tokens")
    case False
    with al sum fits show thesis
      by (intro that [of "item_of c content ?tokens True trunc limits" "used + ?tokens"])
        (simp_all add: add_item_def item_of_def item_for_def Let_def split: option.splits)
  next
    case True
    show thesis
    proof (cases "cand_required c")
      case False
      with al sum True used show thesis
        by (intro that [of "item_of c [] ?tokens False False [WorkingBudget]" used])
          (simp_all add: add_item_def item_of_def item_for_def Let_def split: option.split)
    next
      case req: True
      from True have "?max - used < 2 ^ 30" using estimate_tokens_small [of content] by simp
      then have rem: "sat_mul32 (?max - used) 4 = 4 * (?max - used)" "4 * (?max - used) + 3 < 2 ^ 32"
        by (simp_all add: sat_mul32_def u32_max_def)
      let ?cut = "truncate_bytes content (4 * (?max - used))"
      have len: "length ?cut \<le> 4 * (?max - used)" by (rule length_truncate_bytes)
      then have est: "estimate_tokens ?cut \<le> ?max - used"
        using rem(2) by (rule estimate_tokens_short)
      have push: "0 < estimate_tokens ?cut \<or> ?cut = []"
        using estimate_tokens_zero [of ?cut] len rem(2) by fastforce
      have "sat_add32 used (estimate_tokens ?cut) = used + estimate_tokens ?cut"
        using le_trans [OF add_left_mono [OF est, of used]] used b
        by (simp add: sat_add32_def u32_max_def budget_ok_def min_def)
      moreover have "item_for b c (item_of c ?cut (estimate_tokens ?cut) True True (limits @ [WorkingBudget]))"
        using fits le_trans [OF length_truncate_le [of content]]
        by (simp add: item_for_def item_of_def split: option.splits)
      ultimately show thesis using al sum True req rem(1) est push used
        by (intro that [of "item_of c ?cut (estimate_tokens ?cut) True True (limits @ [WorkingBudget])"
              "used + estimate_tokens ?cut"])
          (simp_all add: add_item_def item_of_def Let_def)
    qed
  qed
qed

lemma add_items_fold:
  assumes "budget_ok b" "used \<le> max_working_context_tokens b"
    and "foldl (add_item b) (items, used) cs = (items', used')"
  shows "\<exists>new. items' = items @ new \<and> used' \<le> max_working_context_tokens b \<and>
    used' = used + included_tokens new \<and>
    list_all2 (item_for b) cs new"
  using assms(2,3)
proof (induction cs arbitrary: items used)
  case (Cons c cs)
  from add_item_step [OF assms(1) Cons.prems(1), of items c] obtain it used1 where
    step: "add_item b (items, used) c = (items @ [it], used1)" "used1 \<le> max_working_context_tokens b"
    "used1 = used + (if included it then item_tokens it else 0)" "item_for b c it" by metis
  with Cons.prems(2) have "foldl (add_item b) (items @ [it], used1) cs = (items', used')" by simp
  from Cons.IH [OF step(2) this] obtain new where "items' = (items @ [it]) @ new"
    "used' \<le> max_working_context_tokens b" "used' = used1 + included_tokens new"
    "list_all2 (item_for b) cs new" by blast
  with step show ?case
    by (intro exI [of _ "it # new"]) (auto simp: included_tokens_def)
qed (simp add: included_tokens_def)

lemma build_reserving_cases:
  assumes "build_for_context_window_reserving m i window reserved = Inr asm"
  obtains b where "b = asm_budget asm" "0 < max_working_context_tokens b"
    "max_working_context_tokens b \<le> max (max_working_context_tokens (base_budget m)) 1"
    "foldl (add_item b) ([], 0) (map snd (sort_key fst (all_candidates b i))) =
       (asm_items asm, asm_tokens asm)"
    "asm_prompt asm = render_prompt (asm_items asm)"
    "excluded_items asm = length (filter (\<lambda>it. \<not> included it) (asm_items asm))"
proof -
  let ?start = "budget_for_context_window m window"
  let ?b = "?start\<lparr>max_working_context_tokens := max (max_working_context_tokens ?start - reserved) 1\<rparr>"
  let ?acc = "foldl (add_item ?b) ([], 0) (map snd (sort_key fst (all_candidates ?b i)))"
  have "context_budget_validate ?start = Inr ()"
    using assms by (cases "context_budget_validate ?start")
      (simp_all add: build_for_context_window_reserving_def Let_def)
  moreover have "context_budget_validate ?b = Inr ()" by (simp add: context_budget_validate_def)
  ultimately have "asm = \<lparr>asm_prompt = render_prompt (fst ?acc), asm_items = fst ?acc,
      asm_tokens = snd ?acc, asm_budget = ?b,
      excluded_items = length (filter (\<lambda>it. \<not> included it) (fst ?acc))\<rparr>"
    using assms by (simp add: build_for_context_window_reserving_def Let_def case_prod_beta)
  note asm = this
  have "max_working_context_tokens ?start \<le> max_working_context_tokens (base_budget m)"
    by (simp add: budget_for_context_window_def Let_def split: option.split)
  moreover have "max (x - reserved) 1 \<le> max y 1" if "x \<le> y" for x y :: nat
    using that by auto
  ultimately have "max_working_context_tokens ?b \<le> max (max_working_context_tokens (base_budget m)) 1"
    by simp
  with asm show thesis by (intro that [of ?b]) simp_all
qed

text \<open>C17: an assembled prompt stays within its budget: the tokens counted are the sum over the
  items included, which is at most the budget of the assembly, for every input, window and
  reservation (configured budgets up to \<open>3 * 2^30\<close> tokens, so that no \<open>u32\<close> sum wraps).\<close>

theorem prompt_within_budget:
  assumes "build_for_context_window_reserving m i window reserved = Inr asm"
    and "max_working_context_tokens (base_budget m) \<le> 3 * 2 ^ 30"
  shows "asm_tokens asm = included_tokens (asm_items asm) \<and>
    asm_tokens asm \<le> max_working_context_tokens (asm_budget asm)"
proof -
  from build_reserving_cases [OF assms(1)] obtain b where b: "b = asm_budget asm"
    "0 < max_working_context_tokens b"
    "max_working_context_tokens b \<le> max (max_working_context_tokens (base_budget m)) 1"
    and fold: "foldl (add_item b) ([], 0) (map snd (sort_key fst (all_candidates b i))) =
      (asm_items asm, asm_tokens asm)" by metis
  from b assms(2) have "budget_ok b" by (simp add: budget_ok_def)
  from add_items_fold [OF this _ fold] b(1) show ?thesis by auto
qed

text \<open>C34: no candidate is lost: the items are the candidates in the order of priority and
  recency, one each; no content is longer than the limit of its kind; every required candidate
  (the system instructions, the request, failed tool results) is included, cut if need be; and
  what is not included is counted as excluded.\<close>

theorem every_candidate_is_listed:
  assumes "build_for_context_window_reserving m i window reserved = Inr asm"
    and "max_working_context_tokens (base_budget m) \<le> 3 * 2 ^ 30"
  shows "list_all2 (item_for (asm_budget asm))
      (map snd (sort_key fst (all_candidates (asm_budget asm) i))) (asm_items asm) \<and>
    excluded_items asm + length (filter included (asm_items asm)) =
      length (all_candidates (asm_budget asm) i)"
proof -
  from build_reserving_cases [OF assms(1)] obtain b where b: "b = asm_budget asm"
    "0 < max_working_context_tokens b"
    "max_working_context_tokens b \<le> max (max_working_context_tokens (base_budget m)) 1"
    and fold: "foldl (add_item b) ([], 0) (map snd (sort_key fst (all_candidates b i))) =
      (asm_items asm, asm_tokens asm)"
    and excl: "excluded_items asm = length (filter (\<lambda>it. \<not> included it) (asm_items asm))" by metis
  from b assms(2) have "budget_ok b" by (simp add: budget_ok_def)
  from add_items_fold [OF this _ fold] have l: "list_all2 (item_for b)
      (map snd (sort_key fst (all_candidates b i))) (asm_items asm)"
    by auto
  from list_all2_lengthD [OF this] have "length (asm_items asm) = length (all_candidates b i)" by simp
  with l b(1) excl show ?thesis
    using sum_length_filter_compl [of included "asm_items asm"] by simp
qed

subsection \<open>A sample input\<close>

definition sample_input :: context_input where
  "sample_input =
     \<lparr>system_instructions = ''be brief'',
      in_workspace = \<lparr>wm_root = None, wm_branch = None, monorepo = False, languages = [],
        manifests = [''Cargo.toml''], details = [(''toolchain'', ''stable'')]\<rparr>,
      in_instructions = [], in_user_request = ''fix the build'', in_conversation = [],
      in_files = [\<lparr>ef_path = ''a.rs'', ef_content = replicate 400 CHR ''x''\<rparr>],
      in_tool_results = [], in_compacted_state = None, in_git_status = None,
      in_git_diff = None\<rparr>"

definition sample_manager :: context_budget_manager where
  "sample_manager = context_budget_manager_new (context_budget_default\<lparr>max_working_context_tokens := 20\<rparr>)"

lemma sample_build_ok: "\<exists>asm. build_for_context_window_reserving sample_manager sample_input None 0 = Inr asm"
  by (simp add: build_for_context_window_reserving_def Let_def context_budget_validate_def
      budget_for_context_window_def sample_manager_def context_budget_manager_new_def case_prod_beta)

theorem prompt_within_budget_witness:
  "\<exists>asm. build_for_context_window_reserving sample_manager sample_input None 0 = Inr asm \<and>
     asm_tokens asm \<le> max_working_context_tokens (asm_budget asm)"
proof -
  obtain asm where asm: "build_for_context_window_reserving sample_manager sample_input None 0 = Inr asm"
    using sample_build_ok by blast
  have "max_working_context_tokens (base_budget sample_manager) \<le> 3 * 2 ^ 30"
    by (simp add: sample_manager_def context_budget_manager_new_def)
  from prompt_within_budget [OF asm this] asm show ?thesis by blast
qed

theorem every_candidate_is_listed_witness:
  "\<exists>asm. build_for_context_window_reserving sample_manager sample_input None 0 = Inr asm \<and>
     excluded_items asm + length (filter included (asm_items asm)) = 4"
proof -
  obtain asm where asm: "build_for_context_window_reserving sample_manager sample_input None 0 = Inr asm"
    using sample_build_ok by blast
  have "max_working_context_tokens (base_budget sample_manager) \<le> 3 * 2 ^ 30"
    by (simp add: sample_manager_def context_budget_manager_new_def)
  from every_candidate_is_listed [OF asm this] asm show ?thesis
    by (auto simp: all_candidates_def required_candidates_def compacted_candidates_def
        diff_candidates_def instruction_candidates_def git_candidates_def workspace_candidates_def
        conversation_candidates_def file_candidates_def tool_candidates_def sample_input_def Let_def)
qed

end
