(* ===== verification/Agent_Text.thy ===== *)
theory Agent_Text
  imports Session
begin

section \<open>harness-agent: reading plans and goals out of text\<close>

text \<open>
  The text helpers of \<open>harness-agent/src/lib.rs\<close>: bounded summaries and lists, the parsers of
  implementation plans, goals, acceptance criteria and plan revisions. A loop over lines is a
  fold over a small state.
\<close>

subsection \<open>Bounded texts and lists\<close>

definition bounded_summary :: "string \<Rightarrow> string" where
  "bounded_summary s =
     (if length s \<le> 240 then s else take (floor_boundary s 240) s @ ellipsis)"

definition context_suffix :: string where
  "context_suffix = newline # ''... relevant verification output truncated ...''"

definition bounded_context :: "string \<Rightarrow> nat \<Rightarrow> string" where
  "bounded_context s limit =
     (if length s \<le> limit then s
      else take (floor_boundary s (limit - length context_suffix)) s @ context_suffix)"

definition push_bounded :: "'a list \<Rightarrow> 'a \<Rightarrow> nat \<Rightarrow> 'a list" where
  "push_bounded values v limit =
     (let values = values @ [v]
      in if limit < length values then drop (length values - limit) values else values)"

definition push_unique_bounded :: "'a list \<Rightarrow> 'a \<Rightarrow> nat \<Rightarrow> 'a list" where
  "push_unique_bounded values v limit =
     (if v \<in> set values then values else push_bounded values v limit)"

definition keep_recent_conversation ::
  "conversation_message list \<Rightarrow> nat \<Rightarrow> conversation_message list" where
  "keep_recent_conversation messages limit = drop (length messages - limit) messages"

subsection \<open>Implementation plans\<close>

datatype plan_heading =
  GoalHeading | ArchitectureHeading | FilesHeading | StepsHeading | ValidationHeading | RisksHeading

definition plan_section :: "string \<Rightarrow> plan_heading option" where
  "plan_section heading =
     (let h = trim_end_chars '':'' (trim (trim_start_chars ''#'' heading));
          h = to_ascii_lowercase (trim h);
          h = map (\<lambda>c. if c = CHR ''_'' \<or> c = CHR ''-'' then CHR '' '' else c) h
      in if h \<in> {''goal'', ''objective''} then Some GoalHeading
         else if h \<in> {''relevant architecture'', ''architecture''} then Some ArchitectureHeading
         else if h \<in> {''files likely affected'', ''likely affected files'', ''affected files''}
         then Some FilesHeading
         else if h \<in> {''implementation steps'', ''steps'', ''plan''} then Some StepsHeading
         else if h \<in> {''validation'', ''tests and validation'', ''tests''} then Some ValidationHeading
         else if h \<in> {''risks/unknowns'', ''risks and unknowns'', ''risks'', ''unknowns''}
         then Some RisksHeading
         else None)"

definition plan_item :: "string \<Rightarrow> string" where
  "plan_item line =
     (let v = trim (strip_front [''-'', ''*'', bullet] (trim line))
      in bounded_summary
           (case split_once ''. '' v of
              None \<Rightarrow> v
            | Some (number, item) \<Rightarrow> if list_all is_digit number then trim item else v))"

definition push_new :: "'a \<Rightarrow> 'a list \<Rightarrow> 'a list" where
  "push_new x xs = (if x \<in> set xs then xs else xs @ [x])"

fun push_plan_item :: "implementation_plan \<Rightarrow> plan_heading \<Rightarrow> string \<Rightarrow> implementation_plan" where
  "push_plan_item p GoalHeading item = p"
| "push_plan_item p ArchitectureHeading item =
     p\<lparr>relevant_architecture := push_new item (relevant_architecture p)\<rparr>"
| "push_plan_item p FilesHeading item =
     p\<lparr>files_likely_affected := push_new item (files_likely_affected p)\<rparr>"
| "push_plan_item p StepsHeading item =
     p\<lparr>implementation_steps := push_new item (implementation_steps p)\<rparr>"
| "push_plan_item p ValidationHeading item = p\<lparr>ip_validation := push_new item (ip_validation p)\<rparr>"
| "push_plan_item p RisksHeading item =
     p\<lparr>risks_or_unknowns := push_new item (risks_or_unknowns p)\<rparr>"

definition heading_value :: "string \<Rightarrow> string" where
  "heading_value line =
     (case split_once '':'' (trim (trim_start_chars ''#'' line)) of
        None \<Rightarrow> [] | Some (_, v) \<Rightarrow> plan_item v)"

definition plan_line ::
  "implementation_plan \<times> plan_heading option \<times> bool \<Rightarrow> string \<Rightarrow>
   implementation_plan \<times> plan_heading option \<times> bool" where
  "plan_line acc line =
     (case acc of (plan, sec, structured) \<Rightarrow>
        let line = trim line in
        if line = [] then acc
        else case plan_section line of
          Some next_sec \<Rightarrow>
            let v = heading_value line
            in (if v \<noteq> [] then push_plan_item plan next_sec v else plan, Some next_sec, True)
        | None \<Rightarrow>
            (case sec of
               None \<Rightarrow> acc
             | Some s \<Rightarrow>
                 let item = plan_item line
                 in (if item \<noteq> [] then push_plan_item plan s item else plan, sec, structured)))"

definition parse_implementation_plan ::
  "string \<Rightarrow> string \<Rightarrow> path list \<Rightarrow> implementation_plan" where
  "parse_implementation_plan g response relevant =
     (let start = \<lparr>ip_goal = g, relevant_architecture = [], files_likely_affected = [],
            implementation_steps = [], ip_validation = [], risks_or_unknowns = []\<rparr>;
          (plan, _, structured) = foldl plan_line (start, None, False) (str_lines response);
          plan = (if structured then plan
            else plan\<lparr>implementation_steps :=
              filter (\<lambda>l. l \<noteq> []) (map plan_item (str_lines response))\<rparr>)
      in plan\<lparr>files_likely_affected :=
           foldl (\<lambda>fs p. push_new p fs) (files_likely_affected plan) relevant\<rparr>)"

subsection \<open>List items, acceptance criteria and plans in prose\<close>

definition is_list_item :: "string \<Rightarrow> bool" where
  "is_list_item line \<longleftrightarrow>
     starts_with line ''- '' \<or> starts_with line ''* '' \<or> starts_with line ''+ '' \<or>
     starts_with line ''- [ ]'' \<or> starts_with line ''- [x]'' \<or>
     (case split_once ''.'' line of None \<Rightarrow> False
      | Some (number, _) \<Rightarrow> number \<noteq> [] \<and> list_all is_digit number)"

definition criterion_line :: "bool \<times> string list \<Rightarrow> string \<Rightarrow> bool \<times> string list" where
  "criterion_line acc line =
     (case acc of (in_section, criteria) \<Rightarrow>
        let trimmed = trim line; lower = to_ascii_lowercase trimmed in
        if starts_with lower ''acceptance criteria'' \<or> lower = ''criteria:'' then (True, criteria)
        else if in_section \<and> trimmed = [] then acc
        else
          let in_section = (in_section \<and> is_list_item trimmed);
              item = trim (trim_start_chars ''-* []xX'' trimmed)
          in if (in_section \<or> starts_with trimmed ''- [ ]'' \<or> starts_with trimmed ''- [x]'') \<and>
                is_list_item trimmed \<and> item \<noteq> []
             then (in_section, push_unique_bounded criteria (bounded_summary item) 32)
             else (in_section, criteria))"

definition extract_acceptance_criteria :: "string \<Rightarrow> string list" where
  "extract_acceptance_criteria g = snd (foldl criterion_line (False, []) (str_lines g))"

text \<open>\<open>extract_plan\<close>: the lines before \<open>plan:\<close> are skipped, the first blank line or heading
  behind it ends the plan.\<close>

fun extract_plan_lines :: "bool \<Rightarrow> string list \<Rightarrow> string list \<Rightarrow> bool \<times> string list" where
  "extract_plan_lines found plan [] = (found, plan)"
| "extract_plan_lines found plan (l # ls) =
     (let trimmed = trim l in
      if \<not> found then
        (case split_once '':'' trimmed of
           Some (h, remainder) \<Rightarrow>
             if eq_ignore_ascii_case h ''plan''
             then extract_plan_lines True
               (if trim remainder \<noteq> [] then plan @ [bounded_summary (trim remainder)] else plan) ls
             else extract_plan_lines False plan ls
         | None \<Rightarrow> extract_plan_lines False plan ls)
      else if trimmed = [] then (True, plan)
      else if ends_with trimmed '':'' \<and> \<not> is_list_item trimmed then (True, plan)
      else
        let item = trim (trim_start_chars ''-*+ '' trimmed)
        in extract_plan_lines True
             (if item \<noteq> [] then push_unique_bounded plan (bounded_summary item) 16 else plan) ls)"

definition extract_plan :: "string \<Rightarrow> string list option" where
  "extract_plan t =
     (case extract_plan_lines False [] (str_lines t) of (found, plan) \<Rightarrow>
        if found then Some plan else None)"

fun find_revision :: "string list \<Rightarrow> string option" where
  "find_revision [] = None"
| "find_revision (l # ls) =
     (case split_once '':'' (trim l) of
        Some (h, reason) \<Rightarrow>
          if eq_ignore_ascii_case (trim h) ''plan revision'' then Some (trim reason)
          else find_revision ls
      | None \<Rightarrow> find_revision ls)"

definition extract_plan_revision :: "string \<Rightarrow> (string \<times> string list) option" where
  "extract_plan_revision t =
     (case find_revision (str_lines t) of
        None \<Rightarrow> None
      | Some why \<Rightarrow>
          if why = [] then None
          else
            let remaining = join [newline] (drop 1 (dropWhile
                  (\<lambda>l. \<not> starts_with (to_ascii_lowercase (trim l)) ''plan revision:'') (str_lines t)));
                rest = dropWhile (\<lambda>l. \<not> eq_ignore_ascii_case (trim l) ''plan:'') (str_lines remaining)
            in if rest = [] then None
               else (case extract_plan (join [newline] rest) of
                   None \<Rightarrow> None
                 | Some steps \<Rightarrow>
                     let steps = take 32 steps
                     in if steps \<noteq> [] then Some (bounded_summary why, steps) else None))"

subsection \<open>Goals\<close>

definition goal_headings :: "string set" where
  "goal_headings =
     {''acceptance criteria'', ''criteria'', ''constraints'', ''non-goals'', ''non goals'',
      ''completion condition''}"

definition ends_objective :: "string \<Rightarrow> bool" where
  "ends_objective line \<longleftrightarrow>
     to_ascii_lowercase (trim_end_chars '':'' (trim (trim_start_chars ''#'' (trim line))))
       \<in> goal_headings \<or>
     (case split_once '':'' line of None \<Rightarrow> False
      | Some (h, _) \<Rightarrow> eq_ignore_ascii_case (trim h) ''completion condition'')"

definition extract_goal_objective :: "string \<Rightarrow> string" where
  "extract_goal_objective g =
     (let obj = trim (join [newline] (takeWhile (\<lambda>l. \<not> ends_objective l) (str_lines g)))
      in if obj = [] then trim g else obj)"

datatype goal_section = NoSection | AcceptanceSection | ConstraintsSection | NonGoalsSection
  | CompletionSection

definition goal_item :: "goal_section \<Rightarrow> string \<Rightarrow> goal \<Rightarrow> goal" where
  "goal_item sec item g =
     (case sec of
        ConstraintsSection \<Rightarrow> g\<lparr>constraints := push_unique_bounded (constraints g) item 32\<rparr>
      | NonGoalsSection \<Rightarrow> g\<lparr>non_goals := push_unique_bounded (non_goals g) item 32\<rparr>
      | _ \<Rightarrow> g)"

definition goal_line :: "goal \<times> goal_section \<Rightarrow> string \<Rightarrow> goal \<times> goal_section" where
  "goal_line acc raw =
     (case acc of (g, sec) \<Rightarrow>
        let line = trim raw;
            normalized = to_ascii_lowercase (trim_end_chars '':'' (trim (trim_start_chars ''#'' line)));
            parts = map_option (\<lambda>(h, v). (trim (trim_start_chars ''#'' (trim h)), v)) (split_once '':'' line);
            rest = (if line = [] then acc
                    else if is_list_item line then (goal_item sec (plan_item line) g, sec)
                    else if \<not> starts_with line ''- '' then (g, NoSection)
                    else acc)
        in
        if normalized = ''acceptance criteria'' \<or> normalized = ''criteria'' then (g, AcceptanceSection)
        else if normalized = ''constraints'' then (g, ConstraintsSection)
        else if normalized = ''non-goals'' \<or> normalized = ''non goals'' then (g, NonGoalsSection)
        else case parts of
          None \<Rightarrow> rest
        | Some (h, v) \<Rightarrow>
            if eq_ignore_ascii_case h ''constraints''
            then (if trim v = [] then g else goal_item ConstraintsSection (plan_item v) g,
                  ConstraintsSection)
            else if eq_ignore_ascii_case h ''non-goals'' \<or> eq_ignore_ascii_case h ''non goals''
            then (if trim v = [] then g else goal_item NonGoalsSection (plan_item v) g, NonGoalsSection)
            else if eq_ignore_ascii_case h ''completion condition''
            then (g\<lparr>completion_condition := trim v\<rparr>, CompletionSection)
            else rest)"

definition parse_goal_details :: "string \<Rightarrow> string list \<Rightarrow> goal" where
  "parse_goal_details g criteria =
     fst (foldl goal_line
       ((goal_new (extract_goal_objective g))\<lparr>acceptance_criteria := criteria\<rparr>, NoSection)
       (str_lines g))"

subsection \<open>Bounds\<close>

lemma length_bounded_summary [len_bounds]: "length (bounded_summary s) \<le> 243"
  using floor_boundary_le [of s 240] by (auto simp: bounded_summary_def simp del: floor_boundary_le)

lemma length_push_bounded [len_bounds]: "length (push_bounded xs x n) \<le> max n (length xs + 1)"
  by (auto simp: push_bounded_def Let_def)

lemma length_push_unique_bounded [len_bounds]:
  "length xs \<le> n \<Longrightarrow> length (push_unique_bounded xs x n) \<le> n"
  by (auto simp: push_unique_bounded_def push_bounded_def Let_def)

lemma set_push_bounded: "set (push_bounded xs x n) \<subseteq> insert x (set xs)"
  by (auto simp: push_bounded_def Let_def dest: in_set_dropD)

lemma set_push_unique_bounded: "set (push_unique_bounded xs x n) \<subseteq> insert x (set xs)"
  using set_push_bounded [of xs x n] by (auto simp: push_unique_bounded_def)

lemma distinct_push_unique_bounded:
  assumes "distinct xs"
  shows "distinct (push_unique_bounded xs x n)"
proof (cases "x \<in> set xs")
  case False
  with assms have "distinct (xs @ [x])" by simp
  then show ?thesis
    using False by (simp add: push_unique_bounded_def push_bounded_def Let_def distinct_drop
        del: drop_append distinct_append)
qed (use assms in \<open>simp add: push_unique_bounded_def\<close>)

lemma distinct_push_new: "distinct xs \<Longrightarrow> distinct (push_new x xs)"
  by (simp add: push_new_def)

end
