(* ===== verification/Agent_Plan.thy ===== *)
theory Agent_Plan
  imports Agent_Text
begin

section \<open>harness-agent: the execution plan as a state machine\<close>

text \<open>
  The execution plan of a task run: built from an implementation plan, advanced when the run
  starts, moved on by every recorded progress, revised a bounded number of times and closed
  when the task ends. \<open>iter_mut().find\<close> with an assignment is \<open>update_first\<close>.
\<close>

subsection \<open>Building a plan\<close>

fun chunks4 :: "'a list \<Rightarrow> 'a list list" where
  "chunks4 (a # b # c # d # rest) = [a, b, c, d] # chunks4 rest"
| "chunks4 [] = []"
| "chunks4 xs = [xs]"

definition pending_task :: "string \<Rightarrow> execution_task" where
  "pending_task d = \<lparr>description = d, task_status = Pending\<rparr>"

definition middle_dot :: string where
  "middle_dot = [CHR 0xC2, CHR 0xB7]"

definition execution_plan_from_implementation ::
  "implementation_plan \<Rightarrow> string list \<Rightarrow> execution_plan" where
  "execution_plan_from_implementation plan criteria =
     (let todo = map pending_task (take 32 (filter (\<lambda>s. trim s \<noteq> []) (implementation_steps plan)));
          done_when = (if criteria = []
            then [''Complete the planned changes and inspect the final diff.''] else criteria)
      in \<lparr>revision = 1,
          milestones = map (\<lambda>(n, chunk).
            \<lparr>title = (if length todo \<le> 4 then ''Implementation''
               else ''Milestone '' @ show_nat (n + 1) @ '' '' @ middle_dot @ '' '' @
                    bounded_summary (description (hd chunk))),
             tasks = chunk, affected_architecture = relevant_architecture plan,
             validation_commands = ip_validation plan, completion_criteria = done_when,
             milestone_status = Pending\<rparr>) (List.enumerate 0 (chunks4 todo)),
          decision_notes = risks_or_unknowns plan, plan_status = Pending\<rparr>)"

subsection \<open>Steps of a plan\<close>

abbreviation open_milestone :: "execution_milestone \<Rightarrow> bool" where
  "open_milestone m \<equiv> milestone_status m \<noteq> Completed"

definition set_task :: "plan_item_status \<Rightarrow> execution_task \<Rightarrow> execution_task" where
  "set_task s t = t\<lparr>task_status := s\<rparr>"

definition sync_current_milestone :: "task_run \<Rightarrow> task_run" where
  "sync_current_milestone tr =
     (let current = (case run_execution_plan tr of None \<Rightarrow> None
        | Some p \<Rightarrow> map_option title (find open_milestone (milestones p)))
      in tr\<lparr>run_goal := (run_goal tr)\<lparr>current_milestone := current\<rparr>\<rparr>)"

definition start_milestone :: "execution_milestone \<Rightarrow> execution_milestone" where
  "start_milestone m =
     m\<lparr>milestone_status := InProgress,
       tasks := update_first (\<lambda>t. task_status t = Pending) (set_task InProgress) (tasks m)\<rparr>"

definition advance_plan :: "execution_plan \<Rightarrow> execution_plan" where
  "advance_plan p =
     p\<lparr>plan_status := InProgress,
       milestones := update_first open_milestone start_milestone (milestones p)\<rparr>"

definition advance_execution_plan :: "task_run \<Rightarrow> task_run" where
  "advance_execution_plan tr =
     (case run_execution_plan tr of None \<Rightarrow> tr
      | Some p \<Rightarrow> sync_current_milestone (tr\<lparr>run_execution_plan := Some (advance_plan p)\<rparr>))"

definition progress_milestone :: "execution_milestone \<Rightarrow> execution_milestone" where
  "progress_milestone m =
     (let ts = update_first (\<lambda>t. task_status t = InProgress) (set_task Completed) (tasks m)
      in if list_ex (\<lambda>t. task_status t = Pending) ts
         then m\<lparr>tasks := update_first (\<lambda>t. task_status t = Pending) (set_task InProgress) ts\<rparr>
         else m\<lparr>tasks := ts, milestone_status := Completed\<rparr>)"

definition record_progress :: "execution_plan \<Rightarrow> execution_plan" where
  "record_progress p =
     (let ms = update_first open_milestone progress_milestone (milestones p)
      in p\<lparr>milestones := ms,
           plan_status := (if list_all (\<lambda>m. milestone_status m = Completed) ms
             then Completed else plan_status p)\<rparr>)"

definition record_plan_progress :: "task_run \<Rightarrow> task_run" where
  "record_plan_progress tr =
     (case run_execution_plan tr of None \<Rightarrow> tr
      | Some p \<Rightarrow>
          if \<not> list_ex open_milestone (milestones p) then tr
          else sync_current_milestone (tr\<lparr>run_execution_plan := Some (record_progress p)\<rparr>))"

definition complete_milestone :: "execution_milestone \<Rightarrow> execution_milestone" where
  "complete_milestone m = m\<lparr>milestone_status := Completed, tasks := map (set_task Completed) (tasks m)\<rparr>"

definition block_milestone :: "execution_milestone \<Rightarrow> execution_milestone" where
  "block_milestone m =
     m\<lparr>milestone_status := BlockedItem,
       tasks := update_first (\<lambda>t. task_status t = InProgress) (set_task BlockedItem) (tasks m)\<rparr>"

definition finish_plan :: "task_completion_status \<Rightarrow> execution_plan \<Rightarrow> execution_plan" where
  "finish_plan status p =
     (if status = Done
      then p\<lparr>milestones := map complete_milestone (milestones p), plan_status := Completed\<rparr>
      else if status \<in> {Blocked, UserInputRequired, ResourceLimitReached}
      then p\<lparr>milestones := update_first open_milestone block_milestone (milestones p),
             plan_status := BlockedItem\<rparr>
      else p)"

definition finish_plan_state :: "task_run \<Rightarrow> task_run" where
  "finish_plan_state tr =
     (case run_execution_plan tr of None \<Rightarrow> tr
      | Some p \<Rightarrow> sync_current_milestone
          (tr\<lparr>run_execution_plan := Some (finish_plan (completion_status tr) p)\<rparr>))"

subsection \<open>Revising a plan\<close>

definition max_plan_revisions :: nat where
  "max_plan_revisions = 3"

definition plan_tasks :: "execution_plan \<Rightarrow> execution_task list" where
  "plan_tasks p = concat (map tasks (milestones p))"

definition push_all_unique :: "string list \<Rightarrow> string list \<Rightarrow> string list" where
  "push_all_unique xs ys = foldl (\<lambda>acc y. push_unique_bounded acc y 32) xs ys"

definition revised_milestone :: "goal \<Rightarrow> execution_plan \<Rightarrow> string list \<Rightarrow> execution_milestone" where
  "revised_milestone g p steps =
     (let finished = description ` {t \<in> set (plan_tasks p). task_status t = Completed}
      in \<lparr>title = ''Implementation'',
          tasks = map (\<lambda>d. \<lparr>description = d,
            task_status = (if d \<in> finished then Completed else Pending)\<rparr>) steps,
          affected_architecture =
            foldl (\<lambda>acc m. push_all_unique acc (affected_architecture m)) [] (milestones p),
          validation_commands =
            foldl (\<lambda>acc m. push_all_unique acc (validation_commands m)) [] (milestones p),
          completion_criteria =
            foldl (\<lambda>acc m. push_all_unique acc (completion_criteria m))
              (acceptance_criteria g) (milestones p),
          milestone_status = Pending\<rparr>)"

definition revise_execution_plan :: "task_run \<Rightarrow> string \<Rightarrow> string list \<Rightarrow> bool \<times> task_run" where
  "revise_execution_plan tr reason steps =
     (if trim reason = [] \<or> steps = [] then (False, tr)
      else case run_execution_plan tr of
        None \<Rightarrow> (False, tr)
      | Some p \<Rightarrow>
          if sat_add32 max_plan_revisions 1 \<le> revision p then (False, tr)
          else if map description (plan_tasks p) = steps then (False, tr)
          else
            let p' = p\<lparr>revision := revision p + 1,
                  milestones := [revised_milestone (run_goal tr) p steps],
                  decision_notes := push_unique_bounded (decision_notes p) (bounded_summary reason) 16,
                  plan_status := InProgress\<rparr>
            in (True, advance_execution_plan (tr\<lparr>run_execution_plan := Some p'\<rparr>)))"

subsection \<open>A run of the plan\<close>

text \<open>
  The calls one run makes on its plan: recorded progress, accepted revisions, and in the end
  \<open>finish_plan_state\<close>. A resumed run calls \<open>advance_execution_plan\<close> on the stored plan again.
\<close>

inductive plan_step :: "task_run \<Rightarrow> task_run \<Rightarrow> bool" where
  progress: "plan_step tr (record_plan_progress tr)"
| revise: "revise_execution_plan tr reason steps = (True, tr') \<Longrightarrow> plan_step tr tr'"

inductive plan_run :: "task_run \<Rightarrow> task_run \<Rightarrow> bool" where
  start: "run_execution_plan tr = Some (execution_plan_from_implementation ip criteria) \<Longrightarrow>
    plan_run tr (advance_execution_plan tr)"
| step: "plan_run tr tr1 \<Longrightarrow> plan_step tr1 tr2 \<Longrightarrow> plan_run tr tr2"

inductive_cases plan_stepE: "plan_step tr tr'"

subsection \<open>The invariant of a run\<close>

definition count_in_progress :: "execution_task list \<Rightarrow> nat" where
  "count_in_progress ts = length (filter (\<lambda>t. task_status t = InProgress) ts)"

definition milestone_ok :: "execution_milestone \<Rightarrow> bool" where
  "milestone_ok m \<longleftrightarrow> count_in_progress (tasks m) \<le> 1 \<and>
     (\<forall>t \<in> set (tasks m). task_status t \<noteq> BlockedItem) \<and>
     (milestone_status m = Completed \<longrightarrow> (\<forall>t \<in> set (tasks m). task_status t = Completed))"

definition plan_ok :: "execution_plan \<Rightarrow> bool" where
  "plan_ok p \<longleftrightarrow> (\<forall>m \<in> set (milestones p). milestone_ok m) \<and>
     (plan_status p = Completed \<longrightarrow> (\<forall>m \<in> set (milestones p). milestone_status m = Completed)) \<and>
     revision p \<le> max_plan_revisions + 1"

text \<open>The goal names the first milestone that is open.\<close>

definition goal_synced :: "task_run \<Rightarrow> bool" where
  "goal_synced tr \<longleftrightarrow> (\<forall>p. run_execution_plan tr = Some p \<longrightarrow>
     current_milestone (run_goal tr) = map_option title (find open_milestone (milestones p)))"

definition run_ok :: "task_run \<Rightarrow> bool" where
  "run_ok tr \<longleftrightarrow> (case run_execution_plan tr of None \<Rightarrow> True | Some p \<Rightarrow> plan_ok p) \<and> goal_synced tr"

lemma set_task_status [simp]: "task_status (set_task s t) = s" "description (set_task s t) = description t"
  by (simp_all add: set_task_def)

lemma count_in_progress_simps [simp]:
  "count_in_progress [] = 0"
  "count_in_progress (t # ts) = (if task_status t = InProgress then 1 else 0) + count_in_progress ts"
  "count_in_progress (ts @ us) = count_in_progress ts + count_in_progress us"
  by (simp_all add: count_in_progress_def)

lemma count_in_progress_zero: "count_in_progress ts = 0 \<longleftrightarrow> (\<forall>t \<in> set ts. task_status t \<noteq> InProgress)"
  by (induction ts) auto

text \<open>Completing the task in progress leaves none in progress.\<close>

lemma complete_current:
  assumes "count_in_progress ts \<le> 1"
  shows "count_in_progress (update_first (\<lambda>t. task_status t = InProgress) (set_task Completed) ts) = 0"
  using assms
  by (induction ts) (auto simp: count_in_progress_zero)

lemma start_pending:
  "count_in_progress (update_first (\<lambda>t. task_status t = Pending) (set_task InProgress) ts) \<le>
     count_in_progress ts + 1"
  by (induction ts) auto

lemma update_first_all:
  assumes "\<forall>x \<in> set xs. P x" "\<And>x. x \<in> set xs \<Longrightarrow> Q x \<Longrightarrow> P (f x)"
  shows "\<forall>x \<in> set (update_first Q f xs). P x"
  using assms by (induction xs) auto

lemma start_milestone_ok:
  assumes "milestone_ok m" "count_in_progress (tasks m) = 0"
  shows "milestone_ok (start_milestone m)"
  using assms start_pending [of "tasks m"]
    update_first_all [of "tasks m" "\<lambda>t. task_status t \<noteq> BlockedItem"
      "\<lambda>t. task_status t = Pending" "set_task InProgress"]
  by (simp add: milestone_ok_def start_milestone_def)

lemma progress_milestone_ok:
  assumes "milestone_ok m"
  shows "milestone_ok (progress_milestone m)"
proof -
  let ?ts = "update_first (\<lambda>t. task_status t = InProgress) (set_task Completed) (tasks m)"
  from assms have zero: "count_in_progress ?ts = 0"
    by (simp add: milestone_ok_def complete_current)
  from assms have free: "\<forall>t \<in> set ?ts. task_status t \<noteq> BlockedItem"
    by (intro update_first_all) (auto simp: milestone_ok_def)
  show ?thesis
  proof (cases "list_ex (\<lambda>t. task_status t = Pending) ?ts")
    case True
    have "\<not> milestone_status m = Completed"
    proof
      assume "milestone_status m = Completed"
      with assms have "\<forall>t \<in> set (tasks m). task_status t = Completed" by (simp add: milestone_ok_def)
      then have "\<forall>t \<in> set ?ts. task_status t = Completed" by (intro update_first_all) auto
      with True show False by (auto simp: list_ex_iff)
    qed
    moreover have "\<forall>t \<in> set (update_first (\<lambda>t. task_status t = Pending) (set_task InProgress) ?ts).
        task_status t \<noteq> BlockedItem"
      by (rule update_first_all) (use free in auto)
    ultimately show ?thesis
      using True zero start_pending [of ?ts] by (simp add: milestone_ok_def progress_milestone_def)
  next
    case False
    have "task_status t = Completed" if "t \<in> set ?ts" for t
      using False zero free that unfolding count_in_progress_zero list_ex_iff
      by (cases "task_status t") blast+
    then have "\<forall>t \<in> set ?ts. task_status t = Completed" by blast
    with False zero show ?thesis by (simp add: milestone_ok_def progress_milestone_def)
  qed
qed

lemma record_progress_ok:
  assumes "plan_ok p"
  shows "plan_ok (record_progress p)"
proof -
  from assms have "\<forall>m \<in> set (update_first open_milestone progress_milestone (milestones p)). milestone_ok m"
    by (intro update_first_all) (auto simp: plan_ok_def progress_milestone_ok)
  moreover have "plan_status p = Completed \<Longrightarrow>
      \<forall>m \<in> set (update_first open_milestone progress_milestone (milestones p)). milestone_status m = Completed"
    using assms by (simp add: plan_ok_def update_first_id)
  ultimately show ?thesis
    using assms by (auto simp: record_progress_def plan_ok_def list_all_iff Let_def split: if_splits)
qed

lemma goal_synced_sync [simp]: "goal_synced (sync_current_milestone tr)"
  by (simp add: goal_synced_def sync_current_milestone_def)

lemma run_execution_plan_sync [simp]:
  "run_execution_plan (sync_current_milestone tr) = run_execution_plan tr"
  by (simp add: sync_current_milestone_def)

lemma record_plan_progress_ok: "run_ok tr \<Longrightarrow> run_ok (record_plan_progress tr)"
  by (auto simp: run_ok_def record_plan_progress_def record_progress_ok split: option.split)

lemma advance_fresh:
  assumes "\<forall>m \<in> set (milestones p). milestone_ok m \<and> count_in_progress (tasks m) = 0"
    and "revision p \<le> max_plan_revisions + 1"
  shows "plan_ok (advance_plan p)"
proof -
  have "\<forall>m \<in> set (update_first open_milestone start_milestone (milestones p)). milestone_ok m"
    using assms(1) by (intro update_first_all) (auto simp: start_milestone_ok)
  with assms(2) show ?thesis by (simp add: plan_ok_def advance_plan_def)
qed

lemma run_ok_advance:
  "run_execution_plan tr = Some p \<Longrightarrow> plan_ok (advance_plan p) \<Longrightarrow> run_ok (advance_execution_plan tr)"
  by (simp add: run_ok_def advance_execution_plan_def)

lemma set_chunks4: "ts \<in> set (chunks4 xs) \<Longrightarrow> set ts \<subseteq> set xs \<and> ts \<noteq> []"
  by (induction xs rule: chunks4.induct) auto

lemma concat_chunks4 [simp]: "concat (chunks4 xs) = xs"
  by (induction xs rule: chunks4.induct) auto

lemma fresh_milestones:
  assumes "m \<in> set (milestones (execution_plan_from_implementation ip criteria))"
  shows "milestone_ok m \<and> count_in_progress (tasks m) = 0 \<and> milestone_status m = Pending"
proof -
  let ?todo = "map pending_task (take 32 (filter (\<lambda>s. trim s \<noteq> []) (implementation_steps ip)))"
  from assms obtain n chunk where m: "(n, chunk) \<in> set (List.enumerate 0 (chunks4 ?todo))"
    "tasks m = chunk" "milestone_status m = Pending"
    by (auto simp: execution_plan_from_implementation_def Let_def)
  then have "chunk \<in> set (chunks4 ?todo)" unfolding enumerate_eq_zip by (blast dest: set_zip_rightD)
  then have "\<forall>t \<in> set chunk. task_status t = Pending"
    using set_chunks4 [of chunk ?todo] by (auto simp: pending_task_def)
  with m show ?thesis by (simp add: milestone_ok_def count_in_progress_zero count_in_progress_def)
qed

lemma revise_ok:
  assumes "revise_execution_plan tr reason steps = (True, tr')"
  shows "run_ok tr' \<and> (\<exists>p p'. run_execution_plan tr = Some p \<and> run_execution_plan tr' = Some p' \<and>
    revision p' = revision p + 1 \<and> revision p \<le> max_plan_revisions)"
proof -
  from assms obtain p where p: "run_execution_plan tr = Some p" "revision p \<le> max_plan_revisions"
    and tr': "tr' = advance_execution_plan (tr\<lparr>run_execution_plan :=
      Some (p\<lparr>revision := revision p + 1, milestones := [revised_milestone (run_goal tr) p steps],
        decision_notes := push_unique_bounded (decision_notes p) (bounded_summary reason) 16,
        plan_status := InProgress\<rparr>)\<rparr>)"
    by (auto simp: revise_execution_plan_def sat_add32_def max_plan_revisions_def u32_max_def Let_def
        split: if_splits option.splits)
  have "milestone_ok (revised_milestone g p steps) \<and>
      count_in_progress (tasks (revised_milestone g p steps)) = 0" for g
    by (auto simp: milestone_ok_def revised_milestone_def count_in_progress_def Let_def filter_empty_conv)
  then have "run_ok tr'"
    unfolding tr' using p(2) by (intro run_ok_advance [OF _ advance_fresh]) auto
  with p show ?thesis
    by (simp add: tr' advance_execution_plan_def advance_plan_def)
qed

lemma plan_run_ok: "plan_run tr tr' \<Longrightarrow> run_ok tr'"
proof (induction rule: plan_run.induct)
  case (start tr ip criteria)
  then show ?case
    using fresh_milestones [of _ ip criteria]
    by (intro run_ok_advance [OF start advance_fresh])
      (auto simp: execution_plan_from_implementation_def Let_def max_plan_revisions_def)
next
  case (step tr tr1 tr2)
  from \<open>plan_step tr1 tr2\<close> show ?case
    by (cases rule: plan_step.cases) (use step revise_ok record_plan_progress_ok in blast)+
qed

end
