(* ===== verification/Agent_Plan_Properties.thy ===== *)
theory Agent_Plan_Properties
  imports Agent_Plan
begin

section \<open>Properties of the execution plan\<close>

subsection \<open>Progress ends\<close>

definition task_weight :: "execution_task \<Rightarrow> nat" where
  "task_weight t = (case task_status t of Pending \<Rightarrow> 2 | InProgress \<Rightarrow> 1 | _ \<Rightarrow> 0)"

definition milestone_weight :: "execution_milestone \<Rightarrow> nat" where
  "milestone_weight m = (if open_milestone m then 1 + sum_list (map task_weight (tasks m)) else 0)"

definition plan_weight :: "execution_plan \<Rightarrow> nat" where
  "plan_weight p = sum_list (map milestone_weight (milestones p))"

lemma update_first_less:
  assumes "\<exists>x \<in> set xs. P x" "\<And>x. P x \<Longrightarrow> w (f x) < w x"
  shows "sum_list (map w (update_first P f xs)) < (sum_list (map w xs) :: nat)"
  using assms by (induction xs) (auto simp: add_less_le_mono)

lemma update_first_le:
  assumes "\<And>x. P x \<Longrightarrow> w (f x) \<le> w x"
  shows "sum_list (map w (update_first P f xs)) \<le> (sum_list (map w xs) :: nat)"
  using assms by (induction xs) auto

lemma progress_milestone_less:
  assumes "open_milestone m"
  shows "milestone_weight (progress_milestone m) < milestone_weight m"
proof -
  let ?ts = "update_first (\<lambda>t. task_status t = InProgress) (set_task Completed) (tasks m)"
  have le: "sum_list (map task_weight ?ts) \<le> sum_list (map task_weight (tasks m))"
    by (rule update_first_le) (simp add: task_weight_def)
  show ?thesis
  proof (cases "list_ex (\<lambda>t. task_status t = Pending) ?ts")
    case True
    have "sum_list (map task_weight (update_first (\<lambda>t. task_status t = Pending) (set_task InProgress) ?ts))
        < sum_list (map task_weight ?ts)"
      by (rule update_first_less) (use True in \<open>auto simp: list_ex_iff task_weight_def\<close>)
    with le True assms show ?thesis by (simp add: milestone_weight_def progress_milestone_def)
  next
    case False
    with assms show ?thesis by (simp add: milestone_weight_def progress_milestone_def)
  qed
qed

lemma record_progress_less:
  assumes "list_ex open_milestone (milestones p)"
  shows "plan_weight (record_progress p) < plan_weight p"
proof -
  have "sum_list (map milestone_weight (update_first open_milestone progress_milestone (milestones p)))
      < sum_list (map milestone_weight (milestones p))"
    by (rule update_first_less) (use assms progress_milestone_less in \<open>auto simp: list_ex_iff\<close>)
  then show ?thesis by (simp add: plan_weight_def record_progress_def Let_def)
qed

lemma plan_weight_zero: "plan_weight p = 0 \<Longrightarrow> \<not> list_ex open_milestone (milestones p)"
  by (auto simp: plan_weight_def milestone_weight_def list_ex_iff split: if_splits)

text \<open>What the iterated steps keep: the plan is completed as soon as no milestone is open.\<close>

definition closes :: "execution_plan \<Rightarrow> bool" where
  "closes p \<longleftrightarrow> list_ex open_milestone (milestones p) \<or> plan_status p = Completed"

lemma record_plan_progress_iter:
  assumes "run_execution_plan tr = Some p" "closes p" "plan_weight p \<le> k"
  shows "\<exists>p'. run_execution_plan ((record_plan_progress ^^ k) tr) = Some p' \<and>
    \<not> list_ex open_milestone (milestones p') \<and> plan_status p' = Completed"
  using assms
proof (induction k arbitrary: tr p)
  case 0
  with plan_weight_zero [of p] show ?case by (auto simp: closes_def)
next
  case (Suc k)
  show ?case
  proof (cases "list_ex open_milestone (milestones p)")
    case False
    then have "record_plan_progress tr = tr" using Suc.prems(1) by (simp add: record_plan_progress_def)
    then have "(record_plan_progress ^^ Suc k) tr = tr"
      by (induction k) simp_all
    with False Suc.prems show ?thesis by (auto simp: closes_def)
  next
    case True
    have run: "run_execution_plan (record_plan_progress tr) = Some (record_progress p)"
      using Suc.prems(1) True by (simp add: record_plan_progress_def)
    have "closes (record_progress p)"
      by (auto simp: closes_def record_progress_def Let_def list_ex_iff list_all_iff)
    moreover have "plan_weight (record_progress p) \<le> k"
      using record_progress_less [OF True] Suc.prems(3) by simp
    ultimately show ?thesis using Suc.IH [OF run] by (simp add: funpow_swap1 del: funpow.simps add: funpow_Suc_right)
  qed
qed

lemma length_chunks4: "4 * length (chunks4 xs) \<le> length xs + 3"
  by (induction xs rule: chunks4.induct) auto

lemma chunks4_ne: "xs \<noteq> [] \<Longrightarrow> chunks4 xs \<noteq> []"
  by (cases xs rule: chunks4.cases) auto

lemma start_milestone_weight: "milestone_weight (start_milestone m) \<le> 1 + sum_list (map task_weight (tasks m))"
  using update_first_le [of "\<lambda>t. task_status t = Pending" task_weight "set_task InProgress" "tasks m"]
  by (simp add: milestone_weight_def start_milestone_def task_weight_def)

lemma sum_map_concat: "sum_list (map f (concat xss)) = sum_list (map (\<lambda>xs. sum_list (map f xs)) xss)"
  by (induction xss) auto

lemma enumerate_Nil_iff: "List.enumerate n xs = [] \<longleftrightarrow> xs = []"
  by (cases xs) auto

lemma map_enumerate_snd: "map (\<lambda>x. f (snd x)) (List.enumerate n xs) = map f xs"
  by (induction xs arbitrary: n) auto

lemma fresh_plan_weight: "plan_weight (execution_plan_from_implementation ip criteria) \<le> 72"
proof -
  let ?todo = "map pending_task (take 32 (filter (\<lambda>s. trim s \<noteq> []) (implementation_steps ip)))"
  have "plan_weight (execution_plan_from_implementation ip criteria) =
      sum_list (map (\<lambda>ts. 1 + sum_list (map task_weight ts)) (chunks4 ?todo))"
    by (simp add: plan_weight_def execution_plan_from_implementation_def Let_def milestone_weight_def
        comp_def case_prod_beta map_enumerate_snd [of "\<lambda>ts. Suc (sum_list (map task_weight ts))"])
  also have "\<dots> = length (chunks4 ?todo) + sum_list (map task_weight ?todo)"
    using sum_map_concat [of task_weight "chunks4 ?todo"] by (simp add: sum_list_Suc)
  also have "sum_list (map task_weight ?todo) = 2 * length ?todo"
    by (simp add: comp_def task_weight_def pending_task_def sum_list_triv)
  finally show ?thesis using length_chunks4 [of ?todo] by simp
qed

lemma advance_weight: "plan_weight (advance_plan p) \<le> plan_weight p"
proof -
  have "milestone_weight (start_milestone m) \<le> milestone_weight m" if "open_milestone m" for m
    using start_milestone_weight [of m] that by (simp add: milestone_weight_def)
  from update_first_le [of open_milestone milestone_weight, OF this]
  show ?thesis by (simp add: plan_weight_def advance_plan_def)
qed

text \<open>C12: at every point of a run that starts with a fresh plan, a completed milestone has
  only completed tasks, no milestone has more than one task in progress, a completed plan has
  only completed milestones, at most three revisions were accepted, and the goal names the
  first milestone that is still open.\<close>

theorem plan_invariant:
  assumes "plan_run tr tr'" "run_execution_plan tr' = Some p"
  shows "(\<forall>m \<in> set (milestones p). length (filter (\<lambda>t. task_status t = InProgress) (tasks m)) \<le> 1 \<and>
      (milestone_status m = Completed \<longrightarrow> (\<forall>t \<in> set (tasks m). task_status t = Completed))) \<and>
    (plan_status p = Completed \<longrightarrow> (\<forall>m \<in> set (milestones p). milestone_status m = Completed)) \<and>
    revision p \<le> 4 \<and>
    current_milestone (run_goal tr') = map_option title (find open_milestone (milestones p))"
  using plan_run_ok [OF assms(1)] assms(2)
  by (simp add: run_ok_def plan_ok_def milestone_ok_def count_in_progress_def goal_synced_def
      max_plan_revisions_def)

text \<open>C33: progress ends: a fresh plan with at least one step is completed, with all its
  milestones and tasks, after at most 72 recorded steps of progress.\<close>

theorem plan_completes:
  assumes "run_execution_plan tr = Some (execution_plan_from_implementation ip criteria)"
    and "\<exists>s \<in> set (implementation_steps ip). trim s \<noteq> []" "72 \<le> k"
  shows "\<exists>p. run_execution_plan ((record_plan_progress ^^ k) (advance_execution_plan tr)) = Some p \<and>
    plan_status p = Completed \<and>
    (\<forall>m \<in> set (milestones p). milestone_status m = Completed \<and>
      (\<forall>t \<in> set (tasks m). task_status t = Completed))"
proof -
  let ?p = "execution_plan_from_implementation ip criteria"
  let ?tr = "advance_execution_plan tr"
  have run: "run_execution_plan ?tr = Some (advance_plan ?p)"
    using assms(1) by (simp add: advance_execution_plan_def)
  have "filter (\<lambda>s. trim s \<noteq> []) (implementation_steps ip) \<noteq> []"
    using assms(2) by (auto simp: filter_empty_conv)
  then have "milestones ?p \<noteq> []"
    using chunks4_ne [of "map pending_task (take 32 (filter (\<lambda>s. trim s \<noteq> []) (implementation_steps ip)))"]
    by (simp add: execution_plan_from_implementation_def Let_def enumerate_Nil_iff)
  then obtain m ms where "milestones ?p = m # ms" by (cases "milestones ?p") auto
  moreover from this have "milestone_status m = Pending"
    using fresh_milestones [of m ip criteria] by simp
  ultimately have "closes (advance_plan ?p)"
    by (simp add: closes_def advance_plan_def start_milestone_def)
  moreover have "plan_weight (advance_plan ?p) \<le> k"
    using advance_weight [of ?p] fresh_plan_weight [of ip criteria] assms(3) by simp
  ultimately obtain p where p: "run_execution_plan ((record_plan_progress ^^ k) ?tr) = Some p"
    "\<not> list_ex open_milestone (milestones p)" "plan_status p = Completed"
    using record_plan_progress_iter [OF run] by blast
  have "plan_run tr ((record_plan_progress ^^ k) ?tr)" for k
  proof (induction k)
    case 0
    show ?case using plan_run.start [OF assms(1)] by simp
  next
    case (Suc k)
    then show ?case using plan_run.step [OF _ plan_step.progress] by simp
  qed
  from plan_run_ok [OF this [of k]] p show ?thesis
    by (auto simp: run_ok_def plan_ok_def milestone_ok_def list_ex_iff)
qed

text \<open>Any sequence of attempts to revise a plan; the number counts those that were accepted.\<close>

fun revise_all :: "task_run \<Rightarrow> (string \<times> string list) list \<Rightarrow> nat \<times> task_run" where
  "revise_all tr [] = (0, tr)"
| "revise_all tr ((reason, steps) # rest) =
     (case revise_execution_plan tr reason steps of (ok, tr1) \<Rightarrow>
        case revise_all tr1 rest of (n, tr2) \<Rightarrow> ((if ok then 1 else 0) + n, tr2))"

lemma revise_False: "revise_execution_plan tr reason steps = (False, tr') \<Longrightarrow> tr' = tr"
  by (auto simp: revise_execution_plan_def Let_def split: if_splits option.splits)

lemma revise_all_count:
  assumes "revise_all tr xs = (n, tr')" "run_execution_plan tr = Some p" "1 \<le> revision p" "revision p \<le> 4"
  shows "n + revision p \<le> 4"
  using assms
proof (induction xs arbitrary: tr p n tr')
  case (Cons x xs)
  obtain reason steps where x: "x = (reason, steps)" by force
  obtain ok tr1 where rev: "revise_execution_plan tr reason steps = (ok, tr1)" by fastforce
  obtain n1 tr2 where rest: "revise_all tr1 xs = (n1, tr2)" by fastforce
  with Cons.prems(1) x rev have n: "n = (if ok then 1 else 0) + n1" by simp
  show ?case
  proof (cases ok)
    case True
    with revise_ok [of tr reason steps tr1] rev Cons.prems(2) obtain p' where
      "run_execution_plan tr1 = Some p'" "revision p' = revision p + 1" "revision p \<le> max_plan_revisions"
      by auto
    with Cons.IH [OF rest, of p'] n True show ?thesis by (simp add: max_plan_revisions_def)
  next
    case False
    with rev have "tr1 = tr" using revise_False by simp
    with Cons.IH [OF rest] Cons.prems n False show ?thesis by simp
  qed
qed simp

text \<open>whatever revisions a model proposes, at most three of them are accepted for a plan,
  and a refused one changes nothing.\<close>

theorem at_most_three_revisions:
  assumes "run_execution_plan tr = Some p" "revision p = 1"
  shows "fst (revise_all tr proposals) \<le> 3 \<and>
    (\<forall>reason steps. \<not> fst (revise_execution_plan tr reason steps) \<longrightarrow>
      snd (revise_execution_plan tr reason steps) = tr)"
proof -
  have "fst (revise_all tr proposals) + revision p \<le> 4"
    using revise_all_count [of tr proposals _ _ p] assms by (metis le_refl one_le_numeral prod.collapse)
  moreover have "snd (revise_execution_plan tr reason steps) = tr"
    if "\<not> fst (revise_execution_plan tr reason steps)" for reason steps
    using that revise_False [of tr reason steps] by (metis (full_types) prod.collapse)
  ultimately show ?thesis using assms(2) by simp
qed

subsection \<open>Witnesses\<close>

definition sample_plan :: "string list \<Rightarrow> implementation_plan" where
  "sample_plan steps = \<lparr>ip_goal = ''g'', relevant_architecture = [], files_likely_affected = [],
     implementation_steps = steps, ip_validation = [], risks_or_unknowns = []\<rparr>"

definition sample_run :: "string list \<Rightarrow> task_run" where
  "sample_run steps = (task_run_new ''g'')\<lparr>run_execution_plan :=
     Some (execution_plan_from_implementation (sample_plan steps) [])\<rparr>"

lemma trim_letters: "trim ''a'' = ''a''" "trim ''b'' = ''b''"
  by code_simp+

lemma sample_run_plan [simp]:
  "run_execution_plan (sample_run steps) = Some (execution_plan_from_implementation (sample_plan steps) [])"
  by (simp add: sample_run_def)

theorem plan_invariant_witness:
  "\<exists>p. run_execution_plan (record_plan_progress (advance_execution_plan (sample_run [''a'', ''b'']))) = Some p \<and>
     revision p \<le> 4"
proof -
  have run: "plan_run (sample_run [''a'', ''b''])
      (record_plan_progress (advance_execution_plan (sample_run [''a'', ''b''])))"
    by (rule plan_run.step [OF plan_run.start plan_step.progress]) simp
  have "run_execution_plan (record_plan_progress (advance_execution_plan (sample_run [''a'', ''b'']))) \<noteq> None"
    by (simp add: record_plan_progress_def advance_execution_plan_def)
  then obtain p where p: "run_execution_plan (record_plan_progress (advance_execution_plan
      (sample_run [''a'', ''b'']))) = Some p" by blast
  from plan_invariant [OF run p] p show ?thesis by blast
qed

theorem plan_completes_witness:
  "\<exists>p. run_execution_plan ((record_plan_progress ^^ 72) (advance_execution_plan (sample_run [''a'', ''b'']))) = Some p \<and>
     plan_status p = Completed"
  using plan_completes [of "sample_run [''a'', ''b'']" "sample_plan [''a'', ''b'']" "[]" 72]
  by (auto simp: sample_plan_def trim_letters)

theorem at_most_three_revisions_witness:
  "fst (revise_all (advance_execution_plan (sample_run [''a''])) [(''r'', [''b'']), (''r'', [''a'']),
     (''r'', [''b'']), (''r'', [''a'']), (''r'', [''b''])]) \<le> 3"
proof -
  let ?p = "advance_plan (execution_plan_from_implementation (sample_plan [''a'']) [])"
  have "run_execution_plan (advance_execution_plan (sample_run [''a''])) = Some ?p"
    by (simp add: advance_execution_plan_def)
  moreover have "revision ?p = 1"
    by (simp add: advance_plan_def execution_plan_from_implementation_def Let_def)
  ultimately show ?thesis using at_most_three_revisions by blast
qed

subsection \<open>Resuming a stored plan\<close>

text \<open>a run that resumes a stored plan starts the next pending task although one is in
  progress already. One recorded step of progress then completes a plan of two steps while
  its second task is still in progress.\<close>

theorem resumed_plan_completes_early:
  assumes "run_execution_plan tr = Some (execution_plan_from_implementation ip criteria)"
    and "implementation_steps ip = [a, b]" "trim a \<noteq> []" "trim b \<noteq> []"
  shows "\<exists>p m t. run_execution_plan (record_plan_progress
        (advance_execution_plan (advance_execution_plan tr))) = Some p \<and>
      plan_status p = Completed \<and> m \<in> set (milestones p) \<and> milestone_status m = Completed \<and>
      t \<in> set (tasks m) \<and> description t = b \<and> task_status t = InProgress"
  using assms
  by (simp add: record_plan_progress_def advance_execution_plan_def advance_plan_def record_progress_def
      execution_plan_from_implementation_def start_milestone_def progress_milestone_def pending_task_def
      set_task_def Let_def ex_disj_distrib conj_disj_distribR)

theorem resumed_plan_completes_early_witness:
  "\<exists>p. run_execution_plan (record_plan_progress (advance_execution_plan (advance_execution_plan
       (sample_run [''a'', ''b''])))) = Some p \<and> plan_status p = Completed"
  using resumed_plan_completes_early [of "sample_run [''a'', ''b'']" "sample_plan [''a'', ''b'']" "[]"]
  by (fastforce simp: sample_plan_def trim_letters)

text \<open>a task that was blocked when a run ended is passed over by the next run: the first
  step of progress recorded after the resume completes the plan with the task still blocked.\<close>

theorem blocked_task_is_passed_over:
  assumes "run_execution_plan tr = Some (execution_plan_from_implementation ip criteria)"
    and "implementation_steps ip = [a]" "trim a \<noteq> []"
    and "tr1 = finish_plan_state ((advance_execution_plan tr)\<lparr>completion_status := Blocked\<rparr>)"
  shows "\<exists>p m t. run_execution_plan (record_plan_progress (advance_execution_plan tr1)) = Some p \<and>
      plan_status p = Completed \<and> m \<in> set (milestones p) \<and> milestone_status m = Completed \<and>
      t \<in> set (tasks m) \<and> description t = a \<and> task_status t = BlockedItem"
  using assms(1-3) unfolding assms(4)
  by (simp add: record_plan_progress_def advance_execution_plan_def advance_plan_def record_progress_def
      execution_plan_from_implementation_def start_milestone_def progress_milestone_def pending_task_def
      set_task_def finish_plan_state_def finish_plan_def block_milestone_def Let_def ex_disj_distrib
      conj_disj_distribR)

theorem blocked_task_is_passed_over_witness:
  "\<exists>p. run_execution_plan (record_plan_progress (advance_execution_plan (finish_plan_state
       ((advance_execution_plan (sample_run [''a'']))\<lparr>completion_status := Blocked\<rparr>)))) = Some p \<and>
     plan_status p = Completed"
  using blocked_task_is_passed_over [of "sample_run [''a'']" "sample_plan [''a'']" "[]" "''a''", OF _ _ _ refl]
  by (fastforce simp: sample_plan_def trim_letters)

subsection \<open>Bounds of what is read out of text\<close>

definition bounded_list :: "nat \<Rightarrow> string list \<Rightarrow> bool" where
  "bounded_list n xs \<longleftrightarrow> length xs \<le> n \<and> distinct xs \<and> (\<forall>x \<in> set xs. length x \<le> 243)"

lemma bounded_list_start: "bounded_list n []" "bounded_list 16 [bounded_summary x]"
  by (simp_all add: bounded_list_def length_bounded_summary)

lemma bounded_list_push:
  "bounded_list n xs \<Longrightarrow> bounded_list n (push_unique_bounded xs (bounded_summary x) n)"
  using set_push_unique_bounded [of xs "bounded_summary x" n] length_bounded_summary [of x]
    length_push_unique_bounded [of xs n "bounded_summary x"]
    distinct_push_unique_bounded [of xs "bounded_summary x" n]
  unfolding bounded_list_def by blast

lemma criterion_lines_bounded:
  "bounded_list 32 cs \<Longrightarrow> bounded_list 32 (snd (foldl criterion_line (sec, cs) ls))"
proof (induction ls arbitrary: sec cs)
  case (Cons l ls)
  obtain sec' cs' where step: "criterion_line (sec, cs) l = (sec', cs')" by fastforce
  then have "cs' = cs \<or> (\<exists>x. cs' = push_unique_bounded cs (bounded_summary x) 32)"
    by (auto simp: criterion_line_def Let_def split: if_splits)
  with Cons.prems have "bounded_list 32 cs'" by (auto simp: bounded_list_push)
  with Cons.IH step show ?case by simp
qed simp

lemma extract_plan_lines_bounded:
  assumes "bounded_list 16 plan" "\<not> found \<longrightarrow> plan = []"
  shows "bounded_list 16 (snd (extract_plan_lines found plan ls))"
  using assms
proof (induction ls arbitrary: found plan)
  case (Cons l ls)
  show ?case
  proof (cases found)
    case True
    then show ?thesis using Cons bounded_list_push by (simp add: Let_def)
  next
    case False
    with Cons.prems have "plan = []" by simp
    with False Cons.IH show ?thesis
      by (simp add: Let_def bounded_list_start split: option.split prod.split)
  qed
qed simp

text \<open>what is read out of a goal or an answer is bounded: at most 32 different acceptance
  criteria and at most 16 different plan steps, none longer than 243 bytes.\<close>

theorem extracted_lists_are_bounded:
  "length (extract_acceptance_criteria g) \<le> 32 \<and> distinct (extract_acceptance_criteria g) \<and>
   (\<forall>c \<in> set (extract_acceptance_criteria g). length c \<le> 243) \<and>
   (\<forall>steps. extract_plan answer = Some steps \<longrightarrow>
      length steps \<le> 16 \<and> distinct steps \<and> (\<forall>s \<in> set steps. length s \<le> 243))"
proof -
  have "bounded_list 32 (extract_acceptance_criteria g)"
    unfolding extract_acceptance_criteria_def by (rule criterion_lines_bounded) (rule bounded_list_start)
  moreover have "bounded_list 16 steps" if "extract_plan answer = Some steps" for steps
    using that extract_plan_lines_bounded [of "[]" False "str_lines answer"] bounded_list_start(1)
    by (auto simp: extract_plan_def split: prod.splits if_splits)
  ultimately show ?thesis unfolding bounded_list_def by blast
qed

theorem extracted_lists_are_bounded_witness:
  "length (extract_acceptance_criteria ''acceptance criteria'') \<le> 32"
  using extracted_lists_are_bounded by blast

end
