(* ===== verification/Files.thy ===== *)
theory Files
  imports Paths Utf8 "HOL-Library.Char_ord" "HOL-Library.List_Lexorder" "HOL-Library.Product_Lexorder"
begin

section \<open>The file system as the crates read it\<close>

text \<open>
  A snapshot of the file system, keyed by the components of a path as \<open>std::path\<close> compares
  them. A directory lists its entries in the order \<open>read_dir\<close> yields them, each with the
  type \<open>DirEntry::file_type\<close> reports (which does not follow links), while \<open>is_file\<close>,
  \<open>is_dir\<close> and \<open>read_to_string\<close> look at what the path resolves to. Everything here only
  reads; the tools that write files have a model of their own.
\<close>

datatype entry_kind = EntryFile | EntryDir | EntryOther

datatype node = FileNode string | DirNode "(string \<times> entry_kind) list" | OtherNode

type_synonym disk = "component list \<Rightarrow> node option"

definition node_at :: "disk \<Rightarrow> path \<Rightarrow> node option" where
  "node_at d p = d (components p)"

definition path_exists :: "disk \<Rightarrow> path \<Rightarrow> bool" where
  "path_exists d p \<longleftrightarrow> node_at d p \<noteq> None"

definition is_file :: "disk \<Rightarrow> path \<Rightarrow> bool" where
  "is_file d p \<longleftrightarrow> (case node_at d p of Some (FileNode _) \<Rightarrow> True | _ \<Rightarrow> False)"

definition is_dir :: "disk \<Rightarrow> path \<Rightarrow> bool" where
  "is_dir d p \<longleftrightarrow> (case node_at d p of Some (DirNode _) \<Rightarrow> True | _ \<Rightarrow> False)"

definition read_dir :: "disk \<Rightarrow> path \<Rightarrow> (string \<times> entry_kind) list option" where
  "read_dir d p = (case node_at d p of Some (DirNode es) \<Rightarrow> Some es | _ \<Rightarrow> None)"

text \<open>Bytes that are no UTF-8 are exactly those the lossy conversion changes.\<close>

definition valid_utf8 :: "string \<Rightarrow> bool" where
  "valid_utf8 s \<longleftrightarrow> from_utf8_lossy s = s"

definition read_to_string :: "disk \<Rightarrow> path \<Rightarrow> string + string" where
  "read_to_string d p =
     (case node_at d p of
        Some (FileNode s) \<Rightarrow>
          if valid_utf8 s then Inr s else Inl ''stream did not contain valid UTF-8''
      | Some (DirNode _) \<Rightarrow> Inl ''Is a directory''
      | Some OtherNode \<Rightarrow> Inl ''Invalid argument''
      | None \<Rightarrow> Inl ''No such file or directory'')"

subsection \<open>Parents and ancestors\<close>

definition path_parent :: "path \<Rightarrow> path option" where
  "path_parent p =
     (let cs = components p
      in if cs = [] \<or> last cs = RootDir then None else Some (path_text (butlast cs)))"

text \<open>
  The paths a loop visits that pops a \<open>PathBuf\<close> until \<open>pop\<close> fails. The text of a path
  reached by popping is written out of its components.
\<close>

definition proper_prefixes :: "component list \<Rightarrow> component list list" where
  "proper_prefixes cs =
     map (\<lambda>n. take n cs) (rev [(if cs \<noteq> [] \<and> hd cs = RootDir then 1 else 0) ..< length cs])"

definition ancestors :: "path \<Rightarrow> path list" where
  "ancestors p = p # map path_text (proper_prefixes (components p))"

definition with_file_name :: "path \<Rightarrow> string \<Rightarrow> path" where
  "with_file_name p n =
     path_join (case file_name p of None \<Rightarrow> p
       | Some _ \<Rightarrow> (case path_parent p of None \<Rightarrow> p | Some q \<Rightarrow> q)) n"

definition absolute_path :: "path \<Rightarrow> path \<Rightarrow> path" where
  "absolute_path root p = (if is_absolute p then p else path_join root p)"

text \<open>\<open>to_string_lossy().replace('\\', "/")\<close>.\<close>

definition forward_slashes :: "path \<Rightarrow> string" where
  "forward_slashes p = replace_char (CHR 0x5C) slash p"

subsection \<open>Comparing paths\<close>

text \<open>\<open>Path\<close> orders by components: the root first, then \<open>.\<close>, \<open>..\<close> and names by their bytes.\<close>

fun component_key :: "component \<Rightarrow> nat \<times> string" where
  "component_key RootDir = (0, [])"
| "component_key CurDir = (1, [])"
| "component_key ParentDir = (2, [])"
| "component_key (Normal s) = (3, s)"

lemma component_key_inject [simp]: "component_key a = component_key b \<longleftrightarrow> a = b"
  by (cases a; cases b) auto

instantiation component :: linorder
begin

definition less_eq_component :: "component \<Rightarrow> component \<Rightarrow> bool" where
  "less_eq_component a b \<longleftrightarrow> component_key a \<le> component_key b"

definition less_component :: "component \<Rightarrow> component \<Rightarrow> bool" where
  "less_component a b \<longleftrightarrow> component_key a < component_key b"

instance
proof
  fix a b c :: component
  show "a < b \<longleftrightarrow> a \<le> b \<and> \<not> b \<le> a"
    by (simp only: less_eq_component_def less_component_def less_le_not_le)
  show "a \<le> a" "a \<le> b \<or> b \<le> a"
    by (simp_all only: less_eq_component_def order_refl linear)
  show "a \<le> c" if "a \<le> b" "b \<le> c"
    using that unfolding less_eq_component_def by (rule order_trans)
  show "a = b" if "a \<le> b" "b \<le> a"
    using that antisym [of "component_key a" "component_key b"]
    by (simp add: less_eq_component_def)
qed

end

definition sort_paths :: "path list \<Rightarrow> path list" where
  "sort_paths ps = sort_key components ps"

text \<open>A \<open>BTreeSet<String>\<close> read back in order.\<close>

definition ordered_set :: "string list \<Rightarrow> string list" where
  "ordered_set xs = sort (remdups xs)"

lemma set_ordered_set [simp]: "set (ordered_set xs) = set xs"
  by (simp add: ordered_set_def)

lemma distinct_ordered_set [simp]: "distinct (ordered_set xs)"
  by (simp add: ordered_set_def)

subsection \<open>Lemmas\<close>

lemma set_sort_paths [simp]: "set (sort_paths ps) = set ps"
  by (simp add: sort_paths_def)

lemma sorted_sort_paths: "sorted (map components (sort_paths ps))"
  by (simp add: sort_paths_def)

lemma read_to_string_file: "read_to_string d p = Inr s \<Longrightarrow> is_file d p"
  by (auto simp: read_to_string_def is_file_def split: option.splits node.splits if_splits)

lemma ancestors_self [simp]: "p \<in> set (ancestors p)"
  by (simp add: ancestors_def)

text \<open>
  Every list of components that comes from a path is the reading of its own text, and so is
  every prefix of it: popping and writing the path out loses nothing.
\<close>

definition path_components :: "component list \<Rightarrow> bool" where
  "path_components cs \<longleftrightarrow> (\<exists>front body. cs = front @ body \<and> list_all body_component body
     \<and> (front = [] \<or> front = [RootDir] \<or> front = [CurDir]))"

lemma path_components_components [simp]: "path_components (components p)"
  by (rule components_body [of p]) (auto simp: path_components_def)

lemma path_components_take:
  assumes "path_components cs"
  shows "path_components (take n cs)"
proof -
  from assms obtain front body where cs: "cs = front @ body" "list_all body_component body"
      "front = [] \<or> front = [RootDir] \<or> front = [CurDir]"
    by (auto simp: path_components_def)
  have "take n cs = take n front @ take (n - length front) body" by (simp add: cs(1))
  moreover have "list_all body_component (take (n - length front) body)"
    using cs(2) by (auto simp: list_all_iff dest: in_set_takeD)
  moreover have "take n front = [] \<or> take n front = [RootDir] \<or> take n front = [CurDir]"
    using cs(3) by (cases n) auto
  ultimately show ?thesis unfolding path_components_def by blast
qed

definition body_name :: "component \<Rightarrow> string" where
  "body_name c = (case c of Normal s \<Rightarrow> s | _ \<Rightarrow> ''..'')"

lemma body_names:
  assumes "list_all body_component body"
  shows "\<forall>s \<in> set (map body_name body). slash \<notin> set s"
    and "filter (\<lambda>s. s \<noteq> [] \<and> s \<noteq> ''.'') (map body_name body) = map body_name body"
    and "map piece_component (map body_name body) = body"
    and "map (\<lambda>c. case c of Normal s \<Rightarrow> s | ParentDir \<Rightarrow> ''..'' | CurDir \<Rightarrow> ''.'' | RootDir \<Rightarrow> []) body
      = map body_name body"
    and "filter (\<lambda>c. c \<noteq> RootDir) body = body"
    and "body \<noteq> [] \<Longrightarrow> hd (map body_name body) \<notin> {[], ''.''} \<and> hd body \<noteq> RootDir"
proof -
  have *: "(c = ParentDir \<or> (\<exists>s. c = Normal s \<and> s \<noteq> [] \<and> s \<noteq> ''.'' \<and> s \<noteq> ''..'' \<and> slash \<notin> set s))"
    if "c \<in> set body" for c
    using assms that by (auto simp: list_all_iff body_component_def proper_name_def)
  show "\<forall>s \<in> set (map body_name body). slash \<notin> set s"
    "filter (\<lambda>s. s \<noteq> [] \<and> s \<noteq> ''.'') (map body_name body) = map body_name body"
    "map piece_component (map body_name body) = body"
    "map (\<lambda>c. case c of Normal s \<Rightarrow> s | ParentDir \<Rightarrow> ''..'' | CurDir \<Rightarrow> ''.'' | RootDir \<Rightarrow> []) body
      = map body_name body"
    "filter (\<lambda>c. c \<noteq> RootDir) body = body"
    using * by (fastforce simp: body_name_def piece_component_def filter_id_conv intro!: map_idI)+
  show "hd (map body_name body) \<notin> {[], ''.''} \<and> hd body \<noteq> RootDir" if "body \<noteq> []"
    using * [of "hd body"] that by (cases body) (auto simp: body_name_def)
qed

lemma components_text:
  assumes "path_components cs"
  shows "components (path_text cs) = cs"
proof -
  from assms obtain front body where cs: "cs = front @ body" "list_all body_component body"
      and front: "front = [] \<or> front = [RootDir] \<or> front = [CurDir]"
    by (auto simp: path_components_def)
  note names = body_names [OF cs(2)]
  let ?names = "map body_name body"
  from front consider "front = []" "body = []" | "front = []" "body \<noteq> []" | "front = [RootDir]" | "front = [CurDir]"
    by blast
  then show ?thesis
  proof cases
    case 1
    then show ?thesis by (simp add: cs components_empty_text)
  next
    case 2
    have text_eq: "path_text cs = join [slash] ?names"
      using 2 names(6) [OF 2(2)] by (simp add: path_text_def cs names(4,5))
    have pieces: "path_pieces (join [slash] ?names) = ?names"
      using names(1) 2 by (simp add: path_pieces_def split_on_join)
    have "\<not> is_absolute (join [slash] ?names)"
      using names(1) names(6) [OF 2(2)] 2(2)
      by (cases body; cases "tl body"; cases "body_name (hd body)") (auto simp: is_absolute_def)
    with pieces names(2,3) names(6) [OF 2(2)] 2 have "components (join [slash] ?names) = cs"
      by (simp add: components_def Let_def cs hd_map)
    then show ?thesis by (simp only: text_eq)
  next
    case 3
    have text_eq: "path_text cs = slash # join [slash] ?names"
      using 3 by (simp add: path_text_def cs names(4,5))
    have "path_pieces (slash # join [slash] ?names) = [] # (if body = [] then [[]] else ?names)"
      using names(1) by (simp add: path_pieces_def split_on_join)
    with names(2,3) 3 have "components (slash # join [slash] ?names) = cs"
      by (simp add: components_def Let_def cs is_absolute_def)
    then show ?thesis by (simp only: text_eq)
  next
    case 4
    have text_eq: "path_text cs = join [slash] (''.'' # ?names)"
      using 4 by (simp add: path_text_def cs names(4,5))
    have pieces: "path_pieces (join [slash] (''.'' # ?names)) = ''.'' # ?names"
      using names(1) unfolding path_pieces_def by (intro split_on_join) auto
    have "\<not> is_absolute (join [slash] (''.'' # ?names))"
      by (cases body) (simp_all add: is_absolute_def)
    with pieces names(2,3) 4 have "components (join [slash] (''.'' # ?names)) = cs"
      by (simp add: components_def Let_def cs)
    then show ?thesis by (simp only: text_eq)
  qed
qed

lemma components_ancestors:
  "map components (ancestors p) = components p # proper_prefixes (components p)"
  using components_text [OF path_components_take [OF path_components_components]]
  by (simp add: ancestors_def proper_prefixes_def comp_def)

lemma components_ancestor:
  "q \<in> set (ancestors p) \<Longrightarrow> prefix (components q) (components p)"
  using components_text [OF path_components_take [OF path_components_components [of p]]]
  by (auto simp: ancestors_def proper_prefixes_def take_is_prefix)

end
