(* ===== verification/Workspace.thy ===== *)
theory Workspace
  imports Files Context "HOL-Library.Multiset"
begin

section \<open>harness-core: discovery of a workspace\<close>

text \<open>
  \<open>harness-core/src/workspace.rs\<close>. \<open>discover_workspace\<close> reads the file system, asks git and
  collects languages, manifests, the commands of the project and the instruction files that
  apply to a directory. The outside world is a record: a snapshot of the disk, the resolver
  of links, the git program, the environment, and the parsers of JSON and of the
  configuration file (\<open>serde_json\<close> and \<open>toml\<close>, which are not part of the repository). The
  search path has no executable extensions, as on Unix.
\<close>

subsection \<open>Data\<close>

datatype language =
    LangC | LangCpp | LangCSharp | LangGo | LangJava | LangJavaScript | LangKotlin | LangPython
  | LangRuby | LangRust | LangTypeScript

fun language_rank :: "language \<Rightarrow> nat" where
  "language_rank LangC = 0"
| "language_rank LangCpp = 1"
| "language_rank LangCSharp = 2"
| "language_rank LangGo = 3"
| "language_rank LangJava = 4"
| "language_rank LangJavaScript = 5"
| "language_rank LangKotlin = 6"
| "language_rank LangPython = 7"
| "language_rank LangRuby = 8"
| "language_rank LangRust = 9"
| "language_rank LangTypeScript = 10"

lemma language_rank_inject [simp]: "language_rank a = language_rank b \<longleftrightarrow> a = b"
  by (cases a; cases b) auto

instantiation language :: linorder
begin

definition less_eq_language :: "language \<Rightarrow> language \<Rightarrow> bool" where
  "less_eq_language a b \<longleftrightarrow> language_rank a \<le> language_rank b"

definition less_language :: "language \<Rightarrow> language \<Rightarrow> bool" where
  "less_language a b \<longleftrightarrow> language_rank a < language_rank b"

instance
  by standard
    (auto simp: less_eq_language_def less_language_def simp flip: language_rank_inject)

end

datatype manifest_kind =
    CargoManifest | PackageJson | PackageLock | PnpmLock | YarnLock | BunLock | PythonManifest
  | GoManifest | JavaManifest | RubyManifest | ComposerManifest | BuildSystem | Makefile | Justfile
  | LintManifest | FormatManifest | TypecheckManifest

record manifest =
  manifest_path :: path
  manifest_kind_of :: manifest_kind

datatype monorepo_indicator = CargoWorkspace | NpmWorkspaces | PnpmWorkspace | GoWork | Lerna

record monorepo_description =
  is_monorepo :: bool
  indicators :: "monorepo_indicator list"

datatype package_manager =
    Npm | Pnpm | Yarn | Bun | CargoTool | Poetry | Pipenv | GoTool | Maven | Gradle | ComposerTool

record command_spec =
  cs_program :: string
  cs_args :: "string list"

abbreviation command_spec_new :: "string \<Rightarrow> string list \<Rightarrow> command_spec" where
  "command_spec_new p as \<equiv> \<lparr>cs_program = p, cs_args = as\<rparr>"

record project_commands =
  cmd_test :: "command_spec list"
  cmd_build :: "command_spec list"
  cmd_format :: "command_spec list"
  cmd_lint :: "command_spec list"
  cmd_typecheck :: "command_spec list"

definition project_commands_default :: project_commands where
  "project_commands_default =
     \<lparr>cmd_test = [], cmd_build = [], cmd_format = [], cmd_lint = [], cmd_typecheck = []\<rparr>"

record workspace_configuration =
  package_manager_cfg :: "package_manager option"
  ws_commands :: project_commands
  cfg_source :: "path option"

datatype instruction_kind =
    GlobalAgents | Agents | Claude | Readme | Contributing | AgentInstructions

record workspace_instruction = instruction_file +
  instr_kind :: instruction_kind

datatype working_tree_state = CleanTree | DirtyTree

record git_description =
  git_is_available :: bool
  git_branch :: "string option"
  working_tree :: "working_tree_state option"

record workspace_description =
  ws_current_directory :: path
  ws_repository_root :: "path option"
  ws_git :: git_description
  ws_languages :: "language list"
  ws_manifests :: "manifest list"
  ws_monorepo :: monorepo_description
  ws_configuration :: workspace_configuration
  ws_instructions :: "workspace_instruction list"

subsection \<open>The outside world\<close>

record command_overrides =
  ov_test :: "string list option"
  ov_build :: "string list option"
  ov_format :: "string list option"
  ov_lint :: "string list option"
  ov_typecheck :: "string list option"

record project_config_file =
  file_package_manager :: "package_manager option"
  overrides :: command_overrides

record workspace_host =
  host_disk :: disk
  canonicalize :: "path \<Rightarrow> string + path"
  git_on_path :: bool
  git_process :: "path \<Rightarrow> string list \<Rightarrow> (bool \<times> string) option"
  search_path :: "path list option"
  env_var :: "string \<Rightarrow> string option"
  parse_json :: "string \<Rightarrow> json option"
  parse_project_config :: "string \<Rightarrow> string + project_config_file"

definition json_get :: "string \<Rightarrow> json \<Rightarrow> json option" where
  "json_get k v = (case v of JObject kvs \<Rightarrow> map_of kvs k | _ \<Rightarrow> None)"

definition json_str :: "json \<Rightarrow> string option" where
  "json_str v = (case v of JString s \<Rightarrow> Some s | _ \<Rightarrow> None)"

definition executable_available_in :: "disk \<Rightarrow> string \<Rightarrow> path list \<Rightarrow> string list \<Rightarrow> bool" where
  "executable_available_in d program search_paths exts =
     (let name = (case file_name program of None \<Rightarrow> program | Some n \<Rightarrow> n);
          has_extension = path_extension program \<noteq> None
      in list_ex (\<lambda>dir.
           if has_extension then is_file d (path_join dir name)
           else list_ex (\<lambda>ext. is_file d (path_join dir (name @ ext))) exts) search_paths)"

definition executable_available :: "workspace_host \<Rightarrow> string \<Rightarrow> bool" where
  "executable_available h program =
     (case search_path h of None \<Rightarrow> False
      | Some dirs \<Rightarrow> executable_available_in (host_disk h) program dirs [[]])"

definition run_git_output :: "workspace_host \<Rightarrow> path \<Rightarrow> string list \<Rightarrow> string option" where
  "run_git_output h dir args =
     (case git_process h dir args of
        Some (True, stdout) \<Rightarrow> Some (trim (from_utf8_lossy stdout))
      | _ \<Rightarrow> None)"

definition canonical_path :: "workspace_host \<Rightarrow> path \<Rightarrow> path option" where
  "canonical_path h p = (case canonicalize h p of Inl _ \<Rightarrow> None | Inr q \<Rightarrow> Some q)"

subsection \<open>Roots\<close>

definition find_git_root :: "workspace_host \<Rightarrow> path \<Rightarrow> path option" where
  "find_git_root h start =
     (case find (\<lambda>p. path_exists (host_disk h) (path_join p ''.git'')) (ancestors start) of
        None \<Rightarrow> None | Some p \<Rightarrow> canonical_path h p)"

definition project_root_names :: "string list" where
  "project_root_names =
     [''.agent'', ''Cargo.toml'', ''package.json'', ''pyproject.toml'', ''setup.py'', ''go.mod'',
      ''pom.xml'', ''build.gradle'', ''build.gradle.kts'', ''Gemfile'', ''composer.json'']"

definition find_project_root :: "workspace_host \<Rightarrow> path \<Rightarrow> path option" where
  "find_project_root h start =
     (case find (\<lambda>p. list_ex (\<lambda>n. is_file (host_disk h) (path_join p n)
                \<or> is_dir (host_disk h) (path_join p n)) project_root_names) (ancestors start) of
        None \<Rightarrow> None | Some p \<Rightarrow> canonical_path h p)"

definition describe_git :: "workspace_host \<Rightarrow> bool \<Rightarrow> path option \<Rightarrow> git_description" where
  "describe_git h available root =
     (case root of
        None \<Rightarrow> \<lparr>git_is_available = available, git_branch = None, working_tree = None\<rparr>
      | Some r \<Rightarrow>
          \<lparr>git_is_available = available,
           git_branch = (case run_git_output h r [''symbolic-ref'', ''--short'', ''-q'', ''HEAD''] of
               Some b \<Rightarrow> (if b = [] then None else Some b) | None \<Rightarrow> None),
           working_tree = map_option (\<lambda>out. if out = [] then CleanTree else DirtyTree)
             (run_git_output h r [''status'', ''--porcelain''])\<rparr>)"

end
