(* ===== verification/Workspace_Scan.thy ===== *)
theory Workspace_Scan
  imports Workspace
begin

section \<open>Scanning a project\<close>

text \<open>
  \<open>collect_files\<close> walks the tree with an explicit stack, bounded in depth and in the number
  of files, and the detectors read languages, manifests and monorepo markers off the sorted
  list of files. The stack is a list whose head is the top of the vector. The walk ends on
  every disk, also one whose directories contain each other: the multiset of the depths left
  decreases.
\<close>

subsection \<open>The walk\<close>

definition skipped_names :: "string list" where
  "skipped_names =
     [''.git'', ''.hg'', ''.svn'', ''node_modules'', ''target'', ''dist'', ''build'', ''coverage'',
      ''vendor'', ''.venv'', ''venv'', ''__pycache__'']"

definition should_skip_directory :: "path \<Rightarrow> bool" where
  "should_skip_directory p =
     (case file_name p of None \<Rightarrow> False | Some n \<Rightarrow> n \<in> set skipped_names)"

definition max_scan_depth :: nat where "max_scan_depth = 16"
definition max_scan_files :: nat where "max_scan_files = 20000"

fun scan_entry ::
  "path \<Rightarrow> nat \<Rightarrow> (path \<times> nat) list \<times> path list \<Rightarrow> string \<times> entry_kind \<Rightarrow>
   (path \<times> nat) list \<times> path list" where
  "scan_entry dir depth (pending, found) (name, EntryDir) =
     (let p = path_join dir name
      in if should_skip_directory p then (pending, found) else ((p, depth + 1) # pending, found))"
| "scan_entry dir depth (pending, found) (name, EntryFile) =
     (pending, found @ [path_join dir name])"
| "scan_entry dir depth (pending, found) (name, EntryOther) = (pending, found)"

definition entered_directories :: "path \<Rightarrow> (string \<times> entry_kind) list \<Rightarrow> path list" where
  "entered_directories dir es =
     filter (\<lambda>p. \<not> should_skip_directory p)
       (map (path_join dir \<circ> fst) (filter (\<lambda>e. snd e = EntryDir) es))"

definition listed_files :: "path \<Rightarrow> (string \<times> entry_kind) list \<Rightarrow> path list" where
  "listed_files dir es = map (path_join dir \<circ> fst) (filter (\<lambda>e. snd e = EntryFile) es)"

lemma scan_entries:
  "foldl (scan_entry dir depth) (pending, found) es =
     (rev (map (\<lambda>p. (p, depth + 1)) (entered_directories dir es)) @ pending,
      found @ listed_files dir es)"
proof (induction es arbitrary: pending found)
  case (Cons e es)
  obtain n k where e: "e = (n, k)" by (cases e)
  show ?case
    by (cases k) (simp_all add: e Cons.IH entered_directories_def listed_files_def)
qed (simp add: entered_directories_def listed_files_def)

function collect_loop :: "disk \<Rightarrow> (path \<times> nat) list \<Rightarrow> path list \<Rightarrow> path list" where
  "collect_loop d [] found = found"
| "collect_loop d ((dir, depth) # rest) found =
     (if max_scan_depth < depth \<or> max_scan_files \<le> length found then collect_loop d rest found
      else case read_dir d dir of
        None \<Rightarrow> collect_loop d rest found
      | Some es \<Rightarrow>
          (case foldl (scan_entry dir depth) (rest, found) es of
             (pending, found) \<Rightarrow> collect_loop d pending found))"
  by pat_completeness auto

definition scan_order :: "((disk \<times> (path \<times> nat) list \<times> path list) \<times> disk \<times> (path \<times> nat) list \<times> path list) set" where
  "scan_order = inv_image (mult less_than) (\<lambda>(d, pending, found). mset (map (\<lambda>x. 17 - snd x) pending))"

lemma scan_order_pop: "((d, rest, f), (d, x # rest, g)) \<in> scan_order"
  using subset_implies_mult [of "mset (map (\<lambda>x. 17 - snd x) rest)"
      "mset (map (\<lambda>x. 17 - snd x) (x # rest))" less_than]
  by (simp add: scan_order_def)

lemma scan_order_push:
  assumes "depth \<le> 16"
  shows "((d, map (\<lambda>p. (p, depth + 1)) ps @ rest, f), (d, (dir, depth) # rest, g)) \<in> scan_order"
proof -
  let ?m = "\<lambda>xs. mset (map (\<lambda>x. 17 - snd x) (xs :: (path \<times> nat) list))"
  have "(?m rest + ?m (map (\<lambda>p. (p, depth + 1)) ps), ?m rest + {#17 - depth#}) \<in> mult less_than"
    using assms by (intro one_step_implies_mult) auto
  then show ?thesis
    by (simp add: scan_order_def add.commute multiset.map_comp comp_def)
qed

lemma scan_order_step:
  assumes "\<not> 16 < depth"
  shows "((d, foldl (scan_entry dir depth) (rest, found) es), (d, (dir, depth) # rest, found))
    \<in> scan_order"
proof -
  have "rev (map (\<lambda>p. (p, depth + 1)) (entered_directories dir es)) =
      map (\<lambda>p. (p, depth + 1)) (rev (entered_directories dir es))" by (simp add: rev_map)
  moreover from assms have "depth \<le> 16" by simp
  ultimately show ?thesis unfolding scan_entries by (simp only: scan_order_push)
qed

lemma wf_scan_order: "wf scan_order"
  unfolding scan_order_def by (intro wf_inv_image wf_mult wf_less_than)

termination collect_loop
  by (relation scan_order)
    (auto intro: wf_scan_order scan_order_pop scan_order_step simp: max_scan_depth_def)

definition collect_files :: "disk \<Rightarrow> path \<Rightarrow> path list" where
  "collect_files d root = sort_paths (collect_loop d [(root, 0)] [])"

subsection \<open>Detectors\<close>

definition same_path :: "path \<Rightarrow> path \<Rightarrow> bool" where
  "same_path p q \<longleftrightarrow> components p = components q"

definition extension_language :: "string \<Rightarrow> language option" where
  "extension_language e =
     (if e \<in> {''c'', ''h''} then Some LangC
      else if e \<in> {''cc'', ''cpp'', ''cxx'', ''hpp''} then Some LangCpp
      else if e = ''cs'' then Some LangCSharp
      else if e = ''go'' then Some LangGo
      else if e = ''java'' then Some LangJava
      else if e \<in> {''js'', ''jsx'', ''mjs'', ''cjs''} then Some LangJavaScript
      else if e \<in> {''kt'', ''kts''} then Some LangKotlin
      else if e = ''py'' then Some LangPython
      else if e = ''rb'' then Some LangRuby
      else if e = ''rs'' then Some LangRust
      else if e \<in> {''ts'', ''tsx'', ''mts'', ''cts''} then Some LangTypeScript
      else None)"

definition detect_languages :: "path list \<Rightarrow> language list" where
  "detect_languages ps =
     sort (remdups (List.map_filter (\<lambda>p. Option.bind (path_extension p) extension_language) ps))"

definition manifest_kind_for :: "string \<Rightarrow> manifest_kind option" where
  "manifest_kind_for n =
     (if n = ''Cargo.toml'' then Some CargoManifest
      else if n = ''package.json'' then Some PackageJson
      else if n = ''package-lock.json'' then Some PackageLock
      else if n = ''pnpm-lock.yaml'' then Some PnpmLock
      else if n = ''yarn.lock'' then Some YarnLock
      else if n \<in> {''bun.lock'', ''bun.lockb''} then Some BunLock
      else if n \<in> {''pyproject.toml'', ''setup.py'', ''setup.cfg'', ''requirements.txt''}
        then Some PythonManifest
      else if n = ''go.mod'' then Some GoManifest
      else if n \<in> {''pom.xml'', ''build.gradle'', ''build.gradle.kts''} then Some JavaManifest
      else if n = ''Gemfile'' then Some RubyManifest
      else if n = ''composer.json'' then Some ComposerManifest
      else if n = ''CMakeLists.txt'' then Some BuildSystem
      else if n = ''Makefile'' then Some Makefile
      else if n \<in> {''justfile'', ''Justfile''} then Some Justfile
      else if n \<in> {''eslint.config.js'', ''.eslintrc'', ''.eslintrc.json'', ''ruff.toml''}
        then Some LintManifest
      else if n \<in> {''rustfmt.toml'', ''.prettierrc'', ''.prettierrc.json''} then Some FormatManifest
      else if n \<in> {''tsconfig.json'', ''jsconfig.json''} then Some TypecheckManifest
      else None)"

definition detect_manifests :: "path list \<Rightarrow> manifest list" where
  "detect_manifests ps =
     sort_key (components \<circ> manifest_path)
       (List.map_filter (\<lambda>p. Option.bind (file_name p) (\<lambda>n.
          map_option (\<lambda>k. \<lparr>manifest_path = p, manifest_kind_of = k\<rparr>) (manifest_kind_for n))) ps)"

definition manifest_in_root :: "path \<Rightarrow> manifest_kind \<Rightarrow> manifest list \<Rightarrow> manifest option" where
  "manifest_in_root root k ms =
     find (\<lambda>m. manifest_kind_of m = k \<and>
       (case path_parent (manifest_path m) of None \<Rightarrow> False | Some q \<Rightarrow> same_path q root)) ms"

definition package_json_has_workspaces :: "workspace_host \<Rightarrow> path \<Rightarrow> bool" where
  "package_json_has_workspaces h p =
     (case read_to_string (host_disk h) p of Inl _ \<Rightarrow> False
      | Inr contents \<Rightarrow> (case parse_json h contents of None \<Rightarrow> False
          | Some v \<Rightarrow> json_get ''workspaces'' v \<noteq> None))"

definition detect_monorepo ::
  "workspace_host \<Rightarrow> path \<Rightarrow> manifest list \<Rightarrow> monorepo_description" where
  "detect_monorepo h root ms =
     (let here = (\<lambda>n. is_file (host_disk h) (path_join root n));
          cargo = (case manifest_in_root root CargoManifest ms of None \<Rightarrow> False
            | Some m \<Rightarrow> (case read_to_string (host_disk h) (manifest_path m) of Inl _ \<Rightarrow> False
                | Inr c \<Rightarrow> str_contains c ''[workspace]''));
          npm = (case manifest_in_root root PackageJson ms of None \<Rightarrow> False
            | Some m \<Rightarrow> package_json_has_workspaces h (manifest_path m));
          found = (if cargo then [CargoWorkspace] else []) @ (if npm then [NpmWorkspaces] else [])
            @ (if here ''pnpm-workspace.yaml'' then [PnpmWorkspace] else [])
            @ (if here ''go.work'' then [GoWork] else [])
            @ (if here ''lerna.json'' then [Lerna] else [])
      in \<lparr>is_monorepo = found \<noteq> [], indicators = found\<rparr>)"

definition node_lock_files :: "(string \<times> package_manager) list" where
  "node_lock_files =
     [(''pnpm-lock.yaml'', Pnpm), (''yarn.lock'', Yarn), (''bun.lock'', Bun), (''bun.lockb'', Bun),
      (''package-lock.json'', Npm)]"

text \<open>Both tables of the code, for the root and for any file, list the same names.\<close>

definition lock_manager :: "path \<Rightarrow> package_manager option" where
  "lock_manager p = Option.bind (file_name p) (map_of node_lock_files)"

definition node_package_manager :: "disk \<Rightarrow> path \<Rightarrow> path list \<Rightarrow> package_manager option" where
  "node_package_manager d root ps =
     (case find (\<lambda>(n, _). is_file d (path_join root n)) node_lock_files of
        Some (_, m) \<Rightarrow> Some m
      | None \<Rightarrow>
          (case List.map_filter lock_manager ps of
             m # _ \<Rightarrow> Some m
           | [] \<Rightarrow> if is_file d (path_join root ''package.json'') then Some Npm else None))"

definition detect_package_manager :: "disk \<Rightarrow> path \<Rightarrow> path list \<Rightarrow> package_manager option" where
  "detect_package_manager d root ps =
     (let here = (\<lambda>n. is_file d (path_join root n)) in
      case node_package_manager d root ps of
        Some m \<Rightarrow> Some m
      | None \<Rightarrow>
          if here ''Cargo.toml'' then Some CargoTool
          else if here ''go.mod'' then Some GoTool
          else if here ''pom.xml'' then Some Maven
          else if here ''build.gradle'' \<or> here ''build.gradle.kts'' then Some Gradle
          else if here ''composer.json'' then Some ComposerTool
          else if here ''Pipfile'' then Some Pipenv
          else if here ''pyproject.toml'' \<and>
            (case read_to_string d (path_join root ''pyproject.toml'') of Inl _ \<Rightarrow> False
             | Inr c \<Rightarrow> str_contains c ''[tool.poetry]'') then Some Poetry
          else None)"

end
