(* ===== verification/Workspace_Discovery.thy ===== *)
theory Workspace_Discovery
  imports Workspace_Scan
begin

section \<open>Commands, configuration and instructions of a project\<close>

text \<open>
  The commands inferred from manifests and scripts, their overrides in
  \<open>.agent/config.toml\<close>, the instruction files from the root down to a directory, and
  \<open>discover_workspace\<close>, which puts them together.
\<close>

subsection \<open>Inferred commands\<close>

fun package_manager_command :: "package_manager \<Rightarrow> string" where
  "package_manager_command Npm = ''npm''"
| "package_manager_command Pnpm = ''pnpm''"
| "package_manager_command Yarn = ''yarn''"
| "package_manager_command Bun = ''bun''"
| "package_manager_command CargoTool = ''cargo''"
| "package_manager_command Poetry = ''poetry''"
| "package_manager_command Pipenv = ''pipenv''"
| "package_manager_command GoTool = ''go''"
| "package_manager_command Maven = ''mvn''"
| "package_manager_command Gradle = ''gradle''"
| "package_manager_command ComposerTool = ''composer''"

definition package_json_scripts :: "workspace_host \<Rightarrow> path \<Rightarrow> (string \<times> string) list" where
  "package_json_scripts h p =
     (case read_to_string (host_disk h) p of Inl _ \<Rightarrow> []
      | Inr contents \<Rightarrow>
          (case Option.bind (parse_json h contents) (json_get ''scripts'') of
             Some (JObject scripts) \<Rightarrow>
               List.map_filter (\<lambda>(n, v). map_option (Pair n) (json_str v)) scripts
           | _ \<Rightarrow> []))"

definition add_node_commands ::
  "workspace_host \<Rightarrow> path \<Rightarrow> package_manager \<Rightarrow> project_commands \<Rightarrow> project_commands" where
  "add_node_commands h package_json m c =
     (let scripts = package_json_scripts h package_json;
          runner = package_manager_command m;
          cmd = (\<lambda>s. if map_of scripts s \<noteq> None then [command_spec_new runner [''run'', s]] else [])
      in \<lparr>cmd_test = cmd_test c @ cmd ''test'', cmd_build = cmd_build c @ cmd ''build'',
          cmd_format = cmd_format c @ cmd ''format'', cmd_lint = cmd_lint c @ cmd ''lint'',
          cmd_typecheck = cmd_typecheck c @ cmd ''typecheck''\<rparr>)"

definition has_manifest :: "manifest_kind \<Rightarrow> manifest list \<Rightarrow> bool" where
  "has_manifest k ms = list_ex (\<lambda>m. manifest_kind_of m = k) ms"

definition find_manifest :: "manifest list \<Rightarrow> manifest_kind \<Rightarrow> path option" where
  "find_manifest ms k = map_option manifest_path (find (\<lambda>m. manifest_kind_of m = k) ms)"

definition add_cargo_commands :: "project_commands \<Rightarrow> project_commands" where
  "add_cargo_commands c =
     \<lparr>cmd_test = cmd_test c @ [command_spec_new ''cargo'' [''test'', ''--workspace'']],
      cmd_build = cmd_build c @ [command_spec_new ''cargo'' [''build'', ''--workspace'']],
      cmd_format = cmd_format c @ [command_spec_new ''cargo'' [''fmt'', ''--all'', ''--check'']],
      cmd_lint = cmd_lint c @ [command_spec_new ''cargo''
        [''clippy'', ''--workspace'', ''--all-targets'', ''--all-features'', ''--'', ''-D'', ''warnings'']],
      cmd_typecheck = cmd_typecheck c @ [command_spec_new ''cargo'' [''check'', ''--workspace'']]\<rparr>"

definition add_python_commands :: "workspace_host \<Rightarrow> project_commands \<Rightarrow> project_commands" where
  "add_python_commands h c =
     c\<lparr>cmd_test := cmd_test c @
          (if executable_available h ''pytest'' then [command_spec_new ''pytest'' []] else []),
       cmd_lint := cmd_lint c @
          (if executable_available h ''ruff'' then [command_spec_new ''ruff'' [''check'', ''.'']] else []),
       cmd_typecheck := cmd_typecheck c @
          (if executable_available h ''mypy'' then [command_spec_new ''mypy'' [''.'']] else [])\<rparr>"

definition add_go_commands :: "project_commands \<Rightarrow> project_commands" where
  "add_go_commands c =
     c\<lparr>cmd_test := cmd_test c @ [command_spec_new ''go'' [''test'', ''./...'']],
       cmd_build := cmd_build c @ [command_spec_new ''go'' [''build'', ''./...'']],
       cmd_format := cmd_format c @ [command_spec_new ''gofmt'' [''-l'', ''.'']],
       cmd_lint := cmd_lint c @ [command_spec_new ''go'' [''vet'', ''./...'']]\<rparr>"

definition infer_commands ::
  "workspace_host \<Rightarrow> language list \<Rightarrow> manifest list \<Rightarrow> package_manager option \<Rightarrow> project_commands" where
  "infer_commands h langs ms manager =
     (let c = project_commands_default;
          c = (if has_manifest CargoManifest ms then add_cargo_commands c else c);
          c = (if LangPython \<in> set langs then add_python_commands h c else c);
          c = (if has_manifest GoManifest ms then add_go_commands c else c);
          c = (case (find_manifest ms PackageJson, manager) of
                 (Some p, Some m) \<Rightarrow> add_node_commands h p m c | _ \<Rightarrow> c);
          c = (if has_manifest JavaManifest ms
               then c\<lparr>cmd_test := cmd_test c @ [command_spec_new ''mvn'' [''test'']],
                      cmd_build := cmd_build c @ [command_spec_new ''mvn'' [''package'']]\<rparr> else c)
      in if has_manifest ComposerManifest ms
         then c\<lparr>cmd_test := cmd_test c @ [command_spec_new ''composer'' [''test'']]\<rparr> else c)"

subsection \<open>Configured overrides\<close>

definition apply_command_override ::
  "command_spec list \<Rightarrow> string list option \<Rightarrow> harness_error + command_spec list" where
  "apply_command_override target values =
     (case values of
        None \<Rightarrow> Inr target
      | Some [] \<Rightarrow> Inl (InvalidConfig ''command overrides must contain a non-empty program'')
      | Some (p # args) \<Rightarrow>
          if p = [] then Inl (InvalidConfig ''command overrides must contain a non-empty program'')
          else Inr [command_spec_new p args])"

definition command_overrides_apply ::
  "command_overrides \<Rightarrow> project_commands \<Rightarrow> harness_error + project_commands" where
  "command_overrides_apply ov c =
     bind_result (apply_command_override (cmd_test c) (ov_test ov)) (\<lambda>t.
     bind_result (apply_command_override (cmd_build c) (ov_build ov)) (\<lambda>b.
     bind_result (apply_command_override (cmd_format c) (ov_format ov)) (\<lambda>f.
     bind_result (apply_command_override (cmd_lint c) (ov_lint ov)) (\<lambda>l.
     bind_result (apply_command_override (cmd_typecheck c) (ov_typecheck ov)) (\<lambda>y.
       Inr \<lparr>cmd_test = t, cmd_build = b, cmd_format = f, cmd_lint = l, cmd_typecheck = y\<rparr>)))))"

definition load_project_config ::
  "workspace_host \<Rightarrow> path \<Rightarrow> harness_error + project_config_file option" where
  "load_project_config h p =
     (if \<not> is_file (host_disk h) p then Inr None
      else case read_to_string (host_disk h) p of
        Inl err \<Rightarrow> Inl (IoError err)
      | Inr contents \<Rightarrow>
          (case parse_project_config h contents of
             Inl err \<Rightarrow> Inl (InvalidConfig (p @ '': '' @ err))
           | Inr c \<Rightarrow> Inr (Some c)))"

subsection \<open>Instruction files\<close>

type_synonym instruction_source = "path \<times> instruction_kind \<times> nat"

definition append_instruction ::
  "disk \<Rightarrow> workspace_instruction list \<Rightarrow> instruction_source \<Rightarrow>
   harness_error + workspace_instruction list" where
  "append_instruction d acc src =
     (case src of (p, k, prec) \<Rightarrow>
       if is_file d p
       then (case read_to_string d p of
          Inl err \<Rightarrow> Inl (IoError err)
        | Inr c \<Rightarrow> Inr (acc @ [\<lparr>instr_path = p, instr_precedence = prec, instr_content = c,
            instr_kind = k\<rparr>]))
       else Inr acc)"

fun append_instructions ::
  "disk \<Rightarrow> workspace_instruction list \<Rightarrow> instruction_source list \<Rightarrow>
   harness_error + workspace_instruction list" where
  "append_instructions d acc [] = Inr acc"
| "append_instructions d acc (src # srcs) =
     bind_result (append_instruction d acc src) (\<lambda>acc. append_instructions d acc srcs)"

definition local_instruction_names :: "(string \<times> instruction_kind) list" where
  "local_instruction_names =
     [(''.agent/instructions.md'', AgentInstructions), (''CLAUDE.md'', Claude), (''AGENTS.md'', Agents)]"

definition root_instruction_names :: "(string \<times> instruction_kind) list" where
  "root_instruction_names =
     [(''README.md'', Readme), (''CONTRIBUTING.md'', Contributing)] @ local_instruction_names"

text \<open>The directories from the target up to the root, both included.\<close>

fun up_to :: "path \<Rightarrow> path list \<Rightarrow> path list" where
  "up_to root [] = []"
| "up_to root (p # ps) = p # (if same_path p root then [] else up_to root ps)"

definition instruction_precedence :: "nat \<Rightarrow> nat \<Rightarrow> nat" where
  "instruction_precedence depth index = min (min (depth * 8 + 16) 255 + index) 255"

definition directory_sources :: "path \<Rightarrow> nat \<times> path \<Rightarrow> instruction_source list" where
  "directory_sources root entry =
     (case entry of (depth, dir) \<Rightarrow>
       map (\<lambda>(index, (n, k)). (path_join dir n, k, instruction_precedence depth index))
         (List.enumerate 0
           (if same_path dir root then root_instruction_names else local_instruction_names)))"

definition user_instructions_path :: "workspace_host \<Rightarrow> path option" where
  "user_instructions_path h =
     (case env_var h ''COGITO_CONFIG_DIR'' of
        Some dir \<Rightarrow> Some (path_join dir ''AGENTS.md'')
      | None \<Rightarrow>
          (case env_var h ''XDG_CONFIG_HOME'' of
             Some dir \<Rightarrow> Some (path_join (path_join dir ''cogitoai'') ''AGENTS.md'')
           | None \<Rightarrow>
               map_option (\<lambda>home. path_join (path_join (path_join home ''.config'') ''cogitoai'') ''AGENTS.md'')
                 (env_var h ''HOME'')))"

definition io_result :: "string + 'a \<Rightarrow> harness_error + 'a" where
  "io_result r = (case r of Inl err \<Rightarrow> Inl (IoError err) | Inr x \<Rightarrow> Inr x)"

definition discover_instructions_with_global ::
  "workspace_host \<Rightarrow> path \<Rightarrow> path \<Rightarrow> path option \<Rightarrow> harness_error + workspace_instruction list" where
  "discover_instructions_with_global h workspace_root target global =
     bind_result (io_result (canonicalize h workspace_root)) (\<lambda>root.
     bind_result (io_result (canonicalize h
       (if is_absolute target then target else path_join root target))) (\<lambda>target.
       let dir = (if is_dir (host_disk h) target then target
                  else case path_parent target of None \<Rightarrow> root | Some q \<Rightarrow> q)
       in if \<not> path_starts_with dir root
          then Inl (InvalidConfig ''instruction target is outside the workspace'')
          else
            let dirs = rev (up_to root (ancestors dir));
                globals = (case global of None \<Rightarrow> []
                  | Some p \<Rightarrow> if is_file (host_disk h) p then [(p, GlobalAgents, 0)] else [])
            in append_instructions (host_disk h) []
                 (globals @ concat (map (directory_sources root) (List.enumerate 0 dirs)))))"

definition discover_instructions ::
  "workspace_host \<Rightarrow> path \<Rightarrow> path \<Rightarrow> harness_error + workspace_instruction list" where
  "discover_instructions h root target =
     discover_instructions_with_global h root target (user_instructions_path h)"

subsection \<open>Discovery\<close>

definition repository_root_of :: "workspace_host \<Rightarrow> path \<Rightarrow> path option" where
  "repository_root_of h current =
     (case find_git_root h current of
        Some r \<Rightarrow> Some r
      | None \<Rightarrow>
          if git_on_path h
          then Option.bind (run_git_output h current [''rev-parse'', ''--show-toplevel''])
            (\<lambda>v. canonical_path h (trim v))
          else None)"

definition discover_workspace :: "workspace_host \<Rightarrow> path \<Rightarrow> harness_error + workspace_description" where
  "discover_workspace h start =
     bind_result (io_result (canonicalize h start)) (\<lambda>current.
       let repo = repository_root_of h current;
           root = (case repo of Some r \<Rightarrow> r | None \<Rightarrow>
             (case find_project_root h current of Some r \<Rightarrow> r | None \<Rightarrow> current));
           found = collect_files (host_disk h) root;
           langs = detect_languages found;
           ms = detect_manifests found;
           manager = detect_package_manager (host_disk h) root found;
           inferred = infer_commands h langs ms manager;
           config_path = path_join root ''.agent/config.toml''
       in bind_result (load_project_config h config_path) (\<lambda>config.
          bind_result (case config of None \<Rightarrow> Inr inferred
            | Some c \<Rightarrow> command_overrides_apply (overrides c) inferred) (\<lambda>cmds.
          bind_result (discover_instructions h root current) (\<lambda>instrs.
            Inr \<lparr>ws_current_directory = current, ws_repository_root = repo,
              ws_git = describe_git h (git_on_path h) repo, ws_languages = langs,
              ws_manifests = ms, ws_monorepo = detect_monorepo h root ms,
              ws_configuration =
                \<lparr>package_manager_cfg = (case config of None \<Rightarrow> manager
                   | Some c \<Rightarrow> (case file_package_manager c of None \<Rightarrow> manager | Some m \<Rightarrow> Some m)),
                 ws_commands = cmds,
                 cfg_source = (if is_file (host_disk h) config_path then Some config_path else None)\<rparr>,
              ws_instructions = instrs\<rparr>))))"

end
