(* ===== verification/Workspace_Properties.thy ===== *)
theory Workspace_Properties
  imports Workspace_Discovery
begin

section \<open>Workspace discovery: what holds of the walk and of the instructions\<close>

text \<open>
  The walk lists each file below the root, at a bounded depth and outside the skipped
  directories; the instruction files come in the order of their precedence, from the root
  down to the target.
\<close>

subsection \<open>The walk\<close>

text \<open>Directory listings give names, as \<open>read_dir\<close> documents: no separator, no dots.\<close>

definition proper_listings :: "disk \<Rightarrow> bool" where
  "proper_listings d \<longleftrightarrow> (\<forall>p es n k. read_dir d p = Some es \<longrightarrow> (n, k) \<in> set es \<longrightarrow> proper_name n)"

lemma components_join_proper:
  "proper_name n \<Longrightarrow> components (path_join p n) = components p @ [Normal n]"
  by (rule components_join_name) (simp_all add: proper_name_def)

lemma file_name_join: "proper_name n \<Longrightarrow> file_name (path_join p n) = Some n"
  by (simp add: file_name_def components_join_proper)

text \<open>What the stack and the found files have in common: they lie below the root.\<close>

definition below :: "path \<Rightarrow> nat \<Rightarrow> path \<Rightarrow> bool" where
  "below root n p \<longleftrightarrow> (\<exists>names. components p = components root @ map Normal names
     \<and> length names = n \<and> list_all (\<lambda>s. proper_name s \<and> s \<notin> set skipped_names) names)"

definition found_below :: "path \<Rightarrow> path \<Rightarrow> bool" where
  "found_below root p \<longleftrightarrow> (\<exists>dir n name. below root n dir \<and> n \<le> max_scan_depth \<and> proper_name name
     \<and> components p = components dir @ [Normal name])"

lemma below_self [simp]: "below root 0 root"
  by (simp add: below_def)

lemma below_entered:
  assumes "below root n dir" "proper_listings d" "read_dir d dir = Some es"
    "p \<in> set (entered_directories dir es)"
  shows "below root (n + 1) p"
proof -
  from assms(4) obtain name k where p: "(name, k) \<in> set es" "p = path_join dir name"
      "\<not> should_skip_directory p"
    by (auto simp: entered_directories_def)
  with assms(2,3) have name: "proper_name name" by (auto simp: proper_listings_def)
  with p have "name \<notin> set skipped_names" by (simp add: should_skip_directory_def file_name_join)
  moreover from assms(1) obtain names where "components dir = components root @ map Normal names"
      "length names = n" "list_all (\<lambda>s. proper_name s \<and> s \<notin> set skipped_names) names"
    by (auto simp: below_def)
  ultimately show ?thesis
    unfolding below_def using name p(2)
    by (intro exI [of _ "names @ [name]"]) (simp add: components_join_proper)
qed

lemma collect_loop_below:
  assumes "proper_listings d" "\<forall>(p, n) \<in> set pending. below root n p" "\<forall>p \<in> set found. found_below root p"
  shows "\<forall>p \<in> set (collect_loop d pending found). found_below root p"
  using assms
proof (induction d pending found rule: collect_loop.induct)
  case (2 d dir depth rest found)
  show ?case
  proof (cases "max_scan_depth < depth \<or> max_scan_files \<le> length found \<or> read_dir d dir = None")
    case True
    with 2 show ?thesis by (auto split: option.splits)
  next
    case False
    then obtain es where es: "read_dir d dir = Some es" by auto
    let ?pending = "rev (map (\<lambda>p. (p, depth + 1)) (entered_directories dir es)) @ rest"
    let ?found = "found @ listed_files dir es"
    have "\<forall>(p, n) \<in> set ?pending. below root n p"
      using 2(5) below_entered [OF _ 2(4) es] by auto
    moreover have "\<forall>p \<in> set ?found. found_below root p"
    proof
      fix p assume "p \<in> set ?found"
      then consider "p \<in> set found" | name k where "(name, k) \<in> set es" "p = path_join dir name"
        by (auto simp: listed_files_def)
      then show "found_below root p"
      proof cases
        case (2 name k)
        then have "proper_name name" using \<open>proper_listings d\<close> es by (auto simp: proper_listings_def)
        with False 2 \<open>\<forall>(p, n) \<in> set ((dir, depth) # rest). below root n p\<close> show ?thesis
          unfolding found_below_def
          by (intro exI [of _ dir] exI [of _ depth] exI [of _ name])
            (auto simp: components_join_proper)
      qed (use 2(6) in blast)
    qed
    ultimately show ?thesis
      using False es 2(3) [OF _ es scan_entries [symmetric], unfolded atomize_imp] 2(4)
      by (simp add: scan_entries)
  qed
qed simp

text \<open>The walk of a project ends on every disk; it returns sorted paths, and each one is
  a file directly inside a directory that lies at most sixteen levels below the root, with no
  skipped directory (version control, dependencies, build output) in between.\<close>

theorem collected_files_below_root:
  assumes "proper_listings d"
  shows "sorted (map components (collect_files d root)) \<and>
    (\<forall>p \<in> set (collect_files d root). \<exists>names name.
       components p = components root @ map Normal names @ [Normal name] \<and> length names \<le> 16 \<and>
       list_all (\<lambda>s. s \<notin> set skipped_names) names)"
proof (intro conjI ballI)
  fix p assume "p \<in> set (collect_files d root)"
  then have "found_below root p"
    using collect_loop_below [OF assms, of "[(root, 0)]" root "[]"]
    by (simp add: collect_files_def)
  then show "\<exists>names name. components p = components root @ map Normal names @ [Normal name] \<and>
      length names \<le> 16 \<and> list_all (\<lambda>s. s \<notin> set skipped_names) names"
    by (auto simp: found_below_def below_def max_scan_depth_def list_all_iff)
qed (simp add: collect_files_def sorted_sort_paths)

subsection \<open>The order of the instructions\<close>

lemma append_instructions_Inr:
  "append_instructions d acc srcs = Inr is \<Longrightarrow>
   \<exists>ns. is = acc @ ns \<and> list_all2 (\<lambda>(p, k, prec) i. instr_path i = p \<and> instr_kind i = k \<and>
       instr_precedence i = prec \<and> read_to_string d p = Inr (instr_content i))
     (filter (\<lambda>src. is_file d (fst src)) srcs) ns"
proof (induction srcs arbitrary: acc)
  case (Cons src srcs)
  obtain p k prec where src: "src = (p, k, prec)" by (cases src)
  from Cons.prems obtain acc' where step: "append_instruction d acc src = Inr acc'"
    and rest: "append_instructions d acc' srcs = Inr is" by auto
  from Cons.IH [OF rest] obtain ns where ns: "is = acc' @ ns"
    "list_all2 (\<lambda>(p, k, prec) i. instr_path i = p \<and> instr_kind i = k \<and>
       instr_precedence i = prec \<and> read_to_string d p = Inr (instr_content i))
     (filter (\<lambda>src. is_file d (fst src)) srcs) ns" by blast
  show ?case
  proof (cases "is_file d p")
    case True
    with step obtain c where "read_to_string d p = Inr c"
      "acc' = acc @ [\<lparr>instr_path = p, instr_precedence = prec, instr_content = c, instr_kind = k\<rparr>]"
      by (auto simp: append_instruction_def src split: sum.splits)
    with ns True show ?thesis by (simp add: src)
  next
    case False
    with step ns show ?thesis by (simp add: append_instruction_def src)
  qed
qed simp

abbreviation source_precedence :: "instruction_source \<Rightarrow> nat" where
  "source_precedence src \<equiv> snd (snd src)"

definition ranked_before :: "nat \<Rightarrow> nat \<Rightarrow> bool" where
  "ranked_before a b \<longleftrightarrow> a < b \<or> b = 255"

lemma instruction_precedence_mono:
  assumes "m < n \<or> m = n \<and> i < j" "i < 8"
  shows "ranked_before (instruction_precedence m i) (instruction_precedence n j)"
  using assms by (auto simp: ranked_before_def instruction_precedence_def min_def)

lemma directory_sources_in:
  "src \<in> set (directory_sources root (depth, dir)) \<Longrightarrow>
   \<exists>index n k. index < 5 \<and> src = (path_join dir n, k, instruction_precedence depth index) \<and>
     (n, k) \<in> set root_instruction_names"
proof -
  assume src: "src \<in> set (directory_sources root (depth, dir))"
  let ?names = "if same_path dir root then root_instruction_names else local_instruction_names"
  from src obtain index n k where e: "(index, n, k) \<in> set (List.enumerate 0 ?names)"
    "src = (path_join dir n, k, instruction_precedence depth index)"
    by (auto simp: directory_sources_def)
  from e(1) have "index < length ?names" "?names ! index = (n, k)"
    by (auto simp: in_set_enumerate_eq)
  then have "(n, k) \<in> set ?names" by (metis nth_mem)
  moreover have "set ?names \<subseteq> set root_instruction_names" "length ?names \<le> 5"
    by (auto simp: root_instruction_names_def local_instruction_names_def)
  ultimately show ?thesis using e(2) \<open>index < length ?names\<close> by force
qed

lemma directory_sources_ranked:
  "sorted_wrt (\<lambda>a b. ranked_before (source_precedence a) (source_precedence b))
     (directory_sources root (depth, dir))"
  by (simp add: directory_sources_def root_instruction_names_def local_instruction_names_def
      instruction_precedence_mono)

lemma all_sources_ranked:
  "sorted_wrt (\<lambda>a b. ranked_before (source_precedence a) (source_precedence b))
     (concat (map (directory_sources root) (List.enumerate n dirs)))"
proof (induction dirs arbitrary: n)
  case (Cons dir dirs)
  have "ranked_before (source_precedence a) (source_precedence b)"
    if a: "a \<in> set (directory_sources root (n, dir))"
      and b: "b \<in> set (concat (map (directory_sources root) (List.enumerate (Suc n) dirs)))" for a b
  proof -
    from b obtain m d where "(m, d) \<in> set (List.enumerate (Suc n) dirs)"
      "b \<in> set (directory_sources root (m, d))" by auto
    then have "n < m" by (auto simp: in_set_enumerate_eq)
    with directory_sources_in [OF a] directory_sources_in [OF \<open>b \<in> set (directory_sources root (m, d))\<close>]
    show ?thesis by (elim exE conjE) (simp add: instruction_precedence_mono)
  qed
  with Cons.IH [of "Suc n"] directory_sources_ranked [of root n dir] show ?case
    by (simp add: sorted_wrt_append)
qed simp

text \<open>The directories on the way from the root to the target.\<close>

lemma up_to_prefix_list:
  assumes "map components ps = map (\<lambda>n. take n cs) (rev [l ..< Suc m])"
    "components root = take l' cs" "l \<le> l'" "l' \<le> m" "m \<le> length cs"
  shows "map components (up_to root ps) = map (\<lambda>n. take n cs) (rev [l' ..< Suc m])"
  using assms
proof (induction ps arbitrary: m)
  case (Cons p ps)
  then have p: "components p = take m cs" and ps: "map components ps = map (\<lambda>n. take n cs) (rev [l ..< m])"
    by auto
  have same: "same_path p root \<longleftrightarrow> m = l'"
    using Cons.prems p by (auto simp: same_path_def dest: arg_cong [of _ _ length])
  show ?case
  proof (cases "m = l'")
    case True
    then show ?thesis using p same by simp
  next
    case False
    with Cons.prems have "l' \<le> m - 1" "Suc (m - 1) = m" by auto
    with Cons.IH [of "m - 1"] ps Cons.prems False p same show ?thesis by simp
  qed
qed auto

lemma instruction_directories:
  assumes "path_starts_with dir root" "is_absolute root"
  shows "map components (rev (up_to root (ancestors dir))) =
     map (\<lambda>n. take n (components dir)) [length (components root) ..< Suc (length (components dir))]"
proof -
  let ?cs = "components dir" let ?l = "length (components root)"
  from assms(1) have root: "components root = take ?l ?cs" "?l \<le> length ?cs"
    by (auto simp: path_starts_with_def prefix_def)
  from assms(2) have "components root \<noteq> []" "hd (components root) = RootDir"
    by (simp_all add: components_def Let_def)
  then have cs: "?cs \<noteq> []" "hd ?cs = RootDir" and l: "1 \<le> ?l"
    using root by (auto simp: Suc_le_eq)
       (metis hd_take length_greater_0_conv)
  have "map components (ancestors dir) = map (\<lambda>n. take n ?cs) (rev [1 ..< Suc (length ?cs)])"
    using cs by (simp add: components_ancestors proper_prefixes_def Suc_le_eq)
  from up_to_prefix_list [OF this root(1) l root(2) order_refl]
  have "rev (map components (up_to root (ancestors dir))) =
      rev (map (\<lambda>n. take n ?cs) (rev [?l ..< Suc (length ?cs)]))" by (rule arg_cong)
  then show ?thesis by (simp only: rev_map rev_rev_ident)
qed

lemma list_all2_right:
  "list_all2 P xs ys \<Longrightarrow> y \<in> set ys \<Longrightarrow> \<exists>x \<in> set xs. P x y"
  by (induction rule: list_all2_induct) auto

lemma sorted_wrt_list_all2:
  assumes "list_all2 (\<lambda>x y. f x = g y) xs ys" "sorted_wrt (\<lambda>a b. R (f a) (f b)) xs"
  shows "sorted_wrt (\<lambda>a b. R (g a) (g b)) ys"
  using assms
proof (induction rule: list_all2_induct)
  case (Cons x xs y ys)
  then show ?case by (auto dest!: list_all2_right [of _ xs ys])
qed simp

definition source_matches :: "disk \<Rightarrow> instruction_source \<Rightarrow> workspace_instruction \<Rightarrow> bool" where
  "source_matches d = (\<lambda>(p, k, prec) i. instr_path i = p \<and> instr_kind i = k \<and>
     instr_precedence i = prec \<and> read_to_string d p = Inr (instr_content i))"

lemma directory_source_in:
  assumes src: "src \<in> set (concat (map (directory_sources root) (List.enumerate 0 dirs)))"
    and dirs: "map components dirs = map (\<lambda>n. take n cs) [l ..< Suc m]"
  shows "\<exists>dir depth index n k. src = (path_join dir n, k, instruction_precedence depth index) \<and>
     (n, k) \<in> set root_instruction_names \<and> index < 5 \<and> components dir = take (l + depth) cs"
proof -
  from src obtain depth dir where e: "(depth, dir) \<in> set (List.enumerate 0 dirs)"
    "src \<in> set (directory_sources root (depth, dir))" by auto
  then have dir: "depth < length dirs" "dir = dirs ! depth" by (auto simp: in_set_enumerate_eq)
  have "length dirs = length (map (\<lambda>n. take n cs) [l ..< Suc m])"
    using arg_cong [OF dirs, of length] by (simp only: length_map)
  then have "depth < length [l ..< Suc m]" using dir by (simp only: length_map)
  then have "map (\<lambda>n. take n cs) [l ..< Suc m] ! depth = take (l + depth) cs"
    by (simp only: nth_map length_upt nth_upt)
  moreover have "components dir = map components dirs ! depth" using dir by simp
  ultimately have "components dir = take (l + depth) cs" by (simp only: dirs)
  with directory_sources_in [OF e(2)] show ?thesis by blast
qed

text \<open>The instruction files of a target come in strictly increasing precedence, until the
  byte that holds it saturates at 255: the user's own file first, then the files of the
  workspace root and of each directory down to the target, each with the content of its file.\<close>

theorem instructions_parent_to_child:
  assumes run: "discover_instructions_with_global h wr target global = Inr is"
    and canon: "\<And>p q. canonicalize h p = Inr q \<Longrightarrow> is_absolute q"
  shows "sorted_wrt (\<lambda>i j. instr_precedence i < instr_precedence j \<or> instr_precedence j = 255) is \<and>
    (\<exists>root dir. canonicalize h wr = Inr root \<and> path_starts_with dir root \<and> (\<forall>i \<in> set is.
       read_to_string (host_disk h) (instr_path i) = Inr (instr_content i) \<and>
       (instr_kind i = GlobalAgents \<and> Some (instr_path i) = global \<or>
        (\<exists>d depth index n. (n, instr_kind i) \<in> set root_instruction_names \<and>
           instr_path i = path_join d n \<and>
           components d = take (length (components root) + depth) (components dir) \<and>
           instr_precedence i = instruction_precedence depth index \<and> index < 5))))"
proof -
  from run obtain root dir where root: "canonicalize h wr = Inr root" "path_starts_with dir root"
    and ok: "append_instructions (host_disk h) [] ((case global of None \<Rightarrow> []
        | Some p \<Rightarrow> if is_file (host_disk h) p then [(p, GlobalAgents, 0)] else []) @
        concat (map (directory_sources root) (List.enumerate 0 (rev (up_to root (ancestors dir)))))) = Inr is"
    by (auto simp: discover_instructions_with_global_def io_result_def Let_def
        split: sum.splits if_splits)
  let ?gs = "case global of None \<Rightarrow> []
      | Some p \<Rightarrow> if is_file (host_disk h) p then [(p, GlobalAgents, 0)] else []"
  let ?ds = "concat (map (directory_sources root) (List.enumerate 0 (rev (up_to root (ancestors dir)))))"
  let ?srcs = "filter (\<lambda>src. is_file (host_disk h) (fst src)) (?gs @ ?ds)"
  have matches: "list_all2 (source_matches (host_disk h)) ?srcs is"
    using append_instructions_Inr [OF ok] unfolding source_matches_def by simp
  have inner: "\<exists>d depth index n k. src = (path_join d n, k, instruction_precedence depth index) \<and>
      (n, k) \<in> set root_instruction_names \<and> index < 5 \<and>
      components d = take (length (components root) + depth) (components dir)" if "src \<in> set ?ds" for src
    using directory_source_in [OF that instruction_directories] root canon by blast
  have "sorted_wrt (\<lambda>a b. ranked_before (source_precedence a) (source_precedence b)) (?gs @ ?ds)"
    using all_sources_ranked [of root 0] inner
    by (fastforce simp: sorted_wrt_append ranked_before_def instruction_precedence_def
        split: option.splits)
  then have "sorted_wrt (\<lambda>a b. ranked_before (source_precedence a) (source_precedence b)) ?srcs"
    by (rule sorted_wrt_filter)
  moreover have "list_all2 (\<lambda>src i. source_precedence src = instr_precedence i) ?srcs is"
    using matches by (rule list_all2_mono) (auto simp: source_matches_def)
  ultimately have "sorted_wrt (\<lambda>i j. ranked_before (instr_precedence i) (instr_precedence j)) is"
    by (rule sorted_wrt_list_all2 [rotated])
  moreover have "read_to_string (host_disk h) (instr_path i) = Inr (instr_content i) \<and>
       (instr_kind i = GlobalAgents \<and> Some (instr_path i) = global \<or>
        (\<exists>d depth index n. (n, instr_kind i) \<in> set root_instruction_names \<and>
           instr_path i = path_join d n \<and>
           components d = take (length (components root) + depth) (components dir) \<and>
           instr_precedence i = instruction_precedence depth index \<and> index < 5))" if "i \<in> set is" for i
  proof -
    from list_all2_right [OF matches that] obtain src where
      src: "src \<in> set ?srcs" "source_matches (host_disk h) src i" by blast
    from src(1) have "src \<in> set ?gs \<or> src \<in> set ?ds"
      by (simp only: set_filter set_append) blast
    then show ?thesis
    proof
      assume "src \<in> set ?gs"
      with src(2) show ?thesis by (auto simp: source_matches_def split: option.splits if_splits)
    next
      assume "src \<in> set ?ds"
      from inner [OF this] src(2) show ?thesis by (auto simp: source_matches_def)
    qed
  qed
  ultimately show ?thesis using root unfolding ranked_before_def by blast
qed

subsection \<open>Witnesses\<close>

definition sample_disk :: disk where
  "sample_disk cs =
     (if cs = [RootDir, Normal ''w'']
      then Some (DirNode [(''README.md'', EntryFile), (''AGENTS.md'', EntryFile)])
      else if cs = [RootDir, Normal ''w'', Normal ''README.md''] then Some (FileNode ''about'')
      else if cs = [RootDir, Normal ''w'', Normal ''AGENTS.md''] then Some (FileNode ''rules'')
      else None)"

definition sample_host :: workspace_host where
  "sample_host =
     \<lparr>host_disk = sample_disk, canonicalize = (\<lambda>p. if is_absolute p then Inr p else Inl []),
      git_on_path = False, git_process = (\<lambda>_ _. None), search_path = None, env_var = (\<lambda>_. None),
      parse_json = (\<lambda>_. None), parse_project_config = (\<lambda>_. Inl [])\<rparr>"

lemma sample_components:
  "components ''/w'' = [RootDir, Normal ''w'']"
  "components ''/w/AGENTS.md'' = [RootDir, Normal ''w'', Normal ''AGENTS.md'']"
  "components ''/w/README.md'' = [RootDir, Normal ''w'', Normal ''README.md'']"
  "components ''/w/CLAUDE.md'' = [RootDir, Normal ''w'', Normal ''CLAUDE.md'']"
  "components ''/w/CONTRIBUTING.md'' = [RootDir, Normal ''w'', Normal ''CONTRIBUTING.md'']"
  "components ''/w/.agent/instructions.md'' =
     [RootDir, Normal ''w'', Normal ''.agent'', Normal ''instructions.md'']"
  by code_simp+

lemma sample_sources:
  "concat (map (directory_sources ''/w'') (List.enumerate 0 (rev (up_to ''/w'' (ancestors ''/w''))))) =
     [(''/w/README.md'', Readme, 16), (''/w/CONTRIBUTING.md'', Contributing, 17),
      (''/w/.agent/instructions.md'', AgentInstructions, 18), (''/w/CLAUDE.md'', Claude, 19),
      (''/w/AGENTS.md'', Agents, 20)]"
  by code_simp

lemma sample_instructions:
  "discover_instructions_with_global sample_host ''/w'' ''/w'' None =
     Inr [\<lparr>instr_path = ''/w/README.md'', instr_precedence = 16, instr_content = ''about'',
       instr_kind = Readme\<rparr>,
      \<lparr>instr_path = ''/w/AGENTS.md'', instr_precedence = 20, instr_content = ''rules'',
       instr_kind = Agents\<rparr>]"
proof -
  have "is_absolute ''/w''" "path_starts_with ''/w'' ''/w''" "valid_utf8 ''rules''"
    "valid_utf8 ''about''" by code_simp+
  then show ?thesis
    using sample_sources
    by (simp add: discover_instructions_with_global_def sample_host_def io_result_def Let_def
        is_dir_def is_file_def node_at_def sample_disk_def sample_components append_instruction_def
        read_to_string_def)
qed

theorem instructions_parent_to_child_witness:
  "sorted_wrt (\<lambda>i j. instr_precedence i < instr_precedence j \<or> instr_precedence j = 255)
     [\<lparr>instr_path = ''/w/README.md'', instr_precedence = 16, instr_content = ''about'',
       instr_kind = Readme\<rparr>,
      \<lparr>instr_path = ''/w/AGENTS.md'', instr_precedence = 20, instr_content = ''rules'',
       instr_kind = Agents\<rparr>]"
proof (rule instructions_parent_to_child [OF sample_instructions, THEN conjunct1])
  show "is_absolute q" if "canonicalize sample_host p = Inr q" for p q
    using that by (simp add: sample_host_def split: if_splits)
qed

theorem collected_files_below_root_witness:
  "sorted (map components (collect_files sample_disk ''/w'')) \<and>
   collect_files sample_disk ''/w'' = [''/w/AGENTS.md'', ''/w/README.md'']"
proof
  have "proper_name ''AGENTS.md''" "proper_name ''README.md''" by code_simp+
  then have "proper_listings sample_disk"
    by (auto simp: proper_listings_def read_dir_def node_at_def sample_disk_def
        split: if_splits option.splits node.splits)
  from collected_files_below_root [OF this]
  show "sorted (map components (collect_files sample_disk ''/w''))" by blast
  have "read_dir sample_disk ''/w'' = Some [(''README.md'', EntryFile), (''AGENTS.md'', EntryFile)]"
    by (simp add: read_dir_def node_at_def sample_components sample_disk_def)
  moreover have "path_join ''/w'' ''AGENTS.md'' = ''/w/AGENTS.md''"
    "path_join ''/w'' ''README.md'' = ''/w/README.md''" by code_simp+
  moreover have "sort_paths [''/w/README.md'', ''/w/AGENTS.md''] = [''/w/AGENTS.md'', ''/w/README.md'']"
    by code_simp
  ultimately show "collect_files sample_disk ''/w'' = [''/w/AGENTS.md'', ''/w/README.md'']"
    by (simp add: collect_files_def max_scan_depth_def max_scan_files_def)
qed

end
