(* ===== verification/Verification.thy ===== *)
theory Verification
  imports Workspace_Discovery
begin

section \<open>harness-verification: planning the checks\<close>

text \<open>
  \<open>harness-verification/src/lib.rs\<close>. \<open>VerificationPlanner\<close> turns the commands of a workspace
  and the instructions of its \<open>AGENTS.md\<close> into a list of steps, and narrows them to the files
  that changed. The host gives the snapshot of the disk and the parsers of JSON and TOML,
  which are not part of the repository; a TOML value is a string, a table or something else.
\<close>

subsection \<open>Data\<close>

datatype toml = TString string | TTable "(string \<times> toml) list" | TOther string

record verification_host =
  vh_disk :: disk
  vh_json :: "string \<Rightarrow> json option"
  vh_toml :: "string \<Rightarrow> toml option"

definition toml_get :: "string \<Rightarrow> toml \<Rightarrow> toml option" where
  "toml_get k v = (case v of TTable kvs \<Rightarrow> map_of kvs k | _ \<Rightarrow> None)"

datatype verification_category =
  Formatter | Lint | Typecheck | Build | TargetedTest | GeneralTest | GitDiff

record verification_step =
  step_category :: verification_category
  step_command :: command_spec
  step_source :: string

type_synonym verification_plan = "verification_step list"

fun category_priority :: "verification_category \<Rightarrow> nat" where
  "category_priority Formatter = 0"
| "category_priority TargetedTest = 1"
| "category_priority Typecheck = 2"
| "category_priority Lint = 3"
| "category_priority Build = 4"
| "category_priority GeneralTest = 5"
| "category_priority GitDiff = 6"

definition add_steps ::
  "verification_category \<Rightarrow> string \<Rightarrow> command_spec list \<Rightarrow> verification_plan" where
  "add_steps cat src cmds =
     map (\<lambda>c. \<lparr>step_category = cat, step_command = c, step_source = src\<rparr>) cmds"

subsection \<open>Parsing a command line\<close>

text \<open>The words so far, the word being read, the open quote and whether a backslash is open.\<close>

type_synonym command_state = "string list \<times> string \<times> string option \<times> bool"

abbreviation backslash_char :: string where "backslash_char \<equiv> [CHR 0x5C]"
abbreviation single_quote :: string where "single_quote \<equiv> [CHR 0x27]"
abbreviation double_quote :: string where "double_quote \<equiv> [CHR 0x22]"

fun command_char :: "command_state \<Rightarrow> string \<Rightarrow> command_state" where
  "command_char (ws, w, q, escaped) ch =
     (if escaped then (ws, w @ ch, q, False)
      else if ch = backslash_char \<and> q \<noteq> Some single_quote then (ws, w, q, True)
      else case q of
        Some current \<Rightarrow> if ch = current then (ws, w, None, False) else (ws, w @ ch, q, False)
      | None \<Rightarrow>
          if ch = single_quote \<or> ch = double_quote then (ws, w, Some ch, False)
          else if is_white_space ch
          then (if w \<noteq> [] then (ws @ [w], [], None, False) else (ws, w, None, False))
          else (ws, w @ ch, None, False))"

definition parse_command :: "string \<Rightarrow> command_spec option" where
  "parse_command s =
     (case foldl command_char ([], [], None, False) (utf8_chars s) of
        (ws, w, q, escaped) \<Rightarrow>
          if escaped \<or> q \<noteq> None then None
          else case (if w \<noteq> [] then ws @ [w] else ws) of
            [] \<Rightarrow> None
          | p # args \<Rightarrow> if p \<noteq> [] then Some (command_spec_new p args) else None)"

definition format_command :: "command_spec \<Rightarrow> string" where
  "format_command c = join '' '' (cs_program c # cs_args c)"

subsection \<open>Instructions for validation\<close>

record validation_instructions =
  vi_commands :: "string \<Rightarrow> command_spec list"
  targeted_tests :: "command_spec list"

definition no_instructions :: validation_instructions where
  "no_instructions = \<lparr>vi_commands = (\<lambda>_. []), targeted_tests = []\<rparr>"

definition push_command ::
  "string \<Rightarrow> command_spec \<Rightarrow> validation_instructions \<Rightarrow> validation_instructions" where
  "push_command k c vi = vi\<lparr>vi_commands := (vi_commands vi)(k := vi_commands vi k @ [c])\<rparr>"

definition add_labelled ::
  "string \<Rightarrow> command_spec \<Rightarrow> validation_instructions \<Rightarrow> validation_instructions" where
  "add_labelled label c vi =
     (if label \<in> {''format'', ''formatter''} then push_command ''format'' c vi
      else if label = ''lint'' then push_command ''lint'' c vi
      else if label \<in> {''typecheck'', ''type-check'', ''typechecker''}
        then push_command ''typecheck'' c vi
      else if label \<in> {''build'', ''compile''} then push_command ''build'' c vi
      else if label \<in> {''test'', ''tests''} then push_command ''test'' c vi
      else if label \<in> {''targeted-test'', ''targeted-tests''}
        then vi\<lparr>targeted_tests := targeted_tests vi @ [c]\<rparr>
      else vi)"

definition is_validation_heading :: "string \<Rightarrow> bool" where
  "is_validation_heading heading =
     list_ex (\<lambda>n. heading = n \<or> starts_with heading (n @ '' ''))
       [''verification'', ''validation'', ''testing'']"

definition validation_line ::
  "bool \<times> validation_instructions \<Rightarrow> string \<Rightarrow> bool \<times> validation_instructions" where
  "validation_line st l =
     (let (in_section, vi) = st; trimmed = trim l in
      if starts_with trimmed ''#''
      then (is_validation_heading (to_ascii_lowercase (trim (trim_start_chars ''#'' trimmed))), vi)
      else if \<not> in_section then (in_section, vi)
      else case split_once '':'' (trim (trim_start_chars ''-*+ '' trimmed)) of
        None \<Rightarrow> (in_section, vi)
      | Some (label, v) \<Rightarrow>
          let label = replace_char (CHR '' '') (CHR ''-'') (to_ascii_lowercase (trim label));
              command_text = trim (trim_end_chars ''`'' (trim_start_chars ''`'' (trim v)))
          in case parse_command command_text of
               None \<Rightarrow> (in_section, vi)
             | Some c \<Rightarrow> (in_section, add_labelled label c vi))"

definition validation_instructions_of :: "workspace_instruction list \<Rightarrow> validation_instructions" where
  "validation_instructions_of instrs =
     foldl (\<lambda>vi i. snd (foldl validation_line (False, vi) (str_lines (instr_content i))))
       no_instructions instrs"

definition configured_categories :: "verification_host \<Rightarrow> workspace_description \<Rightarrow> string set" where
  "configured_categories h w =
     (case cfg_source (ws_configuration w) of None \<Rightarrow> {}
      | Some p \<Rightarrow> (case read_to_string (vh_disk h) p of Inl _ \<Rightarrow> {}
          | Inr contents \<Rightarrow> (case Option.bind (vh_toml h contents) (toml_get ''commands'') of
               Some (TTable kvs) \<Rightarrow> set (map fst kvs) | _ \<Rightarrow> {})))"

definition select_commands ::
  "string \<Rightarrow> command_spec list \<Rightarrow> validation_instructions \<Rightarrow> string set \<Rightarrow> command_spec list" where
  "select_commands cat discovered vi configured =
     (if cat \<in> configured then discovered
      else if vi_commands vi cat \<noteq> [] then vi_commands vi cat
      else discovered)"

definition git_diff_command :: command_spec where
  "git_diff_command = command_spec_new ''git'' [''diff'', ''--no-ext-diff'', ''--no-color'']"

definition planner_all :: "verification_host \<Rightarrow> workspace_description \<Rightarrow> verification_plan" where
  "planner_all h w =
     (let vi = validation_instructions_of (ws_instructions w);
          configured = configured_categories h w;
          cmds = ws_commands (ws_configuration w);
          discovered = (\<lambda>cat key found. add_steps cat ''workspace-discovery''
            (select_commands key found vi configured));
          checks = discovered Formatter ''format'' (cmd_format cmds)
            @ discovered Typecheck ''typecheck'' (cmd_typecheck cmds)
            @ discovered Lint ''lint'' (cmd_lint cmds)
            @ discovered Build ''build'' (cmd_build cmds);
          tests = (if targeted_tests vi \<noteq> [] \<and> ''test'' \<notin> configured
            then add_steps TargetedTest ''AGENTS targeted-test'' (targeted_tests vi)
            else discovered GeneralTest ''test'' (cmd_test cmds));
          diff = (if git_is_available (ws_git w) \<and> ws_repository_root w \<noteq> None
            then [\<lparr>step_category = GitDiff, step_command = git_diff_command,
                   step_source = ''final-git-diff''\<rparr>] else [])
      in checks @ tests @ diff)"

end
