(* ===== verification/Verification_Targets.thy ===== *)
theory Verification_Targets
  imports Verification
begin

section \<open>harness-verification: narrowing the plan to the changed files\<close>

text \<open>
  The package, test file or directory a command can be narrowed to, found by walking from
  each changed file up to the root, and \<open>after_changes\<close>, which rewrites the plan and sorts
  it by cost.
\<close>

subsection \<open>Names\<close>

definition program_name :: "string \<Rightarrow> string" where
  "program_name p =
     strip_back [''.exe''] (last (split_on (\<lambda>c. c = slash \<or> c = CHR 0x5C) p))"

definition changed_test_target :: "path \<Rightarrow> string option" where
  "changed_test_target p =
     (let parts = path_pieces (forward_slashes p)
      in if ''tests'' \<notin> set parts then None
         else let relative = rev (takeWhile (\<lambda>s. s \<noteq> ''tests'') (rev parts))
              in if length relative = 1 then file_stem (hd relative) else None)"

definition is_test_path :: "path \<Rightarrow> bool" where
  "is_test_path p =
     (let name = to_ascii_lowercase (case file_name p of None \<Rightarrow> [] | Some n \<Rightarrow> n)
      in starts_with name ''test_''
         \<or> list_ex (ends_with name) [''_test.rs'', ''_test.go'', ''.test.js'', ''.test.jsx'',
              ''.test.ts'', ''.test.tsx'', ''.spec.js'', ''.spec.ts'']
         \<or> list_ex (\<lambda>c. c = Normal ''tests'' \<or> c = Normal ''__tests__'') (components p))"

text \<open>The directories a search visits: from a directory up, as long as they lie in the root.\<close>

definition search_directories :: "path \<Rightarrow> path \<Rightarrow> path list" where
  "search_directories root dir = takeWhile (\<lambda>p. path_starts_with p root) (ancestors dir)"

definition relative_text :: "path \<Rightarrow> path \<Rightarrow> string option" where
  "relative_text root p = map_option forward_slashes (path_strip_prefix root p)"

subsection \<open>Cargo\<close>

definition package_name_at :: "verification_host \<Rightarrow> path \<Rightarrow> string option" where
  "package_name_at h dir =
     (case read_to_string (vh_disk h) (path_join dir ''Cargo.toml'') of
        Inl _ \<Rightarrow> None
      | Inr contents \<Rightarrow>
          (case Option.bind (Option.bind (vh_toml h contents) (toml_get ''package'')) (toml_get ''name'') of
             Some (TString n) \<Rightarrow> Some n | _ \<Rightarrow> None))"

definition cargo_package :: "verification_host \<Rightarrow> path \<Rightarrow> path \<Rightarrow> (string \<times> string option) option" where
  "cargo_package h root changed =
     (let p = absolute_path root changed in
      case (if is_dir (vh_disk h) p then Some p else path_parent p) of
        None \<Rightarrow> None
      | Some dir \<Rightarrow>
          (case List.map_filter (package_name_at h) (search_directories root dir) of
             [] \<Rightarrow> None | n # _ \<Rightarrow> Some (n, changed_test_target changed)))"

fun cargo_target_from ::
  "verification_host \<Rightarrow> path \<Rightarrow> (string \<times> string option) option \<Rightarrow> path list \<Rightarrow>
   (string \<times> string option) option" where
  "cargo_target_from h root found [] = found"
| "cargo_target_from h root found (changed # rest) =
     (case cargo_package h root changed of
        None \<Rightarrow> None
      | Some candidate \<Rightarrow>
          (case found of
             None \<Rightarrow> cargo_target_from h root (Some candidate) rest
           | Some (package, test) \<Rightarrow>
               if package \<noteq> fst candidate then None
               else if test \<noteq> snd candidate then cargo_target_from h root (Some (package, None)) rest
               else cargo_target_from h root found rest))"

definition cargo_target :: "verification_host \<Rightarrow> path \<Rightarrow> path list \<Rightarrow> (string \<times> string option) option" where
  "cargo_target h root changed = cargo_target_from h root None changed"

definition narrow_cargo_command ::
  "verification_host \<Rightarrow> command_spec \<Rightarrow> path \<Rightarrow> path list \<Rightarrow> command_spec option" where
  "narrow_cargo_command h c root changed =
     (if \<not> eq_ignore_ascii_case (program_name (cs_program c)) ''cargo'' \<or> changed = [] then None
      else case cargo_target h root changed of
        None \<Rightarrow> None
      | Some (package, _) \<Rightarrow>
          (case cs_args c of
             [] \<Rightarrow> None
           | subcommand # flags \<Rightarrow>
               Some (command_spec_new (cs_program c) ([subcommand, ''--package'', package]
                 @ filter (\<lambda>a. a \<noteq> ''--workspace'' \<and> a \<noteq> ''--all'') flags))))"

subsection \<open>Go, Python and Node\<close>

fun go_directories :: "verification_host \<Rightarrow> path \<Rightarrow> path list \<Rightarrow> string list option" where
  "go_directories h root [] = Some []"
| "go_directories h root (changed # rest) =
     (case path_parent (absolute_path root changed) of
        None \<Rightarrow> None
      | Some dir \<Rightarrow>
          (case read_dir (vh_disk h) dir of
             None \<Rightarrow> None
           | Some es \<Rightarrow>
               if \<not> list_ex (\<lambda>(n, _). ends_with n ''_test.go'') es then None
               else case relative_text root dir of
                 None \<Rightarrow> None
               | Some relative \<Rightarrow>
                   map_option (Cons (if relative = [] then ''./'' else ''./'' @ relative))
                     (go_directories h root rest)))"

definition go_target :: "verification_host \<Rightarrow> path \<Rightarrow> path list \<Rightarrow> string option" where
  "go_target h root changed =
     (case go_directories h root changed of
        None \<Rightarrow> None
      | Some dirs \<Rightarrow> (case ordered_set dirs of [d] \<Rightarrow> Some d | _ \<Rightarrow> None))"

definition test_candidates :: "path \<Rightarrow> path \<Rightarrow> string \<Rightarrow> string \<Rightarrow> path list" where
  "test_candidates root absolute stem ext =
     (let parent = (case path_parent absolute of None \<Rightarrow> root | Some p \<Rightarrow> p);
          dot_test = stem @ ''.test.'' @ ext
      in [with_file_name absolute dot_test,
          with_file_name absolute (stem @ ''.spec.'' @ ext),
          with_file_name absolute (stem @ ''_test.'' @ ext),
          with_file_name absolute (''test_'' @ stem @ ''.'' @ ext),
          path_join (path_join parent ''tests'') dot_test,
          path_join (path_join root ''tests'') dot_test,
          path_join (path_join root ''__tests__'') dot_test]
         @ (if ext = ''py''
            then [path_join (path_join root ''tests'') (''test_'' @ stem @ ''.py''),
                  path_join (path_join parent ''tests'') (''test_'' @ stem @ ''.py'')]
            else []))"

definition related_tests_of :: "verification_host \<Rightarrow> path \<Rightarrow> string list \<Rightarrow> path \<Rightarrow> string list" where
  "related_tests_of h root exts changed =
     (let absolute = absolute_path root changed in
      if is_test_path absolute
      then (case relative_text root absolute of None \<Rightarrow> [] | Some r \<Rightarrow> [r])
      else case file_stem absolute of
        None \<Rightarrow> []
      | Some stem \<Rightarrow>
          List.map_filter (relative_text root)
            (filter (is_file (vh_disk h)) (concat (map (test_candidates root absolute stem) exts))))"

definition related_test_paths :: "verification_host \<Rightarrow> path \<Rightarrow> path list \<Rightarrow> string list \<Rightarrow> string list" where
  "related_test_paths h root changed exts =
     ordered_set (concat (map (related_tests_of h root exts) changed))"

definition node_extensions :: "string list" where
  "node_extensions = [''js'', ''jsx'', ''ts'', ''tsx'', ''mjs'', ''cjs'']"

text \<open>
  The search for a package with a test script: a directory without \<open>package.json\<close> or
  without the script is passed, an unreadable JSON ends the whole narrowing.
\<close>

fun find_test_package :: "verification_host \<Rightarrow> path list \<Rightarrow> path option" where
  "find_test_package h [] = None"
| "find_test_package h (dir # dirs) =
     (case read_to_string (vh_disk h) (path_join dir ''package.json'') of
        Inl _ \<Rightarrow> find_test_package h dirs
      | Inr contents \<Rightarrow>
          (case vh_json h contents of
             None \<Rightarrow> None
           | Some v \<Rightarrow>
               (case json_get ''scripts'' v of
                  Some (JObject scripts) \<Rightarrow>
                    (case map_of scripts ''test'' of
                       Some (JString _) \<Rightarrow> Some dir
                     | _ \<Rightarrow> find_test_package h dirs)
                | _ \<Rightarrow> find_test_package h dirs)))"

fun common_test_package ::
  "verification_host \<Rightarrow> path \<Rightarrow> path option \<Rightarrow> path list \<Rightarrow> path option" where
  "common_test_package h root package [] = package"
| "common_test_package h root package (changed # rest) =
     (case path_parent (absolute_path root changed) of
        None \<Rightarrow> None
      | Some dir \<Rightarrow>
          (case find_test_package h (search_directories root dir) of
             None \<Rightarrow> None
           | Some found \<Rightarrow>
               if (case package of None \<Rightarrow> False | Some existing \<Rightarrow> \<not> same_path existing found) then None
               else common_test_package h root (Some found) rest))"

definition node_runner_args :: "string \<Rightarrow> string \<Rightarrow> string list option" where
  "node_runner_args manager relative =
     (if manager = ''pnpm'' then Some [''--dir'', relative, ''run'', ''test'']
      else if manager = ''npm'' then Some [''--prefix'', relative, ''run'', ''test'']
      else if manager = ''yarn'' then Some [''--cwd'', relative, ''test'']
      else if manager = ''bun'' then Some [''--cwd'', relative, ''run'', ''test'']
      else None)"

definition node_package_test_command ::
  "verification_host \<Rightarrow> string \<Rightarrow> path \<Rightarrow> path list \<Rightarrow> command_spec option" where
  "node_package_test_command h manager root changed =
     (case common_test_package h root None changed of
        None \<Rightarrow> None
      | Some dir \<Rightarrow>
          (case relative_text root dir of
             None \<Rightarrow> None
           | Some relative \<Rightarrow>
               let relative = (if relative = [] then ''.'' else relative);
                   tests = List.map_filter (\<lambda>p. relative_text dir (path_join root p))
                     (related_test_paths h root changed node_extensions)
               in map_option (\<lambda>args. command_spec_new manager
                      (args @ (if tests \<noteq> [] then ''--'' # tests else [])))
                    (node_runner_args manager relative)))"

fun has_module_pytest :: "string list \<Rightarrow> bool" where
  "has_module_pytest (a # b # rest) \<longleftrightarrow> (a = ''-m'' \<and> b = ''pytest'') \<or> has_module_pytest (b # rest)"
| "has_module_pytest _ \<longleftrightarrow> False"

definition cargo_test_command :: "verification_host \<Rightarrow> path \<Rightarrow> path list \<Rightarrow> command_spec option" where
  "cargo_test_command h root changed =
     map_option (\<lambda>(package, test). command_spec_new ''cargo'' ([''test'', ''--package'', package]
       @ (case test of None \<Rightarrow> [] | Some t \<Rightarrow> [''--test'', t]))) (cargo_target h root changed)"

definition pytest_command ::
  "verification_host \<Rightarrow> string \<Rightarrow> string list \<Rightarrow> path \<Rightarrow> path list \<Rightarrow> command_spec option" where
  "pytest_command h program args root changed =
     (case related_test_paths h root changed [''py''] of
        [] \<Rightarrow> None
      | tests \<Rightarrow>
          let program = (if program = ''pytest'' then ''pytest'' else ''python'')
          in Some (command_spec_new program (filter (\<lambda>a. a \<noteq> ''-m'' \<and> a \<noteq> ''pytest'') args
               @ (if program = ''python'' then [''-m'', ''pytest''] else []) @ tests)))"

definition node_test_command ::
  "verification_host \<Rightarrow> command_spec \<Rightarrow> string \<Rightarrow> path \<Rightarrow> path list \<Rightarrow> command_spec option" where
  "node_test_command h c program root changed =
     (case node_package_test_command h program root changed of
        Some target \<Rightarrow> Some target
      | None \<Rightarrow>
          (case related_test_paths h root changed node_extensions of
             [] \<Rightarrow> None
           | tests \<Rightarrow> Some (command_spec_new (cs_program c)
               (cs_args c @ (if ''--'' \<in> set (cs_args c) then [] else [''--'']) @ tests))))"

fun first_some :: "'a option list \<Rightarrow> 'a option" where
  "first_some [] = None"
| "first_some (None # xs) = first_some xs"
| "first_some (Some x # xs) = Some x"

definition target_test_command ::
  "verification_host \<Rightarrow> command_spec \<Rightarrow> path \<Rightarrow> path list \<Rightarrow> command_spec option" where
  "target_test_command h c root changed =
     (if changed = [] then None
      else let program = to_ascii_lowercase (program_name (cs_program c));
               args = map to_ascii_lowercase (cs_args c)
      in first_some
        [if program = ''cargo'' \<and> ''test'' \<in> set args then cargo_test_command h root changed else None,
         if program = ''go'' \<and> ''test'' \<in> set args
         then map_option (\<lambda>d. command_spec_new ''go'' [''test'', d]) (go_target h root changed) else None,
         if program = ''pytest'' \<or> program = ''python'' \<and> has_module_pytest args
         then pytest_command h program (cs_args c) root changed else None,
         if program \<in> {''npm'', ''pnpm'', ''yarn'', ''bun''} \<and> (''test'' \<in> set args \<or> ''run'' \<in> set args)
         then node_test_command h c program root changed else None])"

subsection \<open>Rewriting the plan\<close>

definition changed_values :: "path \<Rightarrow> path list \<Rightarrow> string list" where
  "changed_values root changed =
     map (\<lambda>p. forward_slashes (case path_strip_prefix root p of None \<Rightarrow> p | Some q \<Rightarrow> q)) changed"

fun substitute_argument :: "string list \<Rightarrow> string list \<times> bool \<Rightarrow> string \<Rightarrow> string list \<times> bool" where
  "substitute_argument vs (args, replaced) a =
     (if str_contains a ''{changed_files}'' then (args @ vs, True)
      else if str_contains a ''{changed_file}'' then (args @ take 1 vs, True)
      else (args @ [a], replaced))"

definition substitute_changed_files :: "command_spec \<Rightarrow> path \<Rightarrow> path list \<Rightarrow> command_spec" where
  "substitute_changed_files c root changed =
     (let vs = changed_values root changed;
          (args, replaced) = foldl (substitute_argument vs) ([], False) (cs_args c)
      in command_spec_new (cs_program c)
           (if \<not> replaced \<and> vs \<noteq> []
            then args @ (if ''--'' \<in> set args then [] else [''--'']) @ vs
            else args))"

definition narrow_step ::
  "verification_host \<Rightarrow> path \<Rightarrow> path list \<Rightarrow> verification_step \<Rightarrow> verification_step" where
  "narrow_step h root changed s =
     (if step_category s = TargetedTest \<and> step_source s = ''AGENTS targeted-test''
      then s\<lparr>step_command := substitute_changed_files (step_command s) root changed\<rparr>
      else if step_category s \<in> {GeneralTest, TargetedTest}
      then (case target_test_command h (step_command s) root changed of
              Some c \<Rightarrow> \<lparr>step_category = TargetedTest, step_command = c,
                step_source = ''targeted-by-changed-files''\<rparr>
            | None \<Rightarrow> \<lparr>step_category = GeneralTest, step_command = step_command s,
                step_source = ''full-test-fallback''\<rparr>)
      else case narrow_cargo_command h (step_command s) root changed of
        Some c \<Rightarrow> s\<lparr>step_command := c, step_source := ''targeted-by-changed-package''\<rparr>
      | None \<Rightarrow> s)"

definition git_root_from :: "disk \<Rightarrow> path \<Rightarrow> path option" where
  "git_root_from d start = find (\<lambda>p. path_exists d (path_join p ''.git'')) (ancestors start)"

definition after_changes ::
  "verification_host \<Rightarrow> verification_plan \<Rightarrow> path \<Rightarrow> path list \<Rightarrow> verification_plan" where
  "after_changes h plan root changed =
     (let steps = map (narrow_step h root changed) plan;
          steps = (if \<not> list_ex (\<lambda>s. step_category s = GitDiff) steps
                     \<and> git_root_from (vh_disk h) root \<noteq> None
            then steps @ [\<lparr>step_category = GitDiff, step_command = git_diff_command,
              step_source = ''required-final-diff-inspection''\<rparr>] else steps)
      in sort_key (category_priority \<circ> step_category) steps)"

definition for_changes ::
  "verification_host \<Rightarrow> workspace_description \<Rightarrow> path list \<Rightarrow> verification_plan" where
  "for_changes h w changed =
     after_changes h (planner_all h w)
       (case ws_repository_root w of None \<Rightarrow> ws_current_directory w | Some r \<Rightarrow> r) changed"

end
