(* ===== verification/Process.thy ===== *)
theory Process
  imports Core Paths
begin

section \<open>harness-tools: what a process is asked and reports\<close>

text \<open>
  The values of \<open>harness-tools/src/process.rs\<close> that cross the boundary to the operating
  system. A timeout is in seconds, an exit code is the \<open>i32\<close> the system gives.
\<close>

record process_request =
  pr_program :: string
  pr_args :: "string list"
  pr_directory :: path
  pr_timeout :: nat
  pr_max_output :: nat

record process_result =
  exit_code :: "int option"
  proc_success :: bool
  timed_out :: bool
  proc_cancelled :: bool
  proc_stdout :: string
  proc_stderr :: string
  proc_duration :: nat

datatype process_event =
  ProcStarted "nat option" | ProcStdout string | ProcStderr string | ProcExited process_result

datatype process_error = Spawn string | Pipe string | Consumer

fun process_error_text :: "process_error \<Rightarrow> string" where
  "process_error_text (Spawn m) = ''could not start process: '' @ m"
| "process_error_text (Pipe m) = ''could not capture process output: '' @ m"
| "process_error_text Consumer = ''process output consumer failed''"

end
