(* ===== verification/Verification_Run.thy ===== *)
theory Verification_Run
  imports Verification_Targets Process
begin

section \<open>harness-verification: running the checks\<close>

text \<open>
  \<open>CommandVerifier\<close> runs the steps of a plan in order and stops at the first that fails; it
  collects the output of each within a limit and reads the diagnostics and the files it names
  out of it. The environment gives, for each step, the events and the result of the process,
  the time it took, and whether the run is cancelled before and after it.
\<close>

subsection \<open>Bounded output\<close>

definition truncation_marker :: string where
  "truncation_marker = newline # ''... output truncated ...''"

definition append_bounded :: "string \<Rightarrow> string \<Rightarrow> nat \<Rightarrow> string \<times> bool" where
  "append_bounded target chunk limit =
     (if limit \<le> length target then (target, chunk \<noteq> [])
      else let remaining = limit - length target
           in if length chunk \<le> remaining then (target @ chunk, False)
              else (target @ take (floor_boundary chunk remaining) chunk, True))"

definition bounded_string :: "string \<Rightarrow> nat \<Rightarrow> string" where
  "bounded_string s limit =
     (if length s \<le> limit then s
      else take (floor_boundary s (limit - length truncation_marker)) s @ truncation_marker)"

definition labelled_output :: "string \<Rightarrow> string \<Rightarrow> string" where
  "labelled_output stdout stderr =
     (let out = (if stdout \<noteq> [] then ''stdout:'' @ newline # stdout else [])
      in if stderr \<noteq> []
         then (if out \<noteq> [] then out @ [newline] else out) @ ''stderr:'' @ newline # stderr
         else out)"

definition combine_output :: "string \<Rightarrow> string \<Rightarrow> nat \<Rightarrow> bool \<Rightarrow> string" where
  "combine_output stdout stderr limit was_truncated =
     (let combined = labelled_output stdout stderr in
      if limit < length combined \<or> was_truncated
      then let body_limit = limit - length truncation_marker;
               trunc = take (floor_boundary combined (min body_limit (length combined))) combined
           in if length truncation_marker \<le> limit then trunc @ truncation_marker else trunc
      else combined)"

subsection \<open>Diagnostics\<close>

definition diagnostics :: "string \<Rightarrow> string list" where
  "diagnostics out =
     map (\<lambda>l. bounded_string (trim l) 512)
       (take 12 (filter (\<lambda>l. contains_any [''error'', ''warning'', ''failed'', ''failure'']
          (to_ascii_lowercase l)) (str_lines out)))"

definition around :: "nat \<Rightarrow> nat \<Rightarrow> nat list" where
  "around n index = [index - 2 ..< Suc (min (index + 2) (n - 1))]"

definition relevant_lines :: "string list \<Rightarrow> string list \<Rightarrow> string list" where
  "relevant_lines ls diags =
     (if diags = [] then rev (take 40 (rev ls))
      else map (\<lambda>i. ls ! i) (sort (remdups (concat (map (around (length ls) \<circ> fst)
             (filter (\<lambda>(_, l). list_ex (str_contains l) diags) (List.enumerate 0 ls)))))))"

definition relevant_output :: "string \<Rightarrow> string list \<Rightarrow> nat \<Rightarrow> string" where
  "relevant_output out diags max_bytes =
     bounded_string (join [newline] (relevant_lines (str_lines out) diags)) max_bytes"

definition normal_text :: "string \<Rightarrow> string" where
  "normal_text s = replace_char (CHR 0x5C) slash (to_ascii_lowercase s)"

definition affected_files :: "string \<Rightarrow> path \<Rightarrow> path list \<Rightarrow> path list" where
  "affected_files out root changed =
     (let out = normal_text out in
      filter (\<lambda>p.
        let from_root = (if is_absolute p
              then (case path_strip_prefix root p of None \<Rightarrow> p | Some q \<Rightarrow> q) else p);
            relative = normal_text from_root;
            absolute = normal_text (absolute_path root p)
        in relative \<noteq> [] \<and> str_contains out relative \<or> str_contains out absolute) changed)"

datatype failure_origin = Introduced | Unrelated | Unknown

definition source_extensions :: "string list" where
  "source_extensions =
     [''.rs'', ''.ts'', ''.tsx'', ''.js'', ''.jsx'', ''.py'', ''.go'', ''.java'', ''.cs'', ''.json'',
      ''.toml'', ''.yaml'', ''.yml'', ''.md'', ''.html'', ''.css'', ''.sql'']"

definition trim_token :: "string \<Rightarrow> string" where
  "trim_token t =
     (let skip = (\<lambda>c. \<not> is_ascii_alnum c \<and> c \<notin> set ''/_-.'')
      in rev (dropWhile skip (rev (dropWhile skip t))))"

definition mentions_file :: "string \<Rightarrow> bool" where
  "mentions_file out =
     list_ex (\<lambda>t. list_ex (ends_with (takeWhile (\<lambda>c. c \<noteq> CHR '':'') (trim_token t))) source_extensions)
       (split_whitespace (normal_text out))"

definition failure_origin_of :: "string \<Rightarrow> path \<Rightarrow> path list \<Rightarrow> failure_origin" where
  "failure_origin_of out root changed =
     (if affected_files out root changed \<noteq> [] then Introduced
      else if mentions_file out then Unrelated else Unknown)"

subsection \<open>Reports\<close>

record verification_request =
  vreq_directory :: path
  vreq_plan :: verification_plan
  vreq_changed_files :: "path list"
  vreq_max_output :: nat

record verification_failure =
  vf_category :: verification_category
  vf_command :: string
  vf_exit_code :: "int option"
  vf_diagnostics :: "string list"
  vf_relevant_output :: string
  vf_affected_files :: "path list"
  vf_origin :: failure_origin

record verification_report =
  rep_category :: verification_category
  rep_command :: string
  rep_duration_ms :: nat
  rep_passed :: bool
  rep_exit_code :: "int option"
  rep_output :: string
  rep_diagnostics :: "string list"
  rep_failure :: "verification_failure option"

record check_environment =
  spawn_process :: "nat \<Rightarrow> process_request \<Rightarrow> process_event list \<times> (process_error + process_result)"
  cancelled_before :: "nat \<Rightarrow> bool"
  cancelled_after :: "nat \<Rightarrow> bool"
  elapsed_ms :: "nat \<Rightarrow> nat"

text \<open>The callback on the events of a process: standard output, standard error, truncated.\<close>

fun collect_event :: "nat \<Rightarrow> string \<times> string \<times> bool \<Rightarrow> process_event \<Rightarrow> string \<times> string \<times> bool" where
  "collect_event limit (out, err, trunc) (ProcStdout chunk) =
     (let (out, c) = append_bounded out chunk limit in (out, err, trunc \<or> c))"
| "collect_event limit (out, err, trunc) (ProcStderr chunk) =
     (let (err, c) = append_bounded err chunk limit in (out, err, trunc \<or> c))"
| "collect_event limit st (ProcStarted _) = st"
| "collect_event limit st (ProcExited _) = st"

definition step_process :: "nat \<Rightarrow> verification_request \<Rightarrow> verification_step \<Rightarrow> process_request" where
  "step_process max_output req s =
     \<lparr>pr_program = cs_program (step_command s), pr_args = cs_args (step_command s),
      pr_directory = vreq_directory req, pr_timeout = 600,
      pr_max_output = min max_output (vreq_max_output req)\<rparr>"

definition step_outcome ::
  "nat \<Rightarrow> verification_request \<Rightarrow> process_event list \<times> (process_error + process_result) \<Rightarrow>
   bool \<times> int option \<times> string" where
  "step_outcome max_output req run =
     (let limit = min max_output (vreq_max_output req);
          (events, result) = run;
          (out, err, trunc) = foldl (collect_event max_output) ([], [], False) events
      in case result of
           Inr r \<Rightarrow>
             let combined = combine_output out err limit trunc;
                 combined = (if timed_out r \<or> proc_cancelled r
                   then bounded_string (combined @ newline #
                     (if timed_out r then ''verification command timed out''
                      else ''verification command was cancelled'')) limit
                   else combined)
             in (proc_success r \<and> \<not> timed_out r \<and> \<not> proc_cancelled r, exit_code r, combined)
         | Inl e \<Rightarrow> (False, None, bounded_string (process_error_text e) limit))"

definition step_report ::
  "verification_request \<Rightarrow> verification_step \<Rightarrow> nat \<Rightarrow> bool \<times> int option \<times> string \<Rightarrow> verification_report" where
  "step_report req s ms outcome =
     (let (success, code, out) = outcome;
          cmd = format_command (step_command s);
          diags = diagnostics out
      in \<lparr>rep_category = step_category s, rep_command = cmd,
          rep_duration_ms = min ms u64_max, rep_passed = success, rep_exit_code = code,
          rep_output = out, rep_diagnostics = diags,
          rep_failure = (if success then None else Some
            \<lparr>vf_category = step_category s, vf_command = cmd, vf_exit_code = code,
             vf_diagnostics = diags, vf_relevant_output = relevant_output out diags (8 * 1024),
             vf_affected_files = affected_files out (vreq_directory req) (vreq_changed_files req),
             vf_origin = failure_origin_of out (vreq_directory req) (vreq_changed_files req)\<rparr>)\<rparr>)"

fun verify_from ::
  "nat \<Rightarrow> check_environment \<Rightarrow> verification_request \<Rightarrow> nat \<Rightarrow> verification_report list \<Rightarrow>
   verification_step list \<Rightarrow> harness_error + verification_report list" where
  "verify_from max_output env req k reports [] = Inr reports"
| "verify_from max_output env req k reports (s # steps) =
     (if cancelled_before env k then Inl (VerificationError ''verification cancelled'')
      else
        let run = spawn_process env k (step_process max_output req s) in
        if cancelled_after env k then Inl (VerificationError ''verification cancelled'')
        else
          let report = step_report req s (elapsed_ms env k) (step_outcome max_output req run)
          in if rep_passed report
             then verify_from max_output env req (k + 1) (reports @ [report]) steps
             else Inr (reports @ [report]))"

definition verify ::
  "nat \<Rightarrow> check_environment \<Rightarrow> verification_request \<Rightarrow> harness_error + verification_report list" where
  "verify max_output env req = verify_from max_output env req 0 [] (vreq_plan req)"

definition default_output_limit :: nat where
  "default_output_limit = 64 * 1024"

end
