(* ===== verification/Verification_Properties.thy ===== *)
theory Verification_Properties
  imports Verification_Run
begin

section \<open>Verification: what holds of plans and reports\<close>

text \<open>
  The run is the reports of all steps cut after the first failure; reports are bounded; a
  narrowed plan keeps every check and is sorted by cost; a cargo command is narrowed exactly
  when one package holds every changed file; command lines are read back as written.
\<close>

subsection \<open>The run\<close>

definition step_report_at ::
  "nat \<Rightarrow> check_environment \<Rightarrow> verification_request \<Rightarrow> nat \<times> verification_step \<Rightarrow> verification_report" where
  "step_report_at max_output env req = (\<lambda>(k, s). step_report req s (elapsed_ms env k)
     (step_outcome max_output req (spawn_process env k (step_process max_output req s))))"

definition through_first :: "('a \<Rightarrow> bool) \<Rightarrow> 'a list \<Rightarrow> 'a list" where
  "through_first p xs = takeWhile (\<lambda>x. \<not> p x) xs @ take 1 (dropWhile (\<lambda>x. \<not> p x) xs)"

lemma through_first_simps [simp]:
  "through_first p [] = []"
  "through_first p (x # xs) = x # (if p x then [] else through_first p xs)"
  by (simp_all add: through_first_def)

definition expected_reports ::
  "nat \<Rightarrow> check_environment \<Rightarrow> verification_request \<Rightarrow> nat \<Rightarrow> verification_plan \<Rightarrow> verification_report list" where
  "expected_reports max_output env req k steps =
     through_first (\<lambda>r. \<not> rep_passed r)
       (map (step_report_at max_output env req) (List.enumerate k steps))"

definition cancelled_in :: "check_environment \<Rightarrow> nat \<Rightarrow> nat \<Rightarrow> bool" where
  "cancelled_in env k n = list_ex (\<lambda>i. cancelled_before env i \<or> cancelled_after env i) [k ..< k + n]"

lemma cancelled_in_simps [simp]:
  "\<not> cancelled_in env k 0"
  "cancelled_in env k (Suc n) \<longleftrightarrow>
     cancelled_before env k \<or> cancelled_after env k \<or> cancelled_in env (Suc k) n"
proof -
  have "[k ..< k + Suc n] = k # [Suc k ..< Suc k + n]" by (simp add: upt_conv_Cons del: upt_Suc)
  then show "cancelled_in env k (Suc n) \<longleftrightarrow>
     cancelled_before env k \<or> cancelled_after env k \<or> cancelled_in env (Suc k) n"
    by (simp only: cancelled_in_def list_ex_iff list.set bex_simps) blast
qed (simp add: cancelled_in_def)

lemma verify_from_expected:
  "verify_from max_output env req k reports steps =
     (let rs = expected_reports max_output env req k steps
      in if cancelled_in env k (length rs) then Inl (VerificationError ''verification cancelled'')
         else Inr (reports @ rs))"
proof (induction steps arbitrary: k reports)
  case (Cons s steps)
  let ?r = "step_report_at max_output env req (k, s)"
  have unfold: "verify_from max_output env req k reports (s # steps) =
     (if cancelled_before env k \<or> cancelled_after env k
      then Inl (VerificationError ''verification cancelled'')
      else if rep_passed ?r then verify_from max_output env req (Suc k) (reports @ [?r]) steps
      else Inr (reports @ [?r]))"
    by (simp add: step_report_at_def Let_def)
  show ?case
    by (simp only: unfold Cons.IH) (simp add: expected_reports_def Let_def)
qed (simp add: expected_reports_def)

text \<open>C16: A verification run returns the reports of its steps in plan order up to and including
  the first failure; it fails as a whole exactly when the run is cancelled before or after one
  of those steps.\<close>

theorem verify_runs_through_first_failure:
  "verify max_output env req =
     (let rs = expected_reports max_output env req 0 (vreq_plan req)
      in if \<exists>k < length rs. cancelled_before env k \<or> cancelled_after env k
         then Inl (VerificationError ''verification cancelled'') else Inr rs)"
  by (auto simp: verify_def verify_from_expected Let_def cancelled_in_def list_ex_iff)

subsection \<open>Bounds\<close>

lemma length_truncation_marker [simp]: "length truncation_marker = 25"
  by (simp add: truncation_marker_def)

lemma length_take_floor: "length (take (floor_boundary s n) s) \<le> n"
  using floor_boundary_le [of s n] by (simp add: min.coboundedI2)

lemma length_bounded_string: "length (bounded_string s n) \<le> max n 25"
  using length_take_floor [of s "n - 25"] by (auto simp: bounded_string_def)

lemma bounded_string_short: "length s \<le> n \<Longrightarrow> bounded_string s n = s"
  by (simp add: bounded_string_def)

lemma length_combine_output: "length (combine_output out err n c) \<le> n"
  using length_take_floor [of "labelled_output out err" "min (n - 25) (length (labelled_output out err))"]
  by (auto simp: combine_output_def Let_def)

lemma length_step_outcome:
  "step_outcome m req run = (ok, code, out) \<Longrightarrow> length out \<le> max (min m (vreq_max_output req)) 25"
  using length_bounded_string order_trans [OF length_combine_output max.cobounded1]
  by (auto simp: step_outcome_def Let_def split: sum.splits prod.splits if_splits)

lemma collect_event_bound:
  "length out \<le> n \<Longrightarrow> length err \<le> n \<Longrightarrow>
   (case foldl (collect_event n) (out, err, c) evs of (o', e', _) \<Rightarrow> length o' \<le> n \<and> length e' \<le> n)"
proof (induction evs arbitrary: out err c)
  case (Cons ev evs)
  have bounded: "length (fst (append_bounded s chunk n)) \<le> n" if "length s \<le> n" for s chunk
    using that length_take_floor [of chunk "n - length s"]
    by (auto simp: append_bounded_def Let_def simp del: length_take)
  show ?case
  proof (cases ev)
    case (ProcStdout chunk)
    with Cons bounded [of out chunk] show ?thesis
      by (simp add: case_prod_unfold Let_def)
  next
    case (ProcStderr chunk)
    with Cons bounded [of err chunk] show ?thesis
      by (simp add: case_prod_unfold Let_def)
  qed (use Cons in simp_all)
qed simp

lemma expected_report_in:
  assumes "r \<in> set (expected_reports m env req k steps)"
  shows "\<exists>i s. s \<in> set steps \<and> r = step_report_at m env req (i, s)"
proof -
  have "set (through_first p xs) \<subseteq> set xs" for p and xs :: "verification_report list"
    by (induction xs) auto
  with assms have "r \<in> set (map (step_report_at m env req) (List.enumerate k steps))"
    unfolding expected_reports_def by blast
  then show ?thesis by (auto simp: enumerate_eq_zip dest: set_zip_rightD)
qed

definition report_bounded :: "verification_request \<Rightarrow> nat \<Rightarrow> verification_report \<Rightarrow> bool" where
  "report_bounded req limit r \<longleftrightarrow>
     length (rep_output r) \<le> max limit 25 \<and>
     length (rep_diagnostics r) \<le> 12 \<and> (\<forall>d \<in> set (rep_diagnostics r). length d \<le> 512) \<and>
     rep_duration_ms r \<le> u64_max \<and>
     (case rep_failure r of None \<Rightarrow> rep_passed r
      | Some f \<Rightarrow> \<not> rep_passed r \<and> length (vf_relevant_output f) \<le> 8192 \<and>
          set (vf_affected_files f) \<subseteq> set (vreq_changed_files req) \<and>
          (vf_origin f = Introduced \<longleftrightarrow> vf_affected_files f \<noteq> []))"

lemma step_report_bounded: "report_bounded req (min m (vreq_max_output req)) (step_report_at m env req ks)"
proof -
  obtain k s where ks: "ks = (k, s)" by (cases ks)
  obtain ok code out where o: "step_outcome m req (spawn_process env k (step_process m req s)) = (ok, code, out)"
    by (cases "step_outcome m req (spawn_process env k (step_process m req s))")
  have "length d \<le> 512" if "d \<in> set (diagnostics out)" for d
    using that length_bounded_string [of _ 512] by (auto simp: diagnostics_def)
  moreover have "length (diagnostics out) \<le> 12" by (simp add: diagnostics_def)
  moreover have "length (relevant_output out (diagnostics out) (8 * 1024)) \<le> 8192"
    using length_bounded_string [of _ "8 * 1024"] by (simp add: relevant_output_def)
  moreover have "set (affected_files out (vreq_directory req) (vreq_changed_files req)) \<subseteq> set (vreq_changed_files req)"
    by (auto simp: affected_files_def Let_def)
  ultimately show ?thesis
    using length_step_outcome [OF o] o
    by (simp add: ks report_bounded_def step_report_at_def step_report_def failure_origin_of_def Let_def)
qed

text \<open>Every report of a run is bounded: its output by the smaller of the two limits (or by the
  25 bytes of the truncation marker, which tiny limits do not leave out), twelve diagnostics of
  512 bytes, 8192 bytes of relevant output; it has a failure exactly when it did not pass, which
  is attributed to the change exactly when the output names a changed file.\<close>

theorem reports_are_bounded:
  assumes "verify max_output env req = Inr rs" "r \<in> set rs"
  shows "report_bounded req (min max_output (vreq_max_output req)) r"
  using assms expected_report_in step_report_bounded
  by (fastforce simp: verify_runs_through_first_failure Let_def split: if_splits)

text \<open>An output that is cut under a limit of less than 25 bytes is longer than the limit.\<close>

theorem tiny_limit_is_exceeded:
  assumes "n < 25" "n < length s"
  shows "n < length (bounded_string s n)"
  using assms by (simp add: bounded_string_def)

subsection \<open>Plans\<close>

abbreviation test_categories :: "verification_category set" where
  "test_categories \<equiv> {TargetedTest, GeneralTest}"

lemma narrow_step_category:
  "step_category (narrow_step h root changed s) = step_category s \<or>
   step_category s \<in> test_categories \<and> step_category (narrow_step h root changed s) \<in> test_categories"
  by (auto simp: narrow_step_def split: option.splits)

lemma count_narrowed:
  assumes "\<forall>s. P (step_category (narrow_step h root changed s)) \<longleftrightarrow> P (step_category s)" "\<not> P GitDiff"
  shows "length (filter (\<lambda>s. P (step_category s)) (after_changes h plan root changed)) =
    length (filter (\<lambda>s. P (step_category s)) plan)"
  using assms by (simp add: after_changes_def Let_def filter_sort filter_map comp_def)

lemma category_priority_GitDiff: "6 \<le> category_priority c \<longleftrightarrow> c = GitDiff"
  by (cases c) auto

text \<open>Narrowing a plan to the changed files keeps the number of checks of every kind (a test
  may become targeted or fall back to the full one), sorts the plan by cost, and in a git
  repository ends it with the inspection of the diff.\<close>

theorem narrowed_plan_keeps_checks:
  "let steps = after_changes h plan root changed in
     sorted (map (category_priority \<circ> step_category) steps) \<and>
     (\<forall>c \<in> {Formatter, Lint, Typecheck, Build}.
        length (filter (\<lambda>s. step_category s = c) steps) = length (filter (\<lambda>s. step_category s = c) plan)) \<and>
     length (filter (\<lambda>s. step_category s \<in> test_categories) steps) =
       length (filter (\<lambda>s. step_category s \<in> test_categories) plan) \<and>
     (git_root_from (vh_disk h) root \<noteq> None \<longrightarrow> steps \<noteq> [] \<and> step_category (last steps) = GitDiff)"
proof -
  let ?steps = "after_changes h plan root changed"
  have sorted: "sorted (map (category_priority \<circ> step_category) ?steps)"
    by (simp add: after_changes_def Let_def)
  have kept: "step_category (narrow_step h root changed s) = c \<longleftrightarrow> step_category s = c"
    if "c \<in> {Formatter, Lint, Typecheck, Build}" for c s
    using narrow_step_category [of h root changed s] that by auto
  have "length (filter (\<lambda>s. step_category s = c) ?steps) = length (filter (\<lambda>s. step_category s = c) plan)"
    if "c \<in> {Formatter, Lint, Typecheck, Build}" for c
    using kept [OF that] that by (intro count_narrowed) auto
  moreover have "step_category (narrow_step h root changed s) \<in> test_categories \<longleftrightarrow>
      step_category s \<in> test_categories" for s
    using narrow_step_category [of h root changed s] by auto
  then have "length (filter (\<lambda>s. step_category s \<in> test_categories) ?steps) =
      length (filter (\<lambda>s. step_category s \<in> test_categories) plan)"
    by (intro count_narrowed) auto
  moreover have "?steps \<noteq> [] \<and> step_category (last ?steps) = GitDiff"
    if "git_root_from (vh_disk h) root \<noteq> None"
  proof -
    from that have "\<exists>s \<in> set ?steps. step_category s = GitDiff"
      by (auto simp: after_changes_def Let_def list_ex_iff)
    then obtain s where s: "s \<in> set ?steps" "step_category s = GitDiff" by blast
    then have "?steps \<noteq> []" by auto
    moreover have "6 \<le> category_priority (step_category (last ?steps))"
      using sorted s by (cases ?steps rule: rev_cases) (auto simp: sorted_append)
    ultimately show ?thesis by (simp add: category_priority_GitDiff)
  qed
  ultimately show ?thesis using sorted by (simp only: Let_def) blast
qed

subsection \<open>One package\<close>

lemma cargo_target_from_Some:
  "cargo_target_from h root (Some (p, t)) cs = Some (q, u) \<longleftrightarrow>
     q = p \<and> (\<forall>c \<in> set cs. \<exists>v. cargo_package h root c = Some (p, v)) \<and>
     u = (if \<forall>c \<in> set cs. cargo_package h root c = Some (p, t) then t else None)"
proof (induction cs arbitrary: t)
  case (Cons c cs)
  show ?case
  proof (cases "cargo_package h root c")
    case (Some a)
    obtain p' v where "a = (p', v)" by (cases a)
    with Some Cons.IH show ?thesis by auto
  qed simp
qed auto

text \<open>A cargo command can be narrowed exactly when there is a changed file and all of them lie in
  one package; it is narrowed to one integration test exactly when all name the same one.\<close>

theorem cargo_target_iff:
  "cargo_target h root changed = Some (package, test) \<longleftrightarrow>
     changed \<noteq> [] \<and> (\<forall>c \<in> set changed. \<exists>t. cargo_package h root c = Some (package, t)) \<and>
     test = (if \<forall>c \<in> set changed. cargo_package h root c = cargo_package h root (hd changed)
             then changed_test_target (hd changed) else None)"
proof (cases changed)
  case (Cons c cs)
  show ?thesis
  proof (cases "cargo_package h root c")
    case (Some a)
    obtain p v where a: "a = (p, v)" by (cases a)
    with Some have "v = changed_test_target c"
      by (auto simp: cargo_package_def Let_def split: option.splits list.splits)
    with Cons Some a show ?thesis by (auto simp: cargo_target_def cargo_target_from_Some)
  qed (simp add: Cons cargo_target_def)
qed (simp add: cargo_target_def)

subsection \<open>Command lines\<close>

lemma utf8_chars_append:
  assumes "t = [] \<or> \<not> is_continuation (hd t)"
  shows "utf8_chars (s @ t) = utf8_chars s @ utf8_chars t"
proof (induction s rule: utf8_chars.induct)
  case (2 c cs)
  have "takeWhile is_continuation (cs @ t) = takeWhile is_continuation cs"
    "dropWhile is_continuation (cs @ t) = dropWhile is_continuation cs @ t"
    using assms by (cases t; induction cs; auto)+
  with 2 show ?case by simp
qed simp

definition plain_word :: "string \<Rightarrow> bool" where
  "plain_word w \<longleftrightarrow> w \<noteq> [] \<and> \<not> is_continuation (hd w) \<and>
     (\<forall>ch \<in> set (utf8_chars w). \<not> is_white_space ch \<and>
        ch \<notin> {backslash_char, single_quote, double_quote})"

lemma command_chars_plain:
  "\<forall>ch \<in> set chs. \<not> is_white_space ch \<and> ch \<notin> {backslash_char, single_quote, double_quote} \<Longrightarrow>
   foldl command_char (ws, w, None, False) chs = (ws, w @ concat chs, None, False)"
  by (induction chs arbitrary: w) auto

lemma command_line_words:
  assumes "\<forall>w \<in> set (v # vs). plain_word w"
  shows "foldl command_char (ws, [], None, False) (utf8_chars (join '' '' (v # vs))) =
    (ws @ butlast (v # vs), last (v # vs), None, False)"
  using assms
proof (induction vs arbitrary: v ws)
  case Nil
  then show ?case using command_chars_plain [of "utf8_chars v"] by (simp add: plain_word_def)
next
  case (Cons u us)
  let ?rest = "join '' '' (u # us)"
  have u: "u \<noteq> []" "\<not> is_continuation (hd u)" using Cons.prems by (auto simp: plain_word_def)
  then have rest: "?rest \<noteq> []" "hd ?rest = hd u" by (cases us; simp)+
  have "utf8_chars ('' '' @ ?rest) = '' '' # utf8_chars ?rest"
    using u rest by (cases ?rest) simp_all
  moreover have "utf8_chars (v @ '' '' @ ?rest) = utf8_chars v @ utf8_chars ('' '' @ ?rest)"
    by (rule utf8_chars_append) (simp add: is_continuation_def byte_of_def)
  ultimately have chars: "utf8_chars (join '' '' (v # u # us)) = utf8_chars v @ '' '' # utf8_chars ?rest"
    by simp
  have "is_white_space '' ''" by code_simp
  moreover have "v \<noteq> []" "\<forall>ch \<in> set (utf8_chars v). \<not> is_white_space ch \<and>
      ch \<notin> {backslash_char, single_quote, double_quote}"
    using Cons.prems by (auto simp: plain_word_def)
  ultimately have "foldl command_char (ws, [], None, False) (utf8_chars (join '' '' (v # u # us))) =
      foldl command_char (ws @ [v], [], None, False) (utf8_chars ?rest)"
    unfolding chars using command_chars_plain [of "utf8_chars v" ws "[]"] by simp
  with Cons.IH [of u "ws @ [v]"] Cons.prems show ?case by simp
qed

text \<open>A command of plain words (not empty, without white space, quotes or backslashes) is read
  back from the line a report shows for it.\<close>

theorem command_line_roundtrip:
  assumes "\<forall>w \<in> set (cs_program c # cs_args c). plain_word w"
  shows "parse_command (format_command c) = Some c"
  using command_line_words [OF assms, of "[]"] assms
  by (auto simp: parse_command_def format_command_def plain_word_def split: list.split)

text \<open>The option that selects tests by marker is lost when pytest is narrowed to the changed
  tests: its \<open>-m\<close> is removed and the marker left behind as a path.\<close>

theorem pytest_marker_option_is_lost:
  assumes "related_test_paths h root changed [''py''] = tests" "tests \<noteq> []"
  shows "target_test_command h (command_spec_new ''pytest'' [''-m'', ''slow'']) root changed =
    Some (command_spec_new ''pytest'' (''slow'' # tests))"
proof -
  have "changed \<noteq> []" using assms by (auto simp: related_test_paths_def ordered_set_def)
  moreover have "to_ascii_lowercase (program_name ''pytest'') = ''pytest''" by code_simp
  moreover obtain t ts where "tests = t # ts" using assms(2) by (cases tests) auto
  ultimately show ?thesis
    using assms(1) by (simp add: target_test_command_def pytest_command_def Let_def)
qed

subsection \<open>Witnesses\<close>

definition check_disk :: disk where
  "check_disk cs =
     (if cs = [RootDir, Normal ''r''] then Some (DirNode [(''Cargo.toml'', EntryFile), (''.git'', EntryDir)])
      else if cs = [RootDir, Normal ''r'', Normal ''.git''] then Some (DirNode [])
      else if cs = [RootDir, Normal ''r'', Normal ''Cargo.toml''] then Some (FileNode ''app'')
      else None)"

definition check_host :: verification_host where
  "check_host =
     \<lparr>vh_disk = check_disk, vh_json = (\<lambda>_. None),
      vh_toml = (\<lambda>s. Some (TTable [(''package'', TTable [(''name'', TString s)])]))\<rparr>"

lemma check_components:
  "components ''/r/Cargo.toml'' = [RootDir, Normal ''r'', Normal ''Cargo.toml'']"
  "components ''/r/.git'' = [RootDir, Normal ''r'', Normal ''.git'']"
  "components ''/r/src/Cargo.toml'' = [RootDir, Normal ''r'', Normal ''src'', Normal ''Cargo.toml'']"
  "components ''/r/src/lib.rs'' = [RootDir, Normal ''r'', Normal ''src'', Normal ''lib.rs'']"
  "components ''/r/src/main.rs'' = [RootDir, Normal ''r'', Normal ''src'', Normal ''main.rs'']"
  by code_simp+

lemma check_names:
  "path_join ''/r'' ''Cargo.toml'' = ''/r/Cargo.toml''" "path_join ''/r'' ''.git'' = ''/r/.git''"
  "path_join ''/r/src'' ''Cargo.toml'' = ''/r/src/Cargo.toml''"
  "absolute_path ''/r'' ''/r/src/lib.rs'' = ''/r/src/lib.rs''"
  "absolute_path ''/r'' ''/r/src/main.rs'' = ''/r/src/main.rs''"
  "path_parent ''/r/src/lib.rs'' = Some ''/r/src''" "path_parent ''/r/src/main.rs'' = Some ''/r/src''"
  "search_directories ''/r'' ''/r/src'' = [''/r/src'', ''/r'']"
  "changed_test_target ''/r/src/lib.rs'' = None" "changed_test_target ''/r/src/main.rs'' = None"
  "valid_utf8 ''app''" "ancestors ''/r'' = [''/r'', ''/'']"
  by code_simp+

lemma check_package:
  "cargo_package check_host ''/r'' ''/r/src/lib.rs'' = Some (''app'', None)"
  "cargo_package check_host ''/r'' ''/r/src/main.rs'' = Some (''app'', None)"
  by (simp_all add: cargo_package_def check_host_def is_dir_def node_at_def check_components
      check_names check_disk_def map_filter_simps package_name_at_def read_to_string_def toml_get_def)

theorem cargo_target_iff_witness:
  "cargo_target check_host ''/r'' [''/r/src/lib.rs'', ''/r/src/main.rs''] = Some (''app'', None)"
  unfolding cargo_target_iff using check_package check_names by simp

theorem narrowed_plan_keeps_checks_witness:
  "step_category (last (after_changes check_host
     [\<lparr>step_category = Formatter, step_command = command_spec_new ''cargo'' [''fmt''],
       step_source = ''workspace-discovery''\<rparr>] ''/r'' [])) = GitDiff"
proof -
  have "git_root_from (vh_disk check_host) ''/r'' \<noteq> None"
    by (simp add: git_root_from_def check_names check_host_def path_exists_def node_at_def
        check_components check_disk_def)
  with narrowed_plan_keeps_checks [of check_host
      "[\<lparr>step_category = Formatter, step_command = command_spec_new ''cargo'' [''fmt''],
         step_source = ''workspace-discovery''\<rparr>]" "''/r''" "[]"]
  show ?thesis by (simp only: Let_def) blast
qed

theorem command_line_roundtrip_witness:
  "parse_command ''cargo test --workspace'' = Some (command_spec_new ''cargo'' [''test'', ''--workspace''])"
proof -
  have "plain_word ''cargo''" "plain_word ''test''" "plain_word ''--workspace''" by code_simp+
  moreover have "format_command (command_spec_new ''cargo'' [''test'', ''--workspace'']) =
      ''cargo test --workspace''" by code_simp
  ultimately show ?thesis
    using command_line_roundtrip [of "command_spec_new ''cargo'' [''test'', ''--workspace'']"] by simp
qed

theorem pytest_marker_option_is_lost_witness:
  "target_test_command check_host (command_spec_new ''pytest'' [''-m'', ''slow'']) ''/r''
     [''/r/tests/test_a.py''] = Some (command_spec_new ''pytest'' [''slow'', ''tests/test_a.py''])"
proof (rule pytest_marker_option_is_lost)
  have "absolute_path ''/r'' ''/r/tests/test_a.py'' = ''/r/tests/test_a.py''"
    "is_test_path ''/r/tests/test_a.py''"
    "relative_text ''/r'' ''/r/tests/test_a.py'' = Some ''tests/test_a.py''" by code_simp+
  then show "related_test_paths check_host ''/r'' [''/r/tests/test_a.py''] [''py''] = [''tests/test_a.py'']"
    by (simp add: related_test_paths_def related_tests_of_def ordered_set_def)
qed simp

definition failing_environment :: check_environment where
  "failing_environment =
     \<lparr>spawn_process = (\<lambda>_ _. ([], Inl Consumer)), cancelled_before = (\<lambda>_. False),
      cancelled_after = (\<lambda>_. False), elapsed_ms = (\<lambda>_. 5)\<rparr>"

definition one_step_request :: verification_request where
  "one_step_request =
     \<lparr>vreq_directory = ''/r'', vreq_plan = [\<lparr>step_category = Build,
        step_command = command_spec_new ''make'' [], step_source = ''workspace-discovery''\<rparr>],
      vreq_changed_files = [], vreq_max_output = 100\<rparr>"

theorem reports_are_bounded_witness:
  "\<exists>r. verify 100 failing_environment one_step_request = Inr [r] \<and> \<not> rep_passed r \<and>
     report_bounded one_step_request 100 r"
proof -
  let ?r = "step_report_at 100 failing_environment one_step_request (0, hd (vreq_plan one_step_request))"
  have failed: "\<not> rep_passed ?r"
    by (simp add: step_report_at_def step_report_def step_outcome_def failing_environment_def Let_def)
  then have "verify 100 failing_environment one_step_request = Inr [?r]"
    unfolding verify_runs_through_first_failure
    by (simp add: expected_reports_def one_step_request_def failing_environment_def Let_def)
  moreover from reports_are_bounded [OF this, of ?r]
  have "report_bounded one_step_request 100 ?r" by (simp add: one_step_request_def)
  ultimately show ?thesis using failed by blast
qed

theorem tiny_limit_is_exceeded_witness: "10 < length (bounded_string ''eleven bytes'' 10)"
  by (rule tiny_limit_is_exceeded) simp_all

end
