(* ===== verification/Agent_Approval.thy ===== *)
theory Agent_Approval
  imports Policy_Properties Context
begin

section \<open>harness-agent: approvals and tool execution\<close>

text \<open>
  \<open>ApprovedPolicy\<close> wraps a policy with the set of actions the user has approved; an approval is
  used up by the evaluation it allows. \<open>execute_tool\<close> asks for approval and runs the tool
  again. The registry of tools, the approval handler and the flush of pending events are the
  record \<open>tool_host\<close>. Approvals are kept by a key of the request, \<open>approval_key_from_request\<close>, which is the
  argument \<open>key\<close> of the definitions that use it. The locale \<open>guarded_policy\<close> is extended with what approvals can and cannot
  open.
\<close>

subsection \<open>Errors of the agent\<close>

fun harness_error_text :: "harness_error \<Rightarrow> string" where
  "harness_error_text (InvalidConfig reason) = ''invalid configuration: '' @ reason"
| "harness_error_text (InvalidId reason) = ''invalid identifier: '' @ reason"
| "harness_error_text (InvalidRequest reason) = ''invalid request: '' @ reason"
| "harness_error_text (NotFound kind i) = kind @ '' not found: '' @ i"
| "harness_error_text (PermissionDenied cap) = ''permission denied for '' @ cap"
| "harness_error_text (PermissionRequired cap reason) =
     ''permission approval required for '' @ cap @ '': '' @ reason"
| "harness_error_text (ProviderError p msg) = ''model provider '' @ p @ '' failed: '' @ msg"
| "harness_error_text (ToolError tool msg) = ''tool '' @ tool @ '' failed: '' @ msg"
| "harness_error_text (VerificationError msg) = ''verification failed: '' @ msg"
| "harness_error_text (InvalidEvent reason) = ''invalid event: '' @ reason"
| "harness_error_text (SessionError reason) = ''session error: '' @ reason"
| "harness_error_text (LoggingError msg) = ''logging initialization failed: '' @ msg"
| "harness_error_text (IoError msg) = ''i/o error: '' @ msg"

datatype agent_error =
    AgentCancelled
  | ApprovalDenied string
  | LimitExceeded string
  | ModelError string
  | AgentCore string
  | AgentTool string

fun agent_error_text :: "agent_error \<Rightarrow> string" where
  "agent_error_text AgentCancelled = ''agent cancelled''"
| "agent_error_text (ApprovalDenied tool) = ''agent approval was denied for '' @ tool"
| "agent_error_text (LimitExceeded limit) = ''agent exceeded '' @ limit"
| "agent_error_text (ModelError msg) = ''model provider failed: '' @ msg"
| "agent_error_text (AgentCore msg) = ''core operation failed: '' @ msg"
| "agent_error_text (AgentTool msg) = ''tool execution failed: '' @ msg"

subsection \<open>The policy with approvals\<close>

text \<open>What a request is known by: its JSON text, if it has one, and else a text of its fields. The text
  comes from \<open>serde_json\<close>; the rendering by \<open>Debug\<close> of the names in the other one needs the Unicode tables.\<close>

record approval_text =
  serialized :: "policy_request \<Rightarrow> string option"
  debug_text :: "string \<Rightarrow> string"

fun operation_debug :: "operation_kind \<Rightarrow> string" where
  "operation_debug Read = ''Read''"
| "operation_debug Search = ''Search''"
| "operation_debug Write = ''Write''"
| "operation_debug Patch = ''Patch''"
| "operation_debug Command = ''Command''"
| "operation_debug Network = ''Network''"
| "operation_debug Mcp = ''Mcp''"

definition debug_option :: "approval_text \<Rightarrow> string option \<Rightarrow> string" where
  "debug_option x v = (case v of None \<Rightarrow> ''None'' | Some s \<Rightarrow> ''Some('' @ debug_text x s @ '')'')"

definition approval_key_from_request :: "approval_text \<Rightarrow> policy_request \<Rightarrow> string" where
  "approval_key_from_request x r =
     (case serialized x r of
        Some t \<Rightarrow> t
      | None \<Rightarrow>
          tool_name r @ '':'' @ operation_debug (request_operation r) @ '':'' @
          from_utf8_lossy (workspace_root r) @ '':'' @ debug_option x (request_path r) @ '':'' @
          debug_option x (request_command r))"

definition approved_evaluate ::
  "(policy_request \<Rightarrow> policy_evaluation) \<Rightarrow> (policy_request \<Rightarrow> string) \<Rightarrow> string set \<Rightarrow> policy_request \<Rightarrow>
   policy_evaluation \<times> string set" where
  "approved_evaluate base key approved r =
     (let ev = base r
      in if decision ev = Ask \<and> key r \<in> approved
         then (evaluation Allow ''user-approval'' ''the user approved this exact action once'',
               approved - {key r})
         else (ev, approved))"

fun approved_run ::
  "(policy_request \<Rightarrow> policy_evaluation) \<Rightarrow> (policy_request \<Rightarrow> string) \<Rightarrow> string set \<Rightarrow>
   policy_request list \<Rightarrow> policy_evaluation list \<times> string set" where
  "approved_run base key approved [] = ([], approved)"
| "approved_run base key approved (r # rs) =
     (let (ev, approved) = approved_evaluate base key approved r;
          (evs, approved) = approved_run base key approved rs
      in (ev # evs, approved))"

subsection \<open>Executing a tool\<close>

record tool_request =
  tool_request_name :: string
  tool_arguments :: json

record tool_host =
  run_tool :: "string set \<Rightarrow> tool_request \<Rightarrow> (harness_error + tool_result) \<times> string set"
  policy_requests :: "tool_request \<Rightarrow> harness_error + policy_request list"
  ask_user :: "tool_request \<Rightarrow> risk_category list \<Rightarrow> string \<Rightarrow> agent_error + bool"
  flush_first :: "agent_error + unit"
  flush_second :: "agent_error + unit"

definition tool_result_new :: "string \<Rightarrow> tool_result" where
  "tool_result_new output = \<lparr>tr_output = output, tr_metadata = [], tr_changed_files = [],
     tr_truncated = False, tr_is_error = False\<rparr>"

definition tool_error_result :: "string \<Rightarrow> string \<Rightarrow> tool_result" where
  "tool_error_result tool msg =
     (tool_result_new (''Tool '' @ tool @ '' failed: '' @ msg))\<lparr>tr_is_error := True\<rparr>"

definition request_tool_approval ::
  "tool_host \<Rightarrow> tool_request \<Rightarrow> string \<Rightarrow> agent_error + bool" where
  "request_tool_approval h r reason =
     (case policy_requests h r of
        Inl err \<Rightarrow> Inl (AgentCore (harness_error_text err))
      | Inr rs \<Rightarrow> ask_user h r (remdups_adj (sort (concat (map risk_categories rs)))) reason)"

definition observe_tool :: "harness_error + tool_result \<Rightarrow> agent_error + tool_result" where
  "observe_tool result =
     (case result of
        Inr t \<Rightarrow> Inr t
      | Inl (ToolError tool msg) \<Rightarrow> Inr (tool_error_result tool msg)
      | Inl err \<Rightarrow> Inl (AgentTool (harness_error_text err)))"

definition execute_tool ::
  "tool_host \<Rightarrow> (policy_request \<Rightarrow> string) \<Rightarrow> string set \<Rightarrow> tool_request \<Rightarrow>
   (agent_error + tool_result) \<times> string set" where
  "execute_tool h key approved r =
     (case run_tool h approved r of (result, approved) \<Rightarrow>
        case flush_first h of Inl err \<Rightarrow> (Inl err, approved)
        | Inr _ \<Rightarrow>
          (case result of
             Inl (PermissionRequired cap reason) \<Rightarrow>
               (case request_tool_approval h r reason of
                  Inl err \<Rightarrow> (Inl err, approved)
                | Inr False \<Rightarrow> (Inl (ApprovalDenied (tool_request_name r)), approved)
                | Inr True \<Rightarrow>
                    (case policy_requests h r of
                       Inl err \<Rightarrow> (Inl (AgentCore (harness_error_text err)), approved)
                     | Inr rs \<Rightarrow>
                         (case run_tool h (approved \<union> set (map key rs)) r of (result, approved) \<Rightarrow>
                            case flush_second h of Inl err \<Rightarrow> (Inl err, approved)
                            | Inr _ \<Rightarrow> (observe_tool result, approved))))
           | _ \<Rightarrow> (observe_tool result, approved)))"

subsection \<open>What approvals open\<close>

context guarded_policy
begin

lemma approved_forbidden:
  "forb r \<Longrightarrow> approved_evaluate eval key S r = (eval r, S)"
  by (simp add: approved_evaluate_def forbidden_denied Let_def)

lemma approved_sensitive:
  assumes "sens r" "approved_evaluate eval key S r = (ev, S')" "decision ev = Allow"
  shows "key r \<in> S \<and> S' = S - {key r}"
  using assms sensitive_not_allowed [of r]
  by (auto simp: approved_evaluate_def Let_def split: if_splits)

lemma approved_shrinks: "approved_evaluate eval key S r = (ev, S') \<Longrightarrow> S' \<subseteq> S"
  by (auto simp: approved_evaluate_def Let_def split: if_splits)

end

text \<open>While the keys of different requests differ, what a sequence of requests gets is determined by the
  requests that were granted: each of them opens the first question it is asked for.\<close>

definition user_approval :: policy_evaluation where
  "user_approval = evaluation Allow ''user-approval'' ''the user approved this exact action once''"

lemma approved_run_exact:
  assumes "approved_run eval key (key ` A) rs = (evs, S')" "inj_on key (A \<union> set rs)"
  shows "length evs = length rs \<and>
    (\<forall>i < length rs. evs ! i =
       (if decision (eval (rs ! i)) = Ask \<and> rs ! i \<in> A - set (take i rs) then user_approval else eval (rs ! i))) \<and>
    S' = key ` {a \<in> A. \<not> (a \<in> set rs \<and> decision (eval a) = Ask)}"
  using assms
proof (induction rs arbitrary: A evs S')
  case (Cons r rs)
  obtain ev S1 where step: "approved_evaluate eval key (key ` A) r = (ev, S1)" by fastforce
  obtain evs1 S2 where rest: "approved_run eval key S1 rs = (evs1, S2)" by fastforce
  from Cons.prems(1) step rest have eqs: "evs = ev # evs1" "S' = S2" by simp_all
  have member: "key r \<in> key ` A \<longleftrightarrow> r \<in> A" using Cons.prems(2) by (auto dest: inj_onD)
  show ?case
  proof (cases "decision (eval r) = Ask \<and> r \<in> A")
    case True
    have "key ` A - {key r} = key ` (A - {r})"
      using inj_on_image_set_diff [OF Cons.prems(2), of A "{r}"] True by auto
    with step True member have ev: "ev = user_approval" and S1: "S1 = key ` (A - {r})"
      by (auto simp: approved_evaluate_def user_approval_def)
    have inj: "inj_on key ((A - {r}) \<union> set rs)" using Cons.prems(2) by (rule inj_on_subset) auto
    note IH = Cons.IH [OF rest [unfolded S1] inj]
    have left: "{a \<in> A - {r}. \<not> (a \<in> set rs \<and> decision (eval a) = Ask)} =
        {a \<in> A. \<not> (a \<in> set (r # rs) \<and> decision (eval a) = Ask)}"
      using True by auto
    have "evs ! i = (if decision (eval ((r # rs) ! i)) = Ask \<and> (r # rs) ! i \<in> A - set (take i (r # rs))
        then user_approval else eval ((r # rs) ! i))" if "i < length (r # rs)" for i
      using that IH True ev eqs by (cases i) auto
    then show ?thesis using IH eqs left by simp
  next
    case False
    with step member have ev: "ev = eval r" and S1: "S1 = key ` A"
      by (auto simp: approved_evaluate_def Let_def split: if_splits)
    have inj: "inj_on key (A \<union> set rs)" using Cons.prems(2) by (rule inj_on_subset) auto
    note IH = Cons.IH [OF rest [unfolded S1] inj]
    have left: "{a \<in> A. \<not> (a \<in> set rs \<and> decision (eval a) = Ask)} =
        {a \<in> A. \<not> (a \<in> set (r # rs) \<and> decision (eval a) = Ask)}"
      using False by auto
    have "evs ! i = (if decision (eval ((r # rs) ! i)) = Ask \<and> (r # rs) ! i \<in> A - set (take i (r # rs))
        then user_approval else eval ((r # rs) ! i))" if "i < length (r # rs)" for i
      using that IH False ev eqs by (cases i) auto
    then show ?thesis using IH eqs left by simp
  qed
qed auto

lemma approval_key_inject:
  assumes "inj_on (serialized x) R" "None \<notin> serialized x ` R"
  shows "inj_on (approval_key_from_request x) R"
proof (rule inj_onI)
  fix r r' assume "r \<in> R" "r' \<in> R" "approval_key_from_request x r = approval_key_from_request x r'"
  moreover from this(1,2) assms(2) obtain t t' where "serialized x r = Some t" "serialized x r' = Some t'"
    by (metis imageI not_None_eq)
  ultimately show "r = r'" using inj_onD [OF assms(1)] by (simp add: approval_key_from_request_def)
qed

text \<open>C19: approvals are used once: when the user has granted some requests, a request put to the
  policy afterwards is allowed by approval exactly if the engine asks about it, it is one of those
  granted, and it has not been put before; every other request gets what the engine says, so a
  forbidden one is denied. The grants of the others are left. (The requests concerned serialise, to
  different texts.)\<close>

theorem approval_is_used_once:
  assumes "approved_run (engine_evaluate glob e) (approval_key_from_request x)
      (approval_key_from_request x ` granted) rs = (evs, S')"
    and "inj_on (serialized x) (granted \<union> set rs)" "None \<notin> serialized x ` (granted \<union> set rs)"
  shows "length evs = length rs \<and>
    (\<forall>i < length rs. evs ! i =
       (if decision (engine_evaluate glob e (rs ! i)) = Ask \<and> rs ! i \<in> granted - set (take i rs)
        then evaluation Allow ''user-approval'' ''the user approved this exact action once''
        else engine_evaluate glob e (rs ! i)) \<and>
       (forbidden glob e (rs ! i) \<longrightarrow> decision (evs ! i) = Deny)) \<and>
    S' = approval_key_from_request x `
      {r \<in> granted. \<not> (r \<in> set rs \<and> decision (engine_evaluate glob e r) = Ask)}"
  using approved_run_exact [OF assms(1) approval_key_inject [OF assms(2,3)]] engine.forbidden_denied
  by (auto simp: user_approval_def)

theorem approval_is_used_once_witness:
  "let r = command_request ''/w'' ''rm build''; other = command_request ''/w'' ''rm src'';
       x = \<lparr>serialized = request_command, debug_text = id\<rparr>; e = sample_engine NormalMode []
   in \<exists>evs S'. approved_run (engine_evaluate sample_glob e) (approval_key_from_request x)
        (approval_key_from_request x ` {r}) [other, r, r] = (evs, S') \<and>
      map decision evs = [Ask, Allow, Ask] \<and> S' = {}"
proof -
  let ?r = "command_request ''/w'' ''rm build''" and ?other = "command_request ''/w'' ''rm src''"
  let ?e = "sample_engine NormalMode []"
  let ?x = "\<lparr>serialized = request_command, debug_text = id\<rparr>"
  have "request_risks ?e ?r = {Process, Destructive}" "in_bounds ?r"
    "request_risks ?e ?other = {Process, Destructive}" "in_bounds ?other" by code_simp+
  then have ask: "decision (engine_evaluate sample_glob ?e ?r) = Ask"
      "decision (engine_evaluate sample_glob ?e ?other) = Ask"
    by (simp_all add: engine_decision forbidden_def deny_rule_matches_def rules_ok_def sensitive_risks_def)
  obtain evs S' where run: "approved_run (engine_evaluate sample_glob ?e) (approval_key_from_request ?x)
      (approval_key_from_request ?x ` {?r}) [?other, ?r, ?r] = (evs, S')"
    by fastforce
  have "inj_on (serialized ?x) ({?r} \<union> set [?other, ?r, ?r])" "None \<notin> serialized ?x ` ({?r} \<union> set [?other, ?r, ?r])"
    by (auto simp: inj_on_def command_request_def)
  note once = approval_is_used_once [OF run this]
  have "?r \<noteq> ?other" by (simp add: command_request_def)
  have step: "evs ! i = (if decision (engine_evaluate sample_glob ?e ([?other, ?r, ?r] ! i)) = Ask \<and>
      [?other, ?r, ?r] ! i \<in> {?r} - set (take i [?other, ?r, ?r])
        then evaluation Allow ''user-approval'' ''the user approved this exact action once''
        else engine_evaluate sample_glob ?e ([?other, ?r, ?r] ! i))" if "i < 3" for i
    using once that by simp
  have "decision (evs ! 0) = Ask" "decision (evs ! 1) = Allow" "decision (evs ! 2) = Ask"
    using step [of 0] step [of 1] step [of 2] ask \<open>?r \<noteq> ?other\<close> by (simp_all add: evaluation_def)
  moreover have "length evs = 3" and "S' = {}" using once ask by auto
  moreover from this(1) obtain a b d where "evs = [a, b, d]"
    by (auto simp: length_Suc_conv numeral_3_eq_3)
  ultimately have "map decision evs = [Ask, Allow, Ask] \<and> S' = {}" by simp
  with run show ?thesis by (auto simp: Let_def)
qed

end
