(* ===== verification/Agent_Completion.thy ===== *)
theory Agent_Completion
  imports Agent_Plan Agent_Approval
begin

section \<open>harness-agent: limits and the end of a task\<close>

text \<open>
  How a run ends: the directives in a final answer, the dispositions of verification failures
  as unrelated, the configured limits, and the events a run emits when it finishes or aborts.
  The map of unresolved errors is the list of its entries (the order of a \<open>HashMap\<close> is
  unspecified); events are the list of payloads handed to \<open>emit\<close>, which is assumed to succeed.
\<close>

subsection \<open>Directives in the final answer\<close>

definition parse_completion_directive :: "string \<Rightarrow> task_completion_status option \<times> string" where
  "parse_completion_directive t =
     (let trimmed = trim t
      in case strip_prefix_str ''[USER_INPUT_REQUIRED]'' trimmed of
           Some msg \<Rightarrow> (Some UserInputRequired, trim msg)
         | None \<Rightarrow>
             (case strip_prefix_str ''[BLOCKED]'' trimmed of
                Some msg \<Rightarrow> (Some Blocked, trim msg)
              | None \<Rightarrow> (None, t)))"

definition unrelated_marker :: string where
  "unrelated_marker = ''[UNRELATED_VERIFICATION]''"

definition disposition_of :: "string \<Rightarrow> (string \<times> string) option" where
  "disposition_of line =
     (case strip_prefix_str unrelated_marker (trim line) of
        None \<Rightarrow> None
      | Some v \<Rightarrow>
          (case split_once '' :: '' (trim v) of
             None \<Rightarrow> None
           | Some (c, reason) \<Rightarrow>
               if trim c \<noteq> [] \<and> trim reason \<noteq> [] then Some (trim c, trim reason) else None))"

definition parse_unrelated_verification_directives ::
  "string \<Rightarrow> string \<times> (string \<times> string) list" where
  "parse_unrelated_verification_directives t =
     (let lines = str_lines t
      in (trim (join [newline] (filter (\<lambda>l. disposition_of l = None) lines)),
          List.map_filter disposition_of lines))"

subsection \<open>Unrelated verification failures\<close>

type_synonym error_map = "(string \<times> string) list"

definition remove_key :: "string \<Rightarrow> error_map \<Rightarrow> error_map" where
  "remove_key k errs = filter (\<lambda>(k', _). k' \<noteq> k) errs"

definition disposes :: "string \<Rightarrow> string \<Rightarrow> bool" where
  "disposes cmd key =
     (case strip_prefix_str ''verification:'' key of
        None \<Rightarrow> False
      | Some suff \<Rightarrow>
          suff = cmd \<or>
          (case split_once '':'' suff of None \<Rightarrow> False
           | Some (category, cand) \<Rightarrow> category \<noteq> ''GitDiff'' \<and> cand = cmd))"

definition classify_unrelated :: "string \<Rightarrow> task_verification_result \<Rightarrow> task_verification_result" where
  "classify_unrelated reason v =
     v\<lparr>vr_failure_origin := Some ''unrelated'',
       vr_summary := bounded_summary (vr_summary v @ '' | agent classified as unrelated: '' @ reason)\<rparr>"

text \<open>The latest failed result of the command is updated: the first one from the end.\<close>

definition dispose_one ::
  "error_map \<times> task_verification_result list \<times> bool \<Rightarrow> string \<times> string \<Rightarrow>
   error_map \<times> task_verification_result list \<times> bool" where
  "dispose_one acc d =
     (case acc of (errs, results, applied) \<Rightarrow>
      case d of (cmd, reason) \<Rightarrow>
        if list_ex (\<lambda>(k, _). disposes cmd k) errs
        then (filter (\<lambda>(k, _). \<not> disposes cmd k) errs,
              rev (update_first (\<lambda>v. vr_command v = cmd \<and> \<not> vr_passed v)
                (classify_unrelated reason) (rev results)),
              True)
        else acc)"

definition apply_unrelated_verification_dispositions ::
  "task_run \<Rightarrow> error_map \<Rightarrow> (string \<times> string) list \<Rightarrow> bool \<Rightarrow> task_run \<times> error_map \<times> bool" where
  "apply_unrelated_verification_dispositions tr errs dispositions validated =
     (let (errs, results, applied) =
            foldl dispose_one (errs, run_verification_results tr, False) dispositions;
          errs = (if applied then remove_key ''verification:after_last_edit'' errs else errs)
      in (tr\<lparr>run_verification_results := results, unresolved_errors := map snd errs\<rparr>, errs,
          validated \<or> applied))"

subsection \<open>Limits\<close>

record agent_limits =
  max_turns :: nat
  max_tool_calls :: nat
  max_runtime :: nat
  max_model_tokens :: nat
  max_estimated_cost_microusd :: "nat option"
  max_repeated_tool_calls :: nat
  max_repeated_failures :: nat

text \<open>Durations are nanoseconds.\<close>

definition seconds :: "nat \<Rightarrow> nat" where
  "seconds n = n * 1000000000"

definition agent_limits_default :: agent_limits where
  "agent_limits_default =
     \<lparr>max_turns = 256, max_tool_calls = 512, max_runtime = seconds 3600,
      max_model_tokens = 1000000, max_estimated_cost_microusd = None,
      max_repeated_tool_calls = 3, max_repeated_failures = 3\<rparr>"

text \<open>\<open>10_u64.pow(6 - len)\<close>; the checked operations fail above \<open>u64::MAX\<close>.\<close>

definition decimal_microusd :: "string \<Rightarrow> nat option" where
  "decimal_microusd v =
     (let (whole, fraction) = (case split_once ''.'' (trim v) of
            None \<Rightarrow> (trim v, []) | Some p \<Rightarrow> p)
      in case parse_u64 whole of
           None \<Rightarrow> None
         | Some w \<Rightarrow>
             let fraction = concat (take 6 (utf8_chars fraction))
             in case (if fraction = [] then Some 0
                      else map_option (\<lambda>n. n * 10 ^ (6 - length fraction)) (parse_u64 fraction)) of
                  None \<Rightarrow> None
                | Some f \<Rightarrow>
                    if w * 1000000 + f \<le> u64_max then Some (w * 1000000 + f) else None)"

definition env_number :: "(string \<Rightarrow> nat option) \<Rightarrow> (string \<rightharpoonup> string) \<Rightarrow> string \<Rightarrow> nat \<Rightarrow> nat" where
  "env_number parse env name current =
     (case env name of None \<Rightarrow> current
      | Some v \<Rightarrow> (case parse v of None \<Rightarrow> current | Some n \<Rightarrow> n))"

definition agent_limits_from_env :: "(string \<rightharpoonup> string) \<Rightarrow> agent_limits" where
  "agent_limits_from_env env =
     (let d = agent_limits_default in
      \<lparr>max_turns = env_number parse_u32 env ''COGITO_AGENT_MAX_TURNS'' (max_turns d),
       max_tool_calls = env_number parse_u32 env ''COGITO_AGENT_MAX_TOOL_CALLS'' (max_tool_calls d),
       max_runtime = env_number (\<lambda>v. map_option seconds (parse_u64 v)) env
         ''COGITO_AGENT_MAX_RUNTIME_SECONDS'' (max_runtime d),
       max_model_tokens = env_number parse_u64 env ''COGITO_AGENT_MAX_MODEL_TOKENS'' (max_model_tokens d),
       max_estimated_cost_microusd = (case env ''COGITO_AGENT_MAX_COST_USD'' of
         None \<Rightarrow> max_estimated_cost_microusd d | Some v \<Rightarrow> decimal_microusd v),
       max_repeated_tool_calls = env_number parse_u32 env ''COGITO_AGENT_MAX_REPEATED_TOOL_CALLS''
         (max_repeated_tool_calls d),
       max_repeated_failures = env_number parse_u32 env ''COGITO_AGENT_MAX_REPEATED_FAILURES''
         (max_repeated_failures d)\<rparr>)"

record usage =
  input_tokens :: "nat option"
  output_tokens :: "nat option"
  total_tokens :: "nat option"

record model_pricing =
  input_usd_per_million_tokens :: "string option"
  output_usd_per_million_tokens :: "string option"

definition usage_tokens :: "usage option \<Rightarrow> nat" where
  "usage_tokens u =
     (case u of None \<Rightarrow> 0
      | Some u \<Rightarrow>
          (case total_tokens u of Some t \<Rightarrow> t
           | None \<Rightarrow> (case (input_tokens u, output_tokens u) of
               (Some i, Some out) \<Rightarrow> i + out | _ \<Rightarrow> 0)))"

definition estimate_cost_microusd :: "usage option \<Rightarrow> model_pricing option \<Rightarrow> nat option" where
  "estimate_cost_microusd u p =
     Option.bind u (\<lambda>u. Option.bind p (\<lambda>p.
     Option.bind (input_tokens u) (\<lambda>i. Option.bind (output_tokens u) (\<lambda>out.
     Option.bind (Option.bind (input_usd_per_million_tokens p) decimal_microusd) (\<lambda>ir.
     Option.bind (Option.bind (output_usd_per_million_tokens p) decimal_microusd) (\<lambda>orate.
     Some (sat_add64 (sat_mul64 ir i) (sat_mul64 orate out) div 1000000)))))))"

definition limit_reason ::
  "agent_limits \<Rightarrow> nat \<Rightarrow> nat \<Rightarrow> nat \<Rightarrow> nat \<Rightarrow> nat option \<Rightarrow> string option" where
  "limit_reason l elapsed turns used_calls tokens cost =
     (if max_turns l < turns then Some ''max_turns''
      else if max_tool_calls l < used_calls then Some ''max_tool_calls''
      else if 0 < max_model_tokens l \<and> max_model_tokens l < tokens then Some ''max_model_tokens''
      else if max_runtime l \<noteq> 0 \<and> max_runtime l < elapsed then Some ''max_runtime''
      else if (case (max_estimated_cost_microusd l, cost) of
          (Some limit, Some c) \<Rightarrow> limit < c | _ \<Rightarrow> False) then Some ''max_estimated_cost''
      else None)"

subsection \<open>Ending a run\<close>

text \<open>The payloads \<open>abort_with_task_run\<close> and \<open>fail\<close> emit, in order.\<close>

definition abort_with_task_run :: "task_run \<Rightarrow> agent_error \<Rightarrow> event_payload list" where
  "abort_with_task_run tr err =
     [TaskRunUpdated (finish_plan_state tr), SessionFailed (agent_error_text err)]"

definition check_limits ::
  "agent_limits \<Rightarrow> bool \<Rightarrow> nat \<Rightarrow> nat \<Rightarrow> nat \<Rightarrow> nat \<Rightarrow> nat option \<Rightarrow> task_run \<Rightarrow>
   (agent_error + unit) \<times> task_run \<times> event_payload list" where
  "check_limits l cancelled elapsed turns used_calls tokens cost tr =
     (if cancelled
      then let tr = tr\<lparr>completion_status := Cancelled, current_phase := Finish\<rparr>
           in (Inl AgentCancelled, tr, abort_with_task_run tr AgentCancelled)
      else case limit_reason l elapsed turns used_calls tokens cost of
        Some limit \<Rightarrow>
          let tr = tr\<lparr>completion_status := ResourceLimitReached, current_phase := Finish,
                run_remaining_work := [''Task stopped at configured limit: '' @ limit]\<rparr>
          in (Inl (LimitExceeded limit), tr, abort_with_task_run tr (LimitExceeded limit))
      | None \<Rightarrow> (Inr (), tr, []))"

fun completion_reason :: "task_completion_status \<Rightarrow> string option" where
  "completion_reason Done = None"
| "completion_reason Blocked = Some ''blocked''"
| "completion_reason UserInputRequired = Some ''user_input_required''"
| "completion_reason ResourceLimitReached = Some ''resource_limit_reached''"
| "completion_reason Cancelled = Some ''cancelled''"
| "completion_reason StatusInProgress = Some ''incomplete''"

record agent_outcome =
  final_message :: string
  outcome_status :: task_completion_status
  outcome_remaining_work :: "string list"

text \<open>\<open>hook\<close> is the error of the SessionEnd hooks, if they fail.\<close>

definition finish_task_run ::
  "string option \<Rightarrow> task_run \<Rightarrow> string \<Rightarrow> agent_outcome \<times> event_payload list" where
  "finish_task_run hook tr msg =
     (let (tr, msg) = (case hook of None \<Rightarrow> (tr, msg)
            | Some err \<Rightarrow>
                let m = ''SessionEnd hook failed: '' @ err
                in (tr\<lparr>completion_status := Blocked, unresolved_errors := unresolved_errors tr @ [m],
                      run_remaining_work := run_remaining_work tr @ [m]\<rparr>,
                    msg @ [newline, newline] @ m));
          tr = finish_plan_state tr
      in (\<lparr>final_message = msg, outcome_status = completion_status tr,
           outcome_remaining_work = run_remaining_work tr\<rparr>,
          [TaskRunUpdated tr, SessionCompleted (completion_reason (completion_status tr))]))"

definition finish_blocked_task ::
  "string option \<Rightarrow> task_run \<Rightarrow> string \<Rightarrow> agent_outcome \<times> event_payload list" where
  "finish_blocked_task hook tr reason =
     (let tr = tr\<lparr>current_phase := Finish, completion_status := Blocked,
            run_remaining_work := (if unresolved_errors tr = [] then [bounded_summary reason]
              else unresolved_errors tr)\<rparr>;
          msg = ''Blocked: '' @ bounded_summary reason;
          (outcome, events) = finish_task_run hook tr msg
      in (outcome, AssistantMessage msg # events))"

subsection \<open>What a disposition can remove\<close>

text \<open>The invariant of the loop: only keys under \<open>verification:\<close> that a disposition names go.\<close>

lemma dispose_one_errs:
  "fst (dispose_one (errs, results, applied) d) = filter (\<lambda>(k, _). \<not> disposes (fst d) k) errs"
proof (cases "list_ex (\<lambda>(k, _). disposes (fst d) k) errs")
  case False
  then have "filter (\<lambda>(k, _). \<not> disposes (fst d) k) errs = errs"
    by (auto simp: list_ex_iff filter_id_conv)
  with False show ?thesis by (simp add: dispose_one_def case_prod_beta)
qed (simp add: dispose_one_def case_prod_beta)

lemma dispose_fold_errs:
  "fst (foldl dispose_one (errs, results, applied) ds) =
     filter (\<lambda>(k, _). \<forall>d \<in> set ds. \<not> disposes (fst d) k) errs"
proof (induction ds arbitrary: errs results applied)
  case (Cons d ds)
  obtain errs1 results1 applied1 where step: "dispose_one (errs, results, applied) d = (errs1, results1, applied1)"
    by (cases "dispose_one (errs, results, applied) d")
  then have "errs1 = filter (\<lambda>(k, _). \<not> disposes (fst d) k) errs"
    using dispose_one_errs [of errs results applied d] by simp
  with Cons.IH [of errs1 results1 applied1] step show ?case
    by (auto simp: case_prod_beta intro: filter_cong)
qed simp

lemma disposes_verification: "disposes cmd k \<Longrightarrow> starts_with k ''verification:''"
  by (auto simp: disposes_def strip_prefix_str_def split: if_splits option.splits)

text \<open>declaring verification failures unrelated never removes any other error: an entry goes
  only if its key is under \<open>verification:\<close>, and it is either named by a disposition or the
  reminder to validate after the last edit; the task run lists exactly the entries that
  remain.\<close>

theorem dispositions_remove_verification_only:
  assumes "apply_unrelated_verification_dispositions tr errs ds validated = (tr', errs', validated')"
    and "(k, v) \<in> set errs" "(k, v) \<notin> set errs'"
  shows "starts_with k ''verification:'' \<and>
    ((\<exists>d \<in> set ds. disposes (fst d) k) \<or> k = ''verification:after_last_edit'') \<and>
    set errs' \<subseteq> set errs \<and> unresolved_errors tr' = map snd errs'"
proof -
  obtain errs1 results applied where fold:
    "foldl dispose_one (errs, run_verification_results tr, False) ds = (errs1, results, applied)"
    by (cases "foldl dispose_one (errs, run_verification_results tr, False) ds")
  then have errs1: "errs1 = filter (\<lambda>(k, _). \<forall>d \<in> set ds. \<not> disposes (fst d) k) errs"
    using dispose_fold_errs [of errs "run_verification_results tr" False ds] by simp
  from assms(1) fold have errs': "errs' = (if applied
      then remove_key ''verification:after_last_edit'' errs1 else errs1)"
    "unresolved_errors tr' = map snd errs'"
    by (auto simp: apply_unrelated_verification_dispositions_def Let_def)
  then have "(\<exists>d \<in> set ds. disposes (fst d) k) \<or> k = ''verification:after_last_edit''"
    using assms(2,3) errs1 by (auto simp: remove_key_def split: if_splits)
  moreover have "set errs' \<subseteq> set errs" using errs' errs1 by (auto simp: remove_key_def)
  ultimately show ?thesis using errs'(2) disposes_verification by auto
qed

theorem dispositions_remove_verification_only_witness:
  "starts_with ''verification:Test:cargo test'' ''verification:'' \<and>
   disposes ''cargo test'' ''verification:Test:cargo test''"
proof -
  let ?errs = "[(''verification:Test:cargo test'', ''e''), (''tool:x'', ''f'')]"
  have d: "disposes ''cargo test'' ''verification:Test:cargo test''" "\<not> disposes ''cargo test'' ''tool:x''"
    by code_simp+
  obtain tr' errs' v' where app: "apply_unrelated_verification_dispositions (task_run_new ''g'') ?errs
      [(''cargo test'', ''flaky'')] False = (tr', errs', v')"
    by (cases "apply_unrelated_verification_dispositions (task_run_new ''g'') ?errs
      [(''cargo test'', ''flaky'')] False")
  with d have "(''verification:Test:cargo test'', ''e'') \<notin> set errs'"
    by (auto simp: apply_unrelated_verification_dispositions_def dispose_one_def remove_key_def Let_def)
  from dispositions_remove_verification_only [OF app _ this] d(1) show ?thesis by simp
qed

text \<open>the exclusion of the final diff can be talked round: naming the failure with its
  category, \<open>GitDiff:<command>\<close>, removes it, although naming its command does not; a final
  answer can carry that directive.\<close>

theorem git_diff_failure_can_be_dismissed:
  "\<not> disposes ''git diff --stat'' ''verification:GitDiff:git diff --stat'' \<and>
   fst (snd (apply_unrelated_verification_dispositions tr
     [(''verification:GitDiff:git diff --stat'', msg)] [(''GitDiff:git diff --stat'', reason)] validated)) = [] \<and>
   disposition_of ''[UNRELATED_VERIFICATION] GitDiff:git diff --stat :: old'' =
     Some (''GitDiff:git diff --stat'', ''old'')"
proof -
  have "\<not> disposes ''git diff --stat'' ''verification:GitDiff:git diff --stat''"
    "disposes ''GitDiff:git diff --stat'' ''verification:GitDiff:git diff --stat''"
    "disposition_of ''[UNRELATED_VERIFICATION] GitDiff:git diff --stat :: old'' =
       Some (''GitDiff:git diff --stat'', ''old'')"
    by code_simp+
  then show ?thesis
    by (simp add: apply_unrelated_verification_dispositions_def dispose_one_def remove_key_def Let_def)
qed

end
