(* ===== verification/Agent_History.thy ===== *)
theory Agent_History
  imports Context_Properties
begin

section \<open>harness-agent: the model history and its budget\<close>

text \<open>
  The two lists of the context metrics grow and shrink together, so that the code's
  \<open>remove(0)\<close> finds an element in both. The messages of \<open>harness-models/src/lib.rs\<close> and the functions of the agent that measure and
  shorten them. The length of serialised tool arguments comes from \<open>serde_json\<close>: the parameter
  \<open>arg_len\<close>. Byte counts of a history are natural numbers (they never reach the width of
  \<open>usize\<close>); token counts saturate at \<open>u32::MAX\<close> as in the code.
\<close>

datatype role = SystemRole | Developer | UserRole | AssistantRole | ToolRole

datatype content_block = Text string | Image string string | Reasoning string

record tool_call =
  call_id :: string
  call_name :: string
  arguments :: json

record message =
  role :: role
  content :: "content_block list"
  msg_name :: "string option"
  tool_call_id :: "string option"
  tool_calls :: "tool_call list"
  msg_is_error :: bool

subsection \<open>Estimating\<close>

fun block_bytes :: "content_block \<Rightarrow> nat" where
  "block_bytes (Text t) = length t"
| "block_bytes (Reasoning t) = length t"
| "block_bytes (Image media d) = length d + length media"

definition call_bytes :: "(json \<Rightarrow> nat) \<Rightarrow> tool_call \<Rightarrow> nat" where
  "call_bytes arg_len c = length (call_id c) + length (call_name c) + arg_len (arguments c)"

definition message_tokens :: "(json \<Rightarrow> nat) \<Rightarrow> message \<Rightarrow> nat" where
  "message_tokens arg_len m =
     (let content_bytes = sum_list (map block_bytes (content m));
          calls = sum_list (map (call_bytes arg_len) (tool_calls m))
      in min ((content_bytes + calls + 3) div 4) u32_max)"

definition estimate_model_history_tokens :: "(json \<Rightarrow> nat) \<Rightarrow> message list \<Rightarrow> nat" where
  "estimate_model_history_tokens arg_len ms = foldl sat_add32 0 (map (message_tokens arg_len) ms)"

subsection \<open>Trimming\<close>

definition history_marker :: string where
  "history_marker = newline # ''[tool history trimmed]''"

definition truncate_history_text :: "string \<Rightarrow> nat \<Rightarrow> string" where
  "truncate_history_text s max_bytes =
     (if length s \<le> max_bytes then s
      else if max_bytes = 0 then []
      else
        let payload = max_bytes - length history_marker;
            head_bytes = payload div 2;
            tail_bytes = payload - head_bytes;
            head_end = floor_boundary s (min head_bytes (length s));
            tail_start = ceil_boundary s (length s - tail_bytes);
            result = take head_end s @ history_marker @ drop tail_start s
        in if max_bytes < length result
           then take (floor_boundary result (min max_bytes (length result))) result
           else result)"

definition executed_arguments :: json where
  "executed_arguments = JObject [(''previously_executed'', JBool True)]"

definition strip_arguments :: "message \<Rightarrow> message" where
  "strip_arguments m =
     m\<lparr>tool_calls := map (\<lambda>c. c\<lparr>arguments := executed_arguments\<rparr>) (tool_calls m)\<rparr>"

fun trim_block :: "nat \<Rightarrow> content_block \<Rightarrow> content_block" where
  "trim_block n (Text t) = Text (truncate_history_text t n)"
| "trim_block n b = b"

definition trim_tool_message :: "nat \<Rightarrow> message \<Rightarrow> message" where
  "trim_tool_message n m = (if role m = ToolRole then m\<lparr>content := map (trim_block n) (content m)\<rparr> else m)"

definition tool_message_count :: "message list \<Rightarrow> nat" where
  "tool_message_count ms = max (length (filter (\<lambda>m. role m = ToolRole) ms)) 1"

definition fixed_history_tokens :: "(json \<Rightarrow> nat) \<Rightarrow> message list \<Rightarrow> nat" where
  "fixed_history_tokens arg_len ms =
     sat_add32 (foldl sat_add32 0 (map (\<lambda>m. estimate_model_history_tokens arg_len [m])
         (filter (\<lambda>m. role m \<noteq> ToolRole) ms)))
       (min (tool_message_count ms) u32_max)"

definition trim_model_history_to_budget ::
  "(json \<Rightarrow> nat) \<Rightarrow> message list \<Rightarrow> nat \<Rightarrow> message list" where
  "trim_model_history_to_budget arg_len ms max_tokens =
     (if estimate_model_history_tokens arg_len ms \<le> max_tokens then ms
      else
        let ms = map strip_arguments ms in
        if estimate_model_history_tokens arg_len ms \<le> max_tokens then ms
        else
          let available = max_tokens - fixed_history_tokens arg_len ms;
              per_result = sat_mul64 available 4 div tool_message_count ms
          in map (trim_tool_message per_result) ms)"

definition context_reuse_tokens :: "context_item list \<Rightarrow> context_item list \<Rightarrow> nat" where
  "context_reuse_tokens previous current =
     foldl sat_add32 0 (List.map_filter (\<lambda>it.
         map_option (\<lambda>old. min (item_tokens old) (item_tokens it))
           (find (\<lambda>old. included old \<and> item_id old = item_id it \<and> item_content old = item_content it)
             previous))
       (filter included current))"

subsection \<open>Context metrics\<close>

definition record_context_request :: "context_metrics \<Rightarrow> nat \<Rightarrow> nat \<Rightarrow> context_metrics" where
  "record_context_request m estimated reused =
     (let full = 512 \<le> length (estimated_tokens_per_turn m);
          est = (if full then drop 1 (estimated_tokens_per_turn m) else estimated_tokens_per_turn m);
          rep = (if full then drop 1 (reported_input_tokens_per_turn m)
                 else reported_input_tokens_per_turn m)
      in m\<lparr>estimated_tokens_per_turn := est @ [estimated],
           reported_input_tokens_per_turn := rep @ [None],
           estimated_tokens_sent := sat_add64 (estimated_tokens_sent m) estimated,
           reused_context_tokens := sat_add64 (reused_context_tokens m) reused\<rparr>)"

definition record_context_response :: "context_metrics \<Rightarrow> nat option \<Rightarrow> context_metrics" where
  "record_context_response m reported =
     (if reported_input_tokens_per_turn m = [] then m
      else m\<lparr>reported_input_tokens_per_turn :=
        butlast (reported_input_tokens_per_turn m) @ [reported]\<rparr>)"

subsection \<open>Bounds\<close>

lemma cut_length: "length (if n < length r then take (floor_boundary r (min n (length r))) r else r) \<le> n"
  using floor_boundary_le [of r "min n (length r)"] by (auto simp del: floor_boundary_le)

lemma length_truncate_history_text [len_bounds]: "length (truncate_history_text s n) \<le> n"
proof (cases "length s \<le> n \<or> n = 0")
  case False
  then show ?thesis
    unfolding truncate_history_text_def Let_def
    by (simp only: de_Morgan_disj if_False cut_length simp_thms)
qed (auto simp: truncate_history_text_def)

interpretation history: byte_bounded truncate_history_text
  by unfold_locales (rule length_truncate_history_text, simp add: truncate_history_text_def)

lemma foldl_sat_add32: "foldl sat_add32 (min a u32_max) xs = min (a + sum_list xs) u32_max"
proof (induction xs arbitrary: a)
  case (Cons x xs)
  have "sat_add32 (min a u32_max) x = min (a + x) u32_max" by (simp add: sat_add32_def min_def)
  with Cons [of "a + x"] show ?case by (simp add: add.assoc)
qed simp

lemma history_tokens_sum:
  "estimate_model_history_tokens f ms = min (sum_list (map (message_tokens f) ms)) u32_max"
  using foldl_sat_add32 [of 0] by (simp add: estimate_model_history_tokens_def)

lemma message_tokens_max: "message_tokens f m \<le> u32_max"
  by (simp add: message_tokens_def Let_def)

lemma fixed_tokens_sum:
  "fixed_history_tokens f ms =
     min (sum_list (map (message_tokens f) (filter (\<lambda>m. role m \<noteq> ToolRole) ms)) + tool_message_count ms) u32_max"
proof -
  have one: "estimate_model_history_tokens f [m] = message_tokens f m" for m
    using message_tokens_max [of f m] by (simp add: history_tokens_sum)
  show ?thesis
    using foldl_sat_add32 [of 0] by (simp add: fixed_history_tokens_def one sat_add32_def min_def)
qed

text \<open>A tool message as the agent builds it: one text, no calls of its own.\<close>

definition plain_tool_message :: "message \<Rightarrow> bool" where
  "plain_tool_message m \<longleftrightarrow> role m = ToolRole \<longrightarrow> (\<exists>t. content m = [Text t]) \<and> tool_calls m = []"

lemma trimmed_message_tokens:
  assumes "plain_tool_message m" "role m = ToolRole"
  shows "message_tokens f (trim_tool_message n m) \<le> n div 4 + 1"
proof -
  from assms obtain t where t: "content m = [Text t]" "tool_calls m = []"
    by (auto simp: plain_tool_message_def)
  then have "message_tokens f (trim_tool_message n m) \<le> (length (truncate_history_text t n) + 3) div 4"
    using assms(2) by (simp add: message_tokens_def trim_tool_message_def Let_def)
  also have "\<dots> \<le> (n + 3) div 4"
    by (intro div_le_mono add_right_mono length_truncate_history_text)
  also have "\<dots> \<le> n div 4 + 1" by simp
  finally show ?thesis .
qed

lemma sum_by_role:
  fixes g :: "message \<Rightarrow> nat"
  shows "sum_list (map g ms) = sum_list (map g (filter (\<lambda>m. role m \<noteq> ToolRole) ms)) +
    sum_list (map g (filter (\<lambda>m. role m = ToolRole) ms))"
  by (induction ms) auto

lemma trimmed_sum:
  assumes "\<forall>m \<in> set ms. plain_tool_message m"
  shows "sum_list (map (message_tokens f) (map (trim_tool_message n) ms)) \<le>
    sum_list (map (message_tokens f) (filter (\<lambda>m. role m \<noteq> ToolRole) ms)) +
    (n div 4 + 1) * length (filter (\<lambda>m. role m = ToolRole) ms)"
  using assms
proof (induction ms)
  case (Cons m ms)
  then show ?case
    using trimmed_message_tokens [of m f n] by (auto simp: trim_tool_message_def algebra_simps)
qed simp

lemma strip_arguments_simps [simp]:
  "role (strip_arguments m) = role m" "content (strip_arguments m) = content m"
  "plain_tool_message (strip_arguments m) = plain_tool_message m"
  by (simp_all add: strip_arguments_def plain_tool_message_def)

lemma trim_keeps_pairing:
  "map (\<lambda>m. (role m, msg_name m, tool_call_id m, map (\<lambda>c. (call_id c, call_name c)) (tool_calls m)))
     (trim_model_history_to_budget f ms n) =
   map (\<lambda>m. (role m, msg_name m, tool_call_id m, map (\<lambda>c. (call_id c, call_name c)) (tool_calls m))) ms"
  by (simp add: trim_model_history_to_budget_def Let_def trim_tool_message_def strip_arguments_def comp_def)

text \<open>C28: trimming fits a history into its budget whenever that is possible at all: when the
  messages that are no tool results (with their arguments replaced) leave one token for each
  tool result, the trimmed history is within the budget. It never drops a message and keeps
  every role, name, identifier and tool call.\<close>

theorem trimmed_history_fits:
  assumes "\<forall>m \<in> set ms. plain_tool_message m"
    and "fixed_history_tokens arg_len (map strip_arguments ms) \<le> max_tokens" "max_tokens < u32_max"
  shows "estimate_model_history_tokens arg_len (trim_model_history_to_budget arg_len ms max_tokens) \<le> max_tokens \<and>
    map (\<lambda>m. (role m, msg_name m, tool_call_id m, map (\<lambda>c. (call_id c, call_name c)) (tool_calls m)))
        (trim_model_history_to_budget arg_len ms max_tokens) =
      map (\<lambda>m. (role m, msg_name m, tool_call_id m, map (\<lambda>c. (call_id c, call_name c)) (tool_calls m))) ms"
proof
  let ?ms = "map strip_arguments ms"
  let ?fixed = "sum_list (map (message_tokens arg_len) (filter (\<lambda>m. role m \<noteq> ToolRole) ?ms))"
  let ?count = "tool_message_count ?ms"
  let ?avail = "max_tokens - fixed_history_tokens arg_len ?ms"
  let ?per = "sat_mul64 ?avail 4 div ?count"
  show "estimate_model_history_tokens arg_len (trim_model_history_to_budget arg_len ms max_tokens) \<le> max_tokens"
  proof (cases "estimate_model_history_tokens arg_len ms \<le> max_tokens \<or>
      estimate_model_history_tokens arg_len ?ms \<le> max_tokens")
    case True
    then show ?thesis by (auto simp: trim_model_history_to_budget_def Let_def)
  next
    case False
    have fixed: "fixed_history_tokens arg_len ?ms = ?fixed + ?count"
      using assms(2,3) by (simp add: fixed_tokens_sum min_def split: if_splits)
    have avail: "sat_mul64 ?avail 4 = ?avail * 4"
      using assms(3) by (simp add: sat_mul64_def u32_max_def u64_max_def min_def)
    have "?per div 4 * ?count \<le> ?avail"
    proof -
      have "?per div 4 * ?count * 4 \<le> ?per * ?count" by (simp add: mult.commute mult_le_mono2)
      also have "\<dots> \<le> ?avail * 4" unfolding avail by (rule div_times_less_eq_dividend)
      finally show ?thesis by simp
    qed
    then have step: "(?per div 4 + 1) * ?count \<le> ?avail + ?count" by (simp add: algebra_simps)
    have "length (filter (\<lambda>m. role m = ToolRole) ?ms) \<le> ?count" by (simp add: tool_message_count_def)
    then have "(?per div 4 + 1) * length (filter (\<lambda>m. role m = ToolRole) ?ms) \<le> ?avail + ?count"
      using step mult_le_mono2 order_trans by blast
    moreover have "\<forall>m \<in> set ?ms. plain_tool_message m" using assms(1) by simp
    ultimately have "sum_list (map (message_tokens arg_len) (map (trim_tool_message ?per) ?ms)) \<le>
        ?fixed + (?avail + ?count)"
      using trimmed_sum [of ?ms arg_len ?per] by linarith
    also have "\<dots> \<le> max_tokens" using fixed assms(2) by linarith
    finally show ?thesis
      using False by (simp add: trim_model_history_to_budget_def Let_def history_tokens_sum min_def)
  qed
qed (rule trim_keeps_pairing)

theorem trimmed_history_fits_witness:
  "estimate_model_history_tokens (\<lambda>_. 10) (trim_model_history_to_budget (\<lambda>_. 10)
     [\<lparr>role = UserRole, content = [Text ''fix it''], msg_name = None, tool_call_id = None,
       tool_calls = [], msg_is_error = False\<rparr>,
      \<lparr>role = ToolRole, content = [Text (replicate 500 CHR ''x'')], msg_name = None,
       tool_call_id = Some ''1'', tool_calls = [], msg_is_error = False\<rparr>] 50) \<le> 50"
proof -
  let ?ms = "[\<lparr>role = UserRole, content = [Text ''fix it''], msg_name = None, tool_call_id = None,
       tool_calls = [], msg_is_error = False\<rparr>,
      \<lparr>role = ToolRole, content = [Text (replicate 500 CHR ''x'')], msg_name = None,
       tool_call_id = Some ''1'', tool_calls = [], msg_is_error = False\<rparr>]"
  have "\<forall>m \<in> set ?ms. plain_tool_message m" by (simp add: plain_tool_message_def)
  moreover have "fixed_history_tokens (\<lambda>_. 10) (map strip_arguments ?ms) \<le> 50"
    by (simp add: fixed_tokens_sum strip_arguments_def message_tokens_def tool_message_count_def u32_max_def)
  moreover have "(50 :: nat) < u32_max" by (simp add: u32_max_def)
  ultimately show ?thesis using trimmed_history_fits by blast
qed

end
