(* ===== verification/Agent_Hooks.thy ===== *)
theory Agent_Hooks
  imports Agent_Compaction Workspace_Discovery "HOL-Library.AList"
begin

section \<open>harness-agent: lifecycle hooks\<close>

text \<open>
  \<open>hooks.rs\<close> and the two functions of \<open>lib.rs\<close> that run hooks. A hook is a shell command run
  as a normal tool call under the policy; hooks run around tool calls only after the policy
  has admitted the call. Tools act on the outside world, so the host of each call is taken
  from a sequence, indexed by the number of calls made so far; the requests made, the approvals
  and the emitted payloads are threaded through a state. An event is published first and then
  appended to the session, which may fail. TOML parsing and glob matching are parameters.
\<close>

subsection \<open>Configuration\<close>

datatype hook_event =
    HookSessionStart | HookBeforeModel | HookBeforeTool | HookAfterTool | HookBeforeEdit
  | HookAfterEdit | HookBeforeCommand | HookAfterCommand | HookBeforeCompact | HookAfterCompact
  | HookSessionEnd

fun hook_event_text :: "hook_event \<Rightarrow> string" where
  "hook_event_text HookSessionStart = ''session_start''"
| "hook_event_text HookBeforeModel = ''before_model''"
| "hook_event_text HookBeforeTool = ''before_tool''"
| "hook_event_text HookAfterTool = ''after_tool''"
| "hook_event_text HookBeforeEdit = ''before_edit''"
| "hook_event_text HookAfterEdit = ''after_edit''"
| "hook_event_text HookBeforeCommand = ''before_command''"
| "hook_event_text HookAfterCommand = ''after_command''"
| "hook_event_text HookBeforeCompact = ''before_compact''"
| "hook_event_text HookAfterCompact = ''after_compact''"
| "hook_event_text HookSessionEnd = ''session_end''"

fun debug_hook_event :: "hook_event \<Rightarrow> string" where
  "debug_hook_event HookSessionStart = ''SessionStart''"
| "debug_hook_event HookBeforeModel = ''BeforeModel''"
| "debug_hook_event HookBeforeTool = ''BeforeTool''"
| "debug_hook_event HookAfterTool = ''AfterTool''"
| "debug_hook_event HookBeforeEdit = ''BeforeEdit''"
| "debug_hook_event HookAfterEdit = ''AfterEdit''"
| "debug_hook_event HookBeforeCommand = ''BeforeCommand''"
| "debug_hook_event HookAfterCommand = ''AfterCommand''"
| "debug_hook_event HookBeforeCompact = ''BeforeCompact''"
| "debug_hook_event HookAfterCompact = ''AfterCompact''"
| "debug_hook_event HookSessionEnd = ''SessionEnd''"

datatype hook_failure_mode = ContinueOnError | BlockOnError

record hook_definition =
  hook_event_of :: hook_event
  hook_command :: string
  hook_timeout_ms :: nat
  on_error :: hook_failure_mode

record hook_config =
  config_hooks :: "hook_definition list"
  protected_matcher :: "(string \<Rightarrow> bool) option"

definition hook_config_default :: hook_config where
  "hook_config_default = \<lparr>config_hooks = [], protected_matcher = None\<rparr>"

record hook_parsers =
  parse_hooks :: "string \<Rightarrow> string + hook_definition list \<times> string list"
  hook_glob :: "string \<Rightarrow> string + (string \<Rightarrow> bool)"
  glob_set_error :: "string list \<Rightarrow> string option"

fun check_hooks :: "path \<Rightarrow> hook_definition list \<Rightarrow> string + unit" where
  "check_hooks p [] = Inr ()"
| "check_hooks p (hk # rest) =
     (if trim (hook_command hk) = [] \<or> 4096 < length (hook_command hk)
      then Inl (p @ '' has an empty or overlong command for '' @ hook_event_text (hook_event_of hk))
      else if \<not> (1 \<le> hook_timeout_ms hk \<and> hook_timeout_ms hk \<le> 60000)
      then Inl (p @ '' hook timeout must be between 1 and 60000 milliseconds'')
      else check_hooks p rest)"

fun protected_globs ::
  "(string \<Rightarrow> string + (string \<Rightarrow> bool)) \<Rightarrow> string list \<Rightarrow> string + (string \<Rightarrow> bool) list" where
  "protected_globs glob [] = Inr []"
| "protected_globs glob (pat # rest) =
     (if trim pat = [] \<or> is_absolute pat \<or> ParentDir \<in> set (components pat) \<or> RootDir \<in> set (components pat)
      then Inl (''invalid protected path pattern: '' @ pat)
      else case glob pat of
        Inl err \<Rightarrow> Inl (''invalid protected path pattern '' @ debug_string pat @ '': '' @ err)
      | Inr m \<Rightarrow> bind_result (protected_globs glob rest) (\<lambda>ms. Inr (m # ms)))"

definition hook_config_load :: "hook_parsers \<Rightarrow> disk \<Rightarrow> path \<Rightarrow> string + hook_config" where
  "hook_config_load h d root =
     (let p = path_join (path_join root ''.agent'') ''hooks.toml'' in
      if \<not> path_exists d p then Inr hook_config_default
      else case read_to_string d p of
        Inl err \<Rightarrow> Inl (''could not read '' @ p @ '': '' @ err)
      | Inr contents \<Rightarrow>
          (case parse_hooks h contents of
             Inl err \<Rightarrow> Inl (''invalid '' @ p @ '': '' @ err)
           | Inr (hs, protected) \<Rightarrow>
               if 64 < length hs then Inl (p @ '' contains more than 64 hooks'')
               else if 128 < length protected
               then Inl (p @ '' contains more than 128 protected path patterns'')
               else bind_result (check_hooks p hs) (\<lambda>_.
                 bind_result (protected_globs (hook_glob h) protected) (\<lambda>ms.
                   if protected = [] then Inr \<lparr>config_hooks = hs, protected_matcher = None\<rparr>
                   else case glob_set_error h protected of
                     Some err \<Rightarrow> Inl (''invalid protected path matcher: '' @ err)
                   | None \<Rightarrow> Inr \<lparr>config_hooks = hs,
                       protected_matcher = Some (\<lambda>s. list_ex (\<lambda>m. m s) ms)\<rparr>))))"

definition hooks_for :: "hook_config \<Rightarrow> hook_event \<Rightarrow> hook_definition list" where
  "hooks_for c e = filter (\<lambda>hk. hook_event_of hk = e) (config_hooks c)"

definition protected_keys :: "string list" where
  "protected_keys = [''path'', ''file_path'', ''target_file'', ''destination_path'']"

definition protected_relative :: "(string \<Rightarrow> bool) \<Rightarrow> path \<Rightarrow> string \<Rightarrow> path option" where
  "protected_relative matches root v =
     (case (if is_absolute v then path_strip_prefix root v else Some v) of
        None \<Rightarrow> None
      | Some relative \<Rightarrow> if matches (forward_slashes relative) then Some relative else None)"

definition protected_path :: "hook_config \<Rightarrow> path \<Rightarrow> tool_request \<Rightarrow> path option" where
  "protected_path c root r =
     (case protected_matcher c of
        None \<Rightarrow> None
      | Some matches \<Rightarrow>
          (case tool_arguments r of
             JObject args \<Rightarrow>
               (case List.map_filter (protected_relative matches root)
                  (List.map_filter (\<lambda>k. Option.bind (map_of args k) json_str) protected_keys) of
                  [] \<Rightarrow> None | p # _ \<Rightarrow> Some p)
           | _ \<Rightarrow> None))"

definition hook_shell_request :: "hook_definition \<Rightarrow> tool_request" where
  "hook_shell_request hk =
     \<lparr>tool_request_name = ''shell'',
      tool_arguments = JObject [(''command'', JString (hook_command hk)),
        (''timeout_ms'', JNumber (show_nat (hook_timeout_ms hk))),
        (''max_output_bytes'', JNumber ''8192'')]\<rparr>"

definition edit_tools :: "string list" where
  "edit_tools = [''create_file'', ''write_file'', ''apply_patch'', ''replace_text'', ''replace_range'',
     ''delete_file'', ''rename_file'']"

definition is_edit_tool :: "string \<Rightarrow> bool" where
  "is_edit_tool n = (n \<in> set edit_tools)"

subsection \<open>Running\<close>

record call_host = tool_host +
  preflight :: "string set \<Rightarrow> tool_request \<Rightarrow> (harness_error + policy_evaluation) \<times> string set"
  base_evaluate :: "policy_request \<Rightarrow> policy_evaluation"

record call_state =
  requested :: "tool_request list"
  approved :: "string set"
  emitted :: "event_payload list"

type_synonym call_hosts = "nat \<Rightarrow> call_host"

text \<open>The fixed part of a tool execution context.\<close>

record call_context =
  call_hosts_of :: call_hosts
  persist_error :: "nat \<Rightarrow> string option"
  approval_key :: "policy_request \<Rightarrow> string"
  ctx_mode :: task_mode
  ctx_root :: path
  ctx_hooks :: hook_config

definition call_host_at :: "call_context \<Rightarrow> call_state \<Rightarrow> call_host" where
  "call_host_at c st = call_hosts_of c (length (requested st))"

definition emit ::
  "call_context \<Rightarrow> event_payload \<Rightarrow> call_state \<Rightarrow> (agent_error + unit) \<times> call_state" where
  "emit c e st =
     (case persist_error c (length (emitted st)) of
        Some err \<Rightarrow> (Inl (AgentCore err), st\<lparr>emitted := emitted st @ [e]\<rparr>)
      | None \<Rightarrow> (Inr (), st\<lparr>emitted := emitted st @ [e]\<rparr>))"

definition run_tool_call ::
  "call_context \<Rightarrow> tool_request \<Rightarrow> call_state \<Rightarrow> (agent_error + tool_result) \<times> call_state" where
  "run_tool_call c r st =
     (case execute_tool (tool_host.truncate (call_host_at c st)) (approval_key c) (approved st) r of
        (result, ap) \<Rightarrow> (result, st\<lparr>requested := requested st @ [r], approved := ap\<rparr>))"

fun run_hook_list ::
  "call_context \<Rightarrow> hook_event \<Rightarrow> string list \<Rightarrow> hook_definition list \<Rightarrow> call_state \<Rightarrow>
   (agent_error + string list) \<times> call_state" where
  "run_hook_list c e notes [] st = (Inr notes, st)"
| "run_hook_list c e notes (hk # rest) st =
     (if ctx_mode c \<noteq> CodeMode
      then run_hook_list c e (notes @ [debug_hook_event e @ '' hook skipped in '' @
        debug_task_mode (ctx_mode c) @ '' task mode (hook commands require CODE mode)'']) rest st
      else case run_tool_call c (hook_shell_request hk) st of
        (Inr result, st) \<Rightarrow>
          if \<not> tr_is_error result
          then run_hook_list c e (notes @ [debug_hook_event e @ '': '' @
            bounded_context (tr_output result) (4 * 1024)]) rest st
          else
            let m = debug_hook_event e @ '' hook command failed: '' @
                  bounded_context (tr_output result) (4 * 1024)
            in if on_error hk = BlockOnError then (Inl (AgentTool m), st)
               else run_hook_list c e (notes @ [m]) rest st
      | (Inl err, st) \<Rightarrow>
          let m = debug_hook_event e @ '' hook could not run: '' @ agent_error_text err
          in if on_error hk = BlockOnError then (Inl (AgentTool m), st)
             else run_hook_list c e (notes @ [m]) rest st)"

definition run_hooks ::
  "call_context \<Rightarrow> hook_event \<Rightarrow> call_state \<Rightarrow> (agent_error + string list) \<times> call_state" where
  "run_hooks c e st = run_hook_list c e [] (hooks_for (ctx_hooks c) e) st"

fun debug_execution_mode :: "execution_mode \<Rightarrow> string" where
  "debug_execution_mode ReadOnly = ''readonly''"
| "debug_execution_mode Safe = ''safe''"
| "debug_execution_mode NormalMode = ''normal''"
| "debug_execution_mode Auto = ''auto''"

definition policy_event ::
  "string \<Rightarrow> string \<Rightarrow> policy_evaluation \<Rightarrow> policy_request \<Rightarrow> risk_category list \<Rightarrow> event_payload" where
  "policy_event tool action ev r risks =
     PolicyDecisionEvent tool action (reason_of ev) (rule_of ev) (operation_name (request_operation r))
       (debug_execution_mode (request_mode r)) (map risk_text risks)"

fun find_asking ::
  "(policy_request \<Rightarrow> policy_evaluation) \<Rightarrow> (policy_request \<Rightarrow> string) \<Rightarrow> string set \<Rightarrow>
   policy_request list \<Rightarrow> policy_request option \<times> string set" where
  "find_asking base key ap [] = (None, ap)"
| "find_asking base key ap (r # rs) =
     (case approved_evaluate base key ap r of
        (ev, ap) \<Rightarrow> if decision ev = Ask then (Some r, ap) else find_asking base key ap rs)"

text \<open>The hooks that run around a call, in order; the first failure that blocks stops them.\<close>

fun run_events ::
  "call_context \<Rightarrow> hook_event list \<Rightarrow> call_state \<Rightarrow> (agent_error + string list) \<times> call_state" where
  "run_events c [] st = (Inr [], st)"
| "run_events c (e # es) st =
     (case run_hooks c e st of
        (Inl err, st) \<Rightarrow> (Inl err, st)
      | (Inr notes, st) \<Rightarrow>
          (case run_events c es st of
             (Inl err, st) \<Rightarrow> (Inl err, st)
           | (Inr later, st) \<Rightarrow> (Inr (notes @ later), st)))"

text \<open>After a call every hook runs; a failure is a note and marks the result as an error.\<close>

fun run_after_events ::
  "call_context \<Rightarrow> hook_event list \<Rightarrow> call_state \<Rightarrow> (agent_error + string list) list \<times> call_state" where
  "run_after_events c [] st = ([], st)"
| "run_after_events c (e # es) st =
     (case run_hooks c e st of
        (r, st) \<Rightarrow> (case run_after_events c es st of (rs, st) \<Rightarrow> (r # rs, st)))"

definition add_hook_result ::
  "tool_result \<times> string list \<Rightarrow> agent_error + string list \<Rightarrow> tool_result \<times> string list" where
  "add_hook_result acc r =
     (case acc of (result, notes) \<Rightarrow>
       (case r of
          Inr later \<Rightarrow> (result, notes @ later)
        | Inl err \<Rightarrow>
            (result\<lparr>tr_is_error := True,
               tr_metadata := AList.update ''hook_failure'' (JBool True) (tr_metadata result)\<rparr>,
             notes @ [''after hook failed: '' @ agent_error_text err])))"

definition lifecycle_header :: string where
  "lifecycle_header = [newline, newline] @ ''Lifecycle hooks:'' @ [newline]"

definition hooks_before :: "tool_request \<Rightarrow> hook_event list" where
  "hooks_before r =
     [HookBeforeTool] @ (if is_edit_tool (tool_request_name r) then [HookBeforeEdit] else [])
       @ (if tool_request_name r = ''shell'' then [HookBeforeCommand] else [])"

definition hooks_after :: "tool_request \<Rightarrow> tool_result \<Rightarrow> hook_event list" where
  "hooks_after r result =
     [HookAfterTool]
       @ (if is_edit_tool (tool_request_name r) \<and> tr_changed_files result \<noteq> [] then [HookAfterEdit] else [])
       @ (if tool_request_name r = ''shell'' then [HookAfterCommand] else [])"

text \<open>The approvals a granted call uses up; they are added only after the hooks before the call.\<close>

definition granted_keys ::
  "call_context \<Rightarrow> tool_request \<Rightarrow> bool \<Rightarrow> call_state \<Rightarrow> agent_error + string set" where
  "granted_keys c r asked st =
     (if asked
      then map_sum (AgentCore \<circ> harness_error_text) (\<lambda>rs. set (map (approval_key c) rs))
        (policy_requests (call_host_at c st) r)
      else Inr {})"

definition add_notes ::
  "tool_result \<Rightarrow> string list \<Rightarrow> (agent_error + string list) list \<Rightarrow> tool_result" where
  "add_notes result notes rs =
     (let (result, notes) = foldl add_hook_result (result, notes) rs
      in if notes = [] then result
         else result\<lparr>tr_output := tr_output result @ lifecycle_header @ join [newline] notes\<rparr>)"

definition run_with_hooks ::
  "call_context \<Rightarrow> tool_request \<Rightarrow> bool \<Rightarrow> call_state \<Rightarrow> (agent_error + tool_result) \<times> call_state" where
  "run_with_hooks c r asked st =
     (case run_events c (hooks_before r) st of
        (Inl err, st) \<Rightarrow> (Inl err, st)
      | (Inr notes, st) \<Rightarrow>
          (case granted_keys c r asked st of
             Inl err \<Rightarrow> (Inl err, st)
           | Inr keys \<Rightarrow>
               (case run_tool_call c r (st\<lparr>approved := approved st \<union> keys\<rparr>) of
                  (Inl err, st) \<Rightarrow> (Inl err, st)
                | (Inr result, st) \<Rightarrow>
                    (case run_after_events c (hooks_after r result) st of
                       (rs, st) \<Rightarrow> (Inr (add_notes result notes rs), st)))))"

definition protected_result :: "path \<Rightarrow> tool_result" where
  "protected_result p =
     (let r = tool_error_result ''protected_path''
        (''edit blocked by .agent/hooks.toml protected_paths: '' @ p)
      in r\<lparr>tr_metadata := AList.update ''hook_veto'' (JBool True) (tr_metadata r)\<rparr>)"

definition emit_asking ::
  "call_context \<Rightarrow> string \<Rightarrow> policy_evaluation \<Rightarrow> policy_request option \<Rightarrow> call_state \<Rightarrow>
   (agent_error + unit) \<times> call_state" where
  "emit_asking c name ev asking st =
     (case asking of
        None \<Rightarrow> (Inr (), st)
      | Some q \<Rightarrow> emit c (policy_event name ''ask'' ev q (remdups_adj (sort (risk_categories q)))) st)"

definition execute_tool_with_hooks ::
  "call_context \<Rightarrow> tool_request \<Rightarrow> call_state \<Rightarrow> (agent_error + tool_result) \<times> call_state" where
  "execute_tool_with_hooks c r st =
     (let h = call_host_at c st; name = tool_request_name r in
      case preflight h (approved st) r of
        (Inl _, ap) \<Rightarrow> run_tool_call c r (st\<lparr>approved := ap\<rparr>)
      | (Inr ev, ap) \<Rightarrow>
          let st = st\<lparr>approved := ap\<rparr> in
          if decision ev = Deny then run_tool_call c r st
          else
            case (if is_edit_tool name then protected_path (ctx_hooks c) (ctx_root c) r else None) of
              Some p \<Rightarrow>
                (case emit c (ToolFailed name (''edit blocked by .agent/hooks.toml protected_paths: '' @ p)) st of
                   (Inl err, st) \<Rightarrow> (Inl err, st)
                 | (Inr _, st) \<Rightarrow> (Inr (protected_result p), st))
            | None \<Rightarrow>
                if decision ev \<noteq> Ask then run_with_hooks c r False st
                else case policy_requests h r of
                  Inl err \<Rightarrow> (Inl (AgentCore (harness_error_text err)), st)
                | Inr rs \<Rightarrow>
                    (case find_asking (base_evaluate h) (approval_key c) (approved st) rs of
                       (asking, ap) \<Rightarrow>
                         (case emit_asking c name ev (case asking of Some q \<Rightarrow> Some q
                              | None \<Rightarrow> (case rs of q # _ \<Rightarrow> Some q | [] \<Rightarrow> None))
                            (st\<lparr>approved := ap\<rparr>) of
                            (Inl err, st) \<Rightarrow> (Inl err, st)
                          | (Inr _, st) \<Rightarrow>
                              (case request_tool_approval (tool_host.truncate h) r (reason_of ev) of
                                 Inl err \<Rightarrow> (Inl err, st)
                               | Inr False \<Rightarrow> (Inl (ApprovalDenied name), st)
                               | Inr True \<Rightarrow> run_with_hooks c r True st))))"

subsection \<open>What a call leaves\<close>

lemma run_tool_call_emits [simp]: "emitted (snd (run_tool_call c r st)) = emitted st"
  by (simp add: run_tool_call_def split: prod.split)

lemma run_tool_call_requested [simp]: "requested (snd (run_tool_call c r st)) = requested st @ [r]"
  by (simp add: run_tool_call_def split: prod.split)

lemma emit_state [simp]: "snd (emit c e st) = st\<lparr>emitted := emitted st @ [e]\<rparr>"
  by (simp add: emit_def split: option.split)

end
