(* ===== verification/Agent_Tools.thy ===== *)
theory Agent_Tools
  imports Agent_Hooks
begin

section \<open>harness-agent: reading tool calls and their results\<close>

text \<open>
  The functions of \<open>harness-agent/src/lib.rs\<close> that the run loop applies to a tool call and to
  what it returned: the key under which a call is counted, the phase and the files it belongs
  to, the bound on its output, the diagnostics and the diff it carries, and the normal form of
  a failure. Canonical paths and the answers of \<open>git\<close> come from the host.
\<close>

subsection \<open>Calls\<close>

definition tool_call_key :: "(json \<Rightarrow> string option) \<Rightarrow> string \<Rightarrow> json \<Rightarrow> string" where
  "tool_call_key to_text name args =
     name @ '':'' @ (case to_text args of None \<Rightarrow> ''<invalid-json>'' | Some t \<Rightarrow> t)"

definition normalize_failure :: "string \<Rightarrow> string" where
  "normalize_failure v = to_ascii_lowercase (join '' '' (split_whitespace v))"

definition path_keys :: "string list" where
  "path_keys = [''path'', ''file'', ''file_path'', ''target_file'']"

definition path_value :: "json \<Rightarrow> path list" where
  "path_value v = (case v of JString p \<Rightarrow> if trim p \<noteq> [] then [p] else [] | _ \<Rightarrow> [])"

fun argument_paths :: "json \<Rightarrow> path list" and field_paths :: "(string \<times> json) list \<Rightarrow> path list"
  and item_paths :: "json list \<Rightarrow> path list" where
  "argument_paths (JObject kvs) = field_paths kvs"
| "argument_paths (JArray vs) = item_paths vs"
| "argument_paths _ = []"
| "field_paths [] = []"
| "field_paths ((k, v) # kvs) =
     (if k \<in> set path_keys then path_value v else argument_paths v) @ field_paths kvs"
| "item_paths [] = []"
| "item_paths (v # vs) = argument_paths v @ item_paths vs"

definition collect_relevant_files :: "task_run \<Rightarrow> json \<Rightarrow> task_run" where
  "collect_relevant_files tr args =
     tr\<lparr>relevant_files :=
       foldl (\<lambda>fs p. push_unique_bounded fs p 200) (relevant_files tr) (argument_paths args)\<rparr>"

definition string_argument :: "string \<Rightarrow> json \<Rightarrow> string option" where
  "string_argument k args =
     Option.bind (json_get k args) json_str"

definition phase_for_tool :: "string \<Rightarrow> json \<Rightarrow> task_phase" where
  "phase_for_tool tool args =
     (let name = to_ascii_lowercase tool;
          cmd = to_ascii_lowercase (case string_argument ''command'' args of None \<Rightarrow> [] | Some c \<Rightarrow> c)
      in if contains_any [''diff'', ''git_status''] name then InspectDiff
         else if contains_any [''write'', ''patch'', ''edit''] name then Edit
         else if name = ''shell''
              \<and> contains_any [''test'', ''check'', ''lint'', ''build'', ''fmt'', ''format''] cmd then Verify
         else if name = ''shell'' \<and> str_contains cmd ''git diff'' then InspectDiff
         else SearchRead)"

text \<open>The words of a command: \<open>split\<close> on every character that is not a letter, a digit or \<open>_\<close>.\<close>

fun split_chars :: "(string \<Rightarrow> bool) \<Rightarrow> string list \<Rightarrow> string list" where
  "split_chars sep [] = [[]]"
| "split_chars sep (ch # chs) =
     (if sep ch then [] # split_chars sep chs
      else case split_chars sep chs of w # ws \<Rightarrow> (ch @ w) # ws | [] \<Rightarrow> [ch])"

definition word_char :: "string \<Rightarrow> bool" where
  "word_char ch \<longleftrightarrow> (case ch of [c] \<Rightarrow> is_ascii_alnum c \<or> c = CHR ''_'' | _ \<Rightarrow> False)"

definition validation_words :: "string list" where
  "validation_words =
     [''test'', ''tests'', ''check'', ''lint'', ''build'', ''format'', ''fmt'', ''typecheck'', ''verify'',
      ''compile'', ''pytest'', ''vitest'', ''jest'']"

definition is_validation_command :: "string \<Rightarrow> bool" where
  "is_validation_command cmd =
     list_ex (\<lambda>w. to_ascii_lowercase w \<in> set validation_words)
       (take 5 (split_chars (\<lambda>ch. \<not> word_char ch) (utf8_chars cmd)))"

definition retrieval_tools :: "string list" where
  "retrieval_tools =
     [''read_file'', ''search_files'', ''search_text'', ''find_symbol'', ''find_references'',
      ''goto_definition'', ''get_diagnostics'', ''get_file_outline'', ''get_repo_tree'']"

definition is_repository_retrieval_tool :: "string \<Rightarrow> bool" where
  "is_repository_retrieval_tool n = (n \<in> set retrieval_tools)"

subsection \<open>Paths\<close>

definition normalize_context_path :: "path \<Rightarrow> string" where
  "normalize_context_path p = to_ascii_lowercase (strip_front [''./''] (forward_slashes p))"

definition normalize_workspace_path ::
  "(path \<Rightarrow> path option) \<Rightarrow> path \<Rightarrow> path \<Rightarrow> string" where
  "normalize_workspace_path resolve p root =
     (let absolute = (if is_absolute p then p else path_join root p);
          root = (case resolve root of None \<Rightarrow> root | Some r \<Rightarrow> r);
          absolute = (case resolve absolute of None \<Rightarrow> absolute | Some a \<Rightarrow> a)
      in normalize_context_path
           (case path_strip_prefix root absolute of None \<Rightarrow> absolute | Some rel \<Rightarrow> rel))"

subsection \<open>Results\<close>

definition max_model_tool_result_bytes :: nat where
  "max_model_tool_result_bytes = 16 * 1024"

definition result_marker :: string where
  "result_marker = newline # ''[truncated]''"

definition bound_tool_result_output :: "string \<Rightarrow> bool \<Rightarrow> bool \<Rightarrow> string \<times> bool" where
  "bound_tool_result_output out already is_shell =
     (if is_shell
      then let short = summarize_shell_output out max_model_tool_result_bytes
           in (short, already \<or> short \<noteq> out)
      else if \<not> (already \<or> max_model_tool_result_bytes < length out) then (out, False)
      else
        let limit = max_model_tool_result_bytes - length result_marker;
            short = take (floor_boundary out (min (length out) limit)) out
        in (if ends_with short result_marker then short else short @ result_marker, True))"

definition diagnostic_extensions :: "string list" where
  "diagnostic_extensions = [''rs'', ''ts'', ''tsx'', ''js'', ''jsx'', ''py'']"

definition no_detail_signals :: "string list" where
  "no_detail_signals =
     [''unavailable'', ''failed:'', ''timed out'', ''returned no diagnostic details'']"

text \<open>The command, whether it passed, the file and the detail.\<close>

definition quick_diagnostic_result ::
  "tool_result \<Rightarrow> path list \<Rightarrow> (string \<times> bool \<times> path list \<times> string) option" where
  "quick_diagnostic_result r changed =
     Option.bind (map_of (tr_metadata r) ''diagnostics'') (\<lambda>d.
     Option.bind (Option.bind (json_get ''status'' d) json_str) (\<lambda>status.
     if status \<noteq> ''best_effort'' then None
     else Option.bind (Option.bind (json_get ''detail'' d) json_str) (\<lambda>text_of.
       let detail = trim text_of in
       if detail = [] \<or> contains_any no_detail_signals (to_ascii_lowercase detail) then None
       else Option.bind (find (\<lambda>p. case path_extension p of None \<Rightarrow> False
           | Some ext \<Rightarrow> ext \<in> set diagnostic_extensions) changed) (\<lambda>p.
         let failed = list_ex (\<lambda>l. starts_with (to_ascii_lowercase (trim_start l)) ''error '')
               (str_lines detail)
         in Some (''language-server diagnostics '' @ forward_slashes p, \<not> failed, [p], detail)))))"

definition complete_edit_diff :: "tool_result \<Rightarrow> path list \<Rightarrow> string option" where
  "complete_edit_diff r changed =
     (if changed = [] \<or> tr_truncated r \<or> map_of (tr_metadata r) ''diff_truncated'' = Some (JBool True)
      then None
      else Option.bind (Option.bind (map_of (tr_metadata r) ''diff'') json_str) (\<lambda>diff.
        if trim diff \<noteq> [] then Some diff else None))"

definition append_hook_observations :: "string list \<Rightarrow> context_input \<Rightarrow> context_input" where
  "append_hook_observations notes i =
     i\<lparr>in_tool_results := in_tool_results i @ map (\<lambda>n.
       \<lparr>tc_name = ''lifecycle_hook'', tc_result = tool_result_new n, tc_is_shell = False,
        already_in_model_history = False\<rparr>) notes\<rparr>"

subsection \<open>The diff of the task\<close>

record git_view =
  git_canonical :: "path \<Rightarrow> path option"
  git_open :: "path \<Rightarrow> path option"
  git_file_change :: "path \<Rightarrow> path \<Rightarrow> (path \<times> string) option"

definition final_diff_limit :: nat where
  "final_diff_limit = 16 * 1024"

fun collect_diffs :: "git_view \<Rightarrow> path \<Rightarrow> path \<Rightarrow> string \<Rightarrow> path list \<Rightarrow> string option" where
  "collect_diffs g root git_root out [] =
     Some (if out = [] then ''No task-owned file diffs were returned by Git.'' else out)"
| "collect_diffs g root git_root out (p # ps) =
     Option.bind (path_strip_prefix git_root (if is_absolute p then p else path_join root p)) (\<lambda>rel.
     Option.bind (git_file_change g git_root rel) (\<lambda>(name, patch).
       if patch = [] then collect_diffs g root git_root out ps
       else
         let out = out @ ''--- task change: '' @ name @ '' ---'' @ newline # patch
         in if final_diff_limit \<le> length out then Some (bounded_context out final_diff_limit)
            else collect_diffs g root git_root out ps))"

definition task_final_diff :: "git_view \<Rightarrow> path \<Rightarrow> path list \<Rightarrow> string option" where
  "task_final_diff g root changed =
     Option.bind (git_canonical g root) (\<lambda>root.
     Option.bind (git_open g root) (\<lambda>git_root. collect_diffs g root git_root [] changed))"

subsection \<open>Bounds\<close>

lemma length_bounded_context:
  assumes "length context_suffix \<le> n"
  shows "length (bounded_context v n) \<le> n"
  using assms floor_boundary_le [of v "n - length context_suffix"]
  by (auto simp: bounded_context_def Let_def simp del: floor_boundary_le)

lemma bound_tool_result_output_length [len_bounds]:
  "length (fst (bound_tool_result_output out already False)) \<le> max_model_tool_result_bytes"
  using floor_boundary_le [of out "min (length out) (max_model_tool_result_bytes - length result_marker)"]
  by (auto simp: bound_tool_result_output_def Let_def result_marker_def max_model_tool_result_bytes_def
      simp del: floor_boundary_le)

lemma collect_diffs_length:
  "length out \<le> final_diff_limit \<Longrightarrow> collect_diffs g root git_root out ps = Some d \<Longrightarrow>
   length d \<le> final_diff_limit"
proof (induction ps arbitrary: out)
  case Nil
  then show ?case by (auto simp: final_diff_limit_def split: if_splits)
next
  case (Cons p ps)
  then obtain rel name patch where change:
    "git_file_change g git_root rel = Some (name, patch)"
    "path_strip_prefix git_root (if is_absolute p then p else path_join root p) = Some rel"
    by (auto simp: bind_eq_Some_conv)
  define out' where "out' = out @ ''--- task change: '' @ name @ '' ---'' @ newline # patch"
  have bounded: "length (bounded_context out' final_diff_limit) \<le> final_diff_limit"
    by (rule length_bounded_context) (simp add: context_suffix_def final_diff_limit_def)
  have "collect_diffs g root git_root out (p # ps) =
      (if patch = [] then collect_diffs g root git_root out ps
       else if final_diff_limit \<le> length out' then Some (bounded_context out' final_diff_limit)
       else collect_diffs g root git_root out' ps)"
    using change by (simp add: out'_def Let_def)
  with Cons bounded show ?case
    by (metis (no_types) nat_le_linear option.inject)
qed

end
