(* ===== verification/Agent_State.thy ===== *)
theory Agent_State
  imports Agent_Tools Agent_History Agent_Completion Verification_Run
begin

section \<open>harness-agent: the state of a run and how it ends\<close>

text \<open>
  What \<open>AgentRunner::run\<close> keeps between turns, what it observes of the world, and the ways it
  returns. A step of the run is an action: it either goes on with a value or returns from
  \<open>run\<close>. Everything the run observes (the model's answers, the clock, cancellation, \<open>git\<close>, the
  verifier, the user) is a field of \<open>loop_env\<close>, indexed by the number of events published so
  far, so that two observations at different times are independent.
\<close>

subsection \<open>The model\<close>

record model_response =
  response_model :: string
  response_content :: "content_block list"
  response_calls :: "tool_call list"
  response_usage :: "usage option"

fun block_text :: "content_block \<Rightarrow> string option" where
  "block_text (Text t) = Some t"
| "block_text (Image _ _) = None"
| "block_text (Reasoning _) = None"

definition response_text :: "model_response \<Rightarrow> string" where
  "response_text r = concat (List.map_filter block_text (response_content r))"

record tool_definition =
  definition_name :: string
  definition_description :: string
  definition_schema :: json

record model_request =
  request_model :: string
  request_messages :: "message list"
  request_tools :: "tool_definition list"

subsection \<open>The world\<close>

text \<open>The places where the run looks at the clock and at the cancellation token.\<close>

datatype observation = BeforeTurn | AfterResponse | AfterModelError | BeforeCall

type_synonym verifier = "nat \<Rightarrow> verification_request \<Rightarrow> harness_error + verification_report list"

record loop_env =
  env_limits :: agent_limits
  env_calls :: call_context
  operation_for :: "string \<Rightarrow> operation_kind option"
  tool_specs :: "tool_definition list"
  context_builder :: context_budget_manager
  provider_name :: string
  model_name :: string
  env_pricing :: "model_pricing option"
  context_window :: "nat option"
  argument_text :: "json \<Rightarrow> string option"
  argument_length :: "json \<Rightarrow> nat"
  json_of_string :: "string \<Rightarrow> string"
  env_compaction :: compaction_config
  compaction_strategy :: "compaction_request \<Rightarrow> string + compact_state"
  base_instructions :: string
  env_attachments :: "input_attachment list"
  attachment_reserve :: nat
  git_available :: bool
  git_at :: "nat \<Rightarrow> git_view"
  env_plan :: "verification_plan option"
  env_verifier :: "verifier option"
  planner_at :: "nat \<Rightarrow> verification_host"
  verification_mode :: execution_mode
  ask_verification :: "nat \<Rightarrow> tool_request \<Rightarrow> risk_category list \<Rightarrow> string \<Rightarrow> agent_error + bool"
  cancelled_at :: "observation \<Rightarrow> nat \<Rightarrow> bool"
  elapsed_at :: "observation \<Rightarrow> nat \<Rightarrow> nat"
  respond :: "nat \<Rightarrow> model_request \<Rightarrow> string + model_response"
  record_change :: "nat \<Rightarrow> path \<Rightarrow> string option"
  session_end :: "nat \<Rightarrow> agent_error + call_context"
  stored_mode :: "nat \<Rightarrow> task_mode"

abbreviation env_mode :: "loop_env \<Rightarrow> task_mode" where "env_mode env \<equiv> ctx_mode (env_calls env)"
abbreviation env_root :: "loop_env \<Rightarrow> path" where "env_root env \<equiv> ctx_root (env_calls env)"

subsection \<open>The state\<close>

record loop_state =
  io :: call_state
  loop_input :: context_input
  task :: task_run
  turns :: nat
  used_calls :: nat
  model_tokens :: nat
  cost :: "nat option"
  call_counts :: "string \<Rightarrow> nat"
  failure_counts :: "string \<Rightarrow> nat"
  error_keys :: error_map
  no_progress :: nat
  validated :: bool
  retrieved_paths :: "string set"
  used_paths :: "string set"
  loop_history :: "message list"
  previous_items :: "context_item list option"

definition now :: "loop_state \<Rightarrow> nat" where
  "now s = length (emitted (io s))"

definition put_error :: "string \<Rightarrow> string \<Rightarrow> loop_state \<Rightarrow> loop_state" where
  "put_error k v s = s\<lparr>error_keys := AList.update k v (error_keys s)\<rparr>"

definition ensure_error :: "string \<Rightarrow> string \<Rightarrow> loop_state \<Rightarrow> loop_state" where
  "ensure_error k v s = (if map_of (error_keys s) k = None then put_error k v s else s)"

definition drop_error :: "string \<Rightarrow> loop_state \<Rightarrow> loop_state" where
  "drop_error k s = s\<lparr>error_keys := remove_key k (error_keys s)\<rparr>"

definition count_failure :: "string \<Rightarrow> loop_state \<Rightarrow> loop_state" where
  "count_failure sig s =
     s\<lparr>failure_counts := (failure_counts s)(sig := sat_add32 (failure_counts s sig) 1)\<rparr>"

definition on_task :: "(task_run \<Rightarrow> task_run) \<Rightarrow> loop_state \<Rightarrow> loop_state" where
  "on_task f s = s\<lparr>task := f (task s)\<rparr>"

text \<open>\<open>task_run.unresolved_errors = unresolved_error_keys.values()\<close>\<close>

definition sync_errors :: "loop_state \<Rightarrow> loop_state" where
  "sync_errors s = on_task (\<lambda>tr. tr\<lparr>unresolved_errors := map snd (error_keys s)\<rparr>) s"

definition push_observation :: "string \<Rightarrow> tool_result \<Rightarrow> loop_state \<Rightarrow> loop_state" where
  "push_observation name r s = s\<lparr>loop_input := (loop_input s)\<lparr>in_tool_results :=
     in_tool_results (loop_input s) @
       [\<lparr>tc_name = name, tc_result = r, tc_is_shell = False, already_in_model_history = False\<rparr>]\<rparr>\<rparr>"

subsection \<open>Actions\<close>

record run_outcome = agent_outcome +
  outcome_turns :: nat
  outcome_tool_calls :: nat
  outcome_model_tokens :: nat
  outcome_cost :: "nat option"

type_synonym run_result = "agent_error + run_outcome"
type_synonym 'a action = "loop_state \<Rightarrow> (run_result + 'a) \<times> loop_state"

definition pass :: "'a \<Rightarrow> 'a action" where
  "pass x s = (Inr x, s)"

definition stop :: "run_result \<Rightarrow> 'a action" where
  "stop r s = (Inl r, s)"

definition and_then :: "'a action \<Rightarrow> ('a \<Rightarrow> 'b action) \<Rightarrow> 'b action" where
  "and_then m f s = (case m s of (Inl r, s') \<Rightarrow> (Inl r, s') | (Inr x, s') \<Rightarrow> f x s')"

definition update :: "(loop_state \<Rightarrow> loop_state) \<Rightarrow> unit action" where
  "update f s = (Inr (), f s)"

definition with_state :: "(loop_state \<Rightarrow> 'a action) \<Rightarrow> 'a action" where
  "with_state f s = f s s"

text \<open>An operation on the events and calls: \<open>?\<close> returns its error from \<open>run\<close>, \<open>attempt\<close> keeps it.\<close>

definition attempt ::
  "(call_state \<Rightarrow> (agent_error + 'a) \<times> call_state) \<Rightarrow> (agent_error + 'a) action" where
  "attempt f s = (case f (io s) of (r, c) \<Rightarrow> (Inr r, s\<lparr>io := c\<rparr>))"

definition or_return :: "agent_error + 'a \<Rightarrow> 'a action" where
  "or_return r = (case r of Inl err \<Rightarrow> stop (Inl err) | Inr x \<Rightarrow> pass x)"

definition emit_event :: "loop_env \<Rightarrow> event_payload \<Rightarrow> unit action" where
  "emit_event env p = and_then (attempt (emit (env_calls env) p)) or_return"

definition emit_anyway :: "loop_env \<Rightarrow> event_payload \<Rightarrow> unit action" where
  "emit_anyway env p = and_then (attempt (emit (env_calls env) p)) (\<lambda>_. pass ())"

definition update_task_run :: "loop_env \<Rightarrow> unit action" where
  "update_task_run env = with_state (\<lambda>s. emit_event env (TaskRunUpdated (task s)))"

fun emit_events :: "loop_env \<Rightarrow> event_payload list \<Rightarrow> unit action" where
  "emit_events env [] = pass ()"
| "emit_events env (p # ps) = and_then (emit_event env p) (\<lambda>_. emit_events env ps)"

subsection \<open>Ending\<close>

definition run_session_end_hooks ::
  "loop_env \<Rightarrow> task_mode \<Rightarrow> call_state \<Rightarrow> (agent_error + unit) \<times> call_state" where
  "run_session_end_hooks env mode st =
     (case session_end env (length (emitted st)) of
        Inl err \<Rightarrow> (Inl err, st)
      | Inr c \<Rightarrow>
          (case run_hooks (c\<lparr>ctx_mode := mode\<rparr>) HookSessionEnd (st\<lparr>approved := {}\<rparr>) of
             (Inl err, st) \<Rightarrow> (Inl err, st)
           | (Inr _, st) \<Rightarrow> (Inr (), st)))"

definition fail :: "loop_env \<Rightarrow> agent_error \<Rightarrow> 'a action" where
  "fail env err = with_state (\<lambda>s.
     and_then (attempt (run_session_end_hooks env (stored_mode env (now s)))) (\<lambda>_.
     and_then (emit_anyway env (SessionFailed (agent_error_text err))) (\<lambda>_. stop (Inl err))))"

definition abort :: "loop_env \<Rightarrow> agent_error \<Rightarrow> 'a action" where
  "abort env err = with_state (\<lambda>s.
     and_then (emit_anyway env (TaskRunUpdated (finish_plan_state (task s)))) (\<lambda>_. fail env err))"

definition abort_as :: "loop_env \<Rightarrow> task_completion_status \<Rightarrow> agent_error \<Rightarrow> 'a action" where
  "abort_as env status err =
     and_then (update (on_task (\<lambda>tr. tr\<lparr>completion_status := status, current_phase := Finish\<rparr>)))
       (\<lambda>_. abort env err)"

definition finish :: "loop_env \<Rightarrow> string \<Rightarrow> 'a action" where
  "finish env msg = with_state (\<lambda>s.
     and_then (attempt (run_session_end_hooks env (run_task_mode (task s)))) (\<lambda>r.
       let hook = (case r of Inl err \<Rightarrow> Some (agent_error_text err) | Inr _ \<Rightarrow> None);
           (outcome, events) = finish_task_run hook (task s) msg
       in and_then (emit_events env events) (\<lambda>_.
            stop (Inr (agent_outcome.extend outcome
              (run_outcome.fields (turns s) (used_calls s) (model_tokens s) (cost s)))))))"

definition finish_blocked :: "loop_env \<Rightarrow> string \<Rightarrow> 'a action" where
  "finish_blocked env reason =
     and_then (update (on_task (\<lambda>tr. tr\<lparr>current_phase := Finish, completion_status := Blocked,
        run_remaining_work := (if unresolved_errors tr = [] then [bounded_summary reason]
          else unresolved_errors tr)\<rparr>))) (\<lambda>_.
     and_then (emit_event env (AssistantMessage (''Blocked: '' @ bounded_summary reason))) (\<lambda>_.
       finish env (''Blocked: '' @ bounded_summary reason)))"

definition keep_limits :: "loop_env \<Rightarrow> observation \<Rightarrow> unit action" where
  "keep_limits env p = with_state (\<lambda>s.
     case check_limits (env_limits env) (cancelled_at env p (now s)) (elapsed_at env p (now s))
        (turns s) (used_calls s) (model_tokens s) (cost s) (task s) of
       (Inr _, _, _) \<Rightarrow> pass ()
     | (Inl err, tr, _) \<Rightarrow> and_then (update (on_task (\<lambda>_. tr))) (\<lambda>_. abort env err))"

end
