(* ===== verification/Agent_Verify.thy ===== *)
theory Agent_Verify
  imports Agent_State
begin

section \<open>harness-agent: verification after a change\<close>

text \<open>
  \<open>run_verification_if_needed\<close>: after files changed, the plan is narrowed to them, every check is
  put to the policy, the verifier runs, and each report is recorded, published, shown to the
  model and settled in the map of unresolved errors. The value says whether a failure has been
  seen as often as the limit allows.
\<close>

subsection \<open>Admission\<close>

fun debug_category :: "verification_category \<Rightarrow> string" where
  "debug_category Formatter = ''Formatter''"
| "debug_category Lint = ''Lint''"
| "debug_category Typecheck = ''Typecheck''"
| "debug_category Build = ''Build''"
| "debug_category TargetedTest = ''TargetedTest''"
| "debug_category GeneralTest = ''GeneralTest''"
| "debug_category GitDiff = ''GitDiff''"

definition verification_policy_request :: "loop_env \<Rightarrow> verification_step \<Rightarrow> policy_request" where
  "verification_policy_request env st =
     \<lparr>tool_name = ''verification'',
      request_operation = (if step_category st = GitDiff then Read else Command),
      workspace_root = env_root env, request_path = Some (env_root env),
      request_command = Some (format_command (step_command st)), request_mode = verification_mode env\<rparr>"

definition verification_approval :: "verification_step \<Rightarrow> tool_request" where
  "verification_approval st =
     \<lparr>tool_request_name = ''verification'',
      tool_arguments = JObject [(''program'', JString (cs_program (step_command st))),
        (''args'', JArray (map JString (cs_args (step_command st)))),
        (''working_directory'', JString ''.''),
        (''category'', JString (debug_category (step_category st)))]\<rparr>"

definition evaluate_approved :: "loop_env \<Rightarrow> policy_request \<Rightarrow> policy_evaluation action" where
  "evaluate_approved env q s =
     (case approved_evaluate (base_evaluate (call_host_at (env_calls env) (io s)))
         (approval_key (env_calls env)) (approved (io s)) q of
        (ev, ap) \<Rightarrow> (Inr ev, s\<lparr>io := (io s)\<lparr>approved := ap\<rparr>\<rparr>))"

definition admit_step :: "loop_env \<Rightarrow> verification_step \<Rightarrow> unit action" where
  "admit_step env st =
     (let q = verification_policy_request env st in
      and_then (evaluate_approved env q) (\<lambda>ev.
      and_then (emit_event env
        (policy_event ''verification'' (decision_text (decision ev)) ev q (risk_categories q))) (\<lambda>_.
        case decision ev of
          Allow \<Rightarrow> pass ()
        | Deny \<Rightarrow> stop (Inl (AgentTool (''verification command denied by policy: '' @
            format_command (step_command st))))
        | Ask \<Rightarrow> with_state (\<lambda>s.
            and_then (or_return (ask_verification env (now s) (verification_approval st)
              (remdups_adj (sort (risk_categories q))) (reason_of ev))) (\<lambda>granted.
              if granted then pass () else stop (Inl (ApprovalDenied ''verification'')))))))"

fun admit_steps :: "loop_env \<Rightarrow> verification_step list \<Rightarrow> unit action" where
  "admit_steps env [] = pass ()"
| "admit_steps env (st # sts) = and_then (admit_step env st) (\<lambda>_. admit_steps env sts)"

subsection \<open>Reports\<close>

fun origin_text :: "failure_origin \<Rightarrow> string" where
  "origin_text Introduced = ''introduced''"
| "origin_text Unrelated = ''unrelated''"
| "origin_text Unknown = ''unknown''"

definition report_key :: "verification_report \<Rightarrow> string" where
  "report_key rep = ''verification:'' @ debug_category (rep_category rep) @ '':'' @ rep_command rep"

definition report_context :: "git_view \<Rightarrow> path \<Rightarrow> path list \<Rightarrow> verification_report \<Rightarrow> string" where
  "report_context g root changed rep =
     (let diff = (if rep_category rep = GitDiff \<and> rep_passed rep
            then task_final_diff g root changed else None)
      in bounded_context
           (case map_option vf_relevant_output (rep_failure rep) of
              Some (c # cs) \<Rightarrow> c # cs
            | _ \<Rightarrow> (case diff of Some d \<Rightarrow> d | None \<Rightarrow> rep_output rep)) (8 * 1024))"

definition report_files :: "verification_report \<Rightarrow> path list" where
  "report_files rep = (case rep_failure rep of None \<Rightarrow> [] | Some f \<Rightarrow> vf_affected_files f)"

definition report_origin :: "verification_report \<Rightarrow> string option" where
  "report_origin rep = map_option (origin_text \<circ> vf_origin) (rep_failure rep)"

definition report_result :: "verification_report \<Rightarrow> string \<Rightarrow> task_verification_result" where
  "report_result rep out =
     \<lparr>vr_command = rep_command rep, vr_category = debug_category (rep_category rep),
      vr_passed = rep_passed rep, vr_exit_code = rep_exit_code rep,
      vr_summary = bounded_summary (join ''; '' (rep_diagnostics rep) @ '' '' @ out),
      vr_affected_files = report_files rep, vr_failure_origin = report_origin rep,
      vr_relevant_output = out\<rparr>"

definition note_result :: "task_verification_result \<Rightarrow> task_run \<Rightarrow> task_run" where
  "note_result v tr =
     tr\<lparr>run_verification_results := push_bounded (run_verification_results tr) v 200\<rparr>"

definition note_command :: "string \<Rightarrow> task_run \<Rightarrow> task_run" where
  "note_command c tr = tr\<lparr>commands_executed := push_bounded (commands_executed tr) c 200\<rparr>"

definition note_report :: "verification_report \<Rightarrow> string \<Rightarrow> task_run \<Rightarrow> task_run" where
  "note_report rep out tr =
     (let tr = note_command (bounded_summary (rep_command rep)) tr;
          tr = (if rep_category rep = GitDiff \<and> rep_passed rep
            then tr\<lparr>final_diff_inspected := True\<rparr> else tr)
      in note_result (report_result rep out) tr)"

definition result_event ::
  "task_verification_result \<Rightarrow> nat \<Rightarrow> string \<Rightarrow> string list \<Rightarrow> event_payload" where
  "result_event v ms out diags =
     VerificationResultEvent (vr_command v) (vr_category v) ms (vr_passed v) (vr_exit_code v) out diags
       (vr_affected_files v) (vr_failure_origin v) (vr_relevant_output v)"

definition report_summary :: "verification_report \<Rightarrow> string \<Rightarrow> string" where
  "report_summary rep out =
     bounded_context
       (''verification category='' @ debug_category (rep_category rep) @ '' command='' @ rep_command rep @
        '' passed='' @ show_bool (rep_passed rep) @ '' exit_code='' @ debug_exit_code (rep_exit_code rep) @
        '' affected_files='' @ debug_strings (report_files rep) @
        (case report_origin rep of None \<Rightarrow> [] | Some src \<Rightarrow> '' likely_origin='' @ src) @
        (if str_contains out ''relevant verification output truncated''
         then '' relevant verification output truncated'' else []) @
        '' diagnostics='' @ debug_strings (rep_diagnostics rep) @ newline # out)
       max_model_tool_result_bytes"

definition diagnostics_prefix :: string where
  "diagnostics_prefix = ''verification:language-server diagnostics ''"

definition report_signature :: "verification_report \<Rightarrow> string \<Rightarrow> string" where
  "report_signature rep out =
     report_key rep @ '':'' @ show_int (case rep_exit_code rep of None \<Rightarrow> - 1 | Some c \<Rightarrow> c) @ '':'' @
     normalize_failure out"

definition repeated_limit :: "loop_env \<Rightarrow> nat" where
  "repeated_limit env = max (max_repeated_failures (env_limits env)) 1"

definition pass_report :: "verification_report \<Rightarrow> loop_state \<Rightarrow> loop_state" where
  "pass_report rep s =
     (let s = drop_error (report_key rep) s in
      if rep_category rep \<in> {Typecheck, Build}
      then s\<lparr>error_keys := filter (\<lambda>(k, _). \<not> starts_with k diagnostics_prefix) (error_keys s)\<rparr>
      else s)"

definition fail_report :: "verification_report \<Rightarrow> string \<Rightarrow> loop_state \<Rightarrow> loop_state" where
  "fail_report rep out s =
     count_failure (report_signature rep out) (put_error (report_key rep)
       (report_key rep @ '' :: '' @ bounded_summary (join ''; '' (rep_diagnostics rep) @ '' '' @ out)) s)"

text \<open>The value is whether the failure has repeated often enough to stop.\<close>

definition settle_report :: "loop_env \<Rightarrow> verification_report \<Rightarrow> string \<Rightarrow> bool action" where
  "settle_report env rep out =
     (if rep_passed rep then and_then (update (pass_report rep)) (\<lambda>_. pass False)
      else and_then (update (fail_report rep out)) (\<lambda>_. with_state (\<lambda>s.
        pass (repeated_limit env \<le> failure_counts s (report_signature rep out)))))"

definition record_report :: "loop_env \<Rightarrow> path list \<Rightarrow> verification_report \<Rightarrow> bool action" where
  "record_report env changed rep = with_state (\<lambda>s.
     let out = report_context (git_at env (now s)) (env_root env) changed rep in
     and_then (update (on_task (note_report rep out))) (\<lambda>_.
     and_then (emit_event env
       (result_event (report_result rep out) (rep_duration_ms rep) out (rep_diagnostics rep))) (\<lambda>_.
     and_then (update (push_observation ''verification'' (tool_result_new (report_summary rep out)))) (\<lambda>_.
       settle_report env rep out))))"

fun record_reports :: "loop_env \<Rightarrow> path list \<Rightarrow> verification_report list \<Rightarrow> bool action" where
  "record_reports env changed [] = pass False"
| "record_reports env changed (rep # reps) =
     and_then (record_report env changed rep) (\<lambda>repeated.
       if repeated then pass True else record_reports env changed reps)"

definition runner_result :: "string \<Rightarrow> task_verification_result" where
  "runner_result msg =
     \<lparr>vr_command = ''verification'', vr_category = ''runner'', vr_passed = False, vr_exit_code = None,
      vr_summary = bounded_summary msg, vr_affected_files = [], vr_failure_origin = Some ''unknown'',
      vr_relevant_output = bounded_context msg (8 * 1024)\<rparr>"

definition record_runner_failure :: "loop_env \<Rightarrow> string \<Rightarrow> bool action" where
  "record_runner_failure env msg =
     (let key = ''verification:runner''; sig = key @ '':'' @ normalize_failure msg in
      and_then (update (\<lambda>s. count_failure sig (on_task (note_result (runner_result msg))
        (put_error key (key @ '' :: '' @ bounded_summary msg) s)))) (\<lambda>_.
      and_then (emit_event env (result_event (runner_result msg) 0 msg [msg])) (\<lambda>_.
      and_then (update (push_observation ''verification'' (tool_result_new msg))) (\<lambda>_.
        with_state (\<lambda>s. pass (repeated_limit env \<le> failure_counts s sig))))))"

subsection \<open>The step\<close>

definition run_checks ::
  "loop_env \<Rightarrow> verifier \<Rightarrow> verification_plan \<Rightarrow> path list \<Rightarrow> bool action" where
  "run_checks env verifier plan changed =
     and_then (admit_steps env plan) (\<lambda>_.
     and_then (emit_event env (VerificationStarted (map (format_command \<circ> step_command) plan))) (\<lambda>_.
     and_then (with_state (\<lambda>s.
       case verifier (now s) \<lparr>vreq_directory = env_root env, vreq_plan = plan,
           vreq_changed_files = changed, vreq_max_output = 64 * 1024\<rparr> of
         Inr reports \<Rightarrow> record_reports env changed reports
       | Inl err \<Rightarrow> record_runner_failure env (harness_error_text err))) (\<lambda>repeated.
     and_then (update sync_errors) (\<lambda>_. pass repeated))))"

definition run_verification_if_needed ::
  "loop_env \<Rightarrow> verification_plan option \<Rightarrow> path list \<Rightarrow> bool action" where
  "run_verification_if_needed env plan changed =
     (case (plan, env_verifier env) of
        (Some plan, Some verifier) \<Rightarrow>
          if changed = [] then pass False
          else with_state (\<lambda>s.
            let plan = after_changes (planner_at env (now s)) plan (env_root env) changed in
            if plan = [] then pass False else run_checks env verifier plan changed)
      | _ \<Rightarrow> pass False)"

end
