(* ===== verification/Agent_Turn.thy ===== *)
theory Agent_Turn
  imports Agent_Verify
begin

section \<open>harness-agent: one request to the model\<close>

text \<open>
  The first half of the loop of \<open>AgentRunner::run\<close>: hooks, the live state, the trimmed
  history, the context and its compaction, the request, and what the text of the answer does
  to the plan. The parts of a request that the run never changes (no temperature, no output
  limit, the reasoning options) are left out.
\<close>

subsection \<open>Compaction\<close>

definition hook_step :: "loop_env \<Rightarrow> hook_event \<Rightarrow> (agent_error + string list) action" where
  "hook_step env e = attempt (run_hooks (env_calls env) e)"

definition observe_hooks :: "string list \<Rightarrow> loop_state \<Rightarrow> loop_state" where
  "observe_hooks ns s = s\<lparr>loop_input := append_hook_observations ns (loop_input s)\<rparr>"

definition compaction_request_of :: "loop_env \<Rightarrow> loop_state \<Rightarrow> compaction_request" where
  "compaction_request_of env s =
     (let tr = task s; i = loop_input s in
      \<lparr>creq_task = original_goal tr, creq_goal = Some (run_goal tr), creq_plan = run_execution_plan tr,
       creq_task_run = tr, creq_conversation = in_conversation i,
       creq_tool_results = in_tool_results i, creq_previous = in_compacted_state i,
       creq_git_diff = (if changed_files tr = [] then None
         else map_option (\<lambda>d. bounded_context d (8 * 1024))
           (task_final_diff (git_at env (now s)) (env_root env) (changed_files tr)))\<rparr>)"

definition removed_items :: "loop_env \<Rightarrow> loop_state \<Rightarrow> nat" where
  "removed_items env s =
     (length (in_conversation (loop_input s)) - keep_recent_messages (env_compaction env))
       + length (in_tool_results (loop_input s))"

definition install_compaction :: "loop_env \<Rightarrow> compact_state \<Rightarrow> loop_state \<Rightarrow> loop_state" where
  "install_compaction env c s =
     s\<lparr>loop_input := (loop_input s)\<lparr>
        in_conversation := last_n (min (keep_recent_messages (env_compaction env)) 8)
          (in_conversation (loop_input s)),
        in_tool_results := [], in_compacted_state := Some c\<rparr>\<rparr>"

definition count_compaction :: "task_run \<Rightarrow> task_run" where
  "count_compaction tr =
     tr\<lparr>run_context_metrics := (run_context_metrics tr)\<lparr>compactions :=
       sat_add64 (compactions (run_context_metrics tr)) 1\<rparr>\<rparr>"

definition compact_context :: "loop_env \<Rightarrow> unit action" where
  "compact_context env =
     and_then (and_then (hook_step env HookBeforeCompact) or_return) (\<lambda>pre.
     and_then (update (observe_hooks pre)) (\<lambda>_. with_state (\<lambda>s.
       case compaction_strategy env (compaction_request_of env s) of
         Inl err \<Rightarrow> stop (Inl (AgentCore (''context compaction failed: '' @ err)))
       | Inr c \<Rightarrow>
           and_then (update (on_task count_compaction)) (\<lambda>_.
           and_then (with_state (\<lambda>s.
             emit_event env (ContextCompacted (removed_items env s) (render_compact_state c) c))) (\<lambda>_.
           and_then (update (install_compaction env c)) (\<lambda>_.
           and_then (update_task_run env) (\<lambda>_.
           and_then (and_then (hook_step env HookAfterCompact) or_return) (\<lambda>after.
             update (observe_hooks after)))))))))"

subsection \<open>The context\<close>

text \<open>\<open>match \<dots> { Err(error) => return self.fail(\<dots>) }\<close>\<close>

definition or_fail :: "loop_env \<Rightarrow> agent_error + 'a \<Rightarrow> 'a action" where
  "or_fail env r = (case r of Inl err \<Rightarrow> fail env err | Inr x \<Rightarrow> pass x)"

definition prepare_input :: "loop_env \<Rightarrow> loop_state \<Rightarrow> loop_state" where
  "prepare_input env s =
     (let total = max_working_context_tokens (budget_for_context_window (context_builder env)
            (context_window env));
          history_budget = min (max (total div 3) 1) total;
          diff = (if git_available env \<and> changed_files (task s) \<noteq> []
            then map_option (\<lambda>d. bounded_context d (8 * 1024))
              (task_final_diff (git_at env (now s)) (env_root env) (changed_files (task s)))
            else None)
      in s\<lparr>loop_history := trim_model_history_to_budget (argument_length env) (loop_history s) history_budget,
           loop_input := (loop_input s)\<lparr>
             system_instructions := append_live_task_state (base_instructions env) (task s),
             in_git_diff := diff\<rparr>\<rparr>)"

definition history_tokens :: "loop_env \<Rightarrow> loop_state \<Rightarrow> nat" where
  "history_tokens env s = estimate_model_history_tokens (argument_length env) (loop_history s)"

definition reserved_tokens :: "loop_env \<Rightarrow> loop_state \<Rightarrow> nat" where
  "reserved_tokens env s = sat_add32 (history_tokens env s) (attachment_reserve env)"

definition build_context :: "loop_env \<Rightarrow> context_assembly action" where
  "build_context env = with_state (\<lambda>s. or_fail env (map_sum (AgentCore \<circ> harness_error_text) id
     (build_for_context_window_reserving (context_builder env) (loop_input s) (context_window env)
       (reserved_tokens env s))))"

definition needs_compaction :: "loop_env \<Rightarrow> nat \<Rightarrow> context_assembly \<Rightarrow> bool" where
  "needs_compaction env reserved a =
     (let adaptive = max (sat_mul32 (max_working_context_tokens (asm_budget a)) 3 div 4) 1;
          threshold = threshold_tokens (env_compaction env)
      in 0 < threshold \<and> min threshold adaptive \<le> sat_add32 (asm_tokens a) reserved)"

definition assemble_context :: "loop_env \<Rightarrow> context_assembly action" where
  "assemble_context env =
     and_then (build_context env) (\<lambda>a. with_state (\<lambda>s.
       if needs_compaction env (reserved_tokens env s) a
       then and_then (compact_context env) (\<lambda>_. build_context env)
       else pass a))"

definition note_context :: "loop_env \<Rightarrow> context_assembly \<Rightarrow> loop_state \<Rightarrow> loop_state" where
  "note_context env a s =
     (let reused = (case previous_items s of None \<Rightarrow> 0
            | Some old \<Rightarrow> context_reuse_tokens old (asm_items a));
          s = on_task (\<lambda>tr. tr\<lparr>run_context_metrics := record_context_request (run_context_metrics tr)
            (sat_add32 (asm_tokens a) (reserved_tokens env s)) reused\<rparr>) s
      in s\<lparr>previous_items := Some (filter included (asm_items a))\<rparr>)"

subsection \<open>The request\<close>

definition offered_tools :: "loop_env \<Rightarrow> tool_definition list" where
  "offered_tools env =
     filter (\<lambda>d. task_mode_allows_tool (env_mode env) (operation_for env (definition_name d)))
       (tool_specs env)"

definition model_request_of :: "loop_env \<Rightarrow> context_assembly \<Rightarrow> loop_state \<Rightarrow> model_request" where
  "model_request_of env a s =
     \<lparr>request_model = model_name env,
      request_messages = attachment_message (json_of_string env) (asm_prompt a) (env_attachments env)
        # loop_history s,
      request_tools = offered_tools env\<rparr>"

definition provider_failed :: "loop_env \<Rightarrow> string \<Rightarrow> 'a action" where
  "provider_failed env err = with_state (\<lambda>s.
     if cancelled_at env AfterModelError (now s) then abort_as env Cancelled AgentCancelled
     else and_then (update (on_task (\<lambda>tr. tr\<lparr>unresolved_errors := unresolved_errors tr @
            [''runtime:provider :: '' @ bounded_summary (agent_error_text (ModelError err))]\<rparr>))) (\<lambda>_.
          abort_as env Blocked (ModelError err)))"

definition ask_model :: "loop_env \<Rightarrow> context_assembly \<Rightarrow> model_response action" where
  "ask_model env a = with_state (\<lambda>s.
     let q = model_request_of env a s in
     and_then (emit_event env (ModelRequested (provider_name env) (model_name env)
       (Some (sat_add32 (asm_tokens a) (history_tokens env s))))) (\<lambda>_. with_state (\<lambda>s.
       case respond env (now s) q of
         Inr r \<Rightarrow> pass r
       | Inl err \<Rightarrow> provider_failed env err)))"

definition current_work_phase :: "task_run \<Rightarrow> task_phase" where
  "current_work_phase tr = (if current_plan tr = [] then Understand else PlanPhase)"

definition request_model_turn :: "loop_env \<Rightarrow> model_response action" where
  "request_model_turn env =
     and_then (hook_step env HookBeforeModel) (\<lambda>r.
     and_then (or_fail env r) (\<lambda>ns.
     and_then (update (observe_hooks ns)) (\<lambda>_.
     and_then (update (on_task (\<lambda>tr. tr\<lparr>current_phase := current_work_phase tr\<rparr>))) (\<lambda>_.
     and_then (update_task_run env) (\<lambda>_.
     and_then (update (prepare_input env)) (\<lambda>_.
     and_then (assemble_context env) (\<lambda>a.
     and_then (update (note_context env a)) (\<lambda>_.
     and_then (update_task_run env) (\<lambda>_. ask_model env a)))))))))"

end
