(* ===== verification/Agent_Answer.thy ===== *)
theory Agent_Answer
  imports Agent_Turn
begin

section \<open>harness-agent: what an answer does\<close>

text \<open>
  The answer of the model first moves the plan and the counters; an answer without tool calls
  then ends the task or is sent back, because the final diff has not been inspected, nothing
  has been validated since the last edit, or errors are unresolved.
\<close>

subsection \<open>The plan in an answer\<close>

definition adopt_plan :: "string list \<Rightarrow> string \<Rightarrow> task_run \<Rightarrow> task_run" where
  "adopt_plan steps text_of tr =
     (let parsed = (parse_implementation_plan (original_goal tr) text_of (relevant_files tr))
            \<lparr>implementation_steps := steps\<rparr>
      in advance_execution_plan (tr\<lparr>current_plan := steps,
           run_execution_plan := Some (execution_plan_from_implementation parsed
             (run_acceptance_criteria tr))\<rparr>))"

definition proposed_plan :: "task_run \<Rightarrow> string \<Rightarrow> string list option" where
  "proposed_plan tr text_of =
     (if run_execution_plan tr \<noteq> None then None
      else case extract_plan text_of of Some (p # ps) \<Rightarrow> Some (p # ps) | _ \<Rightarrow> None)"

definition enter_plan_phase :: "task_run \<Rightarrow> task_run" where
  "enter_plan_phase tr = tr\<lparr>current_phase := PlanPhase\<rparr>"

definition plan_from_answer :: "loop_env \<Rightarrow> string \<Rightarrow> unit action" where
  "plan_from_answer env text_of = with_state (\<lambda>s.
     case extract_plan_revision text_of of
       Some (reason, steps) \<Rightarrow>
         (case revise_execution_plan (task s) reason steps of
            (False, tr) \<Rightarrow> update (on_task (\<lambda>_. tr))
          | (True, tr) \<Rightarrow>
              and_then (update (on_task (\<lambda>_. enter_plan_phase (tr\<lparr>current_plan := steps\<rparr>))))
                (\<lambda>_. update_task_run env))
     | None \<Rightarrow>
         (case proposed_plan (task s) text_of of
            None \<Rightarrow> pass ()
          | Some steps \<Rightarrow>
              and_then (update (on_task (\<lambda>tr. enter_plan_phase (adopt_plan steps text_of tr))))
                (\<lambda>_. update_task_run env)))"

definition reported_input :: "model_response \<Rightarrow> nat option" where
  "reported_input r = Option.bind (response_usage r) input_tokens"

definition reported_output :: "model_response \<Rightarrow> nat option" where
  "reported_output r = Option.bind (response_usage r) output_tokens"

definition recover_provider :: "loop_state \<Rightarrow> loop_state" where
  "recover_provider s =
     (if map_of (error_keys s) ''runtime:provider'' = None then s
      else sync_errors (drop_error ''runtime:provider'' s))"

definition charge :: "loop_env \<Rightarrow> model_response \<Rightarrow> loop_state \<Rightarrow> loop_state" where
  "charge env r s =
     s\<lparr>model_tokens := model_tokens s + usage_tokens (response_usage r),
       cost := (case (cost s, estimate_cost_microusd (response_usage r) (env_pricing env)) of
         (Some spent, Some c) \<Rightarrow> Some (sat_add64 spent c) | _ \<Rightarrow> None)\<rparr>"

definition remember_answer :: "string \<Rightarrow> loop_state \<Rightarrow> loop_state" where
  "remember_answer text_of s =
     (if text_of = [] then s
      else s\<lparr>loop_input := (loop_input s)\<lparr>in_conversation := in_conversation (loop_input s) @
        [\<lparr>msg_role = Assistant, msg_text = text_of\<rparr>]\<rparr>\<rparr>)"

definition receive_answer :: "loop_env \<Rightarrow> model_response \<Rightarrow> unit action" where
  "receive_answer env r =
     (let text_of = response_text r in
      and_then (update (on_task (\<lambda>tr. tr\<lparr>run_context_metrics :=
        record_context_response (run_context_metrics tr) (reported_input r)\<rparr>))) (\<lambda>_.
      and_then (update_task_run env) (\<lambda>_.
      and_then (update recover_provider) (\<lambda>_.
      and_then (plan_from_answer env text_of) (\<lambda>_.
      and_then (update (charge env r)) (\<lambda>_.
      and_then (emit_event env (ModelResponse (provider_name env) (response_model r) text_of
        (reported_input r) (reported_output r))) (\<lambda>_.
      and_then (update (remember_answer text_of)) (\<lambda>_.
      and_then (if text_of \<noteq> [] \<and> response_calls r \<noteq> [] then emit_event env (AssistantMessage text_of)
                else pass ()) (\<lambda>_.
      and_then (keep_limits env AfterResponse) (\<lambda>_. with_state (\<lambda>s.
        if response_calls r \<noteq> [] \<and> max_turns (env_limits env) \<le> turns s
        then abort_as env ResourceLimitReached (LimitExceeded ''max_turns'')
        else pass ())))))))))))"

subsection \<open>The final answer\<close>

definition ask_the_user :: "loop_env \<Rightarrow> string \<Rightarrow> 'a action" where
  "ask_the_user env msg =
     and_then (update (on_task (\<lambda>tr. tr\<lparr>current_phase := Finish,
        completion_status := UserInputRequired, run_remaining_work := [msg]\<rparr>))) (\<lambda>_.
     and_then (emit_event env (AssistantMessage msg)) (\<lambda>_. finish env msg))"

definition blocked_reason :: "string \<Rightarrow> string" where
  "blocked_reason msg =
     (if msg = [] then ''The task cannot be completed with the available information.'' else msg)"

definition keep_structured_plan :: "string \<Rightarrow> task_run \<Rightarrow> task_run" where
  "keep_structured_plan text_of tr =
     (let plan = parse_implementation_plan (original_goal tr) text_of (relevant_files tr);
          tr = (if structured_plan tr = None
            then (advance_execution_plan (tr\<lparr>current_plan := implementation_steps plan,
                run_execution_plan := Some (execution_plan_from_implementation plan
                  (run_acceptance_criteria tr))\<rparr>))\<lparr>structured_plan := Some plan\<rparr>
            else tr)
      in tr\<lparr>current_phase := Finish\<rparr>)"

definition dispose_unrelated :: "(string \<times> string) list \<Rightarrow> loop_state \<Rightarrow> loop_state" where
  "dispose_unrelated ds s =
     (case apply_unrelated_verification_dispositions (task s) (error_keys s) ds (validated s) of
        (tr, errs, v) \<Rightarrow> s\<lparr>task := tr, error_keys := errs, validated := v\<rparr>)"

definition final_diff_plan :: verification_plan where
  "final_diff_plan =
     [\<lparr>step_category = GitDiff,
       step_command = command_spec_new ''git'' [''diff'', ''--no-ext-diff'', ''--no-color''],
       step_source = ''required-final-diff-inspection''\<rparr>]"

definition needs_final_diff :: "loop_env \<Rightarrow> loop_state \<Rightarrow> bool" where
  "needs_final_diff env s \<longleftrightarrow>
     env_mode env = CodeMode \<and> git_available env \<and> env_verifier env \<noteq> None \<and>
     changed_files (task s) \<noteq> [] \<and> \<not> final_diff_inspected (task s)"

definition passed_diff :: "task_verification_result \<Rightarrow> bool" where
  "passed_diff v \<longleftrightarrow> vr_category v = ''GitDiff'' \<and> vr_passed v"

text \<open>Runs the diff; the value says whether the model must see it before it may finish.\<close>

definition inspect_final_diff :: "loop_env \<Rightarrow> bool action" where
  "inspect_final_diff env = with_state (\<lambda>s.
     let earlier = length (run_verification_results (task s)) in
     and_then (run_verification_if_needed env (Some final_diff_plan) (changed_files (task s))) (\<lambda>_.
     and_then (update (on_task (\<lambda>tr. tr\<lparr>final_diff_inspected :=
       list_ex passed_diff (drop earlier (run_verification_results tr))\<rparr>))) (\<lambda>_.
     and_then (update_task_run env) (\<lambda>_. with_state (\<lambda>s. pass (final_diff_inspected (task s)))))))"

definition diff_missing_text :: string where
  "diff_missing_text = ''verification:final_diff_inspection :: '' @
     ''A final diff could not be assembled for the changed files. '' @
     ''Inspect the latest file edits before finishing.''"

definition not_validated_text :: string where
  "not_validated_text = ''verification:after_last_edit :: '' @
     ''No successful relevant verification has run since the most recent edit. '' @
     ''Run the appropriate test, build, lint, format, or typecheck command before finishing.''"

definition require_review :: "loop_env \<Rightarrow> loop_state \<Rightarrow> loop_state" where
  "require_review env s =
     (if env_mode env = CodeMode \<and> changed_files (task s) \<noteq> [] \<and> \<not> final_diff_inspected (task s)
      then let s = ensure_error ''verification:final_diff_inspection'' diff_missing_text s;
               s = (if validated s then s
                 else ensure_error ''verification:after_last_edit'' not_validated_text s)
           in sync_errors s
      else s)"

definition outstanding_text :: "string list \<Rightarrow> string" where
  "outstanding_text errs =
     ''Do not report completion. Resolve or explain these outstanding issues, revise your '' @
     ''approach, and continue with tools when possible: '' @ join ''; '' errs @
     ''. If the task is impossible, return [BLOCKED] followed by the reason; if a user decision '' @
     ''is needed, return [USER_INPUT_REQUIRED] followed by one concise question.''"

definition note_no_progress :: "loop_state \<Rightarrow> loop_state" where
  "note_no_progress s =
     on_task (\<lambda>tr. tr\<lparr>current_phase := Repair, run_remaining_work := unresolved_errors tr\<rparr>)
       (s\<lparr>no_progress := sat_add32 (no_progress s) 1\<rparr>)"

definition refuse_completion :: "loop_env \<Rightarrow> unit action" where
  "refuse_completion env =
     and_then (update note_no_progress) (\<lambda>_. with_state (\<lambda>s.
       if repeated_limit env \<le> no_progress s
       then finish_blocked env (''The model stopped making progress with unresolved verification or '' @
         ''tool errors: '' @ join ''; '' (unresolved_errors (task s)))
       else and_then (update (push_observation ''task_completion_check''
            (tool_error_result ''task_completion_check'' (outstanding_text (unresolved_errors (task s))))))
          (\<lambda>_. update_task_run env)))"

definition complete_task :: "loop_env \<Rightarrow> string \<Rightarrow> unit action" where
  "complete_task env msg =
     and_then (update (on_task (\<lambda>tr. tr\<lparr>current_phase := Finish, completion_status := Done,
       run_remaining_work := []\<rparr>))) (\<lambda>_.
     and_then (emit_event env (AssistantMessage msg)) (\<lambda>_. finish env msg))"

definition settle_answer :: "loop_env \<Rightarrow> string \<Rightarrow> unit action" where
  "settle_answer env msg =
     and_then (update (require_review env)) (\<lambda>_. with_state (\<lambda>s.
       if unresolved_errors (task s) \<noteq> [] then refuse_completion env else complete_task env msg))"

definition adopt_final_plan :: "string \<Rightarrow> loop_state \<Rightarrow> loop_state" where
  "adopt_final_plan text_of s =
     (case proposed_plan (task s) text_of of None \<Rightarrow> s
      | Some steps \<Rightarrow> on_task (adopt_plan steps text_of) s)"

definition final_answer :: "loop_env \<Rightarrow> string \<Rightarrow> unit action" where
  "final_answer env text_of =
     (let (directive, completion) = parse_completion_directive text_of;
          (msg, ds) = parse_unrelated_verification_directives completion
      in and_then (update (adopt_final_plan text_of)) (\<lambda>_.
         if directive = Some UserInputRequired then ask_the_user env msg
         else if directive = Some Blocked
         then and_then (update (on_task (\<lambda>tr. tr\<lparr>current_phase := Finish\<rparr>)))
           (\<lambda>_. finish_blocked env (blocked_reason msg))
         else
           and_then (if env_mode env = PlanMode
             then and_then (update (on_task (keep_structured_plan text_of))) (\<lambda>_. update_task_run env)
             else pass ()) (\<lambda>_.
           and_then (update (dispose_unrelated ds)) (\<lambda>_. with_state (\<lambda>s.
             if needs_final_diff env s
             then and_then (inspect_final_diff env) (\<lambda>seen.
               if seen then pass () else settle_answer env msg)
             else settle_answer env msg)))))"

end
