(* ===== verification/Agent_Call.thy ===== *)
theory Agent_Call
  imports Agent_Answer
begin

section \<open>harness-agent: one tool call\<close>

text \<open>
  The body of the loop over the tool calls of an answer: the guards against cancellation, the
  limit on calls and repeated calls, the task mode, the execution with hooks, and the
  bookkeeping of what came back (errors, validations, changed files, diagnostics, diffs,
  checkpoints, verification).
\<close>

subsection \<open>Before the call\<close>

definition call_signature :: "loop_env \<Rightarrow> tool_call \<Rightarrow> string" where
  "call_signature env c = tool_call_key (argument_text env) (call_name c) (arguments c)"

definition repeated_call_limit :: "loop_env \<Rightarrow> nat" where
  "repeated_call_limit env = max (max_repeated_tool_calls (env_limits env)) 1"

definition guard_call :: "loop_env \<Rightarrow> unit action" where
  "guard_call env = with_state (\<lambda>s.
     if cancelled_at env BeforeCall (now s) then abort_as env Cancelled AgentCancelled
     else if max_tool_calls (env_limits env) \<le> used_calls s
     then abort_as env ResourceLimitReached (LimitExceeded ''max_tool_calls'')
     else update (\<lambda>s. s\<lparr>used_calls := used_calls s + 1\<rparr>))"

definition count_call :: "string \<Rightarrow> loop_state \<Rightarrow> loop_state" where
  "count_call key s = s\<lparr>call_counts := (call_counts s)(key := sat_add32 (call_counts s key) 1)\<rparr>"

definition stop_repeated_call :: "loop_env \<Rightarrow> tool_call \<Rightarrow> 'a action" where
  "stop_repeated_call env c = with_state (\<lambda>s.
     let msg = ''Stopped a repeated identical tool call after '' @
           show_nat (call_counts s (call_signature env c) - 1) @ '' attempts: '' @ call_name c;
         key = ''runtime:guard:tool_call''
     in and_then (update (\<lambda>s. on_task (\<lambda>tr. tr\<lparr>run_remaining_work := unresolved_errors tr,
          completion_status := Blocked, current_phase := Finish\<rparr>)
          (sync_errors (put_error key (key @ '' :: '' @ msg) s)))) (\<lambda>_. finish_blocked env msg))"

definition count_repeats :: "loop_env \<Rightarrow> tool_call \<Rightarrow> unit action" where
  "count_repeats env c =
     and_then (update (count_call (call_signature env c))) (\<lambda>_. with_state (\<lambda>s.
       if repeated_call_limit env < call_counts s (call_signature env c)
       then stop_repeated_call env c else pass ()))"

definition shell_command :: "tool_call \<Rightarrow> string option" where
  "shell_command c =
     (if call_name c = ''shell'' then string_argument ''command'' (arguments c) else None)"

definition enter_call :: "tool_call \<Rightarrow> task_run \<Rightarrow> task_run" where
  "enter_call c tr =
     (let tr = collect_relevant_files
            (tr\<lparr>current_phase := phase_for_tool (call_name c) (arguments c)\<rparr>) (arguments c)
      in case shell_command c of None \<Rightarrow> tr
         | Some cmd \<Rightarrow> note_command (bounded_summary cmd) tr)"

subsection \<open>The call\<close>

definition mode_denial :: "loop_env \<Rightarrow> tool_call \<Rightarrow> string option" where
  "mode_denial env c =
     (if task_mode_allows_tool (env_mode env) (operation_for env (call_name c)) then None
      else Some (''Task mode '' @ debug_task_mode (env_mode env) @
        '' is read-only and only allows workspace read/search tools. No command or file change was made.''))"

definition tool_error_key :: "tool_call \<Rightarrow> string" where
  "tool_error_key c = ''tool:'' @ call_name c"

definition request_of_call :: "tool_call \<Rightarrow> tool_request" where
  "request_of_call c = \<lparr>tool_request_name = call_name c, tool_arguments = arguments c\<rparr>"

definition denied_result :: "string \<Rightarrow> tool_result" where
  "denied_result reason = (tool_result_new reason)\<lparr>tr_is_error := True\<rparr>"

definition stop_failed_call :: "loop_env \<Rightarrow> tool_call \<Rightarrow> agent_error \<Rightarrow> 'a action" where
  "stop_failed_call env c err =
     and_then (update (\<lambda>s. sync_errors (put_error (tool_error_key c)
       (tool_error_key c @ '' :: '' @ bounded_summary (agent_error_text err)) s)))
       (\<lambda>_. abort_as env Blocked err)"

definition bound_result :: "tool_call \<Rightarrow> tool_result \<Rightarrow> tool_result" where
  "bound_result c r =
     (case bound_tool_result_output (tr_output r) (tr_truncated r) (call_name c = ''shell'') of
        (out, cut_off) \<Rightarrow> r\<lparr>tr_output := out, tr_truncated := cut_off\<rparr>)"

definition perform_call :: "loop_env \<Rightarrow> tool_call \<Rightarrow> tool_result action" where
  "perform_call env c =
     (case mode_denial env c of
        Some reason \<Rightarrow>
          and_then (emit_event env (ToolDenied (call_name c) reason))
            (\<lambda>_. pass (bound_result c (denied_result reason)))
      | None \<Rightarrow>
          and_then (attempt (execute_tool_with_hooks (env_calls env) (request_of_call c))) (\<lambda>r.
            case r of Inl err \<Rightarrow> stop_failed_call env c err
            | Inr result \<Rightarrow> pass (bound_result c result)))"

subsection \<open>Bookkeeping\<close>

definition note_changed_path :: "string \<Rightarrow> loop_state \<Rightarrow> loop_state" where
  "note_changed_path p s =
     (if p \<in> retrieved_paths s \<and> p \<notin> used_paths s
      then on_task (\<lambda>tr. tr\<lparr>run_context_metrics := (run_context_metrics tr)\<lparr>retrieved_files_used :=
             sat_add64 (retrieved_files_used (run_context_metrics tr)) 1\<rparr>\<rparr>)
           (s\<lparr>used_paths := insert p (used_paths s)\<rparr>)
      else s)"

definition count_retrieval :: "task_run \<Rightarrow> task_run" where
  "count_retrieval tr =
     tr\<lparr>run_context_metrics := (run_context_metrics tr)\<lparr>retrieval_queries :=
       sat_add64 (retrieval_queries (run_context_metrics tr)) 1\<rparr>\<rparr>"

definition note_retrieval :: "loop_env \<Rightarrow> tool_call \<Rightarrow> path list \<Rightarrow> loop_state \<Rightarrow> loop_state" where
  "note_retrieval env c changed s =
     (let norm = (\<lambda>p. normalize_workspace_path (git_canonical (git_at env (now s))) p (env_root env));
          s = (if is_repository_retrieval_tool (call_name c) then on_task count_retrieval s else s);
          s = (case (if call_name c = ''read_file'' then string_argument ''path'' (arguments c) else None) of
                 None \<Rightarrow> s
               | Some p \<Rightarrow> s\<lparr>retrieved_paths := insert (norm p) (retrieved_paths s)\<rparr>)
      in fold note_changed_path (map norm changed) s)"

definition failure_signature :: "loop_env \<Rightarrow> tool_call \<Rightarrow> string \<Rightarrow> string" where
  "failure_signature env c out = call_signature env c @ '':'' @ normalize_failure out"

definition note_tool_failure :: "loop_env \<Rightarrow> tool_call \<Rightarrow> string \<Rightarrow> loop_state \<Rightarrow> loop_state" where
  "note_tool_failure env c out s =
     on_task (\<lambda>tr. tr\<lparr>current_phase := Repair\<rparr>)
       (sync_errors (count_failure (failure_signature env c out)
         (put_error (tool_error_key c) (tool_error_key c @ '' :: '' @ bounded_summary out) s)))"

definition note_tool_success :: "tool_call \<Rightarrow> path list \<Rightarrow> loop_state \<Rightarrow> loop_state" where
  "note_tool_success c changed s =
     (let s = (sync_errors (drop_error (tool_error_key c) s))\<lparr>no_progress := 0\<rparr>
      in if changed = [] then s
         else on_task (\<lambda>tr. tr\<lparr>final_diff_inspected := False, current_phase := Verify\<rparr>) s)"

definition settle_result :: "loop_env \<Rightarrow> tool_call \<Rightarrow> tool_result \<Rightarrow> unit action" where
  "settle_result env c r =
     (if mode_denial env c \<noteq> None then pass ()
      else if tr_is_error r
      then and_then (update (note_tool_failure env c (tr_output r))) (\<lambda>_. with_state (\<lambda>s.
        let failures = failure_counts s (failure_signature env c (tr_output r)) in
        if repeated_limit env \<le> failures
        then and_then (update (on_task (\<lambda>tr. tr\<lparr>run_remaining_work := unresolved_errors tr\<rparr>)))
          (\<lambda>_. finish_blocked env (''The same tool failure repeated '' @ show_nat failures @
            '' times: '' @ bounded_summary (tr_output r)))
        else pass ()))
      else update (note_tool_success c (tr_changed_files r)))"

definition exit_code_of :: "(string \<Rightarrow> int option) \<Rightarrow> tool_result \<Rightarrow> int option" where
  "exit_code_of parse r =
     (case map_of (tr_metadata r) ''exit_code'' of
        Some (JNumber n) \<Rightarrow>
          (case parse n of Some i \<Rightarrow> if - (2 ^ 31) \<le> i \<and> i < 2 ^ 31 then Some i else None | None \<Rightarrow> None)
      | _ \<Rightarrow> None)"

text \<open>\<open>as_i64\<close> of a number kept as its text.\<close>

definition parse_i64 :: "string \<Rightarrow> int option" where
  "parse_i64 n =
     (case n of
        CHR ''-'' # ds \<Rightarrow>
          (case parse_u64 ds of Some v \<Rightarrow> if v \<le> 2 ^ 63 then Some (- int v) else None | None \<Rightarrow> None)
      | _ \<Rightarrow> (case parse_u64 n of Some v \<Rightarrow> if v < 2 ^ 63 then Some (int v) else None | None \<Rightarrow> None))"

definition command_result :: "string \<Rightarrow> tool_result \<Rightarrow> task_verification_result" where
  "command_result cmd r =
     \<lparr>vr_command = bounded_summary cmd, vr_category = ''agent_command'', vr_passed = \<not> tr_is_error r,
      vr_exit_code = exit_code_of parse_i64 r, vr_summary = bounded_summary (tr_output r),
      vr_affected_files = [],
      vr_failure_origin = (if tr_is_error r then Some ''unknown'' else None),
      vr_relevant_output = bounded_context (tr_output r) (8 * 1024)\<rparr>"

definition accept_validation :: "loop_state \<Rightarrow> loop_state" where
  "accept_validation s = (drop_error ''verification:after_last_edit'' s)\<lparr>validated := True\<rparr>"

definition note_validation :: "string \<Rightarrow> tool_result \<Rightarrow> loop_state \<Rightarrow> loop_state" where
  "note_validation cmd r s =
     (let key = ''verification:'' @ cmd; s = on_task (note_result (command_result cmd r)) s in
      if tr_is_error r
      then (put_error key (key @ '' :: '' @ bounded_summary (tr_output r)) s)\<lparr>validated := False\<rparr>
      else
        let s = accept_validation (drop_error key s) in
        if str_contains (to_ascii_lowercase cmd) ''git diff''
        then on_task (\<lambda>tr. tr\<lparr>final_diff_inspected := True\<rparr>) s else s)"

definition validation_of :: "tool_call \<Rightarrow> string option" where
  "validation_of c =
     (case shell_command c of
        None \<Rightarrow> None | Some cmd \<Rightarrow> if is_validation_command cmd then Some cmd else None)"

definition note_changes :: "path list \<Rightarrow> loop_state \<Rightarrow> loop_state" where
  "note_changes changed s =
     (let s = on_task (\<lambda>tr. tr\<lparr>changed_files :=
            foldl (\<lambda>fs p. push_unique_bounded fs p 200) (changed_files tr) changed\<rparr>) s
      in if changed = [] then s else s\<lparr>validated := False\<rparr>)"

definition diagnostic_result :: "string \<Rightarrow> bool \<Rightarrow> path list \<Rightarrow> string \<Rightarrow> task_verification_result" where
  "diagnostic_result cmd passed affected out =
     \<lparr>vr_command = cmd, vr_category = ''diagnostics'', vr_passed = passed, vr_exit_code = None,
      vr_summary = bounded_summary out, vr_affected_files = affected,
      vr_failure_origin = (if passed then None else Some ''unknown''), vr_relevant_output = out\<rparr>"

definition settle_diagnostic :: "string \<Rightarrow> bool \<Rightarrow> string \<Rightarrow> loop_state \<Rightarrow> loop_state" where
  "settle_diagnostic cmd passed out s =
     (let key = ''verification:'' @ cmd in
      if passed then accept_validation (drop_error key s)
      else put_error key (key @ '' :: '' @ bounded_summary out) (s\<lparr>validated := False\<rparr>))"

definition note_diagnostic ::
  "loop_env \<Rightarrow> path list \<Rightarrow> (string \<times> bool \<times> path list \<times> string) option \<Rightarrow> unit action" where
  "note_diagnostic env changed d =
     (case d of
        None \<Rightarrow> pass ()
      | Some (cmd, passed, affected, out) \<Rightarrow>
          let out = bounded_context out (8 * 1024); v = diagnostic_result cmd passed affected out in
          and_then (update (on_task (note_result v \<circ> note_command cmd))) (\<lambda>_.
          and_then (emit_event env (result_event v 0 out (take 100 (str_lines out)))) (\<lambda>_.
          and_then (update (push_observation ''verification'' (tool_result_new
            (''verification category=diagnostics command='' @ cmd @ '' passed='' @ show_bool passed @
             '' affected_files='' @ debug_strings changed @ newline # out)))) (\<lambda>_.
            update (settle_diagnostic cmd passed out)))))"

fun record_changes :: "loop_env \<Rightarrow> path list \<Rightarrow> unit action" where
  "record_changes env [] = pass ()"
| "record_changes env (p # ps) = with_state (\<lambda>s.
     case record_change env (now s) p of
       Some err \<Rightarrow> stop (Inl (AgentCore err))
     | None \<Rightarrow> record_changes env ps)"

definition tool_message :: "tool_call \<Rightarrow> tool_result \<Rightarrow> message" where
  "tool_message c r =
     \<lparr>role = ToolRole, content = [Text (tr_output r)], msg_name = None, tool_call_id = Some (call_id c),
      tool_calls = [], msg_is_error = tr_is_error r\<rparr>"

definition keep_result :: "tool_call \<Rightarrow> tool_result \<Rightarrow> loop_state \<Rightarrow> loop_state" where
  "keep_result c r s =
     s\<lparr>loop_input := (loop_input s)\<lparr>in_tool_results := in_tool_results (loop_input s) @
        [\<lparr>tc_name = call_name c, tc_result = r, tc_is_shell = (call_name c = ''shell''),
          already_in_model_history = True\<rparr>]\<rparr>\<rparr>"

definition edit_diff_result :: "path list \<Rightarrow> string \<Rightarrow> task_verification_result" where
  "edit_diff_result changed out =
     \<lparr>vr_command = ''inspect final edit diff'', vr_category = ''GitDiff'', vr_passed = True,
      vr_exit_code = None, vr_summary = ''Complete edit-tool diff was provided to the model.'',
      vr_affected_files = changed, vr_failure_origin = None, vr_relevant_output = out\<rparr>"

definition has_automated_checks :: "loop_env \<Rightarrow> bool" where
  "has_automated_checks env \<longleftrightarrow>
     env_verifier env \<noteq> None \<and>
     (case env_plan env of None \<Rightarrow> False | Some p \<Rightarrow> list_ex (\<lambda>st. step_category st \<noteq> GitDiff) p)"

definition edit_diff_of :: "loop_env \<Rightarrow> tool_result \<Rightarrow> string option" where
  "edit_diff_of env r =
     (if \<not> git_available env \<or> env_verifier env = None
      then complete_edit_diff r (tr_changed_files r) else None)"

definition note_edit_diff :: "loop_env \<Rightarrow> path list \<Rightarrow> string option \<Rightarrow> unit action" where
  "note_edit_diff env changed diff =
     (case diff of
        None \<Rightarrow> pass ()
      | Some d \<Rightarrow>
          let out = bounded_context d (8 * 1024); v = edit_diff_result changed out in
          and_then (update (on_task (\<lambda>tr. note_result v (tr\<lparr>final_diff_inspected := True\<rparr>)))) (\<lambda>_.
          and_then (emit_event env (result_event v 0 out [])) (\<lambda>_.
            update (\<lambda>s.
              let s = drop_error ''verification:final_diff_inspection'' s
              in if has_automated_checks env then s else accept_validation s))))"

subsection \<open>After the call\<close>

definition settle_verification :: "nat \<Rightarrow> loop_state \<Rightarrow> loop_state" where
  "settle_verification earlier s =
     (let added = drop earlier (run_verification_results (task s)) in
      if added \<noteq> []
      then let s = s\<lparr>validated := list_all vr_passed added\<rparr>
           in if validated s then (accept_validation s)\<lparr>no_progress := 0\<rparr> else s
      else if final_diff_inspected (task s) then accept_validation s else s)"

definition new_results_pass :: "nat \<Rightarrow> loop_state \<Rightarrow> bool" where
  "new_results_pass earlier s \<longleftrightarrow> list_ex vr_passed (drop earlier (run_verification_results (task s)))"

definition close_call :: "bool \<Rightarrow> loop_state \<Rightarrow> loop_state" where
  "close_call progress s =
     on_task (\<lambda>tr. tr\<lparr>run_remaining_work := unresolved_errors tr\<rparr>)
       (sync_errors (if progress then on_task record_plan_progress s else s))"

definition verify_call :: "loop_env \<Rightarrow> path list \<Rightarrow> bool \<Rightarrow> unit action" where
  "verify_call env changed progress = with_state (\<lambda>s.
     let earlier = length (run_verification_results (task s)) in
     and_then (run_verification_if_needed env (env_plan env) changed) (\<lambda>repeated. with_state (\<lambda>s.
     and_then (update (close_call (progress \<or> new_results_pass earlier s) \<circ> settle_verification earlier)) (\<lambda>_.
     and_then (update_task_run env) (\<lambda>_.
       if repeated
       then and_then (update (on_task (\<lambda>tr. tr\<lparr>completion_status := Blocked, current_phase := Finish\<rparr>)))
         (\<lambda>_. finish_blocked env (''The same verification failure repeated '' @
           show_nat (repeated_limit env) @ '' times.''))
       else pass ())))))"

definition made_progress :: "loop_env \<Rightarrow> tool_call \<Rightarrow> tool_result \<Rightarrow> bool" where
  "made_progress env c r \<longleftrightarrow>
     \<not> tr_is_error r \<and> mode_denial env c = None \<or>
     validation_of c \<noteq> None \<and> \<not> tr_is_error r \<or>
     (case quick_diagnostic_result r (tr_changed_files r) of
        Some (_, passed, _, _) \<Rightarrow> passed | None \<Rightarrow> False)"

definition absorb_result :: "loop_env \<Rightarrow> tool_call \<Rightarrow> tool_result \<Rightarrow> unit action" where
  "absorb_result env c r =
     (let changed = tr_changed_files r in
      and_then (update (\<lambda>s. if \<not> tr_is_error r \<and> mode_denial env c = None
        then note_retrieval env c changed s else s)) (\<lambda>_.
      and_then (settle_result env c r) (\<lambda>_.
      and_then (update (\<lambda>s. case validation_of c of None \<Rightarrow> s | Some cmd \<Rightarrow> note_validation cmd r s)) (\<lambda>_.
      and_then (update (note_changes changed)) (\<lambda>_.
      and_then (note_diagnostic env changed (quick_diagnostic_result r changed)) (\<lambda>_.
      and_then (record_changes env changed) (\<lambda>_.
      and_then (update (keep_result c r)) (\<lambda>_.
      and_then (note_edit_diff env changed (edit_diff_of env r)) (\<lambda>_.
        verify_call env changed (made_progress env c r))))))))))"

text \<open>The value is the message that carries the result to the model.\<close>

definition tool_step :: "loop_env \<Rightarrow> tool_call \<Rightarrow> message action" where
  "tool_step env c =
     and_then (guard_call env) (\<lambda>_.
     and_then (count_repeats env c) (\<lambda>_.
     and_then (update (on_task (enter_call c))) (\<lambda>_.
     and_then (update_task_run env) (\<lambda>_.
     and_then (perform_call env c) (\<lambda>r.
     and_then (absorb_result env c r) (\<lambda>_. pass (tool_message c r)))))))"

section \<open>harness-agent: the run loop\<close>

text \<open>
  The loop of \<open>AgentRunner::run\<close>: a turn checks the limits, asks the model, and either settles
  a final answer or performs the tool calls in order. The loop ends because a turn that goes
  on has passed the check of \<open>max_turns\<close> and has counted itself.
\<close>

subsection \<open>A turn\<close>

definition assistant_message :: "model_response \<Rightarrow> message" where
  "assistant_message r =
     \<lparr>role = AssistantRole, content = response_content r, msg_name = None, tool_call_id = None,
      tool_calls = response_calls r, msg_is_error = False\<rparr>"

fun tool_steps :: "loop_env \<Rightarrow> tool_call list \<Rightarrow> message list action" where
  "tool_steps env [] = pass []"
| "tool_steps env (c # cs) =
     and_then (tool_step env c) (\<lambda>m. and_then (tool_steps env cs) (\<lambda>ms. pass (m # ms)))"

definition start_turn :: "loop_env \<Rightarrow> unit action" where
  "start_turn env =
     and_then (keep_limits env BeforeTurn) (\<lambda>_. update (\<lambda>s. s\<lparr>turns := turns s + 1\<rparr>))"

definition act_on :: "loop_env \<Rightarrow> model_response \<Rightarrow> unit action" where
  "act_on env r =
     (if response_calls r = [] then final_answer env (response_text r)
      else and_then (tool_steps env (response_calls r)) (\<lambda>ms.
        update (\<lambda>s. s\<lparr>loop_history := assistant_message r # ms\<rparr>)))"

definition turn :: "loop_env \<Rightarrow> unit action" where
  "turn env =
     and_then (start_turn env) (\<lambda>_.
     and_then (request_model_turn env) (\<lambda>r.
     and_then (receive_answer env r) (\<lambda>_. act_on env r)))"

end
