(* ===== verification/Agent_Rules.thy ===== *)
theory Agent_Rules
  imports Agent_Call
begin

section \<open>harness-agent: rules for actions\<close>

text \<open>
  What every action of the run keeps, whether it goes on or returns. \<open>step_ok env n\<close> relates
  the states before and after: the turn counter stands still, the calls stay within the limit,
  the mode of the task stays, every request to a tool is one the mode allows, and at most \<open>n\<close>
  requests go to the model. The locale \<open>action_relation\<close> gives the structural rules for such a
  family of relations; \<open>ends\<close> is a condition on what is returned from \<open>run\<close>.
\<close>

subsection \<open>Relations kept by actions\<close>

definition keeps :: "(loop_state \<Rightarrow> loop_state \<Rightarrow> bool) \<Rightarrow> 'a action \<Rightarrow> bool" where
  "keeps R m \<longleftrightarrow> (\<forall>s. R s (snd (m s)))"

definition ends_at :: "(run_result \<Rightarrow> loop_state \<Rightarrow> bool) \<Rightarrow> 'a action \<Rightarrow> loop_state \<Rightarrow> bool" where
  "ends_at Q m s \<longleftrightarrow> (\<forall>r s'. m s = (Inl r, s') \<longrightarrow> Q r s')"

definition ends :: "(run_result \<Rightarrow> loop_state \<Rightarrow> bool) \<Rightarrow> 'a action \<Rightarrow> bool" where
  "ends Q m \<longleftrightarrow> (\<forall>s. ends_at Q m s)"

named_theorems keeps_rules and ends_rules and quiet_rules

lemma keepsD: "keeps R m \<Longrightarrow> m s = (x, s') \<Longrightarrow> R s s'"
  by (auto simp: keeps_def dest!: spec [where x = s])

lemma endsD: "ends Q m \<Longrightarrow> m s = (Inl r, s') \<Longrightarrow> Q r s'"
  by (auto simp: ends_def ends_at_def)

locale action_relation =
  fixes R :: "nat \<Rightarrow> loop_state \<Rightarrow> loop_state \<Rightarrow> bool"
  assumes R_refl: "R 0 s s"
    and R_trans: "R n s t \<Longrightarrow> R k t u \<Longrightarrow> R (n + k) s u"
    and R_mono: "R n s t \<Longrightarrow> n \<le> k \<Longrightarrow> R k s t"
begin

lemma R_any: "R n s s"
  using R_mono [OF R_refl] by simp

lemma keeps_pass: "keeps (R n) (pass x)"
  by (simp add: keeps_def pass_def R_any)

lemma keeps_stop: "keeps (R n) (stop r)"
  by (simp add: keeps_def stop_def R_any)

lemma keeps_and_then_sum:
  assumes "keeps (R n) m" "\<And>x. keeps (R k) (f x)"
  shows "keeps (R (n + k)) (and_then m f)"
  unfolding keeps_def
proof
  fix s
  obtain v t where m: "m s = (v, t)" by (cases "m s")
  have "R n s t" by (rule keepsD [OF assms(1) m])
  then show "R (n + k) s (snd (and_then m f s))"
  proof (cases v)
    case (Inl r)
    with \<open>R n s t\<close> m show ?thesis by (auto simp: and_then_def intro: R_mono)
  next
    case (Inr x)
    with m assms(2) [of x] \<open>R n s t\<close> show ?thesis
      by (auto simp: and_then_def keeps_def intro: R_trans)
  qed
qed

lemma keeps_and_then:
  assumes "keeps (R 0) m" "\<And>x. keeps (R n) (f x)"
  shows "keeps (R n) (and_then m f)"
  using keeps_and_then_sum [of 0 m n f] assms by simp

lemma keeps_with_state: "(\<And>s. keeps (R n) (f s)) \<Longrightarrow> keeps (R n) (with_state f)"
  by (simp add: keeps_def with_state_def)

lemma keeps_or_return: "keeps (R n) (or_return r)"
  by (simp add: or_return_def keeps_pass keeps_stop split: sum.split)

lemmas structural = keeps_pass keeps_stop keeps_and_then keeps_with_state keeps_or_return

end

subsection \<open>Returns\<close>

lemma ends_pass [ends_rules]: "ends Q (pass x)"
  by (simp add: ends_def ends_at_def pass_def)

lemma ends_update [ends_rules]: "ends Q (update f)"
  by (simp add: ends_def ends_at_def update_def)

lemma ends_attempt [ends_rules]: "ends Q (attempt f)"
  by (simp add: ends_def ends_at_def attempt_def split: prod.split)

lemma ends_and_then [ends_rules]:
  assumes "ends Q m" "\<And>x. ends Q (f x)"
  shows "ends Q (and_then m f)"
  using assms unfolding ends_def ends_at_def
  by (auto simp: and_then_def split: prod.splits sum.splits)

lemma ends_at_and_then:
  assumes "ends Q m" "\<And>x t. m s = (Inr x, t) \<Longrightarrow> ends_at Q (f x) t"
  shows "ends_at Q (and_then m f) s"
  using assms unfolding ends_def ends_at_def
  by (auto simp: and_then_def split: prod.splits sum.splits)

lemma ends_with_state [ends_rules]: "(\<And>s. ends Q (f s)) \<Longrightarrow> ends Q (with_state f)"
  by (simp add: ends_def ends_at_def with_state_def)

lemma ends_with_state_at: "(\<And>s. ends_at Q (f s) s) \<Longrightarrow> ends Q (with_state f)"
  by (simp add: ends_def ends_at_def with_state_def)

lemma ends_at_update: "ends_at Q (f ()) (g s) \<Longrightarrow> ends_at Q (and_then (update g) f) s"
  by (simp add: ends_at_def and_then_def update_def)

lemma ends_imp_at: "ends Q m \<Longrightarrow> ends_at Q m s"
  by (simp add: ends_def)

subsection \<open>The relation\<close>

definition is_model_request :: "event_payload \<Rightarrow> bool" where
  "is_model_request p \<longleftrightarrow> event_type_of p = T_ModelRequested"

definition request_allowed :: "loop_env \<Rightarrow> tool_request \<Rightarrow> bool" where
  "request_allowed env r \<longleftrightarrow> task_mode_allows_tool (env_mode env) (operation_for env (tool_request_name r))"

text \<open>The mode the session remembers is the mode of the run.\<close>

definition modes_agree :: "loop_env \<Rightarrow> bool" where
  "modes_agree env \<longleftrightarrow> (\<forall>t. stored_mode env t = env_mode env)"

definition calls_ok :: "loop_env \<Rightarrow> bool \<Rightarrow> nat \<Rightarrow> call_state \<Rightarrow> call_state \<Rightarrow> bool" where
  "calls_ok env agree n c c' \<longleftrightarrow>
     (\<exists>reqs evs. requested c' = requested c @ reqs \<and> emitted c' = emitted c @ evs \<and>
       (agree \<longrightarrow> list_all (request_allowed env) reqs) \<and>
       length (filter is_model_request evs) \<le> n)"

definition step_ok :: "loop_env \<Rightarrow> nat \<Rightarrow> loop_state \<Rightarrow> loop_state \<Rightarrow> bool" where
  "step_ok env n s s' \<longleftrightarrow>
     turns s' = turns s \<and>
     (used_calls s \<le> max_tool_calls (env_limits env) \<longrightarrow>
        used_calls s' \<le> max_tool_calls (env_limits env)) \<and>
     run_task_mode (task s') = run_task_mode (task s) \<and>
     calls_ok env (modes_agree env \<and> run_task_mode (task s) = env_mode env) n (io s) (io s')"

lemma calls_ok_refl: "calls_ok env agree n c c"
  by (simp add: calls_ok_def)

lemma calls_ok_trans:
  assumes "calls_ok env agree n c d" "calls_ok env agree k d e"
  shows "calls_ok env agree (n + k) c e"
  using assms unfolding calls_ok_def by (auto simp: list_all_append intro: add_mono)

lemma calls_ok_mono: "calls_ok env agree n c d \<Longrightarrow> n \<le> k \<Longrightarrow> calls_ok env agree k c d"
  unfolding calls_ok_def by (blast intro: le_trans)

interpretation step: action_relation "step_ok env" for env
proof unfold_locales
  show "step_ok env 0 s s" for s by (simp add: step_ok_def calls_ok_refl)
  show "step_ok env (n + k) s u" if "step_ok env n s t" "step_ok env k t u" for n s t k u
    using that by (auto simp: step_ok_def intro: calls_ok_trans)
  show "step_ok env k s t" if "step_ok env n s t" "n \<le> k" for n s t k
    using that by (auto simp: step_ok_def intro: calls_ok_mono)
qed

lemmas keeps_step = step.structural

declare keeps_step [keeps_rules]

subsection \<open>Quiet updates\<close>

text \<open>Updates that touch none of what \<open>step_ok\<close> speaks of.\<close>

definition quiet :: "loop_state \<Rightarrow> loop_state \<Rightarrow> bool" where
  "quiet s s' \<longleftrightarrow> io s' = io s \<and> turns s' = turns s \<and> used_calls s' = used_calls s \<and>
     run_task_mode (task s') = run_task_mode (task s)"

lemma quiet_step: "quiet s s' \<Longrightarrow> step_ok env n s s'"
  by (simp add: quiet_def step_ok_def calls_ok_refl)

lemma keeps_update [keeps_rules]: "(\<And>s. quiet s (f s)) \<Longrightarrow> keeps (step_ok env n) (update f)"
  by (simp add: keeps_def update_def quiet_step)

lemma quiet_refl [quiet_rules]: "quiet s s"
  by (simp add: quiet_def)

lemma quiet_trans: "quiet s t \<Longrightarrow> quiet t u \<Longrightarrow> quiet s u"
  by (simp add: quiet_def)

lemma quiet_on_task: "run_task_mode (f (task s)) = run_task_mode (task s) \<Longrightarrow> quiet s (on_task f s)"
  by (simp add: quiet_def on_task_def)

lemma quiet_fold: "(\<And>x s. quiet s (f x s)) \<Longrightarrow> quiet s (fold f xs s)"
  by (induction xs arbitrary: s) (auto simp: quiet_refl intro: quiet_trans)

section \<open>harness-agent: every step keeps the frame\<close>

text \<open>
  Each action of the loop keeps \<open>step_ok\<close>: first the calls and hooks, then the updates of the
  state, which are quiet, then the actions, in the order the code composes them.
\<close>

subsection \<open>Calls and hooks\<close>

lemmas calls_trans = calls_ok_trans [where n = 0 and k = 0, simplified]

lemma request_allowed_code: "env_mode env = CodeMode \<Longrightarrow> request_allowed env r"
  by (simp add: request_allowed_def task_mode_allows_tool_def)

lemma emitted_ok:
  "\<not> is_model_request e \<or> 0 < n \<Longrightarrow> calls_ok env agree n c (c\<lparr>emitted := emitted c @ [e]\<rparr>)"
  by (auto simp: calls_ok_def)

lemma emit_calls_ok:
  "\<not> is_model_request e \<or> 0 < n \<Longrightarrow> calls_ok env agree n c (snd (emit k e c))"
  by (simp add: emitted_ok)

lemma run_tool_call_ok:
  "(agree \<Longrightarrow> request_allowed env r) \<Longrightarrow> calls_ok env agree 0 c (snd (run_tool_call k r c))"
  by (auto simp: calls_ok_def)

lemma approved_ok [simp]: "calls_ok env agree n c (d\<lparr>approved := ap\<rparr>) = calls_ok env agree n c d"
  "calls_ok env agree n (c\<lparr>approved := ap\<rparr>) d = calls_ok env agree n c d"
  by (simp_all add: calls_ok_def)

lemma run_hook_list_ok:
  assumes "agree \<Longrightarrow> ctx_mode k = env_mode env"
  shows "calls_ok env agree 0 c (snd (run_hook_list k e ns hs c))"
proof (induction hs arbitrary: ns c)
  case Nil
  show ?case by (simp add: calls_ok_refl)
next
  case (Cons hk hs)
  show ?case
  proof (cases "ctx_mode k = CodeMode")
    case True
    obtain v d where call: "run_tool_call k (hook_shell_request hk) c = (v, d)"
      by (cases "run_tool_call k (hook_shell_request hk) c")
    have "calls_ok env agree 0 c (snd (run_tool_call k (hook_shell_request hk) c))"
      by (rule run_tool_call_ok) (use assms True request_allowed_code in auto)
    with call have first: "calls_ok env agree 0 c d" by simp
    show ?thesis
      using True call first calls_trans [OF first Cons.IH]
      by (auto simp: Let_def split: sum.split)
  qed (simp add: Cons.IH)
qed

lemma run_hooks_ok:
  "(agree \<Longrightarrow> ctx_mode k = env_mode env) \<Longrightarrow> calls_ok env agree 0 c (snd (run_hooks k e c))"
  by (simp add: run_hooks_def run_hook_list_ok)

lemma run_events_ok:
  assumes "agree \<Longrightarrow> ctx_mode k = env_mode env"
  shows "calls_ok env agree 0 c (snd (run_events k es c))"
proof (induction es arbitrary: c)
  case (Cons e es)
  obtain v d where hooks: "run_hooks k e c = (v, d)" by (cases "run_hooks k e c")
  then have first: "calls_ok env agree 0 c d" using run_hooks_ok [OF assms, of agree c e] by simp
  obtain w d' where rest: "run_events k es d = (w, d')" by (cases "run_events k es d")
  then have "calls_ok env agree 0 c d'" using calls_trans [OF first Cons.IH [of d]] by simp
  with hooks rest first show ?case by (auto split: sum.split)
qed (simp add: calls_ok_refl)

lemma run_after_events_ok:
  assumes "agree \<Longrightarrow> ctx_mode k = env_mode env"
  shows "calls_ok env agree 0 c (snd (run_after_events k es c))"
proof (induction es arbitrary: c)
  case (Cons e es)
  obtain v d where hooks: "run_hooks k e c = (v, d)" by (cases "run_hooks k e c")
  then have first: "calls_ok env agree 0 c d" using run_hooks_ok [OF assms, of agree c e] by simp
  obtain w d' where rest: "run_after_events k es d = (w, d')" by (cases "run_after_events k es d")
  then have "calls_ok env agree 0 c d'" using calls_trans [OF first Cons.IH [of d]] by simp
  with hooks rest show ?case by simp
qed (simp add: calls_ok_refl)

lemma run_with_hooks_ok:
  assumes mode: "agree \<Longrightarrow> ctx_mode k = env_mode env" and allowed: "agree \<Longrightarrow> request_allowed env r"
  shows "calls_ok env agree 0 c (snd (run_with_hooks k r asked c))"
proof -
  obtain v d where ev: "run_events k (hooks_before r) c = (v, d)"
    by (cases "run_events k (hooks_before r) c")
  then have d: "calls_ok env agree 0 c d"
    using run_events_ok [OF mode, of agree c "hooks_before r"] by simp
  show ?thesis
  proof (cases "\<exists>ns keys. v = Inr ns \<and> granted_keys k r asked d = Inr keys")
    case False
    with ev d show ?thesis by (auto simp: run_with_hooks_def split: sum.split)
  next
    case True
    then obtain ns keys where keys: "v = Inr ns" "granted_keys k r asked d = Inr keys" by blast
    define start where "start = d\<lparr>approved := approved d \<union> keys\<rparr>"
    obtain w f where call: "run_tool_call k r start = (w, f)" by (cases "run_tool_call k r start")
    then have f: "calls_ok env agree 0 c f"
      using calls_trans [OF _ run_tool_call_ok [OF allowed, of agree start k]] d
      by (simp add: start_def)
    show ?thesis
    proof (cases w)
      case (Inl err)
      with ev keys call f show ?thesis by (simp add: run_with_hooks_def start_def)
    next
      case (Inr result)
      obtain rs g where after: "run_after_events k (hooks_after r result) f = (rs, g)"
        by (cases "run_after_events k (hooks_after r result) f")
      then have "calls_ok env agree 0 c g"
        using calls_trans [OF f run_after_events_ok [OF mode, of agree f "hooks_after r result"]] by simp
      with ev keys call Inr after show ?thesis by (simp add: run_with_hooks_def start_def)
    qed
  qed
qed

lemma emit_asking_ok: "calls_ok env agree 0 c (snd (emit_asking k name ev q c))"
  by (cases q) (simp_all add: emit_asking_def policy_event_def is_model_request_def calls_ok_refl emitted_ok)

lemma execute_tool_with_hooks_ok:
  assumes mode: "agree \<Longrightarrow> ctx_mode k = env_mode env" and allowed: "agree \<Longrightarrow> request_allowed env r"
  shows "calls_ok env agree 0 c (snd (execute_tool_with_hooks k r c))"
proof -
  note call = run_tool_call_ok [OF allowed] and hooks = run_with_hooks_ok [OF mode allowed]
  obtain pre ap where pre: "preflight (call_host_at k c) (approved c) r = (pre, ap)"
    by (cases "preflight (call_host_at k c) (approved c) r")
  define d where "d = c\<lparr>approved := ap\<rparr>"
  have d: "calls_ok env agree 0 c d" by (simp add: d_def calls_ok_refl)
  show ?thesis
  proof (cases "\<exists>ev. pre = Inr ev \<and> decision ev \<noteq> Deny")
    case False
    then have "execute_tool_with_hooks k r c = run_tool_call k r d"
      using pre by (auto simp: execute_tool_with_hooks_def d_def Let_def split: sum.split)
    then show ?thesis using calls_trans [OF d call [where c = d]] by simp
  next
    case True
    then obtain ev where ev: "pre = Inr ev" "decision ev \<noteq> Deny" by blast
    define veto where "veto = (if is_edit_tool (tool_request_name r)
      then protected_path (ctx_hooks k) (ctx_root k) r else None)"
    show ?thesis
    proof (cases veto)
      case (Some p)
      define e where "e = ToolFailed (tool_request_name r)
        (''edit blocked by .agent/hooks.toml protected_paths: '' @ p)"
      obtain v f where emit: "emit k e d = (v, f)" by (cases "emit k e d")
      have "\<not> is_model_request e" by (simp add: e_def is_model_request_def)
      then have f: "calls_ok env agree 0 c f"
        using calls_trans [OF d emit_calls_ok [of e 0 env agree d k]] emit by (simp del: emit_state)
      have "snd (execute_tool_with_hooks k r c) = f"
        using pre ev Some emit [unfolded e_def]
        by (cases v) (simp_all add: execute_tool_with_hooks_def veto_def d_def Let_def)
      with f show ?thesis by simp
    next
      case None
      show ?thesis
      proof (cases "decision ev = Ask")
        case False
        with pre ev None have "execute_tool_with_hooks k r c = run_with_hooks k r False d"
          by (simp add: execute_tool_with_hooks_def veto_def d_def Let_def)
        then show ?thesis using calls_trans [OF d hooks [where c = d and asked = False]] by simp
      next
        case ask: True
        show ?thesis
        proof (cases "policy_requests (call_host_at k c) r")
          case (Inl err)
          with pre ev None ask d show ?thesis
            by (simp add: execute_tool_with_hooks_def veto_def d_def Let_def)
        next
          case (Inr rs)
          obtain asking ap' where find: "find_asking (base_evaluate (call_host_at k c)) (approval_key k)
              (approved d) rs = (asking, ap')"
            by (cases "find_asking (base_evaluate (call_host_at k c)) (approval_key k) (approved d) rs")
          define q where "q = (case asking of Some q \<Rightarrow> Some q
            | None \<Rightarrow> (case rs of q # _ \<Rightarrow> Some q | [] \<Rightarrow> None))"
          obtain v f where emit: "emit_asking k (tool_request_name r) ev q (d\<lparr>approved := ap'\<rparr>) = (v, f)"
            by (cases "emit_asking k (tool_request_name r) ev q (d\<lparr>approved := ap'\<rparr>)")
          then have f: "calls_ok env agree 0 c f"
            using calls_trans [OF _ emit_asking_ok, of env agree c "d\<lparr>approved := ap'\<rparr>" k] d
            by (metis approved_ok(1) snd_conv)
          define res where "res = snd (execute_tool_with_hooks k r c)"
          have "res = f \<or> res = snd (run_with_hooks k r True f)"
            using pre ev None ask Inr find emit
            by (simp add: res_def execute_tool_with_hooks_def veto_def d_def q_def Let_def
                split: sum.split bool.split)
          then show ?thesis using f calls_trans [OF f hooks [where c = f and asked = True]]
            unfolding res_def [symmetric] by metis
        qed
      qed
    qed
  qed
qed

end
