(* ===== verification/Agent_Frame_Loop.thy ===== *)
theory Agent_Frame_Loop
  imports  Agent_Rules
begin

section \<open>harness-agent: the frame of the loop\<close>

text \<open>
  The updates of the state are quiet, and from the rules of \<open>Agent_Rules\<close> every action of the
  loop keeps \<open>step_ok\<close>, up to a whole turn, which makes at most one request to the model.
\<close>

subsection \<open>Actions on calls\<close>

abbreviation keeps_frame :: "loop_env \<Rightarrow> 'a action \<Rightarrow> bool" where
  "keeps_frame env m \<equiv> keeps (step_ok env 0) m"

lemma keeps_attempt:
  assumes "\<And>c. calls_ok env (modes_agree env) n c (snd (f c))"
  shows "keeps (step_ok env n) (attempt f)"
proof -
  have "step_ok env n s (s\<lparr>io := snd (f (io s))\<rparr>)" for s
    using assms [of "io s"] by (auto simp: step_ok_def calls_ok_def)
  then show ?thesis by (simp add: keeps_def attempt_def case_prod_beta)
qed

lemma keeps_attempt_at:
  assumes "calls_ok env (modes_agree env \<and> run_task_mode (task s) = env_mode env) n (io s) (snd (f (io s)))"
  shows "step_ok env n s (snd (attempt f s))"
  using assms by (simp add: attempt_def case_prod_beta step_ok_def)

lemma step_ok_and_then:
  assumes "step_ok env 0 s (snd (m s))" "\<And>x. keeps_frame env (f x)"
  shows "step_ok env 0 s (snd (and_then m f s))"
proof -
  obtain v t where m: "m s = (v, t)" by (cases "m s")
  show ?thesis
  proof (cases v)
    case (Inl r)
    with m assms(1) show ?thesis by (simp add: and_then_def)
  next
    case (Inr x)
    with m assms show ?thesis
      using step.R_trans [of env 0 s t 0 "snd (f x t)"]
      by (simp add: and_then_def keeps_def)
  qed
qed

lemma keeps_with_state_at: "(\<And>s. step_ok env n s (snd (f s s))) \<Longrightarrow> keeps (step_ok env n) (with_state f)"
  by (simp add: keeps_def with_state_def)

lemma keeps_emit_event [keeps_rules]:
  "\<not> is_model_request p \<Longrightarrow> keeps_frame env (emit_event env p)"
  unfolding emit_event_def
  by (intro keeps_rules keeps_attempt emit_calls_ok) simp

lemma keeps_emit_anyway [keeps_rules]:
  "\<not> is_model_request p \<Longrightarrow> keeps_frame env (emit_anyway env p)"
  unfolding emit_anyway_def
  by (intro keeps_rules keeps_attempt emit_calls_ok) simp

lemma keeps_model_requested: "keeps (step_ok env 1) (emit_event env p)"
proof -
  have sent: "keeps (step_ok env 1) (attempt (emit (env_calls env) p))"
    by (rule keeps_attempt, rule emit_calls_ok) simp
  have "keeps (step_ok env (1 + 0)) (emit_event env p)"
    unfolding emit_event_def by (rule step.keeps_and_then_sum [OF sent step.keeps_or_return])
  then show ?thesis by simp
qed

lemma not_model_request [simp]:
  "\<not> is_model_request (TaskRunUpdated tr)" "\<not> is_model_request (SessionFailed msg)"
  "\<not> is_model_request (SessionCompleted why)" "\<not> is_model_request (AssistantMessage msg)"
  "\<not> is_model_request (ModelResponse p m txt i out)" "\<not> is_model_request (ContextCompacted rm sm c)"
  "\<not> is_model_request (VerificationStarted cmds)" "\<not> is_model_request (ToolDenied n msg)"
  "\<not> is_model_request (policy_event n act ev q ks)" "\<not> is_model_request (result_event v ms shown ds)"
  by (simp_all add: is_model_request_def policy_event_def result_event_def)

lemma keeps_update_task_run [keeps_rules]: "keeps_frame env (update_task_run env)"
  unfolding update_task_run_def by (intro keeps_rules) simp

lemma keeps_emit_events:
  "list_all (\<lambda>p. \<not> is_model_request p) ps \<Longrightarrow> keeps_frame env (emit_events env ps)"
  by (induction ps) (auto intro!: keeps_rules)

lemma run_session_end_ok:
  assumes "agree \<Longrightarrow> mode = env_mode env"
  shows "calls_ok env agree 0 c (snd (run_session_end_hooks env mode c))"
proof (cases "session_end env (length (emitted c))")
  case (Inr k)
  have "calls_ok env agree 0 c (snd (run_hooks (k\<lparr>ctx_mode := mode\<rparr>) HookSessionEnd (c\<lparr>approved := {}\<rparr>)))"
    using run_hooks_ok [of agree "k\<lparr>ctx_mode := mode\<rparr>" env "c\<lparr>approved := {}\<rparr>" HookSessionEnd] assms
    by simp
  with Inr show ?thesis
    by (simp add: run_session_end_hooks_def split: prod.split sum.split) (metis snd_conv)
qed (simp add: run_session_end_hooks_def calls_ok_refl)

subsection \<open>Ways to return\<close>

lemma keeps_fail [keeps_rules]: "keeps_frame env (fail env err)"
  unfolding fail_def
  by (rule keeps_with_state_at, rule step_ok_and_then, rule keeps_attempt_at, rule run_session_end_ok)
    (auto simp: modes_agree_def intro!: keeps_rules)

lemma keeps_abort [keeps_rules]: "keeps_frame env (abort env err)"
  unfolding abort_def by (intro keeps_rules) simp

lemma keeps_finish [keeps_rules]: "keeps_frame env (finish env msg)"
  unfolding finish_def
  by (rule keeps_with_state_at, rule step_ok_and_then, rule keeps_attempt_at, rule run_session_end_ok)
    (auto simp: Let_def finish_task_run_def intro!: keeps_rules keeps_emit_events split: prod.split)

lemma quiet_task [quiet_rules]:
  "(\<And>tr. run_task_mode (f tr) = run_task_mode tr) \<Longrightarrow> quiet s (on_task f s)"
  by (simp add: quiet_on_task)

lemma keeps_abort_as [keeps_rules]: "keeps_frame env (abort_as env status err)"
  unfolding abort_as_def by (intro keeps_rules quiet_rules) simp

lemma keeps_finish_blocked [keeps_rules]: "keeps_frame env (finish_blocked env reason)"
  unfolding finish_blocked_def by (intro keeps_rules quiet_rules) simp_all

lemma check_limits_mode:
  "check_limits l c el t u m co tr = (r, tr', evs) \<Longrightarrow> run_task_mode tr' = run_task_mode tr"
  by (auto simp: check_limits_def Let_def split: if_splits option.splits)

lemma keeps_keep_limits [keeps_rules]: "keeps_frame env (keep_limits env p)"
proof -
  have "step_ok env 0 s (snd (keep_limits env p s))" for s
  proof -
    obtain r tr evs where check: "check_limits (env_limits env) (cancelled_at env p (now s))
        (elapsed_at env p (now s)) (turns s) (used_calls s) (model_tokens s) (cost s) (task s) = (r, tr, evs)"
      by (cases "check_limits (env_limits env) (cancelled_at env p (now s))
        (elapsed_at env p (now s)) (turns s) (used_calls s) (model_tokens s) (cost s) (task s)")
    show ?thesis
    proof (cases r)
      case (Inl err)
      have "step_ok env 0 s (snd (update (on_task (\<lambda>_. tr)) s))"
        using check_limits_mode [OF check] by (simp add: update_def quiet_step quiet_on_task)
      then have "step_ok env 0 s (snd (and_then (update (on_task (\<lambda>_. tr))) (\<lambda>_. abort env err) s))"
        by (rule step_ok_and_then) (rule keeps_abort)
      with check Inl show ?thesis by (simp add: keep_limits_def with_state_def)
    qed (use check in \<open>simp add: keep_limits_def with_state_def pass_def step.R_refl\<close>)
  qed
  then show ?thesis by (simp add: keeps_def)
qed

subsection \<open>Quiet updates\<close>

lemma sync_milestone_mode [simp]: "run_task_mode (sync_current_milestone tr) = run_task_mode tr"
  by (simp add: sync_current_milestone_def)

lemma advance_mode [simp]: "run_task_mode (advance_execution_plan tr) = run_task_mode tr"
  by (simp add: advance_execution_plan_def split: option.split)

lemma progress_mode [simp]: "run_task_mode (record_plan_progress tr) = run_task_mode tr"
  by (simp add: record_plan_progress_def split: option.split)

lemma revise_mode:
  "revise_execution_plan tr reason steps = (ok, tr') \<Longrightarrow> run_task_mode tr' = run_task_mode tr"
  by (auto simp: revise_execution_plan_def Let_def split: if_splits option.splits)

lemma small_task_modes [simp]:
  "run_task_mode (adopt_plan steps txt tr) = run_task_mode tr"
  "run_task_mode (keep_structured_plan txt tr) = run_task_mode tr"
  "run_task_mode (enter_plan_phase tr) = run_task_mode tr"
  "run_task_mode (count_compaction tr) = run_task_mode tr"
  "run_task_mode (count_retrieval tr) = run_task_mode tr"
  "run_task_mode (collect_relevant_files tr args) = run_task_mode tr"
  "run_task_mode (note_command cmd tr) = run_task_mode tr"
  "run_task_mode (note_result v tr) = run_task_mode tr"
  by (simp_all add: adopt_plan_def keep_structured_plan_def enter_plan_phase_def count_compaction_def
      count_retrieval_def collect_relevant_files_def note_command_def note_result_def Let_def)

lemma note_report_mode [simp]: "run_task_mode (note_report rep out tr) = run_task_mode tr"
  by (simp add: note_report_def Let_def)

lemma enter_call_mode [simp]: "run_task_mode (enter_call c tr) = run_task_mode tr"
  by (simp add: enter_call_def Let_def split: option.split)

lemma quiet_errors [quiet_rules]:
  "quiet s (put_error k v s)" "quiet s (ensure_error k v s)" "quiet s (drop_error k s)"
  "quiet s (count_failure sig s)" "quiet s (sync_errors s)" "quiet s (push_observation n r s)"
  "quiet s (observe_hooks ns s)" "quiet s (install_compaction env cst s)" "quiet s (prepare_input env s)"
  "quiet s (charge env ans s)" "quiet s (remember_answer txt s)" "quiet s (count_call key s)"
  "quiet s (keep_result c r s)"
  by (simp_all add: quiet_def put_error_def ensure_error_def drop_error_def count_failure_def
      sync_errors_def on_task_def push_observation_def observe_hooks_def install_compaction_def
      prepare_input_def charge_def remember_answer_def count_call_def keep_result_def Let_def)

lemmas quiet_defs = quiet_def on_task_def put_error_def ensure_error_def drop_error_def
  count_failure_def sync_errors_def push_observation_def Let_def

lemma apply_dispositions_mode:
  "run_task_mode (fst (apply_unrelated_verification_dispositions tr errs ds v)) = run_task_mode tr"
  by (simp add: apply_unrelated_verification_dispositions_def Let_def split: prod.split)

lemma quiet_answer [quiet_rules]:
  "quiet s (note_context env a s)" "quiet s (recover_provider s)" "quiet s (require_review env s)"
  "quiet s (note_no_progress s)" "quiet s (adopt_final_plan txt s)"
  by (simp_all add: quiet_defs note_context_def recover_provider_def require_review_def
      note_no_progress_def adopt_final_plan_def split: option.split)

lemma quiet_dispose [quiet_rules]: "quiet s (dispose_unrelated ds s)"
proof -
  obtain tr errs v where "apply_unrelated_verification_dispositions (task s) (error_keys s) ds (validated s)
      = (tr, errs, v)"
    by (cases "apply_unrelated_verification_dispositions (task s) (error_keys s) ds (validated s)")
  then show ?thesis
    using apply_dispositions_mode [of "task s" "error_keys s" ds "validated s"]
    by (simp add: quiet_def dispose_unrelated_def)
qed

lemma quiet_report [quiet_rules]:
  "quiet s (pass_report rep s)" "quiet s (fail_report rep out s)"
  by (simp_all add: quiet_defs pass_report_def fail_report_def)

lemma quiet_note_changed_path: "quiet s (note_changed_path p s)"
  by (simp add: quiet_defs note_changed_path_def)

lemma quiet_retrieval [quiet_rules]: "quiet s (note_retrieval env c changed s)"
  unfolding note_retrieval_def Let_def
  by (rule quiet_trans [OF _ quiet_fold], rule quiet_trans [rotated])
    (auto simp: quiet_def on_task_def quiet_note_changed_path [unfolded quiet_def] split: option.split)

lemma quiet_call [quiet_rules]:
  "quiet s (note_tool_failure env c out s)" "quiet s (note_tool_success c changed s)"
  "quiet s (accept_validation s)" "quiet s (note_validation cmd r s)" "quiet s (note_changes changed s)"
  "quiet s (settle_diagnostic cmd passed out s)" "quiet s (settle_verification earlier s)"
  "quiet s (close_call progress s)"
  by (simp_all add: quiet_defs note_tool_failure_def note_tool_success_def accept_validation_def
      note_validation_def note_changes_def settle_diagnostic_def settle_verification_def close_call_def)

subsection \<open>Verification\<close>

lemma keeps_evaluate_approved [keeps_rules]: "keeps_frame env (evaluate_approved env q)"
  by (simp add: keeps_def evaluate_approved_def step_ok_def calls_ok_refl split: prod.split)

lemma keeps_admit_step [keeps_rules]: "keeps_frame env (admit_step env st)"
  unfolding admit_step_def Let_def
  by (intro keeps_rules) (auto split: policy_decision.split intro!: keeps_rules)

lemma keeps_admit_steps [keeps_rules]: "keeps_frame env (admit_steps env sts)"
  by (induction sts) (auto intro!: keeps_rules)

lemma keeps_settle_report [keeps_rules]: "keeps_frame env (settle_report env rep out)"
  by (auto simp: settle_report_def intro!: keeps_rules quiet_rules)

lemma keeps_record_report [keeps_rules]: "keeps_frame env (record_report env changed rep)"
  unfolding record_report_def Let_def by (intro keeps_rules quiet_rules) simp_all

lemma keeps_record_reports [keeps_rules]: "keeps_frame env (record_reports env changed reps)"
  by (induction reps) (auto intro!: keeps_rules)

lemma keeps_record_runner_failure [keeps_rules]: "keeps_frame env (record_runner_failure env msg)"
  unfolding record_runner_failure_def Let_def
  by (intro keeps_rules quiet_rules)
    (auto simp: quiet_defs note_result_def)

lemma keeps_run_checks [keeps_rules]: "keeps_frame env (run_checks env v plan changed)"
  unfolding run_checks_def
  by (intro keeps_rules quiet_rules) (auto split: sum.split intro!: keeps_rules)

lemma keeps_verification [keeps_rules]: "keeps_frame env (run_verification_if_needed env plan changed)"
  unfolding run_verification_if_needed_def Let_def
  by (auto split: option.split intro!: keeps_rules)

subsection \<open>A request\<close>

lemma keeps_hook_step [keeps_rules]: "keeps_frame env (hook_step env e)"
  unfolding hook_step_def by (intro keeps_attempt run_hooks_ok) simp

lemma keeps_or_fail [keeps_rules]: "keeps_frame env (or_fail env r)"
  by (auto simp: or_fail_def split: sum.split intro!: keeps_rules)

lemma keeps_compact_context [keeps_rules]: "keeps_frame env (compact_context env)"
  unfolding compact_context_def
  by (intro keeps_rules quiet_rules) (auto split: sum.split intro!: keeps_rules quiet_rules)

lemma keeps_build_context [keeps_rules]: "keeps_frame env (build_context env)"
  unfolding build_context_def by (intro keeps_rules)

lemma keeps_assemble_context [keeps_rules]: "keeps_frame env (assemble_context env)"
  unfolding assemble_context_def by (intro keeps_rules) (auto intro!: keeps_rules)

lemma keeps_provider_failed [keeps_rules]: "keeps_frame env (provider_failed env err)"
  unfolding provider_failed_def by (intro keeps_rules) (auto intro!: keeps_rules quiet_rules)

lemma keeps_ask_model: "keeps (step_ok env 1) (ask_model env a)"
proof -
  have rest: "keeps_frame env (with_state (\<lambda>s.
      case respond env (now s) q of Inr r \<Rightarrow> pass r | Inl err \<Rightarrow> provider_failed env err))" for q
    by (intro keeps_rules) (auto split: sum.split intro!: keeps_rules)
  have "keeps (step_ok env (1 + 0)) (and_then (emit_event env p) (\<lambda>_. with_state (\<lambda>s.
      case respond env (now s) q of Inr r \<Rightarrow> pass r | Inl err \<Rightarrow> provider_failed env err)))" for p q
    by (rule step.keeps_and_then_sum [OF keeps_model_requested rest])
  then show ?thesis
    unfolding ask_model_def Let_def by (intro step.keeps_with_state) simp
qed

lemma keeps_request_model_turn: "keeps (step_ok env 1) (request_model_turn env)"
  unfolding request_model_turn_def
  by (intro step.keeps_and_then keeps_update keeps_rules quiet_rules keeps_ask_model) simp

lemma keeps_plan_from_answer [keeps_rules]: "keeps_frame env (plan_from_answer env txt)"
  unfolding plan_from_answer_def
proof (rule keeps_with_state_at)
  fix s
  show "step_ok env 0 s (snd ((case extract_plan_revision txt of
      Some (reason, steps) \<Rightarrow>
        (case revise_execution_plan (task s) reason steps of
           (False, tr) \<Rightarrow> update (on_task (\<lambda>_. tr))
         | (True, tr) \<Rightarrow>
             and_then (update (on_task (\<lambda>_. enter_plan_phase (tr\<lparr>current_plan := steps\<rparr>))))
               (\<lambda>_. update_task_run env))
    | None \<Rightarrow>
        (case proposed_plan (task s) txt of
           None \<Rightarrow> pass ()
         | Some steps \<Rightarrow>
             and_then (update (on_task (\<lambda>tr. enter_plan_phase (adopt_plan steps txt tr))))
               (\<lambda>_. update_task_run env))) s))"
  proof (cases "extract_plan_revision txt")
    case None
    have "keeps_frame env (case proposed_plan (task s) txt of None \<Rightarrow> pass ()
        | Some steps \<Rightarrow> and_then (update (on_task (\<lambda>tr. enter_plan_phase (adopt_plan steps txt tr))))
            (\<lambda>_. update_task_run env))"
      by (auto split: option.split intro!: keeps_rules quiet_rules)
    with None show ?thesis by (simp add: keeps_def)
  next
    case (Some rs)
    obtain reason steps where rs: "rs = (reason, steps)" by (cases rs)
    obtain ok tr where revise: "revise_execution_plan (task s) reason steps = (ok, tr)"
      by (cases "revise_execution_plan (task s) reason steps")
    have quiet: "step_ok env 0 s (snd (update (on_task (\<lambda>_. tr')) s))"
      if "run_task_mode tr' = run_task_mode tr" for tr'
      using that revise_mode [OF revise] by (simp add: update_def quiet_step quiet_on_task)
    show ?thesis
      using Some rs revise quiet
      by (auto split: bool.split intro!: step_ok_and_then keeps_update_task_run)
  qed
qed

lemma keeps_receive_answer [keeps_rules]: "keeps_frame env (receive_answer env r)"
  unfolding receive_answer_def Let_def
  by (intro keeps_rules quiet_rules) (auto intro!: keeps_rules)

subsection \<open>A final answer\<close>

lemma keeps_ask_the_user [keeps_rules]: "keeps_frame env (ask_the_user env msg)"
  unfolding ask_the_user_def by (intro keeps_rules quiet_rules) simp_all

lemma keeps_inspect_final_diff [keeps_rules]: "keeps_frame env (inspect_final_diff env)"
  unfolding inspect_final_diff_def Let_def by (intro keeps_rules quiet_rules) simp_all

lemma keeps_refuse_completion [keeps_rules]: "keeps_frame env (refuse_completion env)"
  unfolding refuse_completion_def by (intro keeps_rules quiet_rules) (auto intro!: keeps_rules quiet_rules)

lemma keeps_complete_task [keeps_rules]: "keeps_frame env (complete_task env msg)"
  unfolding complete_task_def by (intro keeps_rules quiet_rules) simp_all

lemma keeps_settle_answer [keeps_rules]: "keeps_frame env (settle_answer env msg)"
  unfolding settle_answer_def by (intro keeps_rules quiet_rules) (auto intro!: keeps_rules)

lemma keeps_final_answer [keeps_rules]: "keeps_frame env (final_answer env txt)"
  unfolding final_answer_def Let_def
  by (auto split: prod.split intro!: keeps_rules quiet_rules)

subsection \<open>A tool call\<close>

lemma keeps_guard_call [keeps_rules]: "keeps_frame env (guard_call env)"
proof -
  have "step_ok env 0 s (snd (guard_call env s))" for s
    using keeps_abort_as [of env Cancelled AgentCancelled]
      keeps_abort_as [of env ResourceLimitReached "LimitExceeded ''max_tool_calls''"]
    by (auto simp: guard_call_def with_state_def keeps_def update_def step_ok_def calls_ok_refl)
  then show ?thesis by (simp add: keeps_def)
qed

lemma keeps_count_repeats [keeps_rules]: "keeps_frame env (count_repeats env c)"
  unfolding count_repeats_def stop_repeated_call_def Let_def
  by (intro keeps_rules quiet_rules)
    (auto intro!: keeps_rules simp: quiet_defs)

lemma keeps_stop_failed_call [keeps_rules]: "keeps_frame env (stop_failed_call env c err)"
  unfolding stop_failed_call_def by (intro keeps_rules) (auto simp: quiet_defs)

lemma keeps_perform_call [keeps_rules]: "keeps_frame env (perform_call env c)"
proof (cases "mode_denial env c")
  case None
  then have "request_allowed env (request_of_call c)"
    by (simp add: mode_denial_def request_allowed_def request_of_call_def split: if_splits)
  then have "keeps_frame env (attempt (execute_tool_with_hooks (env_calls env) (request_of_call c)))"
    by (intro keeps_attempt execute_tool_with_hooks_ok) simp_all
  with None show ?thesis
    by (auto simp: perform_call_def split: sum.split intro!: keeps_rules)
qed (auto simp: perform_call_def intro!: keeps_rules)

lemma keeps_settle_result [keeps_rules]: "keeps_frame env (settle_result env c r)"
  by (auto simp: settle_result_def Let_def intro!: keeps_rules quiet_rules)

lemma keeps_note_diagnostic [keeps_rules]: "keeps_frame env (note_diagnostic env changed d)"
  by (auto simp: note_diagnostic_def Let_def split: option.split intro!: keeps_rules quiet_rules)

lemma keeps_record_changes [keeps_rules]: "keeps_frame env (record_changes env ps)"
  by (induction ps) (auto split: option.split intro!: keeps_rules)

lemma keeps_note_edit_diff [keeps_rules]: "keeps_frame env (note_edit_diff env changed diff)"
  by (auto simp: note_edit_diff_def Let_def quiet_defs accept_validation_def split: option.split
      intro!: keeps_rules)

lemma keeps_verify_call [keeps_rules]: "keeps_frame env (verify_call env changed progress)"
  unfolding verify_call_def Let_def
  by (intro keeps_rules quiet_rules)
    (auto intro!: keeps_rules quiet_rules simp: quiet_call intro: quiet_trans [OF quiet_call(7) quiet_call(8)])

lemma keeps_absorb_result [keeps_rules]: "keeps_frame env (absorb_result env c r)"
  unfolding absorb_result_def Let_def
  by (intro keeps_rules quiet_rules) (auto split: option.split intro!: quiet_rules)

lemma keeps_tool_step [keeps_rules]: "keeps_frame env (tool_step env c)"
  unfolding tool_step_def by (intro keeps_rules quiet_rules) simp

lemma keeps_tool_steps [keeps_rules]: "keeps_frame env (tool_steps env cs)"
  by (induction cs) (auto intro!: keeps_rules)

lemma keeps_act_on [keeps_rules]: "keeps_frame env (act_on env r)"
  by (auto simp: act_on_def quiet_def intro!: keeps_rules)

end
