(* ===== verification/Agent_Run.thy ===== *)
theory Agent_Run
  imports Agent_Frame_Loop
begin

section \<open>harness-agent: the loop and its end\<close>

text \<open>
  \<open>run_loop\<close> repeats the turn until it returns; it terminates by the limit on turns. From the
  frame of a turn follows what a whole run keeps; from the rules for returns, that a run which
  ends with an outcome has published it, and that \<open>Done\<close> is only reported for reviewed work.
\<close>

subsection \<open>A turn counts itself\<close>

lemma keep_limits_pass:
  assumes "keep_limits env p s = (Inr x, s')"
  shows "s' = s \<and> turns s \<le> max_turns (env_limits env)"
proof -
  obtain r tr evs where check: "check_limits (env_limits env) (cancelled_at env p (now s))
      (elapsed_at env p (now s)) (turns s) (used_calls s) (model_tokens s) (cost s) (task s) = (r, tr, evs)"
    by (cases "check_limits (env_limits env) (cancelled_at env p (now s))
      (elapsed_at env p (now s)) (turns s) (used_calls s) (model_tokens s) (cost s) (task s)")
  show ?thesis
  proof (cases r)
    case (Inl err)
    have "fst (abort env err t) \<noteq> Inr y" for y :: unit and t
      by (simp add: abort_def fail_def and_then_def with_state_def emit_anyway_def attempt_def pass_def
          stop_def split: prod.split)
    with Inl check assms show ?thesis
      by (simp add: keep_limits_def with_state_def and_then_def update_def) (metis fst_conv)
  next
    case (Inr u)
    with check have "turns s \<le> max_turns (env_limits env)"
      by (auto simp: check_limits_def limit_reason_def Let_def split: if_splits)
    with Inr check assms show ?thesis
      by (simp add: keep_limits_def with_state_def pass_def)
  qed
qed

lemma turn_cases:
  assumes "turn env s = (v, s')"
  obtains (stopped) r where "v = Inl r" "step_ok env 0 s s'"
  | (ran) "turns s \<le> max_turns (env_limits env)" "step_ok env 1 (s\<lparr>turns := turns s + 1\<rparr>) s'"
proof -
  define rest where "rest = and_then (request_model_turn env) (\<lambda>r.
    and_then (receive_answer env r) (\<lambda>_. act_on env r))"
  have "keeps (step_ok env (1 + 0)) rest"
    unfolding rest_def by (intro step.keeps_and_then_sum keeps_request_model_turn keeps_rules)
  then have rest: "keeps (step_ok env 1) rest" by simp
  obtain w t where limits: "keep_limits env BeforeTurn s = (w, t)"
    by (cases "keep_limits env BeforeTurn s")
  have turn: "turn env = and_then (start_turn env) (\<lambda>_. rest)" by (simp add: turn_def rest_def)
  show thesis
  proof (cases w)
    case (Inl r)
    with limits assms have "v = Inl r" "s' = t"
      by (auto simp: turn start_turn_def and_then_def)
    moreover have "step_ok env 0 s t" by (rule keepsD [OF keeps_keep_limits limits])
    ultimately show thesis using stopped by blast
  next
    case (Inr x)
    with limits keep_limits_pass have t: "t = s" "turns s \<le> max_turns (env_limits env)" by blast+
    with limits Inr assms have "rest (s\<lparr>turns := turns s + 1\<rparr>) = (v, s')"
      by (simp add: turn start_turn_def and_then_def update_def)
    from keepsD [OF rest this] t ran show thesis by simp
  qed
qed

lemma turn_counts:
  assumes "turn env s = (Inr x, s')"
  shows "turns s \<le> max_turns (env_limits env) \<and> turns s' = turns s + 1"
  using assms by (cases rule: turn_cases) (auto simp: step_ok_def)

lemma turn_decreases:
  "(Inr x, s') = turn env s \<Longrightarrow>
   Suc (max_turns (env_limits env)) - turns s' < Suc (max_turns (env_limits env)) - turns s"
  using turn_counts [of env s x s'] by (simp, linarith)

subsection \<open>The loop\<close>

function run_loop :: "loop_env \<Rightarrow> loop_state \<Rightarrow> run_result \<times> loop_state" where
  "run_loop env s =
     (case turn env s of
        (Inl r, s') \<Rightarrow> (r, s')
      | (Inr _, s') \<Rightarrow> run_loop env s')"
  by pat_completeness auto
termination
  by (relation "measure (\<lambda>(env, s). Suc (max_turns (env_limits env)) - turns s)")
    (simp_all add: turn_decreases)

declare run_loop.simps [simp del]

lemma run_loop_frame:
  assumes "run_loop env s = (r, s')"
  shows "run_task_mode (task s') = run_task_mode (task s) \<and>
    turns s' \<le> max (turns s) (max_turns (env_limits env) + 1) \<and>
    (used_calls s \<le> max_tool_calls (env_limits env) \<longrightarrow>
       used_calls s' \<le> max_tool_calls (env_limits env)) \<and>
    calls_ok env (modes_agree env \<and> run_task_mode (task s) = env_mode env)
      (max_turns (env_limits env) + 1 - turns s) (io s) (io s')"
  using assms
proof (induction env s rule: run_loop.induct)
  case (1 env s)
  obtain v t where step: "turn env s = (v, t)" by (cases "turn env s")
  show ?case
  proof (cases v)
    case (Inl e)
    with step "1.prems" have t: "s' = t" by (simp add: run_loop.simps)
    from step show ?thesis
    proof (cases rule: turn_cases)
      case stopped
      then show ?thesis using t
        by (auto simp: step_ok_def intro: calls_ok_mono [where n = 0])
    next
      case ran
      then show ?thesis using t
        by (auto simp: step_ok_def intro: calls_ok_mono [where n = "Suc 0"])
    qed
  next
    case (Inr x)
    from step Inr "1.prems" have loop: "run_loop env t = (r, s')" by (simp add: run_loop.simps)
    from turn_counts step Inr have turns: "turns s \<le> max_turns (env_limits env)" "turns t = turns s + 1"
      by blast+
    from step Inr have "step_ok env 1 (s\<lparr>turns := turns s + 1\<rparr>) t"
      by (cases rule: turn_cases) auto
    then have first: "run_task_mode (task t) = run_task_mode (task s)"
      "used_calls s \<le> max_tool_calls (env_limits env) \<longrightarrow> used_calls t \<le> max_tool_calls (env_limits env)"
      "calls_ok env (modes_agree env \<and> run_task_mode (task s) = env_mode env) 1 (io s) (io t)"
      by (simp_all add: step_ok_def)
    note rest = "1.IH" [OF step [symmetric] Inr loop]
    have "1 + (max_turns (env_limits env) + 1 - turns t) = max_turns (env_limits env) + 1 - turns s"
      using turns by simp
    with rest first turns show ?thesis
      using calls_ok_trans [of env _ 1 "io s" "io t"] by (auto simp: max_def split: if_splits) (metis)+
  qed
qed

end
