(* ===== verification/Agent_Start.thy ===== *)
theory Agent_Start
  imports Agent_Run
begin

section \<open>harness-agent: starting and resuming a run\<close>

text \<open>
  What \<open>AgentRunner::run\<close> does before the loop, once the session is created or resumed: the
  task run is taken up or begun, its goal and plan are completed, the instructions and the
  context are assembled, and the unresolved errors of a resumed run become the entries of the
  map the loop works on. The summaries of skills and of the repository come from the tools.
\<close>

subsection \<open>The task\<close>

record agent_task =
  at_root :: path
  at_user_task :: string
  at_mode :: task_mode
  at_criteria :: "string list"
  at_system_instructions :: string
  at_workspace :: workspace_metadata
  at_instructions :: "instruction_file list"
  at_conversation :: "conversation_message list"
  at_files :: "explicit_file list"
  at_tool_results :: "tool_context_result list"
  at_git_status :: "git_status option"
  at_resume :: bool

subsection \<open>The task run\<close>

definition continues_plan :: "agent_task \<Rightarrow> task_run \<Rightarrow> bool" where
  "continues_plan t run \<longleftrightarrow>
     at_mode t = CodeMode \<and> at_resume t \<and> run_task_mode run = PlanMode \<and> structured_plan run \<noteq> None"

definition take_up_run :: "agent_task \<Rightarrow> task_run option \<Rightarrow> task_run" where
  "take_up_run t previous =
     (case previous of
        None \<Rightarrow> task_run_new (at_user_task t)
      | Some run \<Rightarrow> if completion_status run \<noteq> Done \<or> continues_plan t run then run
          else task_run_new (at_user_task t))"

definition start_goal :: "agent_task \<Rightarrow> task_run \<Rightarrow> task_run" where
  "start_goal t tr =
     (let tr = (if original_goal tr = [] then tr\<lparr>original_goal := at_user_task t\<rparr> else tr)
      in if trim (objective (run_goal tr)) = []
         then tr\<lparr>run_goal := parse_goal_details (original_goal tr) (run_acceptance_criteria tr)\<rparr>
         else tr)"

definition choose_criteria :: "agent_task \<Rightarrow> task_run \<Rightarrow> task_run" where
  "choose_criteria t tr =
     (if at_criteria t \<noteq> [] then tr\<lparr>run_acceptance_criteria := at_criteria t\<rparr>
      else if run_acceptance_criteria tr = []
      then tr\<lparr>run_acceptance_criteria := extract_acceptance_criteria (at_user_task t)\<rparr>
      else tr)"

definition merge_goal :: "goal \<Rightarrow> goal \<Rightarrow> goal" where
  "merge_goal parsed g =
     g\<lparr>constraints := (if constraints g = [] then constraints parsed else constraints g),
       non_goals := (if non_goals g = [] then non_goals parsed else non_goals g),
       completion_condition :=
         (if trim (completion_condition g) = []
             \<or> completion_condition parsed \<noteq> completion_condition (goal_new [])
          then completion_condition parsed else completion_condition g)\<rparr>"

definition fill_goal :: "task_run \<Rightarrow> task_run" where
  "fill_goal tr =
     tr\<lparr>run_goal := merge_goal (parse_goal_details (original_goal tr) (run_acceptance_criteria tr))
       ((run_goal tr)\<lparr>objective := extract_goal_objective (original_goal tr),
          acceptance_criteria := run_acceptance_criteria tr\<rparr>)\<rparr>"

definition complete_goal :: "agent_task \<Rightarrow> task_run \<Rightarrow> task_run" where
  "complete_goal t tr = fill_goal (choose_criteria t (start_goal t tr))"

definition legacy_plan :: "task_run \<Rightarrow> implementation_plan" where
  "legacy_plan tr =
     \<lparr>ip_goal = original_goal tr, relevant_architecture = [], files_likely_affected = [],
      implementation_steps = current_plan tr, ip_validation = [], risks_or_unknowns = []\<rparr>"

definition complete_plan :: "task_run \<Rightarrow> task_run" where
  "complete_plan tr =
     (let from_plan = (\<lambda>p. tr\<lparr>run_execution_plan :=
            Some (execution_plan_from_implementation p (run_acceptance_criteria tr))\<rparr>)
      in if run_execution_plan tr \<noteq> None then tr
         else case structured_plan tr of
           Some p \<Rightarrow> from_plan p
         | None \<Rightarrow> if current_plan tr \<noteq> [] then from_plan (legacy_plan tr) else tr)"

definition guard_prefix :: string where
  "guard_prefix = ''runtime:guard:''"

definition prepare_task_run :: "agent_task \<Rightarrow> task_run option \<Rightarrow> task_run" where
  "prepare_task_run t previous =
     (let tr = complete_plan (complete_goal t (take_up_run t previous));
          tr = sync_current_milestone (advance_execution_plan (tr\<lparr>run_task_mode := at_mode t\<rparr>));
          tr = tr\<lparr>completion_status := StatusInProgress, current_phase := Understand,
                run_remaining_work := []\<rparr>
      in if at_resume t
         then tr\<lparr>unresolved_errors := filter (\<lambda>e. \<not> starts_with e guard_prefix) (unresolved_errors tr)\<rparr>
         else tr)"

subsection \<open>The instructions and the context\<close>

definition system_text :: "agent_task \<Rightarrow> task_run option \<Rightarrow> string" where
  "system_text t previous =
     (let txt = task_mode_instructions (coding_agent_instructions (at_system_instructions t)) (at_mode t);
          txt = append_acceptance_criteria txt
            (run_acceptance_criteria (complete_goal t (take_up_run t previous)))
      in if at_resume t then append_prior_task_state txt (take_up_run t previous) else txt)"

definition workspace_of ::
  "agent_task \<Rightarrow> (path \<Rightarrow> string) \<Rightarrow> (path \<Rightarrow> string option) \<Rightarrow> workspace_metadata" where
  "workspace_of t skills repository_map =
     (let root = (case wm_root (at_workspace t) of None \<Rightarrow> at_root t | Some r \<Rightarrow> r);
          w = (at_workspace t)\<lparr>wm_root := Some root\<rparr>;
          w = (if skills root \<noteq> []
            then w\<lparr>details := AList.update ''available_skills (metadata only; load on demand)''
              (skills root) (details w)\<rparr> else w)
      in if map_of (details w) ''repository_map'' \<noteq> None then w
         else case repository_map root of None \<Rightarrow> w
           | Some m \<Rightarrow> w\<lparr>details := AList.update ''repository_map'' m (details w)\<rparr>)"

fun add_instructions ::
  "instruction_file list \<Rightarrow> instruction_file list \<Rightarrow> instruction_file list" where
  "add_instructions known [] = known"
| "add_instructions known (i # rest) =
     (if list_ex (\<lambda>k. instr_path k = instr_path i) known then add_instructions known rest
      else add_instructions (known @ [i]) rest)"

definition conversation_of :: "agent_task \<Rightarrow> session_state \<Rightarrow> nat \<Rightarrow> conversation_message list" where
  "conversation_of t st keep =
     last_n (min keep 8)
       (if at_conversation t \<noteq> [] then at_conversation t
        else if st_continuation st \<noteq> None then st_working_messages st else st_messages st)"

definition compacted_of :: "agent_task \<Rightarrow> session_state \<Rightarrow> task_run \<Rightarrow> compact_state option" where
  "compacted_of t st tr =
     (case st_continuation st of Some c \<Rightarrow> Some c
      | None \<Rightarrow> if at_resume t then Some (compact_state_from_task_run tr) else None)"

definition restore_errors :: "string list \<Rightarrow> error_map" where
  "restore_errors errs =
     foldl (\<lambda>m (k, v). AList.update k v m) [] (List.map_filter (split_once '' :: '') errs)"

definition start_state ::
  "loop_env \<Rightarrow> agent_task \<Rightarrow> session_state \<Rightarrow> instruction_file list \<Rightarrow> workspace_metadata \<Rightarrow> loop_state" where
  "start_state env t st discovered w =
     (let tr = prepare_task_run t (st_task_run st) in
      \<lparr>io = \<lparr>requested = [], approved = {}, emitted = []\<rparr>,
       loop_input =
         \<lparr>system_instructions = base_instructions env, in_workspace = w,
          in_instructions = add_instructions (at_instructions t) discovered,
          in_user_request = at_user_task t,
          in_conversation = conversation_of t st (keep_recent_messages (env_compaction env)),
          in_files = at_files t, in_tool_results = at_tool_results t,
          in_compacted_state = compacted_of t st tr, in_git_status = at_git_status t,
          in_git_diff = None\<rparr>,
       task = tr, turns = 0, used_calls = 0, model_tokens = 0, cost = Some 0,
       call_counts = (\<lambda>_. 0), failure_counts = (\<lambda>_. 0),
       error_keys = restore_errors (unresolved_errors tr), no_progress = 0,
       validated = (at_mode t \<noteq> CodeMode \<or> changed_files tr = []),
       retrieved_paths = {}, used_paths = {}, loop_history = [], previous_items = None\<rparr>)"

subsection \<open>The run\<close>

definition begin_run :: "loop_env \<Rightarrow> agent_task \<Rightarrow> unit action" where
  "begin_run env t =
     and_then (emit_event env (UserMessage (at_user_task t))) (\<lambda>_.
     and_then (update_task_run env) (\<lambda>_.
     and_then (hook_step env HookSessionStart) (\<lambda>r.
     and_then (or_fail env r) (\<lambda>ns. update (observe_hooks ns)))))"

definition run_task :: "loop_env \<Rightarrow> agent_task \<Rightarrow> loop_state \<Rightarrow> run_result \<times> loop_state" where
  "run_task env t s =
     (case begin_run env t s of
        (Inl r, s') \<Rightarrow> (r, s')
      | (Inr _, s') \<Rightarrow> run_loop env s')"

subsection \<open>What a start keeps\<close>

lemma keeps_begin_run: "keeps_frame env (begin_run env t)"
  unfolding begin_run_def
  by (intro keeps_rules quiet_rules) (simp add: is_model_request_def)

lemma take_up_ok: "run_task_mode (prepare_task_run t previous) = at_mode t"
  by (simp add: prepare_task_run_def Let_def)

end
