(* ===== verification/Agent_Outcome.thy ===== *)
theory Agent_Outcome
  imports Agent_Run
begin

section \<open>harness-agent: what a run may report\<close>

text \<open>
  The condition on returns: an outcome has been published as the last event of the run, and
  \<open>Done\<close> stands for work without unresolved errors whose final diff was inspected. Every
  action returns only under this condition, so the loop does.
\<close>

subsection \<open>The condition\<close>

definition reviewed :: "loop_env \<Rightarrow> task_run \<Rightarrow> bool" where
  "reviewed env tr \<longleftrightarrow> unresolved_errors tr = [] \<and>
     (env_mode env = CodeMode \<longrightarrow> changed_files tr \<noteq> [] \<longrightarrow> final_diff_inspected tr)"

definition outcome_ok :: "loop_env \<Rightarrow> run_result \<Rightarrow> loop_state \<Rightarrow> bool" where
  "outcome_ok env r s \<longleftrightarrow>
     (case r of
        Inl _ \<Rightarrow> True
      | Inr outcome \<Rightarrow>
          (\<exists>evs. emitted (io s) = evs @ [SessionCompleted (completion_reason (outcome_status outcome))]) \<and>
          (outcome_status outcome = Done \<longrightarrow> reviewed env (task s)))"

lemma outcome_ok_error [simp]: "outcome_ok env (Inl err) s"
  by (simp add: outcome_ok_def)

lemma ends_stop_error [ends_rules]: "ends (outcome_ok env) (stop (Inl err))"
  by (simp add: ends_def ends_at_def stop_def)

lemma ends_or_return [ends_rules]: "ends (outcome_ok env) (or_return r)"
  by (auto simp: or_return_def split: sum.split intro: ends_rules)

lemma ends_emit_event [ends_rules]: "ends (outcome_ok env) (emit_event k p)"
  unfolding emit_event_def by (intro ends_rules)

lemma ends_emit_anyway [ends_rules]: "ends (outcome_ok env) (emit_anyway k p)"
  unfolding emit_anyway_def by (intro ends_rules)

lemma ends_update_task_run [ends_rules]: "ends (outcome_ok env) (update_task_run k)"
  unfolding update_task_run_def by (intro ends_rules)

lemma ends_fail [ends_rules]: "ends (outcome_ok env) (fail k err)"
  unfolding fail_def by (intro ends_rules)

lemma ends_abort [ends_rules]: "ends (outcome_ok env) (abort k err)"
  unfolding abort_def by (intro ends_rules)

lemma ends_abort_as [ends_rules]: "ends (outcome_ok env) (abort_as k status err)"
  unfolding abort_as_def by (intro ends_rules)

lemma ends_keep_limits [ends_rules]: "ends (outcome_ok env) (keep_limits k p)"
  unfolding keep_limits_def by (auto split: prod.split sum.split intro!: ends_rules)

subsection \<open>Finishing\<close>

lemma emit_event_pass:
  "emit_event env p s = (Inr x, s') \<Longrightarrow> s' = s\<lparr>io := (io s)\<lparr>emitted := emitted (io s) @ [p]\<rparr>\<rparr>"
  by (auto simp: emit_event_def and_then_def attempt_def or_return_def emit_def pass_def stop_def
      split: option.splits)

lemma emit_events_pass:
  "emit_events env ps s = (Inr x, s') \<Longrightarrow> s' = s\<lparr>io := (io s)\<lparr>emitted := emitted (io s) @ ps\<rparr>\<rparr>"
proof (induction ps arbitrary: s)
  case (Cons p ps)
  then obtain y t where "emit_event env p s = (Inr y, t)" "emit_events env ps t = (Inr x, s')"
    by (auto simp: and_then_def split: prod.splits sum.splits)
  with Cons.IH emit_event_pass show ?case by fastforce
qed (simp add: pass_def)

lemma emit_event_error: "emit_event env p s = (Inl r, s') \<Longrightarrow> \<exists>err. r = Inl err"
  by (auto simp: emit_event_def and_then_def attempt_def or_return_def emit_def pass_def stop_def
      split: option.splits)

lemma emit_events_error: "emit_events env ps s = (Inl r, s') \<Longrightarrow> \<exists>err. r = Inl err"
proof (induction ps arbitrary: s)
  case (Cons p ps)
  then show ?case
    by (auto simp: and_then_def dest: emit_event_error split: prod.splits sum.splits)
qed (simp add: pass_def)

lemma finish_plan_status [simp]: "completion_status (finish_plan_state tr) = completion_status tr"
  by (simp add: finish_plan_state_def sync_current_milestone_def split: option.split)

lemma finish_task_run_events:
  assumes "finish_task_run hook tr msg = (outcome, evs)"
  shows "\<exists>tr'. evs = [TaskRunUpdated tr', SessionCompleted (completion_reason (outcome_status outcome))]"
    and "outcome_status outcome = completion_status tr \<or> outcome_status outcome = Blocked"
  using assms by (auto simp: finish_task_run_def Let_def split: option.splits)

lemma finish_cases:
  obtains (failed) err s' where "(finish k msg :: 'a action) s = (Inl (Inl err), s')"
  | (ended) outcome c evs where "(finish k msg :: 'a action) s = (Inl (Inr outcome), s\<lparr>io := c\<lparr>emitted :=
        evs @ [SessionCompleted (completion_reason (outcome_status outcome))]\<rparr>\<rparr>)"
      "outcome_status outcome = completion_status (task s) \<or> outcome_status outcome = Blocked"
proof -
  obtain v c where hooks: "run_session_end_hooks k (run_task_mode (task s)) (io s) = (v, c)"
    by (cases "run_session_end_hooks k (run_task_mode (task s)) (io s)")
  define hook where "hook = (case v of Inl err \<Rightarrow> Some (agent_error_text err) | Inr _ \<Rightarrow> None)"
  obtain outcome evs where fin: "finish_task_run hook (task s) msg = (outcome, evs)"
    by (cases "finish_task_run hook (task s) msg")
  define full where "full = agent_outcome.extend outcome
    (run_outcome.fields (turns s) (used_calls s) (model_tokens s) (cost s))"
  have status: "outcome_status full = outcome_status outcome"
    by (simp add: full_def agent_outcome.defs)
  have run: "(finish k msg :: 'a action) s = and_then (emit_events k evs) (\<lambda>_. stop (Inr full)) (s\<lparr>io := c\<rparr>)"
    unfolding finish_def with_state_def attempt_def
    using hooks fin by (simp add: and_then_def [of "\<lambda>s. _ s"] hook_def full_def Let_def)
  obtain w t where steps: "emit_events k evs (s\<lparr>io := c\<rparr>) = (w, t)"
    by (cases "emit_events k evs (s\<lparr>io := c\<rparr>)")
  show thesis
  proof (cases w)
    case (Inl q)
    with emit_events_error [OF steps [unfolded Inl]] steps run show thesis
      using failed by (auto simp: and_then_def)
  next
    case (Inr u)
    from emit_events_pass [OF steps [unfolded Inr]]
    have t: "t = s\<lparr>io := c\<lparr>emitted := emitted c @ evs\<rparr>\<rparr>" by simp
    obtain tr' where evs: "evs = [TaskRunUpdated tr', SessionCompleted (completion_reason (outcome_status outcome))]"
      using finish_task_run_events(1) [OF fin] by blast
    have "(finish k msg :: 'a action) s = (Inl (Inr full), s\<lparr>io := c\<lparr>emitted := (emitted c @ [TaskRunUpdated tr']) @
        [SessionCompleted (completion_reason (outcome_status full))]\<rparr>\<rparr>)"
      using run steps Inr t evs status by (simp add: and_then_def stop_def)
    then show thesis using ended finish_task_run_events(2) [OF fin] status by metis
  qed
qed

lemma ends_finish_at:
  assumes "completion_status (task s) = Done \<Longrightarrow> reviewed env (task s)"
  shows "ends_at (outcome_ok env) (finish k msg :: 'a action) s"
  using assms
  by (cases rule: finish_cases [of k msg s, where ?'a = 'a]) (auto simp: ends_at_def outcome_ok_def)

lemma finish_blocked_stops:
  "\<exists>r s'. (finish_blocked k reason :: 'a action) s = (Inl r, s') \<and> (\<forall>outcome. r = Inr outcome \<longrightarrow> outcome_status outcome = Blocked)"
proof -
  define s1 where "s1 = on_task (\<lambda>tr. tr\<lparr>current_phase := Finish, completion_status := Blocked,
    run_remaining_work := (if unresolved_errors tr = [] then [bounded_summary reason]
      else unresolved_errors tr)\<rparr>) s"
  define msg where "msg = ''Blocked: '' @ bounded_summary reason"
  obtain v t where emit: "emit_event k (AssistantMessage msg) s1 = (v, t)"
    by (cases "emit_event k (AssistantMessage msg) s1")
  have run: "(finish_blocked k reason :: 'a action) s =
      (case v of Inl r \<Rightarrow> (Inl r, t) | Inr _ \<Rightarrow> finish k msg t)"
    unfolding finish_blocked_def and_then_def update_def msg_def [symmetric]
    using emit by (simp add: s1_def [symmetric])
  show ?thesis
  proof (cases v)
    case (Inl r)
    with emit_event_error [OF emit [unfolded Inl]] run show ?thesis by auto
  next
    case (Inr u)
    from emit_event_pass [OF emit [unfolded Inr]] have "completion_status (task t) = Blocked"
      by (simp add: s1_def on_task_def)
    with run Inr show ?thesis by (cases rule: finish_cases [of k msg t, where ?'a = 'a]) auto
  qed
qed

lemma ends_finish_blocked [ends_rules]: "ends (outcome_ok env) (finish_blocked k reason)"
  unfolding finish_blocked_def ends_def
proof (intro allI ends_at_update ends_at_and_then ends_rules)
  fix s t x
  assume "emit_event k (AssistantMessage (''Blocked: '' @ bounded_summary reason))
    (on_task (\<lambda>tr. tr\<lparr>current_phase := Finish, completion_status := Blocked,
      run_remaining_work := (if unresolved_errors tr = [] then [bounded_summary reason]
        else unresolved_errors tr)\<rparr>) s) = (Inr x, t)"
  from emit_event_pass [OF this]
  show "ends_at (outcome_ok env) (finish k (''Blocked: '' @ bounded_summary reason)) t"
    by (intro ends_finish_at) (simp add: on_task_def)
qed

lemma ends_ask_the_user [ends_rules]: "ends (outcome_ok env) (ask_the_user k msg)"
  unfolding ask_the_user_def ends_def
proof (intro allI ends_at_update ends_at_and_then ends_rules)
  fix s t x
  assume "emit_event k (AssistantMessage msg) (on_task (\<lambda>tr. tr\<lparr>current_phase := Finish,
    completion_status := UserInputRequired, run_remaining_work := [msg]\<rparr>) s) = (Inr x, t)"
  from emit_event_pass [OF this] show "ends_at (outcome_ok env) (finish k msg) t"
    by (intro ends_finish_at) (simp add: on_task_def)
qed

lemma ends_complete_task_at:
  assumes "reviewed env (task s)"
  shows "ends_at (outcome_ok env) (complete_task k msg) s"
  unfolding complete_task_def
proof (intro ends_at_update ends_at_and_then ends_rules)
  fix t x
  assume "emit_event k (AssistantMessage msg) (on_task (\<lambda>tr. tr\<lparr>current_phase := Finish,
    completion_status := Done, run_remaining_work := []\<rparr>) s) = (Inr x, t)"
  from emit_event_pass [OF this] assms show "ends_at (outcome_ok env) (finish k msg) t"
    by (intro ends_finish_at) (simp add: on_task_def reviewed_def)
qed

subsection \<open>A final answer\<close>

lemma ends_refuse_completion [ends_rules]: "ends (outcome_ok env) (refuse_completion k)"
  unfolding refuse_completion_def by (intro ends_rules) (auto intro!: ends_rules)

text \<open>After \<open>require_review\<close> a task without unresolved errors is reviewed.\<close>

lemma ensured_not_empty: "error_keys (ensure_error k v s) \<noteq> []"
  by (cases "error_keys s") (auto simp: ensure_error_def put_error_def)

lemma require_review_reviewed:
  assumes "unresolved_errors (task (require_review env s)) = []"
  shows "reviewed env (task (require_review env s))"
proof (cases "env_mode env = CodeMode \<and> changed_files (task s) \<noteq> [] \<and> \<not> final_diff_inspected (task s)")
  case True
  with assms ensured_not_empty show ?thesis
    by (auto simp: require_review_def Let_def sync_errors_def on_task_def split: if_splits)
next
  case False
  with assms show ?thesis by (auto simp: require_review_def reviewed_def)
qed

lemma ends_settle_answer [ends_rules]: "ends (outcome_ok env) (settle_answer env msg)"
  unfolding settle_answer_def ends_def
proof (intro allI ends_at_update)
  fix s
  let ?t = "require_review env s"
  have "ends_at (outcome_ok env) (if unresolved_errors (task ?t) \<noteq> [] then refuse_completion env
      else complete_task env msg) ?t"
    using ends_complete_task_at [OF require_review_reviewed] ends_imp_at [OF ends_refuse_completion]
    by simp
  then show "ends_at (outcome_ok env) (with_state (\<lambda>s. if unresolved_errors (task s) \<noteq> []
      then refuse_completion env else complete_task env msg)) ?t"
    by (simp add: ends_at_def with_state_def)
qed

subsection \<open>The other actions\<close>

lemma ends_admit_steps [ends_rules]: "ends (outcome_ok env) (admit_steps k sts)"
proof (induction sts)
  case (Cons st sts)
  have "ends (outcome_ok env) (evaluate_approved k q)" for q
    by (simp add: ends_def ends_at_def evaluate_approved_def split: prod.split)
  then have "ends (outcome_ok env) (admit_step k st)"
    unfolding admit_step_def Let_def
    by (intro ends_rules) (auto split: policy_decision.split intro!: ends_rules)
  with Cons show ?case by (auto intro!: ends_rules)
qed (auto intro!: ends_rules)

lemma ends_record_reports [ends_rules]: "ends (outcome_ok env) (record_reports k changed reps)"
proof (induction reps)
  case (Cons rep reps)
  have "ends (outcome_ok env) (record_report k changed rep)"
    unfolding record_report_def settle_report_def Let_def by (auto intro!: ends_rules)
  with Cons show ?case by (auto intro!: ends_rules)
qed (auto intro!: ends_rules)

lemma ends_run_checks [ends_rules]: "ends (outcome_ok env) (run_checks k v plan changed)"
  unfolding run_checks_def record_runner_failure_def Let_def
  by (intro ends_rules) (auto split: sum.split intro!: ends_rules)

lemma ends_verification [ends_rules]: "ends (outcome_ok env) (run_verification_if_needed k plan changed)"
  unfolding run_verification_if_needed_def Let_def by (auto split: option.split intro!: ends_rules)

lemma ends_or_fail [ends_rules]: "ends (outcome_ok env) (or_fail k r)"
  by (auto simp: or_fail_def split: sum.split intro!: ends_rules)

lemma ends_assemble_context [ends_rules]: "ends (outcome_ok env) (assemble_context k)"
  unfolding assemble_context_def build_context_def compact_context_def hook_step_def
  by (intro ends_rules) (auto split: sum.split intro!: ends_rules)

lemma ends_ask_model [ends_rules]: "ends (outcome_ok env) (ask_model k a)"
  unfolding ask_model_def provider_failed_def Let_def
  by (intro ends_rules) (auto split: sum.split intro!: ends_rules)

lemma ends_request_model_turn [ends_rules]: "ends (outcome_ok env) (request_model_turn k)"
  unfolding request_model_turn_def hook_step_def by (intro ends_rules)

lemma ends_receive_answer [ends_rules]: "ends (outcome_ok env) (receive_answer k r)"
  unfolding receive_answer_def plan_from_answer_def Let_def
  by (intro ends_rules) (auto split: option.split prod.split bool.split intro!: ends_rules)

lemma ends_final_answer [ends_rules]: "ends (outcome_ok env) (final_answer env txt)"
  unfolding final_answer_def inspect_final_diff_def Let_def
  by (auto split: prod.split intro!: ends_rules)

lemma ends_perform_call [ends_rules]: "ends (outcome_ok env) (perform_call k c)"
  unfolding perform_call_def stop_failed_call_def
  by (auto split: option.split sum.split intro!: ends_rules)

lemma ends_record_changes [ends_rules]: "ends (outcome_ok env) (record_changes k ps)"
  by (induction ps) (auto split: option.split intro!: ends_rules)

lemma ends_before_call [ends_rules]:
  "ends (outcome_ok env) (guard_call k)" "ends (outcome_ok env) (count_repeats k c)"
  unfolding guard_call_def count_repeats_def stop_repeated_call_def Let_def
  by (auto intro!: ends_rules)

lemma ends_absorb_result [ends_rules]: "ends (outcome_ok env) (absorb_result k c r)"
  unfolding absorb_result_def settle_result_def note_diagnostic_def note_edit_diff_def verify_call_def Let_def
  by (intro ends_rules) (auto split: option.split intro!: ends_rules)

lemma ends_tool_steps [ends_rules]: "ends (outcome_ok env) (tool_steps k cs)"
  by (induction cs) (auto simp: tool_step_def intro!: ends_rules)

lemma ends_turn: "ends (outcome_ok env) (turn env)"
  unfolding turn_def start_turn_def act_on_def by (intro ends_rules) (auto intro!: ends_rules)

lemma run_loop_outcome:
  "run_loop env s = (r, s') \<Longrightarrow> outcome_ok env r s'"
proof (induction env s rule: run_loop.induct)
  case (1 env s)
  obtain v t where step: "turn env s = (v, t)" by (cases "turn env s")
  show ?case
  proof (cases v)
    case (Inl e)
    with step "1.prems" endsD [OF ends_turn] show ?thesis by (simp add: run_loop.simps)
  next
    case (Inr x)
    with step "1.prems" "1.IH" [OF step [symmetric] Inr] show ?thesis by (simp add: run_loop.simps)
  qed
qed

end
