(* ===== verification/Agent_Samples.thy ===== *)
theory Agent_Samples
  imports Agent_Start Agent_Outcome
begin

section \<open>harness-agent: a concrete run\<close>

text \<open>
  A world in which a run can be evaluated: a model that answers every request with \<open>done\<close>, no
  tools, no verifier, no repository. The witnesses of the run's properties are taken here.
\<close>

definition demo_host :: call_host where
  "demo_host =
     \<lparr>run_tool = (\<lambda>ap r. (Inr (tool_result_new ''ok''), ap)), policy_requests = (\<lambda>r. Inr []),
      ask_user = (\<lambda>r risks why. Inr False), flush_first = Inr (), flush_second = Inr (),
      preflight = (\<lambda>ap r. (Inr (evaluation Allow ''sample'' ''allowed''), ap)),
      base_evaluate = (\<lambda>q. evaluation Allow ''sample'' ''allowed'')\<rparr>"

definition demo_calls :: "task_mode \<Rightarrow> call_context" where
  "demo_calls mode =
     \<lparr>call_hosts_of = (\<lambda>_. demo_host), persist_error = (\<lambda>_. None), approval_key = (\<lambda>_. []),
      ctx_mode = mode, ctx_root = ''/w'', ctx_hooks = hook_config_default\<rparr>"

definition demo_answer :: model_response where
  "demo_answer =
     \<lparr>response_model = ''m'', response_content = [Text ''done''], response_calls = [],
      response_usage = None\<rparr>"

definition demo_limits :: agent_limits where
  "demo_limits =
     \<lparr>max_turns = 0, max_tool_calls = 1, max_runtime = 0, max_model_tokens = 0,
      max_estimated_cost_microusd = None, max_repeated_tool_calls = 1, max_repeated_failures = 1\<rparr>"

definition demo_env :: "task_mode \<Rightarrow> nat \<Rightarrow> loop_env" where
  "demo_env mode n =
     \<lparr>env_limits = demo_limits\<lparr>max_turns := n\<rparr>, env_calls = demo_calls mode,
      operation_for = (\<lambda>t. if t = ''read_file'' then Some Read else None), tool_specs = [],
      context_builder = context_budget_manager_new context_budget_default,
      provider_name = ''p'', model_name = ''m'', env_pricing = None, context_window = None,
      argument_text = (\<lambda>_. Some []), argument_length = (\<lambda>_. 0), json_of_string = (\<lambda>s. s),
      env_compaction = \<lparr>threshold_tokens = 0, keep_recent_messages = 4\<rparr>,
      compaction_strategy = (\<lambda>q. Inr (derive_compaction q)), base_instructions = ''s'',
      env_attachments = [], attachment_reserve = 0, git_available = False,
      git_at = (\<lambda>_. \<lparr>git_canonical = (\<lambda>p. None), git_open = (\<lambda>p. None),
        git_file_change = (\<lambda>r p. None)\<rparr>),
      env_plan = None, env_verifier = None,
      planner_at = (\<lambda>_. \<lparr>vh_disk = (\<lambda>cs. None), vh_json = (\<lambda>s. None), vh_toml = (\<lambda>s. None)\<rparr>),
      verification_mode = Safe, ask_verification = (\<lambda>t r risks why. Inr False),
      cancelled_at = (\<lambda>ob t. False), elapsed_at = (\<lambda>ob t. 0),
      respond = (\<lambda>t q. Inr demo_answer), record_change = (\<lambda>t p. None),
      session_end = (\<lambda>t. Inr (demo_calls mode)), stored_mode = (\<lambda>t. mode)\<rparr>"

definition demo_task :: "task_mode \<Rightarrow> agent_task" where
  "demo_task mode =
     \<lparr>at_root = ''/w'', at_user_task = ''x'', at_mode = mode, at_criteria = [],
      at_system_instructions = [],
      at_workspace = \<lparr>wm_root = None, wm_branch = None, monorepo = False, languages = [],
        manifests = [], details = []\<rparr>,
      at_instructions = [], at_conversation = [], at_files = [], at_tool_results = [],
      at_git_status = None, at_resume = False\<rparr>"

definition demo_session :: session_state where
  "demo_session =
     \<lparr>st_session_id = ''s'', st_status = Active, st_messages = [], st_tool_events = 0,
      st_files_changed = 0, st_checkpoints_created = 0, st_verification_results = 0,
      st_context_compactions = 0, st_continuation = None, st_working_messages = [],
      st_task_run = None, st_last_event_id = None\<rparr>"

definition demo_state :: "task_mode \<Rightarrow> nat \<Rightarrow> loop_state" where
  "demo_state mode n = start_state (demo_env mode n) (demo_task mode) demo_session []
     (at_workspace (demo_task mode))"

definition demo_run :: "task_mode \<Rightarrow> nat \<Rightarrow> run_result \<times> loop_state" where
  "demo_run mode n = run_loop (demo_env mode n) (demo_state mode n)"

end
