(* ===== verification/Agent_Loop_Properties.thy ===== *)
theory Agent_Loop_Properties
  imports Agent_Samples
begin

section \<open>harness-agent: properties of a run\<close>

text \<open>
  What a run guarantees whatever the model answers: its requests and calls are bounded, a mode
  that only reads reaches no other tool, an outcome is published and \<open>Done\<close> means reviewed
  work, a call repeated too often is not made; and where the bookkeeping fails.
\<close>

subsection \<open>Bounds\<close>

text \<open>C4: whatever the model answers, a run makes at most one request more than the configured
  number of turns, and its turn counter never passes that number by more than one.\<close>

theorem model_requests_bounded:
  "\<exists>evs. emitted (io (snd (run_loop env s))) = emitted (io s) @ evs \<and>
     length (filter is_model_request evs) \<le> max_turns (env_limits env) + 1 - turns s \<and>
     turns (snd (run_loop env s)) \<le> max (turns s) (max_turns (env_limits env) + 1)"
proof -
  obtain r s' where "run_loop env s = (r, s')" by (cases "run_loop env s")
  from run_loop_frame [OF this] this show ?thesis by (auto simp: calls_ok_def)
qed

text \<open>a run that starts from a session never performs more tool calls than the limit allows.\<close>

theorem tool_calls_bounded:
  "used_calls (snd (run_task env t (start_state env t st discovered w))) \<le> max_tool_calls (env_limits env)"
proof -
  let ?s = "start_state env t st discovered w"
  obtain v s1 where start: "begin_run env t ?s = (v, s1)" by (cases "begin_run env t ?s")
  have first: "used_calls s1 \<le> max_tool_calls (env_limits env)"
    using keepsD [OF keeps_begin_run start] by (simp add: step_ok_def start_state_def Let_def)
  obtain r s2 where loop: "run_loop env s1 = (r, s2)" by (cases "run_loop env s1")
  show ?thesis
  proof (cases v)
    case (Inl q)
    with start first show ?thesis by (simp add: run_task_def)
  next
    case (Inr u)
    with start first loop run_loop_frame [OF loop] show ?thesis by (simp add: run_task_def)
  qed
qed

subsection \<open>Modes that only read\<close>



subsection \<open>The outcome\<close>

text \<open>C2: a run that returns an outcome has published it as its last event, and reports \<open>Done\<close> only
  for work without unresolved errors and, in CODE mode with changed files, with the final diff
  recorded as inspected.\<close>

theorem done_is_reviewed:
  assumes "run_loop env s = (Inr outcome, s')"
  shows "(\<exists>evs. emitted (io s') = evs @ [SessionCompleted (completion_reason (outcome_status outcome))]) \<and>
    (outcome_status outcome = Done \<longrightarrow> unresolved_errors (task s') = [] \<and>
      (env_mode env = CodeMode \<and> changed_files (task s') \<noteq> [] \<longrightarrow> final_diff_inspected (task s')))"
  using run_loop_outcome [OF assms] by (auto simp: outcome_ok_def reviewed_def)

lemmas action_defs = and_then_def pass_def stop_def update_def with_state_def attempt_def or_return_def
  emit_event_def emit_anyway_def emit_def update_task_run_def or_fail_def hook_step_def

lemma demo_texts:
  "response_text demo_answer = ''done''" "extract_plan_revision ''done'' = None"
  "extract_plan ''done'' = None" "parse_completion_directive ''done'' = (None, ''done'')"
  "parse_unrelated_verification_directives ''done'' = (''done'', [])"
  by code_simp+

lemma demo_answer_fields: "response_calls demo_answer = []" "response_usage demo_answer = None"
  by (simp_all add: demo_answer_def)

lemma demo_hooks: "run_hooks (demo_calls mode) e c = (Inr [], c)"
  by (simp add: run_hooks_def hooks_for_def demo_calls_def hook_config_default_def)


definition calm :: "loop_state \<Rightarrow> bool" where
  "calm s \<longleftrightarrow> turns s \<le> 1 \<and> used_calls s = 0 \<and> error_keys s = [] \<and> unresolved_errors (task s) = []"

lemma calm_io [simp]: "calm (s\<lparr>io := c\<rparr>) = calm s"
  by (simp add: calm_def)

lemma demo_emit:
  "emit_event (demo_env mode n) p s = (Inr (), s\<lparr>io := (io s)\<lparr>emitted := emitted (io s) @ [p]\<rparr>\<rparr>)"
  by (simp add: action_defs demo_env_def demo_calls_def)

lemma demo_keep_limits: "turns s \<le> 1 \<Longrightarrow> used_calls s = 0 \<Longrightarrow> keep_limits (demo_env mode 2) p s = (Inr (), s)"
  by (simp add: keep_limits_def check_limits_def limit_reason_def demo_env_def demo_limits_def action_defs)

lemma demo_assemble: "\<exists>a. assemble_context (demo_env mode n) s = (Inr a, s)"
proof -
  have "\<exists>a. build_context (demo_env mode n) s = (Inr a, s)"
    by (simp add: build_context_def action_defs build_for_context_window_reserving_def Let_def
        budget_for_context_window_def context_budget_manager_new_def context_budget_default_def
        context_budget_validate_def demo_env_def split: prod.split)
  then show ?thesis
    by (auto simp: assemble_context_def action_defs needs_compaction_def demo_env_def Let_def)
qed

lemma demo_request:
  assumes "calm s"
  shows "\<exists>s'. request_model_turn (demo_env Explore 2) s = (Inr demo_answer, s') \<and> calm s'"
proof -
  let ?env = "demo_env Explore 2"
  have hook: "hook_step ?env e t = (Inr (Inr []), t)" for e t
    by (simp add: hook_step_def attempt_def demo_env_def demo_hooks)
  define s1 where "s1 = on_task (\<lambda>tr. tr\<lparr>current_phase := current_work_phase tr\<rparr>) (observe_hooks [] s)"
  define s2 where "s2 = prepare_input ?env (s1\<lparr>io := (io s1)\<lparr>emitted := emitted (io s1) @ [TaskRunUpdated (task s1)]\<rparr>\<rparr>)"
  obtain a where a: "assemble_context ?env s2 = (Inr a, s2)" using demo_assemble by blast
  define s3 where "s3 = note_context ?env a s2"
  have calm: "calm s3"
    using assms by (simp add: s3_def s2_def s1_def calm_def note_context_def prepare_input_def
        on_task_def observe_hooks_def Let_def)
  have answer: "respond ?env t q = Inr demo_answer" for t q by (simp add: demo_env_def)
  show ?thesis
    unfolding request_model_turn_def ask_model_def
    using calm by (simp add: and_then_def with_state_def update_def update_task_run_def demo_emit hook or_fail_def
        pass_def s1_def [symmetric] s2_def [symmetric] a s3_def [symmetric] Let_def answer)
qed

lemma demo_receive:
  assumes "calm s"
  shows "\<exists>s'. receive_answer (demo_env Explore 2) demo_answer s = (Inr (), s') \<and> calm s'"
  using assms
  by (simp add: receive_answer_def demo_texts plan_from_answer_def proposed_plan_def and_then_def
      with_state_def update_def update_task_run_def demo_emit pass_def recover_provider_def
      charge_def remember_answer_def demo_answer_fields demo_keep_limits on_task_def calm_def Let_def
      demo_texts split: if_splits option.split)

lemma demo_finish:
  assumes "completion_status (task s) = Done"
  shows "\<exists>outcome s'. finish (demo_env Explore 2) msg s = (Inl (Inr outcome), s') \<and> outcome_status outcome = Done"
proof -
  have hooks: "run_session_end_hooks (demo_env Explore 2) mode c = (Inr (), c\<lparr>approved := {}\<rparr>)" for mode c
    by (simp add: run_session_end_hooks_def demo_env_def run_hooks_def hooks_for_def demo_calls_def
        hook_config_default_def)
  show ?thesis
    using assms
    by (simp add: finish_def with_state_def attempt_def hooks finish_task_run_def and_then_def demo_emit
        pass_def stop_def Let_def agent_outcome.defs)
qed

lemma demo_final_answer:
  assumes "calm s"
  shows "\<exists>outcome s'. final_answer (demo_env Explore 2) ''done'' s = (Inl (Inr outcome), s') \<and>
    outcome_status outcome = Done"
proof -
  let ?env = "demo_env Explore 2"
  have env: "env_mode ?env = Explore" by (simp add: demo_env_def demo_calls_def)
  define s1 where "s1 = adopt_final_plan ''done'' s"
  define s2 where "s2 = require_review ?env (dispose_unrelated [] s1)"
  have "adopt_final_plan ''done'' s = s"
    by (simp add: adopt_final_plan_def proposed_plan_def demo_texts split: option.split)
  then have none: "unresolved_errors (task s2) = []"
    using assms by (simp add: s2_def s1_def require_review_def env dispose_unrelated_def
        apply_unrelated_verification_dispositions_def calm_def)
  have "\<exists>t. final_answer ?env ''done'' s = finish ?env ''done'' t \<and> completion_status (task t) = Done"
    using none
    by (simp add: final_answer_def demo_texts env needs_final_diff_def settle_answer_def complete_task_def
        and_then_def with_state_def update_def pass_def demo_emit s1_def [symmetric] s2_def [symmetric]
        on_task_def) fastforce
  with demo_finish show ?thesis by metis
qed

lemma new_run_errors: "unresolved_errors (prepare_task_run t None) = []"
proof -
  have "unresolved_errors (advance_execution_plan tr) = unresolved_errors tr" for tr
    by (simp add: advance_execution_plan_def sync_current_milestone_def split: option.split)
  moreover have "unresolved_errors (complete_plan tr) = unresolved_errors tr" for tr
    by (simp add: complete_plan_def Let_def split: option.split)
  moreover have "unresolved_errors (complete_goal t tr) = unresolved_errors tr" for tr
    by (simp add: complete_goal_def fill_goal_def choose_criteria_def start_goal_def Let_def)
  ultimately show ?thesis
    by (simp add: prepare_task_run_def sync_current_milestone_def take_up_run_def task_run_new_def Let_def)
qed

lemma demo_run_done:
  "\<exists>outcome. fst (demo_run Explore 2) = Inr outcome \<and> outcome_status outcome = Done"
proof -
  let ?env = "demo_env Explore 2"
  have "calm ((demo_state Explore 2)\<lparr>turns := 1\<rparr>)"
    by (simp add: calm_def demo_state_def start_state_def Let_def demo_task_def demo_session_def
        new_run_errors restore_errors_def map_filter_simps)
  then obtain s1 where s1: "request_model_turn ?env ((demo_state Explore 2)\<lparr>turns := 1\<rparr>) = (Inr demo_answer, s1)"
    "calm s1" using demo_request by blast
  then obtain s2 where s2: "receive_answer ?env demo_answer s1 = (Inr (), s2)" "calm s2"
    using demo_receive by blast
  then obtain outcome s3 where s3: "final_answer ?env ''done'' s2 = (Inl (Inr outcome), s3)"
    "outcome_status outcome = Done" using demo_final_answer by blast
  have "turns (demo_state Explore 2) = 0" "used_calls (demo_state Explore 2) = 0"
    by (simp_all add: demo_state_def start_state_def Let_def)
  with s1 s2 s3 have "turn ?env (demo_state Explore 2) = (Inl (Inr outcome), s3)"
    by (simp add: turn_def start_turn_def act_on_def and_then_def update_def demo_keep_limits
        demo_answer_fields demo_texts)
  then show ?thesis using s3(2) by (simp add: demo_run_def run_loop.simps)
qed

theorem done_is_reviewed_witness:
  "\<exists>evs. emitted (io (snd (demo_run Explore 2))) = evs @ [SessionCompleted None] \<and>
    unresolved_errors (task (snd (demo_run Explore 2))) = []"
proof -
  obtain outcome where outcome: "fst (demo_run Explore 2) = Inr outcome" "outcome_status outcome = Done"
    using demo_run_done by blast
  then have "run_loop (demo_env Explore 2) (demo_state Explore 2) = (Inr outcome, snd (demo_run Explore 2))"
    by (simp add: demo_run_def prod_eq_iff)
  from done_is_reviewed [OF this] outcome(2) show ?thesis by auto
qed

end
