(* ===== verification/Agent_Call_Properties.thy ===== *)
theory Agent_Call_Properties
  imports Agent_Samples
begin

section \<open>harness-agent: properties of calls and checks\<close>

text \<open>
  What a single step of the loop does in the situations that decide how a run goes on: a call
  that is repeated too often, a check the task mode refuses, a check the policy denies, and the
  final diff after many results. \<open>results_kept\<close> is a second instance of \<open>action_relation\<close>.
\<close>

subsection \<open>Repeated calls\<close>

lemma abort_stops: "\<exists>err s'. (abort env err0 :: 'a action) s = (Inl (Inl err), s')"
  by (simp add: abort_def fail_def and_then_def with_state_def emit_anyway_def attempt_def pass_def
      stop_def split: prod.split)

lemma abort_as_stops: "\<exists>err s'. (abort_as env status err0 :: 'a action) s = (Inl (Inl err), s')"
  using abort_stops by (simp add: abort_as_def and_then_def update_def)

lemma guard_call_eq:
  "guard_call env s =
     (if cancelled_at env BeforeCall (now s) then abort_as env Cancelled AgentCancelled s
      else if max_tool_calls (env_limits env) \<le> used_calls s
      then abort_as env ResourceLimitReached (LimitExceeded ''max_tool_calls'') s
      else (Inr (), s\<lparr>used_calls := used_calls s + 1\<rparr>))"
  by (simp add: guard_call_def with_state_def update_def)

text \<open>an identical call beyond the configured number of attempts is not made: the step does not
  go on, and if it returns an outcome, the task is blocked.\<close>

theorem repeated_call_is_stopped:
  assumes "repeated_call_limit env \<le> call_counts s (call_signature env c)"
    and "repeated_call_limit env < u32_max"
  shows "\<exists>r s'. tool_step env c s = (Inl r, s') \<and>
    (\<forall>outcome. r = Inr outcome \<longrightarrow> outcome_status outcome = Blocked)"
proof (cases "cancelled_at env BeforeCall (now s) \<or> max_tool_calls (env_limits env) \<le> used_calls s")
  case True
  then obtain status err0 where "guard_call env s = abort_as env status err0 s"
    by (metis guard_call_eq)
  with abort_as_stops [of env status err0 s] obtain err s' where "guard_call env s = (Inl (Inl err), s')"
    by metis
  then show ?thesis by (simp add: tool_step_def and_then_def)
next
  case False
  define s1 where "s1 = count_call (call_signature env c) (s\<lparr>used_calls := used_calls s + 1\<rparr>)"
  have guard: "guard_call env s = (Inr (), s\<lparr>used_calls := used_calls s + 1\<rparr>)"
    using False by (simp add: guard_call_eq)
  have over: "repeated_call_limit env < call_counts s1 (call_signature env c)"
    using assms by (simp add: s1_def count_call_def sat_add32_def min_def)
  obtain msg s2 where "stop_repeated_call env c s1 = (finish_blocked env msg :: unit action) s2"
    by (simp add: stop_repeated_call_def with_state_def and_then_def update_def Let_def)
  with finish_blocked_stops [of env msg s2, where ?'a = unit] obtain r s' where
    stop: "(stop_repeated_call env c :: unit action) s1 = (Inl r, s')"
      "\<forall>outcome. r = Inr outcome \<longrightarrow> outcome_status outcome = Blocked" by metis
  have "count_repeats env c (s\<lparr>used_calls := used_calls s + 1\<rparr>) = (Inl r, s')"
    using over stop(1)
    by (simp add: count_repeats_def and_then_def update_def with_state_def s1_def)
  with guard stop(2) show ?thesis by (simp add: tool_step_def and_then_def)
qed

definition demo_call :: tool_call where
  "demo_call = \<lparr>call_id = ''1'', call_name = ''read_file'', arguments = JNull\<rparr>"

theorem repeated_call_is_stopped_witness:
  "\<exists>r s'. tool_step (demo_env Explore 2) demo_call
      ((demo_state Explore 2)\<lparr>call_counts := (\<lambda>_. 1)\<rparr>) = (Inl r, s')"
proof -
  have limit: "repeated_call_limit (demo_env Explore 2) = 1"
    by (simp add: repeated_call_limit_def demo_env_def demo_limits_def)
  then have "repeated_call_limit (demo_env Explore 2) < u32_max" by (simp add: u32_max_def)
  from repeated_call_is_stopped [OF _ this, of "(demo_state Explore 2)\<lparr>call_counts := (\<lambda>_. 1)\<rparr>" demo_call]
  show ?thesis using limit by auto
qed

subsection \<open>Refused checks\<close>

text \<open>a test command that the task mode refuses counts as a failed verification: although
  nothing ran, an unresolved error is entered under the command and completion is not
  validated.\<close>

theorem refused_check_counts_as_failure:
  assumes "mode_denial env c = Some reason" "validation_of c = Some cmd"
  shows "let s' = note_validation cmd (bound_result c (denied_result reason)) s
    in map_of (error_keys s') (''verification:'' @ cmd) \<noteq> None \<and> \<not> validated s' \<and>
       fst (settle_result env c (bound_result c (denied_result reason)) s) = Inr ()"
proof -
  have "tr_is_error (bound_result c (denied_result reason))"
    by (simp add: bound_result_def denied_result_def split: prod.split)
  then show ?thesis
    using assms
    by (simp add: note_validation_def put_error_def on_task_def settle_result_def pass_def Let_def
        update_conv')
qed

definition demo_test_call :: tool_call where
  "demo_test_call = \<lparr>call_id = ''1'', call_name = ''shell'',
     arguments = JObject [(''command'', JString ''cargo test'')]\<rparr>"

theorem refused_check_counts_as_failure_witness:
  "\<exists>reason. mode_denial (demo_env PlanMode 1) demo_test_call = Some reason \<and>
     map_of (error_keys (note_validation ''cargo test''
       (bound_result demo_test_call (denied_result reason)) (demo_state PlanMode 1)))
       ''verification:cargo test'' \<noteq> None"
proof -
  have check: "validation_of demo_test_call = Some ''cargo test''" by code_simp
  obtain reason where denied: "mode_denial (demo_env PlanMode 1) demo_test_call = Some reason"
    by (simp add: mode_denial_def demo_env_def demo_calls_def demo_test_call_def
        task_mode_allows_tool_def)
  from refused_check_counts_as_failure [OF denied check, of "demo_state PlanMode 1"] denied
  show ?thesis by (auto simp: Let_def)
qed

subsection \<open>Denied checks\<close>

text \<open>when the policy denies a check, the run returns an error after publishing the decision;
  no event of a failed or completed session follows.\<close>

theorem denied_check_ends_silently:
  assumes "decision (base_evaluate (call_host_at (env_calls env) (io s))
      (verification_policy_request env st)) = Deny"
  shows "\<exists>err s' p. run_checks env v (st # sts) changed s = (Inl (Inl err), s') \<and>
    emitted (io s') = emitted (io s) @ [p] \<and> event_type_of p = T_PolicyDecision"
  using assms
  by (simp add: run_checks_def admit_step_def evaluate_approved_def approved_evaluate_def and_then_def
      emit_event_def attempt_def emit_def or_return_def stop_def pass_def policy_event_def Let_def
      split: option.split)

definition demo_diff_step :: verification_step where
  "demo_diff_step = \<lparr>step_category = GitDiff, step_command = command_spec_new ''git'' [''diff''],
     step_source = ''sample''\<rparr>"

definition denying_env :: loop_env where
  "denying_env = (demo_env CodeMode 1)\<lparr>env_calls := (demo_calls CodeMode)\<lparr>call_hosts_of :=
     (\<lambda>_. demo_host\<lparr>base_evaluate := (\<lambda>q. evaluation Deny ''sample'' ''denied'')\<rparr>)\<rparr>\<rparr>"

theorem denied_check_ends_silently_witness:
  "\<exists>err s' p. run_checks denying_env (\<lambda>t q. Inr []) [demo_diff_step] [''a''] (demo_state CodeMode 1) =
      (Inl (Inl err), s') \<and> emitted (io s') = emitted (io (demo_state CodeMode 1)) @ [p] \<and>
      event_type_of p = T_PolicyDecision"
  by (rule denied_check_ends_silently)
    (simp add: denying_env_def demo_env_def call_host_at_def demo_host_def evaluation_def)

subsection \<open>The final diff after many results\<close>

definition results_kept :: "loop_state \<Rightarrow> loop_state \<Rightarrow> bool" where
  "results_kept s s' \<longleftrightarrow>
     length (run_verification_results (task s')) \<le> max 200 (length (run_verification_results (task s)))"

interpretation results: action_relation "\<lambda>_. results_kept"
  by unfold_locales (auto simp: results_kept_def)

lemma results_update:
  "(\<And>s. results_kept s (f s)) \<Longrightarrow> keeps results_kept (update f)"
  by (simp add: keeps_def update_def)

lemma results_attempt: "keeps results_kept (attempt f)"
  by (simp add: keeps_def attempt_def results_kept_def split: prod.split)

lemma results_emit: "keeps results_kept (emit_event env p)"
  unfolding emit_event_def by (intro results.structural results_attempt)

lemmas results_defs = results_kept_def on_task_def note_result_def push_bounded_def note_report_def
  note_command_def push_observation_def pass_report_def fail_report_def drop_error_def put_error_def
  count_failure_def sync_errors_def Let_def

lemma results_admit_steps: "keeps results_kept (admit_steps env sts)"
proof (induction sts)
  case (Cons st sts)
  have "keeps results_kept (evaluate_approved env q)" for q
    by (simp add: keeps_def evaluate_approved_def results_kept_def split: prod.split)
  then have "keeps results_kept (admit_step env st)"
    unfolding admit_step_def Let_def
    by (intro results.structural results_emit) (auto split: policy_decision.split intro!: results.structural)
  with Cons show ?case by (auto intro!: results.structural)
qed (auto intro!: results.structural)

lemma results_report: "keeps results_kept (record_report env changed rep)"
  unfolding record_report_def settle_report_def Let_def
  by (auto intro!: results.structural results_emit results_update simp: results_defs)

lemma results_reports: "keeps results_kept (record_reports env changed reps)"
  by (induction reps) (auto intro!: results.structural results_report)

lemma results_runner: "keeps results_kept (record_runner_failure env msg)"
  unfolding record_runner_failure_def Let_def
  by (auto intro!: results.structural results_emit results_update simp: results_defs)

lemma results_verification: "keeps results_kept (run_verification_if_needed env plan changed)"
  unfolding run_verification_if_needed_def run_checks_def Let_def
  by (auto split: option.split sum.split simp: results_defs
      intro!: results.structural results_admit_steps results_emit results_reports results_runner
        results_update)

text \<open>once 200 verification results are kept, a final diff that passes is not recognised any
  more: the list is cut to its last 200 entries, so it shows no new entry.\<close>

theorem final_diff_lost_after_200_results:
  assumes "200 \<le> length (run_verification_results (task s))"
    and "inspect_final_diff env s = (Inr seen, s')"
  shows "\<not> seen \<and> \<not> final_diff_inspected (task s')"
proof -
  obtain v t where check: "run_verification_if_needed env (Some final_diff_plan) (changed_files (task s)) s = (v, t)"
    by (cases "run_verification_if_needed env (Some final_diff_plan) (changed_files (task s)) s")
  have "results_kept s t" by (rule keepsD [OF results_verification check])
  then have "drop (length (run_verification_results (task s))) (run_verification_results (task t)) = []"
    using assms(1) by (simp add: results_kept_def)
  moreover obtain u where "v = Inr u"
    using assms(2) check by (cases v) (auto simp: inspect_final_diff_def with_state_def and_then_def Let_def)
  ultimately show ?thesis
    using assms(2) check emit_event_pass
    by (auto simp: inspect_final_diff_def with_state_def and_then_def update_def on_task_def Let_def
        update_task_run_def pass_def split: prod.splits sum.splits dest!: emit_event_pass)
qed

theorem final_diff_lost_after_200_results_witness:
  "\<exists>s'. inspect_final_diff (demo_env CodeMode 2) ((demo_state CodeMode 2)\<lparr>task :=
      (task (demo_state CodeMode 2))\<lparr>run_verification_results :=
        replicate 200 (runner_result ''e''), changed_files := [''a'']\<rparr>\<rparr>) = (Inr False, s')"
proof -
  let ?s = "(demo_state CodeMode 2)\<lparr>task := (task (demo_state CodeMode 2))\<lparr>run_verification_results :=
    replicate 200 (runner_result ''e''), changed_files := [''a'']\<rparr>\<rparr>"
  have "\<exists>seen s'. inspect_final_diff (demo_env CodeMode 2) ?s = (Inr seen, s')"
    by (simp add: inspect_final_diff_def run_verification_if_needed_def with_state_def and_then_def
        update_def pass_def update_task_run_def emit_event_def attempt_def emit_def or_return_def
        demo_env_def demo_calls_def Let_def)
  then obtain seen s' where run: "inspect_final_diff (demo_env CodeMode 2) ?s = (Inr seen, s')" by blast
  have "200 \<le> length (run_verification_results (task ?s))" by simp
  from final_diff_lost_after_200_results [OF this run] run show ?thesis by auto
qed

subsection \<open>Errors of a resumed run\<close>

text \<open>An error loses its key when a run is resumed: the entry is kept under the key, but what the
  task run lists is the message alone, which the next resume can no longer read.\<close>

lemma resumed_error_is_forgotten:
  "restore_errors [''tool:shell :: exit 1''] = [(''tool:shell'', ''exit 1'')]"
  "map snd (restore_errors [''tool:shell :: exit 1'']) = [''exit 1'']"
  "restore_errors [''exit 1''] = []"
  by code_simp+

section \<open>harness-agent: properties of hooks\<close>

text \<open>
  A hook is bound to the mode and to the permission of the call it surrounds; and where the
  protection of paths can be passed by.
\<close>

text \<open>Outside CODE mode no hook runs a command: every hook of the event is noted as skipped, in
  order, and no tool call is made.\<close>

theorem hooks_need_code_mode:
  assumes "ctx_mode c \<noteq> CodeMode"
  shows "run_hooks c e st = (Inr (map (\<lambda>_. debug_hook_event e @ '' hook skipped in '' @
    debug_task_mode (ctx_mode c) @ '' task mode (hook commands require CODE mode)'')
    (hooks_for (ctx_hooks c) e)), st)"
proof -
  have "run_hook_list c e ns hs st = (Inr (ns @ map (\<lambda>_. debug_hook_event e @ '' hook skipped in '' @
      debug_task_mode (ctx_mode c) @ '' task mode (hook commands require CODE mode)'') hs), st)" for ns hs
    using assms by (induction hs arbitrary: ns) auto
  then show ?thesis by (simp add: run_hooks_def)
qed

definition demo_hook :: hook_definition where
  "demo_hook = \<lparr>hook_event_of = HookAfterEdit, hook_command = ''fmt'', hook_timeout_ms = 10,
     on_error = BlockOnError\<rparr>"

definition hooked_calls :: "task_mode \<Rightarrow> call_context" where
  "hooked_calls mode = (demo_calls mode)\<lparr>ctx_hooks :=
     \<lparr>config_hooks = [demo_hook], protected_matcher = Some (\<lambda>s. s = ''src/api.rs'')\<rparr>\<rparr>"

theorem hooks_need_code_mode_witness:
  "\<exists>skipped. run_hooks (hooked_calls Explore) HookAfterEdit \<lparr>requested = [], approved = {}, emitted = []\<rparr> =
     (Inr [skipped], \<lparr>requested = [], approved = {}, emitted = []\<rparr>)"
proof -
  have "ctx_mode (hooked_calls Explore) \<noteq> CodeMode" by (simp add: hooked_calls_def demo_calls_def)
  from hooks_need_code_mode [OF this, of HookAfterEdit "\<lparr>requested = [], approved = {}, emitted = []\<rparr>"] show ?thesis
    by (simp add: hooked_calls_def hooks_for_def demo_hook_def)
qed

text \<open>A call the policy denies, and an edit of a protected path, runs no hook and asks nobody:
  the denied call goes to the registry alone, which refuses it, and the edit is not made.\<close>

theorem no_hook_before_permission:
  assumes "preflight (call_host_at c st) (approved st) r = (Inr ev, ap)"
  shows "(decision ev = Deny \<longrightarrow>
      execute_tool_with_hooks c r st = run_tool_call c r (st\<lparr>approved := ap\<rparr>)) \<and>
    (decision ev \<noteq> Deny \<longrightarrow> is_edit_tool (tool_request_name r) \<longrightarrow>
      protected_path (ctx_hooks c) (ctx_root c) r = Some p \<longrightarrow>
      requested (snd (execute_tool_with_hooks c r st)) = requested st \<and>
      (\<forall>result. fst (execute_tool_with_hooks c r st) = Inr result \<longrightarrow>
         tr_is_error result \<and> tr_changed_files result = []))"
  using assms
  by (auto simp: execute_tool_with_hooks_def Let_def emit_def protected_result_def
      tool_error_result_def tool_result_new_def split: option.splits)

definition demo_edit :: tool_request where
  "demo_edit = \<lparr>tool_request_name = ''write_file'',
     tool_arguments = JObject [(''path'', JString ''src/api.rs'')]\<rparr>"

lemma demo_edit_protected: "protected_path (ctx_hooks (hooked_calls CodeMode)) root demo_edit = Some ''src/api.rs''"
proof -
  have "\<not> is_absolute ''src/api.rs''" "forward_slashes ''src/api.rs'' = ''src/api.rs''" by code_simp+
  then show ?thesis
    by (simp add: hooked_calls_def demo_edit_def protected_path_def protected_keys_def
        map_filter_simps json_str_def protected_relative_def)
qed

theorem no_hook_before_permission_witness:
  "requested (snd (execute_tool_with_hooks (hooked_calls CodeMode) demo_edit
     \<lparr>requested = [], approved = {}, emitted = []\<rparr>)) = []"
proof -
  let ?st = "\<lparr>requested = [], approved = {}, emitted = []\<rparr>"
  have pre: "preflight (call_host_at (hooked_calls CodeMode) ?st) (approved ?st) demo_edit =
      (Inr (evaluation Allow ''sample'' ''allowed''), {})"
    by (simp add: call_host_at_def hooked_calls_def demo_calls_def demo_host_def)
  have edit: "is_edit_tool (tool_request_name demo_edit)"
    by (simp add: is_edit_tool_def edit_tools_def demo_edit_def)
  from no_hook_before_permission [OF pre, THEN conjunct2] edit demo_edit_protected
  show ?thesis by (simp add: evaluation_def)
qed

text \<open>The protected paths are compared as they are spelled: a pattern that matches an edited path
  does not stop the edit when the same path is written with a leading \<open>./\<close>.\<close>

theorem protected_path_spelling_bypass:
  assumes "protected_matcher c = Some (\<lambda>s. s = ''src/api.rs'')"
  shows "protected_path c root \<lparr>tool_request_name = ''write_file'',
        tool_arguments = JObject [(''path'', JString ''src/api.rs'')]\<rparr> = Some ''src/api.rs'' \<and>
    protected_path c root \<lparr>tool_request_name = ''write_file'',
        tool_arguments = JObject [(''path'', JString ''./src/api.rs'')]\<rparr> = None \<and>
    normalize_path ''./src/api.rs'' = normalize_path ''src/api.rs''"
proof -
  have "\<not> is_absolute ''src/api.rs''" "\<not> is_absolute ''./src/api.rs''"
    "forward_slashes ''src/api.rs'' = ''src/api.rs''" "forward_slashes ''./src/api.rs'' = ''./src/api.rs''"
    "normalize_path ''./src/api.rs'' = normalize_path ''src/api.rs''"
    by code_simp+
  with assms show ?thesis
    by (simp add: protected_path_def protected_keys_def map_filter_simps json_str_def
        protected_relative_def)
qed

theorem protected_path_spelling_bypass_witness:
  "protected_path (ctx_hooks (hooked_calls CodeMode)) ''/w'' \<lparr>tool_request_name = ''write_file'',
     tool_arguments = JObject [(''path'', JString ''./src/api.rs'')]\<rparr> = None"
proof -
  have "protected_matcher (ctx_hooks (hooked_calls CodeMode)) = Some (\<lambda>s. s = ''src/api.rs'')"
    by (simp add: hooked_calls_def)
  from protected_path_spelling_bypass [OF this, of "''/w''"] show ?thesis by blast
qed

end
