(* ===== verification/Host_Files.thy ===== *)
theory Host_Files
  imports Files "HOL-Library.AList"
begin

section \<open>The file system the tools write to\<close>

text \<open>
  What \<open>harness-tools\<close> uses of \<open>std::fs\<close>, on a tree that can change: entries by their resolved
  path, with symbolic links followed by \<open>canonicalize\<close> and by every call that looks at a path
  (40 links at most, as on Linux). A directory lists its entries in the order of the tree. Any
  call that changes the tree can fail (\<open>io_fault\<close>), and other processes change it at the
  moments the code leaves open (\<open>meanwhile\<close>). Permissions and the temporary file of an atomic
  write, which is gone when the write ends, are not part of the tree.
\<close>

subsection \<open>Errors\<close>

datatype error_kind =
  KindNotFound | KindAlreadyExists | KindInvalidData | KindInvalidInput | KindPermissionDenied | KindOther

datatype os_error = OsError (os_kind: error_kind) (os_text: string)

definition no_such_file :: os_error where
  "no_such_file = OsError KindNotFound ''No such file or directory (os error 2)''"

definition file_exists :: os_error where
  "file_exists = OsError KindAlreadyExists ''File exists (os error 17)''"

definition not_a_directory :: os_error where
  "not_a_directory = OsError KindOther ''Not a directory (os error 20)''"

definition is_a_directory :: os_error where
  "is_a_directory = OsError KindOther ''Is a directory (os error 21)''"

definition invalid_argument :: os_error where
  "invalid_argument = OsError KindInvalidInput ''Invalid argument (os error 22)''"

definition too_many_links :: os_error where
  "too_many_links = OsError KindOther ''Too many levels of symbolic links (os error 40)''"

lemmas os_errors = no_such_file_def file_exists_def not_a_directory_def is_a_directory_def
  invalid_argument_def too_many_links_def

subsection \<open>The tree\<close>

datatype inode = RegularFile string | Directory | SymLink path | SpecialFile

type_synonym tree = "(component list \<times> inode) list"

definition inode_at :: "tree \<Rightarrow> component list \<Rightarrow> inode option" where
  "inode_at t cs = (if cs = [RootDir] then Some Directory else map_of t cs)"

definition put_inode :: "component list \<Rightarrow> inode \<Rightarrow> tree \<Rightarrow> tree" where
  "put_inode cs x t = AList.update cs x t"

definition drop_inode :: "component list \<Rightarrow> tree \<Rightarrow> tree" where
  "drop_inode cs t = AList.delete cs t"

datatype disk_operation = MakeDir | ReadFile | Prepare | Persist | Remove | Rename | OpenWrite | WriteData | SetMode

text \<open>Where other processes can interfere: after the file was read, and just before the commit.\<close>

datatype moment = AfterRead | BeforePersist

record machine =
  cwd :: "component list"
  io_fault :: "disk_operation \<Rightarrow> component list \<Rightarrow> os_error option"
  meanwhile :: "moment \<Rightarrow> tree \<Rightarrow> tree"

definition max_links :: nat where "max_links = 40"

function walk :: "tree \<Rightarrow> nat \<Rightarrow> component list \<Rightarrow> string list \<Rightarrow> os_error + component list" where
  "walk t k cur [] = Inr cur"
| "walk t k cur (p # ps) =
     (if inode_at t cur \<noteq> Some Directory then Inl not_a_directory
      else if p = [] \<or> p = ''.'' then walk t k cur ps
      else if p = ''..'' then walk t k (pop_component cur) ps
      else case inode_at t (cur @ [Normal p]) of
        None \<Rightarrow> Inl no_such_file
      | Some (SymLink target) \<Rightarrow>
          if k = 0 then Inl too_many_links
          else walk t (k - 1) (if is_absolute target then [RootDir] else cur) (path_pieces target @ ps)
      | Some _ \<Rightarrow> walk t k (cur @ [Normal p]) ps)"
  by pat_completeness auto
termination
  by (relation "measures [\<lambda>(t, k, cur, ps). k, \<lambda>(t, k, cur, ps). length ps]") auto

text \<open>The resolved components of a path; \<open>canonicalize\<close> is their text.\<close>

definition resolve :: "machine \<Rightarrow> tree \<Rightarrow> path \<Rightarrow> os_error + component list" where
  "resolve m t p =
     (if p = [] then Inl no_such_file
      else walk t max_links (if is_absolute p then [RootDir] else cwd m) (path_pieces p))"

definition canonicalize :: "machine \<Rightarrow> tree \<Rightarrow> path \<Rightarrow> os_error + path" where
  "canonicalize m t p = map_sum id path_text (resolve m t p)"

definition inode_of :: "machine \<Rightarrow> tree \<Rightarrow> path \<Rightarrow> os_error + inode" where
  "inode_of m t p =
     bind_result (resolve m t p) (\<lambda>cs.
       case inode_at t cs of None \<Rightarrow> Inl no_such_file | Some x \<Rightarrow> Inr x)"

definition host_exists :: "machine \<Rightarrow> tree \<Rightarrow> path \<Rightarrow> bool" where
  "host_exists m t p = is_ok (inode_of m t p)"

definition host_is_file :: "machine \<Rightarrow> tree \<Rightarrow> path \<Rightarrow> bool" where
  "host_is_file m t p \<longleftrightarrow> (case inode_of m t p of Inr (RegularFile _) \<Rightarrow> True | _ \<Rightarrow> False)"

definition host_is_dir :: "machine \<Rightarrow> tree \<Rightarrow> path \<Rightarrow> bool" where
  "host_is_dir m t p \<longleftrightarrow> inode_of m t p = Inr Directory"

text \<open>\<open>fs::read\<close>.\<close>

definition host_read :: "machine \<Rightarrow> tree \<Rightarrow> path \<Rightarrow> os_error + string" where
  "host_read m t p =
     bind_result (resolve m t p) (\<lambda>cs.
       case io_fault m ReadFile cs of
         Some err \<Rightarrow> Inl err
       | None \<Rightarrow> (case inode_at t cs of
             Some (RegularFile s) \<Rightarrow> Inr s
           | Some Directory \<Rightarrow> Inl is_a_directory
           | Some _ \<Rightarrow> Inl invalid_argument
           | None \<Rightarrow> Inl no_such_file))"

text \<open>\<open>fs::metadata(path).len()\<close>; only the length of a file is ever used.\<close>

definition file_length :: "machine \<Rightarrow> tree \<Rightarrow> path \<Rightarrow> nat" where
  "file_length m t p = (case inode_of m t p of Inr (RegularFile s) \<Rightarrow> length s | _ \<Rightarrow> 0)"

text \<open>\<open>read_dir\<close>: the names and the nodes (links are not followed) in a directory.\<close>

definition entries_in :: "tree \<Rightarrow> component list \<Rightarrow> (string \<times> inode) list" where
  "entries_in t dir =
     concat (map (\<lambda>cs. case (if cs = [] then RootDir else last cs) of
         Normal n \<Rightarrow> if butlast cs = dir
           then (case inode_at t cs of Some x \<Rightarrow> [(n, x)] | None \<Rightarrow> []) else []
       | _ \<Rightarrow> []) (remdups (map fst t)))"

definition host_entries :: "machine \<Rightarrow> tree \<Rightarrow> path \<Rightarrow> os_error + (string \<times> inode) list" where
  "host_entries m t p =
     bind_result (resolve m t p) (\<lambda>cs.
       if inode_at t cs = Some Directory then Inr (entries_in t cs) else Inl not_a_directory)"

subsection \<open>Changes\<close>

text \<open>The place a path names whose last component need not exist: its directory is resolved.\<close>

definition target_of :: "machine \<Rightarrow> tree \<Rightarrow> component list \<Rightarrow> os_error + component list" where
  "target_of m t cs =
     (if cs = [] \<or> butlast cs = [] then Inl invalid_argument
      else bind_result (resolve m t (path_text (butlast cs))) (\<lambda>dir.
        if inode_at t dir = Some Directory then Inr (dir @ [last cs]) else Inl not_a_directory))"

definition make_dir :: "machine \<Rightarrow> tree \<Rightarrow> component list \<Rightarrow> os_error + tree" where
  "make_dir m t cs =
     (if cs = [RootDir] then Inl file_exists
      else bind_result (target_of m t cs) (\<lambda>new.
        if inode_at t new \<noteq> None then Inl file_exists
        else case io_fault m MakeDir new of
          Some err \<Rightarrow> Inl err
        | None \<Rightarrow> Inr (put_inode new Directory t)))"

text \<open>\<open>fs::create_dir_all\<close>; the directories made before a failure stay.\<close>

function make_dirs :: "machine \<Rightarrow> tree \<Rightarrow> component list \<Rightarrow> (os_error + unit) \<times> tree" where
  "make_dirs m t cs =
     (case make_dir m t cs of
        Inr t1 \<Rightarrow> (Inr (), t1)
      | Inl err \<Rightarrow>
          if os_kind err \<noteq> KindNotFound
          then (if host_is_dir m t (path_text cs) then Inr () else Inl err, t)
          else if length cs \<le> 1 then (Inl err, t)
          else case make_dirs m t (butlast cs) of
            (Inl err, t1) \<Rightarrow> (Inl err, t1)
          | (Inr _, t1) \<Rightarrow>
              (case make_dir m t1 cs of
                 Inr t2 \<Rightarrow> (Inr (), t2)
               | Inl err \<Rightarrow> (if host_is_dir m t1 (path_text cs) then Inr () else Inl err, t1)))"
  by pat_completeness auto
termination
  by (relation "measure (\<lambda>(m, t, cs). length cs)") auto

declare make_dirs.simps [simp del]

text \<open>\<open>persist\<close> renames the temporary file onto the path, \<open>persist_noclobber\<close> only if it is free.\<close>

definition persist :: "machine \<Rightarrow> tree \<Rightarrow> component list \<Rightarrow> string \<Rightarrow> os_error + tree" where
  "persist m t cs bytes =
     bind_result (target_of m t cs) (\<lambda>new.
       if inode_at t new = Some Directory then Inl is_a_directory
       else case io_fault m Persist new of
         Some err \<Rightarrow> Inl err
       | None \<Rightarrow> Inr (put_inode new (RegularFile bytes) t))"

definition persist_noclobber :: "machine \<Rightarrow> tree \<Rightarrow> component list \<Rightarrow> string \<Rightarrow> os_error + tree" where
  "persist_noclobber m t cs bytes =
     bind_result (target_of m t cs) (\<lambda>new.
       if inode_at t new \<noteq> None then Inl file_exists
       else case io_fault m Persist new of
         Some err \<Rightarrow> Inl err
       | None \<Rightarrow> Inr (put_inode new (RegularFile bytes) t))"

definition remove_file :: "machine \<Rightarrow> tree \<Rightarrow> component list \<Rightarrow> os_error + tree" where
  "remove_file m t cs =
     bind_result (target_of m t cs) (\<lambda>old.
       case inode_at t old of
         None \<Rightarrow> Inl no_such_file
       | Some Directory \<Rightarrow> Inl is_a_directory
       | Some _ \<Rightarrow> (case io_fault m Remove old of
           Some err \<Rightarrow> Inl err
         | None \<Rightarrow> Inr (drop_inode old t)))"

definition rename_file_to ::
  "machine \<Rightarrow> tree \<Rightarrow> component list \<Rightarrow> component list \<Rightarrow> os_error + tree" where
  "rename_file_to m t from_cs to_cs =
     bind_result (target_of m t from_cs) (\<lambda>old.
     bind_result (target_of m t to_cs) (\<lambda>new.
       case inode_at t old of
         None \<Rightarrow> Inl no_such_file
       | Some x \<Rightarrow>
           if inode_at t new = Some Directory then Inl is_a_directory
           else case io_fault m Rename new of
             Some err \<Rightarrow> Inl err
           | None \<Rightarrow> Inr (if new = old then t else put_inode new x (drop_inode old t))))"

end
