(* ===== verification/Host_Files_Laws.thy ===== *)
theory Host_Files_Laws
  imports Host_Files
begin

section \<open>Laws of the file system\<close>

text \<open>
  In a tree where every entry lies in a directory, a path that has been resolved once resolves
  to itself, links lead only to entries of the tree, and each call changes what it names.
\<close>

definition tree_ok :: "tree \<Rightarrow> bool" where
  "tree_ok t \<longleftrightarrow> (\<forall>cs x. inode_at t cs = Some x \<longrightarrow> cs \<noteq> [RootDir] \<longrightarrow>
     (\<exists>dir n. cs = dir @ [Normal n] \<and> proper_name n \<and> inode_at t dir = Some Directory))"

definition real :: "tree \<Rightarrow> component list \<Rightarrow> bool" where
  "real t cs \<longleftrightarrow> (\<exists>x. inode_at t cs = Some x \<and> (\<forall>p. x \<noteq> SymLink p))"

lemma inode_at_root [simp]: "inode_at t [RootDir] = Some Directory"
  by (simp add: inode_at_def)

lemma inode_at_put:
  "inode_at (put_inode new x t) cs =
     (if cs = [RootDir] then Some Directory else if cs = new then Some x else inode_at t cs)"
  by (simp add: inode_at_def put_inode_def update_conv')

lemma inode_at_drop:
  "inode_at (drop_inode old t) cs =
     (if cs = [RootDir] then Some Directory else if cs = old then None else inode_at t cs)"
  by (simp add: inode_at_def drop_inode_def delete_conv')

lemma real_root [simp]: "real t [RootDir]"
  by (simp add: real_def)

lemma real_directory: "inode_at t cs = Some Directory \<Longrightarrow> real t cs"
  by (simp add: real_def)

lemma tree_okE:
  assumes "tree_ok t" "inode_at t cs = Some x"
  obtains "cs = [RootDir]"
    | dir n where "cs = dir @ [Normal n]" "proper_name n" "inode_at t dir = Some Directory"
  using assms unfolding tree_ok_def by blast

lemma tree_ok_names:
  assumes "tree_ok t" "inode_at t cs = Some x"
  shows "\<exists>names. cs = RootDir # map Normal names \<and> list_all proper_name names"
  using assms(2)
proof (induction cs arbitrary: x rule: rev_induct)
  case Nil
  with assms(1) show ?case by (rule tree_okE) auto
next
  case (snoc c cs)
  from assms(1) snoc.prems show ?case
  proof (cases rule: tree_okE)
    case 1
    then show ?thesis by (intro exI [of _ "[]"]) simp
  next
    case (2 dir n)
    then have "cs = dir" "c = Normal n" by auto
    with 2 snoc.IH obtain names where "cs = RootDir # map Normal names" "list_all proper_name names"
      by blast
    with 2 \<open>c = Normal n\<close> have "cs @ [c] = RootDir # map Normal (names @ [n])"
      "list_all proper_name (names @ [n])" by simp_all
    then show ?thesis by blast
  qed
qed

lemma real_resolved: "tree_ok t \<Longrightarrow> real t cs \<Longrightarrow> resolved cs"
  using tree_ok_names [of t cs] unfolding real_def resolved_def by blast

lemma real_rooted: "tree_ok t \<Longrightarrow> real t cs \<Longrightarrow> cs \<noteq> [] \<and> hd cs = RootDir"
  using tree_ok_names [of t cs] unfolding real_def by auto

lemma real_pop:
  assumes "tree_ok t" "real t cs"
  shows "real t (pop_component cs)"
proof -
  from assms(2) obtain x where "inode_at t cs = Some x" by (auto simp: real_def)
  with assms(1) show ?thesis
    by (cases rule: tree_okE) (auto simp: pop_component_def real_def)
qed

lemma real_component:
  assumes "tree_ok t" "inode_at t (cur @ [Normal p]) = Some x"
  shows "proper_name p"
proof -
  have "cur @ [Normal p] \<noteq> [RootDir]" by (cases cur) auto
  with assms show ?thesis unfolding tree_ok_def by blast
qed

lemma walk_real:
  assumes "tree_ok t" "walk t k cur ps = Inr cs" "real t cur"
  shows "real t cs"
  using assms
proof (induction t k cur ps rule: walk.induct)
  case (2 t k cur p ps)
  consider "p = [] \<or> p = ''.''" | "p = ''..''" | "p \<notin> {[], ''.'', ''..''}" by auto
  then show ?case
  proof cases
    case 2
    with "2.IH"(2) "2.prems" real_pop show ?thesis by (auto split: if_splits)
  next
    case 3
    with "2.prems" obtain x where x: "inode_at t cur = Some Directory"
        "inode_at t (cur @ [Normal p]) = Some x"
      by (auto split: if_splits option.splits)
    with 3 "2.IH"(3-) "2.prems" real_directory show ?thesis
      by (cases x) (auto simp: real_def split: if_splits)
  qed (use "2.IH"(1) "2.prems" in \<open>auto split: if_splits\<close>)
qed simp

lemma resolve_real:
  assumes "tree_ok t" "resolve m t p = Inr cs" "real t (cwd m)"
  shows "real t cs"
  using assms by (auto simp: resolve_def split: if_splits intro: walk_real)

text \<open>Walking along the names of a resolved path arrives there.\<close>

lemma walk_names:
  assumes "tree_ok t" "real t cs" "cs = RootDir # map Normal names"
  shows "walk t k [RootDir] (names @ ps) = walk t k cs ps"
  using assms(2,3)
proof (induction names arbitrary: cs ps rule: rev_induct)
  case (snoc n names)
  from snoc.prems obtain x where x: "inode_at t cs = Some x" "\<forall>p. x \<noteq> SymLink p"
    by (auto simp: real_def)
  let ?dir = "RootDir # map Normal names"
  have cs: "cs = ?dir @ [Normal n]" using snoc.prems(2) by simp
  with assms(1) x(1) have n: "proper_name n" and dir: "inode_at t ?dir = Some Directory"
    unfolding tree_ok_def by (metis append1_eq_conv butlast_snoc last_snoc component.inject
        append_is_Nil_conv list.distinct(1) list.inject append_self_conv2)+
  have "walk t k [RootDir] ((names @ [n]) @ ps) = walk t k ?dir (n # ps)"
    using snoc.IH [OF real_directory [OF dir] refl, of "n # ps"] by simp
  also have "\<dots> = walk t k cs ps"
    using n dir x cs by (cases x) (auto simp: proper_name_def)
  finally show ?case .
qed simp

lemma resolve_path_text:
  assumes "tree_ok t" "real t cs"
  shows "resolve m t (path_text cs) = Inr cs"
proof -
  from assms obtain names where names: "cs = RootDir # map Normal names" "list_all proper_name names"
    using tree_ok_names unfolding real_def by blast
  note pieces = proper_pieces [OF names(2)]
  have text_eq: "path_text cs = slash # join [slash] names"
    by (simp only: names(1) path_text_rooted)
  have "path_pieces (slash # join [slash] names) = [] # (if names = [] then [[]] else names)"
    using pieces(3) by (simp add: path_pieces_def split_on_join)
  then show ?thesis
    using walk_names [OF assms names(1), of max_links "[]"]
    unfolding resolve_def text_eq is_absolute_def by (simp add: names(1))
qed

lemma inode_of_real:
  assumes "tree_ok t" "real t cs"
  shows "inode_of m t (path_text cs) = Inr (the (inode_at t cs))"
  using assms by (auto simp: inode_of_def resolve_path_text real_def)

lemma walk_append:
  "walk t k cur (ps @ qs) = Inr cs \<Longrightarrow> \<exists>cs'. walk t k cur ps = Inr cs'"
  by (induction t k cur ps rule: walk.induct) (auto split: if_splits option.splits inode.splits)

subsection \<open>Changes below a directory\<close>

text \<open>Nothing outside \<open>dir\<close> changes.\<close>

definition confined :: "component list \<Rightarrow> tree \<Rightarrow> tree \<Rightarrow> bool" where
  "confined dir t t' \<longleftrightarrow> (\<forall>cs. \<not> prefix dir cs \<longrightarrow> inode_at t' cs = inode_at t cs)"

text \<open>No file changes: only directories are added.\<close>

definition only_dirs_added :: "tree \<Rightarrow> tree \<Rightarrow> bool" where
  "only_dirs_added t t' \<longleftrightarrow>
     (\<forall>cs. inode_at t' cs = inode_at t cs \<or> inode_at t cs = None \<and> inode_at t' cs = Some Directory)"

lemma confined_refl [simp, intro]: "confined dir t t"
  by (simp add: confined_def)

lemma confined_trans: "confined dir t t1 \<Longrightarrow> confined dir t1 t2 \<Longrightarrow> confined dir t t2"
  by (simp add: confined_def)

lemma confined_mono: "confined dir' t t' \<Longrightarrow> prefix dir dir' \<Longrightarrow> confined dir t t'"
  unfolding confined_def using prefix_order.trans by blast

lemma only_dirs_added_refl [simp, intro]: "only_dirs_added t t"
  by (simp add: only_dirs_added_def)

lemma only_dirs_added_trans:
  "only_dirs_added t t1 \<Longrightarrow> only_dirs_added t1 t2 \<Longrightarrow> only_dirs_added t t2"
  unfolding only_dirs_added_def by metis

lemma tree_ok_put:
  assumes "tree_ok t" "inode_at t dir = Some Directory" "proper_name n"
    "x = Directory \<or> inode_at t (dir @ [Normal n]) \<noteq> Some Directory"
  shows "tree_ok (put_inode (dir @ [Normal n]) x t)"
  unfolding tree_ok_def
proof (intro allI impI)
  fix cs y
  assume y: "inode_at (put_inode (dir @ [Normal n]) x t) cs = Some y" and cs: "cs \<noteq> [RootDir]"
  show "\<exists>dir' n'. cs = dir' @ [Normal n'] \<and> proper_name n' \<and>
      inode_at (put_inode (dir @ [Normal n]) x t) dir' = Some Directory"
  proof (cases "cs = dir @ [Normal n]")
    case True
    moreover have "dir \<noteq> dir @ [Normal n]" by simp
    ultimately show ?thesis using assms(2,3) by (auto simp: inode_at_put)
  next
    case False
    with y cs have "inode_at t cs = Some y" by (simp add: inode_at_put)
    with assms(1) cs obtain dir' n' where "cs = dir' @ [Normal n']" "proper_name n'"
        "inode_at t dir' = Some Directory"
      unfolding tree_ok_def by blast
    with assms(4) show ?thesis by (auto simp: inode_at_put)
  qed
qed

lemma tree_ok_drop:
  assumes "tree_ok t" "inode_at t cs \<noteq> Some Directory"
  shows "tree_ok (drop_inode cs t)"
  unfolding tree_ok_def
proof (intro allI impI)
  fix cs' y
  assume "inode_at (drop_inode cs t) cs' = Some y" "cs' \<noteq> [RootDir]"
  then have "inode_at t cs' = Some y" by (simp add: inode_at_drop split: if_splits)
  with \<open>cs' \<noteq> [RootDir]\<close> assms(1) obtain dir n where "cs' = dir @ [Normal n]" "proper_name n"
      "inode_at t dir = Some Directory"
    unfolding tree_ok_def by blast
  with assms(2) show "\<exists>dir n. cs' = dir @ [Normal n] \<and> proper_name n \<and>
      inode_at (drop_inode cs t) dir = Some Directory"
    by (auto simp: inode_at_drop)
qed

text \<open>A place named by a resolved directory and a name.\<close>

lemma target_of_real:
  assumes "tree_ok t" "inode_at t dir = Some Directory"
  shows "target_of m t (dir @ [Normal n]) = Inr (dir @ [Normal n])"
proof -
  have "real t dir" using assms(2) by (rule real_directory)
  with assms real_rooted [OF assms(1)] show ?thesis
    by (auto simp: target_of_def resolve_path_text)
qed

text \<open>Making the directories from a resolved one down.\<close>

definition fresh_below :: "machine \<Rightarrow> tree \<Rightarrow> component list \<Rightarrow> string list \<Rightarrow> bool" where
  "fresh_below m t base names \<longleftrightarrow>
     tree_ok t \<and> real t base \<and> list_all proper_name names \<and>
     (names \<noteq> [] \<longrightarrow> \<not> host_exists m t (path_text (base @ [Normal (hd names)])))"

lemma entry_below:
  assumes "tree_ok t" "inode_at t (base @ map Normal names) = Some x" "names \<noteq> []" "base \<noteq> []"
  shows "inode_at t base = Some Directory \<and>
    (length names = 1 \<or> inode_at t (base @ [Normal (hd names)]) = Some Directory)"
  using assms(2,3)
proof (induction names arbitrary: x rule: rev_induct)
  case (snoc n names)
  have "inode_at t (base @ map Normal names) = Some Directory"
    using assms(1) snoc.prems(1) assms(4) unfolding tree_ok_def
    by (cases base) (force simp: append_eq_Cons_conv)+
  then show ?case using snoc.IH [of Directory] by (cases names) auto
qed simp

lemma make_dir_step:
  assumes "tree_ok t" "inode_at t dir = Some Directory" "proper_name n"
    "make_dir m t (dir @ [Normal n]) = Inr t'"
  shows "tree_ok t' \<and> only_dirs_added t t' \<and> confined (dir @ [Normal n]) t t' \<and>
    inode_at t' (dir @ [Normal n]) = Some Directory"
proof -
  have new: "inode_at t (dir @ [Normal n]) = None" "t' = put_inode (dir @ [Normal n]) Directory t"
    using assms(4) by (auto simp: make_dir_def target_of_real [OF assms(1,2)] split: if_splits option.splits)
  then show ?thesis
    using tree_ok_put [OF assms(1-3), of Directory]
    by (auto simp: only_dirs_added_def confined_def inode_at_put)
qed

lemma make_dir_existing:
  assumes "tree_ok t" "inode_at t cs = Some x"
  shows "make_dir m t cs = Inl file_exists"
  using assms
  by (cases rule: tree_okE) (use assms target_of_real [OF assms(1)] in \<open>auto simp: make_dir_def\<close>)

text \<open>The text of a resolved directory and names below it is walked from the directory.\<close>

lemma resolve_below:
  assumes "tree_ok t" "real t base" "list_all proper_name names"
  shows "resolve m t (path_text (base @ map Normal names)) = walk t max_links base names"
proof -
  from assms obtain bs where bs: "base = RootDir # map Normal bs" "list_all proper_name bs"
    using tree_ok_names unfolding real_def by blast
  let ?ns = "bs @ names"
  have "path_pieces (slash # join [slash] ?ns) = [] # (if ?ns = [] then [[]] else ?ns)"
    using proper_pieces(3) [of ?ns] bs assms(3) by (simp add: path_pieces_def split_on_join)
  then have "resolve m t (path_text (RootDir # map Normal ?ns)) = walk t max_links [RootDir] ?ns"
    unfolding resolve_def path_text_rooted is_absolute_def by simp
  also have "\<dots> = walk t max_links base names"
    by (rule walk_names [OF assms(1,2) bs(1)])
  finally show ?thesis using bs(1) by simp
qed

lemma resolve_behind_missing:
  assumes "tree_ok t" "real t base" "list_all proper_name names" "names \<noteq> []" "real t (cwd m)"
    "\<not> host_exists m t (path_text (base @ [Normal (hd names)]))"
  shows "\<not> is_ok (resolve m t (path_text (base @ map Normal names)))"
proof
  assume "is_ok (resolve m t (path_text (base @ map Normal names)))"
  then obtain cs where "walk t max_links base names = Inr cs"
    using resolve_below [OF assms(1-3), of m] by (auto simp: is_ok_iff)
  moreover have names: "names = [hd names] @ tl names" "proper_name (hd names)"
    using assms(3,4) by (cases names; simp)+
  ultimately obtain cs' where "walk t max_links base [hd names] = Inr cs'"
    by (metis walk_append)
  then have "resolve m t (path_text (base @ [Normal (hd names)])) = Inr cs'"
    using resolve_below [OF assms(1,2), of "[hd names]" m] names(2) by simp
  moreover from resolve_real [OF assms(1) this assms(5)] have "inode_at t cs' \<noteq> None"
    by (auto simp: real_def)
  ultimately show False using assms(6) by (auto simp: host_exists_def inode_of_def)
qed

lemma make_dirs_at_base:
  assumes "tree_ok t" "real t base"
  shows "make_dirs m t base =
    (if inode_at t base = Some Directory then Inr () else Inl file_exists, t)"
proof -
  obtain x where x: "inode_at t base = Some x" using assms(2) by (auto simp: real_def)
  have "host_is_dir m t (path_text base) \<longleftrightarrow> inode_at t base = Some Directory"
    using inode_of_real [OF assms, of m] x by (auto simp: host_is_dir_def)
  then show ?thesis
    using make_dir_existing [OF assms(1) x, of m]
    by (subst make_dirs.simps) (simp add: file_exists_def)
qed

lemma walk_child:
  assumes "inode_at t dir = Some Directory" "proper_name n" "walk t k dir [n] = Inr d"
    "\<And>p. inode_at t (dir @ [Normal n]) \<noteq> Some (SymLink p)"
  shows "d = dir @ [Normal n]"
  using assms by (auto simp: proper_name_def split: option.splits inode.splits)

lemma make_dirs_ok:
  assumes "fresh_below m t base names" "real t (cwd m)"
    "make_dirs m t (base @ map Normal names) = (r, t')"
  shows "tree_ok t' \<and> only_dirs_added t t' \<and> confined base t t' \<and> (names = [] \<longrightarrow> t' = t) \<and>
    (r = Inr () \<longrightarrow> inode_at t' (base @ map Normal names) = Some Directory)"
  using assms(1,3)
proof (induction names arbitrary: r t' rule: rev_induct)
  case Nil
  then show ?case by (auto simp: make_dirs_at_base fresh_below_def split: if_splits)
next
  case (snoc n names)
  let ?dir = "base @ map Normal names"
  let ?cs = "?dir @ [Normal n]"
  from snoc.prems(1) have t: "tree_ok t" "real t base" and n: "proper_name n" "list_all proper_name names"
    and hidden: "\<not> host_exists m t (path_text (base @ [Normal (hd (names @ [n]))]))"
    by (simp_all add: fresh_below_def)
  have base: "base \<noteq> []" using real_rooted [OF t] by simp
  have fresh: "fresh_below m t base names"
    using snoc.prems(1) by (cases names) (simp_all add: fresh_below_def)
  have missing: "\<not> is_ok (resolve m t (path_text ?cs))"
    using resolve_behind_missing [OF t, of "names @ [n]" m] hidden n assms(2) by simp
  then have no_dir: "\<not> host_is_dir m t (path_text ?cs)"
    by (auto simp: host_is_dir_def inode_of_def)
  have "make_dirs m t ?cs = (r, t')" using snoc.prems(2) by simp
  note run = this [unfolded make_dirs.simps [of m t ?cs] butlast_snoc]
  have butlast: "butlast ?cs = ?dir" by (simp only: butlast_snoc)
  have len: "\<not> length ?cs \<le> 1" using base by (cases base) auto
  show ?case
  proof (cases "make_dir m t ?cs")
    case (Inr t1)
    then have step: "r = Inr ()" "t' = t1"
      using run by (simp_all only: sum.case prod.inject)
    from Inr base obtain d where d: "resolve m t (path_text ?dir) = Inr d" "inode_at t d = Some Directory"
      unfolding make_dir_def target_of_def butlast by (auto split: if_splits)
    have "names = []"
      using resolve_behind_missing [OF t n(2) _ assms(2)] hidden d(1) by (cases names) auto
    with d t have dir: "inode_at t ?dir = Some Directory" by (simp add: resolve_path_text)
    from make_dir_step [OF t(1) dir n(1) Inr] step show ?thesis
      by (auto intro: confined_mono)
  next
    case (Inl err)
    show ?thesis
    proof (cases "os_kind err = KindNotFound")
      case False
      with Inl run no_dir have "(Inl err, t) = (r, t')"
        by (simp del: append_assoc)
      with t show ?thesis by auto
    next
      case True
      obtain r1 t1 where rec: "make_dirs m t ?dir = (r1, t1)" by fastforce
      note IH = snoc.IH [OF fresh rec]
      show ?thesis
      proof (cases r1)
        case (Inl err1)
        with True \<open>make_dir m t ?cs = Inl err\<close> run rec base have "(Inl err1, t1) = (r, t')"
          by (simp del: append_assoc One_nat_def butlast_snoc)
        with IH show ?thesis by auto
      next
        case (Inr u)
        with IH have dir: "inode_at t1 ?dir = Some Directory" and ok: "tree_ok t1" by auto
        have result: "(r, t') = (case make_dir m t1 ?cs of Inr t2 \<Rightarrow> (Inr (), t2)
            | Inl err \<Rightarrow> (if host_is_dir m t1 (path_text ?cs) then Inr () else Inl err, t1))"
          using True \<open>make_dir m t ?cs = Inl err\<close> run rec base Inr
          by (simp del: append_assoc One_nat_def butlast_snoc)
        show ?thesis
        proof (cases "make_dir m t1 ?cs")
          case (Inr t2)
          note last_step = make_dir_step [OF ok dir n(1) this]
          then have "confined base t1 t2" by (auto intro: confined_mono)
          with result Inr last_step IH show ?thesis
            by (auto intro: only_dirs_added_trans confined_trans)
        next
          case (Inl err2)
          have "inode_at t1 ?cs = Some Directory" if "host_is_dir m t1 (path_text ?cs)"
          proof -
            from that n(1) obtain d where d: "walk t1 max_links ?dir [n] = Inr d" "inode_at t1 d = Some Directory"
              using resolve_below [OF ok real_directory [OF dir], of "[n]" m]
              by (auto simp: host_is_dir_def inode_of_def simp del: walk.simps split: option.splits)
            have "inode_at t1 ?cs \<noteq> Some (SymLink p)" for p
            proof
              assume "inode_at t1 ?cs = Some (SymLink p)"
              with IH have "inode_at t ?cs = Some (SymLink p)" unfolding only_dirs_added_def by (metis inode.distinct(7) option.inject)
              with entry_below [OF t(1) _ _ base, of "names @ [n]"]
              have "names = [] \<or> inode_at t (base @ [Normal (hd (names @ [n]))]) = Some Directory" by auto
              moreover have "inode_at t (base @ [Normal (hd (names @ [n]))]) \<noteq> Some Directory"
                using hidden inode_of_real [OF t(1) real_directory] by (auto simp: host_exists_def)
              ultimately show False using IH that no_dir by auto
            qed
            with walk_child [OF dir n(1) d(1)] d(2) show ?thesis by simp
          qed
          with result Inl IH show ?thesis by auto
        qed
      qed
    qed
  qed
qed

end
