(* ===== verification/Tool_Environment.thy ===== *)
theory Tool_Environment
  imports Host_Files_Laws Process Policy
begin

section \<open>harness-tools: the local execution environment\<close>

text \<open>
  \<open>harness-tools/src/environment.rs\<close>: \<open>LocalExecutionEnvironment\<close>, the backend of the file and
  process tools. Every operation on a file resolves the path again below the workspace root,
  and a change is made only while the file still has the contents the caller expects. The
  processes themselves are a parameter; the environment variables are a list of names and values.
\<close>

subsection \<open>Paths\<close>

definition outside_error :: os_error where
  "outside_error = OsError KindPermissionDenied ''path resolves outside the workspace''"

function nearest_existing ::
  "machine \<Rightarrow> tree \<Rightarrow> path \<Rightarrow> string list \<Rightarrow> (path \<times> string list) option" where
  "nearest_existing m t p names =
     (if host_exists m t p then Some (p, names)
      else case file_name p of
        None \<Rightarrow> None
      | Some n \<Rightarrow> nearest_existing m t (path_text (butlast (components p))) (n # names))"
  by pat_completeness auto

lemma components_butlast:
  "components (path_text (butlast (components p))) = butlast (components p)"
  by (simp add: components_text path_components_take butlast_conv_take)

termination nearest_existing
proof (relation "measure (\<lambda>(m, t, p, names). length (components p))")
  fix m :: machine and t p names n
  assume "\<not> host_exists m t p" "file_name p = Some n"
  then show "((m, t, path_text (butlast (components p)), n # names), m, t, p, names)
      \<in> measure (\<lambda>(m, t, p, names). length (components p))"
    by (cases "components p = []") (auto simp: components_butlast file_name_def)
qed simp

declare nearest_existing.simps [simp del]

definition escapes :: "path \<Rightarrow> bool" where
  "escapes rel \<longleftrightarrow> is_absolute rel \<or> ParentDir \<in> set (components rel)"

definition resolve_existing_path ::
  "machine \<Rightarrow> tree \<Rightarrow> component list \<Rightarrow> path \<Rightarrow> os_error + component list" where
  "resolve_existing_path m t root candidate =
     bind_result (resolve m t candidate) (\<lambda>cs.
       if prefix root cs then Inr cs else Inl outside_error)"

definition resolve_missing_path ::
  "machine \<Rightarrow> tree \<Rightarrow> component list \<Rightarrow> path \<Rightarrow> os_error + component list" where
  "resolve_missing_path m t root candidate =
     (case nearest_existing m t candidate [] of
        None \<Rightarrow> Inl (OsError KindInvalidInput ''invalid workspace path'')
      | Some (existing, names) \<Rightarrow>
          bind_result (resolve m t existing) (\<lambda>base.
            if prefix root base then Inr (base @ map Normal names) else Inl outside_error))"

definition resolve_workspace_path ::
  "machine \<Rightarrow> tree \<Rightarrow> path \<Rightarrow> path \<Rightarrow> bool \<Rightarrow> os_error + component list" where
  "resolve_workspace_path m t root rel allow_missing_tail =
     (if escapes rel
      then Inl (OsError KindPermissionDenied ''path must remain inside the workspace'')
      else bind_result (resolve m t root) (\<lambda>root_cs.
        let candidate = path_join (path_text root_cs) rel
        in if allow_missing_tail then resolve_missing_path m t root_cs candidate
           else resolve_existing_path m t root_cs candidate))"

subsection \<open>Files\<close>

definition read_workspace_file ::
  "machine \<Rightarrow> tree \<Rightarrow> path \<Rightarrow> path \<Rightarrow> nat \<Rightarrow> os_error + string" where
  "read_workspace_file m t root rel max_bytes =
     bind_result (resolve_workspace_path m t root rel False) (\<lambda>cs.
     bind_result (host_read m t (path_text cs)) (\<lambda>bytes.
       let contents = take (max_bytes + 1) bytes
       in if max_bytes < length contents
          then Inl (OsError KindInvalidData
            (''file exceeds the '' @ show_nat max_bytes @ ''-byte read limit''))
          else Inr contents))"

text \<open>The steps before the commit: the directories, and the temporary file with the contents.\<close>

definition prepare_write :: "machine \<Rightarrow> tree \<Rightarrow> component list \<Rightarrow> (os_error + unit) \<times> tree" where
  "prepare_write m t cs =
     (if length cs \<le> 1 then (Inl (OsError KindInvalidInput ''workspace file has no parent''), t)
      else case make_dirs m t (butlast cs) of
        (Inl err, t1) \<Rightarrow> (Inl err, t1)
      | (Inr _, t1) \<Rightarrow>
          (case io_fault m Prepare cs of Some err \<Rightarrow> (Inl err, t1) | None \<Rightarrow> (Inr (), t1)))"

definition committed :: "tree \<Rightarrow> os_error + tree \<Rightarrow> (os_error + bool) \<times> tree" where
  "committed t r = (case r of Inl err \<Rightarrow> (Inl err, t) | Inr t1 \<Rightarrow> (Inr True, t1))"

definition write_workspace_file_atomic ::
  "machine \<Rightarrow> tree \<Rightarrow> path \<Rightarrow> path \<Rightarrow> string option \<Rightarrow> string \<Rightarrow> (os_error + bool) \<times> tree" where
  "write_workspace_file_atomic m t root rel expected contents =
     (case resolve_workspace_path m t root rel True of
        Inl err \<Rightarrow> (Inl err, t)
      | Inr cs \<Rightarrow>
          (case prepare_write m t cs of
             (Inl err, t1) \<Rightarrow> (Inl err, t1)
           | (Inr _, t1) \<Rightarrow>
               if expected \<noteq> None \<and> host_read m t1 (path_text cs) \<noteq> Inr (the expected)
               then (Inr False, t1)
               else let t2 = meanwhile m BeforePersist t1
                    in committed t2 (persist m t2 cs contents)))"

definition create_workspace_file_atomic ::
  "machine \<Rightarrow> tree \<Rightarrow> path \<Rightarrow> path \<Rightarrow> string \<Rightarrow> (os_error + bool) \<times> tree" where
  "create_workspace_file_atomic m t root rel contents =
     (case resolve_workspace_path m t root rel True of
        Inl err \<Rightarrow> (Inl err, t)
      | Inr cs \<Rightarrow>
          (case prepare_write m t cs of
             (Inl err, t1) \<Rightarrow> (Inl err, t1)
           | (Inr _, t1) \<Rightarrow>
               let t2 = meanwhile m BeforePersist t1
               in case persist_noclobber m t2 cs contents of
                    Inl err \<Rightarrow> (if os_kind err = KindAlreadyExists then Inr False else Inl err, t2)
                  | Inr t3 \<Rightarrow> (Inr True, t3)))"

definition delete_workspace_file ::
  "machine \<Rightarrow> tree \<Rightarrow> path \<Rightarrow> path \<Rightarrow> string \<Rightarrow> (os_error + bool) \<times> tree" where
  "delete_workspace_file m t root rel expected =
     (case resolve_workspace_path m t root rel False of
        Inl err \<Rightarrow> (Inl err, t)
      | Inr cs \<Rightarrow>
          if host_read m t (path_text cs) \<noteq> Inr expected then (Inr False, t)
          else let t1 = meanwhile m BeforePersist t in committed t1 (remove_file m t1 cs))"

definition move_resolved ::
  "machine \<Rightarrow> tree \<Rightarrow> component list \<Rightarrow> component list \<Rightarrow> (os_error + bool) \<times> tree" where
  "move_resolved m t old new =
     (if length new \<le> 1 then (Inl (OsError KindInvalidInput ''workspace file has no parent''), t)
      else case make_dirs m t (butlast new) of
        (Inl err, t1) \<Rightarrow> (Inl err, t1)
      | (Inr _, t1) \<Rightarrow>
          let t2 = meanwhile m BeforePersist t1 in committed t2 (rename_file_to m t2 old new))"

definition move_workspace_file ::
  "machine \<Rightarrow> tree \<Rightarrow> path \<Rightarrow> path \<Rightarrow> path \<Rightarrow> string \<Rightarrow> (os_error + bool) \<times> tree" where
  "move_workspace_file m t root source destination expected =
     (case resolve_workspace_path m t root source False of
        Inl err \<Rightarrow> (Inl err, t)
      | Inr old \<Rightarrow>
          (case resolve_workspace_path m t root destination True of
             Inl err \<Rightarrow> (Inl err, t)
           | Inr new \<Rightarrow>
               (case host_read m t (path_text old) of
                  Inl err \<Rightarrow> (Inl err, t)
                | Inr contents \<Rightarrow>
                    if contents \<noteq> expected \<or> host_exists m t (path_text new) then (Inr False, t)
                    else move_resolved m t old new)))"

subsection \<open>Processes and their environment\<close>

definition safe_names :: "string list" where
  "safe_names =
     [''PATH'', ''SYSTEMROOT'', ''WINDIR'', ''TEMP'', ''TMP'', ''USERPROFILE'', ''HOME'', ''APPDATA'',
      ''LOCALAPPDATA'', ''HOMEDRIVE'', ''HOMEPATH'', ''COMSPEC'', ''PATHEXT'', ''LANG'', ''LC_ALL'',
      ''TERM'', ''CARGO_HOME'', ''RUSTUP_HOME'', ''PNPM_HOME'', ''NVM_HOME'', ''NVM_SYMLINK'',
      ''GOPATH'', ''GOROOT'', ''VIRTUAL_ENV'']"

definition upper_char :: "char \<Rightarrow> char" where
  "upper_char c = (if is_ascii_lower c then char_of (byte_of c - 32) else c)"

definition to_ascii_uppercase :: "string \<Rightarrow> string" where
  "to_ascii_uppercase s = map upper_char s"

definition secret_words :: "string list" where
  "secret_words = [''KEY'', ''TOKEN'', ''SECRET'', ''PASSWORD'', ''CREDENTIAL'', ''AUTH'']"

definition is_secret_environment_name :: "string \<Rightarrow> bool" where
  "is_secret_environment_name name = contains_any secret_words (to_ascii_uppercase name)"

definition filter_process_environment :: "(string \<times> string) list \<Rightarrow> (string \<times> string) list" where
  "filter_process_environment variables =
     sort_key fst (filter (\<lambda>(key, _). list_ex (eq_ignore_ascii_case key) safe_names
       \<and> \<not> is_secret_environment_name key) variables)"

definition environment_variable :: "(string \<times> string) list \<Rightarrow> string \<Rightarrow> string option" where
  "environment_variable variables name =
     map_option snd (find (\<lambda>(key, _). eq_ignore_ascii_case key name)
       (filter_process_environment variables))"

definition spawn_allowed :: "machine \<Rightarrow> tree \<Rightarrow> path \<Rightarrow> process_request \<Rightarrow> process_error + unit" where
  "spawn_allowed m t root r =
     (case resolve m t root of
        Inl err \<Rightarrow> Inl (Spawn (''could not resolve workspace: '' @ os_text err))
      | Inr root_cs \<Rightarrow>
          (case resolve m t (pr_directory r) of
             Inl err \<Rightarrow> Inl (Spawn (''could not resolve process working directory: '' @ os_text err))
           | Inr cwd_cs \<Rightarrow>
               if prefix root_cs cwd_cs then Inr ()
               else Inl (Spawn ''process working directory is outside the workspace'')))"

text \<open>
  A process is a parameter: for the request and the tree it starts from, its result, the events it
  reports while it runs, and the tree it leaves.
\<close>

type_synonym process_run =
  "process_request \<Rightarrow> tree \<Rightarrow> (process_error + process_result) \<times> process_event list \<times> tree"

definition spawn_in_workspace :: "machine \<Rightarrow> path \<Rightarrow> process_run \<Rightarrow> process_run" where
  "spawn_in_workspace m root run r t =
     (case spawn_allowed m t root r of Inl err \<Rightarrow> (Inl err, [], t) | Inr _ \<Rightarrow> run r t)"

subsection \<open>A machine to work on\<close>

definition machine_ok :: "machine \<Rightarrow> tree \<Rightarrow> bool" where
  "machine_ok m t \<longleftrightarrow> tree_ok t \<and> inode_at t (cwd m) = Some Directory"

end
