(* ===== verification/Tool_Text.thy ===== *)
theory Tool_Text
  imports Utf8
begin

section \<open>harness-tools: the texts of an edit\<close>

text \<open>
  The text functions of \<open>harness-tools/src/filesystem.rs\<close>: line endings, the map from a text with
  normalised line endings back to the original, the ranges of lines, the occurrences of a
  pattern, and the unified diff an edit reports.
\<close>

subsection \<open>Line endings\<close>

definition crlf :: string where "crlf = [carriage_return, newline]"

definition bom :: string where "bom = [CHR 0xEF, CHR 0xBB, CHR 0xBF]"

definition normalize_eol :: "string \<Rightarrow> string" where
  "normalize_eol s = str_replace crlf [newline] s"

definition encode_new_text :: "string \<Rightarrow> string \<Rightarrow> bool \<Rightarrow> string" where
  "encode_new_text s eol has_bom =
     (let normalized = normalize_eol s;
          converted = (if eol = crlf then str_replace [newline] crlf normalized else normalized)
      in if has_bom then bom @ converted else converted)"

text \<open>The normalised text, and for each of its positions behind a byte the position in the original.\<close>

fun offset_map :: "string \<Rightarrow> nat \<Rightarrow> string \<times> nat list" where
  "offset_map [] i = ([], [])"
| "offset_map [c] i = ([c], [i + 1])"
| "offset_map (c # d # s) i =
     (if c = carriage_return \<and> d = newline
      then (case offset_map s (i + 2) of (u, os) \<Rightarrow> (newline # u, (i + 2) # os))
      else (case offset_map (d # s) (i + 1) of (u, os) \<Rightarrow> (c # u, (i + 1) # os)))"

definition normalized_offset_map :: "string \<Rightarrow> string \<times> nat list" where
  "normalized_offset_map s = (case offset_map s 0 of (u, os) \<Rightarrow> (u, 0 # os))"

subsection \<open>Lines and matches\<close>

text \<open>\<open>split_inclusive('\n')\<close>.\<close>

fun split_inclusive :: "string \<Rightarrow> string list" where
  "split_inclusive [] = []"
| "split_inclusive (c # s) =
     (if c = newline then [c] # split_inclusive s
      else case split_inclusive s of [] \<Rightarrow> [[c]] | l # ls \<Rightarrow> (c # l) # ls)"

fun ranges_from :: "nat \<Rightarrow> string list \<Rightarrow> (nat \<times> nat) list" where
  "ranges_from offset [] = []"
| "ranges_from offset (l # ls) = (offset, offset + length l) # ranges_from (offset + length l) ls"

definition line_byte_ranges :: "string \<Rightarrow> (nat \<times> nat) list" where
  "line_byte_ranges s = ranges_from 0 (split_inclusive s)"

text \<open>\<open>match_indices\<close> of a non-empty pattern: from the left, a match ends before the next begins.\<close>

function match_indices :: "string \<Rightarrow> string \<Rightarrow> nat \<Rightarrow> nat list" where
  "match_indices pat s i =
     (case s of
        [] \<Rightarrow> []
      | c # cs \<Rightarrow>
          if pat \<noteq> [] \<and> prefix pat s then i # match_indices pat (drop (length pat) s) (i + length pat)
          else match_indices pat cs (i + 1))"
  by pat_completeness auto
termination
  by (relation "measure (\<lambda>(pat, s, i). length s)") (auto simp: prefix_def)

declare match_indices.simps [simp del]

definition count_matches :: "string \<Rightarrow> string \<Rightarrow> nat" where
  "count_matches pat s = length (match_indices pat s 0)"

text \<open>The line ending of a file: CRLF when at least half of its lines end so.\<close>

definition detect_eol :: "string \<Rightarrow> string" where
  "detect_eol s =
     (let with_cr = count_matches crlf s; lf = length (filter (\<lambda>c. c = newline) s) - with_cr
      in if 0 < with_cr \<and> lf \<le> with_cr then crlf else [newline])"

subsection \<open>Replacing a part\<close>

definition eol_text :: "string \<Rightarrow> string \<Rightarrow> string" where
  "eol_text eol s = str_replace [newline] eol (normalize_eol s)"

definition splice :: "string \<Rightarrow> nat \<Rightarrow> nat \<Rightarrow> string \<Rightarrow> string" where
  "splice s i j new = take i s @ new @ drop j s"

subsection \<open>The unified diff\<close>

definition max_diff_bytes :: nat where "max_diff_bytes = 16 * 1024"

definition diff_marker :: string where
  "diff_marker =
     [newline] @ ''... unified diff truncated; inspect the file or run git diff for the full change ...''
     @ [newline]"

definition bound_diff :: "string \<Rightarrow> string \<times> bool" where
  "bound_diff diff =
     (if length diff \<le> max_diff_bytes then (diff, False)
      else (take (floor_boundary diff max_diff_bytes) diff @ diff_marker, True))"

definition diff_lines :: "string option \<Rightarrow> string list" where
  "diff_lines bytes =
     (let s = (case bytes of None \<Rightarrow> [] | Some b \<Rightarrow> strip_front [bom] (from_utf8_lossy b))
      in map (trim_end_chars [newline]) (split_inclusive (normalize_eol s)))"

fun common_prefix :: "string list \<Rightarrow> string list \<Rightarrow> nat" where
  "common_prefix (x # xs) (y # ys) = (if x = y then Suc (common_prefix xs ys) else 0)"
| "common_prefix _ _ = 0"

definition common_suffix :: "string list \<Rightarrow> string list \<Rightarrow> nat \<Rightarrow> nat" where
  "common_suffix xs ys skip = common_prefix (rev (drop skip xs)) (rev (drop skip ys))"

record hunk =
  hunk_prefix :: nat
  hunk_old_end :: nat
  hunk_new_end :: nat

definition hunk_of :: "string list \<Rightarrow> string list \<Rightarrow> hunk" where
  "hunk_of old_lines new_lines =
     (let p = common_prefix old_lines new_lines; q = common_suffix old_lines new_lines p
      in \<lparr>hunk_prefix = p, hunk_old_end = length old_lines - q, hunk_new_end = length new_lines - q\<rparr>)"

definition prefixed_lines :: "string \<Rightarrow> string list \<Rightarrow> string" where
  "prefixed_lines mark ls = concat (map (\<lambda>l. mark @ l @ [newline]) ls)"

definition slice :: "nat \<Rightarrow> nat \<Rightarrow> 'a list \<Rightarrow> 'a list" where
  "slice i j xs = drop i (take j xs)"

definition hunk_text :: "string list \<Rightarrow> string list \<Rightarrow> hunk \<Rightarrow> string" where
  "hunk_text old_lines new_lines h =
     (let start = hunk_prefix h - 3;
          old_hunk_end = min (hunk_old_end h + 3) (length old_lines);
          new_hunk_end = min (hunk_new_end h + 3) (length new_lines)
      in ''@@ -'' @ show_nat (start + 1) @ '','' @ show_nat (old_hunk_end - start) @ '' +''
         @ show_nat (start + 1) @ '','' @ show_nat (new_hunk_end - start) @ '' @@'' @ [newline]
         @ prefixed_lines '' '' (slice start (hunk_prefix h) old_lines)
         @ prefixed_lines ''-'' (slice (hunk_prefix h) (hunk_old_end h) old_lines)
         @ prefixed_lines ''+'' (slice (hunk_prefix h) (hunk_new_end h) new_lines)
         @ prefixed_lines '' '' (slice (hunk_old_end h) old_hunk_end old_lines))"

definition file_header :: "string \<Rightarrow> string \<Rightarrow> string option \<Rightarrow> string" where
  "file_header side name bytes = (case bytes of None \<Rightarrow> ''/dev/null'' | Some _ \<Rightarrow> side @ name)"

text \<open>The diff, the lines inserted and deleted, and whether the text is cut.\<close>

definition unified_diff ::
  "string \<Rightarrow> string \<Rightarrow> string option \<Rightarrow> string option \<Rightarrow> string \<times> nat \<times> nat \<times> bool" where
  "unified_diff path_old path_new old new =
     (let old_lines = diff_lines old; new_lines = diff_lines new; h = hunk_of old_lines new_lines;
          header = ''--- '' @ file_header ''a/'' path_old old @ [newline]
            @ ''+++ '' @ file_header ''b/'' path_new new @ [newline];
          (diff, truncated) = bound_diff
            (header @ (if old_lines = new_lines then [] else hunk_text old_lines new_lines h))
      in (diff, hunk_new_end h - hunk_prefix h, hunk_old_end h - hunk_prefix h, truncated))"

subsection \<open>Laws of line endings\<close>

lemma normalize_eol_simps:
  "normalize_eol [] = []"
  "normalize_eol [c] = [c]"
  "normalize_eol (c # d # s) =
     (if c = carriage_return \<and> d = newline then newline # normalize_eol s
      else c # normalize_eol (d # s))"
  by (auto simp: normalize_eol_def crlf_def str_replace_Cons)

text \<open>
  The map is right: its text is the normalised one, and a position of it corresponds to a
  position of the original with the same normalised text before and behind it.
\<close>

lemma offset_map_spec:
  assumes "offset_map s i = (u, os)"
  shows "u = normalize_eol s \<and> length os = length u \<and>
    (\<forall>k < length u. \<exists>n. os ! k = i + n \<and> n \<le> length s \<and>
      normalize_eol (take n s) = take (Suc k) u \<and> normalize_eol (drop n s) = drop (Suc k) u)"
  using assms
proof (induction s i arbitrary: u os rule: offset_map.induct)
  case (2 c i)
  then show ?case by (auto simp: normalize_eol_simps intro: exI [of _ 1])
next
  case (3 c d s i)
  show ?case
  proof (cases "c = carriage_return \<and> d = newline")
    case True
    obtain u' os' where rec: "offset_map s (i + 2) = (u', os')" by fastforce
    with 3(3) True have eqs: "u = newline # u'" "os = (i + 2) # os'" by auto
    note IH = 3(1) [OF True rec]
    show ?thesis
    proof (intro conjI allI impI)
      fix k assume "k < length u"
      show "\<exists>n. os ! k = i + n \<and> n \<le> length (c # d # s) \<and>
          normalize_eol (take n (c # d # s)) = take (Suc k) u \<and>
          normalize_eol (drop n (c # d # s)) = drop (Suc k) u"
      proof (cases k)
        case 0
        with eqs IH True show ?thesis by (intro exI [of _ 2]) (simp add: normalize_eol_simps)
      next
        case (Suc j)
        with \<open>k < length u\<close> eqs IH obtain n where "os' ! j = i + 2 + n" "n \<le> length s"
          "normalize_eol (take n s) = take (Suc j) u'" "normalize_eol (drop n s) = drop (Suc j) u'" by auto
        with Suc eqs True show ?thesis by (intro exI [of _ "n + 2"]) (simp add: normalize_eol_simps)
      qed
    qed (use eqs IH True in \<open>auto simp: normalize_eol_simps\<close>)
  next
    case False
    obtain u' os' where rec: "offset_map (d # s) (i + 1) = (u', os')" by fastforce
    with 3(3) False have eqs: "u = c # u'" "os = (i + 1) # os'" by auto
    note IH = 3(2) [OF False rec]
    show ?thesis
    proof (intro conjI allI impI)
      fix k assume "k < length u"
      show "\<exists>n. os ! k = i + n \<and> n \<le> length (c # d # s) \<and>
          normalize_eol (take n (c # d # s)) = take (Suc k) u \<and>
          normalize_eol (drop n (c # d # s)) = drop (Suc k) u"
      proof (cases k)
        case 0
        with eqs IH False show ?thesis by (intro exI [of _ 1]) (simp add: normalize_eol_simps)
      next
        case (Suc j)
        with \<open>k < length u\<close> eqs IH obtain n where n: "os' ! j = i + 1 + n" "n \<le> length (d # s)"
          "normalize_eol (take n (d # s)) = take (Suc j) u'"
          "normalize_eol (drop n (d # s)) = drop (Suc j) u'" by auto
        moreover have "j < length u'" using \<open>k < length u\<close> eqs Suc by simp
        ultimately have "n \<noteq> 0" by (intro notI) (auto simp: normalize_eol_simps(1) take_Suc_conv_app_nth)
        then obtain q where "n = Suc q" by (cases n) auto
        with n Suc eqs False show ?thesis
          by (intro exI [of _ "Suc n"]) (auto simp: normalize_eol_simps(3))
      qed
    qed (use eqs IH False in \<open>auto simp: normalize_eol_simps\<close>)
  qed
qed (simp add: normalize_eol_simps)

lemma normalized_offset_map_spec:
  assumes "normalized_offset_map s = (u, os)" "k \<le> length u"
  shows "u = normalize_eol s \<and> os ! k \<le> length s \<and>
    normalize_eol (take (os ! k) s) = take k u \<and> normalize_eol (drop (os ! k) s) = drop k u"
proof -
  obtain os' where map: "offset_map s 0 = (u, os')" "os = 0 # os'"
    using assms(1) by (auto simp: normalized_offset_map_def split: prod.splits)
  show ?thesis
  proof (cases k)
    case 0
    with offset_map_spec [OF map(1)] map(2) show ?thesis by (simp add: normalize_eol_simps)
  next
    case (Suc j)
    with offset_map_spec [OF map(1)] map(2) assms(2) show ?thesis by auto
  qed
qed

text \<open>A text without single carriage returns: all its line endings are LF or CRLF.\<close>

definition plain_endings :: "string \<Rightarrow> bool" where
  "plain_endings s \<longleftrightarrow> carriage_return \<notin> set (normalize_eol s)"

lemma normalize_eol_no_cr: "carriage_return \<notin> set s \<Longrightarrow> normalize_eol s = s"
proof (induction s rule: induct_list012)
  case (3 c d s)
  then show ?case by (auto simp: normalize_eol_simps)
qed (simp_all add: normalize_eol_simps)

lemma normalize_eol_append:
  assumes "plain_endings a"
  shows "normalize_eol (a @ b) = normalize_eol a @ normalize_eol b"
  using assms
proof (induction a rule: induct_list012)
  case 2
  then show ?case by (cases b) (auto simp: plain_endings_def normalize_eol_simps)
next
  case (3 c d s)
  then show ?case by (auto simp: plain_endings_def normalize_eol_simps split: if_splits)
qed (simp add: normalize_eol_simps)

lemma normalize_eol_crlf:
  "carriage_return \<notin> set s \<Longrightarrow> normalize_eol (str_replace [newline] crlf s) = s"
proof (induction s)
  case (Cons c s)
  have "normalize_eol (c # t) = c # normalize_eol t" if "c \<noteq> carriage_return" for t
    using that by (cases t) (simp_all add: normalize_eol_simps)
  with Cons show ?case
    by (auto simp: str_replace_Cons [of "[newline]"] crlf_def normalize_eol_simps)
qed (simp add: normalize_eol_simps)

lemma normalize_eol_text:
  assumes "plain_endings s" "eol = crlf \<or> eol = [newline]"
  shows "normalize_eol (eol_text eol s) = normalize_eol s"
proof -
  have "str_replace [newline] [newline] v = v" for v
    by (induction v) (auto simp: str_replace_Cons [of "[newline]"])
  with assms show ?thesis
    by (auto simp: eol_text_def plain_endings_def normalize_eol_crlf normalize_eol_no_cr)
qed

lemma plain_endings_text:
  "plain_endings s \<Longrightarrow> eol = crlf \<or> eol = [newline] \<Longrightarrow> plain_endings (eol_text eol s)"
  using normalize_eol_text by (simp add: plain_endings_def)

lemma plain_endings_parts:
  assumes "plain_endings s" "normalized_offset_map s = (u, os)" "k \<le> length u"
  shows "plain_endings (take (os ! k) s)" "plain_endings (drop (os ! k) s)"
  using normalized_offset_map_spec [OF assms(2,3)] assms(1)
  by (auto simp: plain_endings_def dest: in_set_takeD in_set_dropD)

text \<open>Splicing a replacement into the original is splicing it into the normalised text.\<close>

lemma normalize_splice:
  assumes "normalized_offset_map s = (u, os)" "plain_endings s" "plain_endings new"
    "eol = crlf \<or> eol = [newline]" "i \<le> length u" "j \<le> length u"
  shows "normalize_eol (splice s (os ! i) (os ! j) (eol_text eol new)) =
    take i u @ normalize_eol new @ drop j u"
  using normalized_offset_map_spec [OF assms(1,5)] normalized_offset_map_spec [OF assms(1,6)]
    plain_endings_parts(1) [OF assms(2,1,5)] plain_endings_text [OF assms(3,4)]
  by (simp add: splice_def normalize_eol_append normalize_eol_text [OF assms(3,4)])

text \<open>A file that is written with one kind of line ending reads back as what was meant.\<close>

lemma encode_new_text_roundtrip:
  assumes "plain_endings s" "eol = crlf \<or> eol = [newline]"
  shows "normalize_eol (encode_new_text s eol False) = normalize_eol s"
    "encode_new_text s eol True = bom @ encode_new_text s eol False"
  using assms by (auto simp: encode_new_text_def Let_def plain_endings_def normalize_eol_crlf normalize_eol_no_cr)

subsection \<open>Laws of matches and of the diff\<close>

lemma match_indices_Nil [simp]: "match_indices pat [] i = []"
  by (simp add: match_indices.simps)

lemma match_indices_Cons:
  "match_indices pat (c # cs) i =
     (if pat \<noteq> [] \<and> prefix pat (c # cs)
      then i # match_indices pat (drop (length pat) (c # cs)) (i + length pat)
      else match_indices pat cs (i + 1))"
  by (subst match_indices.simps) simp

lemma match_indices_sound:
  "k \<in> set (match_indices pat s i) \<Longrightarrow> \<exists>a b. k = i + length a \<and> s = a @ pat @ b"
proof (induction pat s i rule: match_indices.induct)
  case (1 pat s i)
  show ?case
  proof (cases s)
    case (Cons c cs)
    show ?thesis
    proof (cases "pat \<noteq> [] \<and> prefix pat s")
      case True
      then have s: "s = pat @ drop (length pat) s" by (auto simp: prefix_def)
      from "1.prems" Cons True have "k = i \<or> k \<in> set (match_indices pat (drop (length pat) s) (i + length pat))"
        by (simp only: match_indices_Cons if_True list.set insert_iff simp_thms)
      then show ?thesis
      proof
        assume "k = i"
        with s show ?thesis by (intro exI [of _ "[]"] exI [of _ "drop (length pat) s"]) simp
      next
        assume "k \<in> set (match_indices pat (drop (length pat) s) (i + length pat))"
        with "1.IH"(1) Cons True obtain a b where "k = i + length pat + length a"
          "drop (length pat) s = a @ pat @ b" by auto
        with s show ?thesis by (intro exI [of _ "pat @ a"] exI [of _ b]) simp
      qed
    next
      case False
      with "1.prems" Cons have "k \<in> set (match_indices pat cs (i + 1))"
        by (auto simp: match_indices_Cons split: if_splits)
      with "1.IH"(2) Cons False obtain a b where "k = i + 1 + length a" "cs = a @ pat @ b" by blast
      with Cons show ?thesis by (intro exI [of _ "c # a"] exI [of _ b]) simp
    qed
  qed (use "1.prems" in simp)
qed

lemma match_indices_complete: "pat \<noteq> [] \<Longrightarrow> match_indices pat s i = [] \<longleftrightarrow> \<not> str_contains s pat"
proof (induction pat s i rule: match_indices.induct)
  case (1 pat s i)
  show ?case
  proof (cases s)
    case (Cons c cs)
    with "1.prems" "1.IH"(2) [OF Cons] show ?thesis by (auto simp: match_indices_Cons)
  qed (use "1.prems" in simp)
qed

lemma common_prefix_take:
  "common_prefix xs ys \<le> length xs \<and> common_prefix xs ys \<le> length ys \<and>
    take (common_prefix xs ys) xs = take (common_prefix xs ys) ys"
  by (induction xs ys rule: common_prefix.induct) auto

text \<open>The hunk: the lines before it and behind it agree, so exchanging it turns one text into the other.\<close>

lemma hunk_of_spec:
  assumes "hunk_of xs ys = h"
  shows "hunk_prefix h \<le> hunk_old_end h \<and> hunk_old_end h \<le> length xs \<and>
    hunk_prefix h \<le> hunk_new_end h \<and> hunk_new_end h \<le> length ys \<and>
    take (hunk_prefix h) xs = take (hunk_prefix h) ys \<and>
    drop (hunk_old_end h) xs = drop (hunk_new_end h) ys"
proof -
  define p q where "p = common_prefix xs ys" and "q = common_suffix xs ys p"
  have h: "hunk_prefix h = p" "hunk_old_end h = length xs - q" "hunk_new_end h = length ys - q"
    using assms by (auto simp: hunk_of_def Let_def p_def q_def)
  have p: "p \<le> length xs" "p \<le> length ys" "take p xs = take p ys"
    using common_prefix_take [of xs ys] by (simp_all add: p_def)
  have q: "q \<le> length xs - p" "q \<le> length ys - p"
    "take q (rev (drop p xs)) = take q (rev (drop p ys))"
    using common_prefix_take [of "rev (drop p xs)" "rev (drop p ys)"]
    by (simp_all add: q_def common_suffix_def)
  from q(3) have "rev (drop (length xs - p - q) (drop p xs)) = rev (drop (length ys - p - q) (drop p ys))"
    by (simp add: take_rev)
  then have "drop (length xs - q) xs = drop (length ys - q) ys"
    using p q(1,2) by (simp add: add.commute)
  with h p q show ?thesis by auto
qed

end
