(* ===== verification/Tool_Files.thy ===== *)
theory Tool_Files
  imports Tool_Environment Tool_Text Agent_Approval Workspace
begin

section \<open>harness-tools: arguments, paths and editable files\<close>

text \<open>
  The errors of \<open>harness-tools/src/lib.rs\<close> and the helper functions of \<open>filesystem.rs\<close>: reading
  the arguments of a call, resolving a path below the workspace, loading a file for an edit, and
  the results of an edit. The SHA-256 digest is the parameter \<open>tc_digest\<close>. A path that has been
  resolved is its list of components.
\<close>

subsection \<open>Errors and results\<close>

datatype tool_error =
    InvalidArguments string string
  | PathOutsideWorkspace path
  | ToolPathNotFound path
  | NotFile path
  | NotDirectory path
  | BinaryFile path
  | FileTooLarge path nat
  | PatchConflict path
  | NoMatches
  | ToolIo string string
  | ToolProcess string
  | ToolNetwork string

fun tool_error_text :: "tool_error \<Rightarrow> string" where
  "tool_error_text (InvalidArguments tool msg) = ''invalid arguments for '' @ tool @ '': '' @ msg"
| "tool_error_text (PathOutsideWorkspace p) = ''path is outside the workspace: '' @ p"
| "tool_error_text (ToolPathNotFound p) = ''path does not exist: '' @ p"
| "tool_error_text (NotFile p) = ''path is not a file: '' @ p"
| "tool_error_text (NotDirectory p) = ''path is not a directory: '' @ p"
| "tool_error_text (BinaryFile p) = ''file is binary and cannot be processed: '' @ p"
| "tool_error_text (FileTooLarge p limit) = ''file exceeds the '' @ show_nat limit @ ''-byte limit: '' @ p"
| "tool_error_text (PatchConflict p) = ''patch context did not match exactly once: '' @ p"
| "tool_error_text NoMatches = ''no matches found''"
| "tool_error_text (ToolIo operation msg) = ''filesystem operation '' @ operation @ '' failed: '' @ msg"
| "tool_error_text (ToolProcess msg) = ''process execution failed: '' @ msg"
| "tool_error_text (ToolNetwork msg) = ''network request failed: '' @ msg"

definition io_failure :: "string \<Rightarrow> os_error \<Rightarrow> tool_error" where
  "io_failure operation err = ToolIo operation (os_text err)"

definition insert_metadata :: "string \<Rightarrow> json \<Rightarrow> tool_result \<Rightarrow> tool_result" where
  "insert_metadata k v r = r\<lparr>tr_metadata := AList.update k v (tr_metadata r)\<rparr>"

definition insert_all :: "(string \<times> json) list \<Rightarrow> tool_result \<Rightarrow> tool_result" where
  "insert_all kvs r = foldl (\<lambda>r (k, v). insert_metadata k v r) r kvs"

abbreviation json_nat :: "nat \<Rightarrow> json" where
  "json_nat n \<equiv> JNumber (show_nat n)"

subsection \<open>The world of a tool\<close>

text \<open>
  \<open>ToolContext\<close> without the policy. \<open>tc_cancelled\<close> is what the cancellation token says when an
  edit is about to be committed; events are published only with a bus and a session.
\<close>

record tool_context =
  tc_directory :: path
  tc_machine :: machine
  tc_cancelled :: bool
  tc_digest :: "string \<Rightarrow> string"
  tc_publishes :: bool

record tool_world =
  world_tree :: tree
  world_events :: "event_payload list"

type_synonym tool_action = "tool_world \<Rightarrow> (tool_error + tool_result) \<times> tool_world"

definition tool_emit :: "tool_context \<Rightarrow> event_payload \<Rightarrow> tool_world \<Rightarrow> tool_world" where
  "tool_emit c e w = (if tc_publishes c then w\<lparr>world_events := world_events w @ [e]\<rparr> else w)"

text \<open>The world after other processes have worked while a tool had read but not written.\<close>

definition later :: "tool_context \<Rightarrow> tool_world \<Rightarrow> tool_world" where
  "later c w = w\<lparr>world_tree := meanwhile (tc_machine c) AfterRead (world_tree w)\<rparr>"

text \<open>An operation on the tree, with its result handed to the rest of the tool.\<close>

definition on_tree ::
  "(tree \<Rightarrow> (os_error + bool) \<times> tree) \<Rightarrow> string \<Rightarrow> (bool \<Rightarrow> tool_action) \<Rightarrow> tool_action" where
  "on_tree f operation k w =
     (case f (world_tree w) of
        (Inl err, t) \<Rightarrow> (Inl (io_failure operation err), w\<lparr>world_tree := t\<rparr>)
      | (Inr b, t) \<Rightarrow> k b (w\<lparr>world_tree := t\<rparr>))"

text \<open>The \<open>?\<close> operator on a pure result.\<close>

definition checked :: "tool_error + 'a \<Rightarrow> ('a \<Rightarrow> tool_action) \<Rightarrow> tool_action" where
  "checked r k w = (case r of Inl err \<Rightarrow> (Inl err, w) | Inr x \<Rightarrow> k x w)"

definition give :: "tool_result \<Rightarrow> tool_action" where
  "give r w = (Inr r, w)"

subsection \<open>Arguments\<close>

definition required_string :: "json \<Rightarrow> string \<Rightarrow> string \<Rightarrow> tool_error + string" where
  "required_string args key tool =
     (case Option.bind (json_get key args) json_str of
        Some v \<Rightarrow> if v \<noteq> [] then Inr v
                  else Inl (InvalidArguments tool (key @ '' must be a non-empty string''))
      | None \<Rightarrow> Inl (InvalidArguments tool (key @ '' must be a non-empty string'')))"

definition required_path :: "json \<Rightarrow> string \<Rightarrow> tool_error + string" where
  "required_path args tool = required_string args ''path'' tool"

definition required_text :: "json \<Rightarrow> string \<Rightarrow> string \<Rightarrow> tool_error + string" where
  "required_text args key tool =
     (case Option.bind (json_get key args) json_str of
        Some v \<Rightarrow> Inr v | None \<Rightarrow> Inl (InvalidArguments tool (key @ '' must be a string'')))"

definition optional_string :: "json \<Rightarrow> string \<Rightarrow> string \<Rightarrow> tool_error + string" where
  "optional_string args key dflt =
     (case json_get key args of
        None \<Rightarrow> Inr dflt
      | Some (JString v) \<Rightarrow>
          if v \<noteq> [] then Inr v
          else Inl (InvalidArguments ''tool'' (key @ '' must be a non-empty string''))
      | Some _ \<Rightarrow> Inl (InvalidArguments ''tool'' (key @ '' must be a non-empty string'')))"

definition optional_bool :: "json \<Rightarrow> string \<Rightarrow> bool \<Rightarrow> tool_error + bool" where
  "optional_bool args key dflt =
     (case json_get key args of
        None \<Rightarrow> Inr dflt
      | Some (JBool b) \<Rightarrow> Inr b
      | Some _ \<Rightarrow> Inl (InvalidArguments ''tool'' (key @ '' must be a boolean'')))"

definition json_u64 :: "json \<Rightarrow> nat option" where
  "json_u64 v = (case v of JNumber s \<Rightarrow> parse_u64 s | _ \<Rightarrow> None)"

definition optional_u64 ::
  "json \<Rightarrow> string \<Rightarrow> nat \<Rightarrow> nat \<Rightarrow> nat \<Rightarrow> string \<Rightarrow> tool_error + nat" where
  "optional_u64 args key dflt lo hi tool =
     (case json_get key args of
        None \<Rightarrow> Inr dflt
      | Some v \<Rightarrow>
          (case json_u64 v of
             Some n \<Rightarrow> if lo \<le> n \<and> n \<le> hi then Inr n
                else Inl (InvalidArguments tool (key @ '' must be between '' @ show_nat lo @ '' and '' @ show_nat hi))
           | None \<Rightarrow> Inl (InvalidArguments tool
               (key @ '' must be between '' @ show_nat lo @ '' and '' @ show_nat hi))))"

definition max_results :: nat where "max_results = 200"

definition optional_limit :: "json \<Rightarrow> string \<Rightarrow> nat \<Rightarrow> tool_error + nat" where
  "optional_limit args key dflt = optional_u64 args key dflt 1 max_results ''tool''"

definition required_line :: "json \<Rightarrow> string \<Rightarrow> string \<Rightarrow> tool_error + nat" where
  "required_line args key tool =
     (case Option.bind (json_get key args) json_u64 of
        Some n \<Rightarrow> if 0 < n then Inr n
                  else Inl (InvalidArguments tool (key @ '' must be a positive integer''))
      | None \<Rightarrow> Inl (InvalidArguments tool (key @ '' must be a positive integer'')))"

subsection \<open>Paths below the workspace\<close>

definition workspace_directory :: "tool_context \<Rightarrow> tree \<Rightarrow> tool_error + component list" where
  "workspace_directory c t =
     (case resolve (tc_machine c) t (tc_directory c) of
        Inl err \<Rightarrow> Inl (io_failure ''resolve workspace'' err)
      | Inr root \<Rightarrow> if inode_at t root = Some Directory then Inr root else Inl (NotDirectory (path_text root)))"

definition relative_request :: "path \<Rightarrow> tool_error + unit" where
  "relative_request rel = (if is_absolute rel then Inl (PathOutsideWorkspace rel) else Inr ())"

definition ensure_inside :: "component list \<Rightarrow> component list \<Rightarrow> path \<Rightarrow> tool_error + unit" where
  "ensure_inside root cs requested =
     (if prefix root cs then Inr () else Inl (PathOutsideWorkspace requested))"

definition resolve_existing ::
  "tool_context \<Rightarrow> tree \<Rightarrow> path \<Rightarrow> tool_error + component list \<times> component list" where
  "resolve_existing c t rel =
     bind_result (workspace_directory c t) (\<lambda>root.
     bind_result (relative_request rel) (\<lambda>_.
     let candidate = path_join (path_text root) rel in
     case resolve (tc_machine c) t candidate of
       Inl err \<Rightarrow> if os_kind err = KindNotFound then Inl (ToolPathNotFound candidate)
                  else Inl (io_failure ''resolve path'' err)
     | Inr cs \<Rightarrow> bind_result (ensure_inside root cs rel) (\<lambda>_. Inr (root, cs))))"

definition resolve_for_write ::
  "tool_context \<Rightarrow> tree \<Rightarrow> path \<Rightarrow> tool_error + component list \<times> component list" where
  "resolve_for_write c t rel =
     bind_result (workspace_directory c t) (\<lambda>root.
     bind_result (relative_request rel) (\<lambda>_.
     let candidate = path_join (path_text root) rel in
     case nearest_existing (tc_machine c) t candidate [] of
       None \<Rightarrow> Inl (ToolPathNotFound candidate)
     | Some (existing, names) \<Rightarrow>
         (case resolve (tc_machine c) t existing of
            Inl err \<Rightarrow> Inl (io_failure ''resolve path'' err)
          | Inr base \<Rightarrow> bind_result (ensure_inside root base rel) (\<lambda>_. Inr (root, base @ map Normal names)))))"

definition relative_string :: "component list \<Rightarrow> component list \<Rightarrow> string" where
  "relative_string root cs =
     forward_slashes (from_utf8_lossy (case path_strip_prefix (path_text root) (path_text cs) of
       None \<Rightarrow> path_text cs | Some rel \<Rightarrow> rel))"

definition strip_root :: "component list \<Rightarrow> component list \<Rightarrow> tool_error + path" where
  "strip_root root cs =
     (case path_strip_prefix (path_text root) (path_text cs) of
        None \<Rightarrow> Inl (PathOutsideWorkspace (path_text cs)) | Some rel \<Rightarrow> Inr rel)"

subsection \<open>Editable files\<close>

definition max_file_bytes :: nat where "max_file_bytes = 256 * 1024"
definition max_edit_file_bytes :: nat where "max_edit_file_bytes = 8 * 1024 * 1024"

record editable_file =
  ef_raw :: string
  ef_text :: string
  ef_bom :: bool
  ef_eol :: string

definition content_revision :: "tool_context \<Rightarrow> string \<Rightarrow> string" where
  "content_revision c bytes = ''sha256:'' @ tc_digest c bytes"

definition read_limited ::
  "tool_context \<Rightarrow> tree \<Rightarrow> component list \<Rightarrow> component list \<Rightarrow> string \<Rightarrow> nat \<Rightarrow> tool_error + string" where
  "read_limited c t root cs tool limit =
     bind_result (strip_root root cs) (\<lambda>rel.
       case read_workspace_file (tc_machine c) t (path_text root) rel limit of
         Inr bytes \<Rightarrow> Inr bytes
       | Inl err \<Rightarrow> if os_kind err = KindInvalidData then Inl (FileTooLarge (path_text cs) limit)
                    else Inl (io_failure (''read '' @ tool @ '' file'') err))"

definition decode_editable :: "component list \<Rightarrow> string \<Rightarrow> tool_error + editable_file" where
  "decode_editable cs raw =
     (if CHR 0x00 \<in> set raw then Inl (BinaryFile (path_text cs))
      else let has_bom = prefix bom raw; bytes = (if has_bom then drop 3 raw else raw)
           in if \<not> valid_utf8 bytes then Inl (BinaryFile (path_text cs))
              else Inr \<lparr>ef_raw = raw, ef_text = bytes, ef_bom = has_bom, ef_eol = detect_eol bytes\<rparr>)"

definition load_editable ::
  "tool_context \<Rightarrow> tree \<Rightarrow> component list \<Rightarrow> component list \<Rightarrow> string \<Rightarrow> tool_error + editable_file" where
  "load_editable c t root cs tool =
     (case inode_of (tc_machine c) t (path_text cs) of
        Inl err \<Rightarrow> Inl (io_failure ''inspect editable file'' err)
      | Inr (RegularFile s) \<Rightarrow>
          if max_edit_file_bytes < length s then Inl (FileTooLarge (path_text cs) max_edit_file_bytes)
          else bind_result (read_limited c t root cs tool max_edit_file_bytes) (decode_editable cs)
      | Inr _ \<Rightarrow> Inl (NotFile (path_text cs)))"

definition read_text_snapshot ::
  "tool_context \<Rightarrow> tree \<Rightarrow> component list \<Rightarrow> component list \<Rightarrow> string \<Rightarrow> nat \<Rightarrow>
   tool_error + string \<times> string" where
  "read_text_snapshot c t root cs tool limit =
     (if \<not> host_is_file (tc_machine c) t (path_text cs) then Inl (NotFile (path_text cs))
      else if limit < file_length (tc_machine c) t (path_text cs) then Inl (FileTooLarge (path_text cs) limit)
      else bind_result (read_limited c t root cs tool limit) (\<lambda>bytes.
        if CHR 0x00 \<in> set bytes \<or> \<not> valid_utf8 bytes then Inl (BinaryFile (path_text cs))
        else Inr (bytes, if prefix bom bytes then drop 3 bytes else bytes)))"

subsection \<open>Results of an edit\<close>

definition conflict_result :: "component list \<Rightarrow> component list \<Rightarrow> string \<Rightarrow> string \<Rightarrow> tool_result" where
  "conflict_result root cs status detail =
     (let rel = relative_string root cs
      in insert_all
           [(''file'', JString rel), (''lines_changed'', json_nat 0), (''insertions'', json_nat 0),
            (''deletions'', json_nat 0), (''conflict_status'', JString status),
            (''diagnostics'', JObject [(''status'', JString ''not_run'')])]
           ((tool_result_new (''Edit conflict ('' @ status @ '') for '' @ rel @ '': '' @ detail))
             \<lparr>tr_is_error := True\<rparr>))"

definition edit_result ::
  "tool_context \<Rightarrow> component list \<Rightarrow> component list \<Rightarrow> string option \<Rightarrow> string option \<Rightarrow> string \<Rightarrow> tool_result" where
  "edit_result c root cs old new verb =
     (let rel = relative_string root cs;
          (diff, insertions, deletions, truncated) = unified_diff rel rel old new
      in insert_all
           ([(''file'', JString rel), (''lines_changed'', json_nat (max insertions deletions)),
             (''insertions'', json_nat insertions), (''deletions'', json_nat deletions),
             (''conflict_status'', JString ''none''), (''diff'', JString diff),
             (''diff_truncated'', JBool truncated),
             (''bytes'', json_nat (case new of None \<Rightarrow> 0 | Some b \<Rightarrow> length b))]
            @ (case new of None \<Rightarrow> [] | Some b \<Rightarrow> [(''revision'', JString (content_revision c b))]))
           ((tool_result_new (verb @ '' '' @ rel @ [newline] @ diff))\<lparr>tr_truncated := truncated\<rparr>))"

definition arrow :: string where "arrow = [CHR 0xE2, CHR 0x86, CHR 0x92]"

definition rename_result ::
  "tool_context \<Rightarrow> component list \<Rightarrow> component list \<Rightarrow> component list \<Rightarrow> string \<Rightarrow> tool_result" where
  "rename_result c root from_cs to_cs contents =
     (let old_name = relative_string root from_cs; new_name = relative_string root to_cs;
          (diff, truncated) = bound_diff (''--- a/'' @ old_name @ [newline] @ ''+++ b/'' @ new_name @ [newline])
      in insert_all
           [(''file'', JString new_name), (''old_file'', JString old_name), (''lines_changed'', json_nat 0),
            (''insertions'', json_nat 0), (''deletions'', json_nat 0), (''conflict_status'', JString ''none''),
            (''diff'', JString diff), (''diff_truncated'', JBool truncated),
            (''revision'', JString (content_revision c contents))]
           ((tool_result_new (''moved '' @ old_name @ '' '' @ arrow @ '' '' @ new_name @ [newline] @ diff))
             \<lparr>tr_truncated := truncated\<rparr>))"

definition stale_detail :: string where
  "stale_detail = ''The file changed after it was read. Read the latest contents before editing.''"

definition stale_revision ::
  "tool_context \<Rightarrow> json \<Rightarrow> component list \<Rightarrow> component list \<Rightarrow> editable_file \<Rightarrow> tool_result option" where
  "stale_revision c args root cs original =
     (let expected = (case Option.bind (json_get ''expected_revision'' args) json_str of
            None \<Rightarrow> [] | Some s \<Rightarrow> s)
      in if expected \<noteq> [] \<and> expected \<noteq> content_revision c (ef_raw original)
         then Some (conflict_result root cs ''stale'' stale_detail) else None)"

definition ensure_edit_not_cancelled :: "tool_context \<Rightarrow> tool_error + unit" where
  "ensure_edit_not_cancelled c =
     (if tc_cancelled c then Inl (ToolProcess ''edit cancelled before commit'') else Inr ())"

end
