(* ===== verification/Tool_Edit.thy ===== *)
theory Tool_Edit
  imports Tool_Files
begin

section \<open>harness-tools: the tools that change files\<close>

text \<open>
  The edit tools of \<open>harness-tools/src/filesystem.rs\<close>. Each loads the file, checks the revision
  the caller has seen, computes the new contents, and commits them only if the file on disk is
  still the one that was loaded. The mutex that keeps edits of this process apart is implicit:
  an action runs alone, and other processes appear through \<open>later\<close> and the machine.
\<close>

subsection \<open>Committing\<close>

definition changed :: "component list list \<Rightarrow> tool_result \<Rightarrow> tool_result" where
  "changed css r = r\<lparr>tr_changed_files := tr_changed_files r @ map path_text css\<rparr>"

definition report_change ::
  "tool_context \<Rightarrow> component list \<Rightarrow> file_change \<Rightarrow> tool_result \<Rightarrow> tool_action" where
  "report_change c cs change r w = give (changed [cs] r) (tool_emit c (FileChanged (path_text cs) change) w)"

definition commit_existing ::
  "tool_context \<Rightarrow> component list \<Rightarrow> component list \<Rightarrow> editable_file \<Rightarrow> string \<Rightarrow> string \<Rightarrow> tool_action" where
  "commit_existing c root cs original updated verb w =
     (if max_edit_file_bytes < length updated + (if ef_bom original then 3 else 0)
      then (Inl (FileTooLarge (path_text cs) max_edit_file_bytes), w)
      else checked (ensure_edit_not_cancelled c) (\<lambda>_.
        let bytes = encode_new_text updated (ef_eol original) (ef_bom original)
        in checked (strip_root root cs) (\<lambda>rel w.
             on_tree (\<lambda>t. write_workspace_file_atomic (tc_machine c) t (path_text root) rel
                 (Some (ef_raw original)) bytes)
               ''atomically replace file'' (\<lambda>committed.
                 if \<not> committed
                 then give (conflict_result root cs ''concurrent_modification''
                   ''The file changed while the edit was being prepared. No edit was applied.'')
                 else report_change c cs Modified
                   (edit_result c root cs (Some (ef_raw original)) (Some bytes) verb))
               (later c w))) w)"

subsection \<open>\<open>write_file\<close> and \<open>create_file\<close>\<close>

definition load_if_present ::
  "tool_context \<Rightarrow> tree \<Rightarrow> component list \<Rightarrow> component list \<Rightarrow> tool_error + editable_file option" where
  "load_if_present c t root cs =
     (if host_exists (tc_machine c) t (path_text cs)
      then map_sum id Some (load_editable c t root cs ''write_file'') else Inr None)"

definition replace_or_create ::
  "tool_context \<Rightarrow> component list \<Rightarrow> path \<Rightarrow> editable_file option \<Rightarrow> string \<Rightarrow> tree \<Rightarrow>
   (os_error + bool) \<times> tree" where
  "replace_or_create c root rel original bytes t =
     (case original of
        Some f \<Rightarrow> write_workspace_file_atomic (tc_machine c) t (path_text root) rel (Some (ef_raw f)) bytes
      | None \<Rightarrow> create_workspace_file_atomic (tc_machine c) t (path_text root) rel bytes)"

definition commit_write ::
  "tool_context \<Rightarrow> component list \<Rightarrow> component list \<Rightarrow> editable_file option \<Rightarrow> string \<Rightarrow> tool_action" where
  "commit_write c root cs original content =
     (let eol = (case original of None \<Rightarrow> [newline] | Some f \<Rightarrow> ef_eol f);
          has_bom = (case original of None \<Rightarrow> False | Some f \<Rightarrow> ef_bom f);
          bytes = encode_new_text content eol has_bom
      in checked (ensure_edit_not_cancelled c) (\<lambda>_.
         checked (strip_root root cs) (\<lambda>rel w.
           on_tree (replace_or_create c root rel original bytes)
             (if original = None then ''atomically create file'' else ''atomically replace file'')
             (\<lambda>committed.
               if \<not> committed
               then give (conflict_result root cs ''concurrent_modification''
                 ''The destination changed while the write was being prepared.'')
               else report_change c cs (if original = None then Added else Modified)
                 (edit_result c root cs (map_option ef_raw original) (Some bytes) ''wrote''))
             (later c w))))"

definition write_resolved ::
  "tool_context \<Rightarrow> json \<Rightarrow> string \<Rightarrow> component list \<Rightarrow> component list \<Rightarrow> tool_action" where
  "write_resolved c args content root cs w =
     (let m = tc_machine c; t = world_tree w in
      if host_exists m t (path_text cs) \<and> \<not> host_is_file m t (path_text cs)
      then (Inl (NotFile (path_text cs)), w)
      else checked (load_if_present c t root cs) (\<lambda>original.
           checked (optional_string args ''expected_revision'' []) (\<lambda>expected.
             if original \<noteq> None \<and> expected \<noteq> [] \<and> content_revision c (ef_raw (the original)) \<noteq> expected
             then give (conflict_result root cs ''stale'' stale_detail)
             else commit_write c root cs original content)) w)"

definition write_file :: "tool_context \<Rightarrow> json \<Rightarrow> tool_action" where
  "write_file c args =
     checked (required_path args ''write_file'') (\<lambda>p.
     checked (required_text args ''content'' ''write_file'') (\<lambda>content w.
       if max_edit_file_bytes < length content then (Inl (FileTooLarge p max_edit_file_bytes), w)
       else checked (resolve_for_write c (world_tree w) p)
         (\<lambda>(root, cs). write_resolved c args content root cs) w))"

text \<open>The answer of the environment whether the file was created is not looked at.\<close>

definition create_resolved ::
  "tool_context \<Rightarrow> string \<Rightarrow> component list \<Rightarrow> component list \<Rightarrow> tool_action" where
  "create_resolved c content root cs w =
     (if host_exists (tc_machine c) (world_tree w) (path_text cs)
      then give (conflict_result root cs ''stale''
        ''The destination already exists. Read it and use a focused edit instead.'') w
      else checked (ensure_edit_not_cancelled c) (\<lambda>_.
           checked (strip_root root cs) (\<lambda>rel w.
             on_tree (\<lambda>t. create_workspace_file_atomic (tc_machine c) t (path_text root) rel content)
               ''atomically create file'' (\<lambda>_.
                 report_change c cs Added (edit_result c root cs None (Some content) ''created''))
               (later c w))) w)"

definition create_file :: "tool_context \<Rightarrow> json \<Rightarrow> tool_action" where
  "create_file c args =
     checked (required_path args ''create_file'') (\<lambda>p.
     checked (required_text args ''content'' ''create_file'') (\<lambda>content w.
       if max_edit_file_bytes < length content then (Inl (FileTooLarge p max_edit_file_bytes), w)
       else checked (resolve_for_write c (world_tree w) p)
         (\<lambda>(root, cs). create_resolved c content root cs) w))"

subsection \<open>\<open>apply_patch\<close>, \<open>replace_text\<close> and \<open>replace_range\<close>\<close>

definition patch_loaded ::
  "tool_context \<Rightarrow> component list \<Rightarrow> component list \<Rightarrow> editable_file \<Rightarrow> string \<Rightarrow> string \<Rightarrow> tool_action" where
  "patch_loaded c root cs original old_text new_text =
     (case normalized_offset_map (ef_text original) of (normalized, offsets) \<Rightarrow>
      let old_normalized = normalize_eol old_text in
      case match_indices old_normalized normalized 0 of
        [] \<Rightarrow> give (conflict_result root cs ''stale''
          ''Patch context no longer matches. Read the latest file before editing.'')
      | [start] \<Rightarrow>
          commit_existing c root cs original
            (splice (ef_text original) (offsets ! start) (offsets ! (start + length old_normalized))
              (eol_text (ef_eol original) new_text))
            ''patched''
      | _ \<Rightarrow> give (conflict_result root cs ''ambiguous''
          ''Patch context matches more than once. Include more surrounding lines.''))"

definition edit_loaded ::
  "tool_context \<Rightarrow> json \<Rightarrow> string \<Rightarrow> component list \<Rightarrow> component list \<Rightarrow>
   (editable_file \<Rightarrow> tool_action) \<Rightarrow> tool_action" where
  "edit_loaded c args tool root cs k w =
     checked (load_editable c (world_tree w) root cs tool) (\<lambda>original.
       case stale_revision c args root cs original of
         Some conflict \<Rightarrow> give conflict
       | None \<Rightarrow> k original) w"

definition replace_exact :: "tool_context \<Rightarrow> json \<Rightarrow> path \<Rightarrow> string \<Rightarrow> tool_action" where
  "replace_exact c args p tool =
     checked (optional_string args ''old_text'' []) (\<lambda>old_text.
     checked (required_text args ''new_text'' tool) (\<lambda>new_text w.
       if old_text = [] then (Inl (InvalidArguments tool ''old_text must not be empty''), w)
       else checked (resolve_existing c (world_tree w) p) (\<lambda>(root, cs).
         edit_loaded c args tool root cs (\<lambda>original.
           patch_loaded c root cs original old_text new_text)) w))"

definition apply_patch :: "tool_context \<Rightarrow> json \<Rightarrow> tool_action" where
  "apply_patch c args =
     checked (required_path args ''apply_patch'') (\<lambda>p. replace_exact c args p ''apply_patch'')"

definition replace_text :: "tool_context \<Rightarrow> json \<Rightarrow> tool_action" where
  "replace_text c args =
     checked (required_path args ''replace_text'') (\<lambda>p. replace_exact c args p ''replace_text'')"

definition replace_lines ::
  "tool_context \<Rightarrow> component list \<Rightarrow> component list \<Rightarrow> nat \<Rightarrow> nat \<Rightarrow> string \<Rightarrow> string \<Rightarrow>
   editable_file \<Rightarrow> tool_action" where
  "replace_lines c root cs start end_line expected_text new_text original =
     (case normalized_offset_map (ef_text original) of (normalized, offsets) \<Rightarrow>
      let ranges = line_byte_ranges normalized in
      if length ranges < start \<or> length ranges < end_line
      then give (conflict_result root cs ''stale'' ''The requested line range no longer exists.'')
      else
        let i = fst (ranges ! (start - 1)); j = snd (ranges ! (end_line - 1)) in
        if slice i j normalized \<noteq> normalize_eol expected_text
        then give (conflict_result root cs ''stale''
          ''The selected lines differ from expected_text. Read the latest file before editing.'')
        else commit_existing c root cs original
          (splice (ef_text original) (offsets ! i) (offsets ! j) (eol_text (ef_eol original) new_text))
          ''replaced range'')"

definition replace_range :: "tool_context \<Rightarrow> json \<Rightarrow> tool_action" where
  "replace_range c args =
     checked (required_path args ''replace_range'') (\<lambda>p.
     checked (required_line args ''start_line'' ''replace_range'') (\<lambda>start.
     checked (required_line args ''end_line'' ''replace_range'') (\<lambda>end_line w.
       if end_line < start
       then (Inl (InvalidArguments ''replace_range'' ''end_line must be greater than or equal to start_line''), w)
       else checked (required_text args ''expected_text'' ''replace_range'') (\<lambda>expected_text.
            checked (required_text args ''new_text'' ''replace_range'') (\<lambda>new_text w.
            checked (resolve_existing c (world_tree w) p) (\<lambda>(root, cs).
              edit_loaded c args ''replace_range'' root cs
                (replace_lines c root cs start end_line expected_text new_text)) w)) w)))"

subsection \<open>\<open>delete_file\<close> and \<open>rename_file\<close>\<close>

definition delete_loaded ::
  "tool_context \<Rightarrow> component list \<Rightarrow> component list \<Rightarrow> editable_file \<Rightarrow> tool_action" where
  "delete_loaded c root cs original =
     checked (ensure_edit_not_cancelled c) (\<lambda>_.
     checked (strip_root root cs) (\<lambda>rel w.
       on_tree (\<lambda>t. delete_workspace_file (tc_machine c) t (path_text root) rel (ef_raw original))
         ''delete file'' (\<lambda>committed.
           if \<not> committed
           then give (conflict_result root cs ''concurrent_modification''
             ''The file changed during deletion. No change was made.'')
           else report_change c cs Deleted
             (edit_result c root cs (Some (ef_raw original)) None ''deleted''))
         (later c w)))"

definition delete_file :: "tool_context \<Rightarrow> json \<Rightarrow> tool_action" where
  "delete_file c args =
     checked (required_path args ''delete_file'') (\<lambda>p w.
       checked (resolve_existing c (world_tree w) p) (\<lambda>(root, cs).
         edit_loaded c args ''delete_file'' root cs (delete_loaded c root cs)) w)"

definition report_move ::
  "tool_context \<Rightarrow> component list \<Rightarrow> component list \<Rightarrow> tool_result \<Rightarrow> tool_action" where
  "report_move c from_cs to_cs r w =
     give (changed [from_cs, to_cs] r)
       (tool_emit c (FileChanged (path_text to_cs) Added)
         (tool_emit c (FileChanged (path_text from_cs) Deleted) w))"

definition move_loaded ::
  "tool_context \<Rightarrow> component list \<Rightarrow> component list \<Rightarrow> component list \<Rightarrow> editable_file \<Rightarrow> tool_action" where
  "move_loaded c root from_cs to_cs original w =
     (if host_exists (tc_machine c) (world_tree w) (path_text to_cs)
      then give (conflict_result root to_cs ''stale'' ''The destination already exists.'') w
      else checked (ensure_edit_not_cancelled c) (\<lambda>_.
           checked (strip_root root from_cs) (\<lambda>source.
           checked (strip_root root to_cs) (\<lambda>destination w.
             on_tree (\<lambda>t. move_workspace_file (tc_machine c) t (path_text root) source destination
                 (ef_raw original))
               ''move file'' (\<lambda>committed.
                 if \<not> committed
                 then give (conflict_result root from_cs ''concurrent_modification''
                   ''The source changed or destination appeared while preparing the move.'')
                 else report_move c from_cs to_cs
                   (rename_result c root from_cs to_cs (ef_raw original)))
               (later c w)))) w)"

definition rename_file :: "tool_context \<Rightarrow> json \<Rightarrow> tool_action" where
  "rename_file c args =
     checked (required_string args ''source_path'' ''rename_file'') (\<lambda>source.
     checked (required_string args ''destination_path'' ''rename_file'') (\<lambda>destination w.
       checked (resolve_existing c (world_tree w) source) (\<lambda>(root, from_cs) w.
       checked (resolve_for_write c (world_tree w) destination) (\<lambda>(_, to_cs) w.
         if \<not> host_is_file (tc_machine c) (world_tree w) (path_text from_cs)
         then (Inl (NotFile (path_text from_cs)), w)
         else edit_loaded c args ''rename_file'' root from_cs (move_loaded c root from_cs to_cs) w) w) w))"

text \<open>The edit tools by the names they are registered under.\<close>

fun edit_tool :: "string \<Rightarrow> tool_context \<Rightarrow> json \<Rightarrow> tool_action" where
  "edit_tool n c args =
     (if n = ''create_file'' then create_file c args
      else if n = ''write_file'' then write_file c args
      else if n = ''apply_patch'' then apply_patch c args
      else if n = ''replace_text'' then replace_text c args
      else if n = ''replace_range'' then replace_range c args
      else if n = ''delete_file'' then delete_file c args
      else rename_file c args)"

end
