(* ===== verification/Tool_Read.thy ===== *)
theory Tool_Read
  imports Tool_Files
begin

section \<open>harness-tools: the tools that read, search and run\<close>

text \<open>
  \<open>read_file\<close>, \<open>list_directory\<close>, \<open>glob\<close>, \<open>grep\<close> and \<open>shell\<close> of \<open>harness-tools/src/filesystem.rs\<close>,
  with the walk over the files of a directory. The patterns of the crates \<open>globset\<close> and \<open>regex\<close>
  and the processes are parameters.
\<close>

record tool_services =
  ts_glob :: "string \<Rightarrow> string + (string \<Rightarrow> bool)"
  ts_regex :: "bool \<Rightarrow> string \<Rightarrow> string + (string \<Rightarrow> bool)"
  ts_run :: process_run

subsection \<open>\<open>read_file\<close>\<close>

definition optional_line :: "json \<Rightarrow> string \<Rightarrow> string \<Rightarrow> tool_error + nat option" where
  "optional_line args key tool =
     (case json_get key args of
        None \<Rightarrow> Inr None | Some _ \<Rightarrow> map_sum id Some (required_line args key tool))"

definition selected_lines :: "component list \<Rightarrow> string \<Rightarrow> nat \<Rightarrow> nat \<Rightarrow> tool_error + string" where
  "selected_lines cs full start end_line =
     (if end_line < start
      then Inl (InvalidArguments ''read_file'' ''end_line must be greater than or equal to start_line'')
      else
        let ranges = line_byte_ranges full in
        if length ranges < start \<or> length ranges < end_line
        then Inl (InvalidArguments ''read_file'' ''requested line range is outside the file'')
        else
          let selected = slice (fst (ranges ! (start - 1))) (snd (ranges ! (end_line - 1))) full in
          if max_file_bytes < length selected then Inl (FileTooLarge (path_text cs) max_file_bytes)
          else Inr selected)"

definition read_result ::
  "tool_context \<Rightarrow> component list \<Rightarrow> component list \<Rightarrow> string \<Rightarrow> string \<Rightarrow> nat option \<Rightarrow> nat option \<Rightarrow> tool_result" where
  "read_result c root cs bytes output start end_line =
     insert_all
       ([(''path'', JString (relative_string root cs)), (''bytes'', json_nat (length bytes)),
         (''revision'', JString (content_revision c bytes))]
        @ (case start of None \<Rightarrow> [] | Some n \<Rightarrow> [(''start_line'', json_nat n)])
        @ (case end_line of None \<Rightarrow> [] | Some n \<Rightarrow> [(''end_line'', json_nat n)]))
       (tool_result_new output)"

definition read_snapshot_lines ::
  "tool_context \<Rightarrow> component list \<Rightarrow> component list \<Rightarrow> nat option \<Rightarrow> nat option \<Rightarrow> tool_action" where
  "read_snapshot_lines c root cs start end_line w =
     (if max_file_bytes < file_length (tc_machine c) (world_tree w) (path_text cs) \<and> start = None
      then (Inl (FileTooLarge (path_text cs) max_file_bytes), w)
      else checked (read_text_snapshot c (world_tree w) root cs ''read_file''
          (if start = None then max_file_bytes else max_edit_file_bytes)) (\<lambda>(bytes, full).
        checked (case (start, end_line) of
            (Some i, Some j) \<Rightarrow> selected_lines cs full i j
          | _ \<Rightarrow> Inr full) (\<lambda>output.
          give (read_result c root cs bytes output start end_line))) w)"

definition read_file :: "tool_context \<Rightarrow> json \<Rightarrow> tool_action" where
  "read_file c args =
     checked (required_path args ''read_file'') (\<lambda>p w.
       checked (resolve_existing c (world_tree w) p) (\<lambda>(root, cs).
       checked (optional_line args ''start_line'' ''read_file'') (\<lambda>start.
       checked (optional_line args ''end_line'' ''read_file'') (\<lambda>end_line w.
         if (start = None) \<noteq> (end_line = None)
         then (Inl (InvalidArguments ''read_file'' ''start_line and end_line must be provided together''), w)
         else read_snapshot_lines c root cs start end_line w))) w)"

subsection \<open>\<open>list_directory\<close>\<close>

definition list_result :: "component list \<Rightarrow> component list \<Rightarrow> nat \<Rightarrow> string list \<Rightarrow> tool_result" where
  "list_result root cs limit entries =
     (insert_all
       [(''path'', JString (relative_string root cs)), (''count'', json_nat (min (length entries) limit))]
       (tool_result_new (join [newline] (take limit entries))))\<lparr>tr_truncated := limit < length entries\<rparr>"

definition entry_line :: "string \<times> inode \<Rightarrow> string" where
  "entry_line e =
     (if snd e = Directory then ''dir'' else ''file'') @ [CHR 0x09] @ from_utf8_lossy (fst e)"

definition list_directory :: "tool_context \<Rightarrow> json \<Rightarrow> tool_action" where
  "list_directory c args =
     checked (optional_string args ''path'' ''.'') (\<lambda>p.
     checked (optional_limit args ''max_entries'' max_results) (\<lambda>limit w.
       checked (resolve_existing c (world_tree w) p) (\<lambda>(root, cs) w.
         if \<not> host_is_dir (tc_machine c) (world_tree w) (path_text cs)
         then (Inl (NotDirectory (path_text cs)), w)
         else case host_entries (tc_machine c) (world_tree w) (path_text cs) of
           Inl err \<Rightarrow> (Inl (io_failure ''list directory'' err), w)
         | Inr entries \<Rightarrow> give (list_result root cs limit (sort (map entry_line entries))) w) w))"

subsection \<open>The files below a directory\<close>

definition max_search_files :: nat where "max_search_files = 20000"
definition max_search_depth :: nat where "max_search_depth = 16"

definition unsearched_names :: "string list" where
  "unsearched_names =
     [''.git'', ''node_modules'', ''target'', ''dist'', ''build'', ''coverage'', ''vendor'', ''.venv'',
      ''venv'', ''__pycache__'']"

definition should_skip :: "string \<Rightarrow> bool" where
  "should_skip name \<longleftrightarrow> name \<in> set unsearched_names"

definition found_files :: "component list \<Rightarrow> (string \<times> inode) list \<Rightarrow> component list list" where
  "found_files dir entries =
     map (\<lambda>(n, _). dir @ [Normal n])
       (filter (\<lambda>(n, x). \<not> should_skip n \<and> (case x of RegularFile _ \<Rightarrow> True | _ \<Rightarrow> False)) entries)"

definition found_directories ::
  "component list \<Rightarrow> nat \<Rightarrow> (string \<times> inode) list \<Rightarrow> (component list \<times> nat) list" where
  "found_directories dir depth entries =
     map (\<lambda>(n, _). (dir @ [Normal n], depth + 1)) (filter (\<lambda>(n, x). \<not> should_skip n \<and> x = Directory) entries)"

definition scan_weight :: "tree \<Rightarrow> (component list \<times> nat) list \<Rightarrow> nat" where
  "scan_weight t pending = sum_list (map (\<lambda>(_, depth). Suc (length t) ^ (18 - depth)) pending)"

lemma length_entries_in: "length (entries_in t dir) \<le> length t"
proof -
  have "length (concat (map (\<lambda>cs. case (if cs = [] then RootDir else last cs) of
      Normal n \<Rightarrow> if butlast cs = dir then (case inode_at t cs of Some x \<Rightarrow> [(n, x)] | None \<Rightarrow> []) else []
    | _ \<Rightarrow> []) css)) \<le> length css" for css
  proof (induction css)
    case (Cons cs css)
    then show ?case by (auto split: component.splits option.splits)
  qed simp
  also have "length (remdups (map fst t)) \<le> length t"
    by (metis length_map length_remdups_leq)
  finally show ?thesis unfolding entries_in_def .
qed

lemma scan_weight_step:
  assumes "host_entries m t p = Inr entries" "depth \<le> 16"
  shows "scan_weight t (rev (found_directories dir depth entries) @ pending) < scan_weight t ((dir, depth) # pending)"
proof -
  let ?k = "Suc (length t)"
  have "length entries \<le> length t"
    using assms(1) length_entries_in by (cases "resolve m t p") (auto simp: host_entries_def split: if_splits)
  then have few: "length (found_directories dir depth entries) \<le> length t"
    unfolding found_directories_def by (metis length_filter_le length_map order_trans)
  have "scan_weight t (found_directories dir depth entries) =
      length (found_directories dir depth entries) * ?k ^ (17 - depth)"
    unfolding scan_weight_def found_directories_def by (induction entries) auto
  also have "\<dots> \<le> length t * ?k ^ (17 - depth)" using few by simp
  also have "\<dots> < ?k * ?k ^ (17 - depth)" by simp
  also have "\<dots> = ?k ^ (18 - depth)" using assms(2) by (metis Suc_diff_le diff_Suc_Suc le_SucI numeral_eq_Suc power_Suc pred_numeral_simps(2) pred_numeral_simps(3) semiring_norm(26) semiring_norm(27) semiring_norm(28))
  finally show ?thesis by (simp add: scan_weight_def rev_map [symmetric])
qed

function collect_pending ::
  "machine \<Rightarrow> tree \<Rightarrow> (component list \<times> nat) list \<Rightarrow> component list list \<Rightarrow> component list list" where
  "collect_pending m t [] found = found"
| "collect_pending m t ((dir, depth) # pending) found =
     (if max_search_depth < depth \<or> max_search_files \<le> length found then collect_pending m t pending found
      else case host_entries m t (path_text dir) of
        Inl _ \<Rightarrow> collect_pending m t pending found
      | Inr entries \<Rightarrow>
          collect_pending m t (rev (found_directories dir depth entries) @ pending)
            (found @ found_files dir entries))"
  by pat_completeness auto
termination
  by (relation "measure (\<lambda>(m, t, pending, found). scan_weight t pending)")
    (auto simp: max_search_depth_def scan_weight_step, auto simp: scan_weight_def)

definition files_below :: "machine \<Rightarrow> tree \<Rightarrow> component list \<Rightarrow> component list list" where
  "files_below m t base = sort (collect_pending m t [(base, 0)] [])"

text \<open>The path of a file as \<open>glob\<close> and \<open>grep\<close> match and report it.\<close>

definition relative_name :: "component list \<Rightarrow> component list \<Rightarrow> string option" where
  "relative_name base cs =
     map_option (\<lambda>p. forward_slashes (from_utf8_lossy p)) (path_strip_prefix (path_text base) (path_text cs))"

subsection \<open>\<open>glob\<close>\<close>

definition pattern_result :: "string \<Rightarrow> string list \<Rightarrow> bool \<Rightarrow> tool_result" where
  "pattern_result pattern shown cut_off =
     (insert_all [(''pattern'', JString pattern), (''count'', json_nat (length shown))]
       (tool_result_new (join [newline] shown)))\<lparr>tr_truncated := cut_off\<rparr>"

definition compiled :: "string \<Rightarrow> string + 'a \<Rightarrow> tool_error + 'a" where
  "compiled tool r = (case r of Inl err \<Rightarrow> Inl (InvalidArguments tool err) | Inr x \<Rightarrow> Inr x)"

definition glob_found :: "component list \<Rightarrow> (string \<Rightarrow> bool) \<Rightarrow> component list list \<Rightarrow> string list" where
  "glob_found base matcher found = sort (filter matcher (List.map_filter (relative_name base) found))"

definition glob_tool :: "tool_services \<Rightarrow> tool_context \<Rightarrow> json \<Rightarrow> tool_action" where
  "glob_tool s c args =
     checked (required_string args ''pattern'' ''glob'') (\<lambda>pattern.
     checked (optional_string args ''path'' ''.'') (\<lambda>p.
     checked (optional_limit args ''max_results'' max_results) (\<lambda>limit w.
       checked (resolve_existing c (world_tree w) p) (\<lambda>(_, base).
       checked (compiled ''glob'' (ts_glob s pattern)) (\<lambda>matcher w.
         let hits = glob_found base matcher (files_below (tc_machine c) (world_tree w) base) in
         if hits = [] then (Inl NoMatches, w)
         else give (pattern_result pattern (take limit hits) (limit < length hits)) w)) w)))"

subsection \<open>\<open>grep\<close>\<close>

definition truncate_line :: "string \<Rightarrow> string" where
  "truncate_line line = (if length line \<le> 500 then line else take (floor_boundary line 500) line)"

definition grep_line :: "string \<Rightarrow> nat \<Rightarrow> string \<Rightarrow> string" where
  "grep_line name n line = name @ '':'' @ show_nat n @ '':'' @ truncate_line line"

text \<open>The lines of a file from line \<open>n\<close>, until the results are full; whether one was left out.\<close>

fun grep_lines ::
  "(string \<Rightarrow> bool) \<Rightarrow> string \<Rightarrow> nat \<Rightarrow> nat \<Rightarrow> string list \<Rightarrow> string list \<Rightarrow> string list \<times> bool" where
  "grep_lines re name limit n [] acc = (acc, False)"
| "grep_lines re name limit n (l # ls) acc =
     (if re l
      then if length acc = limit then (acc, True)
           else grep_lines re name limit (n + 1) ls (acc @ [grep_line name n l])
      else grep_lines re name limit (n + 1) ls acc)"

definition grep_source ::
  "tool_context \<Rightarrow> tree \<Rightarrow> component list \<Rightarrow> component list \<Rightarrow> (string \<Rightarrow> bool) \<Rightarrow> component list \<Rightarrow>
   (string \<times> string list) option" where
  "grep_source c t root base matcher cs =
     (case relative_name base cs of
        None \<Rightarrow> None
      | Some name \<Rightarrow>
          if \<not> matcher name then None
          else case read_text_snapshot c t root cs ''grep'' max_file_bytes of
            Inl _ \<Rightarrow> None
          | Inr (_, contents) \<Rightarrow> Some (name, str_lines contents))"

fun grep_files ::
  "(component list \<Rightarrow> (string \<times> string list) option) \<Rightarrow> (string \<Rightarrow> bool) \<Rightarrow> nat \<Rightarrow>
   component list list \<Rightarrow> string list \<Rightarrow> string list \<times> bool" where
  "grep_files source re limit [] acc = (acc, False)"
| "grep_files source re limit (cs # rest) acc =
     (case source cs of
        None \<Rightarrow> grep_files source re limit rest acc
      | Some (name, ls) \<Rightarrow>
          (case grep_lines re name limit 1 ls acc of
             (acc, True) \<Rightarrow> (acc, True)
           | (acc, False) \<Rightarrow> grep_files source re limit rest acc))"

definition grep_below ::
  "tool_context \<Rightarrow> tree \<Rightarrow> component list \<Rightarrow> component list \<Rightarrow> (string \<Rightarrow> bool) \<Rightarrow> (string \<Rightarrow> bool) \<Rightarrow>
   nat \<Rightarrow> string list \<times> bool" where
  "grep_below c t root base matcher re limit =
     grep_files (grep_source c t root base matcher) re limit (files_below (tc_machine c) t base) []"

definition grep_tool :: "tool_services \<Rightarrow> tool_context \<Rightarrow> json \<Rightarrow> tool_action" where
  "grep_tool s c args =
     checked (required_string args ''pattern'' ''grep'') (\<lambda>pattern.
     checked (optional_string args ''path'' ''.'') (\<lambda>p.
     checked (optional_string args ''glob'' ''*'') (\<lambda>names.
     checked (optional_limit args ''max_results'' max_results) (\<lambda>limit.
     checked (optional_bool args ''case_sensitive'' True) (\<lambda>case_sensitive w.
       checked (resolve_existing c (world_tree w) p) (\<lambda>(root, base).
       checked (compiled ''grep'' (ts_glob s names)) (\<lambda>matcher.
       checked (compiled ''grep'' (ts_regex s (\<not> case_sensitive) pattern)) (\<lambda>re w.
         case grep_below c (world_tree w) root base matcher re limit of (output, cut_off) \<Rightarrow>
           if output = [] then (Inl NoMatches, w)
           else give (pattern_result pattern output cut_off) w))) w)))))"

subsection \<open>\<open>shell\<close> and \<open>run_command\<close>\<close>

definition shell_invocation :: "string \<Rightarrow> string \<Rightarrow> tool_error + string \<times> string list" where
  "shell_invocation shell cmd =
     (if shell = ''auto'' then Inr (''sh'', [''-lc'', cmd])
      else if shell = ''bash'' then Inr (''bash'', [''-lc'', cmd])
      else if shell = ''sh'' then Inr (''sh'', [''-lc'', cmd])
      else if shell = ''cmd'' then Inr (''cmd'', [''/C'', cmd])
      else Inl (InvalidArguments ''shell'' ''shell must be one of auto, bash, sh, or cmd''))"

definition truncate_event :: "string \<Rightarrow> string" where
  "truncate_event v = (if length v \<le> 2048 then v else take (floor_boundary v 2048) v @ ''...[truncated]'')"

fun process_payload :: "string \<Rightarrow> path \<Rightarrow> nat \<Rightarrow> process_event \<Rightarrow> event_payload" where
  "process_payload cmd dir timeout (ProcStarted _) = ProcessStarted cmd dir timeout"
| "process_payload cmd dir timeout (ProcStdout chunk) = ProcessStdout (truncate_event chunk)"
| "process_payload cmd dir timeout (ProcStderr chunk) = ProcessStderr (truncate_event chunk)"
| "process_payload cmd dir timeout (ProcExited r) = ProcessExited (exit_code r) (timed_out r) (proc_cancelled r)"

definition exit_debug :: "int option \<Rightarrow> string" where
  "exit_debug code = (case code of None \<Rightarrow> ''None'' | Some n \<Rightarrow> ''Some('' @ show_int n @ '')'')"

definition shell_output :: "process_result \<Rightarrow> string" where
  "shell_output r =
     (let out = (if proc_stdout r = [] then [] else ''stdout:'' @ [newline] @ proc_stdout r);
          out = out @ (if proc_stderr r = [] then []
            else (if out = [] then [] else [newline]) @ ''stderr:'' @ [newline] @ proc_stderr r)
      in out @
        (if timed_out r then [newline] @ ''process timed out''
         else if proc_cancelled r then [newline] @ ''process cancelled''
         else if \<not> proc_success r
         then (if out = [] then [] else [newline]) @ ''command failed with exit code '' @ exit_debug (exit_code r)
         else []))"

definition shell_result :: "process_result \<Rightarrow> tool_result" where
  "shell_result r =
     insert_all
       [(''exit_code'', case exit_code r of None \<Rightarrow> JNull | Some n \<Rightarrow> JNumber (show_int n)),
        (''success'', JBool (proc_success r)), (''timed_out'', JBool (timed_out r)),
        (''cancelled'', JBool (proc_cancelled r)), (''duration_ms'', json_nat (proc_duration r)),
        (''stdout_bytes'', json_nat (length (proc_stdout r))),
        (''stderr_bytes'', json_nat (length (proc_stderr r)))]
       ((tool_result_new (shell_output r))\<lparr>tr_is_error := \<not> proc_success r\<rparr>)"

definition shell_run ::
  "process_run \<Rightarrow> tool_context \<Rightarrow> string \<Rightarrow> process_request \<Rightarrow> tool_action" where
  "shell_run run c cmd r w =
     (case run r (world_tree w) of (outcome, events, t) \<Rightarrow>
      let w = foldl (\<lambda>w e. tool_emit c (process_payload cmd (pr_directory r) (pr_timeout r) e) w)
            (w\<lparr>world_tree := t\<rparr>) events
      in case outcome of
           Inl err \<Rightarrow> (Inl (ToolProcess (process_error_text err)), w)
         | Inr res \<Rightarrow> give (shell_result res) w)"

definition shell_tool :: "tool_services \<Rightarrow> tool_context \<Rightarrow> json \<Rightarrow> tool_action" where
  "shell_tool s c args =
     checked (required_string args ''command'' ''shell'') (\<lambda>cmd.
     checked (optional_string args ''shell'' ''auto'') (\<lambda>shell.
     checked (shell_invocation (to_ascii_lowercase shell) cmd) (\<lambda>(program, pargs).
     checked (optional_string args ''working_directory'' ''.'') (\<lambda>dir w.
       checked (resolve_existing c (world_tree w) dir) (\<lambda>(root, cs).
       checked (optional_u64 args ''timeout_ms'' 30000 1 600000 ''shell'') (\<lambda>timeout.
       checked (optional_u64 args ''max_output_bytes'' (64 * 1024) 0 (1024 * 1024) ''shell'') (\<lambda>max_output.
         shell_run (spawn_in_workspace (tc_machine c) (path_text root) (ts_run s)) c cmd
           \<lparr>pr_program = program, pr_args = pargs, pr_directory = path_text cs, pr_timeout = timeout,
            pr_max_output = max_output\<rparr>))) w))))"

end
