(* ===== verification/Tool_Registry.thy ===== *)
theory Tool_Registry
  imports Tool_Edit Tool_Read
begin

section \<open>harness-tools: the registry\<close>

text \<open>
  \<open>ToolRegistry\<close> of \<open>harness-tools/src/lib.rs\<close>: what stands between a tool call of the agent and the
  tool. A call is published, put to the policy, executed when the policy allows it, and its result
  published; the revision a file had when it was read is attached to later edits of it. The policy
  keeps a state of its own, which an approval given for one call uses. The index of the repository
  and the tools of other files of the crate are parameters.
\<close>

subsection \<open>The registry and what a call works on\<close>

record registered_tool =
  rt_name :: string
  rt_operation :: operation_kind
  rt_action :: "tool_context \<Rightarrow> json \<Rightarrow> tool_action"

record tool_registry =
  rg_tools :: "registered_tool list"
  rg_diagnostics :: "(tool_context \<Rightarrow> json \<Rightarrow> tool_action) option"

record 'p registry_context =
  rc_tool :: tool_context
  rc_session :: "string option"
  rc_mode :: execution_mode
  rc_evaluate :: "'p \<Rightarrow> policy_request \<Rightarrow> policy_evaluation \<times> 'p"
  rc_secrets :: "string list"
  rc_json_text :: "json \<Rightarrow> string"

record 'p registry_state =
  rs_world :: tool_world
  rs_revisions :: "(string \<times> string) list"
  rs_policy :: 'p

definition register :: "tool_registry \<Rightarrow> registered_tool \<Rightarrow> tool_registry" where
  "register g tool = g\<lparr>rg_tools := rg_tools g @ [tool]\<rparr>"

definition registered :: "tool_registry \<Rightarrow> string \<Rightarrow> registered_tool option" where
  "registered g name = find (\<lambda>tool. rt_name tool = name) (rg_tools g)"

definition registry_names :: "tool_registry \<Rightarrow> string list" where
  "registry_names g = map rt_name (rg_tools g)"

definition operation_for :: "tool_registry \<Rightarrow> string \<Rightarrow> operation_kind option" where
  "operation_for g name = map_option rt_operation (registered g name)"

definition registry_emit ::
  "'p registry_context \<Rightarrow> event_payload \<Rightarrow> 'p registry_state \<Rightarrow> 'p registry_state" where
  "registry_emit c e st = st\<lparr>rs_world := tool_emit (rc_tool c) e (rs_world st)\<rparr>"

subsection \<open>Policy requests\<close>

definition canonical_workspace :: "'p registry_context \<Rightarrow> tree \<Rightarrow> path" where
  "canonical_workspace c t =
     (case Host_Files.canonicalize (tc_machine (rc_tool c)) t (tc_directory (rc_tool c)) of
        Inl _ \<Rightarrow> tc_directory (rc_tool c) | Inr p \<Rightarrow> p)"

definition path_argument :: "operation_kind \<Rightarrow> json \<Rightarrow> string option" where
  "path_argument operation args =
     (let given = (case json_get ''path'' args of None \<Rightarrow> json_get ''working_directory'' args | Some v \<Rightarrow> Some v)
      in case Option.bind given json_str of
           Some p \<Rightarrow> Some p
         | None \<Rightarrow> if operation = Read \<or> operation = Search then Some ''.'' else None)"

definition build_policy_request ::
  "'p registry_context \<Rightarrow> tree \<Rightarrow> string \<Rightarrow> registered_tool \<Rightarrow> json \<Rightarrow> policy_request" where
  "build_policy_request c t name tool args =
     (let root = canonical_workspace c t
      in \<lparr>tool_name = name, request_operation = rt_operation tool, workspace_root = root,
          request_path = map_option (path_join root) (path_argument (rt_operation tool) args),
          request_command = Option.bind (json_get ''command'' args) json_str, request_mode = rc_mode c\<rparr>)"

definition build_policy_request_for_path ::
  "'p registry_context \<Rightarrow> tree \<Rightarrow> string \<Rightarrow> registered_tool \<Rightarrow> string option \<Rightarrow> policy_request" where
  "build_policy_request_for_path c t name tool rel =
     (let root = canonical_workspace c t
      in \<lparr>tool_name = name, request_operation = rt_operation tool, workspace_root = root,
          request_path = map_option (path_join root) rel, request_command = None, request_mode = rc_mode c\<rparr>)"

definition destination_request ::
  "'p registry_context \<Rightarrow> tree \<Rightarrow> string \<Rightarrow> registered_tool \<Rightarrow> json \<Rightarrow> policy_request" where
  "destination_request c t name tool args =
     build_policy_request_for_path c t name tool (Option.bind (json_get ''destination_path'' args) json_str)"

definition not_registered :: "string \<Rightarrow> harness_error" where
  "not_registered name = ToolError name ''tool is not registered''"

definition registry_policy_requests ::
  "tool_registry \<Rightarrow> 'p registry_context \<Rightarrow> tree \<Rightarrow> tool_request \<Rightarrow> harness_error + policy_request list" where
  "registry_policy_requests g c t r =
     (case registered g (tool_request_name r) of
        None \<Rightarrow> Inl (not_registered (tool_request_name r))
      | Some tool \<Rightarrow>
          Inr (build_policy_request c t (tool_request_name r) tool (tool_arguments r) #
            (if tool_request_name r = ''rename_file''
             then [destination_request c t (tool_request_name r) tool (tool_arguments r)] else [])))"

definition registry_preflight ::
  "tool_registry \<Rightarrow> 'p registry_context \<Rightarrow> tree \<Rightarrow> 'p \<Rightarrow> tool_request \<Rightarrow>
   (harness_error + policy_evaluation) \<times> 'p" where
  "registry_preflight g c t pol r =
     (case registered g (tool_request_name r) of
        None \<Rightarrow> (Inl (not_registered (tool_request_name r)), pol)
      | Some tool \<Rightarrow>
          (case rc_evaluate c pol (build_policy_request c t (tool_request_name r) tool (tool_arguments r)) of
             (ev, pol) \<Rightarrow>
               if decision ev \<noteq> Allow \<or> tool_request_name r \<noteq> ''rename_file'' then (Inr ev, pol)
               else case rc_evaluate c pol (destination_request c t (tool_request_name r) tool (tool_arguments r)) of
                 (dest, pol) \<Rightarrow> (Inr (if decision dest = Allow then ev else dest), pol)))"

subsection \<open>What the events say\<close>

abbreviation concise_event_value :: "string \<Rightarrow> string" where
  "concise_event_value \<equiv> truncate_event"

definition event_arguments :: "'p registry_context \<Rightarrow> json \<Rightarrow> (string \<times> string) list" where
  "event_arguments c args =
     (case args of
        JObject kvs \<Rightarrow> map (\<lambda>(k, v).
          (k, concise_event_value (redact_sensitive (rc_secrets c)
            (case v of JString s \<Rightarrow> s | _ \<Rightarrow> rc_json_text c v)))) kvs
      | _ \<Rightarrow> [])"

definition decision_event :: "string \<Rightarrow> policy_request \<Rightarrow> policy_evaluation \<Rightarrow> event_payload" where
  "decision_event name r ev =
     PolicyDecisionEvent name (decision_text (decision ev)) (reason_of ev) (rule_of ev)
       (operation_name (request_operation r)) (to_ascii_lowercase (mode_text (request_mode r)))
       (map risk_text (risk_categories r))"

subsection \<open>Revisions of the files that were read\<close>

definition revision_key :: "'p registry_context \<Rightarrow> tree \<Rightarrow> string \<Rightarrow> string" where
  "revision_key c t p =
     from_utf8_lossy (canonical_workspace c t) @ [CHR 0x00]
     @ (case rc_session c of None \<Rightarrow> [] | Some s \<Rightarrow> s) @ [CHR 0x00] @ forward_slashes p"

definition revision_tools :: "string list" where
  "revision_tools =
     [''write_file'', ''apply_patch'', ''replace_text'', ''replace_range'', ''delete_file'', ''rename_file'']"

definition attach_read_revision ::
  "'p registry_context \<Rightarrow> string \<Rightarrow> json \<Rightarrow> 'p registry_state \<Rightarrow> json" where
  "attach_read_revision c name args st =
     (if name \<notin> set revision_tools then args
      else case args of
        JObject kvs \<Rightarrow>
          if map_of kvs ''expected_revision'' \<noteq> None then args
          else (case Option.bind (map_of kvs (if name = ''rename_file'' then ''source_path'' else ''path'')) json_str of
              None \<Rightarrow> args
            | Some source \<Rightarrow>
                (case map_of (rs_revisions st) (revision_key c (world_tree (rs_world st)) source) of
                   None \<Rightarrow> args
                 | Some rv \<Rightarrow> JObject (AList.update ''expected_revision'' (JString rv) kvs)))
      | _ \<Rightarrow> args)"

definition metadata_text :: "tool_result \<Rightarrow> string \<Rightarrow> string option" where
  "metadata_text r key = Option.bind (map_of (tr_metadata r) key) json_str"

definition revisions_after_edit ::
  "(string \<Rightarrow> string) \<Rightarrow> tool_result \<Rightarrow> (string \<times> string) list \<Rightarrow> (string \<times> string) list" where
  "revisions_after_edit key r revs =
     (let revs = (case metadata_text r ''old_file'' of None \<Rightarrow> revs | Some p \<Rightarrow> AList.delete (key p) revs)
      in case metadata_text r ''file'' of
           None \<Rightarrow> revs
         | Some p \<Rightarrow>
             (case metadata_text r ''revision'' of
                Some rv \<Rightarrow> AList.update (key p) rv revs
              | None \<Rightarrow> AList.delete (key p) revs))"

definition update_read_revisions ::
  "'p registry_context \<Rightarrow> string \<Rightarrow> tool_result \<Rightarrow> 'p registry_state \<Rightarrow> 'p registry_state" where
  "update_read_revisions c name r st =
     (let key = revision_key c (world_tree (rs_world st)) in
      if tr_is_error r then st
      else if name = ''read_file''
      then (case (metadata_text r ''path'', metadata_text r ''revision'') of
          (Some p, Some rv) \<Rightarrow> st\<lparr>rs_revisions := AList.update (key p) rv (rs_revisions st)\<rparr>
        | _ \<Rightarrow> st)
      else st\<lparr>rs_revisions := revisions_after_edit key r (rs_revisions st)\<rparr>)"

subsection \<open>Diagnostics of changed files\<close>

definition index_extensions :: "string list" where
  "index_extensions = [''rs'', ''ts'', ''tsx'', ''js'', ''jsx'', ''py'']"

definition diagnostic_path :: "tool_context \<Rightarrow> tree \<Rightarrow> path list \<Rightarrow> path option" where
  "diagnostic_path c t =
     find (\<lambda>p. host_is_file (tc_machine c) t p \<and>
       (case path_extension p of None \<Rightarrow> False | Some ext \<Rightarrow> ext \<in> set index_extensions))"

definition take_chars :: "nat \<Rightarrow> string \<Rightarrow> string" where
  "take_chars n s = concat (take n (utf8_chars s))"

definition with_diagnostics :: "string \<Rightarrow> tool_result \<Rightarrow> tool_result" where
  "with_diagnostics detail r =
     (let r = insert_metadata ''diagnostics''
            (JObject [(''detail'', JString detail), (''status'', JString ''best_effort'')]) r
      in if detail = [] then r
         else r\<lparr>tr_output := tr_output r @ [newline] @ ''Diagnostics: '' @ take_chars 1500 detail\<rparr>)"

definition index_refreshed :: "tool_result \<Rightarrow> tool_result" where
  "index_refreshed =
     insert_metadata ''diagnostics''
       (JObject [(''detail'', JString ''Changed files are ready for symbol and outline queries.''),
         (''status'', JString ''repository_index_refreshed'')])"

definition diagnose ::
  "tool_registry \<Rightarrow> 'p registry_context \<Rightarrow> tool_result \<Rightarrow> 'p registry_state \<Rightarrow> tool_result \<times> 'p registry_state" where
  "diagnose g c r st =
     (case (if tr_changed_files r = [] then None else rg_diagnostics g) of
        None \<Rightarrow> (r, st)
      | Some run \<Rightarrow>
          (case diagnostic_path (rc_tool c) (world_tree (rs_world st)) (tr_changed_files r) of
             None \<Rightarrow> (index_refreshed r, st)
           | Some p \<Rightarrow>
               let root = canonical_workspace c (world_tree (rs_world st));
                   rel = forward_slashes (from_utf8_lossy
                     (case path_strip_prefix root p of None \<Rightarrow> p | Some q \<Rightarrow> q))
               in case run (rc_tool c) (JObject [(''path'', JString rel), (''quick'', JBool True)]) (rs_world st) of
                    (outcome, w) \<Rightarrow>
                      (with_diagnostics
                        (case outcome of Inr d \<Rightarrow> tr_output d
                         | Inl err \<Rightarrow> ''Quick diagnostics unavailable: '' @ tool_error_text err) r,
                       st\<lparr>rs_world := w\<rparr>)))"

subsection \<open>Executing a call\<close>

text \<open>The policy is asked and its answer published; the answer is the evaluation when it allows.\<close>

definition judge ::
  "'p registry_context \<Rightarrow> string \<Rightarrow> string \<Rightarrow> policy_request \<Rightarrow> 'p registry_state \<Rightarrow>
   (harness_error + policy_evaluation) \<times> 'p registry_state" where
  "judge c name capability r st =
     (case rc_evaluate c (rs_policy st) r of
        (ev, pol) \<Rightarrow>
          let st = registry_emit c (decision_event name r ev) (st\<lparr>rs_policy := pol\<rparr>)
          in case decision ev of
               Deny \<Rightarrow> (Inl (PermissionDenied capability),
                 registry_emit c (ToolDenied name (harness_error_text (PermissionDenied capability))) st)
             | Ask \<Rightarrow> (Inl (PermissionRequired capability (reason_of ev)), st)
             | Allow \<Rightarrow> (Inr ev, st))"

definition judge_call ::
  "'p registry_context \<Rightarrow> string \<Rightarrow> registered_tool \<Rightarrow> json \<Rightarrow> 'p registry_state \<Rightarrow>
   (harness_error + policy_evaluation) \<times> 'p registry_state" where
  "judge_call c name tool args st =
     (let operation = operation_name (rt_operation tool); t = world_tree (rs_world st) in
      case judge c name (operation @ '' '' @ name) (build_policy_request c t name tool args) st of
        (Inl err, st) \<Rightarrow> (Inl err, st)
      | (Inr ev, st) \<Rightarrow>
          if name \<noteq> ''rename_file'' then (Inr ev, st)
          else (case judge c name (operation @ '' destination'') (destination_request c t name tool args) st of
              (Inl err, st) \<Rightarrow> (Inl err, st)
            | (Inr _, st) \<Rightarrow> (Inr ev, st)))"

definition finish_call ::
  "tool_registry \<Rightarrow> 'p registry_context \<Rightarrow> string \<Rightarrow> tool_error + tool_result \<Rightarrow> 'p registry_state \<Rightarrow>
   (harness_error + tool_result) \<times> 'p registry_state" where
  "finish_call g c name outcome st =
     (case outcome of
        Inl err \<Rightarrow> (Inl (ToolError name (tool_error_text err)),
          registry_emit c (ToolFailed name (tool_error_text err)) st)
      | Inr r \<Rightarrow>
          (case diagnose g c r (update_read_revisions c name r st) of
             (r, st) \<Rightarrow> (Inr r,
               registry_emit c (ToolCompleted name)
                 (registry_emit c (ToolOutput name (concise_event_value (tr_output r))) st))))"

definition run_allowed ::
  "tool_registry \<Rightarrow> 'p registry_context \<Rightarrow> string \<Rightarrow> registered_tool \<Rightarrow> json \<Rightarrow> policy_evaluation \<Rightarrow>
   'p registry_state \<Rightarrow> (harness_error + tool_result) \<times> 'p registry_state" where
  "run_allowed g c name tool args ev st =
     (let st = registry_emit c (ToolStarted name) (registry_emit c (ToolApproved name (Some (rule_of ev))) st)
      in case rt_action tool (rc_tool c) args (rs_world st) of
           (outcome, w) \<Rightarrow> finish_call g c name outcome (st\<lparr>rs_world := w\<rparr>))"

definition registry_execute ::
  "tool_registry \<Rightarrow> 'p registry_context \<Rightarrow> tool_request \<Rightarrow> 'p registry_state \<Rightarrow>
   (harness_error + tool_result) \<times> 'p registry_state" where
  "registry_execute g c r st =
     (let name = tool_request_name r;
          st = registry_emit c (ToolRequested name (event_arguments c (tool_arguments r))) st in
      case registered g name of
        None \<Rightarrow> (Inl (not_registered name),
          registry_emit c (ToolFailed name (harness_error_text (not_registered name))) st)
      | Some tool \<Rightarrow>
          let args = attach_read_revision c name (tool_arguments r) st in
          (case judge_call c name tool args st of
             (Inl err, st) \<Rightarrow> (Inl err, st)
           | (Inr ev, st) \<Rightarrow> run_allowed g c name tool args ev st))"

subsection \<open>The registries of the harness\<close>

definition file_tool ::
  "string \<Rightarrow> operation_kind \<Rightarrow> (tool_context \<Rightarrow> json \<Rightarrow> tool_action) \<Rightarrow> registered_tool" where
  "file_tool name operation act = \<lparr>rt_name = name, rt_operation = operation, rt_action = act\<rparr>"

definition workspace_tools ::
  "tool_services \<Rightarrow> registered_tool list \<Rightarrow> (tool_context \<Rightarrow> json \<Rightarrow> tool_action) option \<Rightarrow> tool_registry" where
  "workspace_tools s others diagnostics =
     \<lparr>rg_tools =
        [file_tool ''read_file'' Read read_file, file_tool ''create_file'' Write create_file,
         file_tool ''write_file'' Write write_file, file_tool ''apply_patch'' Patch apply_patch,
         file_tool ''replace_text'' Patch replace_text, file_tool ''replace_range'' Patch replace_range,
         file_tool ''delete_file'' Write delete_file, file_tool ''rename_file'' Write rename_file,
         file_tool ''list_directory'' Read list_directory, file_tool ''glob'' Read (glob_tool s),
         file_tool ''grep'' Read (grep_tool s), file_tool ''shell'' Command (shell_tool s),
         file_tool ''run_command'' Command (shell_tool s)] @ others,
      rg_diagnostics = diagnostics\<rparr>"

definition read_only_tools ::
  "tool_services \<Rightarrow> registered_tool list \<Rightarrow> (tool_context \<Rightarrow> json \<Rightarrow> tool_action) option \<Rightarrow> tool_registry" where
  "read_only_tools s others diagnostics =
     \<lparr>rg_tools =
        [file_tool ''read_file'' Read read_file, file_tool ''list_directory'' Read list_directory,
         file_tool ''glob'' Read (glob_tool s), file_tool ''grep'' Read (grep_tool s)] @ others,
      rg_diagnostics = diagnostics\<rparr>"

end
