(* ===== verification/Tool_Environment_Laws.thy ===== *)
theory Tool_Environment_Laws
  imports Tool_Environment
begin

section \<open>Laws of the execution environment\<close>

text \<open>
  Where the operations on files arrive: a path that exists resolves to a place in the workspace,
  and the missing part of another lies below such a place, unless the links on the way exceed the
  limit of the system. From this follows that an operation changes nothing outside the root.
\<close>

subsection \<open>Walking\<close>

lemma walk_skip:
  "inode_at t cur = Some Directory \<Longrightarrow> p = [] \<or> p = ''.'' \<Longrightarrow> walk t k cur (p # ps) = walk t k cur ps"
  by auto

lemma walk_up:
  "inode_at t cur = Some Directory \<Longrightarrow> walk t k cur (''..'' # ps) = walk t k (pop_component cur) ps"
  by simp

lemma walk_enter:
  assumes "inode_at t cur = Some Directory" "p \<notin> {[], ''.'', ''..''}"
  shows "walk t k cur (p # ps) =
    (case inode_at t (cur @ [Normal p]) of
       None \<Rightarrow> Inl no_such_file
     | Some (SymLink target) \<Rightarrow>
         if k = 0 then Inl too_many_links
         else walk t (k - 1) (if is_absolute target then [RootDir] else cur) (path_pieces target @ ps)
     | Some _ \<Rightarrow> walk t k (cur @ [Normal p]) ps)"
  using assms by auto

lemma walk_stuck: "inode_at t cur \<noteq> Some Directory \<Longrightarrow> walk t k cur (p # ps) = Inl not_a_directory"
  by simp

lemma walk_link:
  assumes "inode_at t cur = Some Directory" "p \<notin> {[], ''.'', ''..''}"
    "inode_at t (cur @ [Normal p]) = Some (SymLink target)"
  shows "walk t (Suc k) cur (p # ps) =
    walk t k (if is_absolute target then [RootDir] else cur) (path_pieces target @ ps)"
  using assms by simp

lemma walk_into:
  assumes "inode_at t cur = Some Directory" "p \<notin> {[], ''.'', ''..''}"
    "inode_at t (cur @ [Normal p]) = Some x" "\<forall>target. x \<noteq> SymLink target"
  shows "walk t k cur (p # ps) = walk t k (cur @ [Normal p]) ps"
  using assms by (cases x) auto

lemmas walk_steps = walk_stuck walk_skip walk_up walk_enter

text \<open>The induction over a walk, one case for each way a step can go on.\<close>

lemma walk_induct [case_names Done File Skip Up Missing Exhausted Link Enter]:
  assumes "\<And>k cur. P k cur []"
    and "\<And>k cur p ps. inode_at t cur \<noteq> Some Directory \<Longrightarrow> P k cur (p # ps)"
    and "\<And>k cur p ps. inode_at t cur = Some Directory \<Longrightarrow> p = [] \<or> p = ''.'' \<Longrightarrow> P k cur ps \<Longrightarrow>
      P k cur (p # ps)"
    and "\<And>k cur ps. inode_at t cur = Some Directory \<Longrightarrow> P k (pop_component cur) ps \<Longrightarrow>
      P k cur (''..'' # ps)"
    and "\<And>k cur p ps. inode_at t cur = Some Directory \<Longrightarrow> p \<notin> {[], ''.'', ''..''} \<Longrightarrow>
      inode_at t (cur @ [Normal p]) = None \<Longrightarrow> P k cur (p # ps)"
    and "\<And>cur p ps target. inode_at t cur = Some Directory \<Longrightarrow> p \<notin> {[], ''.'', ''..''} \<Longrightarrow>
      inode_at t (cur @ [Normal p]) = Some (SymLink target) \<Longrightarrow> P 0 cur (p # ps)"
    and "\<And>k cur p ps target. inode_at t cur = Some Directory \<Longrightarrow> p \<notin> {[], ''.'', ''..''} \<Longrightarrow>
      inode_at t (cur @ [Normal p]) = Some (SymLink target) \<Longrightarrow>
      P k (if is_absolute target then [RootDir] else cur) (path_pieces target @ ps) \<Longrightarrow>
      P (Suc k) cur (p # ps)"
    and "\<And>k cur p ps x. inode_at t cur = Some Directory \<Longrightarrow> p \<notin> {[], ''.'', ''..''} \<Longrightarrow>
      inode_at t (cur @ [Normal p]) = Some x \<Longrightarrow> (\<forall>target. x \<noteq> SymLink target) \<Longrightarrow>
      P k (cur @ [Normal p]) ps \<Longrightarrow> P k cur (p # ps)"
  shows "P k cur ps"
proof -
  have "t' = t \<longrightarrow> P k cur ps" for t'
  proof (induction t' k cur ps rule: walk.induct)
    case (1 t' k cur)
    then show ?case using assms(1) by simp
  next
    case (2 t' k cur p ps)
    consider "inode_at t cur \<noteq> Some Directory" | "p = [] \<or> p = ''.''" "inode_at t cur = Some Directory"
      | "p = ''..''" "inode_at t cur = Some Directory"
      | "p \<notin> {[], ''.'', ''..''}" "inode_at t cur = Some Directory" by auto
    then show ?case
    proof cases
      case 1
      then show ?thesis using assms(2) by simp
    next
      case c: 2
      then show ?thesis using assms(3) [OF c(2,1)] 2(1) by simp
    next
      case c: 3
      then show ?thesis using assms(4) [OF c(2)] 2(2) by simp
    next
      case c: 4
      show ?thesis
      proof (cases "inode_at t (cur @ [Normal p])")
        case None
        then show ?thesis using assms(5) c by simp
      next
        case (Some x)
        show ?thesis
        proof (cases x)
          case (SymLink target)
          with Some c assms(6) assms(7) [OF c(2,1), of target] 2(3-) show ?thesis
            by (cases k) auto
        qed (use Some c assms(8) [OF c(2,1) Some] 2(3-) in auto)
      qed
    qed
  qed
  then show ?thesis by simp
qed

lemma walk_split:
  "(\<exists>err. walk t k cur ps = Inl err \<and> walk t k cur (ps @ qs) = Inl err) \<or>
   (\<exists>cs k'. k' \<le> k \<and> walk t k cur ps = Inr cs \<and> walk t k cur (ps @ qs) = walk t k' cs qs)"
proof (induction k cur ps rule: walk_induct [where t = t])
  case (Link k cur p ps target)
  then show ?case
    unfolding append_Cons walk_link [OF Link.hyps] append_assoc by (metis le_SucI)
next
  case (Enter k cur p ps x)
  then show ?case unfolding append_Cons walk_into [OF Enter.hyps] by blast
qed (auto simp: walk_steps simp del: walk.simps(2))

lemma walk_more_links:
  "walk t k cur ps \<noteq> Inl too_many_links \<Longrightarrow> k \<le> k' \<Longrightarrow> walk t k' cur ps = walk t k cur ps"
proof (induction k cur ps arbitrary: k' rule: walk_induct [where t = t])
  case (Skip k cur p ps)
  then show ?case unfolding walk_skip [OF Skip.hyps] by blast
next
  case (Up k cur ps)
  then show ?case unfolding walk_up [OF Up.hyps] by blast
next
  case (Link k cur p ps target)
  from Link.prems(2) obtain j where j: "k' = Suc j" "k \<le> j" by (cases k') auto
  from Link.IH [OF Link.prems(1) [unfolded walk_link [OF Link.hyps]] j(2)]
  show ?case unfolding j(1) walk_link [OF Link.hyps] .
next
  case (Enter k cur p ps x)
  from Enter.IH [OF Enter.prems(1) [unfolded walk_into [OF Enter.hyps]] Enter.prems(2)]
  show ?case unfolding walk_into [OF Enter.hyps] .
qed (auto simp: walk_steps simp del: walk.simps(2))

lemma resolve_body:
  assumes "list_all body_component body"
  shows "resolve m t (path_text (RootDir # body)) = walk t max_links [RootDir] (map body_name body)"
proof -
  note names = body_names [OF assms]
  have text_eq: "path_text (RootDir # body) = slash # join [slash] (map body_name body)"
    by (simp add: path_text_def names(4,5))
  have "path_pieces (slash # join [slash] (map body_name body)) =
      [] # (if body = [] then [[]] else map body_name body)"
    using names(1) by (simp add: path_pieces_def split_on_join)
  then show ?thesis unfolding resolve_def text_eq is_absolute_def by simp
qed

lemma components_join_rooted:
  assumes "is_absolute root" "\<not> is_absolute rel"
  shows "components (path_join root rel) =
    components root @ map piece_component (filter (\<lambda>s. s \<noteq> [] \<and> s \<noteq> ''.'') (path_pieces rel))"
proof -
  obtain r where r: "root = slash # r" using assms(1) by (auto simp: is_absolute_def prefix_def)
  show ?thesis
  proof (cases "ends_with root [slash]")
    case True
    then obtain q where q: "root = q @ [slash]" by (auto simp: suffix_def)
    have "is_absolute (root @ rel)" using assms(1) by (auto simp: is_absolute_def)
    with q assms show ?thesis
      by (simp add: path_join_def components_def Let_def path_pieces_def split_on_sep [of _ slash])
  next
    case False
    have "is_absolute (root @ [slash] @ rel)" using assms(1) by (auto simp: is_absolute_def)
    with r False assms show ?thesis
      using split_on_sep [of "\<lambda>c. c = slash" slash root rel]
      by (simp add: path_join_def components_def Let_def path_pieces_def)
  qed
qed

subsection \<open>Where a path leads\<close>

lemma machine_okD: "machine_ok m t \<Longrightarrow> tree_ok t \<and> real t (cwd m)"
  by (simp add: machine_ok_def real_directory)


lemma last_component_proper:
  assumes "file_name p = Some n"
  shows "proper_name n"
proof (rule components_body [of p])
  fix front body
  assume *: "components p = front @ body" "list_all body_component body"
    "front = [] \<or> front = [RootDir] \<or> front = [CurDir]"
  from assms have "components p \<noteq> []" "last (components p) = Normal n"
    by (auto simp: file_name_def Let_def split: if_splits component.splits)
  with * have "body \<noteq> []" "last body = Normal n" by (auto simp: last_append split: if_splits)
  with *(2) show ?thesis by (cases body rule: rev_cases) (auto simp: body_component_def)
qed

lemma nearest_existing_spec:
  assumes "nearest_existing m t p acc = Some (e, names)"
    "components p = RootDir # body"
  shows "\<exists>pre ns. names = ns @ acc \<and> list_all proper_name ns \<and> host_exists m t e \<and>
    body = pre @ map Normal ns \<and>
    (if ns = [] then e = p else e = path_text (RootDir # pre) \<and> \<not> host_exists m t p) \<and>
    (length ns \<ge> 2 \<longrightarrow> \<not> host_exists m t (path_text (RootDir # pre @ [Normal (hd ns)])))"
  using assms
proof (induction m t p acc arbitrary: body rule: nearest_existing.induct)
  case (1 m t p acc)
  show ?case
  proof (cases "host_exists m t p")
    case True
    with "1.prems"(1) have "e = p" "names = acc"
      by (simp_all add: nearest_existing.simps [of m t p])
    with True "1.prems"(2) show ?thesis by (intro exI [of _ body] exI [of _ "[]"]) simp
  next
    case False
    with "1.prems"(1) obtain n where n: "file_name p = Some n"
      and rec: "nearest_existing m t (path_text (butlast (components p))) (n # acc) = Some (e, names)"
      by (auto simp: nearest_existing.simps [of m t p] split: option.splits)
    from n "1.prems"(2) obtain front where body: "body = front @ [Normal n]"
      by (cases body rule: rev_cases) (auto simp: file_name_def split: component.splits)
    have proper: "proper_name n"
      using last_component_proper n "1.prems"(2) body by simp
    have "components (path_text (butlast (components p))) = RootDir # front"
      unfolding components_butlast by (simp add: "1.prems"(2) body)
    from "1.IH" [OF False n rec this] obtain pre ns where *: "names = ns @ n # acc" "list_all proper_name ns"
        "host_exists m t e" "front = pre @ map Normal ns"
        "if ns = [] then e = path_text (butlast (components p))
         else e = path_text (RootDir # pre) \<and> \<not> host_exists m t (path_text (butlast (components p)))"
        "length ns \<ge> 2 \<longrightarrow> \<not> host_exists m t (path_text (RootDir # pre @ [Normal (hd ns)]))"
      by blast
    have "\<not> host_exists m t (path_text (RootDir # pre @ [Normal (hd ns)]))" if "ns \<noteq> []"
    proof (cases "length ns \<ge> 2")
      case False
      with that have "ns = [hd ns]" by (cases ns; cases "tl ns") auto
      then have "front = pre @ [Normal (hd ns)]" using *(4) by (metis list.simps(8,9))
      with *(5) that show ?thesis by (simp add: "1.prems"(2) body butlast_append)
    qed (use *(6) in blast)
    with * body proper False show ?thesis
      by (intro exI [of _ pre] exI [of _ "ns @ [n]"])
        (cases "ns = []"; auto simp: "1.prems"(2))
  qed
qed

text \<open>A place a path leads to: a resolved directory in the workspace and missing names below it.\<close>

definition lies_below ::
  "machine \<Rightarrow> tree \<Rightarrow> component list \<Rightarrow> component list \<Rightarrow> string list \<Rightarrow> bool" where
  "lies_below m t root base names \<longleftrightarrow>
     prefix root base \<and> real t base \<and> list_all proper_name names \<and>
     (length names \<ge> 2 \<longrightarrow> \<not> host_exists m t (path_text (base @ [Normal (hd names)])))"

text \<open>Following the names of a path does not meet more links than the system allows.\<close>

definition within_links :: "machine \<Rightarrow> tree \<Rightarrow> path \<Rightarrow> bool" where
  "within_links m t p \<longleftrightarrow> resolve m t (path_text (components p)) \<noteq> Inl too_many_links"

lemma host_exists_resolve:
  assumes "machine_ok m t"
  shows "host_exists m t p \<longleftrightarrow> is_ok (resolve m t p)"
proof (cases "resolve m t p")
  case (Inr cs)
  with resolve_real [of t m p cs] machine_okD [OF assms] have "inode_at t cs \<noteq> None"
    by (auto simp: real_def)
  with Inr show ?thesis by (auto simp: host_exists_def inode_of_def)
qed (simp add: host_exists_def inode_of_def)

lemma body_of_components:
  assumes "components p = RootDir # body"
  shows "list_all body_component body"
proof (rule components_body [of p])
  fix front rest
  assume "components p = front @ rest" "list_all body_component rest"
    "front = [] \<or> front = [RootDir] \<or> front = [CurDir]"
  with assms show ?thesis by (auto simp: body_component_def)
qed

lemma resolve_missing_path_below:
  assumes "machine_ok m t" "components p = RootDir # body" "within_links m t p"
    "resolve_missing_path m t root p = Inr cs"
  shows "\<exists>base names. cs = base @ map Normal names \<and> lies_below m t root base names \<and>
    resolve m t (path_text cs) \<noteq> Inl too_many_links"
proof -
  from assms(4) obtain e names base where e: "nearest_existing m t p [] = Some (e, names)"
      "resolve m t e = Inr base" "prefix root base" "cs = base @ map Normal names"
    by (auto simp: resolve_missing_path_def split: option.splits if_splits)
  from nearest_existing_spec [OF e(1) assms(2)] obtain pre where pre: "list_all proper_name names"
      "body = pre @ map Normal names"
      "if names = [] then e = p else e = path_text (RootDir # pre) \<and> \<not> host_exists m t p"
      "length names \<ge> 2 \<longrightarrow> \<not> host_exists m t (path_text (RootDir # pre @ [Normal (hd names)]))"
    by auto
  have t: "tree_ok t" "real t base"
    using machine_okD [OF assms(1)] resolve_real [OF _ e(2)] by simp_all
  have "\<not> host_exists m t (path_text (base @ [Normal (hd names)]))" if two: "length names \<ge> 2"
  proof -
    obtain n ns where names: "names = n # ns" using two by (cases names) auto
    have body: "list_all body_component pre" "list_all body_component (pre @ [Normal n])"
        "list_all body_component body"
      using body_of_components [OF assms(2)] pre(2) names by simp_all
    have "walk t max_links [RootDir] (map body_name pre) = Inr base"
      using e(2) pre(3) names resolve_body [OF body(1), of m t] by simp
    with walk_split [of t max_links "[RootDir]" "map body_name pre" "[n]"] obtain k where
        k: "k \<le> max_links" "walk t max_links [RootDir] (map body_name (pre @ [Normal n])) = walk t k base [n]"
      by (auto simp: body_name_def)
    have "\<not> is_ok (walk t max_links [RootDir] (map body_name (pre @ [Normal n])))"
      using pre(4) two names resolve_body [OF body(2), of m t] host_exists_resolve [OF assms(1)] by simp
    with walk_split [of t max_links "[RootDir]" "map body_name (pre @ [Normal n])" ns]
    have "walk t max_links [RootDir] (map body_name (pre @ [Normal n])) =
        walk t max_links [RootDir] (map body_name body)"
      by (auto simp: pre(2) names is_ok_iff body_name_def comp_def)
    then have "walk t k base [n] \<noteq> Inl too_many_links" and "\<not> is_ok (walk t k base [n])"
      using k(2) assms(3) resolve_body [OF body(3), of m t] assms(2)
        \<open>\<not> is_ok (walk t max_links [RootDir] (map body_name (pre @ [Normal n])))\<close>
      by (simp_all add: within_links_def del: walk.simps)
    with walk_more_links [OF _ k(1)] have "\<not> is_ok (walk t max_links base [n])" by metis
    then show ?thesis
      using resolve_below [OF t, of "[n]" m] pre(1) names host_exists_resolve [OF assms(1)]
      by (simp del: walk.simps)
  qed
  moreover have "resolve m t (path_text cs) \<noteq> Inl too_many_links"
  proof -
    have body: "list_all body_component pre" "list_all body_component body"
      using body_of_components [OF assms(2)] pre(2) by simp_all
    show ?thesis
    proof (cases "names = []")
      case False
      then have "walk t max_links [RootDir] (map body_name pre) = Inr base"
        using e(2) pre(3) resolve_body [OF body(1), of m t] by simp
      with walk_split [of t max_links "[RootDir]" "map body_name pre" names] obtain k where
          k: "k \<le> max_links" "walk t max_links [RootDir] (map body_name body) = walk t k base names"
        by (auto simp: pre(2) body_name_def comp_def)
      with assms(3) resolve_body [OF body(2), of m t] have "walk t k base names \<noteq> Inl too_many_links"
        by (simp add: within_links_def assms(2))
      with walk_more_links [OF this k(1)] show ?thesis
        using resolve_below [OF t pre(1), of m] e(4) by simp
    qed (use resolve_path_text [OF t] e(4) in simp)
  qed
  ultimately show ?thesis using e pre(1) t by (auto simp: lies_below_def)
qed

subsection \<open>What an operation changes\<close>

text \<open>No other process changes the tree while an operation runs.\<close>

definition undisturbed :: "machine \<Rightarrow> bool" where
  "undisturbed m \<longleftrightarrow> (\<forall>k t. meanwhile m k t = t)"

lemma real_only_dirs: "only_dirs_added t t' \<Longrightarrow> real t cs \<Longrightarrow> real t' cs"
  unfolding only_dirs_added_def real_def by (metis option.distinct(1))

lemma dirs_stay:
  "only_dirs_added t t' \<Longrightarrow> inode_at t cs = Some Directory \<Longrightarrow> inode_at t' cs = Some Directory"
  unfolding only_dirs_added_def by (metis option.distinct(1))

lemma machine_ok_put:
  assumes "machine_ok m t" "inode_at t dir = Some Directory" "proper_name n"
    "inode_at t (dir @ [Normal n]) \<noteq> Some Directory"
  shows "machine_ok m (put_inode (dir @ [Normal n]) x t)"
  using assms tree_ok_put [of t dir n x] by (auto simp: machine_ok_def inode_at_put)

lemma machine_ok_drop:
  "machine_ok m t \<Longrightarrow> inode_at t cs \<noteq> Some Directory \<Longrightarrow> machine_ok m (drop_inode cs t)"
  using tree_ok_drop by (auto simp: machine_ok_def inode_at_drop)

lemma make_parent_ok:
  assumes "machine_ok m t" "lies_below m t root base names" "1 < length (base @ map Normal names)"
    "make_dirs m t (butlast (base @ map Normal names)) = (r, t')"
  shows "machine_ok m t' \<and> only_dirs_added t t' \<and> confined root t t' \<and>
    (r = Inr () \<longrightarrow> (\<exists>dir n. base @ map Normal names = dir @ [Normal n] \<and> proper_name n \<and>
      inode_at t' dir = Some Directory))"
proof -
  have t: "tree_ok t" "real t base" "real t (cwd m)" "prefix root base" "list_all proper_name names"
    using machine_okD [OF assms(1)] assms(2) by (simp_all add: lies_below_def)
  show ?thesis
  proof (cases names rule: rev_cases)
    case Nil
    from t(2) obtain x where "inode_at t base = Some x" by (auto simp: real_def)
    with t(1) show ?thesis
    proof (cases rule: tree_okE)
      case 1
      with assms(3) Nil show ?thesis by simp
    next
      case (2 dir n)
      then have "make_dirs m t dir = (Inr (), t)"
        using make_dirs_at_base [OF t(1) real_directory] by simp
      with 2 Nil assms show ?thesis by auto
    qed
  next
    case (snoc ns n)
    have fresh: "fresh_below m t base ns"
      using assms(2) t snoc by (cases ns) (auto simp: fresh_below_def lies_below_def)
    have dirs: "make_dirs m t (base @ map Normal ns) = (r, t')"
      using assms(4) snoc by (simp add: butlast_append)
    note made = make_dirs_ok [OF fresh t(3) dirs]
    then have ok: "machine_ok m t'" "confined root t t'"
      using assms(1) confined_mono [OF _ t(4)] dirs_stay by (auto simp: machine_ok_def)
    with made t(5) snoc show ?thesis by auto
  qed
qed

lemma prepare_write_ok:
  assumes "machine_ok m t" "lies_below m t root base names"
    "prepare_write m t (base @ map Normal names) = (r, t')"
  shows "machine_ok m t' \<and> only_dirs_added t t' \<and> confined root t t' \<and>
    (r = Inr () \<longrightarrow> (\<exists>dir n. base @ map Normal names = dir @ [Normal n] \<and> proper_name n \<and>
      inode_at t' dir = Some Directory))"
proof (cases "length (base @ map Normal names) \<le> 1")
  case False
  obtain r1 t1 where dirs: "make_dirs m t (butlast (base @ map Normal names)) = (r1, t1)" by fastforce
  from make_parent_ok [OF assms(1,2) _ dirs] False dirs assms(3) show ?thesis
    by (auto simp: prepare_write_def not_le split: sum.splits option.splits if_splits)
qed (use assms in \<open>auto simp: prepare_write_def split: if_splits\<close>)

lemma persist_ok:
  assumes "machine_ok m t" "inode_at t dir = Some Directory" "proper_name n"
    "persist m t (dir @ [Normal n]) bytes = Inr t'"
  shows "machine_ok m t' \<and> t' = put_inode (dir @ [Normal n]) (RegularFile bytes) t"
proof -
  have "inode_at t (dir @ [Normal n]) \<noteq> Some Directory"
    and t': "t' = put_inode (dir @ [Normal n]) (RegularFile bytes) t"
    using assms target_of_real by (auto simp: persist_def machine_ok_def split: if_splits option.splits)
  with machine_ok_put [OF assms(1-3)] show ?thesis by simp
qed

lemma persist_noclobber_ok:
  assumes "machine_ok m t" "inode_at t dir = Some Directory" "proper_name n"
    "persist_noclobber m t (dir @ [Normal n]) bytes = Inr t'"
  shows "machine_ok m t' \<and> t' = put_inode (dir @ [Normal n]) (RegularFile bytes) t \<and>
    inode_at t (dir @ [Normal n]) = None"
proof -
  have "inode_at t (dir @ [Normal n]) = None"
    and t': "t' = put_inode (dir @ [Normal n]) (RegularFile bytes) t"
    using assms target_of_real by (auto simp: persist_noclobber_def machine_ok_def split: if_splits option.splits)
  with machine_ok_put [OF assms(1-3)] show ?thesis by simp
qed

lemma confined_put: "prefix root cs \<Longrightarrow> confined root t (put_inode cs x t)"
  by (auto simp: confined_def inode_at_put)

lemma confined_drop: "prefix root cs \<Longrightarrow> cs \<noteq> [RootDir] \<Longrightarrow> confined root t (drop_inode cs t)"
  by (auto simp: confined_def inode_at_drop)

lemma real_text:
  assumes "tree_ok t" "real t cs"
  shows "components (path_text cs) = cs \<and> is_absolute (path_text cs)"
proof -
  from assms obtain names where "cs = RootDir # map Normal names"
    using tree_ok_names unfolding real_def by blast
  then have "is_absolute (path_text cs)" by (simp only: path_text_rooted is_absolute_def) simp
  with real_resolved [OF assms] show ?thesis by (simp add: components_path_text)
qed

lemma resolve_workspace_missing:
  assumes "machine_ok m t" "real t root" "within_links m t (path_join (path_text root) rel)"
    "resolve_workspace_path m t (path_text root) rel True = Inr cs"
  shows "\<exists>base names. cs = base @ map Normal names \<and> lies_below m t root base names"
proof -
  have t: "tree_ok t" using assms(1) by (simp add: machine_ok_def)
  note root = resolve_path_text [OF t assms(2)] real_text [OF t assms(2)] real_rooted [OF t assms(2)]
  have rel: "\<not> is_absolute rel" "resolve_missing_path m t root (path_join (path_text root) rel) = Inr cs"
    using assms(4) root(1) by (auto simp: resolve_workspace_path_def escapes_def Let_def split: if_splits)
  obtain body where "components (path_join (path_text root) rel) = RootDir # body"
    using components_join_rooted [OF _ rel(1)] root(2,3) by (cases root) auto
  from resolve_missing_path_below [OF assms(1) this assms(3) rel(2)] show ?thesis by blast
qed

lemma resolve_workspace_existing:
  assumes "machine_ok m t" "real t root"
    "resolve_workspace_path m t (path_text root) rel False = Inr cs"
  shows "real t cs \<and> prefix root cs"
proof -
  have t: "tree_ok t" "real t (cwd m)" using machine_okD [OF assms(1)] by simp_all
  from assms(3) have "resolve_existing_path m t root (path_join (path_text root) rel) = Inr cs"
    using resolve_path_text [OF t(1) assms(2), of m]
    by (auto simp: resolve_workspace_path_def Let_def split: if_splits)
  then show ?thesis
    using resolve_real [OF t(1) _ t(2)] by (auto simp: resolve_existing_path_def split: if_splits)
qed

text \<open>
  The contract of a change: on a machine where nothing else runs, it keeps the tree well-formed,
  changes nothing outside the root, and changes no file at all unless it reports success.
\<close>

definition keeps_contract ::
  "machine \<Rightarrow> component list \<Rightarrow> tree \<Rightarrow> (os_error + bool) \<times> tree \<Rightarrow> bool" where
  "keeps_contract m root t out \<longleftrightarrow>
     (case out of (r, t') \<Rightarrow> machine_ok m t' \<and> confined root t t' \<and> (r \<noteq> Inr True \<longrightarrow> only_dirs_added t t'))"

lemma keeps_contract_refl [simp]: "machine_ok m t \<Longrightarrow> r \<noteq> Inr True \<Longrightarrow> keeps_contract m root t (r, t)"
  by (simp add: keeps_contract_def)

locale workspace_change =
  fixes change :: "machine \<Rightarrow> tree \<Rightarrow> path \<Rightarrow> 'a \<Rightarrow> (os_error + bool) \<times> tree"
    and admissible :: "machine \<Rightarrow> tree \<Rightarrow> component list \<Rightarrow> 'a \<Rightarrow> bool"
  assumes change_contract:
    "machine_ok m t \<Longrightarrow> real t root \<Longrightarrow> undisturbed m \<Longrightarrow> admissible m t root x \<Longrightarrow>
      keeps_contract m root t (change m t (path_text root) x)"
begin

lemma change_ok:
  assumes "machine_ok m t" "real t root" "undisturbed m" "admissible m t root x"
    "change m t (path_text root) x = (r, t')"
  shows "machine_ok m t'" "confined root t t'" "r \<noteq> Inr True \<Longrightarrow> only_dirs_added t t'"
  using change_contract [OF assms(1-4)] assms(5) by (auto simp: keeps_contract_def)

lemma refused_keeps_files:
  assumes "machine_ok m t" "real t root" "undisturbed m" "admissible m t root x"
    "change m t (path_text root) x = (r, t')" "r \<noteq> Inr True"
    "inode_at t cs = Some (RegularFile bytes)"
  shows "inode_at t' cs = Some (RegularFile bytes)"
  using change_ok(3) [OF assms(1-6)] assms(7) unfolding only_dirs_added_def by (metis option.distinct(1))

end

definition links_kept :: "machine \<Rightarrow> tree \<Rightarrow> component list \<Rightarrow> path \<Rightarrow> bool" where
  "links_kept m t root rel \<longleftrightarrow> within_links m t (path_join (path_text root) rel)"

interpretation writing: workspace_change
  "\<lambda>m t root x. case x of (rel, expected, bytes) \<Rightarrow> write_workspace_file_atomic m t root rel expected bytes"
  "\<lambda>m t root x. links_kept m t root (fst x)"
proof
  fix m t root and x :: "path \<times> string option \<times> string"
  assume m: "machine_ok m t" "real t root" "undisturbed m" and links: "links_kept m t root (fst x)"
  obtain rel expected bytes where x: "x = (rel, expected, bytes)" by (cases x)
  show "keeps_contract m root t
      (case x of (rel, expected, bytes) \<Rightarrow> write_workspace_file_atomic m t (path_text root) rel expected bytes)"
  proof (cases "resolve_workspace_path m t (path_text root) rel True")
    case (Inr cs)
    obtain r t1 where prep: "prepare_write m t cs = (r, t1)" by fastforce
    obtain base names where cs: "cs = base @ map Normal names" and below: "lies_below m t root base names"
      using resolve_workspace_missing [OF m(1,2) _ Inr] links x by (auto simp: links_kept_def)
    note prepared = prepare_write_ok [OF m(1) below prep [unfolded cs]]
    have inside: "prefix root cs" using below by (simp add: cs lies_below_def)
    have commit: "keeps_contract m root t (committed t1 (persist m t1 cs bytes))" if "r = Inr ()"
    proof (cases "persist m t1 cs bytes")
      case (Inr t2)
      with prepared that cs persist_ok have "machine_ok m t2" "confined root t1 t2"
        using confined_put [OF inside] by metis+
      with prepared Inr show ?thesis
        by (auto simp: committed_def keeps_contract_def intro: confined_trans)
    qed (use prepared in \<open>simp add: committed_def keeps_contract_def\<close>)
    show ?thesis
      using prepared commit m(3)
      by (cases r) (auto simp: x write_workspace_file_atomic_def Inr prep keeps_contract_def undisturbed_def)
  qed (simp add: x write_workspace_file_atomic_def m(1))
qed

interpretation creating: workspace_change
  "\<lambda>m t root x. case x of (rel, bytes) \<Rightarrow> create_workspace_file_atomic m t root rel bytes"
  "\<lambda>m t root x. links_kept m t root (fst x)"
proof
  fix m t root and x :: "path \<times> string"
  assume m: "machine_ok m t" "real t root" "undisturbed m" and links: "links_kept m t root (fst x)"
  obtain rel bytes where x: "x = (rel, bytes)" by (cases x)
  show "keeps_contract m root t
      (case x of (rel, bytes) \<Rightarrow> create_workspace_file_atomic m t (path_text root) rel bytes)"
  proof (cases "resolve_workspace_path m t (path_text root) rel True")
    case (Inr cs)
    obtain r t1 where prep: "prepare_write m t cs = (r, t1)" by fastforce
    obtain base names where cs: "cs = base @ map Normal names" and below: "lies_below m t root base names"
      using resolve_workspace_missing [OF m(1,2) _ Inr] links x by (auto simp: links_kept_def)
    note prepared = prepare_write_ok [OF m(1) below prep [unfolded cs]]
    have inside: "prefix root cs" using below by (simp add: cs lies_below_def)
    have "machine_ok m t2 \<and> confined root t t2" if "r = Inr ()" "persist_noclobber m t1 cs bytes = Inr t2" for t2
      using prepared that cs persist_noclobber_ok confined_put [OF inside] confined_trans by metis
    with prepared m(3) show ?thesis
      by (cases r; cases "persist_noclobber m t1 cs bytes")
        (auto simp: x create_workspace_file_atomic_def Inr prep keeps_contract_def undisturbed_def)
  qed (simp add: x create_workspace_file_atomic_def m(1))
qed

interpretation deleting: workspace_change
  "\<lambda>m t root x. case x of (rel, expected) \<Rightarrow> delete_workspace_file m t root rel expected"
  "\<lambda>m t root x. True"
proof
  fix m t root and x :: "path \<times> string"
  assume m: "machine_ok m t" "real t root" "undisturbed m"
  obtain rel expected where x: "x = (rel, expected)" by (cases x)
  have t: "tree_ok t" using m(1) by (simp add: machine_ok_def)
  show "keeps_contract m root t
      (case x of (rel, expected) \<Rightarrow> delete_workspace_file m t (path_text root) rel expected)"
  proof (cases "resolve_workspace_path m t (path_text root) rel False")
    case (Inr cs)
    have cs: "real t cs" "prefix root cs"
      using resolve_workspace_existing [OF m(1,2) Inr] by simp_all
    have "keeps_contract m root t (committed t (remove_file m t cs))"
      if "host_read m t (path_text cs) = Inr expected"
    proof (cases "remove_file m t cs")
      case (Inr t1)
      have reg: "inode_at t cs = Some (RegularFile expected)"
        using that resolve_path_text [OF t cs(1), of m]
        by (auto simp: host_read_def split: option.splits inode.splits)
      obtain dir n where split: "cs = dir @ [Normal n]" "inode_at t dir = Some Directory"
        using t reg by (cases rule: tree_okE) (use reg in auto)
      have "t1 = drop_inode cs t"
        using Inr target_of_real [OF t split(2)] split(1)
        by (auto simp: remove_file_def split: option.splits inode.splits)
      moreover have "cs \<noteq> [RootDir]" using reg by auto
      ultimately show ?thesis
        using machine_ok_drop [OF m(1)] confined_drop [OF cs(2)] reg Inr
        by (simp add: committed_def keeps_contract_def)
    qed (use m(1) in \<open>simp add: committed_def\<close>)
    with m show ?thesis by (auto simp: x delete_workspace_file_def Inr undisturbed_def)
  qed (simp add: x delete_workspace_file_def m(1))
qed

lemma rename_ok:
  assumes "machine_ok m t" "inode_at t old = Some (RegularFile bytes)" "inode_at t dir = Some Directory"
    "proper_name n" "rename_file_to m t old (dir @ [Normal n]) = Inr t'" "prefix root old"
    "prefix root (dir @ [Normal n])"
  shows "machine_ok m t' \<and> confined root t t'"
proof -
  let ?new = "dir @ [Normal n]"
  have ok: "tree_ok t" using assms(1) by (simp add: machine_ok_def)
  obtain d k where old: "old = d @ [Normal k]" "inode_at t d = Some Directory"
    using ok assms(2) by (cases rule: tree_okE) (use assms(2) in auto)
  have new: "inode_at t ?new \<noteq> Some Directory"
    and t': "t' = (if ?new = old then t else put_inode ?new (RegularFile bytes) (drop_inode old t))"
    using assms(2,5) target_of_real [OF ok old(2)] target_of_real [OF ok assms(3)] old(1)
    by (auto simp: rename_file_to_def split: if_splits option.splits)
  have "old \<noteq> [RootDir]" using assms(2) by auto
  moreover have "machine_ok m (drop_inode old t)" using machine_ok_drop [OF assms(1)] assms(2) by simp
  moreover have "inode_at (drop_inode old t) dir = Some Directory"
    using assms(2,3) by (auto simp: inode_at_drop)
  ultimately show ?thesis
    using t' new assms(1,4) machine_ok_put [of m "drop_inode old t" dir n "RegularFile bytes"]
      confined_trans [OF confined_drop [OF assms(6)] confined_put [OF assms(7)]]
    by (auto simp: inode_at_drop)
qed

interpretation moving: workspace_change
  "\<lambda>m t root x. case x of (source, destination, expected) \<Rightarrow>
     move_workspace_file m t root source destination expected"
  "\<lambda>m t root x. links_kept m t root (fst (snd x))"
proof
  fix m t root and x :: "path \<times> path \<times> string"
  assume m: "machine_ok m t" "real t root" "undisturbed m"
    and links: "links_kept m t root (fst (snd x))"
  obtain source destination expected where x: "x = (source, destination, expected)" by (cases x)
  have t: "tree_ok t" using m(1) by (simp add: machine_ok_def)
  let ?old = "resolve_workspace_path m t (path_text root) source False"
  let ?new = "resolve_workspace_path m t (path_text root) destination True"
  have move: "keeps_contract m root t (move_resolved m t old new)"
    if old: "?old = Inr old" and new: "?new = Inr new" and bytes: "host_read m t (path_text old) = Inr expected"
    for old new
  proof -
    have real: "real t old" "prefix root old"
      using resolve_workspace_existing [OF m(1,2) old] by simp_all
    obtain base names where cs: "new = base @ map Normal names" and below: "lies_below m t root base names"
      using resolve_workspace_missing [OF m(1,2) _ new] links x by (auto simp: links_kept_def)
    obtain r t1 where dirs: "make_dirs m t (butlast new) = (r, t1)" by fastforce
    show ?thesis
    proof (cases "length new \<le> 1")
      case False
      then have made: "machine_ok m t1 \<and> only_dirs_added t t1 \<and> confined root t t1 \<and>
          (r = Inr () \<longrightarrow> (\<exists>dir n. new = dir @ [Normal n] \<and> proper_name n \<and> inode_at t1 dir = Some Directory))"
        using make_parent_ok [OF m(1) below _ dirs [unfolded cs]] cs by simp
      have "inode_at t old = Some (RegularFile expected)"
        using bytes resolve_path_text [OF t real(1), of m]
        by (auto simp: host_read_def split: option.splits inode.splits)
      then have reg: "inode_at t1 old = Some (RegularFile expected)"
        using made unfolding only_dirs_added_def by (metis option.distinct(1))
      have "keeps_contract m root t (committed t1 (rename_file_to m t1 old new))" if ok: "r = Inr ()"
      proof (cases "rename_file_to m t1 old new")
        case (Inr t2)
        from made ok obtain dir n where new: "new = dir @ [Normal n]" "proper_name n"
            "inode_at t1 dir = Some Directory"
          by blast
        have "prefix root new" using below cs by (simp add: lies_below_def)
        with rename_ok [OF _ reg new(3,2) _ real(2)] made Inr new(1)
        have "machine_ok m t2 \<and> confined root t1 t2" by blast
        with made Inr show ?thesis by (auto simp: committed_def keeps_contract_def intro: confined_trans)
      qed (use made in \<open>simp add: committed_def keeps_contract_def\<close>)
      with made m(3) False dirs show ?thesis
        by (cases r) (auto simp: move_resolved_def keeps_contract_def undisturbed_def)
    qed (use m(1) in \<open>simp add: move_resolved_def\<close>)
  qed
  show "keeps_contract m root t (case x of (source, destination, expected) \<Rightarrow>
      move_workspace_file m t (path_text root) source destination expected)"
  proof (cases ?old)
    case (Inr old)
    then show ?thesis
      using move [OF Inr] m(1)
      by (cases ?new; cases "host_read m t (path_text old)") (auto simp: x move_workspace_file_def)
  qed (simp add: x move_workspace_file_def m(1))
qed

end
