(* ===== verification/Tool_Edit_Laws.thy ===== *)
theory Tool_Edit_Laws
  imports Tool_Edit Tool_Environment_Laws
begin

section \<open>Laws of the edit tools\<close>

text \<open>
  Every edit tool is put together from a few ways to go on: check something, give a result, run
  an operation of the environment. \<open>edit_keeps\<close> passes through each of them, so that a tool
  keeps the tree well-formed, stays below its root, and changes no file when it fails.
\<close>

subsection \<open>Workspace paths\<close>

definition in_workspace :: "tool_context \<Rightarrow> component list \<Rightarrow> tool_world \<Rightarrow> bool" where
  "in_workspace c root w \<longleftrightarrow>
     machine_ok (tc_machine c) (world_tree w) \<and> workspace_directory c (world_tree w) = Inr root"

lemma workspace_root:
  assumes "in_workspace c root w"
  shows "inode_at (world_tree w) root = Some Directory" "real (world_tree w) root"
    "resolve (tc_machine c) (world_tree w) (tc_directory c) = Inr root"
  using assms
  by (auto simp: in_workspace_def workspace_directory_def intro: real_directory split: sum.splits if_splits)

lemma resolve_existing_real:
  assumes "in_workspace c root w" "resolve_existing c (world_tree w) p = Inr (r, cs)"
  shows "r = root \<and> real (world_tree w) cs \<and> prefix root cs"
  using assms resolve_real [of "world_tree w" "tc_machine c"] machine_okD
  by (auto simp: in_workspace_def resolve_existing_def ensure_inside_def Let_def
      split: sum.splits if_splits)

text \<open>Where a path that may be missing is to be written.\<close>

definition writable_place :: "tool_context \<Rightarrow> component list \<Rightarrow> tree \<Rightarrow> component list \<Rightarrow> bool" where
  "writable_place c root t cs \<longleftrightarrow>
     (\<exists>base names. cs = base @ map Normal names \<and> lies_below (tc_machine c) t root base names) \<and>
     resolve (tc_machine c) t (path_text cs) \<noteq> Inl too_many_links"

lemma resolve_for_write_place:
  assumes "in_workspace c root w" "resolve_for_write c (world_tree w) p = Inr (r, cs)"
    "within_links (tc_machine c) (world_tree w) (path_join (path_text root) p)"
  shows "r = root \<and> writable_place c root (world_tree w) cs"
proof -
  let ?m = "tc_machine c" and ?t = "world_tree w" and ?p = "path_join (path_text root) p"
  have root: "components (path_text root) = root \<and> is_absolute (path_text root)" "hd root = RootDir" "root \<noteq> []"
    using real_text [of ?t root] real_rooted [of ?t root] workspace_root(2) [OF assms(1)] assms(1) machine_okD
    by (auto simp: in_workspace_def)
  from assms(1,2) have "\<not> is_absolute p" and cs: "r = root" "resolve_missing_path ?m ?t root ?p = Inr cs"
    by (auto simp: in_workspace_def resolve_for_write_def resolve_missing_path_def relative_request_def
        ensure_inside_def Let_def split: option.splits sum.splits if_splits)
  moreover from this(1) obtain body where "components ?p = RootDir # body"
    using components_join_rooted [of "path_text root" p] root by (cases root) auto
  ultimately show ?thesis
    using resolve_missing_path_below [OF _ _ assms(3)] assms(1)
    unfolding in_workspace_def writable_place_def by blast
qed

lemma place_names:
  assumes "tree_ok t" "cs = base @ map Normal names" "lies_below m t root base names"
  shows "resolved cs"
proof -
  from assms obtain bs where "base = RootDir # map Normal bs" "list_all proper_name bs"
    using tree_ok_names unfolding lies_below_def real_def by blast
  with assms show ?thesis
    by (auto simp: lies_below_def resolved_def intro!: exI [of _ "bs @ names"])
qed

lemma real_place:
  assumes "in_workspace c root w" "real (world_tree w) cs" "prefix root cs"
  shows "writable_place c root (world_tree w) cs"
proof -
  have "tree_ok (world_tree w)" using assms(1) machine_okD by (auto simp: in_workspace_def)
  from resolve_path_text [OF this assms(2)] have "resolve (tc_machine c) (world_tree w) (path_text cs) = Inr cs" .
  moreover have "cs = cs @ map Normal []" "lies_below (tc_machine c) (world_tree w) root cs []"
    using assms(2,3) by (simp_all add: lies_below_def)
  ultimately show ?thesis unfolding writable_place_def by auto
qed

text \<open>The path of a place relative to the root leads back to it.\<close>

lemma path_pieces_names:
  "list_all proper_name names \<Longrightarrow> names \<noteq> [] \<Longrightarrow> path_pieces (join [slash] names) = names"
  using proper_pieces(3) by (simp add: path_pieces_def split_on_join)

lemma strip_root_place:
  assumes "in_workspace c root w" "writable_place c root (world_tree w) cs"
  shows "\<exists>rel. strip_root root cs = Inr rel \<and> \<not> escapes rel \<and>
    components (path_join (path_text root) rel) = cs \<and>
    links_kept (tc_machine c) (world_tree w) root rel"
proof -
  let ?t = "world_tree w"
  have t: "tree_ok ?t" and root: "real ?t root" using assms(1) workspace_root(2) machine_okD
    by (auto simp: in_workspace_def)
  from assms(2) obtain base names where cs: "cs = base @ map Normal names"
      "lies_below (tc_machine c) ?t root base names"
    by (auto simp: writable_place_def)
  from place_names [OF t cs] have res: "resolved cs" .
  have "prefix root cs" using cs by (simp add: lies_below_def)
  then obtain tail where tail: "cs = root @ tail" by (auto simp: prefix_def)
  obtain rs where rs: "root = RootDir # map Normal rs"
    using t root tree_ok_names unfolding real_def by blast
  with res tail obtain names where names: "map Normal rs @ tail = map Normal names" "list_all proper_name names"
    by (auto simp: resolved_def)
  define ns where "ns = drop (length rs) names"
  have ns: "tail = map Normal ns" "list_all proper_name ns"
    using arg_cong [OF names(1), of "drop (length rs)"] names(2)
    by (auto simp: ns_def drop_map list_all_iff dest: in_set_dropD)
  let ?rel = "path_text tail"
  have rel: "?rel = join [slash] ns" by (simp only: ns(1) path_text_names)
  have rel_comps: "components ?rel = map Normal ns" "\<not> is_absolute ?rel"
  proof -
    have "resolved tail" using ns by (auto simp: resolved_def)
    then show "components ?rel = map Normal ns" using ns(1) by (simp add: components_path_text)
    show "\<not> is_absolute ?rel"
    proof
      assume "is_absolute ?rel"
      then have "hd (components ?rel) = RootDir \<and> components ?rel \<noteq> []"
        by (simp add: components_def Let_def)
      with \<open>components ?rel = map Normal ns\<close> show False by (cases ns) auto
    qed
  qed
  have join: "components (path_join (path_text root) ?rel) = cs"
  proof -
    have "map piece_component (filter (\<lambda>s. s \<noteq> [] \<and> s \<noteq> ''.'') (path_pieces ?rel)) = map Normal ns"
      using proper_pieces [OF ns(2)] path_pieces_names [OF ns(2)]
      by (cases "ns = []") (simp_all add: rel path_pieces_def)
    then show ?thesis
      using components_join_rooted [OF _ rel_comps(2)] real_text [OF t root] tail ns(1) by simp
  qed
  have "path_strip_prefix (path_text root) (path_text cs) = Some ?rel"
    using real_text [OF t root] res tail
    by (simp add: path_strip_prefix_def path_starts_with_def components_path_text)
  with rel_comps join assms(2) show ?thesis
    by (auto simp: strip_root_def escapes_def links_kept_def within_links_def writable_place_def)
qed

subsection \<open>What a tool keeps\<close>

definition failed :: "tool_error + tool_result \<Rightarrow> bool" where
  "failed r \<longleftrightarrow> (case r of Inl _ \<Rightarrow> True | Inr res \<Rightarrow> tr_is_error res)"

definition edit_keeps ::
  "tool_context \<Rightarrow> component list \<Rightarrow> tree \<Rightarrow> (tool_error + tool_result) \<times> tool_world \<Rightarrow> bool" where
  "edit_keeps c root t out \<longleftrightarrow>
     (case out of (r, w) \<Rightarrow> machine_ok (tc_machine c) (world_tree w) \<and> confined root t (world_tree w) \<and>
       (failed r \<longrightarrow> only_dirs_added t (world_tree w)))"

lemma keeps_checked:
  assumes "machine_ok (tc_machine c) (world_tree w)"
    "\<And>x. r = Inr x \<Longrightarrow> edit_keeps c root (world_tree w) (k x w)"
  shows "edit_keeps c root (world_tree w) (checked r k w)"
  using assms by (cases r) (auto simp: checked_def edit_keeps_def)

lemma keeps_same_tree [simp]:
  "machine_ok (tc_machine c) (world_tree w) \<Longrightarrow> world_tree w' = world_tree w \<Longrightarrow>
   edit_keeps c root (world_tree w) (r, w')"
  by (simp add: edit_keeps_def)

lemma keeps_give [simp]:
  "machine_ok (tc_machine c) (world_tree w) \<Longrightarrow> edit_keeps c root (world_tree w) (give r w)"
  by (simp add: give_def)

lemma conflict_is_error [simp]: "tr_is_error (conflict_result root cs status detail)"
  by (simp add: conflict_result_def insert_all_def insert_metadata_def Let_def)

lemma world_tree_emit [simp]: "world_tree (tool_emit c e w) = world_tree w"
  by (simp add: tool_emit_def)

lemma later_undisturbed [simp]: "undisturbed (tc_machine c) \<Longrightarrow> later c w = w"
  by (simp add: later_def undisturbed_def)

lemma keeps_on_tree:
  assumes "keeps_contract (tc_machine c) root (world_tree w) (f (world_tree w))"
    "\<And>w'. \<exists>r w''. k True w' = (Inr r, w'') \<and> world_tree w'' = world_tree w' \<and> \<not> tr_is_error r"
    "\<And>w'. \<exists>r w''. k False w' = (r, w'') \<and> world_tree w'' = world_tree w'"
  shows "edit_keeps c root (world_tree w) (on_tree f operation k w)"
proof (cases "f (world_tree w)")
  case (Pair r t)
  show ?thesis
  proof (cases r)
    case (Inl err)
    with assms(1) Pair show ?thesis
      by (simp add: on_tree_def edit_keeps_def keeps_contract_def)
  next
    case (Inr b)
    show ?thesis
    proof (cases b)
      case True
      with assms(1) assms(2) [of "w\<lparr>world_tree := t\<rparr>"] Pair Inr show ?thesis
        by (auto simp: on_tree_def edit_keeps_def keeps_contract_def failed_def)
    next
      case False
      with assms(1) assms(3) [of "w\<lparr>world_tree := t\<rparr>"] Pair Inr show ?thesis
        by (auto simp: on_tree_def edit_keeps_def keeps_contract_def failed_def)
    qed
  qed
qed

lemma not_error_results:
  "\<not> tr_is_error (edit_result c root cs old new verb)" "\<not> tr_is_error (rename_result c root f g b)"
  by (auto simp: edit_result_def rename_result_def insert_all_def insert_metadata_def Let_def
      foldl_Cons tool_result_new_def split: prod.splits option.splits)

lemmas report_simps = report_change_def report_move_def give_def changed_def not_error_results

subsection \<open>The tools\<close>

text \<open>What a call starts from: nothing else runs, and the root is a directory.\<close>

definition settled :: "tool_context \<Rightarrow> component list \<Rightarrow> tool_world \<Rightarrow> bool" where
  "settled c root w \<longleftrightarrow> in_workspace c root w \<and> undisturbed (tc_machine c)"

lemma settledD:
  assumes "settled c root w"
  shows "in_workspace c root w" "undisturbed (tc_machine c)" "machine_ok (tc_machine c) (world_tree w)"
    "real (world_tree w) root"
  using assms workspace_root(2) by (auto simp: settled_def in_workspace_def)

text \<open>A commit: the steps before it only check, and the operation on the tree is a change.\<close>

lemma keeps_commit:
  assumes "settled c root w" "writable_place c root (world_tree w) cs"
    "\<And>rel. strip_root root cs = Inr rel \<Longrightarrow> links_kept (tc_machine c) (world_tree w) root rel \<Longrightarrow>
      edit_keeps c root (world_tree w) (k rel w)"
  shows "edit_keeps c root (world_tree w)
    (checked (ensure_edit_not_cancelled c) (\<lambda>_. checked (strip_root root cs) k) w)"
proof -
  obtain rel where "strip_root root cs = Inr rel" "links_kept (tc_machine c) (world_tree w) root rel"
    using strip_root_place [OF settledD(1) [OF assms(1)] assms(2)] by blast
  with assms(3) show ?thesis
    by (intro keeps_checked settledD [OF assms(1)]) auto
qed

lemma keeps_commit_existing:
  assumes "settled c root w" "writable_place c root (world_tree w) cs"
  shows "edit_keeps c root (world_tree w) (commit_existing c root cs original updated verb w)"
proof -
  note m = settledD [OF assms(1)]
  let ?bytes = "encode_new_text updated (ef_eol original) (ef_bom original)"
  have "edit_keeps c root (world_tree w)
      (on_tree (\<lambda>t. write_workspace_file_atomic (tc_machine c) t (path_text root) rel (Some (ef_raw original)) ?bytes)
        operation (\<lambda>committed. if \<not> committed then give (conflict_result root cs status detail)
          else report_change c cs Modified (edit_result c root cs (Some (ef_raw original)) (Some ?bytes) verb)) w)"
    if "links_kept (tc_machine c) (world_tree w) root rel" for rel operation status detail
    using writing.change_contract [OF m(3,4,2), of "(rel, Some (ef_raw original), ?bytes)"] that
    by (intro keeps_on_tree) (auto simp: report_simps)
  then show ?thesis
    unfolding commit_existing_def Let_def
    using m(2,3) by (auto intro!: keeps_commit [OF assms])
qed

lemma keeps_commit_write:
  assumes "settled c root w" "writable_place c root (world_tree w) cs"
  shows "edit_keeps c root (world_tree w) (commit_write c root cs original content w)"
proof -
  note m = settledD [OF assms(1)]
  have "edit_keeps c root (world_tree w)
      (on_tree (replace_or_create c root rel original bytes) operation
        (\<lambda>committed. if \<not> committed then give (conflict_result root cs status detail)
          else report_change c cs change (edit_result c root cs old new verb)) w)"
    if "links_kept (tc_machine c) (world_tree w) root rel"
    for rel operation status detail change old new verb bytes
  proof (rule keeps_on_tree)
    show "keeps_contract (tc_machine c) root (world_tree w) (replace_or_create c root rel original bytes (world_tree w))"
      using writing.change_contract [OF m(3,4,2), of "(rel, Some (ef_raw (the original)), bytes)"]
        creating.change_contract [OF m(3,4,2), of "(rel, bytes)"] that
      by (cases original) (simp_all add: replace_or_create_def)
  qed (auto simp: report_simps)
  then show ?thesis
    unfolding commit_write_def Let_def
    using m(2,3) by (auto intro!: keeps_commit [OF assms])
qed

lemma keeps_write_resolved:
  assumes "settled c root w" "writable_place c root (world_tree w) cs"
  shows "edit_keeps c root (world_tree w) (write_resolved c args content root cs w)"
  unfolding write_resolved_def Let_def
  using settledD(3) [OF assms(1)] by (auto intro!: keeps_checked keeps_commit_write [OF assms])

lemma keeps_create_resolved:
  assumes "settled c root w" "writable_place c root (world_tree w) cs"
  shows "edit_keeps c root (world_tree w) (create_resolved c content root cs w)"
proof -
  note m = settledD [OF assms(1)]
  have "edit_keeps c root (world_tree w)
      (on_tree (\<lambda>t. create_workspace_file_atomic (tc_machine c) t (path_text root) rel content) operation
        (\<lambda>_. report_change c cs Added (edit_result c root cs None (Some content) verb)) w)"
    if "links_kept (tc_machine c) (world_tree w) root rel" for rel operation verb
    using creating.change_contract [OF m(3,4,2), of "(rel, content)"] that
    by (intro keeps_on_tree) (auto simp: report_simps)
  then show ?thesis
    unfolding create_resolved_def using m(2,3) by (auto intro!: keeps_commit [OF assms])
qed

lemma keeps_delete_loaded:
  assumes "settled c root w" "writable_place c root (world_tree w) cs"
  shows "edit_keeps c root (world_tree w) (delete_loaded c root cs original w)"
proof -
  note m = settledD [OF assms(1)]
  have "edit_keeps c root (world_tree w)
      (on_tree (\<lambda>t. delete_workspace_file (tc_machine c) t (path_text root) rel (ef_raw original)) operation
        (\<lambda>committed. if \<not> committed then give (conflict_result root cs status detail)
          else report_change c cs Deleted (edit_result c root cs old None verb)) w)"
    for rel operation status detail old verb
    using deleting.change_contract [OF m(3,4,2), of "(rel, ef_raw original)"]
    by (intro keeps_on_tree) (auto simp: report_simps)
  then show ?thesis
    unfolding delete_loaded_def using m(2,3) by (auto intro!: keeps_commit [OF assms])
qed

lemma keeps_move_loaded:
  assumes "settled c root w" "writable_place c root (world_tree w) old" "writable_place c root (world_tree w) new"
  shows "edit_keeps c root (world_tree w) (move_loaded c root old new original w)"
proof -
  note m = settledD [OF assms(1)]
  obtain rel where rel: "strip_root root new = Inr rel" "links_kept (tc_machine c) (world_tree w) root rel"
    using strip_root_place [OF m(1) assms(3)] by blast
  have "edit_keeps c root (world_tree w)
      (on_tree (\<lambda>t. move_workspace_file (tc_machine c) t (path_text root) source rel (ef_raw original)) operation
        (\<lambda>committed. if \<not> committed then give (conflict_result root old status detail)
          else report_move c old new (rename_result c root old new bytes)) w)"
    for source operation status detail bytes
    using moving.change_contract [OF m(3,4,2), of "(source, rel, ef_raw original)"] rel(2)
    by (intro keeps_on_tree) (auto simp: report_simps)
  with rel m show ?thesis
    unfolding move_loaded_def by (auto intro!: keeps_checked keeps_commit [OF assms(1,2)])
qed

lemma keeps_edit_loaded:
  assumes "settled c root w" "\<And>original. edit_keeps c root (world_tree w) (k original w)"
  shows "edit_keeps c root (world_tree w) (edit_loaded c args tool root cs k w)"
  unfolding edit_loaded_def
  using settledD(3) [OF assms(1)] assms(2) by (auto intro!: keeps_checked split: option.split)

lemma keeps_patch_loaded:
  assumes "settled c root w" "writable_place c root (world_tree w) cs"
  shows "edit_keeps c root (world_tree w) (patch_loaded c root cs original old_text new_text w)"
  unfolding patch_loaded_def Let_def
  using settledD(3) [OF assms(1)] keeps_commit_existing [OF assms] by (simp split: prod.split list.split)

lemma keeps_replace_lines:
  assumes "settled c root w" "writable_place c root (world_tree w) cs"
  shows "edit_keeps c root (world_tree w) (replace_lines c root cs i j expected new_text original w)"
  unfolding replace_lines_def Let_def
  using settledD(3) [OF assms(1)] keeps_commit_existing [OF assms] by (simp split: prod.split)

text \<open>A tool that edits an existing file finds it in the workspace.\<close>

lemma keeps_existing:
  assumes "settled c root w"
    "\<And>cs. real (world_tree w) cs \<Longrightarrow> writable_place c root (world_tree w) cs \<Longrightarrow>
      edit_keeps c root (world_tree w) (k (root, cs) w)"
  shows "edit_keeps c root (world_tree w) (checked (resolve_existing c (world_tree w) p) k w)"
proof (rule keeps_checked)
  fix x assume "resolve_existing c (world_tree w) p = Inr x"
  then obtain cs where "x = (root, cs)" "real (world_tree w) cs" "prefix root cs"
    using resolve_existing_real [OF settledD(1) [OF assms(1)], of p "fst x" "snd x"] by (cases x) auto
  with assms(2) real_place [OF settledD(1) [OF assms(1)]] show "edit_keeps c root (world_tree w) (k x w)" by blast
qed (rule settledD(3) [OF assms(1)])

lemma keeps_for_write:
  assumes "settled c root w" "within_links (tc_machine c) (world_tree w) (path_join (path_text root) p)"
    "\<And>cs. writable_place c root (world_tree w) cs \<Longrightarrow> edit_keeps c root (world_tree w) (k (root, cs) w)"
  shows "edit_keeps c root (world_tree w) (checked (resolve_for_write c (world_tree w) p) k w)"
proof (rule keeps_checked)
  fix x assume "resolve_for_write c (world_tree w) p = Inr x"
  then have "x = (root, snd x)" "writable_place c root (world_tree w) (snd x)"
    using resolve_for_write_place [OF settledD(1) [OF assms(1)] _ assms(2), of "fst x" "snd x"]
    by (cases x; simp)+
  with assms(3) show "edit_keeps c root (world_tree w) (k x w)" by metis
qed (rule settledD(3) [OF assms(1)])

text \<open>The paths a call names that need not exist meet no more links than the system follows.\<close>

definition links_bounded :: "tool_context \<Rightarrow> component list \<Rightarrow> tool_world \<Rightarrow> json \<Rightarrow> bool" where
  "links_bounded c root w args \<longleftrightarrow>
     (\<forall>key \<in> {''path'', ''destination_path''}. \<forall>p. Option.bind (json_get key args) json_str = Some p \<longrightarrow>
        within_links (tc_machine c) (world_tree w) (path_join (path_text root) p))"

lemma required_string_Inr:
  "required_string args key tool = Inr p \<Longrightarrow> Option.bind (json_get key args) json_str = Some p"
  by (auto simp: required_string_def split: option.splits if_splits)

lemma edit_tool_keeps:
  assumes "settled c root w" "links_bounded c root w args"
  shows "edit_keeps c root (world_tree w) (edit_tool n c args w)"
proof -
  note m = settledD(3) [OF assms(1)]
  have links: "within_links (tc_machine c) (world_tree w) (path_join (path_text root) p)"
    if "required_string args ''path'' tool = Inr p \<or> required_string args ''destination_path'' tool = Inr p"
    for tool p
    using required_string_Inr that assms(2) by (fastforce simp: links_bounded_def)
  note rules = keeps_checked keeps_existing [OF assms(1)] keeps_for_write [OF assms(1)]
    keeps_edit_loaded [OF assms(1)] keeps_patch_loaded [OF assms(1)] keeps_replace_lines [OF assms(1)]
    keeps_delete_loaded [OF assms(1)] keeps_move_loaded [OF assms(1)]
    keeps_create_resolved [OF assms(1)] keeps_write_resolved [OF assms(1)]
  have "edit_keeps c root (world_tree w) (create_file c args w)"
    "edit_keeps c root (world_tree w) (write_file c args w)"
    "edit_keeps c root (world_tree w) (apply_patch c args w)"
    "edit_keeps c root (world_tree w) (replace_text c args w)"
    "edit_keeps c root (world_tree w) (replace_range c args w)"
    "edit_keeps c root (world_tree w) (delete_file c args w)"
    "edit_keeps c root (world_tree w) (rename_file c args w)"
    unfolding create_file_def write_file_def apply_patch_def replace_text_def replace_range_def
      delete_file_def rename_file_def replace_exact_def required_path_def
    by (auto intro!: rules m links keeps_same_tree [OF m refl])
  then show ?thesis by simp
qed

subsection \<open>Writing a file that exists\<close>

lemma join_append:
  "xs \<noteq> [] \<Longrightarrow> ys \<noteq> [] \<Longrightarrow> join sep (xs @ ys) = join sep xs @ sep @ join sep ys"
proof (induction xs)
  case (Cons x xs)
  then show ?case by (cases xs; cases ys) auto
qed simp

lemma last_join:
  "list_all proper_name xs \<Longrightarrow> xs \<noteq> [] \<Longrightarrow> join [slash] xs \<noteq> [] \<and> last (join [slash] xs) \<noteq> slash"
proof (induction xs)
  case (Cons x xs)
  then have "x \<noteq> []" "slash \<notin> set x" by (auto simp: proper_name_def)
  then have "last x \<noteq> slash" by (metis last_in_set)
  with Cons \<open>x \<noteq> []\<close> show ?case by (cases xs) auto
qed simp

lemma join_no_slash_end:
  assumes "list_all proper_name xs" "xs \<noteq> []"
  shows "\<not> ends_with (slash # join [slash] xs) [slash]"
proof
  assume "ends_with (slash # join [slash] xs) [slash]"
  then have "last (slash # join [slash] xs) = slash"
    by (auto simp: suffix_def simp del: last.simps) 
  with last_join [OF assms] show False by simp
qed

lemma path_join_text:
  assumes "root = RootDir # map Normal rs" "list_all proper_name rs" "ns \<noteq> []" "list_all proper_name ns"
  shows "path_join (path_text root) (path_text (map Normal ns)) = path_text (root @ map Normal ns)"
proof -
  have "\<not> is_absolute (join [slash] ns)"
    using assms(3,4) by (cases ns; cases "tl ns"; cases "hd ns") (auto simp: is_absolute_def proper_name_def)
  moreover have "path_text (root @ map Normal ns) = slash # join [slash] (rs @ ns)"
    using path_text_rooted [of "rs @ ns"] assms(1) by simp
  moreover have "path_text root = slash # join [slash] rs"
    using path_text_rooted [of rs] assms(1) by simp
  ultimately show ?thesis
    using assms(3) join_no_slash_end [OF assms(2)]
    by (cases "rs = []") (simp_all add: path_join_def path_text_names join_append)
qed

lemma resolve_workspace_real:
  assumes "machine_ok m t" "real t root" "real t cs" "prefix root cs" "cs \<noteq> root"
    "strip_root root cs = Inr rel"
  shows "resolve_workspace_path m t (path_text root) rel b = Inr cs"
proof -
  have t: "tree_ok t" using assms(1) machine_okD by blast
  obtain rs where rs: "root = RootDir # map Normal rs" "list_all proper_name rs"
    using t assms(2) tree_ok_names unfolding real_def by blast
  obtain names where names: "cs = RootDir # map Normal names" "list_all proper_name names"
    using t assms(3) tree_ok_names unfolding real_def by blast
  obtain tail where tail: "cs = root @ tail" "tail \<noteq> []" using assms(4,5) by (auto simp: prefix_def)
  define ns where "ns = drop (length rs) names"
  have "map Normal rs @ tail = map Normal names" using rs names tail by simp
  from arg_cong [OF this, of "drop (length rs)"]
  have ns: "tail = map Normal ns" "list_all proper_name ns" "ns \<noteq> []"
    using names(2) tail(2) by (auto simp: ns_def drop_map list_all_iff dest: in_set_dropD)
  have rel: "rel = path_text tail"
    using assms(6) real_text [OF t assms(2)] real_text [OF t assms(3)] tail
    by (simp add: strip_root_def path_strip_prefix_def path_starts_with_def)
  have "resolved tail" using ns(1,2) by (auto simp: resolved_def)
  then have comps: "components rel = map Normal ns" using ns(1) rel by (simp add: components_path_text)
  then have "\<not> escapes rel"
    using ns(3) by (auto simp: escapes_def components_def Let_def split: if_splits)
  have candidate: "path_join (path_text root) rel = path_text cs"
    using path_join_text [OF rs ns(3,2)] rel ns(1) tail(1) by simp
  have "host_exists m t (path_text cs)"
    using inode_of_real [OF t assms(3), of m] by (simp add: host_exists_def)
  then show ?thesis
    using \<open>\<not> escapes rel\<close> candidate resolve_path_text [OF t] assms(2-4)
    by (simp add: Let_def resolve_workspace_path_def resolve_existing_path_def resolve_missing_path_def
        nearest_existing.simps [of m t "path_text cs"])
qed

lemma write_existing_outcome:
  assumes "machine_ok m t" "inode_at t root = Some Directory" "inode_at t cs = Some (RegularFile current)"
    "prefix root cs" "strip_root root cs = Inr rel" "\<And>t. meanwhile m BeforePersist t = t"
    "write_workspace_file_atomic m t (path_text root) rel (Some expected) bytes = (r, t')"
  shows "if r = Inr True then current = expected \<and> t' = put_inode cs (RegularFile bytes) t else t' = t"
proof -
  have t: "tree_ok t" using assms(1) machine_okD by blast
  have real: "real t root" "real t cs" "cs \<noteq> root"
    using assms(2,3) by (auto simp: real_def)
  obtain dir n where dir: "cs = dir @ [Normal n]" "proper_name n" "inode_at t dir = Some Directory"
    using t assms(3) by (cases rule: tree_okE) (use assms(3) in auto)
  have read: "host_read m t (path_text cs) = Inr s \<Longrightarrow> s = current" for s
    using resolve_path_text [OF t real(2), of m] assms(3)
    by (auto simp: host_read_def split: option.splits)
  have prep: "snd (prepare_write m t cs) = t"
    using make_dirs_at_base [OF t real_directory [OF dir(3)], of m] dir(1,3)
    by (auto simp: prepare_write_def split: option.splits)
  show ?thesis
    using assms(7) prep read persist_ok [OF assms(1) dir(3,2), of bytes] dir(1)
    unfolding write_workspace_file_atomic_def resolve_workspace_real [OF assms(1) real(1,2) assms(4) real(3) assms(5)]
    by (auto simp: assms(6) committed_def split: prod.splits sum.splits if_splits)
qed

subsection \<open>What a successful edit has read and written\<close>

lemma read_limited_file:
  assumes "machine_ok (tc_machine c) t" "real t root" "inode_at t cs = Some (RegularFile raw)"
    "prefix root cs" "cs \<noteq> root" "read_limited c t root cs tool limit = Inr bytes"
  shows "bytes = raw"
proof -
  have t: "tree_ok t" using assms(1) machine_okD by blast
  have real: "real t cs" using assms(3) by (simp add: real_def)
  from assms(6) obtain rel where rel: "strip_root root cs = Inr rel"
    by (cases "strip_root root cs") (auto simp: read_limited_def)
  have read: "read_workspace_file (tc_machine c) t (path_text root) rel limit = Inr bytes"
    using assms(6) rel
    by (cases "read_workspace_file (tc_machine c) t (path_text root) rel limit")
      (auto simp: read_limited_def split: if_splits)
  then show ?thesis
    using resolve_workspace_real [OF assms(1,2) real assms(4,5) rel, of False]
      resolve_path_text [OF t real, of "tc_machine c"] assms(3)
    by (auto simp: read_workspace_file_def host_read_def Let_def split: option.splits if_splits)
qed

lemma load_editable_file:
  assumes "machine_ok (tc_machine c) t" "real t root" "inode_at t cs = Some (RegularFile raw)"
    "prefix root cs" "cs \<noteq> root" "load_editable c t root cs tool = Inr f"
  shows "ef_raw f = raw \<and> decode_editable cs raw = Inr f"
proof -
  from assms(6) obtain bytes where bytes: "read_limited c t root cs tool max_edit_file_bytes = Inr bytes"
      "decode_editable cs bytes = Inr f"
    by (auto simp: load_editable_def split: sum.splits inode.splits if_splits)
  with read_limited_file [OF assms(1-5)] have "bytes = raw" by blast
  with bytes(2) show ?thesis by (auto simp: decode_editable_def Let_def split: if_splits)
qed

text \<open>
  Between reading and committing other processes may have worked: \<open>raw\<close> is what the tool has
  read, \<open>current\<close> what the file holds when the edit is committed.
\<close>

definition meets ::
  "tool_context \<Rightarrow> component list \<Rightarrow> component list \<Rightarrow> string \<Rightarrow> string \<Rightarrow> tool_world \<Rightarrow> bool" where
  "meets c root cs raw current w \<longleftrightarrow>
     in_workspace c root w \<and> prefix root cs \<and> inode_at (world_tree w) cs = Some (RegularFile raw) \<and>
     machine_ok (tc_machine c) (world_tree (later c w)) \<and>
     inode_at (world_tree (later c w)) root = Some Directory \<and>
     inode_at (world_tree (later c w)) cs = Some (RegularFile current) \<and>
     (\<forall>t. meanwhile (tc_machine c) BeforePersist t = t)"

definition replaces ::
  "tool_context \<Rightarrow> component list \<Rightarrow> string \<Rightarrow> string \<Rightarrow> tool_world \<Rightarrow>
   (tool_error + tool_result) \<times> tool_world \<Rightarrow> bool" where
  "replaces c cs raw current w out \<longleftrightarrow>
     (case out of (r, w') \<Rightarrow>
       if failed r then world_tree w' = world_tree w \<or> world_tree w' = world_tree (later c w)
       else raw = current \<and>
         (\<exists>bytes. world_tree w' = put_inode cs (RegularFile bytes) (world_tree (later c w))))"

lemma replaces_checked:
  "(\<And>x. r = Inr x \<Longrightarrow> replaces c cs raw current w (k x w)) \<Longrightarrow> replaces c cs raw current w (checked r k w)"
  by (cases r) (auto simp: checked_def replaces_def failed_def)

lemma replaces_failed:
  "failed r \<Longrightarrow> replaces c cs raw current w (r, w)"
  by (simp add: replaces_def)

lemma replaces_conflict [simp]:
  "replaces c cs raw current w (give (conflict_result root cs' status detail) w)"
  by (simp add: give_def replaces_def failed_def)

lemma failed_simps [simp]: "failed (Inl err)" "failed (Inr res) \<longleftrightarrow> tr_is_error res"
  by (simp_all add: failed_def)

lemma on_tree_write:
  assumes "meets c root cs raw current w" "strip_root root cs = Inr rel"
    "on_tree (\<lambda>t. write_workspace_file_atomic (tc_machine c) t (path_text root) rel (Some expected) bytes)
       operation (\<lambda>committed. if \<not> committed then give (conflict_result root cs status detail)
         else report_change c cs change (edit_result c root cs old new verb)) (later c w) = (r, w')"
  shows "if failed r then world_tree w' = world_tree (later c w)
    else current = expected \<and> world_tree w' = put_inode cs (RegularFile bytes) (world_tree (later c w))"
proof -
  let ?t = "world_tree (later c w)"
  obtain r1 t1 where out: "write_workspace_file_atomic (tc_machine c) ?t (path_text root) rel (Some expected) bytes = (r1, t1)"
    by fastforce
  have "if r1 = Inr True then current = expected \<and> t1 = put_inode cs (RegularFile bytes) ?t else t1 = ?t"
    using assms(1) unfolding meets_def
    by (intro write_existing_outcome [OF _ _ _ _ assms(2) _ out]) simp_all
  with assms(3) out show ?thesis
    by (auto simp: on_tree_def report_simps split: sum.splits if_splits)
qed

lemma commit_existing_outcome:
  assumes "meets c root cs raw current w"
    "commit_existing c root cs original updated verb w = (r, w')"
  shows "if failed r then world_tree w' = world_tree w \<or> world_tree w' = world_tree (later c w)
    else current = ef_raw original \<and> world_tree w' =
      put_inode cs (RegularFile (encode_new_text updated (ef_eol original) (ef_bom original)))
        (world_tree (later c w))"
proof (cases "max_edit_file_bytes < length updated + (if ef_bom original then 3 else 0) \<or> tc_cancelled c")
  case True
  with assms(2) show ?thesis
    by (auto simp: commit_existing_def checked_def ensure_edit_not_cancelled_def split: if_splits)
next
  case False
  show ?thesis
  proof (cases "strip_root root cs")
    case (Inl err)
    with False assms(2) show ?thesis
      by (auto simp: commit_existing_def checked_def ensure_edit_not_cancelled_def Let_def)
  next
    case (Inr rel)
    with False assms(2) on_tree_write [OF assms(1) Inr] show ?thesis
      by (simp add: commit_existing_def checked_def ensure_edit_not_cancelled_def Let_def)
  qed
qed

end
