(* ===== verification/Tool_Diff.thy ===== *)
theory Tool_Diff
  imports Tool_Text Paths Events "HOL-Library.Code_Target_Nat"
begin

section \<open>The diff of an edit, read back\<close>

text \<open>
  A reader of unified diffs as a reference: it takes the place of the hunk from its header line and
  checks every context and deleted line against the old text. The diff that \<open>unified_diff\<close> of
  \<open>harness-tools/src/filesystem.rs\<close> builds turns the old lines into the new ones.
\<close>

subsection \<open>The reader\<close>

fun apply_body :: "string list \<Rightarrow> string list \<Rightarrow> string list option" where
  "apply_body [] old = Some old"
| "apply_body ((m # l) # ls) old =
     (if m = CHR ''+'' then map_option (Cons l) (apply_body ls old)
      else case old of
        [] \<Rightarrow> None
      | x # xs \<Rightarrow>
          if x \<noteq> l then None
          else if m = CHR ''-'' then apply_body ls xs
          else map_option (Cons l) (apply_body ls xs))"
| "apply_body ([] # ls) old = None"

definition hunk_start :: "string \<Rightarrow> nat" where
  "hunk_start line = read_nat (takeWhile (\<lambda>c. c \<noteq> CHR '','') (drop 4 line)) 0"

definition patch_lines :: "string \<Rightarrow> string list \<Rightarrow> string list option" where
  "patch_lines diff old =
     (case butlast (split_on (\<lambda>c. c = newline) diff) of
        _ # _ # h # body \<Rightarrow>
          map_option ((@) (take (hunk_start h - 1) old)) (apply_body body (drop (hunk_start h - 1) old))
      | _ \<Rightarrow> Some old)"

subsection \<open>Lines\<close>

lemma split_inclusive_lines: "l \<in> set (split_inclusive s) \<Longrightarrow> newline \<notin> set (butlast l)"
proof (induction s arbitrary: l)
  case (Cons c s)
  then show ?case by (cases "split_inclusive s") (auto split: if_splits)
qed simp

lemma trim_line: "newline \<notin> set (butlast l) \<Longrightarrow> newline \<notin> set (trim_end_chars [newline] l)"
  by (cases l rule: rev_cases) (auto simp: trim_end_chars_def dropWhile_eq_self_iff dest: set_dropWhileD)

lemma diff_lines_clean: "l \<in> set (diff_lines b) \<Longrightarrow> newline \<notin> set l"
  using split_inclusive_lines trim_line by (fastforce simp: diff_lines_def Let_def)

lemma show_nat_digits: "c \<in> set (show_nat n) \<Longrightarrow> 48 \<le> byte_of c \<and> byte_of c < 58"
proof (induction n rule: show_nat_induct)
  case (small n)
  then show ?case by (simp add: show_nat_small byte_of_digit)
next
  case (large n)
  then have "c \<in> set (show_nat (n div 10)) \<or> c = char_of (48 + n mod 10)" by (auto simp: show_nat_large)
  then show ?case
  proof
    assume "c = char_of (48 + n mod 10)"
    then show ?thesis using byte_of_digit [of "n mod 10"] by simp
  qed (rule large(2))
qed

lemma show_nat_clean: "newline \<notin> set (show_nat n)" "CHR '','' \<notin> set (show_nat n)"
  using show_nat_digits [of newline n] show_nat_digits [of "CHR '',''" n]
  by (auto simp: byte_of_def)

lemma hunk_start_line:
  "hunk_start (''@@ -'' @ show_nat n @ '','' @ s) = n"
proof -
  have "takeWhile (\<lambda>c. c \<noteq> CHR '','') (show_nat n @ '','' @ s) = show_nat n"
    using show_nat_clean(2) [of n] by (subst takeWhile_append2) auto
  then show ?thesis by (simp add: hunk_start_def read_show_nat)
qed

subsection \<open>Reading back a hunk\<close>

lemma apply_context: "apply_body (map (Cons (CHR '' '')) xs @ ls) (xs @ old) = map_option ((@) xs) (apply_body ls old)"
  by (induction xs) (simp_all add: option.map_comp comp_def option.map_ident)

lemma apply_deletions: "apply_body (map (Cons (CHR ''-'')) xs @ ls) (xs @ old) = apply_body ls old"
  by (induction xs) simp_all

lemma apply_insertions: "apply_body (map (Cons (CHR ''+'')) xs @ ls) old = map_option ((@) xs) (apply_body ls old)"
  by (induction xs) (simp_all add: option.map_comp comp_def option.map_ident)

definition body_lines :: "string list \<Rightarrow> string list \<Rightarrow> hunk \<Rightarrow> string list" where
  "body_lines xs ys h =
     map (Cons (CHR '' '')) (slice (hunk_prefix h - 3) (hunk_prefix h) xs)
     @ map (Cons (CHR ''-'')) (slice (hunk_prefix h) (hunk_old_end h) xs)
     @ map (Cons (CHR ''+'')) (slice (hunk_prefix h) (hunk_new_end h) ys)
     @ map (Cons (CHR '' '')) (slice (hunk_old_end h) (min (hunk_old_end h + 3) (length xs)) xs)"

lemma slice_drop: "i \<le> j \<Longrightarrow> slice i j xs @ drop j xs = drop i xs"
  by (metis append_take_drop_id drop_take le_add_diff_inverse slice_def drop_drop add.commute)

lemma take_slice: "i \<le> j \<Longrightarrow> take i xs @ slice i j xs = take j xs"
  by (metis append_take_drop_id min.absorb1 slice_def take_take)

lemma body_lines_applied:
  assumes "hunk_of xs ys = h"
  shows "map_option ((@) (take (hunk_prefix h - 3) xs)) (apply_body (body_lines xs ys h) (drop (hunk_prefix h - 3) xs))
    = Some ys"
proof -
  let ?p = "hunk_prefix h" and ?o = "hunk_old_end h" and ?n = "hunk_new_end h"
  let ?s = "?p - 3" and ?e = "min (?o + 3) (length xs)"
  note h = hunk_of_spec [OF assms]
  have old: "drop ?s xs = slice ?s ?p xs @ slice ?p ?o xs @ slice ?o ?e xs @ drop ?e xs"
    using h slice_drop [of ?s ?p xs] slice_drop [of ?p ?o xs] slice_drop [of ?o ?e xs] by simp
  have "apply_body (body_lines xs ys h) (drop ?s xs) =
      Some (slice ?s ?p xs @ slice ?p ?n ys @ slice ?o ?e xs @ drop ?e xs)"
    unfolding body_lines_def old by (simp add: apply_context apply_deletions apply_insertions
        apply_context [of _ "[]", simplified])
  moreover have "slice ?o ?e xs @ drop ?e xs = drop ?n ys" using h by (simp add: slice_drop)
  moreover have "take ?s xs @ slice ?s ?p xs = take ?p ys" using h by (simp add: take_slice)
  moreover have "take ?p ys @ slice ?p ?n ys @ drop ?n ys = ys"
    using h by (simp add: slice_drop)
  ultimately show ?thesis by (metis append.assoc option.map(2))
qed

subsection \<open>The text of a diff\<close>

lemma join_line: "ws \<noteq> [] \<Longrightarrow> w @ [newline] @ join [newline] ws = join [newline] (w # ws)"
  by (cases ws) simp_all

lemma prefixed_lines_text:
  "ws \<noteq> [] \<Longrightarrow> prefixed_lines [m] ls @ join [newline] ws = join [newline] (map (Cons m) ls @ ws)"
proof (induction ls)
  case (Cons l ls)
  then show ?case using join_line [of "map (Cons m) ls @ ws" "m # l"] by (simp add: prefixed_lines_def)
qed (simp add: prefixed_lines_def)

definition hunk_line :: "string list \<Rightarrow> string list \<Rightarrow> hunk \<Rightarrow> string" where
  "hunk_line xs ys h =
     ''@@ -'' @ show_nat (hunk_prefix h - 3 + 1) @ '',''
       @ show_nat (min (hunk_old_end h + 3) (length xs) - (hunk_prefix h - 3)) @ '' +''
       @ show_nat (hunk_prefix h - 3 + 1) @ '',''
       @ show_nat (min (hunk_new_end h + 3) (length ys) - (hunk_prefix h - 3)) @ '' @@''"

lemma hunk_text_lines:
  "hunk_text xs ys h = join [newline] ((hunk_line xs ys h # body_lines xs ys h) @ [[]])"
proof -
  let ?a = "slice (hunk_prefix h - 3) (hunk_prefix h) xs" and ?d = "slice (hunk_prefix h) (hunk_old_end h) xs"
    and ?i = "slice (hunk_prefix h) (hunk_new_end h) ys"
    and ?b = "slice (hunk_old_end h) (min (hunk_old_end h + 3) (length xs)) xs"
  have "hunk_text xs ys h = hunk_line xs ys h @ [newline] @ prefixed_lines '' '' ?a @ prefixed_lines ''-'' ?d
      @ prefixed_lines ''+'' ?i @ prefixed_lines '' '' ?b @ join [newline] [[]]"
    by (simp add: hunk_text_def hunk_line_def Let_def)
  also have "\<dots> = join [newline] (hunk_line xs ys h # body_lines xs ys h @ [[]])"
    by (simp only: prefixed_lines_text join_line body_lines_def append_assoc append_is_Nil_conv
        list.distinct simp_thms not_False_eq_True)
  finally show ?thesis by simp
qed

lemma lines_clean:
  assumes "\<forall>l \<in> set xs \<union> set ys. newline \<notin> set l" "l \<in> set (hunk_line xs ys h # body_lines xs ys h)"
  shows "newline \<notin> set l"
  using assms show_nat_clean(1)
  by (auto simp: hunk_line_def body_lines_def slice_def dest!: in_set_takeD in_set_dropD)

definition marked_lines :: "char \<Rightarrow> string \<Rightarrow> nat" where
  "marked_lines m diff = length (filter (\<lambda>l. take 1 l = [m]) (drop 3 (butlast (split_on (\<lambda>c. c = newline) diff))))"

lemma marked_in_body:
  assumes "hunk_of xs ys = h"
  shows "length (filter (\<lambda>l. take 1 l = [CHR ''+'']) (body_lines xs ys h)) = hunk_new_end h - hunk_prefix h"
    "length (filter (\<lambda>l. take 1 l = [CHR ''-'']) (body_lines xs ys h)) = hunk_old_end h - hunk_prefix h"
  using hunk_of_spec [OF assms] by (simp_all add: body_lines_def filter_map comp_def slice_def)

lemma no_change_no_hunk: "hunk_new_end (hunk_of xs xs) = hunk_prefix (hunk_of xs xs) \<and> hunk_old_end (hunk_of xs xs) = hunk_prefix (hunk_of xs xs)"
proof -
  have "common_prefix xs xs = length xs" by (induction xs) simp_all
  then show ?thesis by (simp add: hunk_of_def Let_def common_suffix_def)
qed

text \<open>C32: a diff that is not cut turns the old lines into the new ones when it is read back, and the
  numbers reported with it are those of its lines marked as inserted and as deleted.
\<close>

theorem diff_turns_old_into_new:
  assumes "unified_diff old_name new_name old new = (diff, insertions, deletions, False)"
    "newline \<notin> set old_name" "newline \<notin> set new_name"
  shows "patch_lines diff (diff_lines old) = Some (diff_lines new) \<and>
    insertions = marked_lines (CHR ''+'') diff \<and> deletions = marked_lines (CHR ''-'') diff \<and>
    length (diff_lines new) + deletions = length (diff_lines old) + insertions"
proof -
  let ?xs = "diff_lines old" and ?ys = "diff_lines new"
  let ?h = "hunk_of ?xs ?ys"
  let ?a = "''--- '' @ file_header ''a/'' old_name old" and ?b = "''+++ '' @ file_header ''b/'' new_name new"
  let ?ls = "if ?xs = ?ys then [] else hunk_line ?xs ?ys ?h # body_lines ?xs ?ys ?h"
  have diff: "diff = join [newline] ((?a # ?b # ?ls) @ [[]])"
    "insertions = hunk_new_end ?h - hunk_prefix ?h" "deletions = hunk_old_end ?h - hunk_prefix ?h"
    using assms(1) hunk_text_lines [of ?xs ?ys ?h]
    by (auto simp: unified_diff_def bound_diff_def Let_def split: if_splits)
  have "newline \<notin> set l" if "l \<in> set (?a # ?b # ?ls)" for l
    using that assms(2,3) lines_clean [of ?xs ?ys l ?h] diff_lines_clean
    by (auto simp: file_header_def split: option.splits if_splits)
  then have "\<forall>l \<in> set ((?a # ?b # ?ls) @ [[]]). newline \<notin> set l"
    by (metis Un_iff empty_iff list.set(1) set_ConsD set_append)
  then have lines: "split_on (\<lambda>c. c = newline) diff = (?a # ?b # ?ls) @ [[]]"
    unfolding diff(1) by (rule split_on_join) simp
  have "marked_lines m diff = length (filter (\<lambda>l. take 1 l = [m]) (if ?xs = ?ys then [] else body_lines ?xs ?ys ?h))" for m
    unfolding marked_lines_def lines butlast_snoc by (simp add: numeral_3_eq_3)
  then have "insertions = marked_lines (CHR ''+'') diff \<and> deletions = marked_lines (CHR ''-'') diff"
    using marked_in_body [OF refl, of ?xs ?ys] no_change_no_hunk [of ?xs] diff(2,3) by auto
  moreover from lines have "patch_lines diff ?xs = (case ?a # ?b # ?ls of _ # _ # h # body \<Rightarrow>
      map_option ((@) (take (hunk_start h - 1) ?xs)) (apply_body body (drop (hunk_start h - 1) ?xs))
    | _ \<Rightarrow> Some ?xs)" by (simp only: patch_lines_def butlast_snoc)
  then have "patch_lines diff ?xs = Some ?ys"
    using body_lines_applied [OF refl, of ?xs ?ys]
    by (auto simp: hunk_line_def hunk_start_line [simplified])
  moreover note hunk_of_spec [OF refl, of ?xs ?ys]
  moreover from this have "length ?xs - hunk_old_end ?h = length ?ys - hunk_new_end ?h"
    by (metis length_drop)
  ultimately show ?thesis using diff(2,3) by auto
qed

definition short_file :: "string \<Rightarrow> string" where
  "short_file middle = ''a'' @ crlf @ middle @ [newline] @ ''c''"

theorem diff_turns_old_into_new_witness:
  "\<exists>diff. unified_diff ''f'' ''f'' (Some (short_file ''b'')) (Some (short_file ''B'')) = (diff, 1, 1, False) \<and>
     patch_lines diff [''a'', ''b'', ''c''] = Some [''a'', ''B'', ''c'']"
proof -
  obtain diff i d cut_off where out:
    "unified_diff ''f'' ''f'' (Some (short_file ''b'')) (Some (short_file ''B'')) = (diff, i, d, cut_off)"
    by (metis prod_cases4)
  have "case unified_diff ''f'' ''f'' (Some (short_file ''b'')) (Some (short_file ''B'')) of
      (_, i, d, truncated) \<Rightarrow> i = 1 \<and> d = 1 \<and> \<not> truncated" by code_simp
  with out have counts: "i = 1" "d = 1" "cut_off = False" by auto
  have lines: "diff_lines (Some (short_file ''b'')) = [''a'', ''b'', ''c'']"
    "diff_lines (Some (short_file ''B'')) = [''a'', ''B'', ''c'']" by code_simp+
  show ?thesis
    using diff_turns_old_into_new [OF out [unfolded counts]] out counts unfolding lines by simp
qed

text \<open>An edit that only changes line endings, or the end of the last line, has a diff without hunk.\<close>

lemma ending_changes_are_invisible:
  "unified_diff ''f'' ''f'' (Some (''a'' @ crlf @ ''b'')) (Some (''a'' @ [newline] @ ''b'' @ [newline])) =
     (''--- a/f'' @ [newline] @ ''+++ b/f'' @ [newline], 0, 0, False)"
  by code_simp

end
