(* ===== verification/Tool_Edit_Properties.thy ===== *)
theory Tool_Edit_Properties
  imports Tool_Edit_Laws Tool_Diff "HOL-Library.Code_Target_Nat"
begin

section \<open>Properties of the edit tools\<close>

text \<open>
  Edits stay in the workspace and a failed one changes no file; a patch replaces exactly its
  context; stale and concurrent changes are refused. Two defects: a link chain at the limit of
  the system leads a new file out of the workspace, and \<open>create_file\<close> reports a file it did not write.
\<close>

subsection \<open>A machine to evaluate on\<close>

definition demo_machine :: machine where
  "demo_machine = \<lparr>cwd = [RootDir], io_fault = (\<lambda>_ _. None), meanwhile = (\<lambda>_ t. t)\<rparr>"

definition demo_tool_context :: "machine \<Rightarrow> tool_context" where
  "demo_tool_context m = \<lparr>tc_directory = ''/w'', tc_machine = m, tc_cancelled = False,
     tc_digest = (\<lambda>s. s), tc_publishes = True\<rparr>"

definition demo_root :: "component list" where
  "demo_root = [RootDir, Normal ''w'']"

definition repeated :: "nat \<Rightarrow> string \<Rightarrow> string" where
  "repeated k s = concat (replicate k s)"

text \<open>A workspace with three links: to itself, around itself 39 times, and out of it.\<close>

definition trap_tree :: tree where
  "trap_tree =
     [(demo_root, Directory), ([RootDir, Normal ''o''], Directory),
      (demo_root @ [Normal ''l''], SymLink ''.''),
      (demo_root @ [Normal ''n''], SymLink (repeated 39 ''l/'')),
      (demo_root @ [Normal ''x''], SymLink ''/o'')]"

definition trap_path :: path where
  "trap_path = repeated 40 ''l/'' @ ''n/x/f''"

subsection \<open>What an edit may touch\<close>

text \<open>C6: an edit changes nothing outside the workspace, and a call that fails, or reports a conflict,
  leaves every file as it was; it may have added directories. This holds when nobody else writes
  meanwhile and the paths of the call stay within the links the system follows.
\<close>

theorem edits_stay_in_workspace:
  assumes "settled c root w" "links_bounded c root w args" "edit_tool n c args w = (r, w')"
  shows "(\<forall>cs. \<not> prefix root cs \<longrightarrow> inode_at (world_tree w') cs = inode_at (world_tree w) cs) \<and>
    (failed r \<longrightarrow> (\<forall>cs. inode_at (world_tree w') cs = inode_at (world_tree w) cs \<or>
       inode_at (world_tree w) cs = None \<and> inode_at (world_tree w') cs = Some Directory))"
  using edit_tool_keeps [OF assms(1,2), of n] assms(3)
  by (simp add: edit_keeps_def confined_def only_dirs_added_def)

definition demo_tree :: tree where
  "demo_tree =
     [(demo_root, Directory),
      (demo_root @ [Normal ''a''], RegularFile (''one'' @ crlf @ ''two'' @ crlf)),
      (demo_root @ [Normal ''s''], Directory)]"

definition demo_world :: "tree \<Rightarrow> tool_world" where
  "demo_world t = \<lparr>world_tree = t, world_events = []\<rparr>"

definition demo_patch :: json where
  "demo_patch = JObject [(''path'', JString ''s/../a''), (''old_text'', JString ''two''),
     (''new_text'', JString (''2'' @ [newline] @ ''3''))]"

definition demo_creation :: json where
  "demo_creation = JObject [(''path'', JString ''s/new/f''), (''content'', JString ''data'')]"

definition entry_ok :: "tree \<Rightarrow> component list \<times> inode \<Rightarrow> bool" where
  "entry_ok t e \<longleftrightarrow>
     (case rev (fst e) of
        Normal n # d \<Rightarrow> proper_name n \<and> inode_at t (rev d) = Some Directory | _ \<Rightarrow> False)"

lemma entries_ok: "list_all (entry_ok t) t \<Longrightarrow> tree_ok t"
  unfolding tree_ok_def list_all_iff
proof (intro allI impI)
  fix cs x assume all: "\<forall>e \<in> set t. entry_ok t e" and "inode_at t cs = Some x" "cs \<noteq> [RootDir]"
  then have "(cs, x) \<in> set t" by (auto simp: inode_at_def dest: map_of_SomeD)
  with all have "entry_ok t (cs, x)" by blast
  then show "\<exists>dir n. cs = dir @ [Normal n] \<and> proper_name n \<and> inode_at t dir = Some Directory"
    by (cases cs rule: rev_cases) (auto simp: entry_ok_def split: component.splits)
qed

lemma demo_tree_ok: "machine_ok demo_machine demo_tree"
proof -
  have "list_all (entry_ok demo_tree) demo_tree" by code_simp
  then show ?thesis by (simp add: machine_ok_def demo_machine_def entries_ok)
qed

lemma demo_settled: "settled (demo_tool_context demo_machine) demo_root (demo_world demo_tree)"
proof -
  have "workspace_directory (demo_tool_context demo_machine) demo_tree = Inr demo_root" by code_simp
  with demo_tree_ok show ?thesis
    by (simp add: settled_def in_workspace_def undisturbed_def demo_tool_context_def demo_machine_def demo_world_def)
qed

lemma demo_links:
  "links_bounded (demo_tool_context demo_machine) demo_root (demo_world demo_tree) demo_creation"
proof -
  have "within_links demo_machine demo_tree (path_join (path_text demo_root) ''s/new/f'')" by code_simp
  then show ?thesis
    by (simp add: links_bounded_def demo_creation_def demo_tool_context_def demo_world_def json_get_def json_str_def)
qed

lemma demo_created:
  "case edit_tool ''create_file'' (demo_tool_context demo_machine) demo_creation (demo_world demo_tree) of
     (r, w) \<Rightarrow> \<not> failed r \<and>
       inode_at (world_tree w) (demo_root @ map Normal [''s'', ''new'', ''f'']) = Some (RegularFile ''data'')"
  by code_simp

theorem edits_stay_in_workspace_witness:
  "\<exists>r w'. edit_tool ''create_file'' (demo_tool_context demo_machine) demo_creation (demo_world demo_tree) = (r, w') \<and>
     \<not> failed r \<and>
     (\<forall>cs. \<not> prefix demo_root cs \<longrightarrow> inode_at (world_tree w') cs = inode_at (world_tree (demo_world demo_tree)) cs)"
proof -
  obtain r w' where out:
    "edit_tool ''create_file'' (demo_tool_context demo_machine) demo_creation (demo_world demo_tree) = (r, w')"
    by fastforce
  with edits_stay_in_workspace [OF demo_settled demo_links this] demo_created show ?thesis by auto
qed

definition trap_creation :: json where
  "trap_creation = JObject [(''path'', JString trap_path), (''content'', JString ''data'')]"

text \<open>without the bound on the links a created file can leave the workspace. The path below meets
  41 links, so the last one, which leads out, is taken for a missing name; the parent of the file is
  then created, and written to, through that link.
\<close>

theorem write_escapes_at_link_limit:
  "case edit_tool ''create_file'' (demo_tool_context demo_machine) trap_creation (demo_world trap_tree) of
     (r, w') \<Rightarrow> workspace_directory (demo_tool_context demo_machine) trap_tree = Inr demo_root \<and> \<not> failed r \<and>
       inode_at trap_tree [RootDir, Normal ''o'', Normal ''f''] = None \<and>
       inode_at (world_tree w') [RootDir, Normal ''o'', Normal ''f''] = Some (RegularFile ''data'')"
  by code_simp

subsection \<open>What a patch does\<close>

text \<open>The text of a file, without the byte order mark the edited file began with.\<close>

definition body_like :: "string \<Rightarrow> string \<Rightarrow> string" where
  "body_like raw s = (if prefix bom raw then drop 3 s else s)"

lemma edit_loaded_outcome:
  assumes "machine_ok (tc_machine c) (world_tree w)" "real (world_tree w) root"
    "inode_at (world_tree w) cs = Some (RegularFile raw)" "prefix root cs" "cs \<noteq> root"
    "edit_loaded c args tool root cs k w = (r, w')" "\<not> failed r"
  shows "\<exists>f. k f w = (r, w') \<and> ef_raw f = raw \<and> ef_text f = body_like raw raw \<and>
    ef_bom f = prefix bom raw \<and> ef_eol f = detect_eol (ef_text f)"
proof -
  from assms(6,7) obtain f where f: "load_editable c (world_tree w) root cs tool = Inr f" "k f w = (r, w')"
    by (auto simp: edit_loaded_def checked_def give_def stale_revision_def Let_def split: sum.splits if_splits)
  from load_editable_file [OF assms(1-5) f(1)] have "ef_raw f = raw" "decode_editable cs raw = Inr f" by auto
  with f(2) show ?thesis
    by (auto simp: decode_editable_def body_like_def Let_def split: if_splits)
qed

lemma detect_eol_cases: "detect_eol s = crlf \<or> detect_eol s = [newline]"
  by (simp add: detect_eol_def Let_def)

lemma body_like_encoded:
  assumes "plain_endings s" "eol = crlf \<or> eol = [newline]"
  shows "normalize_eol (body_like raw (encode_new_text s eol (prefix bom raw))) = normalize_eol s"
  using encode_new_text_roundtrip [OF assms]
  by (cases "prefix bom raw") (simp_all add: body_like_def bom_def)

lemma patch_loaded_outcome:
  assumes "meets c root cs raw current w" "ef_raw f = raw" "ef_text f = body_like raw raw"
    "ef_bom f = prefix bom raw" "ef_eol f = detect_eol (ef_text f)"
    "plain_endings (body_like raw raw)" "plain_endings new"
    "patch_loaded c root cs f old new w = (r, w')" "\<not> failed r"
  shows "\<exists>a b bytes. current = raw \<and>
    normalize_eol (body_like raw raw) = a @ normalize_eol old @ b \<and>
    match_indices (normalize_eol old) (a @ normalize_eol old @ b) 0 = [length a] \<and>
    world_tree w' = put_inode cs (RegularFile bytes) (world_tree (later c w)) \<and>
    normalize_eol (body_like raw bytes) = a @ normalize_eol new @ b"
proof -
  let ?s = "body_like raw raw" and ?o = "normalize_eol old"
  obtain u os where map: "normalized_offset_map ?s = (u, os)" by fastforce
  have u: "u = normalize_eol ?s" using normalized_offset_map_spec [OF map le0] by simp
  from assms(8,9) map assms(3) obtain i where i: "match_indices ?o u 0 = [i]"
    "commit_existing c root cs f (splice ?s (os ! i) (os ! (i + length ?o)) (eol_text (ef_eol f) new)) ''patched'' w
      = (r, w')"
    by (auto simp: patch_loaded_def give_def Let_def split: list.splits)
  let ?new = "splice ?s (os ! i) (os ! (i + length ?o)) (eol_text (ef_eol f) new)"
  obtain a b where ab: "i = length a" "u = a @ ?o @ b"
    using match_indices_sound [of i ?o u 0] i(1) by auto
  have eol: "ef_eol f = crlf \<or> ef_eol f = [newline]" using assms(5) detect_eol_cases by simp
  have new: "normalize_eol ?new = a @ normalize_eol new @ b"
    using normalize_splice [OF map assms(6,7) eol, of i "i + length ?o"] ab by simp
  moreover have "carriage_return \<notin> set (normalize_eol ?s)" using assms(6) by (simp add: plain_endings_def)
  then have "carriage_return \<notin> set a \<union> set b" using u ab(2) by (metis UnE UnI1 UnI2 set_append)
  with new assms(7) have "plain_endings ?new" by (simp add: plain_endings_def)
  ultimately have "normalize_eol (body_like raw (encode_new_text ?new (ef_eol f) (prefix bom raw))) =
      a @ normalize_eol new @ b"
    using body_like_encoded [OF _ eol] by simp
  with commit_existing_outcome [OF assms(1) i(2)] assms(2,4,9) i(1) ab u show ?thesis by auto
qed

lemma checked_done:
  "checked r k w = (res, w') \<Longrightarrow> \<not> failed res \<Longrightarrow> \<exists>x. r = Inr x \<and> k x w = (res, w')"
  by (cases r) (auto simp: checked_def)

lemma json_str_SomeD: "Option.bind v json_str = Some s \<Longrightarrow> v = Some (JString s)"
  by (cases v; cases "the v") (auto simp: json_str_def)


definition demo_text :: string where
  "demo_text = ''one'' @ crlf @ ''two'' @ crlf"

lemma demo_meets:
  "meets (demo_tool_context demo_machine) demo_root (demo_root @ [Normal ''a'']) demo_text demo_text
    (demo_world demo_tree)"
proof -
  have "in_workspace (demo_tool_context demo_machine) demo_root (demo_world demo_tree)"
    by (rule settledD(1) [OF demo_settled])
  moreover have "later (demo_tool_context demo_machine) (demo_world demo_tree) = demo_world demo_tree"
    using settledD(2) [OF demo_settled] by simp
  moreover have "inode_at demo_tree demo_root = Some Directory"
    "inode_at demo_tree (demo_root @ [Normal ''a'']) = Some (RegularFile demo_text)" by code_simp+
  ultimately show ?thesis
    using demo_tree_ok by (simp add: meets_def demo_tool_context_def demo_world_def demo_machine_def)
qed


subsection \<open>Edits of a file that has changed\<close>

definition edited_path :: "string \<Rightarrow> json \<Rightarrow> json option" where
  "edited_path n args = json_get (if n = ''rename_file'' then ''source_path'' else ''path'') args"

definition editing_tools :: "string set" where
  "editing_tools = {''write_file'', ''apply_patch'', ''replace_text'', ''replace_range'', ''delete_file'', ''rename_file''}"

definition refused :: "tool_world \<Rightarrow> (tool_error + tool_result) \<times> tool_world \<Rightarrow> bool" where
  "refused w out \<longleftrightarrow>
     failed (fst out) \<and> snd out = w \<and> (\<forall>r. fst out = Inr r \<longrightarrow> tr_changed_files r = [])"

lemma refused_checked: "(\<And>x. r = Inr x \<Longrightarrow> refused w (k x w)) \<Longrightarrow> refused w (checked r k w)"
  by (cases r) (auto simp: checked_def refused_def)

lemma conflict_changes_nothing [simp]: "tr_changed_files (conflict_result root cs status detail) = []"
  by (simp add: conflict_result_def insert_all_def insert_metadata_def tool_result_new_def Let_def)

lemma refused_simps [simp]:
  "refused w (Inl err, w)" "refused w (give (conflict_result root cs status detail) w)"
  by (simp_all add: refused_def give_def)

lemma refused_edit_loaded:
  assumes "machine_ok (tc_machine c) (world_tree w)" "real (world_tree w) root"
    "inode_at (world_tree w) cs = Some (RegularFile raw)" "prefix root cs" "cs \<noteq> root"
    "json_get ''expected_revision'' args = Some (JString rv)" "rv \<noteq> []" "rv \<noteq> content_revision c raw"
  shows "refused w (edit_loaded c args tool root cs k w)"
  unfolding edit_loaded_def
  using load_editable_file [OF assms(1-5)] assms(6-8)
  by (auto intro!: refused_checked simp: stale_revision_def json_str_def)

lemma existing_for_write:
  assumes "in_workspace c root w" "resolve_existing c (world_tree w) p = Inr (root, cs)"
  shows "resolve_for_write c (world_tree w) p = Inr (root, cs)"
proof -
  let ?p = "path_join (path_text root) p"
  from assms have res: "relative_request p = Inr ()" "resolve (tc_machine c) (world_tree w) ?p = Inr cs" "prefix root cs"
    "workspace_directory c (world_tree w) = Inr root"
    by (auto simp: in_workspace_def resolve_existing_def ensure_inside_def Let_def relative_request_def
        split: sum.splits if_splits)
  with assms(1) have "host_exists (tc_machine c) (world_tree w) ?p"
    using host_exists_resolve by (simp add: in_workspace_def)
  with res show ?thesis
    by (simp add: resolve_for_write_def Let_def nearest_existing.simps [of _ _ ?p] ensure_inside_def)
qed

lemma stale_edit_refused:
  assumes "in_workspace c root w" "n \<in> editing_tools" "edited_path n args = Some (JString p)"
    "resolve_existing c (world_tree w) p = Inr (root, cs)"
    "inode_at (world_tree w) cs = Some (RegularFile raw)"
    "json_get ''expected_revision'' args = Some (JString rv)" "rv \<noteq> []" "rv \<noteq> content_revision c raw"
  shows "refused w (edit_tool n c args w)"
proof -
  have ok: "machine_ok (tc_machine c) (world_tree w)" "real (world_tree w) root" "cs \<noteq> root" "prefix root cs"
    using assms(1,5) workspace_root [OF assms(1)] resolve_existing_real [OF assms(1,4)]
    by (auto simp: in_workspace_def)
  note stale = refused_edit_loaded [OF ok(1,2) assms(5) ok(4,3) assms(6-8)]
  have writing: "refused w (write_resolved c args contents root cs w)" for contents
  proof -
    have "refused w (checked (load_if_present c (world_tree w) root cs) (\<lambda>original.
        checked (optional_string args ''expected_revision'' []) (\<lambda>expected.
          if original \<noteq> None \<and> expected \<noteq> [] \<and> content_revision c (ef_raw (the original)) \<noteq> expected
          then give (conflict_result root cs ''stale'' stale_detail)
          else commit_write c root cs original contents)) w)"
    proof (intro refused_checked)
      fix original expected assume "load_if_present c (world_tree w) root cs = Inr original"
        "optional_string args ''expected_revision'' [] = Inr expected"
      moreover have "host_exists (tc_machine c) (world_tree w) (path_text cs)"
        using inode_of_real [OF _ resolve_existing_real [OF assms(1,4), THEN conjunct2, THEN conjunct1]] ok(1) machine_okD
        by (simp add: host_exists_def)
      ultimately obtain f where "original = Some f" "ef_raw f = raw" "expected = rv"
        using load_editable_file [OF ok(1,2) assms(5) ok(4,3)] assms(6,7)
        by (auto simp: load_if_present_def optional_string_def map_sum_def split: sum.splits if_splits)
      with assms(7,8) show "refused w ((if original \<noteq> None \<and> expected \<noteq> [] \<and>
          content_revision c (ef_raw (the original)) \<noteq> expected
          then give (conflict_result root cs ''stale'' stale_detail)
          else commit_write c root cs original contents) w)" by simp
    qed
    then show ?thesis by (simp add: write_resolved_def Let_def)
  qed
  have path: "required_string args key tool = Inr q \<Longrightarrow> json_get key args = Some (JString p) \<Longrightarrow> q = p" for key tool q
    by (auto simp: required_string_def json_str_def split: if_splits)
  have exact: "refused w (replace_exact c args p tool w)" for tool
    unfolding replace_exact_def using assms(4) by (auto intro!: refused_checked stale)
  show ?thesis
  proof (cases "n = ''rename_file''")
    case True
    with assms(3) path have "required_string args ''source_path'' tool = Inr q \<Longrightarrow> q = p" for tool q
      by (simp add: edited_path_def)
    with True assms(4) show ?thesis
      unfolding rename_file_def by (auto simp: rename_file_def intro!: refused_checked stale)
  next
    case False
    with assms(3) path have path: "required_string args ''path'' tool = Inr q \<Longrightarrow> q = p" for tool q
      by (simp add: edited_path_def)
    have "refused w (write_file c args w)" "refused w (apply_patch c args w)" "refused w (replace_text c args w)"
      "refused w (replace_range c args w)" "refused w (delete_file c args w)"
      unfolding write_file_def apply_patch_def replace_text_def replace_range_def delete_file_def required_path_def
      using assms(4) existing_for_write [OF assms(1,4)] exact
      by (auto intro!: refused_checked stale writing dest!: path)
    with False assms(2) show ?thesis by (auto simp: editing_tools_def)
  qed
qed

text \<open>a call that names the revision it has seen is refused when the file has another one: the
  result is an error or a conflict that names no changed file, nothing is written and no event is
  published.
\<close>

theorem stale_edit_is_refused:
  assumes "in_workspace c root w" "n \<in> editing_tools" "edited_path n args = Some (JString p)"
    "resolve_existing c (world_tree w) p = Inr (root, cs)"
    "inode_at (world_tree w) cs = Some (RegularFile raw)"
    "json_get ''expected_revision'' args = Some (JString rv)" "rv \<noteq> []" "rv \<noteq> content_revision c raw"
  shows "refused w (edit_tool n c args w)"
  using assms by (rule stale_edit_refused)

definition stale_patch :: json where
  "stale_patch = JObject [(''path'', JString ''a''), (''old_text'', JString ''two''), (''new_text'', JString ''2''),
     (''expected_revision'', JString ''sha256:before'')]"

theorem stale_edit_is_refused_witness:
  "refused (demo_world demo_tree)
     (edit_tool ''apply_patch'' (demo_tool_context demo_machine) stale_patch (demo_world demo_tree))"
proof (rule stale_edit_is_refused [OF settledD(1) [OF demo_settled]])
  show "resolve_existing (demo_tool_context demo_machine) (world_tree (demo_world demo_tree)) ''a'' =
      Inr (demo_root, demo_root @ [Normal ''a''])"
    "edited_path ''apply_patch'' stale_patch = Some (JString ''a'')"
    "json_get ''expected_revision'' stale_patch = Some (JString ''sha256:before'')"
    "inode_at (world_tree (demo_world demo_tree)) (demo_root @ [Normal ''a'']) = Some (RegularFile demo_text)"
    "''sha256:before'' \<noteq> content_revision (demo_tool_context demo_machine) demo_text" by code_simp+
qed (simp_all add: editing_tools_def)

text \<open>Another process has replaced the contents of the file after the tool has read them.\<close>

definition overtaken :: "tool_context \<Rightarrow> component list \<Rightarrow> component list \<Rightarrow> string \<Rightarrow> tool_world \<Rightarrow> bool" where
  "overtaken c root cs raw w \<longleftrightarrow>
     in_workspace c root w \<and> prefix root cs \<and> inode_at (world_tree w) cs = Some (RegularFile raw) \<and>
     machine_ok (tc_machine c) (world_tree (later c w)) \<and>
     inode_at (world_tree (later c w)) root = Some Directory \<and>
     (\<exists>current. inode_at (world_tree (later c w)) cs = Some (RegularFile current) \<and> current \<noteq> raw)"

definition held :: "tool_context \<Rightarrow> tool_world \<Rightarrow> (tool_error + tool_result) \<times> tool_world \<Rightarrow> bool" where
  "held c w out \<longleftrightarrow>
     failed (fst out) \<and> (world_tree (snd out) = world_tree w \<or> world_tree (snd out) = world_tree (later c w))"

lemma held_checked: "(\<And>x. r = Inr x \<Longrightarrow> held c w (k x w)) \<Longrightarrow> held c w (checked r k w)"
  by (cases r) (auto simp: checked_def held_def)

lemma held_simps [simp]:
  "held c w (Inl err, w)" "held c w (give (conflict_result root cs status detail) w)"
  by (simp_all add: held_def give_def)

lemma mismatch_keeps_tree:
  assumes "machine_ok m t" "inode_at t root = Some Directory" "inode_at t cs = Some (RegularFile current)"
    "prefix root cs" "strip_root root cs = Inr rel" "current \<noteq> expected"
  shows "snd (write_workspace_file_atomic m t (path_text root) rel (Some expected) bytes) = t \<and>
      fst (write_workspace_file_atomic m t (path_text root) rel (Some expected) bytes) \<noteq> Inr True"
    "snd (delete_workspace_file m t (path_text root) rel expected) = t \<and>
      fst (delete_workspace_file m t (path_text root) rel expected) \<noteq> Inr True"
    "snd (move_workspace_file m t (path_text root) rel destination expected) = t \<and>
      fst (move_workspace_file m t (path_text root) rel destination expected) \<noteq> Inr True"
proof -
  have t: "tree_ok t" using assms(1) machine_okD by blast
  have real: "real t root" "real t cs" "cs \<noteq> root"
    using assms(2,3) by (auto simp: real_def)
  note place = resolve_workspace_real [OF assms(1) real(1,2) assms(4) real(3) assms(5)]
  obtain dir n where dir: "cs = dir @ [Normal n]" "inode_at t dir = Some Directory"
    using t assms(3) by (cases rule: tree_okE) (use assms(3) in auto)
  have read: "host_read m t (path_text cs) \<noteq> Inr expected"
    using resolve_path_text [OF t real(2), of m] assms(3,6)
    by (auto simp: host_read_def split: option.splits)
  have "snd (prepare_write m t cs) = t"
    using make_dirs_at_base [OF t real_directory [OF dir(2)], of m] dir
    by (auto simp: prepare_write_def split: option.splits)
  with read show "snd (write_workspace_file_atomic m t (path_text root) rel (Some expected) bytes) = t \<and>
      fst (write_workspace_file_atomic m t (path_text root) rel (Some expected) bytes) \<noteq> Inr True"
    by (auto simp: write_workspace_file_atomic_def place split: prod.splits sum.splits)
  from read show "snd (delete_workspace_file m t (path_text root) rel expected) = t \<and>
      fst (delete_workspace_file m t (path_text root) rel expected) \<noteq> Inr True"
    by (simp add: delete_workspace_file_def place)
  from read show "snd (move_workspace_file m t (path_text root) rel destination expected) = t \<and>
      fst (move_workspace_file m t (path_text root) rel destination expected) \<noteq> Inr True"
    by (auto simp: move_workspace_file_def place split: sum.splits)
qed

lemma held_on_tree:
  assumes "snd (f (world_tree (later c w))) = world_tree (later c w) \<and> fst (f (world_tree (later c w))) \<noteq> Inr True"
    "\<And>w'. \<exists>r w''. k False w' = (r, w'') \<and> failed r \<and> world_tree w'' = world_tree w'"
  shows "held c w (on_tree f operation k (later c w))"
proof -
  obtain r t where f: "f (world_tree (later c w)) = (r, t)" by fastforce
  show ?thesis
  proof (cases r)
    case (Inr b)
    with assms f have "b = False" "t = world_tree (later c w)" by auto
    with Inr f assms(2) [of "later c w"] show ?thesis by (auto simp: on_tree_def held_def)
  qed (use f assms(1) in \<open>simp add: on_tree_def held_def\<close>)
qed

lemma refused_commit: "\<exists>r w''. give (conflict_result root cs status detail) w' = (r, w'') \<and> failed r \<and>
    world_tree w'' = world_tree w'"
  by (simp add: give_def)

lemma overtaken_commits:
  assumes "overtaken c root cs raw w" "ef_raw f = raw"
  shows "held c w (commit_existing c root cs f updated verb w)"
    "held c w (commit_write c root cs (Some f) contents w)"
    "held c w (delete_loaded c root cs f w)"
    "held c w (move_loaded c root cs to_cs f w)"
proof -
  obtain current where late: "machine_ok (tc_machine c) (world_tree (later c w))"
      "inode_at (world_tree (later c w)) root = Some Directory"
      "inode_at (world_tree (later c w)) cs = Some (RegularFile current)" "prefix root cs" "current \<noteq> ef_raw f"
    using assms by (auto simp: overtaken_def)
  note keeps = mismatch_keeps_tree [OF late(1-4) _ late(5)]
  show "held c w (commit_existing c root cs f updated verb w)"
    unfolding commit_existing_def Let_def
    by (auto intro!: held_checked held_on_tree refused_commit simp: keeps)
  show "held c w (commit_write c root cs (Some f) contents w)"
    unfolding commit_write_def Let_def
    by (auto intro!: held_checked held_on_tree refused_commit simp: keeps replace_or_create_def)
  show "held c w (delete_loaded c root cs f w)"
    unfolding delete_loaded_def
    by (auto intro!: held_checked held_on_tree refused_commit simp: keeps)
  show "held c w (move_loaded c root cs to_cs f w)"
    unfolding move_loaded_def
    by (auto intro!: held_checked held_on_tree refused_commit simp: keeps)
qed

lemma overtaken_edit_loaded:
  assumes "overtaken c root cs raw w" "\<And>f. ef_raw f = raw \<Longrightarrow> held c w (k f w)"
  shows "held c w (edit_loaded c args tool root cs k w)"
proof -
  have ok: "machine_ok (tc_machine c) (world_tree w)" "real (world_tree w) root"
      "inode_at (world_tree w) cs = Some (RegularFile raw)" "prefix root cs" "cs \<noteq> root"
    using assms(1) workspace_root by (auto simp: overtaken_def in_workspace_def)
  show ?thesis
    unfolding edit_loaded_def
    using load_editable_file [OF ok] assms(2)
    by (auto intro!: held_checked simp: stale_revision_def Let_def)
qed

lemma overtaken_loaded_tools:
  assumes "overtaken c root cs raw w" "ef_raw f = raw"
  shows "held c w (patch_loaded c root cs f old new w)"
    "held c w (replace_lines c root cs start end_line expected new f w)"
  using overtaken_commits(1) [OF assms]
  by (auto simp: patch_loaded_def replace_lines_def Let_def split: prod.splits list.splits)

lemma overtaken_write_resolved:
  assumes "overtaken c root cs raw w"
  shows "held c w (write_resolved c args contents root cs w)"
proof -
  have ok: "machine_ok (tc_machine c) (world_tree w)" "real (world_tree w) root"
      "inode_at (world_tree w) cs = Some (RegularFile raw)" "prefix root cs" "cs \<noteq> root"
    using assms(1) workspace_root by (auto simp: overtaken_def in_workspace_def)
  have exists: "host_exists (tc_machine c) (world_tree w) (path_text cs)"
    using inode_of_real [of "world_tree w" cs] ok(1,3) machine_okD by (simp add: host_exists_def real_def)
  have "held c w (checked (load_if_present c (world_tree w) root cs) (\<lambda>original.
      checked (optional_string args ''expected_revision'' []) (\<lambda>expected.
        if original \<noteq> None \<and> expected \<noteq> [] \<and> content_revision c (ef_raw (the original)) \<noteq> expected
        then give (conflict_result root cs ''stale'' stale_detail)
        else commit_write c root cs original contents)) w)"
  proof (intro held_checked)
    fix original expected assume "load_if_present c (world_tree w) root cs = Inr original"
    with exists obtain f where "original = Some f" "ef_raw f = raw"
      using load_editable_file [OF ok] by (auto simp: load_if_present_def map_sum_def split: sum.splits)
    with overtaken_commits(2) [OF assms] show "held c w ((if original \<noteq> None \<and> expected \<noteq> [] \<and>
        content_revision c (ef_raw (the original)) \<noteq> expected
        then give (conflict_result root cs ''stale'' stale_detail)
        else commit_write c root cs original contents) w)" by simp
  qed
  then show ?thesis by (simp add: write_resolved_def Let_def)
qed


definition busy_machine :: machine where
  "busy_machine = \<lparr>cwd = [RootDir], io_fault = (\<lambda>_ _. None),
     meanwhile = (\<lambda>k t. if k = AfterRead then put_inode (demo_root @ [Normal ''a'']) (RegularFile ''other'') t else t)\<rparr>"


text \<open>C6: \<open>create_file\<close> does not do the same. When another process creates the file after the check that
  it is missing, the tool reports that it has created it and publishes the change, and the file
  holds what the other process has written.
\<close>

definition rival_machine :: machine where
  "rival_machine = \<lparr>cwd = [RootDir], io_fault = (\<lambda>_ _. None),
     meanwhile = (\<lambda>k t. if k = AfterRead then put_inode (demo_root @ [Normal ''f'']) (RegularFile ''other'') t else t)\<rparr>"

theorem create_reports_file_it_did_not_write:
  "case edit_tool ''create_file'' (demo_tool_context rival_machine)
       (JObject [(''path'', JString ''f''), (''content'', JString ''mine'')]) (demo_world demo_tree) of
     (r, w') \<Rightarrow> \<not> failed r \<and> world_events w' = [FileChanged ''/w/f'' Added] \<and>
       inode_at demo_tree (demo_root @ [Normal ''f'']) = None \<and>
       inode_at (world_tree w') (demo_root @ [Normal ''f'']) = Some (RegularFile ''other'')"
  by code_simp

text \<open>
  The comparison and the replacement are two steps: a change that falls between them is lost. A
  text that occurs twice, with its occurrences overlapping, passes for one that occurs once. And an
  edit of one line of a file with both kinds of line endings changes the other lines.
\<close>

definition late_machine :: machine where
  "late_machine = \<lparr>cwd = [RootDir], io_fault = (\<lambda>_ _. None),
     meanwhile = (\<lambda>k t. if k = BeforePersist then put_inode (demo_root @ [Normal ''a'']) (RegularFile ''other'') t else t)\<rparr>"

lemma late_change_is_lost:
  "case edit_tool ''apply_patch'' (demo_tool_context late_machine) demo_patch (demo_world demo_tree) of
     (r, w') \<Rightarrow> \<not> failed r \<and> inode_at (world_tree w') (demo_root @ [Normal ''a'']) =
       Some (RegularFile (''one'' @ crlf @ ''2'' @ crlf @ ''3'' @ crlf))"
  by code_simp

definition one_file :: "string \<Rightarrow> tool_world" where
  "one_file s = demo_world [(demo_root, Directory), (demo_root @ [Normal ''a''], RegularFile s)]"

definition patch_of :: "string \<Rightarrow> string \<Rightarrow> json" where
  "patch_of old new = JObject [(''path'', JString ''a''), (''old_text'', JString old), (''new_text'', JString new)]"

lemma overlapping_match_is_patched:
  "case edit_tool ''apply_patch'' (demo_tool_context demo_machine) (patch_of ''aXa'' ''b'') (one_file ''aXaXa'') of
     (r, w') \<Rightarrow> \<not> failed r \<and>
       inode_at (world_tree w') (demo_root @ [Normal ''a'']) = Some (RegularFile ''bXa'')"
  by code_simp

lemma mixed_endings_are_rewritten:
  "case edit_tool ''apply_patch'' (demo_tool_context demo_machine) (patch_of ''c'' ''d'')
       (one_file (''a'' @ [newline] @ ''b'' @ crlf @ ''c'')) of
     (r, w') \<Rightarrow> \<not> failed r \<and> inode_at (world_tree w') (demo_root @ [Normal ''a'']) =
       Some (RegularFile (''a'' @ crlf @ ''b'' @ crlf @ ''d''))"
  by code_simp

end
