(* ===== verification/Tool_Registry_Laws.thy ===== *)
theory Tool_Registry_Laws
  imports Tool_Registry Tool_Edit_Properties
begin

section \<open>Laws of the registry\<close>

text \<open>
  A call runs only when the policy allows each of its requests, in the state the policy has reached
  by then; a call that is not allowed publishes events and does nothing else.
\<close>

subsection \<open>Published events\<close>

lemma registry_emit_simps [simp]:
  "world_tree (rs_world (registry_emit c e st)) = world_tree (rs_world st)"
  "rs_revisions (registry_emit c e st) = rs_revisions st"
  "rs_policy (registry_emit c e st) = rs_policy st"
  by (simp_all add: registry_emit_def)

definition untouched :: "'p registry_state \<Rightarrow> 'p registry_state \<Rightarrow> bool" where
  "untouched st st' \<longleftrightarrow>
     world_tree (rs_world st') = world_tree (rs_world st) \<and> rs_revisions st' = rs_revisions st \<and>
     (\<exists>es. world_events (rs_world st') = world_events (rs_world st) @ es \<and>
        (\<forall>name. ToolStarted name \<notin> set es))"

lemma untouched_refl [simp, intro]: "untouched st st"
  by (simp add: untouched_def)

lemma untouched_trans: "untouched st st1 \<Longrightarrow> untouched st1 st2 \<Longrightarrow> untouched st st2"
  unfolding untouched_def by (metis Un_iff append.assoc set_append)

lemma untouched_emit [simp]: "(\<And>name. e \<noteq> ToolStarted name) \<Longrightarrow> untouched st (registry_emit c e st)"
  by (auto simp: untouched_def registry_emit_def tool_emit_def)

lemma untouched_policy [simp]: "untouched st (st\<lparr>rs_policy := pol\<rparr>)"
  by (simp add: untouched_def)

subsection \<open>Judging a call\<close>

text \<open>The policy allows a list of requests, one after the other.\<close>

fun all_allowed :: "'p registry_context \<Rightarrow> 'p \<Rightarrow> policy_request list \<Rightarrow> bool" where
  "all_allowed c pol [] \<longleftrightarrow> True"
| "all_allowed c pol (r # rs) \<longleftrightarrow>
     (case rc_evaluate c pol r of (ev, pol) \<Rightarrow> decision ev = Allow \<and> all_allowed c pol rs)"

text \<open>The state of the policy behind a list of requests that stops at the first one not allowed.\<close>

fun policy_after :: "'p registry_context \<Rightarrow> 'p \<Rightarrow> policy_request list \<Rightarrow> 'p" where
  "policy_after c pol [] = pol"
| "policy_after c pol (r # rs) =
     (case rc_evaluate c pol r of (ev, pol) \<Rightarrow> if decision ev = Allow then policy_after c pol rs else pol)"

definition refusal :: "harness_error \<Rightarrow> bool" where
  "refusal err \<longleftrightarrow> (\<exists>cap reason. err = PermissionDenied cap \<or> err = PermissionRequired cap reason)"

lemma refusal_simps [simp]:
  "refusal (PermissionDenied cap)" "refusal (PermissionRequired cap reason)" "\<not> refusal (ToolError tool msg)"
  by (auto simp: refusal_def)

lemma judge_cases:
  assumes "judge c name cap r st = (out, st')"
  shows "untouched st st' \<and> rs_policy st' = snd (rc_evaluate c (rs_policy st) r) \<and>
    (case out of
       Inr ev \<Rightarrow> ev = fst (rc_evaluate c (rs_policy st) r) \<and> decision ev = Allow
     | Inl err \<Rightarrow> refusal err \<and> decision (fst (rc_evaluate c (rs_policy st) r)) \<noteq> Allow)"
proof -
  obtain ev pol where ev: "rc_evaluate c (rs_policy st) r = (ev, pol)" by fastforce
  have asked: "untouched st (registry_emit c (decision_event name r ev) (st\<lparr>rs_policy := pol\<rparr>))"
    using untouched_trans [OF untouched_policy [of st pol] untouched_emit] by (simp add: decision_event_def)
  have "untouched st (registry_emit c (ToolDenied name msg)
      (registry_emit c (decision_event name r ev) (st\<lparr>rs_policy := pol\<rparr>)))" for msg
    by (rule untouched_trans [OF asked]) simp
  with asked ev assms show ?thesis
    by (cases "decision ev") (auto simp: judge_def Let_def)
qed

definition call_requests ::
  "'p registry_context \<Rightarrow> tree \<Rightarrow> string \<Rightarrow> registered_tool \<Rightarrow> json \<Rightarrow> policy_request list" where
  "call_requests c t name tool args =
     build_policy_request c t name tool args #
       (if name = ''rename_file'' then [destination_request c t name tool args] else [])"

lemma judge_call_cases:
  assumes "judge_call c name tool args st = (out, st')"
    "rs = call_requests c (world_tree (rs_world st)) name tool args"
  shows "untouched st st' \<and> rs_policy st' = policy_after c (rs_policy st) rs \<and>
    (case out of Inr ev \<Rightarrow> all_allowed c (rs_policy st) rs | Inl err \<Rightarrow> refusal err \<and> \<not> all_allowed c (rs_policy st) rs)"
proof -
  let ?op = "operation_name (rt_operation tool)" and ?t = "world_tree (rs_world st)"
  obtain out1 st1 where first:
    "judge c name (?op @ '' '' @ name) (build_policy_request c ?t name tool args) st = (out1, st1)" by fastforce
  note one = judge_cases [OF first]
  obtain ev1 pol1 where ev1: "rc_evaluate c (rs_policy st) (build_policy_request c ?t name tool args) = (ev1, pol1)"
    by fastforce
  show ?thesis
  proof (cases "out1 \<noteq> Inl (projl out1) \<and> name = ''rename_file''")
    case False
    with first one ev1 assms show ?thesis
      by (cases out1) (auto simp: judge_call_def Let_def call_requests_def)
  next
    case True
    then obtain ev where out1: "out1 = Inr ev" by (cases out1) auto
    obtain out2 st2 where second:
      "judge c name (?op @ '' destination'') (destination_request c ?t name tool args) st1 = (out2, st2)" by fastforce
    obtain ev2 pol2 where ev2: "rc_evaluate c pol1 (destination_request c ?t name tool args) = (ev2, pol2)"
      by fastforce
    from one out1 True first second ev1 ev2 judge_cases [OF second] assms show ?thesis
      by (cases out2) (auto simp: judge_call_def Let_def call_requests_def intro: untouched_trans)
  qed
qed

subsection \<open>A call that is not allowed\<close>

lemma attach_keeps_requests:
  "call_requests c t name tool (attach_read_revision c name args st) = call_requests c t name tool args"
proof -
  have "json_get key (attach_read_revision c name args st) = json_get key args" if "key \<noteq> ''expected_revision''" for key
    using that by (auto simp: attach_read_revision_def json_get_def update_conv' split: json.splits option.splits)
  then have keys: "json_get ''path'' (attach_read_revision c name args st) = json_get ''path'' args"
    "json_get ''working_directory'' (attach_read_revision c name args st) = json_get ''working_directory'' args"
    "json_get ''command'' (attach_read_revision c name args st) = json_get ''command'' args"
    "json_get ''destination_path'' (attach_read_revision c name args st) = json_get ''destination_path'' args"
    by simp_all
  show ?thesis
    unfolding call_requests_def build_policy_request_def destination_request_def path_argument_def Let_def keys ..
qed

lemma registered_requests:
  "registry_policy_requests g c t r = Inr rs \<longleftrightarrow>
     (\<exists>tool. registered g (tool_request_name r) = Some tool \<and>
       rs = call_requests c t (tool_request_name r) tool (tool_arguments r))"
  by (auto simp: registry_policy_requests_def call_requests_def split: option.splits)

lemma execute_not_allowed:
  assumes "registry_policy_requests g c (world_tree (rs_world st)) r = Inr rs"
    "registry_execute g c r st = (out, st')" "\<not> all_allowed c (rs_policy st) rs"
  shows "untouched st st' \<and> rs_policy st' = policy_after c (rs_policy st) rs \<and> (\<exists>err. out = Inl err \<and> refusal err)"
proof -
  let ?name = "tool_request_name r"
  let ?st = "registry_emit c (ToolRequested ?name (event_arguments c (tool_arguments r))) st"
  obtain tool where tool: "registered g ?name = Some tool"
      "rs = call_requests c (world_tree (rs_world st)) ?name tool (tool_arguments r)"
    using assms(1) by (auto simp: registered_requests)
  obtain out1 st1 where judged:
    "judge_call c ?name tool (attach_read_revision c ?name (tool_arguments r) ?st) ?st = (out1, st1)" by fastforce
  from judge_call_cases [OF judged refl] tool(2) have
    "untouched ?st st1 \<and> rs_policy st1 = policy_after c (rs_policy st) rs \<and>
      (case out1 of Inr ev \<Rightarrow> all_allowed c (rs_policy st) rs | Inl err \<Rightarrow> refusal err)"
    by (auto simp: attach_keeps_requests split: sum.splits)
  moreover note untouched_trans [of st ?st st1]
  moreover have "untouched st ?st" by simp
  ultimately show ?thesis
    using judged tool(1) assms(2,3) by (cases out1) (auto simp: registry_execute_def Let_def)
qed

text \<open>A call that is allowed is executed, and its error is one of the tool.\<close>

lemma execute_allowed:
  assumes "registry_policy_requests g c (world_tree (rs_world st)) r = Inr rs"
    "registry_execute g c r st = (out, st')" "all_allowed c (rs_policy st) rs"
  shows "\<exists>tool st1 ev. registered g (tool_request_name r) = Some tool \<and> untouched st st1 \<and>
    rs_policy st1 = policy_after c (rs_policy st) rs \<and>
    run_allowed g c (tool_request_name r) tool
      (attach_read_revision c (tool_request_name r) (tool_arguments r) st) ev st1 = (out, st')"
proof -
  let ?name = "tool_request_name r"
  let ?st = "registry_emit c (ToolRequested ?name (event_arguments c (tool_arguments r))) st"
  obtain tool where tool: "registered g ?name = Some tool"
      "rs = call_requests c (world_tree (rs_world st)) ?name tool (tool_arguments r)"
    using assms(1) by (auto simp: registered_requests)
  obtain out1 st1 where judged:
    "judge_call c ?name tool (attach_read_revision c ?name (tool_arguments r) ?st) ?st = (out1, st1)" by fastforce
  from judge_call_cases [OF judged refl] tool(2) assms(3) obtain ev where
    "untouched ?st st1" "rs_policy st1 = policy_after c (rs_policy st) rs" "out1 = Inr ev"
    by (auto simp: attach_keeps_requests split: sum.splits)
  moreover note untouched_trans [of st ?st st1]
  moreover have "untouched st ?st" by simp
  moreover have "attach_read_revision c ?name (tool_arguments r) ?st = attach_read_revision c ?name (tool_arguments r) st"
    unfolding attach_read_revision_def registry_emit_simps ..
  ultimately show ?thesis
    using judged tool(1) assms(2) by (auto simp: registry_execute_def Let_def)
qed

end
