(* ===== verification/Tool_Read_Laws.thy ===== *)
theory Tool_Read_Laws
  imports Tool_Read Tool_Edit_Properties
begin

section \<open>Laws of the reading tools\<close>

text \<open>
  What \<open>read_file\<close> gives back, the files \<open>glob\<close> and \<open>grep\<close> look at, and \<open>grep\<close> against a reference
  that first collects every matching line.
\<close>

subsection \<open>\<open>read_file\<close>\<close>

lemma metadata_insert [simp]: "map_of (tr_metadata (insert_metadata k v r)) = (map_of (tr_metadata r))(k \<mapsto> v)"
  by (simp add: insert_metadata_def update_conv')

lemma insert_metadata_other [simp]:
  "tr_output (insert_metadata k v r) = tr_output r" "tr_is_error (insert_metadata k v r) = tr_is_error r"
  "tr_changed_files (insert_metadata k v r) = tr_changed_files r"
  by (simp_all add: insert_metadata_def)

lemma insert_all_simps [simp]:
  "insert_all [] r = r" "insert_all ((k, v) # kvs) r = insert_all kvs (insert_metadata k v r)"
  by (simp_all add: insert_all_def)

lemma insert_all_append [simp]: "insert_all (xs @ ys) r = insert_all ys (insert_all xs r)"
  by (simp add: insert_all_def)

lemma read_result_fields:
  "\<not> tr_is_error (read_result c root cs bytes output i j)"
  "tr_changed_files (read_result c root cs bytes output i j) = []"
  "tr_output (read_result c root cs bytes output i j) = output"
  "map_of (tr_metadata (read_result c root cs bytes output i j)) ''path'' = Some (JString (relative_string root cs))"
  "map_of (tr_metadata (read_result c root cs bytes output i j)) ''revision'' =
     Some (JString (content_revision c bytes))"
  by (cases i; cases j; simp add: read_result_def tool_result_new_def)+

lemma snapshot_file:
  assumes "machine_ok (tc_machine c) t" "real t root" "inode_at t cs = Some (RegularFile raw)"
    "prefix root cs" "cs \<noteq> root" "read_text_snapshot c t root cs tool limit = Inr (bytes, full)"
  shows "bytes = raw \<and> full = body_like raw raw \<and> length raw \<le> limit"
proof -
  have t: "tree_ok t" using assms(1) machine_okD by blast
  have real: "real t cs" using assms(3) by (simp add: real_def)
  from assms(6) have lim: "\<not> limit < file_length (tc_machine c) t (path_text cs)"
    and read: "read_limited c t root cs tool limit = Inr bytes"
    and full: "full = (if prefix bom bytes then drop 3 bytes else bytes)"
    by (auto simp: read_text_snapshot_def split: if_splits)
  have "bytes = raw" by (rule read_limited_file [OF assms(1-5) read])
  moreover have "length raw \<le> limit"
    using lim inode_of_real [OF t real, of "tc_machine c"] assms(3) by (simp add: file_length_def)
  ultimately show ?thesis using full by (simp add: body_like_def)
qed

lemma checked_Inr: "checked r k w = (Inr res, w') \<longleftrightarrow> (\<exists>x. r = Inr x \<and> k x w = (Inr res, w'))"
  by (cases r) (auto simp: checked_def)

lemma required_path_given:
  "required_path args tool = Inr q \<Longrightarrow> json_get ''path'' args = Some (JString p) \<Longrightarrow> q = p"
  by (auto simp: required_path_def required_string_def json_str_def split: if_splits)

lemma read_file_steps:
  assumes "read_file c args w = (Inr res, w')" "json_get ''path'' args = Some (JString p)"
  shows "\<exists>root cs i j bytes full shown. resolve_existing c (world_tree w) p = Inr (root, cs) \<and>
    optional_line args ''start_line'' ''read_file'' = Inr i \<and> optional_line args ''end_line'' ''read_file'' = Inr j \<and>
    (i = None \<longleftrightarrow> j = None) \<and>
    read_text_snapshot c (world_tree w) root cs ''read_file'' (if i = None then max_file_bytes else max_edit_file_bytes)
      = Inr (bytes, full) \<and>
    (case (i, j) of (Some i, Some j) \<Rightarrow> selected_lines cs full i j | _ \<Rightarrow> Inr full) = Inr shown \<and>
    res = read_result c root cs bytes shown i j \<and> w' = w"
proof -
  from assms obtain root cs i j where steps: "resolve_existing c (world_tree w) p = Inr (root, cs)"
    "optional_line args ''start_line'' ''read_file'' = Inr i" "optional_line args ''end_line'' ''read_file'' = Inr j"
    "(i = None) = (j = None)" "read_snapshot_lines c root cs i j w = (Inr res, w')"
    using required_path_given [OF _ assms(2)]
    by (auto simp: read_file_def checked_Inr split: if_splits)
  from steps(5) obtain bytes full shown where
    "read_text_snapshot c (world_tree w) root cs ''read_file'' (if i = None then max_file_bytes else max_edit_file_bytes)
      = Inr (bytes, full)"
    "(case (i, j) of (Some i, Some j) \<Rightarrow> selected_lines cs full i j | _ \<Rightarrow> Inr full) = Inr shown"
    "res = read_result c root cs bytes shown i j" "w' = w"
    unfolding read_snapshot_lines_def
    by (simp only: checked_Inr prod.case split: if_splits) (auto simp: checked_Inr give_def)
  with steps show ?thesis by blast
qed

text \<open>The bytes between two lines are the lines.\<close>

lemma concat_split_inclusive [simp]: "concat (split_inclusive s) = s"
proof (induction s)
  case (Cons c s)
  then show ?case by (cases "split_inclusive s") auto
qed simp

lemma ranges_from_nth:
  "i < length ls \<Longrightarrow> ranges_from n ls ! i = (n + length (concat (take i ls)), n + length (concat (take (Suc i) ls)))"
proof (induction ls arbitrary: i n)
  case (Cons l ls)
  then show ?case by (cases i) auto
qed simp

lemma length_ranges_from [simp]: "length (ranges_from n ls) = length ls"
  by (induction ls arbitrary: n) auto

lemma concat_slice:
  assumes "i \<le> j"
  shows "slice (length (concat (take i ls))) (length (concat (take j ls))) (concat ls) = concat (slice i j ls)"
proof -
  have "concat ls = concat (take j ls) @ concat (drop j ls)" by (metis append_take_drop_id concat_append)
  moreover have "concat (take j ls) = concat (take i ls) @ concat (slice i j ls)"
    using take_slice [OF assms, of ls] by (metis concat_append)
  ultimately show ?thesis by (simp add: slice_def)
qed

lemma selected_lines_concat:
  assumes "selected_lines cs full i j = Inr shown" "0 < i"
  shows "shown = concat (slice (i - 1) j (split_inclusive full)) \<and> i \<le> j \<and>
    j \<le> length (split_inclusive full) \<and> length shown \<le> max_file_bytes"
proof -
  from assms(1) have bounds: "i \<le> j" "j \<le> length (split_inclusive full)"
    and shown: "shown = slice (fst (line_byte_ranges full ! (i - 1))) (snd (line_byte_ranges full ! (j - 1))) full"
    and len: "length shown \<le> max_file_bytes"
    by (auto simp: selected_lines_def line_byte_ranges_def Let_def split: if_splits)
  have "shown = slice (length (concat (take (i - 1) (split_inclusive full))))
      (length (concat (take j (split_inclusive full)))) (concat (split_inclusive full))"
    using shown bounds assms(2) by (simp add: line_byte_ranges_def ranges_from_nth)
  also have "\<dots> = concat (slice (i - 1) j (split_inclusive full))" using bounds by (intro concat_slice) simp
  finally show ?thesis using bounds len by simp
qed

text \<open>C35: \<open>read_file\<close> on a file of the workspace gives its text without the byte order mark, or the
  lines that were asked for, byte for byte and at most 256 KiB, with the revision of the whole file,
  and changes nothing.
\<close>

theorem read_file_returns_lines:
  assumes "in_workspace c root w" "json_get ''path'' args = Some (JString p)"
    "resolve_existing c (world_tree w) p = Inr (root, cs)" "inode_at (world_tree w) cs = Some (RegularFile raw)"
    "read_file c args w = (Inr res, w')"
  shows "w' = w \<and> length (tr_output res) \<le> max_file_bytes \<and>
    map_of (tr_metadata res) ''revision'' = Some (JString (content_revision c raw)) \<and>
    (case (Option.bind (json_get ''start_line'' args) json_u64, Option.bind (json_get ''end_line'' args) json_u64) of
       (Some i, Some j) \<Rightarrow> 1 \<le> i \<and> i \<le> j \<and> j \<le> length (split_inclusive (body_like raw raw)) \<and>
         tr_output res = concat (slice (i - 1) j (split_inclusive (body_like raw raw)))
     | _ \<Rightarrow> tr_output res = body_like raw raw)"
proof -
  have ok: "machine_ok (tc_machine c) (world_tree w)" "real (world_tree w) root" "prefix root cs" "cs \<noteq> root"
    using assms(1,4) workspace_root [OF assms(1)] resolve_existing_real [OF assms(1,3)]
    by (auto simp: in_workspace_def)
  from read_file_steps [OF assms(5,2)] obtain root' cs' i j bytes full shown where read:
    "resolve_existing c (world_tree w) p = Inr (root', cs')"
    "optional_line args ''start_line'' ''read_file'' = Inr i" "optional_line args ''end_line'' ''read_file'' = Inr j"
    "i = None \<longleftrightarrow> j = None"
    "read_text_snapshot c (world_tree w) root' cs' ''read_file'' (if i = None then max_file_bytes else max_edit_file_bytes)
      = Inr (bytes, full)"
    "(case (i, j) of (Some i, Some j) \<Rightarrow> selected_lines cs' full i j | _ \<Rightarrow> Inr full) = Inr shown"
    "res = read_result c root' cs' bytes shown i j" "w' = w" by blast
  from read(1) assms(3) have [simp]: "root' = root" "cs' = cs" by simp_all
  have snap: "bytes = raw" "full = body_like raw raw" "i = None \<Longrightarrow> length raw \<le> max_file_bytes"
    using snapshot_file [OF ok(1,2) assms(4) ok(3,4)] read(5) by auto
  have line: "optional_line args key tool = Inr v \<Longrightarrow>
      (v = None \<longleftrightarrow> json_get key args = None) \<and> v = Option.bind (json_get key args) json_u64 \<and> v \<noteq> Some 0" for key tool v
    by (cases "json_get key args"; cases "Option.bind (json_get key args) json_u64")
      (auto simp: optional_line_def required_line_def dest: sym split: if_splits)
  show ?thesis
  proof (cases i)
    case None
    have "length (body_like raw raw) \<le> length raw" by (simp add: body_like_def)
    with None read snap line [OF read(2)] line [OF read(3)] show ?thesis by (auto simp: read_result_fields)
  next
    case (Some n)
    with read(4) obtain k where "j = Some k" by auto
    with Some read snap line [OF read(2)] line [OF read(3)] selected_lines_concat [of cs full n k shown]
    show ?thesis by (auto simp: read_result_fields)
  qed
qed

definition demo_read :: json where
  "demo_read = JObject [(''path'', JString ''a''), (''start_line'', JNumber ''2''), (''end_line'', JNumber ''2'')]"

theorem read_file_returns_lines_witness:
  "\<exists>res w'. read_file (demo_tool_context demo_machine) demo_read (demo_world demo_tree) = (Inr res, w') \<and>
     tr_output res = concat (slice 1 2 (split_inclusive demo_text))"
proof -
  let ?c = "demo_tool_context demo_machine" and ?w = "demo_world demo_tree"
  have "is_ok (fst (read_file ?c demo_read ?w))" by code_simp
  then obtain res w' where read: "read_file ?c demo_read ?w = (Inr res, w')"
    by (cases "read_file ?c demo_read ?w"; cases "fst (read_file ?c demo_read ?w)") auto
  have "json_get ''path'' demo_read = Some (JString ''a'')"
    "resolve_existing ?c (world_tree ?w) ''a'' = Inr (demo_root, demo_root @ [Normal ''a''])"
    "inode_at (world_tree ?w) (demo_root @ [Normal ''a'']) = Some (RegularFile demo_text)"
    "Option.bind (json_get ''start_line'' demo_read) json_u64 = Some 2"
    "Option.bind (json_get ''end_line'' demo_read) json_u64 = Some 2"
    "body_like demo_text demo_text = demo_text" by code_simp+
  with read_file_returns_lines [OF settledD(1) [OF demo_settled] _ _ _ read] read show ?thesis by auto
qed

subsection \<open>\<open>grep\<close> against a reference\<close>

text \<open>Every matching line of every file, in order.\<close>

fun line_hits :: "(string \<Rightarrow> bool) \<Rightarrow> string \<Rightarrow> nat \<Rightarrow> string list \<Rightarrow> string list" where
  "line_hits re name n [] = []"
| "line_hits re name n (l # ls) = (if re l then [grep_line name n l] else []) @ line_hits re name (n + 1) ls"

definition all_hits ::
  "(component list \<Rightarrow> (string \<times> string list) option) \<Rightarrow> (string \<Rightarrow> bool) \<Rightarrow> component list list \<Rightarrow> string list" where
  "all_hits source re css =
     concat (map (\<lambda>cs. case source cs of None \<Rightarrow> [] | Some (name, ls) \<Rightarrow> line_hits re name 1 ls) css)"

lemma grep_lines_hits:
  "length acc \<le> limit \<Longrightarrow>
   grep_lines re name limit n ls acc =
     (take limit (acc @ line_hits re name n ls), limit < length (acc @ line_hits re name n ls))"
proof (induction ls arbitrary: n acc)
  case (Cons l ls)
  show ?case
  proof (cases "re l \<and> length acc = limit")
    case False
    with Cons.prems have "length (acc @ (if re l then [grep_line name n l] else [])) \<le> limit" by auto
    from Cons.IH [OF this, of "n + 1"] False show ?thesis by auto
  qed auto
qed simp

lemma grep_files_hits:
  "length acc \<le> limit \<Longrightarrow>
   grep_files source re limit css acc =
     (take limit (acc @ all_hits source re css), limit < length (acc @ all_hits source re css))"
proof (induction css arbitrary: acc)
  case (Cons cs css)
  show ?case
  proof (cases "source cs")
    case None
    with Cons show ?thesis by (simp add: all_hits_def)
  next
    case (Some src)
    obtain name ls where src: "src = (name, ls)" by (cases src)
    show ?thesis
    proof (cases "limit < length (acc @ line_hits re name 1 ls)")
      case True
      with Some src Cons.prems show ?thesis by (simp add: grep_lines_hits all_hits_def)
    next
      case False
      then have "length (acc @ line_hits re name 1 ls) \<le> limit" by simp
      from Cons.IH [OF this] False Some src Cons.prems show ?thesis by (simp add: grep_lines_hits all_hits_def)
    qed
  qed
qed (simp add: all_hits_def)

text \<open>\<open>grep\<close> reports the first matching lines in the order of the files, as many as the limit
  admits, and says that it was cut exactly when there are more.
\<close>

theorem grep_is_first_hits:
  "grep_below c t root base matcher re limit =
     (let hits = all_hits (grep_source c t root base matcher) re (files_below (tc_machine c) t base)
      in (take limit hits, limit < length hits))"
  by (simp add: grep_below_def grep_files_hits Let_def)

subsection \<open>The files that are searched\<close>

lemma entries_in_sound:
  assumes "(n, x) \<in> set (entries_in t dir)"
  shows "inode_at t (dir @ [Normal n]) = Some x"
proof -
  let ?at = "\<lambda>cs. case (if cs = [] then RootDir else last cs) of
      Normal k \<Rightarrow> if butlast cs = dir then (case inode_at t cs of Some y \<Rightarrow> [(k, y)] | None \<Rightarrow> []) else []
    | _ \<Rightarrow> []"
  have "\<exists>cs. (n, x) \<in> set (?at cs)" using assms unfolding entries_in_def set_concat set_map by blast
  then obtain cs where at: "(n, x) \<in> set (?at cs)" ..
  show ?thesis
  proof (cases cs rule: rev_cases)
    case Nil
    with at show ?thesis by simp
  next
    case (snoc d k)
    from at have "(n, x) \<in> set (case k of
        Normal name \<Rightarrow> if d = dir then (case inode_at t (d @ [k]) of Some y \<Rightarrow> [(name, y)] | None \<Rightarrow> []) else []
      | _ \<Rightarrow> [])"
      by (simp only: snoc butlast_snoc last_snoc if_False append_is_Nil_conv list.distinct simp_thms)
    note listed = this
    obtain name where "k = Normal name" using listed by (cases k) (simp_all only: component.case list.set empty_iff)
    moreover from this listed have "d = dir" by (cases "d = dir") simp_all
    ultimately show ?thesis using listed by (cases "inode_at t (d @ [k])") simp_all
  qed
qed

text \<open>A directory the walk enters: every directory on the way is one, and none has a skipped name.\<close>

definition opened :: "tree \<Rightarrow> component list \<Rightarrow> component list \<times> nat \<Rightarrow> bool" where
  "opened t base e \<longleftrightarrow>
     (\<exists>ns. fst e = base @ map Normal ns \<and> snd e = length ns \<and> \<not> list_ex should_skip ns \<and> real t (fst e))"

definition searchable :: "tree \<Rightarrow> component list \<Rightarrow> component list \<Rightarrow> bool" where
  "searchable t base cs \<longleftrightarrow>
     (\<exists>ns s. cs = base @ map Normal ns \<and> ns \<noteq> [] \<and> length ns \<le> 17 \<and> \<not> list_ex should_skip ns \<and>
       inode_at t cs = Some (RegularFile s))"

lemma found_below:
  assumes "opened t base (dir, depth)" "depth \<le> 16" "\<And>n x. (n, x) \<in> set es \<Longrightarrow> inode_at t (dir @ [Normal n]) = Some x"
  shows "list_all (searchable t base) (found_files dir es)" "list_all (opened t base) (found_directories dir depth es)"
proof -
  obtain ns where ns: "dir = base @ map Normal ns" "depth = length ns" "\<not> list_ex should_skip ns"
    using assms(1) by (auto simp: opened_def)
  have step: "dir @ [Normal n] = base @ map Normal (ns @ [n])" "length (ns @ [n]) = depth + 1" for n
    using ns by simp_all
  have "searchable t base (dir @ [Normal n])" if "(n, RegularFile s) \<in> set es" "\<not> should_skip n" for n s
    unfolding searchable_def using step ns assms(2) assms(3) [OF that(1)] that(2)
    by (intro exI [of _ "ns @ [n]"] exI [of _ s]) auto
  then show "list_all (searchable t base) (found_files dir es)"
    unfolding found_files_def list_all_iff
    by (auto simp del: list.set_map simp add: image_iff) (metis (mono_tags, lifting) inode.exhaust inode.simps)
  have "opened t base (dir @ [Normal n], depth + 1)" if "(n, Directory) \<in> set es" "\<not> should_skip n" for n
    unfolding opened_def using step ns assms(3) [OF that(1)] that(2)
    by (intro exI [of _ "ns @ [n]"]) (auto simp: real_def)
  then show "list_all (opened t base) (found_directories dir depth es)"
    by (auto simp: found_directories_def list_all_iff)
qed

lemma collect_pending_below:
  assumes "tree_ok t" "list_all (opened t base) pending" "list_all (searchable t base) found"
  shows "list_all (searchable t base) (collect_pending m t pending found)"
  using assms
proof (induction m t pending found rule: collect_pending.induct)
  case (2 m t dir depth pending found)
  show ?case
  proof (cases "max_search_depth < depth \<or> max_search_files \<le> length found")
    case True
    with 2 show ?thesis by simp
  next
    case False
    show ?thesis
    proof (cases "host_entries m t (path_text dir)")
      case (Inl err)
      with 2 False show ?thesis by simp
    next
      case (Inr es)
      have "real t dir" using "2.prems"(2) by (auto simp: opened_def)
      with Inr have "es = entries_in t dir"
        using resolve_path_text [OF "2.prems"(1), of dir m] by (auto simp: host_entries_def split: if_splits)
      then have "list_all (searchable t base) (found_files dir es)"
        "list_all (opened t base) (found_directories dir depth es)"
        using found_below [of t base dir depth es] "2.prems"(2) False entries_in_sound
        by (auto simp: max_search_depth_def)
      with 2 False Inr show ?thesis by (auto simp: list_all_iff)
    qed
  qed
qed simp

text \<open>\<open>glob\<close> and \<open>grep\<close> look only at regular files below the directory they are given, at most 17
  names deep and under no skipped name; they never follow a link.
\<close>

theorem collected_files_lie_below:
  assumes "tree_ok t" "real t base"
  shows "list_all (searchable t base) (files_below m t base)"
proof -
  have "opened t base (base, 0)" using assms(2) by (auto simp: opened_def)
  with collect_pending_below [OF assms(1), of base "[(base, 0)]" "[]" m] show ?thesis
    by (simp add: files_below_def list_all_iff)
qed

theorem collected_files_lie_below_witness:
  "list_all (searchable demo_tree demo_root) (files_below demo_machine demo_tree demo_root)"
proof (rule collected_files_lie_below)
  show "tree_ok demo_tree" using demo_tree_ok by (simp add: machine_ok_def)
  have "inode_at demo_tree demo_root = Some Directory" by code_simp
  then show "real demo_tree demo_root" by (rule real_directory)
qed

end
