(* ===== verification/Tool_Registry_Properties.thy ===== *)
theory Tool_Registry_Properties
  imports Tool_Registry_Laws Tool_Read_Laws
begin

section \<open>Properties of the registry\<close>

text \<open>
  A forbidden call does nothing, a sensitive one waits for the user, and an edit of a file that has
  changed since it was read is refused. Two defects: the policy never sees the source of a rename,
  and the revision of a file is looked up by the text of its path.
\<close>

subsection \<open>The policy decides\<close>

context guarded_policy
begin

lemma forbidden_not_allowed:
  assumes "rc_evaluate c = approved_evaluate eval key" "x \<in> set rs" "forb x"
  shows "\<not> all_allowed c S rs"
  using assms(2)
proof (induction rs arbitrary: S)
  case (Cons r rs)
  then show ?case
    using assms(1,3) forbidden_denied [of x] approved_forbidden [of x key S] by (auto split: prod.splits)
qed simp

lemma sensitive_not_approved:
  assumes "rc_evaluate c = approved_evaluate eval key" "x \<in> set rs" "sens x" "key x \<notin> S"
  shows "\<not> all_allowed c S rs"
  using assms(2,4)
proof (induction rs arbitrary: S)
  case (Cons r rs)
  obtain ev S1 where step: "approved_evaluate eval key S r = (ev, S1)" by fastforce
  have "key x \<notin> S1" using approved_shrinks [OF step] Cons.prems(2) by blast
  with Cons step approved_sensitive [of r key S ev S1] assms(1,3) show ?case by auto
qed simp

end

definition engine_context ::
  "glob_matcher \<Rightarrow> policy_engine \<Rightarrow> (policy_request \<Rightarrow> string) \<Rightarrow> string set registry_context \<Rightarrow> bool" where
  "engine_context glob e key c \<longleftrightarrow> rc_evaluate c = approved_evaluate (engine_evaluate glob e) key"

text \<open>C13: with the policy engine behind the approvals of the user, a call one of whose requests is
  forbidden changes no file and no revision, starts no tool and fails with a refusal, whatever has
  been approved.
\<close>

theorem forbidden_call_does_nothing:
  assumes "engine_context glob e key c"
    "registry_policy_requests g c (world_tree (rs_world st)) r = Inr rs" "x \<in> set rs" "forbidden glob e x"
    "registry_execute g c r st = (out, st')"
  shows "untouched st st' \<and> (\<exists>err. out = Inl err \<and> refusal err)"
  using execute_not_allowed [OF assms(2,5)] engine.forbidden_not_allowed [OF _ assms(3,4)] assms(1)
  unfolding engine_context_def by blast

text \<open>The agent's view of the registry: a call, from the state a run has reached.\<close>

definition registry_host ::
  "tool_registry \<Rightarrow> string set registry_context \<Rightarrow> string set registry_state \<Rightarrow>
   (tool_request \<Rightarrow> risk_category list \<Rightarrow> string \<Rightarrow> agent_error + bool) \<Rightarrow> agent_error + unit \<Rightarrow>
   agent_error + unit \<Rightarrow> tool_host" where
  "registry_host g c st ask first second =
     \<lparr>run_tool = (\<lambda>S r. case registry_execute g c r (st\<lparr>rs_policy := S\<rparr>) of (out, st') \<Rightarrow> (out, rs_policy st')),
      policy_requests = registry_policy_requests g c (world_tree (rs_world st)),
      ask_user = ask, flush_first = first, flush_second = second\<rparr>"

text \<open>C3: agent, registry and policy together: a call with a sensitive request that has not been
  approved gives no result unless the user, asked about it, has said yes; the attempt that leads to
  the question changes no file and starts no tool.
\<close>

theorem sensitive_call_waits_for_user:
  assumes "engine_context glob e key c"
    "registry_policy_requests g c (world_tree (rs_world st)) r = Inr rs" "x \<in> set rs" "sensitive e x" "key x \<notin> S"
    "\<forall>risks reason. ask r risks reason \<noteq> Inr True"
    "execute_tool (registry_host g c st ask first second) key S r = (out, S')"
  shows "(\<exists>err. out = Inl err) \<and> untouched st (snd (registry_execute g c r (st\<lparr>rs_policy := S\<rparr>)))"
proof -
  let ?st = "st\<lparr>rs_policy := S\<rparr>"
  obtain out1 st1 where run: "registry_execute g c r ?st = (out1, st1)" by fastforce
  have "\<not> all_allowed c S rs"
    using engine.sensitive_not_approved [where key = key, OF _ assms(3-5)] assms(1)
    unfolding engine_context_def by blast
  with execute_not_allowed [of g c ?st r rs, OF _ run] assms(2) obtain err where
    "untouched ?st st1" "out1 = Inl err" "refusal err" by auto
  with run assms(6,7) show ?thesis
    by (auto simp: execute_tool_def registry_host_def request_tool_approval_def observe_tool_def refusal_def
        untouched_def split: sum.splits bool.splits if_splits)
qed

text \<open>the preflight of a call answers what executing it will meet: it allows exactly when the
  call is let through, and it leaves the policy in the same state.
\<close>

theorem preflight_predicts_execution:
  assumes "registry_policy_requests g c (world_tree (rs_world st)) r = Inr rs"
    "registry_preflight g c (world_tree (rs_world st)) (rs_policy st) r = (Inr ev, pol)"
    "registry_execute g c r st = (out, st')"
  shows "(decision ev = Allow \<longleftrightarrow> \<not> (\<exists>err. out = Inl err \<and> refusal err)) \<and>
    pol = policy_after c (rs_policy st) rs"
proof -
  obtain tool where tool: "registered g (tool_request_name r) = Some tool"
      "rs = call_requests c (world_tree (rs_world st)) (tool_request_name r) tool (tool_arguments r)"
    using assms(1) by (auto simp: registered_requests)
  with assms(2) have pre: "decision ev = Allow \<longleftrightarrow> all_allowed c (rs_policy st) rs"
    "pol = policy_after c (rs_policy st) rs"
    by (auto simp: registry_preflight_def call_requests_def split: prod.splits if_splits)
  show ?thesis
  proof (cases "all_allowed c (rs_policy st) rs")
    case True
    then obtain tool st1 ev1 where "run_allowed g c (tool_request_name r) tool
        (attach_read_revision c (tool_request_name r) (tool_arguments r) st) ev1 st1 = (out, st')"
      using execute_allowed [OF assms(1,3)] by blast
    then have "\<not> (\<exists>err. out = Inl err \<and> refusal err)"
      by (auto simp: run_allowed_def finish_call_def Let_def split: prod.splits sum.splits)
    with pre True show ?thesis by simp
  next
    case False
    with pre execute_not_allowed [OF assms(1,3)] show ?thesis by auto
  qed
qed

subsection \<open>Revisions\<close>

lemma canonical_root:
  assumes "in_workspace (rc_tool c) root w"
  shows "canonical_workspace c (world_tree w) = path_text root"
  using workspace_root(3) [OF assms] by (simp add: canonical_workspace_def Host_Files.canonicalize_def)

lemma forward_slashes_twice [simp]: "forward_slashes (forward_slashes s) = forward_slashes s"
  by (induction s) (auto simp: forward_slashes_def replace_char_def)

lemma metadata_of_read:
  assumes "in_workspace c root w" "read_file c args w = (Inr res, w')"
    "json_get ''path'' args = Some (JString p)" "resolve_existing c (world_tree w) p = Inr (root, cs)"
    "inode_at (world_tree w) cs = Some (RegularFile raw)"
  shows "w' = w \<and> \<not> tr_is_error res \<and> tr_changed_files res = [] \<and>
    metadata_text res ''path'' = Some (relative_string root cs) \<and>
    metadata_text res ''revision'' = Some (content_revision c raw)"
proof -
  have ok: "machine_ok (tc_machine c) (world_tree w)" "real (world_tree w) root" "prefix root cs" "cs \<noteq> root"
    using assms(1,5) workspace_root [OF assms(1)] resolve_existing_real [OF assms(1,4)]
    by (auto simp: in_workspace_def)
  from read_file_steps [OF assms(2,3)] obtain root' cs' i j bytes full shown where read:
    "resolve_existing c (world_tree w) p = Inr (root', cs')"
    "read_text_snapshot c (world_tree w) root' cs' ''read_file'' (if i = None then max_file_bytes else max_edit_file_bytes)
      = Inr (bytes, full)"
    "res = read_result c root' cs' bytes shown i j" "w' = w" by blast
  from read(1) assms(4) have [simp]: "root' = root" "cs' = cs" by simp_all
  have "bytes = raw" using snapshot_file [OF ok(1,2) assms(5) ok(3,4)] read(2) by simp
  with read(3,4) show ?thesis by (simp add: metadata_text_def read_result_fields json_str_def)
qed

lemma read_remembers:
  assumes "registered g ''read_file'' = Some (file_tool ''read_file'' Read read_file)"
    "registry_execute g c \<lparr>tool_request_name = ''read_file'', tool_arguments = args\<rparr> st = (Inr res, st')"
    "in_workspace (rc_tool c) root (rs_world st)" "json_get ''path'' args = Some (JString p)"
    "resolve_existing (rc_tool c) (world_tree (rs_world st)) p = Inr (root, cs)"
    "inode_at (world_tree (rs_world st)) cs = Some (RegularFile raw)"
  shows "map_of (rs_revisions st') (revision_key c (world_tree (rs_world st)) (relative_string root cs)) =
    Some (content_revision (rc_tool c) raw)"
proof -
  let ?r = "\<lparr>tool_request_name = ''read_file'', tool_arguments = args\<rparr>"
  obtain rs where rs: "registry_policy_requests g c (world_tree (rs_world st)) ?r = Inr rs"
    using assms(1) by (auto simp: registered_requests)
  have "all_allowed c (rs_policy st) rs" using execute_not_allowed [OF rs assms(2)] by auto
  from execute_allowed [OF rs assms(2) this] assms(1) obtain st1 ev where untouched: "untouched st st1" and
    run: "run_allowed g c ''read_file'' (file_tool ''read_file'' Read read_file) args ev st1 = (Inr res, st')"
    by (auto simp: attach_read_revision_def revision_tools_def)
  have tree: "world_tree (rs_world st1) = world_tree (rs_world st)" using untouched by (simp add: untouched_def)
  let ?st = "registry_emit c (ToolStarted ''read_file'') (registry_emit c (ToolApproved ''read_file'' (Some (rule_of ev))) st1)"
  from run obtain out w where read: "read_file (rc_tool c) args (rs_world ?st) = (Inr out, w)"
    and fin: "finish_call g c ''read_file'' (Inr out) (?st\<lparr>rs_world := w\<rparr>) = (Inr res, st')"
    by (auto simp: run_allowed_def Let_def file_tool_def finish_call_def split: prod.splits sum.splits)
  have place: "in_workspace (rc_tool c) root (rs_world ?st)"
    "resolve_existing (rc_tool c) (world_tree (rs_world ?st)) p = Inr (root, cs)"
    "inode_at (world_tree (rs_world ?st)) cs = Some (RegularFile raw)"
    using assms(3,5,6) tree by (simp_all add: in_workspace_def)
  note m = metadata_of_read [OF place(1) read assms(4) place(2,3)]
  with fin tree show ?thesis
    by (auto simp: finish_call_def diagnose_def update_read_revisions_def Let_def update_conv')
qed

lemma attached_revision:
  assumes "n \<in> set revision_tools" "edited_path n (JObject kvs) = Some (JString q)"
    "map_of kvs ''expected_revision'' = None"
    "map_of (rs_revisions st) (revision_key c (world_tree (rs_world st)) q) = Some rv"
  shows "json_get ''expected_revision'' (attach_read_revision c n (JObject kvs) st) = Some (JString rv)"
    "edited_path n (attach_read_revision c n (JObject kvs) st) = Some (JString q)"
  using assms by (auto simp: attach_read_revision_def edited_path_def json_get_def json_str_def update_conv')

lemma finish_refused:
  assumes "failed r" "\<And>res. r = Inr res \<Longrightarrow> tr_changed_files res = []" "finish_call g c n r st = (out, st')"
  shows "world_tree (rs_world st') = world_tree (rs_world st) \<and> (case out of Inr res \<Rightarrow> tr_is_error res | Inl _ \<Rightarrow> True)"
  using assms
  by (cases r) (auto simp: finish_call_def update_read_revisions_def diagnose_def Let_def)

lemma stale_call_refused:
  assumes "registered g n = Some tool" "rt_action tool = edit_tool n" "n \<in> editing_tools"
    "in_workspace (rc_tool c) root (rs_world st)" "edited_path n (JObject kvs) = Some (JString q)"
    "map_of kvs ''expected_revision'' = None"
    "resolve_existing (rc_tool c) (world_tree (rs_world st)) q = Inr (root, cs)"
    "inode_at (world_tree (rs_world st)) cs = Some (RegularFile now)"
    "map_of (rs_revisions st) (revision_key c (world_tree (rs_world st)) q) = Some rv"
    "rv \<noteq> []" "rv \<noteq> content_revision (rc_tool c) now"
    "registry_execute g c \<lparr>tool_request_name = n, tool_arguments = JObject kvs\<rparr> st = (out, st')"
  shows "world_tree (rs_world st') = world_tree (rs_world st) \<and> (case out of Inr res \<Rightarrow> tr_is_error res | Inl _ \<Rightarrow> True)"
proof -
  let ?r = "\<lparr>tool_request_name = n, tool_arguments = JObject kvs\<rparr>"
  obtain rs where rs: "registry_policy_requests g c (world_tree (rs_world st)) ?r = Inr rs"
    using assms(1) by (auto simp: registered_requests)
  show ?thesis
  proof (cases "all_allowed c (rs_policy st) rs")
    case False
    with execute_not_allowed [OF rs assms(12)] show ?thesis by (auto simp: untouched_def)
  next
    case True
    from execute_allowed [OF rs assms(12) True] assms(1) obtain st1 ev where untouched: "untouched st st1" and
      run: "run_allowed g c n tool (attach_read_revision c n (JObject kvs) st) ev st1 = (out, st')" by auto
    have tree: "world_tree (rs_world st1) = world_tree (rs_world st)" using untouched by (simp add: untouched_def)
    let ?st = "registry_emit c (ToolStarted n) (registry_emit c (ToolApproved n (Some (rule_of ev))) st1)"
    let ?args = "attach_read_revision c n (JObject kvs) st"
    have place: "in_workspace (rc_tool c) root (rs_world ?st)"
      "resolve_existing (rc_tool c) (world_tree (rs_world ?st)) q = Inr (root, cs)"
      "inode_at (world_tree (rs_world ?st)) cs = Some (RegularFile now)"
      using assms(4,7,8) tree by (simp_all add: in_workspace_def)
    have "n \<in> set revision_tools" using assms(3) by (auto simp: editing_tools_def revision_tools_def)
    note args = attached_revision [OF this assms(5,6,9)]
    have refused: "refused (rs_world ?st) (edit_tool n (rc_tool c) ?args (rs_world ?st))"
      by (rule stale_edit_refused [OF place(1) assms(3) args(2) place(2,3) args(1) assms(10,11)])
    obtain r w where edit: "edit_tool n (rc_tool c) ?args (rs_world ?st) = (r, w)" by fastforce
    with run assms(2) have "finish_call g c n r (?st\<lparr>rs_world := w\<rparr>) = (out, st')"
      by (simp add: run_allowed_def Let_def del: edit_tool.simps)
    from finish_refused [OF _ _ this] refused edit tree show ?thesis
      by (simp add: refused_def del: edit_tool.simps)
  qed
qed

lemma edit_tool_names:
  "edit_tool ''write_file'' = write_file" "edit_tool ''apply_patch'' = apply_patch"
  "edit_tool ''replace_text'' = replace_text" "edit_tool ''replace_range'' = replace_range"
  "edit_tool ''delete_file'' = delete_file" "edit_tool ''rename_file'' = rename_file"
  by (intro ext, simp)+

lemma registered_Cons:
  "registered \<lparr>rg_tools = file_tool name k act # tools, rg_diagnostics = d\<rparr> n =
     (if name = n then Some (file_tool name k act) else registered \<lparr>rg_tools = tools, rg_diagnostics = d\<rparr> n)"
  by (simp add: registered_def file_tool_def)

lemma workspace_registered:
  "registered (workspace_tools s others diag) ''read_file'' = Some (file_tool ''read_file'' Read read_file)"
  "n \<in> editing_tools \<Longrightarrow> \<exists>tool. registered (workspace_tools s others diag) n = Some tool \<and> rt_action tool = edit_tool n"
proof -
  show "registered (workspace_tools s others diag) ''read_file'' = Some (file_tool ''read_file'' Read read_file)"
    by (simp add: workspace_tools_def registered_Cons)
  have act: "rt_action (file_tool name k act) = act" for name k act by (simp add: file_tool_def)
  show "\<exists>tool. registered (workspace_tools s others diag) n = Some tool \<and> rt_action tool = edit_tool n"
    if "n \<in> editing_tools"
    using that unfolding editing_tools_def
    by (elim insertE emptyE) (simp_all add: workspace_tools_def registered_Cons act edit_tool_names del: edit_tool.simps)
qed

lemma same_revision_key:
  assumes "in_workspace (rc_tool c) root w" "in_workspace (rc_tool c) root w'" "forward_slashes p = forward_slashes q"
  shows "revision_key c (world_tree w) p = revision_key c (world_tree w') q"
  using canonical_root [OF assms(1)] canonical_root [OF assms(2)] assms(3) by (simp add: revision_key_def)


subsection \<open>Calls to evaluate\<close>

definition demo_services :: tool_services where
  "demo_services = \<lparr>ts_glob = (\<lambda>_. Inr (\<lambda>_. True)), ts_regex = (\<lambda>_ pat. Inr (\<lambda>l. str_contains l pat)),
     ts_run = (\<lambda>_ t. (Inl Consumer, [], t))\<rparr>"

definition demo_registry :: tool_registry where
  "demo_registry = workspace_tools demo_services [] None"

definition demo_context :: "string set registry_context" where
  "demo_context = \<lparr>rc_tool = demo_tool_context demo_machine, rc_session = Some ''s'', rc_mode = Auto,
     rc_evaluate = approved_evaluate (engine_evaluate sample_glob (sample_engine Auto [])) tool_name,
     rc_secrets = [], rc_json_text = (\<lambda>_. [])\<rparr>"

definition demo_registry_state :: "tree \<Rightarrow> string set registry_state" where
  "demo_registry_state t = \<lparr>rs_world = demo_world t, rs_revisions = [], rs_policy = {}\<rparr>"

definition call_of :: "string \<Rightarrow> (string \<times> string) list \<Rightarrow> tool_request" where
  "call_of name args = \<lparr>tool_request_name = name, tool_arguments = JObject (map (\<lambda>(k, v). (k, JString v)) args)\<rparr>"

definition result_output :: "harness_error + tool_result \<Rightarrow> string option" where
  "result_output out = (case out of Inl _ \<Rightarrow> None | Inr r \<Rightarrow> if tr_is_error r then None else Some (tr_output r))"

definition secret_tree :: tree where
  "secret_tree = [(demo_root, Directory), (demo_root @ [Normal ''.env''], RegularFile ''KEY=1'')]"

definition uncovered_tree :: tree where
  "uncovered_tree = [(demo_root, Directory), (demo_root @ [Normal ''notes''], RegularFile ''KEY=1'')]"

text \<open>the source of a rename is not put to the policy. The credential file below may not be read;
  it may be renamed, and what is read then are the credentials.
\<close>

theorem rename_uncovers_protected_file:
  "result_output (fst (registry_execute demo_registry demo_context
     (call_of ''read_file'' [(''path'', ''.env'')]) (demo_registry_state secret_tree))) = None \<and>
   world_tree (rs_world (snd (registry_execute demo_registry demo_context
     (call_of ''rename_file'' [(''source_path'', ''.env''), (''destination_path'', ''notes'')])
     (demo_registry_state secret_tree)))) = uncovered_tree \<and>
   result_output (fst (registry_execute demo_registry demo_context
     (call_of ''read_file'' [(''path'', ''notes'')]) (demo_registry_state uncovered_tree))) = Some ''KEY=1''"
proof (intro conjI)
  show "result_output (fst (registry_execute demo_registry demo_context
     (call_of ''read_file'' [(''path'', ''.env'')]) (demo_registry_state secret_tree))) = None" by code_simp
  show "world_tree (rs_world (snd (registry_execute demo_registry demo_context
     (call_of ''rename_file'' [(''source_path'', ''.env''), (''destination_path'', ''notes'')])
     (demo_registry_state secret_tree)))) = uncovered_tree" by code_simp
  show "result_output (fst (registry_execute demo_registry demo_context
     (call_of ''read_file'' [(''path'', ''notes'')]) (demo_registry_state uncovered_tree))) = Some ''KEY=1''" by code_simp
qed

definition changed_state :: "string set registry_state" where
  "changed_state =
     (let st = snd (registry_execute demo_registry demo_context (call_of ''read_file'' [(''path'', ''a'')])
        (demo_registry_state [(demo_root, Directory), (demo_root @ [Normal ''a''], RegularFile ''read'')]))
      in (demo_registry_state [(demo_root, Directory), (demo_root @ [Normal ''a''], RegularFile ''theirs'')])
           \<lparr>rs_revisions := rs_revisions st\<rparr>)"

lemma changed_revisions:
  "changed_state = (demo_registry_state [(demo_root, Directory), (demo_root @ [Normal ''a''], RegularFile ''theirs'')])
     \<lparr>rs_revisions := [(''/w'' @ [CHR 0x00] @ ''s'' @ [CHR 0x00] @ ''a'', ''sha256:read'')]\<rparr>"
  by code_simp

text \<open>the revision is found only under the spelling the read has reported. Having read \<open>a\<close>, whose
  contents have changed since, a write to \<open>./a\<close> goes through and the change is lost; a write to \<open>a\<close>
  is refused.
\<close>

theorem other_spelling_escapes_revision_check:
  "result_output (fst (registry_execute demo_registry demo_context
     (call_of ''write_file'' [(''content'', ''mine''), (''path'', ''a'')]) changed_state)) = None \<and>
   inode_at (world_tree (rs_world (snd (registry_execute demo_registry demo_context
     (call_of ''write_file'' [(''content'', ''mine''), (''path'', ''./a'')]) changed_state))))
     (demo_root @ [Normal ''a'']) = Some (RegularFile ''mine'')"
  unfolding changed_revisions
proof (intro conjI)
  let ?st = "(demo_registry_state [(demo_root, Directory), (demo_root @ [Normal ''a''], RegularFile ''theirs'')])
     \<lparr>rs_revisions := [(''/w'' @ [CHR 0x00] @ ''s'' @ [CHR 0x00] @ ''a'', ''sha256:read'')]\<rparr>"
  show "result_output (fst (registry_execute demo_registry demo_context
     (call_of ''write_file'' [(''content'', ''mine''), (''path'', ''a'')]) ?st)) = None" by code_simp
  show "inode_at (world_tree (rs_world (snd (registry_execute demo_registry demo_context
     (call_of ''write_file'' [(''content'', ''mine''), (''path'', ''./a'')]) ?st))))
     (demo_root @ [Normal ''a'']) = Some (RegularFile ''mine'')" by code_simp
qed

subsection \<open>Witnesses\<close>

lemma demo_engine: "engine_context sample_glob (sample_engine Auto []) tool_name demo_context"
  by (simp add: engine_context_def demo_context_def)

definition request_of :: "tree \<Rightarrow> tool_request \<Rightarrow> policy_request" where
  "request_of t r = build_policy_request demo_context t (tool_request_name r)
     (the (registered demo_registry (tool_request_name r))) (tool_arguments r)"

lemma demo_requests:
  assumes "registered demo_registry n \<noteq> None" "n \<noteq> ''rename_file''"
  shows "registry_policy_requests demo_registry demo_context t (call_of n args) = Inr [request_of t (call_of n args)]"
  using assms by (auto simp: registry_policy_requests_def request_of_def call_of_def)

theorem forbidden_call_does_nothing_witness:
  "\<exists>out st'. registry_execute demo_registry demo_context (call_of ''read_file'' [(''path'', ''.env'')])
      (demo_registry_state secret_tree) = (out, st') \<and> untouched (demo_registry_state secret_tree) st' \<and> (\<exists>err. out = Inl err)"
proof -
  let ?r = "call_of ''read_file'' [(''path'', ''.env'')]"
  obtain out st' where run: "registry_execute demo_registry demo_context ?r (demo_registry_state secret_tree) = (out, st')"
    by fastforce
  have reqs: "registry_policy_requests demo_registry demo_context (world_tree (rs_world (demo_registry_state secret_tree))) ?r =
      Inr [request_of (world_tree (rs_world (demo_registry_state secret_tree))) ?r]"
    by (rule demo_requests) code_simp+
  have "\<not> in_bounds (request_of (world_tree (rs_world (demo_registry_state secret_tree))) ?r)" by code_simp
  then have "forbidden sample_glob (sample_engine Auto []) (request_of (world_tree (rs_world (demo_registry_state secret_tree))) ?r)"
    by (simp add: forbidden_def)
  from forbidden_call_does_nothing [OF demo_engine reqs _ this run] run show ?thesis by auto
qed

theorem sensitive_call_waits_for_user_witness:
  "\<exists>out S'. execute_tool (registry_host demo_registry demo_context (demo_registry_state demo_tree)
      (\<lambda>_ _ _. Inr False) (Inr ()) (Inr ())) tool_name {} (call_of ''shell'' [(''command'', ''rm build'')]) = (out, S') \<and>
     (\<exists>err. out = Inl err)"
proof -
  let ?r = "call_of ''shell'' [(''command'', ''rm build'')]"
  let ?x = "request_of (world_tree (rs_world (demo_registry_state demo_tree))) ?r"
  obtain out S' where run: "execute_tool (registry_host demo_registry demo_context (demo_registry_state demo_tree)
      (\<lambda>_ _ _. Inr False) (Inr ()) (Inr ())) tool_name {} ?r = (out, S')" by fastforce
  have reqs: "registry_policy_requests demo_registry demo_context (world_tree (rs_world (demo_registry_state demo_tree))) ?r = Inr [?x]"
    by (rule demo_requests) code_simp+
  have "Destructive \<in> request_risks (sample_engine Auto []) ?x" by code_simp
  then have "sensitive (sample_engine Auto []) ?x" by (auto simp: sensitive_def sensitive_risks_def)
  from sensitive_call_waits_for_user [OF demo_engine reqs _ this _ _ run] run show ?thesis by simp
qed

theorem preflight_predicts_execution_witness:
  "\<exists>ev pol out st'. registry_preflight demo_registry demo_context secret_tree {}
      (call_of ''read_file'' [(''path'', ''.env'')]) = (Inr ev, pol) \<and> decision ev = Deny \<and>
     registry_execute demo_registry demo_context (call_of ''read_file'' [(''path'', ''.env'')])
      (demo_registry_state secret_tree) = (out, st') \<and> (\<exists>err. out = Inl err \<and> refusal err)"
proof -
  let ?r = "call_of ''read_file'' [(''path'', ''.env'')]" and ?st = "demo_registry_state secret_tree"
  have st: "world_tree (rs_world ?st) = secret_tree" "rs_policy ?st = {}"
    by (simp_all add: demo_registry_state_def demo_world_def)
  have reqs: "registry_policy_requests demo_registry demo_context (world_tree (rs_world ?st)) ?r =
      Inr [request_of (world_tree (rs_world ?st)) ?r]"
    by (rule demo_requests) code_simp+
  obtain res pol where pre: "registry_preflight demo_registry demo_context secret_tree {} ?r = (res, pol)" by fastforce
  have "case registry_preflight demo_registry demo_context secret_tree {} ?r of
      (Inr ev, _) \<Rightarrow> decision ev = Deny | _ \<Rightarrow> False" by code_simp
  with pre obtain ev where ev: "res = Inr ev" "decision ev = Deny" by (cases res) auto
  obtain out st' where run: "registry_execute demo_registry demo_context ?r ?st = (out, st')" by fastforce
  from preflight_predicts_execution [OF reqs _ run, of ev pol] pre ev run show ?thesis by (simp add: st)
qed

definition now_tree :: tree where
  "now_tree = put_inode (demo_root @ [Normal ''a'']) (RegularFile ''theirs'') demo_tree"


end
