(* ===== verification/Git_Client.thy ===== *)
theory Git_Client
  imports Host_Files_Laws Events "HOL-Library.Code_Target_Nat"
begin

section \<open>harness-git: reading a repository\<close>

text \<open>
  The first half of \<open>harness-git/src/lib.rs\<close>: \<open>GitClient\<close>, which runs the git program in the
  root of a work tree and reads what it prints, and the read-only views of files the desktop
  asks for. The git program itself is a parameter, a function of the file system, the
  directory it is started in and its arguments; paths of the work tree are resolved in the
  tree of \<open>Host_Files\<close>.
\<close>

subsection \<open>Data\<close>

record worktree_status =
  repository_root :: path
  status_branch :: "string option"
  status_head :: "string option"
  is_clean :: bool
  changed_files :: "string list"
  staged_files :: "string list"
  unstaged_files :: "string list"
  untracked_files :: "string list"

record git_diff =
  diff_unstaged :: string
  diff_staged :: string

definition max_view_bytes :: nat where "max_view_bytes = 2 * 1024 * 1024"

definition null_device :: string where "null_device = ''/dev/null''"

definition runtime_state_directory :: string where "runtime_state_directory = ''.cogito''"

definition is_runtime_state_path :: "string \<Rightarrow> bool" where
  "is_runtime_state_path p =
     (let normalized = replace_char (CHR 0x5C) slash p
      in normalized = runtime_state_directory \<or>
         starts_with normalized (runtime_state_directory @ ''/''))"

datatype file_change_kind = FileAdded | FileModified | FileDeleted

fun file_change_kind_text :: "file_change_kind \<Rightarrow> string" where
  "file_change_kind_text FileAdded = ''added''"
| "file_change_kind_text FileModified = ''modified''"
| "file_change_kind_text FileDeleted = ''deleted''"

record file_view =
  view_path :: string
  view_language :: string
  view_content :: string
  view_size :: nat
  view_is_binary :: bool
  view_truncated :: bool

record change_view =
  change_path :: string
  change_language :: string
  change_kind :: file_change_kind
  change_original :: string
  change_modified :: string
  change_patch :: string
  change_additions :: nat
  change_deletions :: nat
  change_is_binary :: bool
  change_truncated :: bool

datatype git_error =
    NotRepository path
  | CommandFailed string
  | GitIo string
  | CheckpointNotFound ident
  | InvalidPath path
  | GitFileTooLarge path
  | GitFileNotFound path
  | RestoreConflict "path list"
  | SerializationFailed string

definition git_io :: "os_error \<Rightarrow> git_error" where
  "git_io err = GitIo (os_text err)"

subsection \<open>Running git\<close>

text \<open>A run that could not start, or one that ended: with success or not, and its two streams.\<close>

datatype git_run = NotStarted string | Finished bool string string

type_synonym git_program = "tree \<Rightarrow> path \<Rightarrow> string list \<Rightarrow> git_run"

text \<open>What \<open>String::from_utf8\<close> says of bytes that are no UTF-8.\<close>

function utf8_fault :: "nat \<Rightarrow> string \<Rightarrow> string" where
  "utf8_fault i [] = []"
| "utf8_fault i (a # s) =
     (case utf8_head a s of (ok, n) \<Rightarrow>
        if ok then utf8_fault (i + 1 + n) (drop n s)
        else if n = length s \<and> (case tail_ranges a of None \<Rightarrow> False | Some rs \<Rightarrow> n < length rs)
        then ''incomplete utf-8 byte sequence from index '' @ show_nat i
        else ''invalid utf-8 sequence of '' @ show_nat (1 + n) @ '' bytes from index '' @ show_nat i)"
  by pat_completeness auto
termination
  by (relation "measure (\<lambda>(i, s). length s)") auto

definition utf8_text :: "string \<Rightarrow> git_error + string" where
  "utf8_text s = (if from_utf8_lossy s = s then Inr s else Inl (CommandFailed (utf8_fault 0 s)))"

definition run_git_bytes :: "git_program \<Rightarrow> tree \<Rightarrow> path \<Rightarrow> string list \<Rightarrow> git_error + string" where
  "run_git_bytes g t dir args =
     (case g t dir args of
        NotStarted msg \<Rightarrow> Inl (CommandFailed msg)
      | Finished ok printed errors \<Rightarrow>
          if ok then Inr printed else Inl (CommandFailed (trim (from_utf8_lossy errors))))"

definition run_git :: "git_program \<Rightarrow> tree \<Rightarrow> path \<Rightarrow> string list \<Rightarrow> git_error + string" where
  "run_git g t dir args = bind_result (run_git_bytes g t dir args) utf8_text"

text \<open>\<open>git diff\<close> exits with 1 when there are differences: output counts as success.\<close>

definition run_git_allow_failure ::
  "git_program \<Rightarrow> tree \<Rightarrow> path \<Rightarrow> string list \<Rightarrow> git_error + string" where
  "run_git_allow_failure g t dir args =
     (case g t dir args of
        NotStarted msg \<Rightarrow> Inl (CommandFailed msg)
      | Finished ok printed errors \<Rightarrow>
          if ok \<or> printed \<noteq> [] then utf8_text printed
          else Inl (CommandFailed (trim (from_utf8_lossy errors))))"

definition run_git_optional ::
  "git_program \<Rightarrow> tree \<Rightarrow> path \<Rightarrow> string list \<Rightarrow> git_error + string option" where
  "run_git_optional g t dir args =
     (case g t dir args of
        NotStarted msg \<Rightarrow> Inl (CommandFailed msg)
      | Finished ok printed errors \<Rightarrow>
          Inr (if ok then Some (trim (from_utf8_lossy printed)) else None))"

subsection \<open>The client\<close>

text \<open>A \<open>GitClient\<close> is its root. \<open>m\<close> is the machine, \<open>g\<close> the git program, \<open>t\<close> the file system.\<close>

definition client_open :: "machine \<Rightarrow> git_program \<Rightarrow> tree \<Rightarrow> path \<Rightarrow> git_error + path" where
  "client_open m g t working_directory =
     (case Host_Files.canonicalize m t working_directory of
        Inl err \<Rightarrow> Inl (git_io err)
      | Inr dir \<Rightarrow>
          bind_result (run_git g t dir [''rev-parse'', ''--show-toplevel'']) (\<lambda>top.
          map_sum git_io id (Host_Files.canonicalize m t (trim top))))"

text \<open>\<open>rsplit(sep).next()\<close>: what follows the last occurrence of the separator.\<close>

definition after_last :: "string \<Rightarrow> string \<Rightarrow> string" where
  "after_last sep s =
     (case find (\<lambda>n. prefix sep (drop n s)) (rev [0 ..< length s]) of
        None \<Rightarrow> s | Some n \<Rightarrow> drop (n + length sep) s)"

text \<open>
  One line of \<open>git status --porcelain=v1\<close>: the two status characters and the path. The path is
  \<open>line.get(3..)\<close>, empty where the third byte is inside a character.
\<close>

definition status_line :: "string \<Rightarrow> string \<times> string \<times> string" where
  "status_line line =
     (let characters = utf8_chars line;
          index = (if characters = [] then '' '' else hd characters);
          worktree = (if tl characters = [] then '' '' else hd (tl characters));
          path = (if is_char_boundary line 3 then drop 3 line else [])
      in (index, worktree, after_last '' -> '' path))"

definition status_lines :: "string \<Rightarrow> (string \<times> string \<times> string) list" where
  "status_lines printed = map status_line (filter (\<lambda>l. \<not> length l < 3) (str_lines printed))"

definition is_untracked :: "string \<times> string \<times> string \<Rightarrow> bool" where
  "is_untracked l \<longleftrightarrow> fst l = ''?'' \<and> fst (snd l) = ''?''"

definition client_branch :: "git_program \<Rightarrow> tree \<Rightarrow> path \<Rightarrow> git_error + string option" where
  "client_branch g t root = run_git_optional g t root [''symbolic-ref'', ''--short'', ''-q'', ''HEAD'']"

definition client_head :: "git_program \<Rightarrow> tree \<Rightarrow> path \<Rightarrow> git_error + string option" where
  "client_head g t root = run_git_optional g t root [''rev-parse'', ''HEAD'']"

definition client_status :: "git_program \<Rightarrow> tree \<Rightarrow> path \<Rightarrow> git_error + worktree_status" where
  "client_status g t root =
     bind_result (run_git g t root [''status'', ''--porcelain=v1'', ''--untracked-files=all'']) (\<lambda>printed.
       let ls = status_lines printed;
           paths = (\<lambda>sel. ordered_set (map (\<lambda>l. snd (snd l)) (filter sel ls)));
           changed_paths = paths (\<lambda>_. True)
       in bind_result (client_branch g t root) (\<lambda>branch.
          bind_result (client_head g t root) (\<lambda>head.
            Inr \<lparr>repository_root = root, status_branch = branch, status_head = head,
                 is_clean = (changed_paths = []), changed_files = changed_paths,
                 staged_files = paths (\<lambda>l. \<not> is_untracked l \<and> fst l \<noteq> '' ''),
                 unstaged_files = paths (\<lambda>l. \<not> is_untracked l \<and> fst (snd l) \<noteq> '' ''),
                 untracked_files = paths is_untracked\<rparr>)))"

definition client_diff :: "git_program \<Rightarrow> tree \<Rightarrow> path \<Rightarrow> git_error + git_diff" where
  "client_diff g t root =
     bind_result (run_git g t root [''diff'', ''--no-ext-diff'', ''--no-color'']) (\<lambda>unstaged.
     bind_result (run_git g t root [''diff'', ''--cached'', ''--no-ext-diff'', ''--no-color'']) (\<lambda>staged.
       Inr \<lparr>diff_unstaged = unstaged, diff_staged = staged\<rparr>))"

text \<open>Where a path cannot be resolved, its text is normalized instead.\<close>

definition canonical_or_normalized :: "machine \<Rightarrow> tree \<Rightarrow> path \<Rightarrow> path" where
  "canonical_or_normalized m t p =
     (case Host_Files.canonicalize m t p of Inr q \<Rightarrow> q | Inl _ \<Rightarrow> normalize_path p)"

definition client_relative_path :: "machine \<Rightarrow> tree \<Rightarrow> path \<Rightarrow> path \<Rightarrow> git_error + path" where
  "client_relative_path m t root p =
     (let absolute = canonical_or_normalized m t p
      in case path_strip_prefix root absolute of
           None \<Rightarrow> Inl (InvalidPath absolute) | Some relative \<Rightarrow> Inr relative)"

definition lossy_slashes :: "path \<Rightarrow> string" where
  "lossy_slashes p = replace_char (CHR 0x5C) slash (from_utf8_lossy p)"

definition client_diff_file :: "machine \<Rightarrow> git_program \<Rightarrow> tree \<Rightarrow> path \<Rightarrow> path \<Rightarrow> git_error + git_diff" where
  "client_diff_file m g t root p =
     bind_result (client_relative_path m t root p) (\<lambda>relative.
     let arg = lossy_slashes relative in
     bind_result (run_git g t root [''diff'', ''--no-ext-diff'', ''--no-color'', ''--'', arg]) (\<lambda>unstaged.
     bind_result (run_git g t root
         [''diff'', ''--cached'', ''--no-ext-diff'', ''--no-color'', ''--'', arg]) (\<lambda>staged.
       Inr \<lparr>diff_unstaged = unstaged, diff_staged = staged\<rparr>)))"

definition list_worktree_files :: "git_program \<Rightarrow> tree \<Rightarrow> path \<Rightarrow> git_error + string list" where
  "list_worktree_files g t root =
     bind_result (run_git_bytes g t root
         [''ls-files'', ''--cached'', ''--others'', ''--exclude-standard'', ''-z'']) (\<lambda>printed.
       Inr (filter (\<lambda>p. p \<noteq> []) (split_on (\<lambda>c. c = CHR 0x00) (from_utf8_lossy printed))))"

subsection \<open>Views of one file\<close>

definition validate_relative :: "string \<Rightarrow> git_error + string" where
  "validate_relative relative =
     (let trimmed = replace_char (CHR 0x5C) slash (trim relative);
          pieces = path_pieces trimmed;
          normalized = filter (\<lambda>s. s \<noteq> [] \<and> s \<noteq> ''.'') pieces
      in if trimmed = [] \<or> is_absolute trimmed \<or> CHR '':'' \<in> set trimmed
            \<or> starts_with trimmed ''/'' \<or> starts_with trimmed ''~''
            \<or> ''..'' \<in> set pieces \<or> normalized = [] \<or> hd normalized = ''.git''
         then Inl (InvalidPath relative)
         else Inr (join [slash] normalized))"

definition read_capped :: "machine \<Rightarrow> tree \<Rightarrow> path \<Rightarrow> git_error + string" where
  "read_capped m t p = map_sum git_io (take max_view_bytes) (host_read m t p)"

definition looks_binary :: "string \<Rightarrow> bool" where
  "looks_binary bytes \<longleftrightarrow> CHR 0x00 \<in> set (take 8000 bytes)"

text \<open>The marked lines of a unified diff; \<open>+++\<close> and \<open>---\<close> are taken for file headers.\<close>

definition is_addition :: "string \<Rightarrow> bool" where
  "is_addition line \<longleftrightarrow> starts_with line ''+'' \<and> \<not> starts_with (drop 1 line) ''++''"

definition is_deletion :: "string \<Rightarrow> bool" where
  "is_deletion line \<longleftrightarrow> \<not> starts_with line ''+'' \<and> starts_with line ''-'' \<and> \<not> starts_with (drop 1 line) ''--''"

definition count_patch_lines :: "string \<Rightarrow> nat \<times> nat" where
  "count_patch_lines patch =
     (length (filter is_addition (str_lines patch)), length (filter is_deletion (str_lines patch)))"

definition language_table :: "(string list \<times> string) list" where
  "language_table =
     [([''rs''], ''rust''), ([''ts'', ''mts'', ''cts'', ''tsx''], ''typescript''),
      ([''js'', ''mjs'', ''cjs'', ''jsx''], ''javascript''), ([''json'', ''jsonc''], ''json''),
      ([''toml''], ''ini''), ([''css''], ''css''), ([''scss'', ''sass''], ''scss''), ([''less''], ''less''),
      ([''html'', ''htm'', ''vue'', ''svelte''], ''html''), ([''md'', ''markdown''], ''markdown''),
      ([''py''], ''python''), ([''go''], ''go''), ([''java''], ''java''), ([''kt'', ''kts''], ''kotlin''),
      ([''c'', ''h'', ''cc'', ''cpp'', ''cxx'', ''hpp'', ''hh''], ''cpp''), ([''cs''], ''csharp''),
      ([''rb''], ''ruby''), ([''php''], ''php''), ([''sh'', ''bash'', ''zsh''], ''shell''),
      ([''ps1''], ''powershell''), ([''bat'', ''cmd''], ''bat''), ([''sql''], ''sql''),
      ([''yml'', ''yaml''], ''yaml''), ([''xml'', ''svg''], ''xml''), ([''lua''], ''lua''),
      ([''swift''], ''swift''), ([''dart''], ''dart''), ([''ex'', ''exs''], ''elixir''),
      ([''scala''], ''scala'')]"

definition language_for :: "string \<Rightarrow> string" where
  "language_for p =
     (let name = to_ascii_lowercase (last (path_pieces p));
          extension = (if CHR ''.'' \<in> set name then last (split_on (\<lambda>c. c = CHR ''.'') name) else [])
      in case find (\<lambda>(exts, _). extension \<in> set exts) language_table of
           Some (_, language) \<Rightarrow> language
         | None \<Rightarrow> if name = ''dockerfile'' then ''dockerfile'' else ''plaintext'')"

definition client_read_file :: "machine \<Rightarrow> tree \<Rightarrow> path \<Rightarrow> string \<Rightarrow> git_error + file_view" where
  "client_read_file m t root requested =
     bind_result (validate_relative requested) (\<lambda>relative.
     let absolute = path_join root relative in
     case inode_of m t absolute of
       Inl err \<Rightarrow>
         Inl (if os_kind err = KindNotFound then GitFileNotFound relative else git_io err)
     | Inr (RegularFile whole) \<Rightarrow>
         bind_result (read_capped m t absolute) (\<lambda>bytes.
           let binary = looks_binary bytes in
           Inr \<lparr>view_path = relative, view_language = language_for relative,
                view_content = (if binary then [] else from_utf8_lossy bytes),
                view_size = length whole, view_is_binary = binary,
                view_truncated = (length bytes \<ge> max_view_bytes)\<rparr>)
     | Inr _ \<Rightarrow> Inl (InvalidPath relative))"

definition blob_exists :: "git_program \<Rightarrow> tree \<Rightarrow> path \<Rightarrow> string \<Rightarrow> git_error + bool" where
  "blob_exists g t root p =
     (case g t root [''cat-file'', ''-e'', ''HEAD:'' @ p] of
        NotStarted msg \<Rightarrow> Inl (CommandFailed msg) | Finished ok _ _ \<Rightarrow> Inr ok)"

definition client_blob :: "git_program \<Rightarrow> tree \<Rightarrow> path \<Rightarrow> string \<Rightarrow> git_error + string" where
  "client_blob g t root p =
     (case g t root [''show'', ''HEAD:'' @ p] of
        NotStarted msg \<Rightarrow> Inl (CommandFailed msg)
      | Finished _ printed _ \<Rightarrow> Inr (take max_view_bytes printed))"

definition head_diff :: "git_program \<Rightarrow> tree \<Rightarrow> path \<Rightarrow> string \<Rightarrow> git_error + string" where
  "head_diff g t root p =
     run_git_allow_failure g t root [''diff'', ''HEAD'', ''--no-ext-diff'', ''--no-color'', ''--'', p]"

definition no_index_diff :: "git_program \<Rightarrow> tree \<Rightarrow> path \<Rightarrow> string \<Rightarrow> git_error + string" where
  "no_index_diff g t root p =
     run_git_allow_failure g t root
       [''diff'', ''--no-index'', ''--no-ext-diff'', ''--no-color'', ''--'', null_device, p]"

definition or_default :: "'e + string \<Rightarrow> string" where
  "or_default r = (case r of Inl _ \<Rightarrow> [] | Inr s \<Rightarrow> s)"

text \<open>One side of the view: the lossy text of the bytes, and whether they reached the limit.\<close>

definition bounded_side :: "bool \<Rightarrow> git_error + string \<Rightarrow> git_error + string \<times> bool" where
  "bounded_side present bytes =
     (if present
      then bind_result bytes (\<lambda>b. Inr (from_utf8_lossy b, length b \<ge> max_view_bytes))
      else Inr ([], False))"

definition client_file_change ::
  "machine \<Rightarrow> git_program \<Rightarrow> tree \<Rightarrow> path \<Rightarrow> string \<Rightarrow> git_error + change_view" where
  "client_file_change m g t root requested =
     bind_result (validate_relative requested) (\<lambda>relative.
     let path = lossy_slashes relative; absolute = path_join root relative in
     bind_result (blob_exists g t root path) (\<lambda>in_head.
     let in_worktree = host_is_file m t absolute in
     bind_result (bounded_side in_head (client_blob g t root path)) (\<lambda>(original, original_truncated).
     bind_result (bounded_side in_worktree (read_capped m t absolute)) (\<lambda>(modified, modified_truncated).
     if \<not> in_head \<and> \<not> in_worktree then Inl (GitFileNotFound relative)
     else
       let kind = (if \<not> in_head then FileAdded else if in_worktree then FileModified else FileDeleted);
           patch = or_default (if in_head then head_diff g t root path else no_index_diff g t root path);
           (additions, deletions) = count_patch_lines patch;
           binary = (looks_binary original \<or> looks_binary modified)
       in Inr \<lparr>change_path = relative, change_language = language_for path, change_kind = kind,
            change_original = (if binary then [] else original),
            change_modified = (if binary then [] else modified),
            change_patch = (if binary then [] else patch),
            change_additions = additions, change_deletions = deletions,
            change_is_binary = binary,
            change_truncated = (original_truncated \<or> modified_truncated)\<rparr>))))"

end
