(* ===== verification/Ordered_Maps.thy ===== *)
theory Ordered_Maps
  imports Prelude "HOL-Library.Char_ord" "HOL-Library.List_Lexorder"
begin

section \<open>Ordered maps\<close>

text \<open>
  A \<open>BTreeMap\<close> as the list of its entries in the order of the keys: what
  the checkpoints of \<open>harness-git\<close> and the JSON objects of \<open>serde_json\<close> are.
\<close>

text \<open>\<open>BTreeMap::insert\<close>: the keys stay in order, an old value is replaced.\<close>

fun tree_map_insert :: "'k::linorder \<Rightarrow> 'a \<Rightarrow> ('k \<times> 'a) list \<Rightarrow> ('k \<times> 'a) list" where
  "tree_map_insert k v [] = [(k, v)]"
| "tree_map_insert k v ((k', v') # rest) =
     (if k < k' then (k, v) # (k', v') # rest
      else if k = k' then (k, v) # rest
      else (k', v') # tree_map_insert k v rest)"

lemma map_of_tree_map_insert:
  "sorted_wrt (<) (map fst xs) \<Longrightarrow>
     map_of (tree_map_insert k v xs) x = (if x = k then Some v else map_of xs x)"
proof (induction xs)
  case (Cons p xs)
  obtain k' v' where "p = (k', v')" by (cases p)
  with Cons show ?case by auto
qed simp

lemma keys_tree_map_insert: "set (map fst (tree_map_insert k v xs)) = insert k (set (map fst xs))"
  by (induction k v xs rule: tree_map_insert.induct) auto

lemma sorted_tree_map_insert:
  "sorted_wrt (<) (map fst xs) \<Longrightarrow> sorted_wrt (<) (map fst (tree_map_insert k v xs))"
proof (induction k v xs rule: tree_map_insert.induct)
  case (2 k v k' v' rest)
  have "\<forall>x \<in> set (map fst (tree_map_insert k v rest)). k' < x" if "\<not> k < k'" "k \<noteq> k'"
    using 2(2) that unfolding keys_tree_map_insert by auto
  with 2 show ?case by auto
qed simp

lemma sorted_keys_distinct: "sorted_wrt (<) (xs :: 'k::linorder list) \<Longrightarrow> distinct xs"
  by (simp add: strict_sorted_iff)

end
