(* ===== verification/Git_Checkpoint.thy ===== *)
theory Git_Checkpoint
  imports Git_Client Bus Ordered_Maps
begin

section \<open>harness-git: shadow checkpoints\<close>

text \<open>
  The second half of \<open>harness-git/src/lib.rs\<close>: \<open>ShadowCheckpointStore\<close>. A checkpoint holds the
  contents of every file git lists when a run starts (the baseline) and, for each file the
  harness changed since, what it left there. Restoring compares every recorded file with
  the disk and, only if all agree, writes the baseline back. A \<open>BTreeMap\<close> is its list of
  entries in the order of the keys. The JSON text of a checkpoint is a parameter. The disk
  is the tree of \<open>Host_Files\<close> with the permission bits of its files.
\<close>

subsection \<open>Data\<close>

record file_snapshot =
  snap_exists :: bool
  snap_content :: "string option"
  snap_executable :: bool

record checkpoint =
  cp_id :: ident
  cp_session :: ident
  cp_directory :: path
  cp_created_at :: string
  cp_reference :: string
  cp_baseline :: "(string \<times> file_snapshot) list"
  cp_recorded :: "(string \<times> file_snapshot) list"

record checkpoint_info =
  info_id :: ident
  info_session :: ident
  info_directory :: path
  info_created_at :: string
  info_reference :: string
  info_baseline_count :: nat
  info_recorded :: "string list"

record restore_report =
  report_checkpoint :: ident
  report_restored :: "path list"
  report_conflicts :: "path list"

subsection \<open>The disk with permissions\<close>

type_synonym file_mode = "12 word"

record mode_disk =
  nodes :: tree
  modes :: "component list \<Rightarrow> file_mode"

text \<open>
  \<open>torn\<close> is the number of bytes that reach a file when writing it fails, \<open>new_file_mode\<close> the
  permissions the process gives a new file.
\<close>

record git_host =
  os :: machine
  git :: git_program
  torn :: "component list \<Rightarrow> nat"
  new_file_mode :: file_mode
  encode_checkpoint :: "checkpoint \<Rightarrow> string + string"
  decode_checkpoint :: "string \<Rightarrow> string + checkpoint"

text \<open>\<open>symlink_metadata\<close>: the entry itself, its directory resolved.\<close>

definition link_inode :: "machine \<Rightarrow> tree \<Rightarrow> path \<Rightarrow> os_error + inode" where
  "link_inode m t p =
     (case (if components p = [] then RootDir else last (components p)) of
        Normal _ \<Rightarrow> bind_result (target_of m t (components p)) (\<lambda>cs.
          case inode_at t cs of None \<Rightarrow> Inl no_such_file | Some x \<Rightarrow> Inr x)
      | _ \<Rightarrow> inode_of m t p)"

text \<open>
  The place \<open>open(O_CREAT)\<close> writes to: what the path resolves to, or, where the last name (or
  the link it is) leads nowhere yet, the entry to be made.
\<close>

fun new_place :: "nat \<Rightarrow> machine \<Rightarrow> tree \<Rightarrow> component list \<Rightarrow> os_error + component list" where
  "new_place k m t cs =
     bind_result (target_of m t cs) (\<lambda>place.
       case inode_at t place of
         Some (SymLink target) \<Rightarrow>
           (case k of 0 \<Rightarrow> Inl too_many_links
            | Suc k' \<Rightarrow> new_place k' m t
                (if is_absolute target then components target else butlast place @ components target))
       | _ \<Rightarrow> Inr place)"

declare new_place.simps [simp del]

definition open_place :: "machine \<Rightarrow> tree \<Rightarrow> path \<Rightarrow> os_error + component list" where
  "open_place m t p =
     (case resolve m t p of
        Inr cs \<Rightarrow> Inr cs
      | Inl err \<Rightarrow>
          if os_kind err = KindNotFound then new_place max_links m t (components p) else Inl err)"

text \<open>
  \<open>fs::write\<close>: the file is opened, cut to nothing and written. A failure while it is opened
  leaves it alone, a later one leaves a part of the new contents.
\<close>

definition store_file :: "git_host \<Rightarrow> mode_disk \<Rightarrow> component list \<Rightarrow> string \<Rightarrow> mode_disk" where
  "store_file h d cs bytes =
     d\<lparr>nodes := put_inode cs (RegularFile bytes) (nodes d),
       modes := (if inode_at (nodes d) cs = None then (modes d)(cs := new_file_mode h) else modes d)\<rparr>"

definition host_write ::
  "git_host \<Rightarrow> mode_disk \<Rightarrow> path \<Rightarrow> string \<Rightarrow> (os_error + unit) \<times> mode_disk" where
  "host_write h d p bytes =
     (case open_place (os h) (nodes d) p of
        Inl err \<Rightarrow> (Inl err, d)
      | Inr cs \<Rightarrow>
          if inode_at (nodes d) cs = Some Directory then (Inl is_a_directory, d)
          else case io_fault (os h) OpenWrite cs of
            Some err \<Rightarrow> (Inl err, d)
          | None \<Rightarrow>
              if inode_at (nodes d) cs = Some SpecialFile then (Inr (), d)
              else case io_fault (os h) WriteData cs of
                Some err \<Rightarrow> (Inl err, store_file h d cs (take (torn h cs) bytes))
              | None \<Rightarrow> (Inr (), store_file h d cs bytes))"

definition execute_bits :: file_mode where "execute_bits = 0x49"

definition is_executable :: "git_host \<Rightarrow> mode_disk \<Rightarrow> path \<Rightarrow> bool" where
  "is_executable h d p \<longleftrightarrow>
     (case resolve (os h) (nodes d) p of
        Inl _ \<Rightarrow> False | Inr cs \<Rightarrow> and (modes d cs) execute_bits \<noteq> 0)"

definition restored_mode :: "bool \<Rightarrow> file_mode" where
  "restored_mode executable = (if executable then 0x1ED else 0x1A4)"

definition set_executable ::
  "git_host \<Rightarrow> mode_disk \<Rightarrow> path \<Rightarrow> bool \<Rightarrow> (git_error + unit) \<times> mode_disk" where
  "set_executable h d p executable =
     (case resolve (os h) (nodes d) p of
        Inl err \<Rightarrow> (Inl (git_io err), d)
      | Inr cs \<Rightarrow> (case io_fault (os h) SetMode cs of
          Some err \<Rightarrow> (Inl (git_io err), d)
        | None \<Rightarrow> (Inr (), d\<lparr>modes := (modes d)(cs := restored_mode executable)\<rparr>)))"

definition absent_snapshot :: file_snapshot where
  "absent_snapshot = \<lparr>snap_exists = False, snap_content = None, snap_executable = False\<rparr>"

definition max_snapshot_bytes :: nat where "max_snapshot_bytes = 10 * 1024 * 1024"

definition snapshot_file :: "git_host \<Rightarrow> mode_disk \<Rightarrow> path \<Rightarrow> git_error + file_snapshot" where
  "snapshot_file h d p =
     (case link_inode (os h) (nodes d) p of
        Inl err \<Rightarrow>
          if os_kind err = KindNotFound then Inr absent_snapshot else Inl (git_io err)
      | Inr (RegularFile whole) \<Rightarrow>
          if length whole > max_snapshot_bytes then Inl (GitFileTooLarge p)
          else bind_result (map_sum git_io id (host_read (os h) (nodes d) p)) (\<lambda>bytes.
            Inr \<lparr>snap_exists = True, snap_content = Some bytes, snap_executable = is_executable h d p\<rparr>)
      | Inr _ \<Rightarrow> Inl (InvalidPath p))"

subsection \<open>The store\<close>

record 'h checkpoint_store =
  storage_root :: path
  store_bus :: "'h event_bus option"

text \<open>What an operation publishes: the calls of the subscribers, and the clock that stamped it.\<close>

definition store_publish ::
  "'h checkpoint_store \<Rightarrow> event_env \<Rightarrow> ident \<Rightarrow> event_payload \<Rightarrow> ('h \<times> harness_event) list \<times> event_env"
where
  "store_publish st env sid p =
     (case store_bus st of
        None \<Rightarrow> ([], env)
      | Some bus \<Rightarrow>
          (let (e, env) = harness_event_new env sid p None None in (bus_publish bus e, env)))"

definition store_open ::
  "git_host \<Rightarrow> mode_disk \<Rightarrow> path \<Rightarrow> 'h event_bus option
     \<Rightarrow> (git_error + 'h checkpoint_store) \<times> mode_disk" where
  "store_open h d root bus =
     (case make_dirs (os h) (nodes d) (components root) of (r, t) \<Rightarrow>
        (map_sum git_io (\<lambda>_. \<lparr>storage_root = root, store_bus = bus\<rparr>) r, d\<lparr>nodes := t\<rparr>))"

definition checkpoint_path :: "'h checkpoint_store \<Rightarrow> ident \<Rightarrow> path" where
  "checkpoint_path st i = path_join (storage_root st) (i @ ''.json'')"

definition git_read_to_string :: "git_host \<Rightarrow> mode_disk \<Rightarrow> path \<Rightarrow> git_error + string" where
  "git_read_to_string h d p =
     (case host_read (os h) (nodes d) p of
        Inl err \<Rightarrow> Inl (git_io err)
      | Inr s \<Rightarrow> if valid_utf8 s then Inr s else Inl (GitIo ''stream did not contain valid UTF-8''))"

definition load_checkpoint :: "git_host \<Rightarrow> 'h checkpoint_store \<Rightarrow> mode_disk \<Rightarrow> ident \<Rightarrow> git_error + checkpoint" where
  "load_checkpoint h st d i =
     (let p = checkpoint_path st i
      in if \<not> host_is_file (os h) (nodes d) p then Inl (CheckpointNotFound i)
         else bind_result (git_read_to_string h d p) (\<lambda>contents.
           map_sum SerializationFailed id (decode_checkpoint h contents)))"

definition persist_checkpoint ::
  "git_host \<Rightarrow> 'h checkpoint_store \<Rightarrow> mode_disk \<Rightarrow> checkpoint \<Rightarrow> (git_error + unit) \<times> mode_disk" where
  "persist_checkpoint h st d c =
     (case encode_checkpoint h c of
        Inl msg \<Rightarrow> (Inl (SerializationFailed msg), d)
      | Inr text \<Rightarrow> map_prod (map_sum git_io id) id (host_write h d (checkpoint_path st (cp_id c)) text))"

definition unique_suffix :: "event_env \<Rightarrow> string \<times> event_env" where
  "unique_suffix env =
     (let (nanos, env) = read_clock env in (show_nat (env_pid env) @ ''-'' @ show_nat nanos, env))"

definition store_timestamp :: "event_env \<Rightarrow> string \<times> event_env" where
  "store_timestamp env = (let (nanos, env) = read_clock env in (show_nat (nanos div 1000000), env))"

text \<open>The text of the one error an identifier can be refused with.\<close>

definition id_failure :: "harness_error \<Rightarrow> git_error" where
  "id_failure err =
     CommandFailed (case err of InvalidId reason \<Rightarrow> ''invalid identifier: '' @ reason | _ \<Rightarrow> [])"

text \<open>The files a baseline leaves out: those of the store itself and of git.\<close>

definition skipped_file :: "path \<Rightarrow> path \<Rightarrow> string \<Rightarrow> bool" where
  "skipped_file root storage relative \<longleftrightarrow>
     path_starts_with storage root \<and> path_starts_with (path_join root relative) storage
     \<or> relative = ''.git'' \<or> starts_with relative ''.git/''"

fun take_baseline ::
  "git_host \<Rightarrow> mode_disk \<Rightarrow> path \<Rightarrow> path \<Rightarrow> string list \<Rightarrow> (string \<times> file_snapshot) list
     \<Rightarrow> git_error + (string \<times> file_snapshot) list" where
  "take_baseline h d root storage [] acc = Inr acc"
| "take_baseline h d root storage (relative # rest) acc =
     (if skipped_file root storage relative then take_baseline h d root storage rest acc
      else bind_result (snapshot_file h d (path_join root relative)) (\<lambda>snap.
        take_baseline h d root storage rest (tree_map_insert relative snap acc)))"

definition create_checkpoint ::
  "git_host \<Rightarrow> 'h checkpoint_store \<Rightarrow> event_env \<Rightarrow> mode_disk \<Rightarrow> ident \<Rightarrow> path
     \<Rightarrow> (git_error + checkpoint) \<times> mode_disk \<times> ('h \<times> harness_event) list \<times> event_env" where
  "create_checkpoint h st env d sid working_directory =
     (let t = nodes d in
      case client_open (os h) (git h) t working_directory of
        Inl err \<Rightarrow> (Inl err, d, [], env)
      | Inr root \<Rightarrow>
          (let storage = (case Host_Files.canonicalize (os h) t (storage_root st) of
                            Inr p \<Rightarrow> p | Inl _ \<Rightarrow> storage_root st) in
           case bind_result (list_worktree_files (git h) t root) (\<lambda>names.
                  take_baseline h d root storage names []) of
             Inl err \<Rightarrow> (Inl err, d, [], env)
           | Inr baseline \<Rightarrow>
               (let (suffix, env) = unique_suffix env; (created, env) = store_timestamp env in
                case bind_result (map_sum id_failure id
                         (id_new (''checkpoint-'' @ suffix))) (\<lambda>i.
                       bind_result (client_head (git h) t root) (\<lambda>head.
                         Inr \<lparr>cp_id = i, cp_session = sid, cp_directory = root, cp_created_at = created,
                              cp_reference = (case head of None \<Rightarrow> ''unborn'' | Some r \<Rightarrow> r),
                              cp_baseline = baseline, cp_recorded = []\<rparr>)) of
                  Inl err \<Rightarrow> (Inl err, d, [], env)
                | Inr c \<Rightarrow>
                    (case persist_checkpoint h st d c of
                       (Inl err, d') \<Rightarrow> (Inl err, d', [], env)
                     | (Inr _, d') \<Rightarrow>
                         (let (calls, env) = store_publish st env sid
                                (CheckpointCreated (cp_id c) (cp_reference c))
                          in (Inr c, d', calls, env))))))"

definition checkpoint_summary :: "checkpoint \<Rightarrow> checkpoint_info" where
  "checkpoint_summary c =
     \<lparr>info_id = cp_id c, info_session = cp_session c, info_directory = cp_directory c,
      info_created_at = cp_created_at c, info_reference = cp_reference c,
      info_baseline_count = length (cp_baseline c), info_recorded = map fst (cp_recorded c)\<rparr>"

definition read_checkpoint :: "git_host \<Rightarrow> mode_disk \<Rightarrow> path \<Rightarrow> git_error + checkpoint_info" where
  "read_checkpoint h d p =
     bind_result (git_read_to_string h d p) (\<lambda>contents.
       map_sum SerializationFailed checkpoint_summary (decode_checkpoint h contents))"

fun read_checkpoints :: "git_host \<Rightarrow> mode_disk \<Rightarrow> path list \<Rightarrow> git_error + checkpoint_info list" where
  "read_checkpoints h d [] = Inr []"
| "read_checkpoints h d (p # ps) =
     (if path_extension p \<noteq> Some ''json'' then read_checkpoints h d ps
      else bind_result (read_checkpoint h d p) (\<lambda>i.
        bind_result (read_checkpoints h d ps) (\<lambda>is. Inr (i # is))))"

text \<open>The newest first; checkpoints of the same millisecond stay in the order of the directory.\<close>

definition list_checkpoints :: "git_host \<Rightarrow> 'h checkpoint_store \<Rightarrow> mode_disk \<Rightarrow> git_error + checkpoint_info list" where
  "list_checkpoints h st d =
     (case host_entries (os h) (nodes d) (storage_root st) of
        Inl err \<Rightarrow> Inl (git_io err)
      | Inr entries \<Rightarrow>
          bind_result (read_checkpoints h d (map (\<lambda>(n, _). path_join (storage_root st) n) entries))
            (\<lambda>is. Inr (rev (sort_key info_created_at (rev is)))))"

definition inspect_checkpoint ::
  "git_host \<Rightarrow> 'h checkpoint_store \<Rightarrow> mode_disk \<Rightarrow> ident \<Rightarrow> git_error + checkpoint_info" where
  "inspect_checkpoint h st d i = map_sum id checkpoint_summary (load_checkpoint h st d i)"

subsection \<open>Recording a change\<close>

definition checkpoint_relative_path :: "machine \<Rightarrow> tree \<Rightarrow> path \<Rightarrow> path \<Rightarrow> git_error + string" where
  "checkpoint_relative_path m t root p =
     (let absolute = canonical_or_normalized m t p
      in case path_strip_prefix (canonical_or_normalized m t root) absolute of
           None \<Rightarrow> Inl (InvalidPath absolute)
         | Some below \<Rightarrow>
             (let relative = lossy_slashes below
              in if relative = [] \<or> ''..'' \<in> set (path_pieces relative)
                 then Inl (InvalidPath absolute) else Inr relative))"

definition record_change :: "checkpoint \<Rightarrow> string \<Rightarrow> file_snapshot \<Rightarrow> checkpoint" where
  "record_change c relative snap = c\<lparr>cp_recorded := tree_map_insert relative snap (cp_recorded c)\<rparr>"

definition record_harness_change ::
  "git_host \<Rightarrow> 'h checkpoint_store \<Rightarrow> mode_disk \<Rightarrow> ident \<Rightarrow> path \<Rightarrow> (git_error + unit) \<times> mode_disk" where
  "record_harness_change h st d i p =
     (case load_checkpoint h st d i of
        Inl err \<Rightarrow> (Inl err, d)
      | Inr c \<Rightarrow>
          (case bind_result (checkpoint_relative_path (os h) (nodes d) (cp_directory c) p) (\<lambda>relative.
                  bind_result (snapshot_file h d (path_join (cp_directory c) relative)) (\<lambda>snap.
                    Inr (record_change c relative snap))) of
             Inl err \<Rightarrow> (Inl err, d)
           | Inr c' \<Rightarrow> persist_checkpoint h st d c'))"

subsection \<open>Restoring\<close>

text \<open>The recorded files whose contents or executable bit are no longer what was recorded.\<close>

fun restore_conflicts ::
  "git_host \<Rightarrow> mode_disk \<Rightarrow> path \<Rightarrow> (string \<times> file_snapshot) list \<Rightarrow> git_error + path list" where
  "restore_conflicts h d root [] = Inr []"
| "restore_conflicts h d root ((relative, after) # rest) =
     bind_result (snapshot_file h d (path_join root relative)) (\<lambda>current.
       map_sum id (\<lambda>ps. if current \<noteq> after then relative # ps else ps)
         (restore_conflicts h d root rest))"

definition write_baseline ::
  "git_host \<Rightarrow> mode_disk \<Rightarrow> path \<Rightarrow> file_snapshot \<Rightarrow> (git_error + unit) \<times> mode_disk" where
  "write_baseline h d p snap =
     (case (case path_parent p of
              None \<Rightarrow> (Inr (), nodes d)
            | Some parent \<Rightarrow> make_dirs (os h) (nodes d) (components parent)) of
        (Inl err, t) \<Rightarrow> (Inl (git_io err), d\<lparr>nodes := t\<rparr>)
      | (Inr _, t) \<Rightarrow>
          (case host_write h (d\<lparr>nodes := t\<rparr>) p
                  (case snap_content snap of None \<Rightarrow> [] | Some bytes \<Rightarrow> bytes) of
             (Inl err, d) \<Rightarrow> (Inl (git_io err), d)
           | (Inr _, d) \<Rightarrow> set_executable h d p (snap_executable snap)))"

definition remove_created :: "git_host \<Rightarrow> mode_disk \<Rightarrow> path \<Rightarrow> (git_error + unit) \<times> mode_disk" where
  "remove_created h d p =
     (if \<not> host_exists (os h) (nodes d) p then (Inr (), d)
      else case remove_file (os h) (nodes d) (components p) of
        Inl err \<Rightarrow> (Inl (git_io err), d)
      | Inr t \<Rightarrow> (Inr (), d\<lparr>nodes := t\<rparr>))"

definition restore_one ::
  "git_host \<Rightarrow> (string \<times> file_snapshot) list \<Rightarrow> path \<Rightarrow> mode_disk \<Rightarrow> string \<Rightarrow> (git_error + unit) \<times> mode_disk" where
  "restore_one h baseline root d relative =
     (let p = path_join root relative in
      case map_of baseline relative of
        Some snap \<Rightarrow> if snap_exists snap then write_baseline h d p snap else remove_created h d p
      | None \<Rightarrow> remove_created h d p)"

fun restore_files ::
  "git_host \<Rightarrow> (string \<times> file_snapshot) list \<Rightarrow> path \<Rightarrow> mode_disk \<Rightarrow> string list
     \<Rightarrow> (git_error + path list) \<times> mode_disk" where
  "restore_files h baseline root d [] = (Inr [], d)"
| "restore_files h baseline root d (relative # rest) =
     (case restore_one h baseline root d relative of
        (Inl err, d') \<Rightarrow> (Inl err, d')
      | (Inr _, d') \<Rightarrow>
          map_prod (map_sum id (\<lambda>ps. path_join root relative # ps)) id
            (restore_files h baseline root d' rest))"

definition emit_restore ::
  "'h checkpoint_store \<Rightarrow> event_env \<Rightarrow> checkpoint \<Rightarrow> restore_report \<Rightarrow> ('h \<times> harness_event) list \<times> event_env"
where
  "emit_restore st env c report =
     store_publish st env (cp_session c)
       (CheckpointRestored (cp_id c) (report_restored report) (report_conflicts report))"

definition restore_checkpoint ::
  "git_host \<Rightarrow> 'h checkpoint_store \<Rightarrow> event_env \<Rightarrow> mode_disk \<Rightarrow> checkpoint
     \<Rightarrow> (git_error + restore_report) \<times> mode_disk \<times> ('h \<times> harness_event) list \<times> event_env" where
  "restore_checkpoint h st env d c =
     (case restore_conflicts h d (cp_directory c) (cp_recorded c) of
        Inl err \<Rightarrow> (Inl err, d, [], env)
      | Inr conflicts \<Rightarrow>
          let report = (\<lambda>restored. \<lparr>report_checkpoint = cp_id c, report_restored = restored,
                                     report_conflicts = conflicts\<rparr>) in
          if conflicts \<noteq> []
          then (Inl (RestoreConflict conflicts), d, emit_restore st env c (report []))
          else
            (case restore_files h (cp_baseline c) (cp_directory c) d (map fst (cp_recorded c)) of
               (Inl err, d') \<Rightarrow> (Inl err, d', [], env)
             | (Inr restored, d') \<Rightarrow>
                 (Inr (report restored), d', emit_restore st env c (report restored))))"

definition undo_checkpoint ::
  "git_host \<Rightarrow> 'h checkpoint_store \<Rightarrow> event_env \<Rightarrow> mode_disk \<Rightarrow> ident
     \<Rightarrow> (git_error + restore_report) \<times> mode_disk \<times> ('h \<times> harness_event) list \<times> event_env" where
  "undo_checkpoint h st env d i =
     (case load_checkpoint h st d i of
        Inl err \<Rightarrow> (Inl err, d, [], env)
      | Inr c \<Rightarrow> restore_checkpoint h st env d c)"

end
