(* ===== verification/Git_Checkpoint_Laws.thy ===== *)
theory Git_Checkpoint_Laws
  imports Git_Checkpoint Tool_Edit_Laws
begin

section \<open>Laws of the checkpoint store\<close>

text \<open>
  Below a resolved directory, paths whose directories are directories (no links, no files in
  between) have one place each. There a snapshot reads that place alone, writing the baseline
  back makes the place what the snapshot says, and nothing else changes but for missing
  directories.
\<close>

subsection \<open>Plain paths\<close>

text \<open>A relative path that is written with names alone, as \<open>git ls-files\<close> prints them.\<close>

definition clean_relative :: "string \<Rightarrow> bool" where
  "clean_relative r \<longleftrightarrow> list_all proper_name (path_pieces r)"

definition place :: "component list \<Rightarrow> string \<Rightarrow> component list" where
  "place root r = root @ map Normal (path_pieces r)"

text \<open>Every directory on the way is a directory, or missing.\<close>

definition plain :: "tree \<Rightarrow> component list \<Rightarrow> string list \<Rightarrow> bool" where
  "plain t root names \<longleftrightarrow>
     (\<forall>k \<le> length names. inode_at t (root @ map Normal (take k names)) \<in> {None, Some Directory})"

definition no_faults :: "machine \<Rightarrow> bool" where
  "no_faults m \<longleftrightarrow> (\<forall>op cs. io_fault m op cs = None)"

lemma join_split: "join [c] (split_on (\<lambda>d. d = c) s) = s"
proof (induction s)
  case (Cons a s)
  obtain w ws where split: "split_on (\<lambda>d. d = c) s = w # ws"
    using split_on_ne by (cases "split_on (\<lambda>d. d = c) s") auto
  with Cons show ?case by (cases ws) auto
qed simp

lemma join_path_pieces: "join [slash] (path_pieces r) = r"
  by (simp add: path_pieces_def join_split)

lemma clean_relative_ne: "clean_relative r \<Longrightarrow> path_pieces r \<noteq> []"
  using split_on_ne by (simp add: path_pieces_def)

lemma plain_take: "plain t root names \<Longrightarrow> plain t root (take k names)"
  by (auto simp: plain_def)

lemma plain_root: "plain t root names \<Longrightarrow> inode_at t root \<in> {None, Some Directory}"
  unfolding plain_def by (metis append_Nil2 le0 list.simps(8) take0)

lemma plain_butlast: "plain t root (names @ [n]) \<Longrightarrow> plain t root names"
  using plain_take [of t root "names @ [n]" "length names"] by simp

lemma plain_last: "plain t root names \<Longrightarrow> inode_at t (root @ map Normal names) \<in> {None, Some Directory}"
  unfolding plain_def by (metis le_refl take_all)

lemma root_names:
  assumes "tree_ok t" "inode_at t root = Some Directory"
  obtains rs where "root = RootDir # map Normal rs" "list_all proper_name rs"
  using tree_ok_names [OF assms] by blast

lemma path_join_place:
  assumes "tree_ok t" "inode_at t root = Some Directory" "clean_relative r"
  shows "path_join (path_text root) r = path_text (place root r)"
proof -
  obtain rs where rs: "root = RootDir # map Normal rs" "list_all proper_name rs"
    using root_names [OF assms(1,2)] .
  have "path_text (map Normal (path_pieces r)) = r"
    by (simp only: path_text_names join_path_pieces)
  with path_join_text [OF rs clean_relative_ne [OF assms(3)]] assms(3) show ?thesis
    by (simp add: place_def clean_relative_def)
qed

lemma components_place:
  assumes "tree_ok t" "inode_at t root = Some Directory" "list_all proper_name names"
  shows "components (path_text (root @ map Normal names)) = root @ map Normal names"
proof -
  obtain rs where rs: "root = RootDir # map Normal rs" "list_all proper_name rs"
    using root_names [OF assms(1,2)] .
  then have "resolved (root @ map Normal names)"
    using assms(3) unfolding resolved_def by (intro exI [of _ "rs @ names"]) simp
  then show ?thesis by (rule components_path_text)
qed

lemma missing_below:
  assumes "tree_ok t" "inode_at t dir = None" "dir \<noteq> []"
  shows "inode_at t (dir @ map Normal names) = None"
proof (induction names rule: rev_induct)
  case (snoc n names)
  show ?case
  proof (rule ccontr)
    assume "inode_at t (dir @ map Normal (names @ [n])) \<noteq> None"
    then obtain x where "inode_at t (dir @ map Normal (names @ [n])) = Some x" by auto
    from assms(1) this show False
      by (cases rule: tree_okE) (use snoc assms(3) in \<open>auto simp: append_eq_Cons_conv\<close>)
  qed
qed (use assms in simp)

lemma walk_plain:
  assumes "tree_ok t" "list_all proper_name names" "plain t base names" "inode_at t base = Some Directory"
  shows "walk t k base names =
    (if inode_at t (base @ map Normal names) = None then Inl no_such_file
     else Inr (base @ map Normal names))"
  using assms(2-)
proof (induction names arbitrary: base)
  case (Cons n names)
  have n: "proper_name n" using Cons.prems by simp
  have plain: "plain t (base @ [Normal n]) names"
    unfolding plain_def
  proof (intro allI impI)
    fix j
    assume "j \<le> length names"
    then have "Suc j \<le> length (n # names)" by simp
    with Cons.prems(2) have "inode_at t (base @ map Normal (take (Suc j) (n # names))) \<in> {None, Some Directory}"
      unfolding plain_def by blast
    then show "inode_at t ((base @ [Normal n]) @ map Normal (take j names)) \<in> {None, Some Directory}"
      by simp
  qed
  show ?case
  proof (cases "inode_at t (base @ [Normal n])")
    case None
    then have "inode_at t (base @ map Normal (n # names)) = None"
      using missing_below [OF assms(1) None, of names] by simp
    with None n Cons.prems(3) show ?thesis by (simp add: proper_name_def)
  next
    case (Some x)
    with plain_root [OF plain] have "x = Directory" by auto
    with Some n Cons.prems Cons.IH [OF _ plain] show ?thesis by (simp add: proper_name_def)
  qed
qed simp

lemma resolve_plain:
  assumes "tree_ok t" "list_all proper_name names" "plain t root names" "inode_at t root = Some Directory"
  shows "resolve m t (path_text (root @ map Normal names)) =
    (if inode_at t (root @ map Normal names) = None then Inl no_such_file
     else Inr (root @ map Normal names))"
  using resolve_below [OF assms(1) real_directory [OF assms(4)] assms(2)] walk_plain [OF assms]
  by simp

lemma root_ne: "tree_ok t \<Longrightarrow> inode_at t root = Some Directory \<Longrightarrow> root \<noteq> []"
  using root_names [of t root] by blast

lemma target_of_plain:
  assumes "tree_ok t" "list_all proper_name names" "plain t root names" "inode_at t root = Some Directory"
  shows "target_of m t (root @ map Normal names @ [Normal n]) =
    (if inode_at t (root @ map Normal names) = None then Inl no_such_file
     else Inr (root @ map Normal names @ [Normal n]))"
proof -
  have ne: "root @ map Normal names \<noteq> []" using root_ne [OF assms(1,4)] by simp
  have dir: "inode_at t (root @ map Normal names) = None \<or> inode_at t (root @ map Normal names) = Some Directory"
    using plain_last [OF assms(3)] by blast
  have "target_of m t ((root @ map Normal names) @ [Normal n]) =
    bind_result (resolve m t (path_text (root @ map Normal names))) (\<lambda>dir.
      if inode_at t dir = Some Directory then Inr (dir @ [Normal n]) else Inl not_a_directory)"
    unfolding target_of_def by (simp only: ne butlast_snoc last_snoc snoc_eq_iff_butlast) simp
  with dir show ?thesis by (auto simp: resolve_plain [OF assms])
qed

subsection \<open>One place\<close>

text \<open>The parent directories of a relative path; the place is in the tree only below directories.\<close>

definition plain_place :: "tree \<Rightarrow> component list \<Rightarrow> string \<Rightarrow> bool" where
  "plain_place t root r \<longleftrightarrow> clean_relative r \<and> plain t root (butlast (path_pieces r))"

definition snapshot_at :: "git_host \<Rightarrow> mode_disk \<Rightarrow> component list \<Rightarrow> git_error + file_snapshot" where
  "snapshot_at h d cs =
     (case inode_at (nodes d) cs of
        None \<Rightarrow> Inr absent_snapshot
      | Some (RegularFile whole) \<Rightarrow>
          if length whole > max_snapshot_bytes then Inl (GitFileTooLarge (path_text cs))
          else Inr \<lparr>snap_exists = True, snap_content = Some whole,
                    snap_executable = (and (modes d cs) execute_bits \<noteq> 0)\<rparr>
      | Some _ \<Rightarrow> Inl (InvalidPath (path_text cs)))"

lemma plain_placeE:
  assumes "plain_place t root r"
  obtains names n where "path_pieces r = names @ [n]" "list_all proper_name names" "proper_name n"
    "plain t root names" "place root r = root @ map Normal names @ [Normal n]" "clean_relative r"
proof -
  let ?ps = "path_pieces r"
  have ps: "?ps = butlast ?ps @ [last ?ps]"
    using clean_relative_ne assms by (simp add: plain_place_def)
  show ?thesis
  proof (rule that [of "butlast ?ps" "last ?ps"])
    show "?ps = butlast ?ps @ [last ?ps]" by (rule ps)
    have "list_all proper_name (butlast ?ps @ [last ?ps])"
      using assms ps by (simp add: plain_place_def clean_relative_def)
    then show "list_all proper_name (butlast ?ps)" "proper_name (last ?ps)" by simp_all
    show "plain t root (butlast ?ps)" "clean_relative r" using assms by (simp_all add: plain_place_def)
    show "place root r = root @ map Normal (butlast ?ps) @ [Normal (last ?ps)]"
      unfolding place_def by (subst ps) simp
  qed
qed

text \<open>What the names of a plain place say about the tree.\<close>

lemma place_parent_missing:
  assumes "tree_ok t" "inode_at t root = Some Directory" "inode_at t (root @ map Normal names) = None"
  shows "inode_at t (root @ map Normal names @ [Normal n]) = None"
proof -
  have "root @ map Normal names \<noteq> []" using root_ne [OF assms(1,2)] by simp
  from missing_below [OF assms(1,3) this, of "[n]"] show ?thesis by simp
qed

lemma link_inode_place:
  assumes "tree_ok t" "inode_at t root = Some Directory" "plain_place t root r"
  shows "link_inode m t (path_text (place root r)) =
    (case inode_at t (place root r) of None \<Rightarrow> Inl no_such_file | Some x \<Rightarrow> Inr x)"
proof -
  from assms(3) obtain names n where r: "list_all proper_name names" "proper_name n"
      "plain t root names" and pl: "place root r = root @ map Normal names @ [Normal n]"
    by (rule plain_placeE)
  have comps: "components (path_text (place root r)) = place root r"
    using components_place [OF assms(1,2), of "names @ [n]"] r by (simp add: pl)
  show ?thesis
    unfolding link_inode_def comps
    using target_of_plain [OF assms(1) r(1,3) assms(2), of m n]
      place_parent_missing [OF assms(1,2), of names n]
    by (simp add: pl split: option.splits)
qed

lemma resolve_file:
  "tree_ok t \<Longrightarrow> inode_at t cs = Some (RegularFile s) \<Longrightarrow> resolve m t (path_text cs) = Inr cs"
  by (rule resolve_path_text) (auto simp: real_def)

lemma snapshot_file_place:
  assumes "tree_ok (nodes d)" "inode_at (nodes d) root = Some Directory" "plain_place (nodes d) root r"
    "no_faults (os h)"
  shows "snapshot_file h d (path_join (path_text root) r) = snapshot_at h d (place root r)"
proof -
  have clean: "clean_relative r" using assms(3) by (simp add: plain_place_def)
  show ?thesis
    unfolding path_join_place [OF assms(1,2) clean]
    using link_inode_place [OF assms(1-3), of "os h"] resolve_file [OF assms(1)] assms(4)
    by (auto simp: snapshot_file_def snapshot_at_def no_such_file_def host_read_def no_faults_def
        is_executable_def split: option.splits inode.splits)
qed

subsection \<open>Making the directories of a place\<close>

definition made_dirs :: "component list \<Rightarrow> string list \<Rightarrow> tree \<Rightarrow> tree \<Rightarrow> bool" where
  "made_dirs root names t t' \<longleftrightarrow>
     tree_ok t' \<and> (\<forall>cs. inode_at t' cs =
       (if \<exists>k \<le> length names. cs = root @ map Normal (take k names) then Some Directory
        else inode_at t cs))"

lemma make_dir_plain:
  assumes "tree_ok t" "inode_at t root = Some Directory" "list_all proper_name (names @ [n])"
    "inode_at t (root @ map Normal names) = Some Directory" "no_faults m"
  shows "make_dir m t (root @ map Normal (names @ [n])) =
    (if inode_at t (root @ map Normal (names @ [n])) = None
     then Inr (put_inode (root @ map Normal (names @ [n])) Directory t) else Inl file_exists)"
  using target_of_real [OF assms(1,4), of m n] root_ne [OF assms(1,2)] assms(5)
  by (cases root) (auto simp: make_dir_def no_faults_def)

lemma prefix_names:
  "(\<exists>k \<le> length (names @ [n]). cs = root @ map Normal (take k (names @ [n]))) \<longleftrightarrow>
    cs = root @ map Normal (names @ [n]) \<or> (\<exists>k \<le> length names. cs = root @ map Normal (take k names))"
proof -
  have "take k (names @ [n]) = take k names" if "k \<le> length names" for k using that by simp
  moreover have "take (Suc (length names)) (names @ [n]) = names @ [n]" by simp
  ultimately show ?thesis
    by (metis le_Suc_eq length_append_singleton)
qed

lemma not_own_prefix: "k \<le> length names \<Longrightarrow> root @ map Normal (names @ [n]) \<noteq> root @ map Normal (take k names)"
proof
  assume "k \<le> length names" "root @ map Normal (names @ [n]) = root @ map Normal (take k names)"
  from arg_cong [OF this(2), of length] this(1) show False by simp
qed

lemma make_dirs_missing:
  assumes "make_dir m t cs = Inl no_such_file" "\<not> length cs \<le> 1"
    "make_dirs m t (butlast cs) = (Inr (), t1)" "make_dir m t1 cs = Inr t2"
  shows "make_dirs m t cs = (Inr (), t2)"
  using assms by (subst make_dirs.simps) (simp add: no_such_file_def)

lemma make_dirs_plain:
  assumes "tree_ok t" "inode_at t root = Some Directory" "list_all proper_name names"
    "plain t root names" "no_faults m"
  shows "\<exists>t'. make_dirs m t (root @ map Normal names) = (Inr (), t') \<and> made_dirs root names t t'"
  using assms(3,4)
proof (induction names rule: rev_induct)
  case Nil
  have "make_dirs m t root = (Inr (), t)"
    using make_dirs_at_base [OF assms(1) real_directory [OF assms(2)], of m] assms(2) by simp
  with assms(1,2) show ?case by (auto simp: made_dirs_def)
next
  case (snoc n names)
  let ?dir = "root @ map Normal names" and ?cs = "root @ map Normal (names @ [n])"
  have names: "list_all proper_name names" and plain: "plain t root names"
    using snoc.prems plain_butlast by auto
  have parent: "inode_at t ?dir \<in> {None, Some Directory}" by (rule plain_last [OF plain])
  have here: "inode_at t ?cs \<in> {None, Some Directory}" by (rule plain_last [OF snoc.prems(2)])
  have len: "\<not> length ?cs \<le> 1" and bl: "butlast ?cs = ?dir"
    using root_ne [OF assms(1,2)] by (cases root; simp add: butlast_append)+
  show ?case
  proof (cases "inode_at t ?dir = None")
    case False
    with parent have dir: "inode_at t ?dir = Some Directory" by simp
    note step = make_dir_plain [OF assms(1,2) snoc.prems(1) dir assms(5)]
    have prefixes: "inode_at t (root @ map Normal (take k names)) = Some Directory" if "k \<le> length names" for k
    proof (rule ccontr)
      assume "inode_at t (root @ map Normal (take k names)) \<noteq> Some Directory"
      with plain that have "inode_at t (root @ map Normal (take k names)) = None" by (auto simp: plain_def)
      from missing_below [OF assms(1) this, of "drop k names"] root_ne [OF assms(1,2)] dir
      show False by (simp add: map_append [symmetric] del: map_append)
    qed
    show ?thesis
    proof (cases "inode_at t ?cs")
      case None
      with step have "make_dirs m t ?cs = (Inr (), put_inode ?cs Directory t)"
        by (subst make_dirs.simps) simp
      moreover have "tree_ok (put_inode ?cs Directory t)"
        using tree_ok_put [OF assms(1) dir, of n Directory] snoc.prems(1) by simp
      ultimately show ?thesis
        using prefixes unfolding made_dirs_def prefix_names by (auto simp: inode_at_put)
    next
      case (Some x)
      with here have x: "inode_at t ?cs = Some Directory" by simp
      then have "host_is_dir m t (path_text ?cs)"
        using inode_of_real [OF assms(1) real_directory] by (auto simp: host_is_dir_def)
      with step x have "make_dirs m t ?cs = (Inr (), t)"
        by (subst make_dirs.simps) (simp add: file_exists_def)
      with x prefixes assms(1) show ?thesis unfolding made_dirs_def prefix_names by auto
    qed
  next
    case True
    then have first: "make_dir m t ?cs = Inl no_such_file"
      using target_of_plain [OF assms(1) names plain assms(2), of m n] root_ne [OF assms(1,2)]
      by (auto simp: make_dir_def append_eq_Cons_conv)
    obtain t1 where t1: "make_dirs m t ?dir = (Inr (), t1)" "made_dirs root names t t1"
      using snoc.IH [OF names plain] by blast
    have ok: "tree_ok t1" and dir: "inode_at t1 ?dir = Some Directory" and top: "inode_at t1 root = Some Directory"
      using t1(2) assms(2) unfolding made_dirs_def by (auto intro: exI [of _ "length names"])
    have "inode_at t ?cs = None"
      using place_parent_missing [OF assms(1,2) True, of n] by simp
    then have none: "inode_at t1 ?cs = None"
      using t1(2) not_own_prefix unfolding made_dirs_def by auto
    then have made: "make_dir m t1 ?cs = Inr (put_inode ?cs Directory t1)"
      using make_dir_plain [OF ok top snoc.prems(1) dir assms(5)] by simp
    have "make_dirs m t (butlast ?cs) = (Inr (), t1)" unfolding bl by (rule t1(1))
    from make_dirs_missing [OF first len this made]
    have "make_dirs m t ?cs = (Inr (), put_inode ?cs Directory t1)" .
    moreover have "tree_ok (put_inode ?cs Directory t1)"
      using tree_ok_put [OF ok dir, of n Directory] snoc.prems(1) by simp
    ultimately show ?thesis
      using t1(2) unfolding made_dirs_def prefix_names by (auto simp: inode_at_put)
  qed
qed

subsection \<open>Bringing one file back\<close>

definition snap_ok :: "file_snapshot \<Rightarrow> bool" where
  "snap_ok s \<longleftrightarrow>
     (if snap_exists s then \<exists>b. snap_content s = Some b \<and> length b \<le> max_snapshot_bytes
      else s = absent_snapshot)"

text \<open>
  The place is as the snapshot says. Elsewhere nothing changed, but for directories above it
  that were missing.
\<close>

definition brought_back :: "component list \<Rightarrow> file_snapshot \<Rightarrow> mode_disk \<Rightarrow> mode_disk \<Rightarrow> bool" where
  "brought_back cs snap d d' \<longleftrightarrow>
     tree_ok (nodes d') \<and>
     inode_at (nodes d') cs = (if snap_exists snap then map_option RegularFile (snap_content snap) else None) \<and>
     (snap_exists snap \<longrightarrow> modes d' cs = restored_mode (snap_executable snap)) \<and>
     (\<forall>cs'. cs' \<noteq> cs \<longrightarrow> modes d' cs' = modes d cs' \<and>
        (inode_at (nodes d') cs' = inode_at (nodes d) cs' \<or>
         strict_prefix cs' cs \<and> inode_at (nodes d) cs' = None \<and> inode_at (nodes d') cs' = Some Directory))"

definition is_vacant_or_file :: "tree \<Rightarrow> component list \<Rightarrow> bool" where
  "is_vacant_or_file t cs \<longleftrightarrow> inode_at t cs = None \<or> (\<exists>s. inode_at t cs = Some (RegularFile s))"

lemma snapshot_at_Inr:
  assumes "snapshot_at h d cs = Inr s"
  shows "snap_ok s" "is_vacant_or_file (nodes d) cs"
  using assms by (auto simp: snapshot_at_def snap_ok_def is_vacant_or_file_def absent_snapshot_def
      split: option.splits inode.splits if_splits)

lemma restored_mode_bits [simp]: "and (restored_mode e) execute_bits \<noteq> 0 \<longleftrightarrow> e"
  by (simp add: restored_mode_def execute_bits_def)

lemma snapshot_brought_back:
  assumes "brought_back cs snap d d'" "snap_ok snap"
  shows "snapshot_at h d' cs = Inr snap"
  using assms by (cases snap) (auto simp: brought_back_def snapshot_at_def snap_ok_def absent_snapshot_def
      split: option.splits if_splits)

lemma open_place_plain:
  assumes "tree_ok t" "inode_at t root = Some Directory" "list_all proper_name (names @ [n])"
    "inode_at t (root @ map Normal names) = Some Directory"
    "is_vacant_or_file t (root @ map Normal names @ [Normal n])"
  shows "open_place m t (path_text (root @ map Normal names @ [Normal n])) =
    Inr (root @ map Normal names @ [Normal n])"
proof (cases "inode_at t (root @ map Normal names @ [Normal n])")
  case None
  let ?dir = "root @ map Normal names"
  let ?place = "root @ map Normal names @ [Normal n]"
  have plain: "plain t ?dir [n]"
    using None assms(4) by (auto simp: plain_def le_Suc_eq)
  have n: "list_all proper_name [n]" using assms(3) by simp
  have "resolve m t (path_text (?dir @ map Normal [n])) = Inl no_such_file"
    using resolve_plain [OF assms(1) n plain assms(4)] None by simp
  then have missing: "resolve m t (path_text ?place) = Inl no_such_file" by simp
  have comps: "components (path_text ?place) = ?place"
    using components_place [OF assms(1,2,3)] by simp
  have target: "target_of m t ?place = Inr ?place"
    using target_of_real [OF assms(1,4), of m n] by simp
  show ?thesis
    unfolding open_place_def missing comps
    by (subst new_place.simps) (simp add: target None no_such_file_def)
next
  case (Some x)
  with assms(5) obtain s where "inode_at t (root @ map Normal names @ [Normal n]) = Some (RegularFile s)"
    by (auto simp: is_vacant_or_file_def)
  from resolve_file [OF assms(1) this] show ?thesis by (simp add: open_place_def)
qed

lemma path_parent_place:
  assumes "tree_ok t" "inode_at t root = Some Directory" "list_all proper_name (names @ [n])"
  shows "path_parent (path_text (root @ map Normal names @ [Normal n])) = Some (path_text (root @ map Normal names))"
proof -
  have "components (path_text (root @ map Normal names @ [Normal n])) = (root @ map Normal names) @ [Normal n]"
    using components_place [OF assms] by simp
  then show ?thesis by (simp add: path_parent_def Let_def butlast_append)
qed

lemma strict_prefix_take:
  assumes "k \<le> length names"
  shows "strict_prefix (root @ map Normal (take k names)) (root @ map Normal names @ [Normal n])"
proof -
  have "map Normal names = map Normal (take k names) @ map Normal (drop k names)"
    by (simp only: map_append [symmetric] append_take_drop_id)
  then have "root @ map Normal names @ [Normal n] =
      (root @ map Normal (take k names)) @ map Normal (drop k names) @ [Normal n]"
    by simp
  then show ?thesis by (metis append_is_Nil_conv not_Cons_self2 prefixI prefix_order.less_le self_append_conv)
qed

lemma write_baseline_place:
  assumes "tree_ok (nodes d)" "inode_at (nodes d) root = Some Directory" "plain_place (nodes d) root r"
    "is_vacant_or_file (nodes d) (place root r)" "no_faults (os h)" "snap_ok snap" "snap_exists snap"
  shows "\<exists>d'. write_baseline h d (path_text (place root r)) snap = (Inr (), d') \<and>
    brought_back (place root r) snap d d'"
proof -
  let ?t = "nodes d" and ?m = "os h"
  from assms(3) obtain names n where r: "list_all proper_name names" "proper_name n"
      "plain ?t root names" and pl: "place root r = root @ map Normal names @ [Normal n]"
    by (rule plain_placeE)
  let ?dir = "root @ map Normal names" and ?place = "root @ map Normal names @ [Normal n]"
  have names: "list_all proper_name (names @ [n])" using r by simp
  have comps: "components (path_text ?dir) = ?dir" by (rule components_place [OF assms(1,2) r(1)])
  obtain t' where t': "make_dirs ?m ?t ?dir = (Inr (), t')" "made_dirs root names ?t t'"
    using make_dirs_plain [OF assms(1,2) r(1,3) assms(5)] by blast
  have ok: "tree_ok t'" and dir: "inode_at t' ?dir = Some Directory" and top: "inode_at t' root = Some Directory"
    using t'(2) assms(2) unfolding made_dirs_def by (auto intro: exI [of _ "length names"])
  have same: "inode_at t' ?place = inode_at ?t ?place"
    using t'(2) not_own_prefix [of _ names root n] unfolding made_dirs_def by auto
  have vacant: "is_vacant_or_file t' ?place"
    using assms(4) same by (simp add: is_vacant_or_file_def pl)
  obtain b where b: "snap_content snap = Some b" using assms(6,7) by (auto simp: snap_ok_def)
  have place_at: "open_place ?m t' (path_text ?place) = Inr ?place"
    by (rule open_place_plain [OF ok top names dir vacant])
  define d1 where "d1 = store_file h (d\<lparr>nodes := t'\<rparr>) ?place b"
  have written: "host_write h (d\<lparr>nodes := t'\<rparr>) (path_text ?place) b = (Inr (), d1)"
    using place_at vacant assms(5)
    by (auto simp: host_write_def d1_def no_faults_def is_vacant_or_file_def)
  have ne: "?place \<noteq> [RootDir]" using root_ne [OF assms(1,2)] by (cases root) auto
  have d1: "nodes d1 = put_inode ?place (RegularFile b) t'" "tree_ok (nodes d1)"
    "\<forall>cs. cs \<noteq> ?place \<longrightarrow> modes d1 cs = modes d cs"
    using tree_ok_put [OF ok dir r(2), of "RegularFile b"] vacant
    by (auto simp: d1_def store_file_def is_vacant_or_file_def)
  have "inode_at (nodes d1) ?place = Some (RegularFile b)"
    using ne by (simp add: d1(1) inode_at_put)
  from resolve_file [OF d1(2) this] assms(5)
  have final: "set_executable h d1 (path_text ?place) e =
      (Inr (), d1\<lparr>modes := (modes d1)(?place := restored_mode e)\<rparr>)" for e
    by (simp add: set_executable_def no_faults_def)
  have frame: "inode_at t' cs = inode_at ?t cs \<or> strict_prefix cs ?place \<and> inode_at ?t cs = None \<and>
      inode_at t' cs = Some Directory" for cs
  proof (cases "\<exists>k \<le> length names. cs = root @ map Normal (take k names)")
    case True
    then obtain k where k: "k \<le> length names" "cs = root @ map Normal (take k names)" by blast
    with r(3) have "inode_at ?t cs \<in> {None, Some Directory}" by (auto simp: plain_def)
    moreover have "inode_at t' cs = Some Directory" using t'(2) True by (simp add: made_dirs_def)
    ultimately show ?thesis using strict_prefix_take [OF k(1)] k(2) by auto
  next
    case False
    with t'(2) have "inode_at t' cs = inode_at ?t cs" unfolding made_dirs_def by auto
    then show ?thesis by blast
  qed
  have "write_baseline h d (path_text ?place) snap =
      (Inr (), d1\<lparr>modes := (modes d1)(?place := restored_mode (snap_executable snap))\<rparr>)"
    unfolding write_baseline_def path_parent_place [OF assms(1,2) names]
    by (simp add: comps t'(1) b written final)
  moreover have "brought_back ?place snap d (d1\<lparr>modes := (modes d1)(?place := restored_mode (snap_executable snap))\<rparr>)"
    using d1 ne frame assms(7) by (auto simp: brought_back_def inode_at_put b)
  ultimately show ?thesis by (auto simp: pl)
qed

lemma remove_created_place:
  assumes "tree_ok (nodes d)" "inode_at (nodes d) root = Some Directory" "plain_place (nodes d) root r"
    "is_vacant_or_file (nodes d) (place root r)" "no_faults (os h)" "\<not> snap_exists snap"
  shows "\<exists>d'. remove_created h d (path_text (place root r)) = (Inr (), d') \<and>
    brought_back (place root r) snap d d'"
proof -
  let ?t = "nodes d" and ?m = "os h"
  from assms(3) obtain names n where r: "list_all proper_name names" "proper_name n"
      "plain ?t root names" and pl: "place root r = root @ map Normal names @ [Normal n]"
    by (rule plain_placeE)
  let ?dir = "root @ map Normal names" and ?place = "root @ map Normal names @ [Normal n]"
  have names: "list_all proper_name (names @ [n])" using r by simp
  have ne: "?place \<noteq> [RootDir]" using root_ne [OF assms(1,2)] by (cases root) auto
  show ?thesis
  proof (cases "inode_at ?t ?place")
    case None
    have "plain ?t root (names @ [n])"
      unfolding plain_def
    proof (intro allI impI)
      fix k
      assume "k \<le> length (names @ [n])"
      then consider "k \<le> length names" | "k = length (names @ [n])" by fastforce
      then show "inode_at ?t (root @ map Normal (take k (names @ [n]))) \<in> {None, Some Directory}"
      proof cases
        case 1
        with r(3) show ?thesis by (simp add: plain_def)
      next
        case 2
        with None show ?thesis by simp
      qed
    qed
    from resolve_plain [OF assms(1) names this assms(2)] None
    have "resolve ?m ?t (path_text ?place) = Inl no_such_file" by simp
    then have "remove_created h d (path_text ?place) = (Inr (), d)"
      by (simp add: remove_created_def host_exists_def inode_of_def)
    moreover have "brought_back ?place snap d d"
      using assms(1,6) None by (simp add: brought_back_def)
    ultimately show ?thesis by (auto simp: pl)
  next
    case (Some x)
    with assms(4) obtain s where s: "inode_at ?t ?place = Some (RegularFile s)"
      by (auto simp: is_vacant_or_file_def pl)
    then have dir: "inode_at ?t ?dir = Some Directory"
      using place_parent_missing [OF assms(1,2), of names n] plain_last [OF r(3)] by auto
    have comps: "components (path_text ?place) = ?place"
      using components_place [OF assms(1,2) names] by simp
    have "target_of ?m ?t ?place = Inr ?place" using target_of_real [OF assms(1) dir, of ?m n] by simp
    with s assms(5) have "remove_file ?m ?t ?place = Inr (drop_inode ?place ?t)"
      by (simp add: remove_file_def no_faults_def)
    moreover have "host_exists ?m ?t (path_text ?place)"
      using resolve_file [OF assms(1) s] s by (simp add: host_exists_def inode_of_def)
    ultimately have "remove_created h d (path_text ?place) = (Inr (), d\<lparr>nodes := drop_inode ?place ?t\<rparr>)"
      by (simp add: remove_created_def comps)
    moreover have "brought_back ?place snap d (d\<lparr>nodes := drop_inode ?place ?t\<rparr>)"
      using assms(6) tree_ok_drop [OF assms(1), of ?place] s ne
      by (auto simp: brought_back_def inode_at_drop)
    ultimately show ?thesis by (auto simp: pl)
  qed
qed

text \<open>What the baseline holds of a path: nothing counts as absent.\<close>

definition baseline_of :: "(string \<times> file_snapshot) list \<Rightarrow> string \<Rightarrow> file_snapshot" where
  "baseline_of baseline r = (case map_of baseline r of None \<Rightarrow> absent_snapshot | Some s \<Rightarrow> s)"

lemma restore_one_place:
  assumes "tree_ok (nodes d)" "inode_at (nodes d) root = Some Directory" "plain_place (nodes d) root r"
    "is_vacant_or_file (nodes d) (place root r)" "no_faults (os h)" "snap_ok (baseline_of baseline r)"
  shows "\<exists>d'. restore_one h baseline (path_text root) d r = (Inr (), d') \<and>
    brought_back (place root r) (baseline_of baseline r) d d'"
proof -
  have clean: "clean_relative r" using assms(3) by (simp add: plain_place_def)
  show ?thesis
    using write_baseline_place [OF assms(1-5), of "baseline_of baseline r"]
      remove_created_place [OF assms(1-5), of "baseline_of baseline r"] assms(6)
    unfolding restore_one_def path_join_place [OF assms(1,2) clean] Let_def
    by (auto simp: baseline_of_def absent_snapshot_def split: option.splits)
qed

subsection \<open>Bringing all files back\<close>

text \<open>No recorded path lies below another.\<close>

definition unnested :: "string list \<Rightarrow> bool" where
  "unnested rs \<longleftrightarrow> (\<forall>r \<in> set rs. \<forall>r' \<in> set rs. \<not> strict_prefix (path_pieces r) (path_pieces r'))"

definition all_brought_back ::
  "component list \<Rightarrow> (string \<times> file_snapshot) list \<Rightarrow> string list \<Rightarrow> mode_disk \<Rightarrow> mode_disk \<Rightarrow> bool" where
  "all_brought_back root baseline rs d d' \<longleftrightarrow>
     tree_ok (nodes d') \<and>
     (\<forall>r \<in> set rs. let snap = baseline_of baseline r in
        inode_at (nodes d') (place root r) =
          (if snap_exists snap then map_option RegularFile (snap_content snap) else None) \<and>
        (snap_exists snap \<longrightarrow> modes d' (place root r) = restored_mode (snap_executable snap))) \<and>
     (\<forall>cs. cs \<notin> place root ` set rs \<longrightarrow> modes d' cs = modes d cs \<and>
        (inode_at (nodes d') cs = inode_at (nodes d) cs \<or>
         (\<exists>r \<in> set rs. strict_prefix cs (place root r)) \<and>
         inode_at (nodes d) cs = None \<and> inode_at (nodes d') cs = Some Directory))"

definition restorable :: "component list \<Rightarrow> tree \<Rightarrow> string list \<Rightarrow> bool" where
  "restorable root t rs \<longleftrightarrow>
     tree_ok t \<and> inode_at t root = Some Directory \<and> distinct rs \<and> unnested rs \<and>
     (\<forall>r \<in> set rs. plain_place t root r \<and> is_vacant_or_file t (place root r))"

lemma place_inject: "place root r = place root r' \<longleftrightarrow> r = r'"
proof
  assume "place root r = place root r'"
  moreover have "inj Normal" by (simp add: inj_def)
  ultimately have "path_pieces r = path_pieces r'" by (simp add: place_def inj_map_eq_map)
  then show "r = r'" by (metis join_path_pieces)
qed simp

lemma strict_prefix_place:
  "strict_prefix (place root r) (place root r') \<longleftrightarrow> strict_prefix (path_pieces r) (path_pieces r')"
proof -
  have "prefix (map Normal xs) (map Normal ys) \<longleftrightarrow> prefix xs ys" for xs ys
    by (metis inj_def component.inject list.inj_map map_mono_prefix map_append prefix_def
        inj_map_eq_map length_map take_is_prefix append_eq_conv_conj take_map)
  then show ?thesis
    unfolding strict_prefix_def place_def using place_inject [of root r r']
    by (auto simp: place_def)
qed

lemma plain_dir_below:
  assumes "plain t root (butlast (path_pieces r))" "k \<le> length (butlast (path_pieces r))" "path_pieces r \<noteq> []"
  shows "strict_prefix (root @ map Normal (take k (butlast (path_pieces r)))) (place root r)"
proof -
  have "place root r = root @ map Normal (butlast (path_pieces r)) @ [Normal (last (path_pieces r))]"
    using assms(3) unfolding place_def by (metis append_butlast_last_id list.simps(8,9) map_append)
  then show ?thesis using strict_prefix_take [OF assms(2)] by metis
qed

lemma restorable_step:
  assumes "restorable root (nodes d) (r # rs)" "brought_back (place root r) snap d d'"
  shows "restorable root (nodes d') rs"
proof -
  let ?t = "nodes d" and ?t' = "nodes d'"
  have old: "tree_ok ?t" "inode_at ?t root = Some Directory" "unnested (r # rs)" "distinct (r # rs)"
    "\<And>r'. r' \<in> set (r # rs) \<Longrightarrow> plain_place ?t root r' \<and> is_vacant_or_file ?t (place root r')"
    using assms(1) by (auto simp: restorable_def)
  have frame: "cs \<noteq> place root r \<Longrightarrow> inode_at ?t' cs = inode_at ?t cs \<or>
      strict_prefix cs (place root r) \<and> inode_at ?t cs = None \<and> inode_at ?t' cs = Some Directory" for cs
    using assms(2) by (auto simp: brought_back_def)
  have top: "root \<noteq> place root r"
    using clean_relative_ne old(5) [of r] by (simp add: place_def plain_place_def)
  have "plain_place ?t' root r' \<and> is_vacant_or_file ?t' (place root r')" if r': "r' \<in> set rs" for r'
  proof -
    have "plain_place ?t root r'" "is_vacant_or_file ?t (place root r')" using old(5) r' by auto
    then have clean: "clean_relative r'" and plain: "plain ?t root (butlast (path_pieces r'))"
      by (simp_all add: plain_place_def)
    have neq: "place root r' \<noteq> place root r" using old(4) r' by (auto simp: place_inject)
    have apart: "\<not> strict_prefix (place root r') (place root r)" "\<not> strict_prefix (place root r) (place root r')"
      using old(3) r' by (auto simp: strict_prefix_place unnested_def)
    have "is_vacant_or_file ?t' (place root r')"
      using frame [OF neq] apart(1) \<open>is_vacant_or_file ?t (place root r')\<close> by (simp add: is_vacant_or_file_def)
    moreover have "plain ?t' root (butlast (path_pieces r'))"
      unfolding plain_def
    proof (intro allI impI)
      fix k
      assume k: "k \<le> length (butlast (path_pieces r'))"
      let ?cs = "root @ map Normal (take k (butlast (path_pieces r')))"
      from plain_dir_below [OF plain k clean_relative_ne [OF clean]] apart(2) have "?cs \<noteq> place root r" by auto
      from plain k have "inode_at ?t ?cs \<in> {None, Some Directory}" unfolding plain_def by blast
      with frame [OF \<open>?cs \<noteq> place root r\<close>] show "inode_at ?t' ?cs \<in> {None, Some Directory}" by auto
    qed
    ultimately show ?thesis using clean by (simp add: plain_place_def)
  qed
  moreover have "inode_at ?t' root = Some Directory" using frame [OF top] old(2) by auto
  moreover have "unnested rs" using old(3) by (simp add: unnested_def)
  ultimately show ?thesis
    using assms(2) old(4) by (simp add: restorable_def brought_back_def)
qed

lemma all_brought_back_step:
  assumes "brought_back (place root r) (baseline_of baseline r) d d1"
    "all_brought_back root baseline rs d1 d'" "unnested (r # rs)" "r \<notin> set rs"
  shows "all_brought_back root baseline (r # rs) d d'"
proof -
  let ?p = "place root r"
  have out: "?p \<notin> place root ` set rs" using assms(4) by (auto simp: place_inject)
  have first: "\<And>cs. cs \<noteq> ?p \<Longrightarrow> modes d1 cs = modes d cs \<and>
        (inode_at (nodes d1) cs = inode_at (nodes d) cs \<or> strict_prefix cs ?p \<and>
         inode_at (nodes d) cs = None \<and> inode_at (nodes d1) cs = Some Directory)"
    using assms(1) by (auto simp: brought_back_def)
  have rest: "\<And>cs. cs \<notin> place root ` set rs \<Longrightarrow> modes d' cs = modes d1 cs \<and>
        (inode_at (nodes d') cs = inode_at (nodes d1) cs \<or>
         (\<exists>r \<in> set rs. strict_prefix cs (place root r)) \<and>
         inode_at (nodes d1) cs = None \<and> inode_at (nodes d') cs = Some Directory)"
    using assms(2) by (simp add: all_brought_back_def)
  have "\<not> strict_prefix ?p (place root r')" if "r' \<in> set rs" for r'
    using assms(3) that by (simp add: strict_prefix_place unnested_def)
  with rest [OF out] have here: "modes d' ?p = modes d1 ?p" "inode_at (nodes d') ?p = inode_at (nodes d1) ?p"
    by auto
  have frame: "modes d' cs = modes d cs \<and> (inode_at (nodes d') cs = inode_at (nodes d) cs \<or>
      (\<exists>r' \<in> set (r # rs). strict_prefix cs (place root r')) \<and>
      inode_at (nodes d) cs = None \<and> inode_at (nodes d') cs = Some Directory)"
    if "cs \<notin> place root ` set (r # rs)" for cs
    using first [of cs] rest [of cs] that by auto
  from assms(1) here have at_r: "inode_at (nodes d') ?p = (if snap_exists (baseline_of baseline r)
        then map_option RegularFile (snap_content (baseline_of baseline r)) else None)"
      "snap_exists (baseline_of baseline r) \<longrightarrow>
        modes d' ?p = restored_mode (snap_executable (baseline_of baseline r))"
    by (simp_all add: brought_back_def)
  show ?thesis
    unfolding all_brought_back_def
    using assms(2) at_r frame by (auto simp: all_brought_back_def Let_def)
qed

lemma restore_files_all:
  assumes "restorable root (nodes d) rs" "no_faults (os h)" "\<forall>r \<in> set rs. snap_ok (baseline_of baseline r)"
  shows "\<exists>d'. restore_files h baseline (path_text root) d rs = (Inr (map (path_join (path_text root)) rs), d') \<and>
    all_brought_back root baseline rs d d'"
  using assms(1,3)
proof (induction rs arbitrary: d)
  case Nil
  then show ?case by (simp add: all_brought_back_def restorable_def)
next
  case (Cons r rs)
  then have r: "plain_place (nodes d) root r" "is_vacant_or_file (nodes d) (place root r)"
      "tree_ok (nodes d)" "inode_at (nodes d) root = Some Directory" "snap_ok (baseline_of baseline r)"
      "unnested (r # rs)" "r \<notin> set rs"
    by (simp_all add: restorable_def)
  from restore_one_place [OF r(3,4,1,2) assms(2) r(5)] obtain d1 where
    d1: "restore_one h baseline (path_text root) d r = (Inr (), d1)"
      "brought_back (place root r) (baseline_of baseline r) d d1" by blast
  from Cons.IH [OF restorable_step [OF Cons.prems(1) d1(2)]] Cons.prems(2) obtain d' where
    d': "restore_files h baseline (path_text root) d1 rs = (Inr (map (path_join (path_text root)) rs), d')"
      "all_brought_back root baseline rs d1 d'" by auto
  from all_brought_back_step [OF d1(2) d'(2) r(6,7)] d1(1) d'(1) show ?case by simp
qed

text \<open>A checkpoint all of whose recorded files are still what was recorded is restorable.\<close>

lemma restore_conflicts_none:
  assumes "restore_conflicts h d root recorded = Inr []" "(r, s) \<in> set recorded"
  shows "snapshot_file h d (path_join root r) = Inr s"
  using assms
proof (induction recorded)
  case (Cons x recorded)
  obtain r' s' where x: "x = (r', s')" by (cases x)
  from Cons.prems(1) obtain current ps where
    "snapshot_file h d (path_join root r') = Inr current"
    "restore_conflicts h d root recorded = Inr ps"
    "(if current \<noteq> s' then r' # ps else ps) = []"
    unfolding x by (cases "restore_conflicts h d root recorded") auto
  with Cons x show ?case by (auto split: if_splits)
qed simp

lemma restorableI:
  assumes "tree_ok (nodes d)" "inode_at (nodes d) root = Some Directory" "no_faults (os h)"
    "sorted_wrt (<) (map fst recorded)" "unnested (map fst recorded)"
    "\<forall>r \<in> set (map fst recorded). plain_place (nodes d) root r"
    "restore_conflicts h d (path_text root) recorded = Inr []"
  shows "restorable root (nodes d) (map fst recorded)"
proof -
  have "is_vacant_or_file (nodes d) (place root r)" if mem: "r \<in> set (map fst recorded)" for r
  proof -
    from mem obtain s where "(r, s) \<in> set recorded" by auto
    have "plain_place (nodes d) root r" using assms(6) mem by blast
    from restore_conflicts_none [OF assms(7) \<open>(r, s) \<in> set recorded\<close>]
      snapshot_file_place [OF assms(1,2) this assms(3)]
    have "snapshot_at h d (place root r) = Inr s" by simp
    then show ?thesis by (rule snapshot_at_Inr(2))
  qed
  with assms sorted_keys_distinct show ?thesis by (simp add: restorable_def)
qed

end
