(* ===== verification/Git_Properties.thy ===== *)
theory Git_Properties
  imports Git_Checkpoint_Laws
begin

section \<open>What a checkpoint guarantees\<close>

text \<open>
  The properties of \<open>harness-git\<close>: undoing a run brings every recorded file back to what it was
  when the run started and leaves all others alone, a file somebody else changed since stops
  the restore before it begins, and the cases in which the store does less than that.
\<close>

subsection \<open>The baseline\<close>

lemma take_baseline_map:
  assumes "take_baseline h d root storage names acc = Inr b" "sorted_wrt (<) (map fst acc)"
  shows "map_of b r =
    (if r \<in> set names \<and> \<not> skipped_file root storage r
     then (case snapshot_file h d (path_join root r) of Inl _ \<Rightarrow> None | Inr s \<Rightarrow> Some s)
     else map_of acc r)"
  using assms
proof (induction names arbitrary: acc)
  case (Cons n names)
  show ?case
  proof (cases "skipped_file root storage n")
    case True
    with Cons.IH [of acc] Cons.prems show ?thesis by auto
  next
    case False
    with Cons.prems(1) obtain snap where snap: "snapshot_file h d (path_join root n) = Inr snap"
        "take_baseline h d root storage names (tree_map_insert n snap acc) = Inr b"
      by auto
    from Cons.IH [OF snap(2) sorted_tree_map_insert [OF Cons.prems(2)]] False snap(1) show ?thesis
      by (auto simp: map_of_tree_map_insert [OF Cons.prems(2)])
  qed
qed simp

lemma take_baseline_fails:
  assumes "r \<in> set names" "\<not> skipped_file root storage r" "snapshot_file h d (path_join root r) = Inl err"
  shows "\<exists>err'. take_baseline h d root storage names acc = Inl err'"
  using assms(1)
proof (induction names arbitrary: acc)
  case (Cons n names)
  show ?case
  proof (cases "n = r")
    case True
    with assms(2,3) show ?thesis by simp
  next
    case False
    with Cons have "\<exists>err'. take_baseline h d root storage names acc' = Inl err'" for acc' by auto
    then show ?thesis by (cases "snapshot_file h d (path_join root n)") auto
  qed
qed simp

lemma create_checkpoint_Inr:
  assumes "create_checkpoint h st env d sid wd = (Inr c, d', told, env')"
  obtains names storage where
    "list_worktree_files (git h) (nodes d) (cp_directory c) = Inr names"
    "storage = (case Host_Files.canonicalize (os h) (nodes d) (storage_root st) of
        Inr p \<Rightarrow> p | Inl _ \<Rightarrow> storage_root st)"
    "take_baseline h d (cp_directory c) storage names [] = Inr (cp_baseline c)"
    "cp_recorded c = []" "cp_session c = sid"
  using assms that
  by (auto simp: create_checkpoint_def Let_def split: sum.splits prod.splits)

text \<open>The files the baseline of a checkpoint made on this disk covers.\<close>

definition covered :: "git_host \<Rightarrow> 'h checkpoint_store \<Rightarrow> mode_disk \<Rightarrow> path \<Rightarrow> string \<Rightarrow> bool" where
  "covered h st d root r \<longleftrightarrow>
     (case list_worktree_files (git h) (nodes d) root of
        Inl _ \<Rightarrow> False
      | Inr names \<Rightarrow> r \<in> set names \<and> \<not> skipped_file root
          (case Host_Files.canonicalize (os h) (nodes d) (storage_root st) of
             Inr p \<Rightarrow> p | Inl _ \<Rightarrow> storage_root st) r)"

lemma created_baseline:
  assumes "create_checkpoint h st env d sid wd = (Inr c, d', told, env')"
  shows "map_of (cp_baseline c) r =
    (if covered h st d (cp_directory c) r
     then (case snapshot_file h d (path_join (cp_directory c) r) of Inl _ \<Rightarrow> None | Inr s \<Rightarrow> Some s)
     else None)"
proof -
  obtain names storage where c: "list_worktree_files (git h) (nodes d) (cp_directory c) = Inr names"
    "storage = (case Host_Files.canonicalize (os h) (nodes d) (storage_root st) of
        Inr p \<Rightarrow> p | Inl _ \<Rightarrow> storage_root st)"
    "take_baseline h d (cp_directory c) storage names [] = Inr (cp_baseline c)"
    using create_checkpoint_Inr [OF assms] by metis
  from take_baseline_map [OF c(3), of r] show ?thesis by (simp add: covered_def c(1,2))
qed

text \<open>A baseline that was taken somewhere is made of proper snapshots.\<close>

lemma snapshot_file_ok: "snapshot_file h d p = Inr s \<Longrightarrow> no_faults (os h) \<Longrightarrow>
    tree_ok (nodes d) \<Longrightarrow> inode_at (nodes d) root = Some Directory \<Longrightarrow> plain_place (nodes d) root r \<Longrightarrow>
    p = path_join (path_text root) r \<Longrightarrow> snap_ok s"
  using snapshot_file_place snapshot_at_Inr(1) by metis

subsection \<open>Undoing a run\<close>

text \<open>The disk a checkpoint can be restored on, and the disk it was made on.\<close>

definition plain_disk :: "component list \<Rightarrow> mode_disk \<Rightarrow> string list \<Rightarrow> bool" where
  "plain_disk root d rs \<longleftrightarrow>
     tree_ok (nodes d) \<and> inode_at (nodes d) root = Some Directory \<and> (\<forall>r \<in> set rs. plain_place (nodes d) root r)"

lemma plain_diskD:
  assumes "plain_disk root d rs"
  shows "tree_ok (nodes d)" "inode_at (nodes d) root = Some Directory"
    "r \<in> set rs \<Longrightarrow> plain_place (nodes d) root r"
  using assms by (simp_all add: plain_disk_def)

lemma plain_after:
  assumes "restorable root (nodes d) rs" "all_brought_back root baseline rs d d'"
  shows "plain_disk root d' rs"
proof -
  have frame: "inode_at (nodes d') cs = inode_at (nodes d) cs \<or>
      inode_at (nodes d) cs = None \<and> inode_at (nodes d') cs = Some Directory"
    if "cs \<notin> place root ` set rs" for cs
    using assms(2) that by (auto simp: all_brought_back_def)
  have old: "unnested rs" "\<And>r. r \<in> set rs \<Longrightarrow> plain_place (nodes d) root r" "inode_at (nodes d) root = Some Directory"
    using assms(1) by (auto simp: restorable_def)
  have "root \<notin> place root ` set rs"
    using clean_relative_ne old(2) by (force simp: place_def plain_place_def)
  from frame [OF this] old(3) have top: "inode_at (nodes d') root = Some Directory" by auto
  have "plain_place (nodes d') root r" if r: "r \<in> set rs" for r
  proof -
    from old(2) [OF r] have clean: "clean_relative r" and plain: "plain (nodes d) root (butlast (path_pieces r))"
      by (simp_all add: plain_place_def)
    have "plain (nodes d') root (butlast (path_pieces r))"
      unfolding plain_def
    proof (intro allI impI)
      fix k
      assume k: "k \<le> length (butlast (path_pieces r))"
      let ?cs = "root @ map Normal (take k (butlast (path_pieces r)))"
      note below = plain_dir_below [OF plain k clean_relative_ne [OF clean]]
      have "?cs \<notin> place root ` set rs"
        using below old(1) r by (auto simp: strict_prefix_place unnested_def)
      from frame [OF this] plain k show "inode_at (nodes d') ?cs \<in> {None, Some Directory}"
        unfolding plain_def by auto
    qed
    with clean show ?thesis by (simp add: plain_place_def)
  qed
  with top assms(2) show ?thesis by (simp add: plain_disk_def all_brought_back_def)
qed

lemma undo_restores:
  assumes "no_faults (os h)" "load_checkpoint h st d i = Inr c"
    "cp_directory c = path_text root" "plain_disk root d (map fst (cp_recorded c))"
    "sorted_wrt (<) (map fst (cp_recorded c))" "unnested (map fst (cp_recorded c))"
    "\<forall>(r, s) \<in> set (cp_recorded c). snapshot_file h d (path_join (cp_directory c) r) = Inr s"
    "\<forall>r \<in> set (map fst (cp_recorded c)). snap_ok (baseline_of (cp_baseline c) r)"
  shows "\<exists>d' told. undo_checkpoint h st env d i =
      (Inr \<lparr>report_checkpoint = cp_id c,
            report_restored = map (path_join (cp_directory c)) (map fst (cp_recorded c)),
            report_conflicts = []\<rparr>, d', told) \<and>
    all_brought_back root (cp_baseline c) (map fst (cp_recorded c)) d d' \<and>
    plain_disk root d' (map fst (cp_recorded c))"
proof -
  have none: "restore_conflicts h d (cp_directory c) recorded = Inr []"
    if "\<forall>(r, s) \<in> set recorded. snapshot_file h d (path_join (cp_directory c) r) = Inr s" for recorded
    using that by (induction recorded) auto
  note none = none [OF assms(7)]
  have can: "restorable root (nodes d) (map fst (cp_recorded c))"
    using restorableI [OF _ _ assms(1,5,6), of d root] none assms(3,4) by (simp add: plain_disk_def)
  from restore_files_all [OF this assms(1,8)] obtain d' where
    d': "restore_files h (cp_baseline c) (path_text root) d (map fst (cp_recorded c)) =
        (Inr (map (path_join (path_text root)) (map fst (cp_recorded c))), d')"
      "all_brought_back root (cp_baseline c) (map fst (cp_recorded c)) d d'" by blast
  with plain_after [OF can] assms(2,3) none show ?thesis
    by (auto simp: undo_checkpoint_def restore_checkpoint_def Let_def simp del: map_map)
qed

lemma covered_snapshot:
  assumes "create_checkpoint h st env d sid wd = (Inr c, d', told, env')" "covered h st d (cp_directory c) r"
  obtains s where "snapshot_file h d (path_join (cp_directory c) r) = Inr s" "map_of (cp_baseline c) r = Some s"
proof (cases "snapshot_file h d (path_join (cp_directory c) r)")
  case (Inl err)
  obtain names storage where c: "list_worktree_files (git h) (nodes d) (cp_directory c) = Inr names"
    "storage = (case Host_Files.canonicalize (os h) (nodes d) (storage_root st) of
        Inr p \<Rightarrow> p | Inl _ \<Rightarrow> storage_root st)"
    "take_baseline h d (cp_directory c) storage names [] = Inr (cp_baseline c)"
    using create_checkpoint_Inr [OF assms(1)] by metis
  with assms(2) have "r \<in> set names" "\<not> skipped_file (cp_directory c) storage r" by (simp_all add: covered_def)
  from take_baseline_fails [OF this Inl, of "[]"] c(3) show ?thesis by auto
next
  case (Inr s)
  with created_baseline [OF assms(1), of r] assms(2) show ?thesis by (intro that) simp_all
qed

text \<open>The baseline of a path: what was there when the checkpoint was made, if git lists it.\<close>

lemma created_baseline_of:
  assumes "create_checkpoint h st env d sid wd = (Inr c, d', told, env')"
  shows "covered h st d (cp_directory c) r \<Longrightarrow>
      snapshot_file h d (path_join (cp_directory c) r) = Inr (baseline_of (cp_baseline c) r)"
    "\<not> covered h st d (cp_directory c) r \<Longrightarrow> baseline_of (cp_baseline c) r = absent_snapshot"
proof -
  show "snapshot_file h d (path_join (cp_directory c) r) = Inr (baseline_of (cp_baseline c) r)"
    if covered: "covered h st d (cp_directory c) r"
  proof -
    obtain s where "snapshot_file h d (path_join (cp_directory c) r) = Inr s" "map_of (cp_baseline c) r = Some s"
      by (rule covered_snapshot [OF assms covered])
    then show ?thesis by (simp add: baseline_of_def)
  qed
  show "baseline_of (cp_baseline c) r = absent_snapshot" if "\<not> covered h st d (cp_directory c) r"
    using created_baseline [OF assms, of r] that by (simp add: baseline_of_def)
qed

lemma created_baseline_ok:
  assumes "create_checkpoint h st env d sid wd = (Inr c, d', told, env')" "no_faults (os h)"
    "cp_directory c = path_text root" "plain_disk root d rs" "r \<in> set rs"
  shows "snap_ok (baseline_of (cp_baseline c) r)"
proof (cases "covered h st d (cp_directory c) r")
  case True
  from created_baseline_of(1) [OF assms(1) this] show ?thesis
    by (rule snapshot_file_ok [OF _ assms(2) plain_diskD(1,2) [OF assms(4)] plain_diskD(3) [OF assms(4,5)]])
      (simp add: assms(3))
next
  case False
  then show ?thesis using created_baseline_of(2) [OF assms(1)] by (simp add: snap_ok_def absent_snapshot_def)
qed

text \<open>The disk a run leaves: the checkpoint is there, and every recorded file is as recorded.\<close>

definition undoable ::
  "git_host \<Rightarrow> 'h checkpoint_store \<Rightarrow> component list \<Rightarrow> mode_disk \<Rightarrow> checkpoint \<Rightarrow> bool" where
  "undoable h st root d c \<longleftrightarrow>
     no_faults (os h) \<and> load_checkpoint h st d (cp_id c) = Inr c \<and> cp_directory c = path_text root \<and>
     sorted_wrt (<) (map fst (cp_recorded c)) \<and> unnested (map fst (cp_recorded c)) \<and>
     plain_disk root d (map fst (cp_recorded c)) \<and>
     (\<forall>(r, s) \<in> set (cp_recorded c). snapshot_file h d (path_join (cp_directory c) r) = Inr s)"

lemma undoableD:
  assumes "undoable h st root d c"
  shows "no_faults (os h)" "load_checkpoint h st d (cp_id c) = Inr c" "cp_directory c = path_text root"
    "sorted_wrt (<) (map fst (cp_recorded c))" "unnested (map fst (cp_recorded c))"
    "plain_disk root d (map fst (cp_recorded c))"
    "\<forall>(r, s) \<in> set (cp_recorded c). snapshot_file h d (path_join (cp_directory c) r) = Inr s"
  using assms unfolding undoable_def by blast+

text \<open>C9: undoing a run brings every file the harness recorded back to the contents and executable bit
  it had when the checkpoint was made (or removes it, if it was not there), provided git
  listed it then; no other file of the disk changes.\<close>

theorem undo_returns_to_the_start:
  assumes "create_checkpoint h st env0 d0 sid wd = (Inr c0, d1, told0, env1)"
    "undoable h st root d c" "cp_baseline c = cp_baseline c0" "cp_directory c = cp_directory c0"
    "plain_disk root d0 (map fst (cp_recorded c))"
    "\<forall>r \<in> set (map fst (cp_recorded c)). covered h st d0 (cp_directory c) r \<or>
       snapshot_file h d0 (path_join (cp_directory c) r) = Inr absent_snapshot"
  shows "\<exists>report d' told. undo_checkpoint h st env d (cp_id c) = (Inr report, d', told) \<and>
    (\<forall>r \<in> set (map fst (cp_recorded c)).
       snapshot_file h d' (path_join (cp_directory c) r) = snapshot_file h d0 (path_join (cp_directory c) r)) \<and>
    (\<forall>cs. cs \<notin> place root ` set (map fst (cp_recorded c)) \<longrightarrow> modes d' cs = modes d cs \<and>
       (inode_at (nodes d') cs = inode_at (nodes d) cs \<or>
        inode_at (nodes d) cs = None \<and> inode_at (nodes d') cs = Some Directory))"
proof -
  let ?rs = "map fst (cp_recorded c)"
  note u = undoableD [OF assms(2)]
  have dir: "cp_directory c0 = path_text root" using assms(4) u(3) by simp
  have ok: "\<forall>r \<in> set ?rs. snap_ok (baseline_of (cp_baseline c) r)"
    using created_baseline_ok [OF assms(1) u(1) dir assms(5)] assms(3) by simp
  have start: "snapshot_file h d0 (path_join (cp_directory c) r) = Inr (baseline_of (cp_baseline c) r)"
    if "r \<in> set ?rs" for r
    using assms(3,4,6) that created_baseline_of [OF assms(1), of r] by (metis dir)
  from undo_restores [OF u(1,2,3,6,4,5,7) ok, of env] obtain d' told where d':
    "undo_checkpoint h st env d (cp_id c) = (Inr \<lparr>report_checkpoint = cp_id c,
        report_restored = map (path_join (cp_directory c)) ?rs, report_conflicts = []\<rparr>, d', told)"
    "all_brought_back root (cp_baseline c) ?rs d d'" "plain_disk root d' ?rs"
    by blast
  have "snapshot_file h d' (path_join (cp_directory c) r) = Inr (baseline_of (cp_baseline c) r)"
    if "r \<in> set ?rs" for r
  proof -
    have "brought_back (place root r) (baseline_of (cp_baseline c) r) d' d'"
      using d'(2) that by (auto simp: all_brought_back_def brought_back_def Let_def)
    with ok that have "snapshot_at h d' (place root r) = Inr (baseline_of (cp_baseline c) r)"
      by (intro snapshot_brought_back) auto
    with snapshot_file_place [OF plain_diskD(1,2) [OF d'(3)] plain_diskD(3) [OF d'(3) that] u(1)]
    show ?thesis by (simp only: u(3))
  qed
  moreover have "\<forall>cs. cs \<notin> place root ` set ?rs \<longrightarrow> modes d' cs = modes d cs \<and>
       (inode_at (nodes d') cs = inode_at (nodes d) cs \<or>
        inode_at (nodes d) cs = None \<and> inode_at (nodes d') cs = Some Directory)"
    using d'(2) unfolding all_brought_back_def by blast
  ultimately show ?thesis using start d'(1) by metis
qed

text \<open>a recorded file that is no longer what the harness left (somebody edited it, removed it, or it cannot
  be read) stops the restore before anything is written.\<close>

theorem changed_file_stops_restore:
  assumes "(r, s) \<in> set (cp_recorded c)" "snapshot_file h d (path_join (cp_directory c) r) \<noteq> Inr s"
  shows "\<exists>err told. restore_checkpoint h st env d c = (Inl err, d, told)"
proof -
  have "restore_conflicts h d (cp_directory c) recorded \<noteq> Inr []" if "(r, s) \<in> set recorded" for recorded
    using restore_conflicts_none [OF _ that, of h d "cp_directory c"] assms(2) by blast
  with assms(1) show ?thesis
    by (cases "restore_conflicts h d (cp_directory c) (cp_recorded c)") (auto simp: restore_checkpoint_def Let_def)
qed

text \<open>a file git does not list (it is ignored) is not in the baseline, so undoing a run that edited it
  deletes it, although it was there before the run.\<close>

theorem unlisted_file_is_deleted:
  assumes "create_checkpoint h st env0 d0 sid wd = (Inr c0, d1, told0, env1)"
    "undoable h st root d c" "cp_baseline c = cp_baseline c0" "cp_directory c = cp_directory c0"
    "plain_disk root d0 (map fst (cp_recorded c))"
    "r \<in> set (map fst (cp_recorded c))" "\<not> covered h st d0 (cp_directory c) r"
  shows "\<exists>report d' told. undo_checkpoint h st env d (cp_id c) = (Inr report, d', told) \<and>
    inode_at (nodes d') (place root r) = None"
proof -
  let ?rs = "map fst (cp_recorded c)"
  note u = undoableD [OF assms(2)]
  have dir: "cp_directory c0 = path_text root" using assms(4) u(3) by simp
  have ok: "\<forall>r \<in> set ?rs. snap_ok (baseline_of (cp_baseline c) r)"
    using created_baseline_ok [OF assms(1) u(1) dir assms(5)] assms(3) by simp
  have "baseline_of (cp_baseline c) r = absent_snapshot"
    using created_baseline_of(2) [OF assms(1)] assms(3,4,7) by simp
  with undo_restores [OF u(1,2,3,6,4,5,7) ok, of env] assms(6) show ?thesis
    by (fastforce simp: all_brought_back_def absent_snapshot_def Let_def)
qed

text \<open>one file that cannot be a snapshot (a link, a directory git lists, a file above 10 MB) makes
  every checkpoint of the work tree fail.\<close>

theorem one_file_blocks_checkpoint:
  assumes "client_open (os h) (git h) (nodes d) wd = Inr root" "covered h st d root r"
    "snapshot_file h d (path_join root r) = Inl err"
  shows "\<exists>err'. create_checkpoint h st env d sid wd = (Inl err', d, [], env)"
proof -
  obtain names where names: "list_worktree_files (git h) (nodes d) root = Inr names"
    using assms(2) by (auto simp: covered_def split: sum.splits)
  let ?storage = "case Host_Files.canonicalize (os h) (nodes d) (storage_root st) of
      Inr p \<Rightarrow> p | Inl _ \<Rightarrow> storage_root st"
  have "r \<in> set names" "\<not> skipped_file root ?storage r" using assms(2) names by (simp_all add: covered_def)
  from take_baseline_fails [OF this assms(3), of "[]"] names assms(1) show ?thesis
    by (auto simp: create_checkpoint_def Let_def)
qed

subsection \<open>Recording through the store\<close>

text \<open>Rewriting a file changes where no path leads.\<close>

lemma inode_at_put_file:
  assumes "inode_at t cs = Some (RegularFile a)"
  shows "inode_at (put_inode cs (RegularFile b) t) p = (if p = cs then Some (RegularFile b) else inode_at t p)"
  using assms by (auto simp: inode_at_put)

lemma walk_put_file:
  assumes "inode_at t cs = Some (RegularFile a)"
  shows "walk (put_inode cs (RegularFile b) t) k cur ps = walk t k cur ps"
  using assms
proof (induction t k cur ps rule: walk.induct)
  case (2 t k cur p ps)
  note at = inode_at_put_file [OF "2.prems"]
  show ?case
  proof (cases "inode_at t cur = Some Directory \<and> \<not> (p = [] \<or> p = ''.'') \<and> p \<noteq> ''..''")
    case True
    have cur: "cur \<noteq> cs" using True "2.prems" by auto
    show ?thesis
    proof (cases "inode_at t (cur @ [Normal p])")
      case None
      with True cur "2.prems" show ?thesis by (auto simp: at)
    next
      case (Some x)
      with True cur "2.prems" "2.IH"(3-) show ?thesis
        by (cases x; cases "cur @ [Normal p] = cs") (simp_all add: at)
    qed
  next
    case False
    then consider (no_dir) "inode_at t cur \<noteq> Some Directory"
      | (dot) "inode_at t cur = Some Directory" "p = [] \<or> p = ''.''"
      | (up) "inode_at t cur = Some Directory" "\<not> (p = [] \<or> p = ''.'')" "p = ''..''" by blast
    then show ?thesis
    proof cases
      case no_dir
      then show ?thesis by (simp add: at)
    next
      case dot
      then have "cur \<noteq> cs" using "2.prems" by auto
      with dot "2.IH"(1) "2.prems" show ?thesis by (simp add: at)
    next
      case up
      then have "cur \<noteq> cs" using "2.prems" by auto
      with up "2.IH"(2) "2.prems" show ?thesis by (simp add: at)
    qed
  qed
qed simp

lemma resolve_put_file:
  "inode_at t cs = Some (RegularFile a) \<Longrightarrow> resolve m (put_inode cs (RegularFile b) t) p = resolve m t p"
  by (simp add: resolve_def walk_put_file)

lemma load_after_persist:
  assumes "load_checkpoint h st d (cp_id c) = Inr c0" "persist_checkpoint h st d c = (Inr (), d')"
    "\<And>json. encode_checkpoint h c = Inr json \<Longrightarrow> valid_utf8 json \<and> decode_checkpoint h json = Inr c"
  shows "load_checkpoint h st d' (cp_id c) = Inr c"
proof -
  let ?p = "checkpoint_path st (cp_id c)"
  from assms(1) obtain cs old where cs: "resolve (os h) (nodes d) ?p = Inr cs"
      "inode_at (nodes d) cs = Some (RegularFile old)" "io_fault (os h) ReadFile cs = None"
    by (auto simp: load_checkpoint_def Let_def host_is_file_def inode_of_def git_read_to_string_def host_read_def
        split: if_splits sum.splits option.splits inode.splits)
  from assms(2) obtain json where json: "encode_checkpoint h c = Inr json"
      "host_write h d ?p json = (Inr (), d')"
    by (cases "encode_checkpoint h c"; cases "fst (host_write h d ?p (projr (encode_checkpoint h c)))")
      (auto simp: persist_checkpoint_def map_prod_def prod_eq_iff split: prod.splits)
  then have d': "nodes d' = put_inode cs (RegularFile json) (nodes d)"
    using cs by (auto simp: host_write_def open_place_def store_file_def split: option.splits)
  have "cs \<noteq> [RootDir]" using cs(2) by auto
  then have "inode_at (nodes d') cs = Some (RegularFile json)" by (simp add: d' inode_at_put)
  moreover have "resolve (os h) (nodes d') ?p = Inr cs"
    using resolve_put_file [OF cs(2)] cs(1) by (simp add: d')
  ultimately show ?thesis
    using cs(3) assms(3) [OF json(1)]
    by (simp add: load_checkpoint_def Let_def host_is_file_def inode_of_def git_read_to_string_def host_read_def)
qed

text \<open>after a change is recorded, the checkpoint that loads is the old one with the present state
  of that one file put in (an earlier record of it is replaced); its paths stay in order.\<close>

theorem recorded_change_is_kept:
  assumes "load_checkpoint h st d i = Inr c" "cp_id c = i" "sorted_wrt (<) (map fst (cp_recorded c))"
    "record_harness_change h st d i p = (Inr (), d')"
    "\<And>c json. encode_checkpoint h c = Inr json \<Longrightarrow> valid_utf8 json \<and> decode_checkpoint h json = Inr c"
  shows "\<exists>r snap c'. checkpoint_relative_path (os h) (nodes d) (cp_directory c) p = Inr r \<and>
    snapshot_file h d (path_join (cp_directory c) r) = Inr snap \<and>
    load_checkpoint h st d' i = Inr c' \<and> map_of (cp_recorded c') = (map_of (cp_recorded c))(r \<mapsto> snap) \<and>
    sorted_wrt (<) (map fst (cp_recorded c')) \<and> cp_baseline c' = cp_baseline c \<and>
    cp_directory c' = cp_directory c \<and> cp_id c' = i"
proof -
  from assms(1,4) obtain r snap where r: "checkpoint_relative_path (os h) (nodes d) (cp_directory c) p = Inr r"
      "snapshot_file h d (path_join (cp_directory c) r) = Inr snap"
      "persist_checkpoint h st d (record_change c r snap) = (Inr (), d')"
    by (auto simp: record_harness_change_def split: sum.splits)
  let ?c = "record_change c r snap"
  have ids: "cp_id ?c = i" "cp_baseline ?c = cp_baseline c" "cp_directory ?c = cp_directory c"
    using assms(2) by (simp_all add: record_change_def)
  have "load_checkpoint h st d (cp_id ?c) = Inr c" using assms(1) ids(1) by simp
  from load_after_persist [OF this r(3) assms(5)] ids(1) have "load_checkpoint h st d' i = Inr ?c" by simp
  moreover have "map_of (cp_recorded ?c) = (map_of (cp_recorded c))(r \<mapsto> snap)"
    using map_of_tree_map_insert [OF assms(3)] by (auto simp: record_change_def)
  moreover have "sorted_wrt (<) (map fst (cp_recorded ?c))"
    using sorted_tree_map_insert [OF assms(3)] by (simp add: record_change_def)
  ultimately show ?thesis using r(1,2) ids by blast
qed

subsection \<open>Reading git's answers\<close>

definition porcelain_line :: "char \<times> char \<times> string \<Rightarrow> string" where
  "porcelain_line e = (case e of (x, y, p) \<Rightarrow> [x, y, CHR '' ''] @ p)"

text \<open>A path git prints as it is: no line break, no arrow, no character cut in two.\<close>

definition plain_entry :: "char \<times> char \<times> string \<Rightarrow> bool" where
  "plain_entry e \<longleftrightarrow> (case e of (x, y, p) \<Rightarrow>
     byte_of x < 128 \<and> byte_of y < 128 \<and> x \<noteq> newline \<and> y \<noteq> newline \<and> newline \<notin> set p \<and> p \<noteq> [] \<and>
     last p \<noteq> carriage_return \<and> \<not> is_continuation (hd p) \<and> \<not> str_contains p '' -> '')"

lemma after_last_none: "\<not> str_contains s sep \<Longrightarrow> after_last sep s = s"
proof -
  assume none: "\<not> str_contains s sep"
  have "\<not> prefix sep (drop n s)" for n
  proof
    assume "prefix sep (drop n s)"
    then obtain v where "drop n s = sep @ v" by (auto simp: prefix_def)
    then have "s = take n s @ sep @ v" by (metis append_take_drop_id)
    with none show False unfolding str_contains_iff by blast
  qed
  then have "find (\<lambda>n. prefix sep (drop n s)) (rev [0 ..< length s]) = None" by (simp add: find_None_iff)
  then show ?thesis by (simp add: after_last_def)
qed

lemma ascii_no_continuation: "byte_of c < 128 \<Longrightarrow> \<not> is_continuation c"
  by (simp add: is_continuation_def)

lemma status_line_plain:
  assumes "plain_entry (x, y, p)"
  shows "status_line (porcelain_line (x, y, p)) = ([x], [y], p)"
proof -
  have space: "\<not> is_continuation (CHR '' '')" by code_simp
  have "\<not> is_continuation x" "\<not> is_continuation y"
    using assms ascii_no_continuation by (auto simp: plain_entry_def)
  then obtain cs where "utf8_chars (x # y # CHR '' '' # p) = [x] # [y] # cs" using space by simp
  moreover have "is_char_boundary (x # y # CHR '' '' # p) 3"
    using assms by (cases p) (auto simp: is_char_boundary_def plain_entry_def numeral_3_eq_3)
  moreover have "after_last '' -> '' p = p"
    using assms by (intro after_last_none) (simp add: plain_entry_def)
  ultimately show ?thesis
    by (simp add: status_line_def porcelain_line_def Let_def numeral_3_eq_3 del: utf8_chars.simps)
qed

lemma status_lines_plain:
  "\<forall>e \<in> set es. plain_entry e \<Longrightarrow>
     status_lines (concat (map (\<lambda>e. porcelain_line e @ [newline]) es)) = map (\<lambda>(x, y, p). ([x], [y], p)) es"
proof (induction es)
  case Nil
  then show ?case by (simp add: status_lines_def)
next
  case (Cons e es)
  obtain x y p where e: "e = (x, y, p)" by (cases e)
  have plain: "plain_entry (x, y, p)" using Cons.prems e by simp
  have "newline \<notin> set (porcelain_line e)" "strip_cr (porcelain_line e) = porcelain_line e"
      "\<not> length (porcelain_line e) < 3"
    using plain by (auto simp: porcelain_line_def e strip_cr_def plain_entry_def)
  with Cons status_line_plain [OF plain] show ?case
    by (simp add: status_lines_def str_lines_line e)
qed

text \<open>the status of a work tree lists exactly the paths git printed, sorted and once each, under the
  headings their two status characters say; it is clean if and only if git printed nothing.\<close>

theorem status_lists_every_change:
  assumes "run_git g t root [''status'', ''--porcelain=v1'', ''--untracked-files=all''] =
      Inr (concat (map (\<lambda>e. porcelain_line e @ [newline]) es))"
    "\<forall>e \<in> set es. plain_entry e" "client_status g t root = Inr s"
  shows "changed_files s = ordered_set (map (\<lambda>(_, _, p). p) es) \<and>
    set (untracked_files s) = {p. (CHR ''?'', CHR ''?'', p) \<in> set es} \<and>
    set (staged_files s) = {p. \<exists>x y. (x, y, p) \<in> set es \<and> (x, y) \<noteq> (CHR ''?'', CHR ''?'') \<and> x \<noteq> CHR '' ''} \<and>
    set (unstaged_files s) = {p. \<exists>x y. (x, y, p) \<in> set es \<and> (x, y) \<noteq> (CHR ''?'', CHR ''?'') \<and> y \<noteq> CHR '' ''} \<and>
    (is_clean s \<longleftrightarrow> es = [])"
proof -
  from assms(1,3) have s: "changed_files s = ordered_set (map (\<lambda>l. snd (snd l)) (map (\<lambda>(x, y, p). ([x], [y], p)) es))"
    "untracked_files s = ordered_set (map (\<lambda>l. snd (snd l)) (filter is_untracked (map (\<lambda>(x, y, p). ([x], [y], p)) es)))"
    "staged_files s = ordered_set (map (\<lambda>l. snd (snd l))
        (filter (\<lambda>l. \<not> is_untracked l \<and> fst l \<noteq> '' '') (map (\<lambda>(x, y, p). ([x], [y], p)) es)))"
    "unstaged_files s = ordered_set (map (\<lambda>l. snd (snd l))
        (filter (\<lambda>l. \<not> is_untracked l \<and> fst (snd l) \<noteq> '' '') (map (\<lambda>(x, y, p). ([x], [y], p)) es)))"
    "is_clean s = (changed_files s = [])"
    unfolding client_status_def Let_def by (auto simp: status_lines_plain [OF assms(2)])
  have paths: "map (\<lambda>l. snd (snd l)) (map (\<lambda>(x, y, p). ([x], [y], p)) es) = map (\<lambda>(_, _, p). p) es"
    by (simp add: comp_def case_prod_beta)
  have "ordered_set xs = [] \<longleftrightarrow> xs = []" for xs
    using set_ordered_set [of xs] by (metis set_empty)
  moreover have "set (map (\<lambda>l. snd (snd l)) (filter P (map (\<lambda>(x, y, p). ([x], [y], p)) es))) =
      {p. \<exists>x y. (x, y, p) \<in> set es \<and> P ([x], [y], p)}" for P
    by force
  ultimately show ?thesis
    unfolding s paths set_ordered_set by (simp add: is_untracked_def)
qed

subsection \<open>Examples\<close>

text \<open>A work tree \<open>/w\<close> with the tracked file \<open>a\<close> and the ignored file \<open>b\<close>; checkpoints go to \<open>/s\<close>.\<close>

definition demo_tree0 :: "string \<Rightarrow> string \<Rightarrow> string \<Rightarrow> tree" where
  "demo_tree0 a b json =
     [([RootDir, Normal ''w''], Directory), ([RootDir, Normal ''s''], Directory),
      ([RootDir, Normal ''w'', Normal ''a''], RegularFile a),
      ([RootDir, Normal ''w'', Normal ''b''], RegularFile b),
      ([RootDir, Normal ''s'', Normal ''c.json''], RegularFile json)]"

definition demo_disk :: "string \<Rightarrow> string \<Rightarrow> string \<Rightarrow> mode_disk" where
  "demo_disk a b json = \<lparr>nodes = demo_tree0 a b json, modes = (\<lambda>_. 0x180)\<rparr>"

definition demo_git :: git_program where
  "demo_git t dir args =
     (if args = [''rev-parse'', ''--show-toplevel''] then Finished True ''/w'' []
      else if hd args = ''ls-files'' then Finished True [CHR ''a'', CHR 0x00] []
      else if hd args = ''status'' then Finished True ('' M a'' @ [newline] @ ''?? z'' @ [newline]) []
      else Finished False [] [])"

definition demo_snapshot :: "string \<Rightarrow> file_snapshot" where
  "demo_snapshot s = \<lparr>snap_exists = True, snap_content = Some s, snap_executable = False\<rparr>"

definition demo_checkpoint :: "(string \<times> file_snapshot) list \<Rightarrow> checkpoint" where
  "demo_checkpoint recorded =
     \<lparr>cp_id = ''c'', cp_session = ''run'', cp_directory = ''/w'', cp_created_at = ''0'',
      cp_reference = ''unborn'', cp_baseline = [(''a'', demo_snapshot ''old'')], cp_recorded = recorded\<rparr>"

text \<open>A decoder that reads every checkpoint file as the one given.\<close>

definition git_demo_host :: "checkpoint \<Rightarrow> git_host" where
  "git_demo_host c =
     \<lparr>os = \<lparr>cwd = [RootDir], io_fault = (\<lambda>_ _. None), meanwhile = (\<lambda>_ t. t)\<rparr>, git = demo_git,
      torn = (\<lambda>_. 0), new_file_mode = 0x1A4, encode_checkpoint = (\<lambda>_. Inr ''{}''),
      decode_checkpoint = (\<lambda>_. Inr c)\<rparr>"

definition demo_store :: "nat checkpoint_store" where
  "demo_store = \<lparr>storage_root = ''/s'', store_bus = None\<rparr>"

definition demo_clock :: event_env where
  "demo_clock = \<lparr>env_pid = 7, env_clock = (\<lambda>_. 0), env_ticks = 0, env_counter = 0\<rparr>"

abbreviation demo_top :: "component list" where "demo_top \<equiv> [RootDir, Normal ''w'']"

lemmas demo_git_defs = demo_tree0_def demo_disk_def demo_git_def demo_snapshot_def demo_checkpoint_def
  git_demo_host_def demo_store_def demo_clock_def

lemma demo_tree0_ok: "tree_ok (demo_tree0 a b json)"
  by (auto simp: tree_ok_def demo_tree0_def inode_at_def proper_name_def split: if_splits)

lemma demo_plain: "plain_disk demo_top (demo_disk x y json) [''a'', ''b'']"
proof -
  have "path_pieces ''a'' = [''a'']" "path_pieces ''b'' = [''b'']" by code_simp+
  then show ?thesis
    using demo_tree0_ok
    by (auto simp: plain_disk_def demo_disk_def plain_place_def clean_relative_def proper_name_def plain_def
        inode_at_def demo_tree0_def)
qed

definition demo_recorded :: "(string \<times> file_snapshot) list" where
  "demo_recorded = [(''a'', demo_snapshot ''new''), (''b'', demo_snapshot ''new'')]"

definition demo_created :: checkpoint where
  "demo_created =
     \<lparr>cp_id = ''checkpoint-7-0'', cp_session = ''run'', cp_directory = ''/w'', cp_created_at = ''0'',
      cp_reference = ''unborn'', cp_baseline = [(''a'', demo_snapshot ''old'')], cp_recorded = []\<rparr>"

lemma demo_create:
  "fst (create_checkpoint (git_demo_host (demo_checkpoint demo_recorded)) demo_store demo_clock
      (demo_disk ''old'' ''old'' ''{}'') ''run'' ''/w'') = Inr demo_created"
  by code_simp

lemma demo_undoable:
  "undoable (git_demo_host (demo_checkpoint demo_recorded)) demo_store demo_top (demo_disk ''new'' ''new'' ''{}'')
     (demo_checkpoint demo_recorded)"
proof -
  let ?h = "git_demo_host (demo_checkpoint demo_recorded)" and ?d = "demo_disk ''new'' ''new'' ''{}''"
  have keys: "map fst demo_recorded = [''a'', ''b'']" by code_simp
  have "load_checkpoint ?h demo_store ?d ''c'' = Inr (demo_checkpoint demo_recorded)" by code_simp
  moreover have "snapshot_file ?h ?d (path_join ''/w'' ''a'') = Inr (demo_snapshot ''new'')"
    "snapshot_file ?h ?d (path_join ''/w'' ''b'') = Inr (demo_snapshot ''new'')" by code_simp+
  moreover have "path_text demo_top = ''/w''" "sorted_wrt (<) [''a'', ''b'']"
    "path_pieces ''a'' = [''a'']" "path_pieces ''b'' = [''b'']" by code_simp+
  ultimately show ?thesis
    using demo_plain keys
    by (simp add: undoable_def demo_checkpoint_def git_demo_host_def no_faults_def unnested_def demo_recorded_def)
qed

text \<open>The same run, had it touched the tracked file only.\<close>

definition demo_one :: checkpoint where
  "demo_one = demo_checkpoint [(''a'', demo_snapshot ''new'')]"

lemma demo_one_created:
  "fst (create_checkpoint (git_demo_host demo_one) demo_store demo_clock
      (demo_disk ''old'' ''old'' ''{}'') ''run'' ''/w'') = Inr demo_created"
  by code_simp

lemma demo_one_undoable:
  "undoable (git_demo_host demo_one) demo_store demo_top (demo_disk ''new'' ''new'' ''{}'') demo_one"
proof -
  let ?h = "git_demo_host demo_one" and ?d = "demo_disk ''new'' ''new'' ''{}''"
  have "load_checkpoint ?h demo_store ?d ''c'' = Inr demo_one" by code_simp
  moreover have "snapshot_file ?h ?d (path_join ''/w'' ''a'') = Inr (demo_snapshot ''new'')" by code_simp
  moreover have "path_text demo_top = ''/w''" by code_simp
  moreover have "plain_disk demo_top ?d [''a'']" using demo_plain by (simp add: plain_disk_def)
  ultimately show ?thesis
    by (simp add: undoable_def demo_one_def demo_checkpoint_def git_demo_host_def no_faults_def unnested_def)
qed

lemma created_parts: "fst r = Inr c \<Longrightarrow> r = (Inr c, fst (snd r), fst (snd (snd r)), snd (snd (snd r)))"
  by (cases r) auto

theorem undo_returns_to_the_start_witness:
  "\<exists>report d' told. undo_checkpoint (git_demo_host demo_one) demo_store demo_clock (demo_disk ''new'' ''new'' ''{}'') ''c'' =
      (Inr report, d', told) \<and>
    snapshot_file (git_demo_host demo_one) d' ''/w/a'' = Inr (demo_snapshot ''old'')"
proof -
  have one: "map fst (cp_recorded demo_one) = [''a'']" "cp_directory demo_one = ''/w''" "cp_id demo_one = ''c''"
    "cp_baseline demo_one = cp_baseline demo_created" "cp_directory demo_one = cp_directory demo_created"
    "path_join ''/w'' ''a'' = ''/w/a''" by code_simp+
  have old: "snapshot_file (git_demo_host demo_one) (demo_disk ''old'' ''old'' ''{}'') ''/w/a'' = Inr (demo_snapshot ''old'')"
    by code_simp
  have "covered (git_demo_host demo_one) demo_store (demo_disk ''old'' ''old'' ''{}'') ''/w'' ''a''" by code_simp
  moreover have "plain_disk demo_top (demo_disk ''old'' ''old'' ''{}'') [''a'']"
    using demo_plain by (simp add: plain_disk_def)
  ultimately show ?thesis
    using undo_returns_to_the_start [OF created_parts [OF demo_one_created] demo_one_undoable one(4,5), of demo_clock]
    unfolding one by (auto simp: one old)
qed

theorem unlisted_file_is_deleted_witness:
  "\<exists>report d' told. undo_checkpoint (git_demo_host (demo_checkpoint demo_recorded)) demo_store demo_clock
      (demo_disk ''new'' ''new'' ''{}'') ''c'' = (Inr report, d', told) \<and>
    inode_at (nodes d') (place demo_top ''b'') = None"
proof -
  let ?h = "git_demo_host (demo_checkpoint demo_recorded)"
  have c: "map fst (cp_recorded (demo_checkpoint demo_recorded)) = [''a'', ''b'']"
    "cp_directory (demo_checkpoint demo_recorded) = ''/w''" "cp_id (demo_checkpoint demo_recorded) = ''c''"
    "cp_baseline (demo_checkpoint demo_recorded) = cp_baseline demo_created"
    "cp_directory (demo_checkpoint demo_recorded) = cp_directory demo_created" by code_simp+
  have "\<not> covered ?h demo_store (demo_disk ''old'' ''old'' ''{}'') ''/w'' ''b''" by code_simp
  then show ?thesis
    using unlisted_file_is_deleted [OF created_parts [OF demo_create] demo_undoable c(4,5), of "''b''" demo_clock]
    unfolding c by (simp add: demo_plain)
qed

theorem changed_file_stops_restore_witness:
  "\<exists>err told. restore_checkpoint (git_demo_host demo_one) demo_store demo_clock (demo_disk ''mine'' ''b'' ''{}'') demo_one =
     (Inl err, demo_disk ''mine'' ''b'' ''{}'', told)"
proof (rule changed_file_stops_restore)
  show "(''a'', demo_snapshot ''new'') \<in> set (cp_recorded demo_one)" by code_simp
  have "snapshot_file (git_demo_host demo_one) (demo_disk ''mine'' ''b'' ''{}'') (path_join (cp_directory demo_one) ''a'') =
      Inr (demo_snapshot ''mine'')" by code_simp
  then show "snapshot_file (git_demo_host demo_one) (demo_disk ''mine'' ''b'' ''{}'') (path_join (cp_directory demo_one) ''a'')
      \<noteq> Inr (demo_snapshot ''new'')" by (simp add: demo_snapshot_def)
qed

text \<open>The tracked file \<open>a\<close> is a link.\<close>

definition demo_link_disk :: mode_disk where
  "demo_link_disk =
     \<lparr>nodes = [([RootDir, Normal ''w''], Directory), ([RootDir, Normal ''s''], Directory),
        ([RootDir, Normal ''w'', Normal ''a''], SymLink ''/etc''),
        ([RootDir, Normal ''etc''], RegularFile ''root:x'')], modes = (\<lambda>_. 0)\<rparr>"

theorem one_file_blocks_checkpoint_witness:
  "\<exists>err. create_checkpoint (git_demo_host demo_one) demo_store demo_clock demo_link_disk ''run'' ''/w'' =
     (Inl err, demo_link_disk, [], demo_clock)"
proof (rule one_file_blocks_checkpoint)
  let ?h = "git_demo_host demo_one"
  show "client_open (os ?h) (git ?h) (nodes demo_link_disk) ''/w'' = Inr ''/w''" by code_simp
  show "covered ?h demo_store demo_link_disk ''/w'' ''a''" by code_simp
  show "snapshot_file ?h demo_link_disk (path_join ''/w'' ''a'') = Inl (InvalidPath ''/w/a'')" by code_simp
qed

text \<open>An encoding of checkpoints as valid UTF-8: a number in unary that counts them.\<close>

definition counted_host :: git_host where
  "counted_host = (git_demo_host demo_one)\<lparr>
     encode_checkpoint := (\<lambda>c. if c = demo_checkpoint [] then Inr ''0'' else if c = demo_one then Inr ''1'' else Inl ''no''),
     decode_checkpoint := (\<lambda>s. if s = ''0'' then Inr (demo_checkpoint []) else Inr demo_one)\<rparr>"

theorem recorded_change_is_kept_witness:
  "\<exists>c'. load_checkpoint counted_host demo_store
      (snd (record_harness_change counted_host demo_store (demo_disk ''new'' ''b'' ''0'') ''c'' ''/w/a'')) ''c'' = Inr c' \<and>
    map_of (cp_recorded c') ''a'' = Some (demo_snapshot ''new'')"
proof -
  let ?d = "demo_disk ''new'' ''b'' ''0''" and ?c = "demo_checkpoint []"
  have load: "load_checkpoint counted_host demo_store ?d ''c'' = Inr ?c" by code_simp
  have c: "cp_id ?c = ''c''" "sorted_wrt (<) (map fst (cp_recorded ?c))" "cp_directory ?c = ''/w''" by code_simp+
  obtain d' where d': "record_harness_change counted_host demo_store ?d ''c'' ''/w/a'' = (Inr (), d')"
  proof -
    have "fst (record_harness_change counted_host demo_store ?d ''c'' ''/w/a'') = Inr ()" by code_simp
    then show ?thesis using that by (metis prod.collapse)
  qed
  have codec: "valid_utf8 json \<and> decode_checkpoint counted_host json = Inr c"
    if "encode_checkpoint counted_host c = Inr json" for c json
  proof -
    have "valid_utf8 ''0''" "valid_utf8 ''1''" by code_simp+
    with that show ?thesis by (auto simp: counted_host_def split: if_splits)
  qed
  have "checkpoint_relative_path (os counted_host) (nodes ?d) ''/w'' ''/w/a'' = Inr ''a''"
    "snapshot_file counted_host ?d (path_join ''/w'' ''a'') = Inr (demo_snapshot ''new'')" by code_simp+
  then show ?thesis
    using recorded_change_is_kept [OF load c(1,2) d' codec] unfolding d' c(3) by auto
qed

theorem status_lists_every_change_witness:
  "\<exists>s. client_status demo_git [] ''/w'' = Inr s \<and> changed_files s = [''a'', ''z''] \<and>
     set (untracked_files s) = {''z''} \<and> \<not> is_clean s"
proof -
  let ?es = "[(CHR '' '', CHR ''M'', ''a''), (CHR ''?'', CHR ''?'', ''z'')]"
  have printed: "run_git demo_git [] ''/w'' [''status'', ''--porcelain=v1'', ''--untracked-files=all''] =
      Inr (concat (map (\<lambda>e. porcelain_line e @ [newline]) ?es))" by code_simp
  have plain: "\<forall>e \<in> set ?es. plain_entry e" by code_simp
  obtain s where s: "client_status demo_git [] ''/w'' = Inr s"
    by (cases "client_status demo_git [] ''/w''")
      (use printed in \<open>auto simp: client_status_def client_branch_def client_head_def run_git_optional_def demo_git_def Let_def\<close>)
  have "ordered_set [''a'', ''z''] = [''a'', ''z'']" by code_simp
  then show ?thesis
    using status_lists_every_change [OF printed plain s] s by auto
qed

subsection \<open>Views of one file\<close>

text \<open>a path the desktop may ask for is written with names alone, none of them \<open>..\<close>, does not start in
  \<open>.git\<close>, and joined to the root it names a place below the root.\<close>

theorem validated_path_lies_below:
  assumes "validate_relative s = Inr r" "list_all proper_name rs"
  shows "clean_relative r \<and> hd (path_pieces r) \<noteq> ''.git'' \<and>
    components (path_join (path_text (RootDir # map Normal rs)) r) =
      RootDir # map Normal rs @ map Normal (path_pieces r)"
proof -
  let ?ns = "filter (\<lambda>s. s \<noteq> [] \<and> s \<noteq> ''.'') (path_pieces (replace_char (CHR 0x5C) slash (trim s)))"
  from assms(1) have r: "r = join [slash] ?ns" "?ns \<noteq> []" "hd ?ns \<noteq> ''.git''"
      "''..'' \<notin> set (path_pieces (replace_char (CHR 0x5C) slash (trim s)))"
    by (auto simp: validate_relative_def Let_def split: if_splits)
  have proper: "list_all proper_name ?ns"
    using r(4) split_on_no_sep [of _ "\<lambda>c. c = slash"]
    by (auto simp: list_all_iff proper_name_def path_pieces_def)
  have pieces: "path_pieces r = ?ns" using path_pieces_names [OF proper r(2)] r(1) by simp
  have "\<not> is_absolute r"
    using proper r(2) unfolding r(1)
    by (cases ?ns; cases "tl ?ns"; cases "hd ?ns") (auto simp: is_absolute_def proper_name_def)
  moreover have "is_absolute (path_text (RootDir # map Normal rs))"
    by (simp only: path_text_rooted) (simp add: is_absolute_def)
  moreover have "resolved (RootDir # map Normal rs)" using assms(2) by (auto simp: resolved_def)
  ultimately show ?thesis
    using components_join_rooted components_path_text proper_pieces(1,2) [OF proper] proper r(3) pieces
    by (simp add: clean_relative_def)
qed

theorem validated_path_lies_below_witness:
  "validate_relative '' ./src/a.rs'' = Inr ''src/a.rs'' \<and>
   components (path_join (path_text [RootDir, Normal ''w'']) ''src/a.rs'') =
     [RootDir, Normal ''w'', Normal ''src'', Normal ''a.rs'']"
proof -
  have s: "validate_relative '' ./src/a.rs'' = Inr ''src/a.rs''" "path_pieces ''src/a.rs'' = [''src'', ''a.rs'']"
    "list_all proper_name [''w'']" by code_simp+
  from validated_path_lies_below [OF s(1,3)] s(1,2) show ?thesis by simp
qed

text \<open>But what lies there is read through links: the view of a link shows the file it leads to.\<close>

lemma view_follows_links:
  "map_sum id view_content (client_read_file (os (git_demo_host demo_one)) (nodes demo_link_disk) ''/w'' ''a'') =
     Inr ''root:x''"
  by code_simp

text \<open>A removed line that starts with two dashes (a comment in SQL, say) is taken for a file header.\<close>

lemma dashed_line_is_not_counted: "\<not> is_deletion (''---'' @ rest)"
  by (simp add: is_deletion_def)

text \<open>A private file (mode 0600) that is restored can be read by everyone (0644).\<close>

lemma restore_widens_permissions:
  "modes (demo_disk ''new'' ''new'' ''{}'') (place demo_top ''a'') = 0x180 \<and>
   modes (fst (snd (undo_checkpoint (git_demo_host demo_one) demo_store demo_clock (demo_disk ''new'' ''new'' ''{}'') ''c'')))
     (place demo_top ''a'') = 0x1A4"
  by code_simp

end
