(* ===== verification/Model_Types.thy ===== *)
theory Model_Types
  imports Agent_State Tool_Files Ordered_Maps
begin

section \<open>harness-models: the provider-neutral types\<close>

text \<open>
  \<open>harness-models/src/lib.rs\<close>: errors, requests and responses of a model as every provider
  adapter exchanges them, the events of a stream, the checks \<open>generate\<close> makes before a
  provider is asked, and the configuration of a model. The messages are those of
  \<open>Agent_History\<close>; the agent's views of a request and a response are extended by the fields
  only adapters read. A consumer of events is a function of the events it has received: \<open>None\<close>
  to go on, an error to stop the provider. JSON text is a parameter.
\<close>

subsection \<open>Errors\<close>

datatype provider_error =
    MissingApiKey string string
  | RequestFailed string "nat option"
  | InvalidResponse string string
  | TransportFailed string
  | StreamConsumerFailed
  | RequestCancelled
  | RequestTimedOut string
  | ConfigurationInvalid string
  | UnsupportedCapability string

fun provider_error_text :: "provider_error \<Rightarrow> string" where
  "provider_error_text (MissingApiKey p key) =
     ''missing API key for '' @ p @ ''; set environment variable '' @ key"
| "provider_error_text (RequestFailed p _) = ''provider '' @ p @ '' request failed''"
| "provider_error_text (InvalidResponse p reason) =
     ''provider '' @ p @ '' returned an invalid response: '' @ reason"
| "provider_error_text (TransportFailed p) = ''provider '' @ p @ '' transport failed''"
| "provider_error_text StreamConsumerFailed = ''provider stream consumer failed''"
| "provider_error_text RequestCancelled = ''provider request was cancelled''"
| "provider_error_text (RequestTimedOut p) = ''provider '' @ p @ '' request timed out''"
| "provider_error_text (ConfigurationInvalid reason) = ''provider configuration is invalid: '' @ reason"
| "provider_error_text (UnsupportedCapability c) = ''model does not support requested capability: '' @ c"

subsection \<open>Messages\<close>

definition plain_message :: "role \<Rightarrow> content_block list \<Rightarrow> message" where
  "plain_message r blocks =
     \<lparr>role = r, content = blocks, msg_name = None, tool_call_id = None, tool_calls = [], msg_is_error = False\<rparr>"

definition user_text :: "string \<Rightarrow> message" where
  "user_text t = plain_message UserRole [Text t]"

definition assistant_text :: "string \<Rightarrow> message" where
  "assistant_text t = plain_message AssistantRole [Text t]"

definition assistant_tool_calls :: "tool_call list \<Rightarrow> message" where
  "assistant_tool_calls cs = (plain_message AssistantRole [])\<lparr>tool_calls := cs\<rparr>"

definition tool_result_message :: "string \<Rightarrow> string \<Rightarrow> bool \<Rightarrow> message" where
  "tool_result_message i t is_err =
     (plain_message ToolRole [Text t])\<lparr>tool_call_id := Some i, msg_is_error := is_err\<rparr>"

subsection \<open>Requests and responses\<close>

datatype finish_reason =
  FinishStop | FinishLength | FinishToolCalls | FinishContentFilter | FinishError | FinishOther string

record token_usage = usage +
  cache_read_tokens :: "nat option"
  cache_creation_tokens :: "nat option"

definition no_usage :: token_usage where
  "no_usage = \<lparr>input_tokens = None, output_tokens = None, total_tokens = None,
     cache_read_tokens = None, cache_creation_tokens = None\<rparr>"

datatype reasoning_effort = EffortMinimal | EffortLow | EffortMedium | EffortHigh | EffortXHigh | EffortMax

record reasoning_config =
  reasoning_level :: "reasoning_effort option"
  budget_tokens :: "nat option"
  include_summary :: bool

text \<open>A temperature is the JSON text of the number, which is \<open>1.0\<close> for one.\<close>

record full_request = model_request +
  request_max_tokens :: "nat option"
  request_temperature :: "string option"
  request_metadata :: "(string \<times> string) list"
  request_reasoning :: "reasoning_config option"

definition model_request_new :: "string \<Rightarrow> message list \<Rightarrow> full_request" where
  "model_request_new m ms =
     \<lparr>request_model = m, request_messages = ms, request_tools = [], request_max_tokens = None,
      request_temperature = None, request_metadata = [], request_reasoning = None\<rparr>"

record full_response =
  fr_id :: string
  fr_model :: string
  fr_content :: "content_block list"
  fr_calls :: "tool_call list"
  fr_finish :: finish_reason
  fr_usage :: "token_usage option"

text \<open>What the run loop reads of a response.\<close>

definition agent_response :: "full_response \<Rightarrow> model_response" where
  "agent_response r =
     \<lparr>response_model = fr_model r, response_content = fr_content r, response_calls = fr_calls r,
      response_usage = map_option usage.truncate (fr_usage r)\<rparr>"

record model_capabilities =
  text_input :: bool
  image_input :: bool
  streaming :: bool
  tool_calling :: bool
  parallel_tool_calls :: bool
  reasoning :: bool
  configurable_reasoning_effort :: bool
  cap_context_window :: "nat option"
  cap_max_output_tokens :: "nat option"
  system_instructions :: bool
  developer_instructions :: bool
  prompt_caching :: bool
  structured_output :: bool

text \<open>\<open>ModelCapabilities::default()\<close>: nothing is claimed.\<close>

definition no_capabilities :: model_capabilities where
  "no_capabilities =
     \<lparr>text_input = False, image_input = False, streaming = False, tool_calling = False,
      parallel_tool_calls = False, reasoning = False, configurable_reasoning_effort = False,
      cap_context_window = None, cap_max_output_tokens = None, system_instructions = False,
      developer_instructions = False, prompt_caching = False, structured_output = False\<rparr>"

record model_descriptor =
  descriptor_provider :: string
  descriptor_id :: string
  descriptor_name :: string
  descriptor_capabilities :: model_capabilities

definition canonical_id :: "'a model_descriptor_scheme \<Rightarrow> string" where
  "canonical_id d =
     (let i = descriptor_id d;
          short = (case strip_prefix_str (descriptor_provider d) i of
             None \<Rightarrow> i
           | Some rest \<Rightarrow> (case strip_prefix_str ''/'' rest of None \<Rightarrow> i | Some s \<Rightarrow> s))
      in descriptor_provider d @ ''/'' @ short)"

subsection \<open>Streams of events\<close>

datatype stream_event =
    ResponseStarted "string option" string
  | TextDelta string
  | ReasoningDelta string
  | ToolCallStarted nat "string option" "string option"
  | ToolCallArgumentsDelta nat string
  | ToolCallCompleted nat tool_call
  | UsageUpdated token_usage
  | ResponseCompleted finish_reason
  | ResponseFailed string

type_synonym sink = "stream_event list \<Rightarrow> provider_error option"

type_synonym 'a emitting = "stream_event list \<Rightarrow> (provider_error + 'a) \<times> stream_event list"

definition deliver :: "sink \<Rightarrow> stream_event \<Rightarrow> unit emitting" where
  "deliver sink e received =
     (let received = received @ [e] in
      case sink received of None \<Rightarrow> (Inr (), received) | Some err \<Rightarrow> (Inl err, received))"

fun deliver_all :: "sink \<Rightarrow> stream_event list \<Rightarrow> unit emitting" where
  "deliver_all sink [] received = (Inr (), received)"
| "deliver_all sink (e # es) received =
     (case deliver sink e received of
        (Inl err, received) \<Rightarrow> (Inl err, received)
      | (Inr _, received) \<Rightarrow> deliver_all sink es received)"

text \<open>\<open>chunks(n)\<close> of a slice.\<close>

function list_chunks :: "nat \<Rightarrow> 'a list \<Rightarrow> 'a list list" where
  "list_chunks n xs = (if xs = [] \<or> n = 0 then [] else take n xs # list_chunks n (drop n xs))"
  by pat_completeness auto
termination
  by (relation "measure (\<lambda>(n, xs). length xs)") auto

declare list_chunks.simps [simp del]

fun block_events :: "content_block \<Rightarrow> stream_event list" where
  "block_events (Text t) = map (\<lambda>chunk. TextDelta (concat chunk)) (list_chunks 8 (utf8_chars t))"
| "block_events (Image _ _) = []"
| "block_events (Reasoning _) = []"

definition call_events :: "(json \<Rightarrow> string) \<Rightarrow> nat \<times> tool_call \<Rightarrow> stream_event list" where
  "call_events json_text ic =
     (case ic of (i, c) \<Rightarrow>
        [ToolCallStarted (i mod 2 ^ 32) (Some (call_id c)) (Some (call_name c)),
         ToolCallArgumentsDelta (i mod 2 ^ 32) (json_text (arguments c)),
         ToolCallCompleted (i mod 2 ^ 32) c])"

definition response_events :: "(json \<Rightarrow> string) \<Rightarrow> full_response \<Rightarrow> stream_event list" where
  "response_events json_text r =
     [ResponseStarted (Some (fr_id r)) (fr_model r)] @ concat (map block_events (fr_content r)) @
     concat (map (call_events json_text) (List.enumerate 0 (fr_calls r))) @
     (case fr_usage r of None \<Rightarrow> [] | Some u \<Rightarrow> [UsageUpdated u]) @
     [ResponseCompleted (fr_finish r)]"

definition emit_response_events :: "(json \<Rightarrow> string) \<Rightarrow> sink \<Rightarrow> full_response \<Rightarrow> unit emitting" where
  "emit_response_events json_text sink r = deliver_all sink (response_events json_text r)"

subsection \<open>Asking a provider\<close>

record model_provider =
  provider_descriptor :: model_descriptor
  complete_with :: "full_request \<Rightarrow> provider_error + full_response"
  stream_with :: "full_request \<Rightarrow> sink \<Rightarrow> full_response emitting"

definition has_image :: "message \<Rightarrow> bool" where
  "has_image m \<longleftrightarrow> list_ex (\<lambda>b. case b of Image _ _ \<Rightarrow> True | _ \<Rightarrow> False) (content m)"

text \<open>The first capability the request needs and the model does not have.\<close>

definition missing_capability :: "model_capabilities \<Rightarrow> full_request \<Rightarrow> string option" where
  "missing_capability c r =
     (if \<not> text_input c then Some ''text input''
      else if list_ex has_image (request_messages r) \<and> \<not> image_input c then Some ''image input''
      else if request_tools r \<noteq> [] \<and> \<not> tool_calling c then Some ''tool calling''
      else if request_reasoning r \<noteq> None \<and> \<not> reasoning c then Some ''reasoning''
      else if (case request_reasoning r of None \<Rightarrow> False
               | Some k \<Rightarrow> reasoning_level k \<noteq> None \<or> budget_tokens k \<noteq> None)
           \<and> \<not> configurable_reasoning_effort c then Some ''configurable reasoning effort''
      else if list_ex (\<lambda>m. role m = SystemRole) (request_messages r) \<and> \<not> system_instructions c
      then Some ''system instructions''
      else if list_ex (\<lambda>m. role m = Developer) (request_messages r) \<and> \<not> developer_instructions c
      then Some ''developer instructions''
      else None)"

definition generate_checked ::
  "(json \<Rightarrow> string) \<Rightarrow> model_provider \<Rightarrow> full_request \<Rightarrow> sink \<Rightarrow> bool \<Rightarrow> full_response emitting" where
  "generate_checked json_text p r sink cancelled received =
     (if cancelled then (Inl RequestCancelled, received)
      else case missing_capability (descriptor_capabilities (provider_descriptor p)) r of
        Some c \<Rightarrow> (Inl (UnsupportedCapability c), received)
      | None \<Rightarrow>
          if streaming (descriptor_capabilities (provider_descriptor p)) then stream_with p r sink received
          else case complete_with p r of
            Inl err \<Rightarrow> (Inl err, received)
          | Inr response \<Rightarrow>
              (case emit_response_events json_text sink response received of
                 (Inl err, received) \<Rightarrow> (Inl err, received)
               | (Inr _, received) \<Rightarrow> (Inr response, received)))"

text \<open>An error is reported as a last event, whatever the consumer says to it.\<close>

definition generate_cancellable ::
  "(json \<Rightarrow> string) \<Rightarrow> model_provider \<Rightarrow> full_request \<Rightarrow> sink \<Rightarrow> bool \<Rightarrow> full_response emitting" where
  "generate_cancellable json_text p r sink cancelled received =
     (case generate_checked json_text p r sink cancelled received of
        (Inl err, received) \<Rightarrow> (Inl err, snd (deliver sink (ResponseFailed (provider_error_text err)) received))
      | (Inr response, received) \<Rightarrow> (Inr response, received))"

definition generate ::
  "(json \<Rightarrow> string) \<Rightarrow> model_provider \<Rightarrow> full_request \<Rightarrow> sink \<Rightarrow> full_response emitting" where
  "generate json_text p r sink = generate_cancellable json_text p r sink False"

end
