(* ===== verification/Model_Config.thy ===== *)
theory Model_Config
  imports Model_Types Agent_Instructions
begin

section \<open>harness-models: the configuration of a model\<close>

text \<open>
  \<open>ModelConfig\<close> of \<open>harness-models/src/lib.rs\<close>: the defaults of each provider, switching
  providers without losing what the user set, validation, and reading the environment (a
  function from names to values).
\<close>

datatype provider_kind = MockProvider | OpenAiProvider | AnthropicProvider | GeminiProvider
  | OpenCodeZenProvider | OpenCodeGoProvider

record model_config =
  config_provider :: provider_kind
  config_model :: string
  api_key_env :: string
  base_url :: string
  config_window :: "nat option"
  config_effort :: "reasoning_effort option"

fun default_parts :: "provider_kind \<Rightarrow> string \<times> string \<times> string" where
  "default_parts MockProvider = (''mock'', ''OPENAI_API_KEY'', ''https://api.openai.com/v1'')"
| "default_parts OpenAiProvider = (''gpt-4.1-mini'', ''OPENAI_API_KEY'', ''https://api.openai.com/v1'')"
| "default_parts AnthropicProvider =
     (''claude-sonnet-4-6'', ''ANTHROPIC_API_KEY'', ''https://api.anthropic.com/v1'')"
| "default_parts GeminiProvider =
     (''gemini-3.8-flash'', ''GEMINI_API_KEY'', ''https://generativelanguage.googleapis.com/v1beta'')"
| "default_parts OpenCodeZenProvider =
     (''opencode-zen/gpt-5.6-sol'', ''OPENCODE_API_KEY'', ''https://opencode.ai/zen/v1'')"
| "default_parts OpenCodeGoProvider =
     (''opencode-go/glm-5.3'', ''OPENCODE_API_KEY'', ''https://opencode.ai/zen/go/v1'')"

definition config_for_provider :: "provider_kind \<Rightarrow> model_config" where
  "config_for_provider p =
     (case default_parts p of (m, key, url) \<Rightarrow>
        \<lparr>config_provider = p, config_model = m, api_key_env = key, base_url = url,
         config_window = (if p = MockProvider then Some 8192 else None), config_effort = None\<rparr>)"

definition select_provider :: "provider_kind \<Rightarrow> model_config \<Rightarrow> model_config" where
  "select_provider p c =
     (if p = config_provider c then c
      else
        let old = config_for_provider (config_provider c); new = config_for_provider p;
            refresh = (\<lambda>sel. if sel c = sel old then sel new else sel c)
        in \<lparr>config_provider = p, config_model = refresh config_model, api_key_env = refresh api_key_env,
            base_url = refresh base_url,
            config_window = (if config_window c = config_window old then config_window new else config_window c),
            config_effort = None\<rparr>)"

definition reasoning_config_of :: "model_config \<Rightarrow> reasoning_config option" where
  "reasoning_config_of c =
     map_option (\<lambda>e. \<lparr>reasoning_level = Some e, budget_tokens = None, include_summary = False\<rparr>)
       (config_effort c)"

definition config_validate :: "model_config \<Rightarrow> string + unit" where
  "config_validate c =
     (if trim (config_model c) = [] then Inl ''model must not be empty''
      else if 200 < length (config_model c) then Inl ''model name is too long''
      else if trim (base_url c) \<noteq> [] \<and> \<not> starts_with (base_url c) ''https://''
           \<and> \<not> starts_with (base_url c) ''http://''
      then Inl ''base_url must start with http:// or https://''
      else if trim (base_url c) \<noteq> [] \<and> 2048 < length (base_url c) then Inl ''base_url is too long''
      else if trim (api_key_env c) = [] then Inl ''api_key_env must not be empty''
      else if \<not> list_all (\<lambda>ch. is_ascii_alnum ch \<or> ch = CHR ''_'') (api_key_env c)
      then Inl (''api_key_env '' @ debug_string (api_key_env c) @ '' is not a valid environment variable name'')
      else Inr ())"

text \<open>The names \<open>serde\<close> reads a provider and an effort from.\<close>

definition provider_names :: "(string \<times> provider_kind) list" where
  "provider_names =
     [(''mock'', MockProvider), (''openai'', OpenAiProvider), (''anthropic'', AnthropicProvider),
      (''gemini'', GeminiProvider),
      (''opencode-zen'', OpenCodeZenProvider), (''opencode_zen'', OpenCodeZenProvider),
      (''opencodezen'', OpenCodeZenProvider),
      (''opencode-go'', OpenCodeGoProvider), (''opencode_go'', OpenCodeGoProvider),
      (''opencodego'', OpenCodeGoProvider)]"

definition effort_names :: "(string \<times> reasoning_effort) list" where
  "effort_names =
     [(''minimal'', EffortMinimal), (''low'', EffortLow), (''medium'', EffortMedium),
      (''high'', EffortHigh), (''x_high'', EffortXHigh), (''max'', EffortMax)]"

definition env_or :: "(string \<Rightarrow> string option) \<Rightarrow> string \<Rightarrow> string \<Rightarrow> string" where
  "env_or env key dflt =
     (case env key of None \<Rightarrow> dflt | Some v \<Rightarrow> if trim v = [] then dflt else v)"

definition config_from_env :: "(string \<Rightarrow> string option) \<Rightarrow> model_config" where
  "config_from_env env =
     (let p = (case Option.bind (env ''COGITO_MODEL_PROVIDER'') (map_of provider_names) of
                 None \<Rightarrow> MockProvider | Some p \<Rightarrow> p);
          d = config_for_provider p
      in \<lparr>config_provider = p,
          config_model = env_or env ''COGITO_MODEL'' (config_model d),
          api_key_env = env_or env ''COGITO_MODEL_API_KEY_ENV'' (api_key_env d),
          base_url = env_or env ''COGITO_MODEL_BASE_URL'' (base_url d),
          config_window = Some (case config_window d of None \<Rightarrow> 8192 | Some n \<Rightarrow> n),
          config_effort = Option.bind (env ''COGITO_MODEL_REASONING_EFFORT'') (map_of effort_names)\<rparr>)"

fun provider_id :: "provider_kind \<Rightarrow> string" where
  "provider_id MockProvider = ''mock''"
| "provider_id OpenAiProvider = ''openai''"
| "provider_id AnthropicProvider = ''anthropic''"
| "provider_id GeminiProvider = ''gemini''"
| "provider_id OpenCodeZenProvider = ''opencode-zen''"
| "provider_id OpenCodeGoProvider = ''opencode-go''"

subsection \<open>Switching providers\<close>

definition all_providers :: "provider_kind list" where
  "all_providers = [MockProvider, OpenAiProvider, AnthropicProvider, GeminiProvider, OpenCodeZenProvider,
     OpenCodeGoProvider]"

lemma in_all_providers: "p \<in> set all_providers"
  by (cases p) (simp_all add: all_providers_def)

lemma trim_default:
  "trim (fst (default_parts p)) \<noteq> [] \<and> trim (fst (snd (default_parts p))) \<noteq> []"
proof -
  have "list_all (\<lambda>p. trim (fst (default_parts p)) \<noteq> [] \<and> trim (fst (snd (default_parts p))) \<noteq> []) all_providers"
    by code_simp
  then show ?thesis using in_all_providers unfolding list_all_iff by blast
qed

lemma default_text_bounds:
  "length (fst (default_parts p)) \<le> 200 \<and> length (snd (snd (default_parts p))) \<le> 2048 \<and>
   starts_with (snd (snd (default_parts p))) ''https://'' \<and>
   list_all (\<lambda>ch. is_ascii_alnum ch \<or> ch = CHR ''_'') (fst (snd (default_parts p)))"
proof -
  have "list_all (\<lambda>p. length (fst (default_parts p)) \<le> 200 \<and> length (snd (snd (default_parts p))) \<le> 2048 \<and>
   starts_with (snd (snd (default_parts p))) ''https://'' \<and>
   list_all (\<lambda>ch. is_ascii_alnum ch \<or> ch = CHR ''_'') (fst (snd (default_parts p)))) all_providers"
    by code_simp
  then show ?thesis using in_all_providers unfolding list_all_iff [of _ all_providers] by blast
qed

lemma config_validate_ok:
  "config_validate c = Inr () \<longleftrightarrow>
     trim (config_model c) \<noteq> [] \<and> length (config_model c) \<le> 200 \<and>
     (trim (base_url c) = [] \<or>
       (starts_with (base_url c) ''https://'' \<or> starts_with (base_url c) ''http://'') \<and>
       length (base_url c) \<le> 2048) \<and>
     trim (api_key_env c) \<noteq> [] \<and> list_all (\<lambda>ch. is_ascii_alnum ch \<or> ch = CHR ''_'') (api_key_env c)"
  by (auto simp: config_validate_def)

text \<open>switching the provider keeps what the user set and replaces only the old provider's defaults;
  a valid configuration stays valid, and the new provider's defaults come back as they are.\<close>

theorem switching_provider_keeps_settings:
  assumes "config_validate c = Inr ()"
  shows "config_validate (select_provider p c) = Inr () \<and> config_provider (select_provider p c) = p \<and>
    (config_model c \<noteq> config_model (config_for_provider (config_provider c)) \<longrightarrow>
       config_model (select_provider p c) = config_model c) \<and>
    (base_url c \<noteq> base_url (config_for_provider (config_provider c)) \<longrightarrow>
       base_url (select_provider p c) = base_url c) \<and>
    (api_key_env c \<noteq> api_key_env (config_for_provider (config_provider c)) \<longrightarrow>
       api_key_env (select_provider p c) = api_key_env c) \<and>
    select_provider p (config_for_provider q) = config_for_provider p"
proof -
  obtain m key url where d: "default_parts p = (m, key, url)" by (metis prod.exhaust)
  have "config_validate (select_provider p c) = Inr ()"
    using assms trim_default [of p] default_text_bounds [of p]
    unfolding config_validate_ok by (auto simp: select_provider_def config_for_provider_def Let_def d)
  moreover have "select_provider p (config_for_provider q) = config_for_provider p"
    by (auto simp: select_provider_def config_for_provider_def Let_def split: prod.splits)
  moreover have "config_provider (select_provider p c) = p"
    by (simp add: select_provider_def Let_def)
  ultimately show ?thesis by (auto simp: select_provider_def Let_def)
qed

theorem switching_provider_keeps_settings_witness:
  "config_model (select_provider AnthropicProvider
     ((config_for_provider OpenAiProvider)\<lparr>config_model := ''my-model''\<rparr>)) = ''my-model''"
proof -
  let ?c = "(config_for_provider OpenAiProvider)\<lparr>config_model := ''my-model''\<rparr>"
  have "config_validate ?c = Inr ()" by code_simp
  from switching_provider_keeps_settings [OF this, of AnthropicProvider] show ?thesis
    by (simp add: config_for_provider_def)
qed

text \<open>
  A configuration read from the environment has a context window of 8192 tokens even where the
  provider's default is to have none, so a later switch keeps it as if the user had set it.
\<close>

lemma environment_window_is_kept:
  assumes "p \<noteq> config_provider (config_from_env env)" "config_provider (config_from_env env) \<noteq> MockProvider"
  shows "config_window (select_provider p (config_from_env env)) = Some 8192"
  using assms
  by (auto simp: config_from_env_def select_provider_def config_for_provider_def Let_def split: prod.splits)

end
