(* ===== verification/Model_Transport.thy ===== *)
theory Model_Transport
  imports Model_Types
begin

section \<open>harness-models: retries and server-sent events\<close>

text \<open>
  \<open>harness-models/src/transport.rs\<close>: the retries of a request and the reader of a stream of
  server-sent events. The connection is what a \<open>BufReader\<close> with a short read timeout sees of it:
  the stretches of bytes between two timed-out reads, then the end of the stream or an error.
  \<open>read_line\<close> is that of the standard library: it appends to the line what it read, but only if
  that is UTF-8; otherwise the bytes are gone.
\<close>

subsection \<open>Requests\<close>

datatype ureq_error = HttpStatus nat | DnsFailed | ConnectionFailed | ProxyFailed | IoTimedOut | OtherTransport

definition max_attempts :: nat where "max_attempts = 3"

definition is_transient :: "ureq_error \<Rightarrow> bool" where
  "is_transient err \<longleftrightarrow> (case err of
     HttpStatus status \<Rightarrow> status = 408 \<or> status = 429 \<or> status \<ge> 500
   | OtherTransport \<Rightarrow> False
   | _ \<Rightarrow> True)"

definition map_ureq_error :: "string \<Rightarrow> ureq_error \<Rightarrow> provider_error" where
  "map_ureq_error provider err = (case err of
     HttpStatus status \<Rightarrow> RequestFailed provider (Some status)
   | IoTimedOut \<Rightarrow> RequestTimedOut provider
   | _ \<Rightarrow> TransportFailed provider)"

text \<open>The answers to the attempts, in order; the result also says how many were made.\<close>

fun retry_from :: "string \<Rightarrow> (nat \<Rightarrow> ureq_error + 'r) \<Rightarrow> nat \<Rightarrow> nat \<Rightarrow> (provider_error + 'r) \<times> nat" where
  "retry_from provider send tried 0 = (Inl (TransportFailed provider), tried)"
| "retry_from provider send tried (Suc left) =
     (case send tried of
        Inr response \<Rightarrow> (Inr response, tried + 1)
      | Inl err \<Rightarrow>
          if tried + 1 < max_attempts \<and> is_transient err
          then retry_from provider send (tried + 1) left
          else (Inl (map_ureq_error provider err), tried + 1))"

definition request_with_retry :: "string \<Rightarrow> (nat \<Rightarrow> ureq_error + 'r) \<Rightarrow> (provider_error + 'r) \<times> nat" where
  "request_with_retry provider send = retry_from provider send 0 max_attempts"

definition retry_delay_ms :: "nat \<Rightarrow> nat" where
  "retry_delay_ms tried = 80 * 2 ^ tried"

subsection \<open>Reading lines\<close>

datatype stream_end = EndOfStream | Broken

record byte_stream =
  stretches :: "string list"
  stream_end :: stream_end

datatype line_read = LineRead nat | LineTimedOut | LineInvalid | LineBroken

text \<open>\<open>read_until\<close>: the bytes it appends, how it ends, and what is left.\<close>

fun read_until_newline :: "byte_stream \<Rightarrow> string \<times> line_read \<times> byte_stream" where
  "read_until_newline r =
     (case stretches r of
        [] \<Rightarrow> ([], (if stream_end r = EndOfStream then LineRead 0 else LineBroken), r)
      | s # rest \<Rightarrow>
          if newline \<in> set s
          then (let l = takeWhile (\<lambda>c. c \<noteq> newline) s @ [newline]
                in (l, LineRead (length l), r\<lparr>stretches := drop (length l) s # rest\<rparr>))
          else (s, (if rest \<noteq> [] then LineTimedOut
                    else if stream_end r = EndOfStream then LineRead (length s) else LineBroken),
                r\<lparr>stretches := rest\<rparr>))"

definition read_line :: "byte_stream \<Rightarrow> string \<Rightarrow> line_read \<times> string \<times> byte_stream" where
  "read_line r line =
     (case read_until_newline r of (bytes, result, r) \<Rightarrow>
        if valid_utf8 bytes then (result, line @ bytes, r)
        else ((case result of LineRead _ \<Rightarrow> LineInvalid | _ \<Rightarrow> result), line, r))"

text \<open>The bytes and the read calls a stream still has.\<close>

definition stream_weight :: "byte_stream \<Rightarrow> nat" where
  "stream_weight r = sum_list (map (\<lambda>s. 1 + length s) (stretches r))"

lemma length_drop_line:
  "newline \<in> set s \<Longrightarrow> length (drop (Suc (length (takeWhile (\<lambda>c. c \<noteq> newline) s))) s) < length s"
  by (cases s) auto

lemma read_until_weight:
  assumes "read_until_newline r = (bytes, result, r')" "result \<noteq> LineRead 0" "result \<noteq> LineBroken"
  shows "stream_weight r' < stream_weight r"
proof (cases "stretches r")
  case Nil
  with assms show ?thesis by (simp split: if_splits)
next
  case (Cons s rest)
  show ?thesis
  proof (cases "newline \<in> set s")
    case True
    with assms(1) Cons length_drop_line [OF True] show ?thesis
      by (auto simp: stream_weight_def Let_def)
  next
    case False
    with assms(1) Cons show ?thesis by (auto simp: stream_weight_def)
  qed
qed

lemma read_line_weight:
  assumes "read_line r line = (result, line', r')" "result \<noteq> LineRead 0" "result \<noteq> LineBroken" "result \<noteq> LineInvalid"
  shows "stream_weight r' < stream_weight r"
proof -
  obtain bytes res r1 where until: "read_until_newline r = (bytes, res, r1)" by (metis prod.exhaust)
  with assms(1,4) have "r1 = r'" "res = result" by (auto simp: read_line_def split: if_splits line_read.splits)
  with read_until_weight [OF until] assms(2,3) show ?thesis by simp
qed

subsection \<open>Server-sent events\<close>

definition trim_line_end :: "string \<Rightarrow> string" where
  "trim_line_end l = trim_end_chars [carriage_return, newline] l"

text \<open>The data gathered so far, with the payload of one more \<open>data:\<close> line.\<close>

definition add_payload :: "string \<Rightarrow> string \<Rightarrow> string" where
  "add_payload data l =
     (case strip_prefix_str ''data:'' l of
        None \<Rightarrow> data
      | Some rest \<Rightarrow> (if data = [] then [] else data @ [newline]) @ trim_start rest)"

text \<open>
  The consumer: its state, and for each payload whether to go on, to stop, or an error. The
  loop asks \<open>interrupted\<close> before each read (cancellation and the total time limit).
\<close>

type_synonym 's on_data = "'s \<Rightarrow> string \<Rightarrow> (provider_error + bool) \<times> 's"

definition dispatch_data :: "'s on_data \<Rightarrow> 's \<Rightarrow> string \<Rightarrow> (provider_error + bool) \<times> 's" where
  "dispatch_data f s data = (if data = [] then (Inr True, s) else f s data)"

function sse_loop ::
  "string \<Rightarrow> (nat \<Rightarrow> provider_error option) \<Rightarrow> 's on_data \<Rightarrow> nat \<Rightarrow> byte_stream \<Rightarrow> string \<Rightarrow> string \<Rightarrow> 's
     \<Rightarrow> (provider_error + unit) \<times> 's" where
  "sse_loop provider interrupted f k r line data s =
     (case interrupted k of
        Some err \<Rightarrow> (Inl err, s)
      | None \<Rightarrow>
          (case read_line r line of
             (LineRead n, line, r) \<Rightarrow>
               if n = 0
               then (case dispatch_data f s (add_payload data (trim_line_end line)) of
                       (Inl err, s) \<Rightarrow> (Inl err, s) | (Inr _, s) \<Rightarrow> (Inr (), s))
               else if trim_line_end line = []
               then (case dispatch_data f s data of
                       (Inl err, s) \<Rightarrow> (Inl err, s)
                     | (Inr go, s) \<Rightarrow> if go then sse_loop provider interrupted f (k + 1) r [] [] s else (Inr (), s))
               else sse_loop provider interrupted f (k + 1) r [] (add_payload data (trim_line_end line)) s
           | (LineTimedOut, line, r) \<Rightarrow> sse_loop provider interrupted f (k + 1) r line data s
           | (LineInvalid, line, r) \<Rightarrow> (Inl (TransportFailed provider), s)
           | (LineBroken, line, r) \<Rightarrow> (Inl (TransportFailed provider), s)))"
  by pat_completeness auto
termination
  by (relation "measure (\<lambda>(p, interrupted, f, k, r, line, data, s). stream_weight r)")
    (auto dest: read_line_weight [OF sym])

declare sse_loop.simps [simp del]

definition for_each_sse_data ::
  "string \<Rightarrow> (nat \<Rightarrow> provider_error option) \<Rightarrow> byte_stream \<Rightarrow> 's on_data \<Rightarrow> 's \<Rightarrow> (provider_error + unit) \<times> 's"
where
  "for_each_sse_data provider interrupted r f s = sse_loop provider interrupted f 0 r [] [] s"

subsection \<open>What the consumer sees\<close>

text \<open>The same events read off the text of the whole stream.\<close>

definition sse_end :: "'s on_data \<Rightarrow> string \<Rightarrow> 's \<Rightarrow> (provider_error + unit) \<times> 's" where
  "sse_end f data s = map_prod (map_sum id (\<lambda>_. ())) id (dispatch_data f s data)"

function sse_text :: "'s on_data \<Rightarrow> string \<Rightarrow> string \<Rightarrow> 's \<Rightarrow> (provider_error + unit) \<times> 's" where
  "sse_text f t data s =
     (if newline \<notin> set t then sse_end f (add_payload data (trim_line_end t)) s
      else
        let l = trim_line_end (takeWhile (\<lambda>c. c \<noteq> newline) t);
            rest = drop (Suc (length (takeWhile (\<lambda>c. c \<noteq> newline) t))) t
        in if l = []
           then (case dispatch_data f s data of
                   (Inl err, s) \<Rightarrow> (Inl err, s)
                 | (Inr go, s) \<Rightarrow> if go then sse_text f rest [] s else (Inr (), s))
           else sse_text f rest (add_payload data l) s)"
  by pat_completeness auto
termination
  by (relation "measure (\<lambda>(f, t, data, s). length t)") (use length_drop_line in force)+

declare sse_text.simps [simp del]

definition whole_characters :: "byte_stream \<Rightarrow> bool" where
  "whole_characters r \<longleftrightarrow> list_all valid_utf8 (stretches r)"

lemma takeWhile_line: "newline \<notin> set a \<Longrightarrow> takeWhile (\<lambda>c. c \<noteq> newline) (a @ newline # rest) = a"
  by (induction a) auto

lemma valid_utf8_at_newline:
  assumes "valid_utf8 (a @ newline # b)" "newline \<notin> set a"
  shows "valid_utf8 (a @ [newline]) \<and> valid_utf8 b"
proof -
  have both: "from_utf8_lossy a @ newline # from_utf8_lossy b = a @ newline # b"
    using assms(1) by (simp add: valid_utf8_def from_utf8_lossy_newline)
  have "newline \<notin> set (from_utf8_lossy a)" by (rule newline_from_utf8_lossy [OF assms(2)])
  with both have same: "from_utf8_lossy a = a" using takeWhile_line assms(2) by metis
  from both [unfolded same] have "from_utf8_lossy b = b" by simp
  then show ?thesis using same from_utf8_lossy_newline [of a "[]"] by (simp add: valid_utf8_def)
qed

lemma split_line:
  assumes "newline \<in> set s"
  shows "s = takeWhile (\<lambda>c. c \<noteq> newline) s @ newline # drop (Suc (length (takeWhile (\<lambda>c. c \<noteq> newline) s))) s"
  using assms by (induction s) auto

lemma trim_line_end_newline: "trim_line_end (l @ [newline]) = trim_line_end l"
  by (simp add: trim_line_end_def trim_end_chars_def)

lemma add_payload_Nil [simp]: "add_payload data [] = data"
  by (simp add: add_payload_def strip_prefix_str_def)

lemma dispatch_Nil [simp]: "dispatch_data f s [] = (Inr True, s)"
  by (simp add: dispatch_data_def)

text \<open>A last line that is empty but for its ending adds nothing.\<close>

lemma sse_text_last:
  assumes "newline \<notin> set t"
  shows "sse_text f t data s =
    (if trim_line_end t = []
     then (case dispatch_data f s data of
             (Inl err, s) \<Rightarrow> (Inl err, s)
           | (Inr go, s) \<Rightarrow> if go then sse_text f [] [] s else (Inr (), s))
     else sse_text f [] (add_payload data (trim_line_end t)) s)"
proof -
  have "trim_line_end [] = []" by (simp add: trim_line_end_def trim_end_chars_def)
  with assms show ?thesis
    by (simp add: sse_text.simps [of f t] sse_text.simps [of f "[]"] sse_end_def split: prod.splits sum.splits)
qed

lemma sse_text_line:
  assumes "newline \<notin> set a"
  shows "sse_text f (a @ newline # rest) data s =
    (if trim_line_end a = []
     then (case dispatch_data f s data of
             (Inl err, s) \<Rightarrow> (Inl err, s)
           | (Inr go, s) \<Rightarrow> if go then sse_text f rest [] s else (Inr (), s))
     else sse_text f rest (add_payload data (trim_line_end a)) s)"
proof -
  have "takeWhile (\<lambda>c. c \<noteq> newline) (a @ newline # rest) = a" by (rule takeWhile_line [OF assms])
  then show ?thesis by (simp add: sse_text.simps [of f "a @ newline # rest"] Let_def)
qed

lemma sse_loop_text:
  assumes "whole_characters r" "stream_end r = EndOfStream" "newline \<notin> set line"
  shows "sse_loop provider (\<lambda>_. None) f k r line data s = sse_text f (line @ concat (stretches r)) data s"
  using assms
proof (induction "stream_weight r" arbitrary: r k line data s rule: less_induct)
  case less
  have smaller: "read_line r line = (result, line', r') \<Longrightarrow> result \<noteq> LineRead 0 \<Longrightarrow> result \<noteq> LineBroken \<Longrightarrow>
      result \<noteq> LineInvalid \<Longrightarrow> stream_weight r' < stream_weight r" for result line' r'
    by (rule read_line_weight)
  show ?case
  proof (cases "stretches r")
    case Nil
    then have "read_line r line = (LineRead 0, line, r)"
      using less.prems(2) by (simp add: read_line_def valid_utf8_def)
    with Nil less.prems(3) show ?thesis
      by (simp add: sse_loop.simps [of _ _ _ k r] sse_text.simps [of f line] sse_end_def
          split: prod.splits sum.splits)
  next
    case (Cons a rest)
    then have valid: "valid_utf8 a" "list_all valid_utf8 rest" using less.prems(1) by (simp_all add: whole_characters_def)
    show ?thesis
    proof (cases "newline \<in> set a")
      case True
      define l where "l = takeWhile (\<lambda>c. c \<noteq> newline) a"
      define b where "b = drop (Suc (length l)) a"
      have a: "a = l @ newline # b" "newline \<notin> set l"
        using split_line [OF True] by (auto simp: l_def b_def dest: set_takeWhileD)
      have ok: "valid_utf8 (l @ [newline])" "valid_utf8 b"
        using valid_utf8_at_newline [of l b] valid(1) a by simp_all
      let ?r = "r\<lparr>stretches := b # rest\<rparr>"
      have "read_until_newline r = (l @ [newline], LineRead (Suc (length l)), ?r)"
        using Cons True by (simp add: Let_def l_def b_def)
      with ok have step: "read_line r line = (LineRead (Suc (length l)), line @ l @ [newline], ?r)"
        by (simp add: read_line_def)
      have next_ok: "whole_characters ?r" "stream_end ?r = EndOfStream" "concat (stretches ?r) = b @ concat rest"
        using ok valid less.prems(2) by (simp_all add: whole_characters_def)
      note IH = less.hyps [OF smaller [OF step] next_ok(1,2)]
      have trimmed: "trim_line_end (line @ l @ [newline]) = trim_line_end (line @ l)"
        using trim_line_end_newline [of "line @ l"] by simp
      have "newline \<notin> set (line @ l)" using less.prems(3) a(2) by simp
      from sse_text_line [OF this, of f "b @ concat rest" data s] IH [of "[]"] step next_ok(3) trimmed
      show ?thesis
        by (simp add: sse_loop.simps [of _ _ _ k r] Cons a(1) split: prod.splits sum.splits)
    next
      case False
      let ?r = "r\<lparr>stretches := rest\<rparr>"
      have next_ok: "whole_characters ?r" "stream_end ?r = EndOfStream" "newline \<notin> set (line @ a)"
        using valid less.prems(2,3) False by (simp_all add: whole_characters_def)
      show ?thesis
      proof (cases "rest = []")
        case False
        with Cons \<open>newline \<notin> set a\<close> valid have step: "read_line r line = (LineTimedOut, line @ a, ?r)"
          by (simp add: read_line_def)
        from less.hyps [OF smaller [OF step] next_ok] step Cons show ?thesis
          by (simp add: sse_loop.simps [of _ _ _ k r])
      next
        case True
        with Cons \<open>newline \<notin> set a\<close> valid less.prems(2)
        have step: "read_line r line = (LineRead (length a), line @ a, ?r)"
          by (simp add: read_line_def)
        show ?thesis
        proof (cases "a = []")
          case True
          with step next_ok(3) Cons \<open>rest = []\<close> show ?thesis
            by (simp add: sse_loop.simps [of _ _ _ k r] sse_text.simps [of f line] sse_end_def
                split: prod.splits sum.splits)
        next
          case False
          note IH = less.hyps [OF smaller [OF step] next_ok(1,2), of "[]"]
          from sse_text_last [OF next_ok(3), of f data s] IH step Cons False \<open>rest = []\<close> show ?thesis
            by (simp add: sse_loop.simps [of _ _ _ k r] split: prod.splits sum.splits)
        qed
      qed
    qed
  qed
qed

text \<open>C29: what a consumer of a stream sees does not depend on where reads time out, as long as no time-out
  falls inside a character: only the bytes count.\<close>

theorem delivery_is_independent_of_timeouts:
  assumes "whole_characters r" "whole_characters r'" "stream_end r = EndOfStream" "stream_end r' = EndOfStream"
    "concat (stretches r) = concat (stretches r')"
  shows "for_each_sse_data provider (\<lambda>_. None) r f s = for_each_sse_data provider (\<lambda>_. None) r' f s"
  using sse_loop_text [OF assms(1,3), of "[]" provider f 0 "[]" s]
    sse_loop_text [OF assms(2,4), of "[]" provider f 0 "[]" s] assms(5)
  by (simp add: for_each_sse_data_def)

text \<open>a time-out inside a character ends the stream with a transport error, although nothing is wrong with
  the connection: the first half of the character is thrown away, and the second half is no UTF-8.\<close>

theorem timeout_inside_character_ends_stream:
  assumes "stretches r = a # b # rest" "newline \<notin> set a" "\<not> valid_utf8 a" "newline \<in> set b"
    "\<not> valid_utf8 (takeWhile (\<lambda>c. c \<noteq> newline) b @ [newline])"
  shows "for_each_sse_data provider (\<lambda>_. None) r f s = (Inl (TransportFailed provider), s)"
proof -
  let ?r = "r\<lparr>stretches := b # rest\<rparr>"
  have "read_line r [] = (LineTimedOut, [], ?r)" using assms(1-3) by (simp add: read_line_def)
  moreover have "fst (read_line ?r []) = LineInvalid" using assms(4,5) by (simp add: read_line_def Let_def)
  then obtain line r1 where "read_line ?r [] = (LineInvalid, line, r1)" by (metis prod.collapse)
  ultimately show ?thesis
    by (simp add: for_each_sse_data_def sse_loop.simps [of _ _ _ _ r] sse_loop.simps [of _ _ _ _ ?r])
qed

text \<open>The stream \<open>data: <e with acute accent>\<close>, read with a time-out inside the letter, and before it.\<close>

definition torn_stream :: byte_stream where
  "torn_stream = \<lparr>stretches = [''data: '' @ [CHR 0xC3], [CHR 0xA9, newline, newline]], stream_end = EndOfStream\<rparr>"

definition calm_stream :: byte_stream where
  "calm_stream = \<lparr>stretches = [''data: '', [CHR 0xC3, CHR 0xA9, newline], [newline]], stream_end = EndOfStream\<rparr>"

definition gather :: "string list on_data" where
  "gather seen data = (Inr True, seen @ [data])"

theorem timeout_inside_character_ends_stream_witness:
  "for_each_sse_data ''anthropic'' (\<lambda>_. None) torn_stream gather [] = (Inl (TransportFailed ''anthropic''), [])"
proof (rule timeout_inside_character_ends_stream)
  show "stretches torn_stream = (''data: '' @ [CHR 0xC3]) # [CHR 0xA9, newline, newline] # []"
    by (simp add: torn_stream_def)
qed code_simp+

theorem delivery_is_independent_of_timeouts_witness:
  "for_each_sse_data ''anthropic'' (\<lambda>_. None) calm_stream gather [] = (Inr (), [[CHR 0xC3, CHR 0xA9]])"
proof -
  let ?once = "calm_stream\<lparr>stretches := [concat (stretches calm_stream)]\<rparr>"
  have "for_each_sse_data ''anthropic'' (\<lambda>_. None) calm_stream gather [] =
      for_each_sse_data ''anthropic'' (\<lambda>_. None) ?once gather []"
    by (rule delivery_is_independent_of_timeouts; code_simp)
  also have "\<dots> = (Inr (), [[CHR 0xC3, CHR 0xA9]])" by code_simp
  finally show ?thesis .
qed

subsection \<open>Retries\<close>

lemma retry_from_attempts:
  assumes "retry_from provider send n left = (result, made)" "n + left = max_attempts" "left \<noteq> 0"
  shows "made \<le> max_attempts \<and> n < made \<and> (\<forall>i. n \<le> i \<and> i + 1 < made \<longrightarrow> (\<exists>err. send i = Inl err \<and> is_transient err)) \<and>
    result = (case send (made - 1) of Inr r \<Rightarrow> Inr r | Inl err \<Rightarrow> Inl (map_ureq_error provider err)) \<and>
    (case send (made - 1) of Inl err \<Rightarrow> is_transient err \<longrightarrow> made = max_attempts | Inr _ \<Rightarrow> True)"
  using assms
proof (induction left arbitrary: n)
  case (Suc left)
  show ?case
  proof (cases "send n")
    case (Inl err)
    show ?thesis
    proof (cases "n + 1 < max_attempts \<and> is_transient err")
      case True
      with Inl Suc.prems(1) have "retry_from provider send (n + 1) left = (result, made)" by simp
      from Suc.IH [OF this] True Suc.prems(2) Inl show ?thesis
        by (auto simp: Suc_le_eq dest: le_neq_implies_less)
    next
      case False
      with Inl Suc.prems show ?thesis by auto
    qed
  next
    case (Inr x)
    with Suc.prems show ?thesis by auto
  qed
qed simp

text \<open>a request is made at most three times, again only after a transient failure, and its result is that
  of the last attempt; a transient failure is reported only after the third.\<close>

theorem retries_are_bounded:
  assumes "request_with_retry provider send = (result, made)"
  shows "1 \<le> made \<and> made \<le> 3 \<and>
    (\<forall>i. i + 1 < made \<longrightarrow> (\<exists>err. send i = Inl err \<and> is_transient err)) \<and>
    result = (case send (made - 1) of Inr r \<Rightarrow> Inr r | Inl err \<Rightarrow> Inl (map_ureq_error provider err)) \<and>
    (case send (made - 1) of Inl err \<Rightarrow> is_transient err \<longrightarrow> made = 3 | Inr _ \<Rightarrow> True)"
  using retry_from_attempts [of provider send 0 3 result made, unfolded max_attempts_def]
    assms [unfolded request_with_retry_def max_attempts_def]
  by simp

theorem retries_are_bounded_witness:
  "request_with_retry ''p'' (\<lambda>n. if n = 0 then Inl (HttpStatus 503) else Inr ''ok'') = (Inr ''ok'', 2) \<and> (2::nat) \<le> 3"
proof -
  have "request_with_retry ''p'' (\<lambda>n. if n = 0 then Inl (HttpStatus 503) else Inr ''ok'') = (Inr ''ok'', 2)"
    by code_simp
  from retries_are_bounded [OF this] this show ?thesis by simp
qed

end
