(* ===== verification/Model_Anthropic.thy ===== *)
theory Model_Anthropic
  imports Model_Types Model_Transport
begin

section \<open>harness-models: the Anthropic Messages protocol\<close>

text \<open>
  \<open>harness-models/src/anthropic.rs\<close>: a request becomes the body of the Messages API, a whole
  response is read from its JSON value, and a streamed one is put together from its events.
  Thinking blocks are signed and are echoed unchanged, so the native blocks of a turn with tool
  calls are kept and used again. Decoding JSON text is a parameter; a JSON object is the list of
  its entries in the order of the keys, as \<open>serde_json\<close> keeps them.
\<close>

subsection \<open>JSON values\<close>

definition json_text_at :: "string \<Rightarrow> json \<Rightarrow> string option" where
  "json_text_at k v = Option.bind (json_get k v) json_str"

definition json_u32_at :: "string \<Rightarrow> json \<Rightarrow> nat option" where
  "json_u32_at k v =
     Option.bind (Option.bind (json_get k v) json_u64) (\<lambda>n. if n \<le> u32_max then Some n else None)"

definition is_json_object :: "json \<Rightarrow> bool" where
  "is_json_object v \<longleftrightarrow> (case v of JObject _ \<Rightarrow> True | _ \<Rightarrow> False)"

definition json_set :: "string \<Rightarrow> json \<Rightarrow> json \<Rightarrow> json" where
  "json_set k x v = (case v of JObject kvs \<Rightarrow> JObject (tree_map_insert k x kvs) | _ \<Rightarrow> v)"

definition json_object :: "(string \<times> json) list \<Rightarrow> json" where
  "json_object kvs = foldl (\<lambda>v (k, x). json_set k x v) (JObject []) kvs"

definition json_optional :: "json option \<Rightarrow> json" where
  "json_optional x = (case x of None \<Rightarrow> JNull | Some v \<Rightarrow> v)"

abbreviation json_type :: "json \<Rightarrow> string option" where
  "json_type v \<equiv> json_text_at ''type'' v"

subsection \<open>Constants and errors\<close>

definition anthropic :: string where "anthropic = ''anthropic''"

definition anthropic_version :: string where "anthropic_version = ''2023-06-01''"

definition default_output_tokens :: nat where "default_output_tokens = 4096"

definition max_cached_tool_turns :: nat where "max_cached_tool_turns = 256"

definition invalid_response :: "string \<Rightarrow> provider_error" where
  "invalid_response reason = InvalidResponse anthropic reason"

definition status_of_error :: "(string \<times> nat) list" where
  "status_of_error =
     [(''authentication_error'', 401), (''permission_error'', 403), (''not_found_error'', 404),
      (''rate_limit_error'', 429), (''overloaded_error'', 529), (''timeout_error'', 504),
      (''api_error'', 500), (''invalid_request_error'', 400)]"

definition stream_error :: "json \<Rightarrow> provider_error" where
  "stream_error v =
     (case map_of status_of_error
        (case Option.bind (json_get ''error'' v) (json_text_at ''type'') of None \<Rightarrow> [] | Some t \<Rightarrow> t) of
        Some status \<Rightarrow> RequestFailed anthropic (Some status)
      | None \<Rightarrow> invalid_response ''provider reported a failed stream'')"

subsection \<open>What a model can do\<close>

datatype thinking_mode = ThinkingUnsupported | ThinkingAdaptive | ThinkingManual bool

definition starts_with_any :: "string \<Rightarrow> string list \<Rightarrow> bool" where
  "starts_with_any s ps \<longleftrightarrow> list_ex (starts_with s) ps"

definition adaptive_models :: "string list" where
  "adaptive_models =
     [''claude-opus-5'', ''claude-sonnet-5'', ''claude-fable-5'', ''claude-mythos-5'', ''claude-opus-4-8'',
      ''claude-opus-4-7'', ''claude-opus-4-6'', ''claude-sonnet-4-6'', ''claude-mythos-preview'']"

definition manual_models :: "string list" where
  "manual_models =
     [''claude-opus-4-5'', ''claude-sonnet-4-5'', ''claude-haiku-4-5'', ''claude-opus-4-'',
      ''claude-sonnet-4-'', ''claude-haiku-4-'', ''claude-3-7-sonnet'']"

definition thinking_mode_of :: "string \<Rightarrow> thinking_mode" where
  "thinking_mode_of m =
     (let m = to_ascii_lowercase m
      in if starts_with_any m adaptive_models then ThinkingAdaptive
         else if starts_with_any m manual_models then ThinkingManual (starts_with m ''claude-opus-4-5'')
         else ThinkingUnsupported)"

definition supports_xhigh :: "string \<Rightarrow> bool" where
  "supports_xhigh m \<longleftrightarrow> starts_with_any (to_ascii_lowercase m)
     [''claude-fable-5-1'', ''claude-mythos-5-1'', ''claude-fable-5'', ''claude-mythos-5'', ''claude-opus-5'',
      ''claude-opus-4-8'', ''claude-opus-4-7'', ''claude-sonnet-5'']"

definition legacy_models :: "string list" where
  "legacy_models =
     [''claude-3-opus'', ''claude-3-sonnet'', ''claude-3-haiku'', ''claude-3-5-sonnet'', ''claude-3-5-haiku'']"

definition catalog_capabilities :: "string \<Rightarrow> model_capabilities option" where
  "catalog_capabilities m =
     (let m = to_ascii_lowercase m; thinking = thinking_mode_of m in
      if \<not> starts_with m ''claude-''
         \<or> contains_any [''embedding'', ''moderation'', ''transcribe'', ''audio'', ''search''] m then None
      else if thinking = ThinkingUnsupported \<and> \<not> starts_with_any m legacy_models then None
      else Some (no_capabilities\<lparr>
        text_input := True,
        image_input := (\<not> starts_with m ''claude-2'' \<and> \<not> starts_with m ''claude-instant''),
        streaming := True, tool_calling := True, parallel_tool_calls := True,
        reasoning := (thinking \<noteq> ThinkingUnsupported),
        configurable_reasoning_effort := (thinking = ThinkingAdaptive \<or> thinking = ThinkingManual True),
        system_instructions := True, developer_instructions := True, prompt_caching := True\<rparr>))"

definition configured_capabilities :: "string \<Rightarrow> model_capabilities" where
  "configured_capabilities m =
     (case catalog_capabilities m of
        Some c \<Rightarrow> c
      | None \<Rightarrow> no_capabilities\<lparr>text_input := True, streaming := True, tool_calling := True,
          parallel_tool_calls := True, system_instructions := True, developer_instructions := True\<rparr>)"

subsection \<open>The body of a request\<close>

definition text_block :: "string \<Rightarrow> json" where
  "text_block t = json_object [(''type'', JString ''text''), (''text'', JString t)]"

fun user_content_block :: "content_block \<Rightarrow> json option" where
  "user_content_block (Text t) = Some (text_block t)"
| "user_content_block (Image media data) = Some (json_object
     [(''type'', JString ''image''),
      (''source'', json_object [(''type'', JString ''base64''), (''media_type'', JString media), (''data'', JString data)])])"
| "user_content_block (Reasoning _) = None"

fun assistant_content_block :: "content_block \<Rightarrow> json option" where
  "assistant_content_block (Text t) = Some (text_block t)"
| "assistant_content_block (Image _ _) = None"
| "assistant_content_block (Reasoning _) = None"

definition anthropic_tool :: "tool_definition \<Rightarrow> json" where
  "anthropic_tool d = json_object
     [(''name'', JString (definition_name d)), (''description'', JString (definition_description d)),
      (''input_schema'', definition_schema d)]"

definition anthropic_tool_use :: "tool_call \<Rightarrow> json" where
  "anthropic_tool_use c = json_object
     [(''type'', JString ''tool_use''), (''id'', JString (call_id c)), (''name'', JString (call_name c)),
      (''input'', arguments c)]"

fun block_words :: "content_block \<Rightarrow> string" where
  "block_words (Text t) = t"
| "block_words (Reasoning t) = t"
| "block_words (Image _ _) = []"

definition content_text :: "content_block list \<Rightarrow> string" where
  "content_text bs = concat (map block_words bs)"

text \<open>The tool calls and the text of native blocks; a call without its parts does not count.\<close>

definition native_call :: "json \<Rightarrow> tool_call option" where
  "native_call b =
     Option.bind (json_text_at ''id'' b) (\<lambda>i. Option.bind (json_text_at ''name'' b) (\<lambda>n.
     map_option (\<lambda>x. \<lparr>call_id = i, call_name = n, arguments = x\<rparr>) (json_get ''input'' b)))"

definition native_calls :: "json list \<Rightarrow> tool_call list" where
  "native_calls bs = List.map_filter native_call (filter (\<lambda>b. json_type b = Some ''tool_use'') bs)"

definition native_text :: "json list \<Rightarrow> string" where
  "native_text bs =
     concat (map (\<lambda>b. case json_text_at ''text'' b of None \<Rightarrow> [] | Some t \<Rightarrow> t)
       (filter (\<lambda>b. json_type b = Some ''text'') bs))"

definition cached_assistant_content :: "message \<Rightarrow> (string \<times> json list) list \<Rightarrow> json list option" where
  "cached_assistant_content m kept =
     (case List.map_filter (\<lambda>c. map_of kept (call_id c)) (tool_calls m) of
        [] \<Rightarrow> None
      | cached # _ \<Rightarrow>
          if native_calls cached = tool_calls m \<and> native_text cached = content_text (content m)
          then Some cached else None)"

definition assistant_blocks :: "message \<Rightarrow> (string \<times> json list) list \<Rightarrow> json list" where
  "assistant_blocks m kept =
     (case cached_assistant_content m kept of
        Some cached \<Rightarrow> cached
      | None \<Rightarrow> List.map_filter assistant_content_block (content m) @ map anthropic_tool_use (tool_calls m))"

text \<open>A message joins the last one of the same role.\<close>

definition append_message :: "string \<Rightarrow> json list \<Rightarrow> (string \<times> json list) list \<Rightarrow> (string \<times> json list) list" where
  "append_message r blocks ms =
     (if ms \<noteq> [] \<and> fst (last ms) = r then butlast ms @ [(r, snd (last ms) @ blocks)] else ms @ [(r, blocks)])"

type_synonym wire = "string list \<times> (string \<times> json list) list"

fun instruction_text :: "content_block list \<Rightarrow> provider_error + string list" where
  "instruction_text [] = Inr []"
| "instruction_text (Image _ _ # bs) = Inl (UnsupportedCapability ''images in system instructions'')"
| "instruction_text (Text t # bs) = map_sum id ((#) t) (instruction_text bs)"
| "instruction_text (Reasoning t # bs) = map_sum id ((#) t) (instruction_text bs)"

definition tool_result_block :: "string \<Rightarrow> message \<Rightarrow> json" where
  "tool_result_block i m =
     (let b = json_object [(''type'', JString ''tool_result''), (''tool_use_id'', JString i),
                (''content'', JString (content_text (content m)))]
      in if msg_is_error m then json_set ''is_error'' (JBool True) b else b)"

definition add_message :: "(string \<times> json list) list \<Rightarrow> wire \<Rightarrow> message \<Rightarrow> provider_error + wire" where
  "add_message kept w m =
     (case w of (system, ms) \<Rightarrow>
      (case role m of
         UserRole \<Rightarrow>
           if tool_calls m \<noteq> [] \<or> tool_call_id m \<noteq> None
           then Inl (invalid_response ''user messages cannot contain tool calls'')
           else
             let blocks = List.map_filter user_content_block (content m)
             in Inr (system, if blocks = [] then ms else append_message ''user'' blocks ms)
       | AssistantRole \<Rightarrow>
           if tool_call_id m \<noteq> None
           then Inl (invalid_response ''assistant message contained a tool result ID'')
           else
             let blocks = assistant_blocks m kept
             in Inr (system, if blocks = [] then ms else append_message ''assistant'' blocks ms)
       | ToolRole \<Rightarrow>
           if tool_calls m \<noteq> []
           then Inl (invalid_response ''tool result messages cannot contain tool calls'')
           else
             (case tool_call_id m of
                Some (ch # i) \<Rightarrow> Inr (system, append_message ''user'' [tool_result_block (ch # i) m] ms)
              | _ \<Rightarrow> Inl (invalid_response ''tool result was missing its call identifier''))
       | _ \<Rightarrow>
           if tool_calls m \<noteq> [] \<or> tool_call_id m \<noteq> None
           then Inl (invalid_response ''instruction messages cannot contain tool calls'')
           else map_sum id (\<lambda>ts. (system @ ts, ms)) (instruction_text (content m))))"

fun add_messages :: "(string \<times> json list) list \<Rightarrow> wire \<Rightarrow> message list \<Rightarrow> provider_error + wire" where
  "add_messages kept w [] = Inr w"
| "add_messages kept w (m # ms) = bind_result (add_message kept w m) (\<lambda>w. add_messages kept w ms)"

definition default_thinking_budget :: "nat \<Rightarrow> nat" where
  "default_thinking_budget max_tokens = min (max (max_tokens div 2) 1024) 4096"

definition map_effort :: "reasoning_effort \<Rightarrow> string \<Rightarrow> provider_error + string" where
  "map_effort e m =
     (let refused = Inl (UnsupportedCapability ''requested reasoning effort for this model'') in
      case e of
        EffortMinimal \<Rightarrow> Inr ''low''
      | EffortLow \<Rightarrow> Inr ''low''
      | EffortMedium \<Rightarrow> Inr ''medium''
      | EffortHigh \<Rightarrow> Inr ''high''
      | EffortXHigh \<Rightarrow> if supports_xhigh m then Inr ''xhigh'' else refused
      | EffortMax \<Rightarrow> if thinking_mode_of m = ThinkingAdaptive then Inr ''max'' else refused)"

definition thinking_display :: "reasoning_config \<Rightarrow> json" where
  "thinking_display k = JString (if include_summary k then ''summarized'' else ''omitted'')"

definition optional_effort :: "string \<Rightarrow> reasoning_effort option \<Rightarrow> provider_error + string option" where
  "optional_effort m e = (case e of None \<Rightarrow> Inr None | Some e \<Rightarrow> map_sum id Some (map_effort e m))"

definition anthropic_reasoning :: "string \<Rightarrow> nat \<Rightarrow> reasoning_config \<Rightarrow> provider_error + json \<times> string option" where
  "anthropic_reasoning m max_tokens k =
     (case thinking_mode_of m of
        ThinkingAdaptive \<Rightarrow>
          if budget_tokens k \<noteq> None
          then Inl (UnsupportedCapability ''fixed reasoning token budgets for this model'')
          else map_sum id (\<lambda>e. (json_object [(''type'', JString ''adaptive''), (''display'', thinking_display k)], e))
                 (optional_effort m (reasoning_level k))
      | ThinkingManual effort_supported \<Rightarrow>
          let budget = (case budget_tokens k of Some b \<Rightarrow> b | None \<Rightarrow> default_thinking_budget max_tokens) in
          if budget < 1024 \<or> max_tokens \<le> budget
          then Inl (ConfigurationInvalid
            ''Anthropic manual thinking budget must be at least 1024 and less than max_output_tokens'')
          else if reasoning_level k \<noteq> None \<and> \<not> effort_supported
          then Inl (UnsupportedCapability ''reasoning effort for this model'')
          else map_sum id (\<lambda>e. (json_object [(''type'', JString ''enabled''), (''budget_tokens'', json_nat budget),
                   (''display'', thinking_display k)], e))
                 (optional_effort m (reasoning_level k))
      | ThinkingUnsupported \<Rightarrow> Inl (UnsupportedCapability ''reasoning configuration for this model''))"

definition wire_message :: "string \<times> json list \<Rightarrow> json" where
  "wire_message m = json_object [(''role'', JString (fst m)), (''content'', JArray (snd m))]"

definition add_temperature :: "full_request \<Rightarrow> string \<Rightarrow> json \<Rightarrow> provider_error + json" where
  "add_temperature r m body =
     (case request_temperature r of
        None \<Rightarrow> Inr body
      | Some t \<Rightarrow>
          if request_reasoning r \<noteq> None
          then Inl (ConfigurationInvalid ''Anthropic thinking cannot be combined with temperature'')
          else if thinking_mode_of m = ThinkingAdaptive
          then (if t \<noteq> ''1.0'' then Inl (UnsupportedCapability ''temperature control for this model'') else Inr body)
          else Inr (json_set ''temperature'' (JNumber t) body))"

definition add_reasoning :: "full_request \<Rightarrow> string \<Rightarrow> nat \<Rightarrow> json \<Rightarrow> provider_error + json" where
  "add_reasoning r m max_tokens body =
     (case request_reasoning r of
        None \<Rightarrow> Inr body
      | Some k \<Rightarrow>
          bind_result (anthropic_reasoning m max_tokens k) (\<lambda>(thinking, effort).
            let body = json_set ''thinking'' thinking body
            in Inr (case effort of None \<Rightarrow> body
                    | Some e \<Rightarrow> json_set ''output_config'' (json_object [(''effort'', JString e)]) body)))"

definition request_body ::
  "full_request \<Rightarrow> string \<Rightarrow> bool \<Rightarrow> (string \<times> json list) list \<Rightarrow> provider_error + json" where
  "request_body r m streamed kept =
     (let max_tokens = (case request_max_tokens r of None \<Rightarrow> default_output_tokens | Some n \<Rightarrow> n) in
      if max_tokens = 0
      then Inl (ConfigurationInvalid ''max_output_tokens must be greater than zero'')
      else
        bind_result (add_messages kept ([], []) (request_messages r)) (\<lambda>(system, ms).
        if \<not> list_ex (\<lambda>m. fst m = ''user'') ms
        then Inl (invalid_response ''Messages API requests require a user message'')
        else
          let body = json_object [(''model'', JString m), (''max_tokens'', json_nat max_tokens),
                       (''messages'', JArray (map wire_message ms)), (''stream'', JBool streamed)];
              body = (if system = [] then body
                      else json_set ''system'' (JString (join [newline, newline] system)) body)
          in bind_result (add_temperature r m body) (\<lambda>body.
             let body = (if request_tools r = [] then body
                         else json_set ''tools'' (JArray (map anthropic_tool (request_tools r))) body)
             in add_reasoning r m max_tokens body)))"

subsection \<open>Whole responses\<close>

definition parse_tool_call :: "json \<Rightarrow> provider_error + tool_call" where
  "parse_tool_call b =
     (case json_text_at ''id'' b of
        Some (a # i) \<Rightarrow>
          (case json_text_at ''name'' b of
             Some (d # n) \<Rightarrow>
               (case json_get ''input'' b of
                  Some x \<Rightarrow>
                    if is_json_object x then Inr \<lparr>call_id = a # i, call_name = d # n, arguments = x\<rparr>
                    else Inl (invalid_response ''tool-use input was not a JSON object'')
                | None \<Rightarrow> Inl (invalid_response ''tool-use input was not a JSON object''))
           | _ \<Rightarrow> Inl (invalid_response ''tool-use block was missing its name''))
      | _ \<Rightarrow> Inl (invalid_response ''tool-use block was missing its identifier''))"

definition parse_usage :: "json \<Rightarrow> token_usage" where
  "parse_usage v =
     (let i = json_u32_at ''input_tokens'' v; out = json_u32_at ''output_tokens'' v
      in \<lparr>input_tokens = i, output_tokens = out,
          total_tokens = (case (i, out) of (Some a, Some b) \<Rightarrow> Some (sat_add32 a b) | _ \<Rightarrow> None),
          cache_read_tokens = json_u32_at ''cache_read_input_tokens'' v,
          cache_creation_tokens = json_u32_at ''cache_creation_input_tokens'' v\<rparr>)"

definition parse_finish_reason :: "string option \<Rightarrow> bool \<Rightarrow> finish_reason" where
  "parse_finish_reason reason has_calls =
     (case reason of
        None \<Rightarrow> if has_calls then FinishToolCalls else FinishStop
      | Some s \<Rightarrow>
          if s \<in> {''end_turn'', ''stop_sequence''} then FinishStop
          else if s \<in> {''max_tokens'', ''model_context_window_exceeded''} then FinishLength
          else if s = ''tool_use'' then FinishToolCalls
          else if s = ''refusal'' then FinishContentFilter
          else FinishOther s)"

text \<open>The blocks of a response: what is shown, and the calls.\<close>

fun parse_blocks :: "bool \<Rightarrow> json list \<Rightarrow> provider_error + content_block list \<times> tool_call list" where
  "parse_blocks shown [] = Inr ([], [])"
| "parse_blocks shown (b # bs) =
     (if json_type b = Some ''text''
      then map_sum id (map_prod (\<lambda>cs. (case json_text_at ''text'' b of None \<Rightarrow> [] | Some t \<Rightarrow> [Text t]) @ cs) id)
             (parse_blocks shown bs)
      else if json_type b = Some ''tool_use''
      then bind_result (parse_tool_call b) (\<lambda>c. map_sum id (map_prod id ((#) c)) (parse_blocks shown bs))
      else if json_type b = Some ''thinking'' \<and> shown
      then map_sum id (map_prod (\<lambda>cs. (case json_text_at ''thinking'' b of
                Some (ch # t) \<Rightarrow> [Reasoning (ch # t)] | _ \<Rightarrow> []) @ cs) id)
             (parse_blocks shown bs)
      else parse_blocks shown bs)"

definition parse_response :: "json \<Rightarrow> string \<Rightarrow> bool \<Rightarrow> provider_error + full_response \<times> json list" where
  "parse_response v selected shown =
     (if json_type v \<noteq> Some ''message''
      then Inl (invalid_response ''response was not a Messages API message'')
      else case json_get ''content'' v of
        Some (JArray raw) \<Rightarrow>
          bind_result (parse_blocks shown raw) (\<lambda>(blocks, cs).
          case json_text_at ''id'' v of
            Some (a # i) \<Rightarrow>
              Inr (\<lparr>fr_id = a # i,
                    fr_model = (case json_text_at ''model'' v of None \<Rightarrow> selected | Some m \<Rightarrow> m),
                    fr_content = blocks, fr_calls = cs,
                    fr_finish = parse_finish_reason (json_text_at ''stop_reason'' v) (cs \<noteq> []),
                    fr_usage = (case json_get ''usage'' v of
                       None \<Rightarrow> None | Some JNull \<Rightarrow> None | Some u \<Rightarrow> Some (parse_usage u))\<rparr>, raw)
          | _ \<Rightarrow> Inl (invalid_response ''message ID was missing''))
      | _ \<Rightarrow> Inl (invalid_response ''message content was missing''))"

section \<open>harness-models: streamed responses of the Messages protocol\<close>

text \<open>
  The second half of \<open>harness-models/src/anthropic.rs\<close>: \<open>StreamState\<close>, which turns the events of
  a streamed message into the normalised ones and puts the message together, and the transport
  that sends a request, reads the answer whole or as a stream, and remembers the native blocks
  of turns with tool calls. A step either goes on with a value or ends with an error; the
  events it has emitted stay. HTTP is a parameter: the answer to each attempt.
\<close>

subsection \<open>Steps that deliver events\<close>

definition yield_value :: "'a \<Rightarrow> 'a emitting" where
  "yield_value x received = (Inr x, received)"

definition yield_error :: "provider_error \<Rightarrow> 'a emitting" where
  "yield_error err received = (Inl err, received)"

definition then_step :: "'a emitting \<Rightarrow> ('a \<Rightarrow> 'b emitting) \<Rightarrow> 'b emitting" where
  "then_step m f received =
     (case m received of (Inl err, received) \<Rightarrow> (Inl err, received) | (Inr x, received) \<Rightarrow> f x received)"

definition required :: "string \<Rightarrow> 'a option \<Rightarrow> 'a emitting" where
  "required reason x = (case x of None \<Rightarrow> yield_error (invalid_response reason) | Some y \<Rightarrow> yield_value y)"

definition checked_step :: "provider_error + 'a \<Rightarrow> 'a emitting" where
  "checked_step r received = (r, received)"

definition deliver_if :: "bool \<Rightarrow> sink \<Rightarrow> stream_event \<Rightarrow> unit emitting" where
  "deliver_if b sink e = (if b then deliver sink e else yield_value ())"

subsection \<open>The state of a stream\<close>

record stream_block =
  raw_block :: json
  partial_json :: string
  tool_index :: "nat option"

record anthropic_stream =
  as_model :: string
  as_shown :: bool
  as_started :: bool
  as_stopped :: bool
  as_id :: "string option"
  as_response_model :: "string option"
  as_finish :: "string option"
  as_usage :: "token_usage option"
  as_blocks :: "(nat \<times> stream_block) list"
  as_next_tool :: nat
  as_parsed :: "(full_response \<times> json list) option"

definition stream_state_new :: "string \<Rightarrow> bool \<Rightarrow> anthropic_stream" where
  "stream_state_new m shown =
     \<lparr>as_model = m, as_shown = shown, as_started = False, as_stopped = False, as_id = None,
      as_response_model = None, as_finish = None, as_usage = None, as_blocks = [], as_next_tool = 0,
      as_parsed = None\<rparr>"

definition require_started :: "anthropic_stream \<Rightarrow> unit emitting" where
  "require_started st =
     (if as_started st then yield_value ()
      else yield_error (invalid_response ''stream content arrived before message_start''))"

definition append_json_string :: "string \<Rightarrow> string \<Rightarrow> json \<Rightarrow> json" where
  "append_json_string key addition v =
     json_set key (JString ((case json_text_at key v of None \<Rightarrow> [] | Some s \<Rightarrow> s) @ addition)) v"

definition stream_index :: "json \<Rightarrow> nat emitting" where
  "stream_index event = required ''stream event was missing its block index'' (json_u32_at ''index'' event)"

definition or_old :: "nat option \<Rightarrow> nat option \<Rightarrow> nat option" where
  "or_old new old = (case new of None \<Rightarrow> old | Some n \<Rightarrow> Some n)"

definition merge_usage :: "token_usage \<Rightarrow> json \<Rightarrow> token_usage" where
  "merge_usage u v =
     (let i = or_old (json_u32_at ''input_tokens'' v) (input_tokens u);
          out = or_old (json_u32_at ''output_tokens'' v) (output_tokens u)
      in \<lparr>input_tokens = i, output_tokens = out,
          total_tokens = (case (i, out) of (Some a, Some b) \<Rightarrow> Some (sat_add32 a b) | _ \<Rightarrow> None),
          cache_read_tokens = or_old (json_u32_at ''cache_read_input_tokens'' v) (cache_read_tokens u),
          cache_creation_tokens = or_old (json_u32_at ''cache_creation_input_tokens'' v) (cache_creation_tokens u)\<rparr>)"

text \<open>How \<open>serde\<close> writes a \<open>Usage\<close>: under the names of its fields.\<close>

definition json_count :: "nat option \<Rightarrow> json" where
  "json_count n = json_optional (map_option json_nat n)"

definition usage_json :: "token_usage \<Rightarrow> json" where
  "usage_json u = json_object
     [(''input_tokens'', json_count (input_tokens u)), (''output_tokens'', json_count (output_tokens u)),
      (''total_tokens'', json_count (total_tokens u)), (''cache_read_tokens'', json_count (cache_read_tokens u)),
      (''cache_creation_tokens'', json_count (cache_creation_tokens u))]"

subsection \<open>Its events\<close>

definition message_started :: "sink \<Rightarrow> anthropic_stream \<Rightarrow> json \<Rightarrow> anthropic_stream emitting" where
  "message_started sink st event =
     then_step (required ''message_start was missing its message'' (json_get ''message'' event)) (\<lambda>msg.
     then_step (required ''message_start was missing its ID''
         (case json_text_at ''id'' msg of Some (a # i) \<Rightarrow> Some (a # i) | _ \<Rightarrow> None)) (\<lambda>i.
     let st = st\<lparr>as_id := Some i, as_response_model := json_text_at ''model'' msg,
                 as_usage := map_option parse_usage (json_get ''usage'' msg), as_started := True\<rparr> in
     then_step (deliver sink (ResponseStarted (Some i)
         (case as_response_model st of None \<Rightarrow> as_model st | Some m \<Rightarrow> m))) (\<lambda>_.
     then_step (case as_usage st of None \<Rightarrow> yield_value () | Some u \<Rightarrow> deliver sink (UsageUpdated u)) (\<lambda>_.
     yield_value st))))"

definition block_started :: "sink \<Rightarrow> anthropic_stream \<Rightarrow> json \<Rightarrow> anthropic_stream emitting" where
  "block_started sink st event =
     then_step (require_started st) (\<lambda>_.
     then_step (stream_index event) (\<lambda>index.
     then_step (required ''content block was missing''
         (case json_get ''content_block'' event of
            Some b \<Rightarrow> if is_json_object b then Some b else None | None \<Rightarrow> None)) (\<lambda>raw.
     then_step
       (if json_type raw = Some ''tool_use''
        then then_step (checked_step (parse_tool_call raw)) (\<lambda>call.
             then_step (deliver sink (ToolCallStarted (as_next_tool st) (Some (call_id call)) (Some (call_name call)))) (\<lambda>_.
             yield_value (Some (as_next_tool st), sat_add32 (as_next_tool st) 1)))
        else yield_value (None, as_next_tool st)) (\<lambda>(tool, next_tool).
     yield_value (st\<lparr>as_next_tool := next_tool,
       as_blocks := tree_map_insert index \<lparr>raw_block = raw, partial_json = [], tool_index = tool\<rparr> (as_blocks st)\<rparr>)))))"

definition apply_delta :: "sink \<Rightarrow> bool \<Rightarrow> stream_block \<Rightarrow> json \<Rightarrow> stream_block emitting" where
  "apply_delta sink shown b delta =
     (if json_type delta = Some ''text_delta''
      then (case json_text_at ''text'' delta of
              None \<Rightarrow> yield_value b
            | Some t \<Rightarrow>
                then_step (deliver_if (t \<noteq> []) sink (TextDelta t)) (\<lambda>_.
                yield_value (b\<lparr>raw_block := append_json_string ''text'' t (raw_block b)\<rparr>)))
      else if json_type delta = Some ''input_json_delta''
      then
        then_step (required ''tool argument delta was missing'' (json_text_at ''partial_json'' delta)) (\<lambda>t.
        then_step
          (if t = [] then yield_value ()
           else then_step (required ''tool argument delta referenced a non-tool block'' (tool_index b)) (\<lambda>i.
                deliver sink (ToolCallArgumentsDelta i t))) (\<lambda>_.
        yield_value (b\<lparr>partial_json := partial_json b @ t\<rparr>)))
      else if json_type delta = Some ''thinking_delta''
      then (case json_text_at ''thinking'' delta of
              None \<Rightarrow> yield_value b
            | Some t \<Rightarrow>
                then_step (deliver_if (shown \<and> t \<noteq> []) sink (ReasoningDelta t)) (\<lambda>_.
                yield_value (b\<lparr>raw_block := append_json_string ''thinking'' t (raw_block b)\<rparr>)))
      else if json_type delta = Some ''signature_delta''
      then (case json_text_at ''signature'' delta of
              None \<Rightarrow> yield_value b
            | Some t \<Rightarrow> yield_value (b\<lparr>raw_block := append_json_string ''signature'' t (raw_block b)\<rparr>))
      else yield_value b)"

definition block_delta :: "sink \<Rightarrow> anthropic_stream \<Rightarrow> json \<Rightarrow> anthropic_stream emitting" where
  "block_delta sink st event =
     then_step (stream_index event) (\<lambda>index.
     then_step (required ''content delta referenced an unknown block'' (map_of (as_blocks st) index)) (\<lambda>b.
     then_step (required ''content delta was missing'' (json_get ''delta'' event)) (\<lambda>delta.
     then_step (apply_delta sink (as_shown st) b delta) (\<lambda>b.
     yield_value (st\<lparr>as_blocks := tree_map_insert index b (as_blocks st)\<rparr>)))))"

text \<open>The input of a tool call is what its deltas spell, or what the block came with.\<close>

definition block_input :: "(string \<Rightarrow> json option) \<Rightarrow> stream_block \<Rightarrow> json emitting" where
  "block_input decode_json b =
     then_step
       (if partial_json b = []
        then yield_value (case json_get ''input'' (raw_block b) of None \<Rightarrow> JObject [] | Some x \<Rightarrow> x)
        else required ''streamed tool input was not valid JSON'' (decode_json (partial_json b))) (\<lambda>x.
     if is_json_object x then yield_value x
     else yield_error (invalid_response ''streamed tool input was not a JSON object''))"

definition block_stopped ::
  "(string \<Rightarrow> json option) \<Rightarrow> sink \<Rightarrow> anthropic_stream \<Rightarrow> json \<Rightarrow> anthropic_stream emitting" where
  "block_stopped decode_json sink st event =
     then_step (stream_index event) (\<lambda>index.
     then_step (required ''content_block_stop referenced an unknown block'' (map_of (as_blocks st) index)) (\<lambda>b.
     if json_type (raw_block b) \<noteq> Some ''tool_use'' then yield_value st
     else
       then_step (block_input decode_json b) (\<lambda>x.
       let b = b\<lparr>raw_block := json_set ''input'' x (raw_block b)\<rparr> in
       then_step (checked_step (parse_tool_call (raw_block b))) (\<lambda>call.
       then_step (required ''tool-use block had no normalized index'' (tool_index b)) (\<lambda>i.
       then_step (deliver sink (ToolCallCompleted i call)) (\<lambda>_.
       yield_value (st\<lparr>as_blocks := tree_map_insert index b (as_blocks st)\<rparr>)))))))"

definition message_changed :: "sink \<Rightarrow> anthropic_stream \<Rightarrow> json \<Rightarrow> anthropic_stream emitting" where
  "message_changed sink st event =
     then_step (require_started st) (\<lambda>_.
     let st = (case Option.bind (json_get ''delta'' event) (json_text_at ''stop_reason'') of
                 None \<Rightarrow> st | Some reason \<Rightarrow> st\<lparr>as_finish := Some reason\<rparr>)
     in case json_get ''usage'' event of
          None \<Rightarrow> yield_value st
        | Some v \<Rightarrow>
            let u = merge_usage (case as_usage st of None \<Rightarrow> no_usage | Some u \<Rightarrow> u) v
            in then_step (deliver sink (UsageUpdated u)) (\<lambda>_. yield_value (st\<lparr>as_usage := Some u\<rparr>)))"

text \<open>The message as the non-streaming API would have sent it.\<close>

definition assembled_message :: "anthropic_stream \<Rightarrow> json" where
  "assembled_message st =
     json_object
       [(''type'', JString ''message''), (''id'', json_optional (map_option JString (as_id st))),
        (''model'', JString (case as_response_model st of None \<Rightarrow> as_model st | Some m \<Rightarrow> m)),
        (''content'', JArray (map (\<lambda>(_, b). raw_block b) (as_blocks st))),
        (''stop_reason'', json_optional (map_option JString (as_finish st))),
        (''usage'', json_optional (map_option usage_json (as_usage st)))]"

definition message_stopped :: "sink \<Rightarrow> anthropic_stream \<Rightarrow> anthropic_stream emitting" where
  "message_stopped sink st =
     then_step (require_started st) (\<lambda>_.
     then_step (checked_step (parse_response (assembled_message st) (as_model st) (as_shown st))) (\<lambda>parsed.
     then_step (case fr_usage (fst parsed) of None \<Rightarrow> yield_value () | Some u \<Rightarrow> deliver sink (UsageUpdated u)) (\<lambda>_.
     then_step (deliver sink (ResponseCompleted (fr_finish (fst parsed)))) (\<lambda>_.
     yield_value (st\<lparr>as_parsed := Some parsed, as_stopped := True\<rparr>)))))"

text \<open>One event; the flag says whether to read on.\<close>

definition handle_event ::
  "(string \<Rightarrow> json option) \<Rightarrow> sink \<Rightarrow> anthropic_stream \<Rightarrow> json \<Rightarrow> (bool \<times> anthropic_stream) emitting" where
  "handle_event decode_json sink st event =
     (let go = (\<lambda>m. then_step m (\<lambda>st. yield_value (True, st))); kind = json_type event in
      if kind = Some ''message_start'' then go (message_started sink st event)
      else if kind = Some ''content_block_start'' then go (block_started sink st event)
      else if kind = Some ''content_block_delta'' then go (block_delta sink st event)
      else if kind = Some ''content_block_stop'' then go (block_stopped decode_json sink st event)
      else if kind = Some ''message_delta'' then go (message_changed sink st event)
      else if kind = Some ''message_stop''
      then then_step (message_stopped sink st) (\<lambda>st. yield_value (False, st))
      else if kind = Some ''error'' then yield_error (stream_error event)
      else yield_value (True, st))"

definition handle_data ::
  "(string \<Rightarrow> json option) \<Rightarrow> sink \<Rightarrow> (anthropic_stream \<times> stream_event list) on_data" where
  "handle_data decode_json sink s data =
     (case s of (st, received) \<Rightarrow>
      (case decode_json data of
         None \<Rightarrow> (Inl (invalid_response ''stream event was not valid JSON''), s)
       | Some event \<Rightarrow>
           (case handle_event decode_json sink st event received of
              (Inl err, received) \<Rightarrow> (Inl err, (st, received))
            | (Inr (go, st), received) \<Rightarrow> (Inr go, (st, received)))))"

subsection \<open>The transport\<close>

record anthropic_transport =
  at_base_url :: string
  at_key_env :: string
  at_key :: "string option"
  at_turns :: "(string \<times> json list) list"

definition transport_new :: "string \<Rightarrow> string \<Rightarrow> string option \<Rightarrow> anthropic_transport" where
  "transport_new url key_env key =
     \<lparr>at_base_url = trim_end_chars [slash] url, at_key_env = key_env,
      at_key = (case key of None \<Rightarrow> None | Some k \<Rightarrow> if trim k = [] then None else Some k), at_turns = []\<rparr>"

definition transport_from_env :: "(string \<Rightarrow> string option) \<Rightarrow> string \<Rightarrow> string \<Rightarrow> anthropic_transport" where
  "transport_from_env env url key_env = transport_new url key_env (env key_env)"

definition transport_with_api_key :: "string \<Rightarrow> string \<Rightarrow> string \<Rightarrow> anthropic_transport" where
  "transport_with_api_key url key_env key = transport_new url key_env (Some key)"

definition endpoint :: "anthropic_transport \<Rightarrow> string \<Rightarrow> string" where
  "endpoint tr resource = at_base_url tr @ ''/'' @ resource"

definition auth_headers :: "anthropic_transport \<Rightarrow> provider_error + (string \<times> string) list" where
  "auth_headers tr =
     (case at_key tr of
        None \<Rightarrow> Inl (MissingApiKey anthropic (at_key_env tr))
      | Some key \<Rightarrow> Inr [(''x-api-key'', key), (''anthropic-version'', anthropic_version),
                         (''content-type'', ''application/json'')])"

text \<open>
  What a hash map holds has no order: \<open>any_key\<close> is the key its iterator yields first.
\<close>

fun forget_turns :: "((string \<times> json list) list \<Rightarrow> string) \<Rightarrow> nat \<Rightarrow> (string \<times> json list) list \<Rightarrow> (string \<times> json list) list"
where
  "forget_turns any_key 0 kept = kept"
| "forget_turns any_key (Suc n) kept = forget_turns any_key n (AList.delete (any_key kept) kept)"

definition remember_tool_turn ::
  "((string \<times> json list) list \<Rightarrow> string) \<Rightarrow> full_response \<times> json list \<Rightarrow> anthropic_transport \<Rightarrow> anthropic_transport"
where
  "remember_tool_turn any_key parsed tr =
     (if fr_calls (fst parsed) = [] then tr
      else
        let kept = foldl (\<lambda>kept c. AList.update (call_id c) (snd parsed) kept) (at_turns tr) (fr_calls (fst parsed))
        in tr\<lparr>at_turns := forget_turns any_key (length kept - max_cached_tool_turns) kept\<rparr>)"

text \<open>An answer, whole or as a stream; \<open>post\<close> gives it for an endpoint, headers, a body and an attempt.\<close>

record http_reply =
  reply_json :: "json option"
  reply_stream :: byte_stream

record model_http =
  post :: "string \<Rightarrow> (string \<times> string) list \<Rightarrow> json \<Rightarrow> nat \<Rightarrow> ureq_error + http_reply"
  decode_json :: "string \<Rightarrow> json option"
  any_key :: "(string \<times> json list) list \<Rightarrow> string"
  stopped_before_read :: "nat \<Rightarrow> provider_error option"
  cancelled_first :: bool
  cancelled_last :: bool

definition reasoning_shown :: "full_request \<Rightarrow> bool" where
  "reasoning_shown r = (case request_reasoning r of None \<Rightarrow> False | Some k \<Rightarrow> include_summary k)"

definition send_request ::
  "model_http \<Rightarrow> anthropic_transport \<Rightarrow> full_request \<Rightarrow> string \<Rightarrow> bool \<Rightarrow> provider_error + http_reply" where
  "send_request h tr r m streamed =
     bind_result (auth_headers tr) (\<lambda>headers.
     bind_result (request_body r m streamed (at_turns tr)) (\<lambda>body.
     fst (request_with_retry anthropic (post h (endpoint tr ''messages'') headers body))))"

definition complete_request ::
  "model_http \<Rightarrow> anthropic_transport \<Rightarrow> full_request \<Rightarrow> string
     \<Rightarrow> (provider_error + full_response) \<times> anthropic_transport" where
  "complete_request h tr r m =
     (case bind_result (send_request h tr r m False) (\<lambda>reply.
             case reply_json reply of
               None \<Rightarrow> Inl (invalid_response ''response body was not valid JSON'')
             | Some v \<Rightarrow>
                 if json_type v = Some ''error'' then Inl (stream_error v)
                 else parse_response v m (reasoning_shown r)) of
        Inl err \<Rightarrow> (Inl err, tr)
      | Inr parsed \<Rightarrow> (Inr (fst parsed), remember_tool_turn (any_key h) parsed tr))"

definition stream_request ::
  "model_http \<Rightarrow> anthropic_transport \<Rightarrow> full_request \<Rightarrow> string \<Rightarrow> sink \<Rightarrow> stream_event list
     \<Rightarrow> (provider_error + full_response) \<times> anthropic_transport \<times> stream_event list" where
  "stream_request h tr r m sink received =
     (if cancelled_first h then (Inl RequestCancelled, tr, received)
      else case send_request h tr r m True of
        Inl err \<Rightarrow> (Inl err, tr, received)
      | Inr reply \<Rightarrow>
          (case for_each_sse_data anthropic (stopped_before_read h) (reply_stream reply)
                  (handle_data (decode_json h) sink) (stream_state_new m (reasoning_shown r), received) of
             (Inl err, (st, received)) \<Rightarrow> (Inl err, tr, received)
           | (Inr _, (st, received)) \<Rightarrow>
               if cancelled_last h then (Inl RequestCancelled, tr, received)
               else case as_parsed st of
                 None \<Rightarrow> (Inl (invalid_response ''stream ended before message_stop''), tr, received)
               | Some parsed \<Rightarrow> (Inr (fst parsed), remember_tool_turn (any_key h) parsed tr, received)))"

end
