(* ===== verification/Model_Request_Properties.thy ===== *)
theory Model_Request_Properties
  imports Model_Anthropic Tool_Diff
begin

section \<open>harness-models: laws of JSON objects and of steps\<close>

text \<open>
  What the properties of the provider adapters share: an object is determined by what its keys
  hold, numbers are read as they were written, and a step against a consumer that never stops
  it goes on with its value.
\<close>

subsection \<open>Objects\<close>

lemma foldl_json_set:
  "foldl (\<lambda>v (k, x). json_set k x v) (JObject kvs) xs =
     JObject (foldl (\<lambda>m (k, x). tree_map_insert k x m) kvs xs)"
  by (induction xs arbitrary: kvs) (auto simp: json_set_def)

lemma fold_tree_map_insert:
  assumes "sorted_wrt (<) (map fst kvs)"
  shows "sorted_wrt (<) (map fst (foldl (\<lambda>m (k, x). tree_map_insert k x m) kvs xs)) \<and>
    map_of (foldl (\<lambda>m (k, x). tree_map_insert k x m) kvs xs) y =
      (case map_of (rev xs) y of None \<Rightarrow> map_of kvs y | Some v \<Rightarrow> Some v)"
  using assms
proof (induction xs arbitrary: kvs)
  case (Cons p xs)
  obtain k x where p: "p = (k, x)" by (cases p)
  from Cons.IH [OF sorted_tree_map_insert [OF Cons.prems], of k x] show ?case
    by (simp add: p map_of_tree_map_insert [OF Cons.prems] map_add_def split: option.splits)
qed simp

lemma sorted_entries_determined:
  assumes "sorted_wrt (<) (map fst xs)" "sorted_wrt (<) (map fst ys)" "map_of xs = map_of (ys :: ('k::linorder \<times> 'v) list)"
  shows "xs = ys"
proof -
  have "distinct (map fst xs)" "distinct (map fst ys)"
    by (rule sorted_keys_distinct [OF assms(1)], rule sorted_keys_distinct [OF assms(2)])
  moreover from this have "set xs = set ys"
    by (simp only: set_map_of_compr assms(3))
  moreover have "sorted (map fst xs)" "sorted (map fst ys)"
    using assms(1,2) by (simp_all only: strict_sorted_iff)
  ultimately show ?thesis
    by (intro map_sorted_distinct_set_unique [of fst]) (simp_all add: distinct_map)
qed

lemma json_object_entries:
  obtains kvs where "json_object xs = JObject kvs" "sorted_wrt (<) (map fst kvs)" "map_of kvs = map_of (rev xs)"
proof (rule that)
  show "json_object xs = JObject (foldl (\<lambda>m (k, x). tree_map_insert k x m) [] xs)"
    by (simp only: json_object_def foldl_json_set)
  show "sorted_wrt (<) (map fst (foldl (\<lambda>m (k, x). tree_map_insert k x m) [] xs))"
    using fold_tree_map_insert [of "[]" xs] by simp
  show "map_of (foldl (\<lambda>m (k, x). tree_map_insert k x m) [] xs) = map_of (rev xs)"
    by (rule ext) (use fold_tree_map_insert [of "[]" xs] in \<open>simp split: option.splits\<close>)
qed

lemma json_get_object [simp]: "json_get k (json_object xs) = map_of (rev xs) k"
  by (rule json_object_entries [of xs]) (simp add: json_get_def)

lemma is_json_object_object [simp]: "is_json_object (json_object xs)"
  by (rule json_object_entries [of xs]) (simp add: is_json_object_def)

lemma json_set_object [simp]: "json_set k x (json_object xs) = json_object (xs @ [(k, x)])"
  by (simp add: json_object_def)

lemma json_object_cong: "map_of (rev xs) = map_of (rev ys) \<Longrightarrow> json_object xs = json_object ys"
  by (rule json_object_entries [of xs], rule json_object_entries [of ys])
    (simp add: sorted_entries_determined)

lemma json_set_kind [simp]: "is_json_object (json_set k x v) = is_json_object v"
  by (auto simp: is_json_object_def json_set_def split: json.splits)

lemma map_of_tree_map_insert_other: "x \<noteq> k \<Longrightarrow> map_of (tree_map_insert k v xs) x = map_of xs x"
  by (induction k v xs rule: tree_map_insert.induct) auto

lemma json_get_set_other: "k \<noteq> k' \<Longrightarrow> json_get k (json_set k' x v) = json_get k v"
  by (simp add: json_get_def json_set_def map_of_tree_map_insert_other split: json.splits)

subsection \<open>Members\<close>

lemma digits_value_read: "digits_value s = read_nat s 0"
proof -
  have "foldl (\<lambda>n c. 10 * n + (byte_of c - 48)) n s = read_nat s n" for n
    by (induction s arbitrary: n) auto
  then show ?thesis by (simp add: digits_value_def)
qed

lemma parse_show_nat:
  assumes "n \<le> bound"
  shows "parse_unsigned bound (show_nat n) = Some n"
proof -
  have digits: "list_all is_digit (show_nat n)"
    using show_nat_digits by (fastforce simp: list_all_iff is_digit_def)
  obtain c cs where s: "show_nat n = c # cs"
    by (induction n rule: show_nat_induct) (auto simp: show_nat_small show_nat_large)
  have "c \<noteq> CHR ''+''" using show_nat_digits [of c n] s by (auto simp: byte_of_def)
  with s have "(case show_nat n of c # cs \<Rightarrow> if c = CHR ''+'' then cs else show_nat n | [] \<Rightarrow> []) = show_nat n"
    "show_nat n \<noteq> []" by simp_all
  with digits assms show ?thesis
    by (simp add: parse_unsigned_def digits_value_read read_show_nat)
qed

lemma json_u32_nat [simp]: "json_get k v = Some (json_nat n) \<Longrightarrow> n \<le> u32_max \<Longrightarrow> json_u32_at k v = Some n"
  by (simp add: json_u32_at_def json_u64_def parse_show_nat u32_max_def u64_max_def)

lemma json_u32_other [simp]:
  "json_get k v = None \<Longrightarrow> json_u32_at k v = None"
  "json_get k v = Some JNull \<Longrightarrow> json_u32_at k v = None"
  by (simp_all add: json_u32_at_def json_u64_def)

lemma json_text_at_string [simp]:
  "json_get k v = Some (JString s) \<Longrightarrow> json_text_at k v = Some s"
  "json_get k v = None \<Longrightarrow> json_text_at k v = None"
  "json_get k v = Some JNull \<Longrightarrow> json_text_at k v = None"
  by (simp_all add: json_text_at_def json_str_def)

lemma map_sum_Inr_iff: "map_sum f g r = Inr y \<longleftrightarrow> (\<exists>x. r = Inr x \<and> y = g x)"
  by (cases r) auto

subsection \<open>Steps against a willing consumer\<close>

definition willing :: sink where
  "willing received = None"

lemma emit_willing [simp]: "deliver willing e received = (Inr (), received @ [e])"
  by (simp add: deliver_def willing_def)

lemma emit_all_willing [simp]: "deliver_all willing es received = (Inr (), received @ es)"
  by (induction es arbitrary: received) auto

lemma yield_simps [simp]:
  "yield_value x received = (Inr x, received)"
  "yield_error err received = (Inl err, received)"
  "checked_step r received = (r, received)"
  by (simp_all add: yield_value_def yield_error_def checked_step_def)

lemma then_step_simps:
  "m received = (Inr x, received') \<Longrightarrow> then_step m f received = f x received'"
  "m received = (Inl err, received') \<Longrightarrow> then_step m f received = (Inl err, received')"
  by (simp_all add: then_step_def)

lemma then_yield [simp]: "then_step (yield_value x) f = f x"
  by (rule ext) (simp add: then_step_def)

lemma then_error [simp]: "then_step (yield_error err) f = yield_error err"
  by (rule ext) (simp add: then_step_def)

lemma then_then [simp]: "then_step (then_step m g) f = then_step m (\<lambda>x. then_step (g x) f)"
  by (rule ext) (simp add: then_step_def split: sum.splits prod.splits)

lemma then_checked [simp]: "then_step (checked_step (Inr x)) f = f x"
  by (rule ext) (simp add: then_step_def)

lemma then_emit [simp]: "then_step (deliver willing e) f received = f () (received @ [e])"
  by (simp add: then_step_def)

lemma then_written [simp]: "then_step (\<lambda>a. (Inr x, g a)) f received = f x (g received)"
  by (simp add: then_step_def)

lemma required_simps [simp]:
  "required reason (Some x) = yield_value x"
  "required reason None = yield_error (invalid_response reason)"
  by (simp_all add: required_def)

text \<open>What a step that succeeded went through.\<close>

lemma then_step_Inr:
  assumes "then_step m f received = (Inr y, received'')"
  obtains x received' where "m received = (Inr x, received')" "f x received' = (Inr y, received'')"
  using assms by (cases "m received"; cases "fst (m received)") (auto simp: then_step_def)

lemma required_Inr: "required reason found received = (Inr x, received') \<longleftrightarrow> found = Some x \<and> received' = received"
  by (cases found) auto

lemma emit_Inr: "deliver sink e received = (Inr x, received') \<longleftrightarrow> sink (received @ [e]) = None \<and> received' = received @ [e]"
  by (auto simp: deliver_def Let_def split: option.splits)

lemma emit_if_Inr: "deliver_if b sink e received = (Inr x, received') \<longleftrightarrow>
    (if b then deliver sink e received = (Inr x, received') else received' = received)"
  by (auto simp: deliver_if_def)

section \<open>harness-models: properties of requests\<close>

text \<open>
  What a provider is sent: nothing when the model lacks a capability the request needs, and the
  whole history otherwise, in the alternating messages the Messages API asks for. A response
  that is not streamed is shown as events that spell it. The native blocks of turns with tool
  calls are kept within a bound, but not the newest ones.
\<close>

subsection \<open>Responses as events\<close>

definition text_of_event :: "stream_event \<Rightarrow> string" where
  "text_of_event e = (case e of TextDelta t \<Rightarrow> t | _ \<Rightarrow> [])"

definition streamed_text :: "stream_event list \<Rightarrow> string" where
  "streamed_text es = concat (map text_of_event es)"

definition call_of_event :: "stream_event \<Rightarrow> tool_call list" where
  "call_of_event e = (case e of ToolCallCompleted _ c \<Rightarrow> [c] | _ \<Rightarrow> [])"

definition streamed_calls :: "stream_event list \<Rightarrow> tool_call list" where
  "streamed_calls es = concat (map call_of_event es)"

definition visible_text :: "content_block list \<Rightarrow> string" where
  "visible_text bs = concat (map (\<lambda>b. case b of Text t \<Rightarrow> t | _ \<Rightarrow> []) bs)"

lemma streamed_append [simp]:
  "streamed_text (es @ es') = streamed_text es @ streamed_text es'"
  "streamed_calls (es @ es') = streamed_calls es @ streamed_calls es'"
  by (simp_all add: streamed_text_def streamed_calls_def)

lemma streamed_none [simp]: "streamed_text [] = []" "streamed_calls [] = []"
  by (simp_all add: streamed_text_def streamed_calls_def)

lemma streamed_one [simp]:
  "streamed_text (e # es) = text_of_event e @ streamed_text es"
  "streamed_calls (e # es) = call_of_event e @ streamed_calls es"
  by (simp_all add: streamed_text_def streamed_calls_def)

lemmas event_parts [simp] = text_of_event_def call_of_event_def

lemma concat_list_chunks: "0 < n \<Longrightarrow> concat (list_chunks n xs) = xs"
  by (induction n xs rule: list_chunks.induct) (subst list_chunks.simps, auto)

lemma chunk_texts:
  "streamed_text (map (\<lambda>chunk. TextDelta (concat chunk)) chunks) = concat (concat chunks)"
  "streamed_calls (map (\<lambda>chunk. TextDelta (concat chunk)) chunks) = []"
  by (induction chunks) auto

lemma block_events_parts:
  "streamed_text (concat (map block_events bs)) = visible_text bs \<and>
   streamed_calls (concat (map block_events bs)) = []"
proof (induction bs)
  case (Cons b bs)
  then show ?case by (cases b) (auto simp: visible_text_def chunk_texts concat_list_chunks)
qed (simp add: visible_text_def)

lemma call_events_parts:
  "streamed_text (concat (map (call_events json_text) (List.enumerate n cs))) = [] \<and>
   streamed_calls (concat (map (call_events json_text) (List.enumerate n cs))) = cs"
  by (induction cs arbitrary: n) (auto simp: call_events_def)

lemma emit_all_prefix:
  "\<exists>es' rest. es = es' @ rest \<and> snd (deliver_all sink es received) = received @ es' \<and>
     (fst (deliver_all sink es received) = Inr () \<longleftrightarrow>
        rest = [] \<and> (\<forall>k. 0 < k \<and> k \<le> length es \<longrightarrow> sink (received @ take k es) = None))"
proof (induction es arbitrary: received)
  case (Cons e es)
  show ?case
  proof (cases "sink (received @ [e])")
    case None
    from Cons.IH [of "received @ [e]", unfolded append_assoc append_Cons append_Nil] obtain es' rest where
      parts: "es = es' @ rest" "snd (deliver_all sink es (received @ [e])) = received @ e # es'"
        "fst (deliver_all sink es (received @ [e])) = Inr () \<longleftrightarrow>
           rest = [] \<and> (\<forall>k. 0 < k \<and> k \<le> length es \<longrightarrow> sink (received @ e # take k es) = None)"
      by blast
    have "(\<forall>k. 0 < k \<and> k \<le> length (e # es) \<longrightarrow> sink (received @ take k (e # es)) = None) \<longleftrightarrow>
        (\<forall>k. 0 < k \<and> k \<le> length es \<longrightarrow> sink (received @ e # take k es) = None)" (is "?all \<longleftrightarrow> ?rest")
    proof
      assume ?all
      show ?rest
      proof (intro allI impI)
        fix k assume "0 < k \<and> k \<le> length es"
        with \<open>?all\<close> [rule_format, of "Suc k"] show "sink (received @ e # take k es) = None" by simp
      qed
    next
      assume ?rest
      show ?all
      proof (intro allI impI)
        fix k assume k: "0 < k \<and> k \<le> length (e # es)"
        show "sink (received @ take k (e # es)) = None"
        proof (cases "k = 1")
          case True with None show ?thesis by simp
        next
          case False
          with k obtain j where "k = Suc j" "0 < j" "j \<le> length es" by (cases k) auto
          with \<open>?rest\<close> show ?thesis by simp
        qed
      qed
    qed
    with parts None show ?thesis
      by (intro exI [of _ "e # es'"] exI [of _ rest]) (simp add: deliver_def)
  next
    case (Some err)
    have "\<exists>k. 0 < k \<and> k \<le> length (e # es) \<and> sink (received @ take k (e # es)) \<noteq> None"
      using Some by (intro exI [of _ 1]) simp
    with Some show ?thesis
      by (intro exI [of _ "[e]"] exI [of _ es]) (auto simp: deliver_def)
  qed
qed simp

text \<open>a response that came whole is shown as events that begin with its start and end with its
  completion, and spell its text and its tool calls; the consumer sees a first part of them, and
  all of them exactly if it never stops.\<close>

theorem whole_response_is_spelled_out:
  "\<exists>shown rest. response_events json_text r = shown @ rest \<and>
     snd (emit_response_events json_text sink r []) = shown \<and>
     (fst (emit_response_events json_text sink r []) = Inr () \<longleftrightarrow>
        (rest = [] \<and> (\<forall>k. 0 < k \<and> k \<le> length shown \<longrightarrow> sink (take k shown) = None))) \<and>
     streamed_text (shown @ rest) = visible_text (fr_content r) \<and>
     streamed_calls (shown @ rest) = fr_calls r \<and>
     hd (shown @ rest) = ResponseStarted (Some (fr_id r)) (fr_model r) \<and>
     last (shown @ rest) = ResponseCompleted (fr_finish r)"
proof -
  obtain shown rest where parts: "response_events json_text r = shown @ rest"
      "snd (emit_response_events json_text sink r []) = shown"
      "fst (emit_response_events json_text sink r []) = Inr () \<longleftrightarrow> rest = [] \<and>
         (\<forall>k. 0 < k \<and> k \<le> length (response_events json_text r) \<longrightarrow> sink (take k (response_events json_text r)) = None)"
    using emit_all_prefix [of "response_events json_text r" sink "[]"]
    unfolding emit_response_events_def append_Nil by blast
  have spelled: "streamed_text (response_events json_text r) = visible_text (fr_content r)"
      "streamed_calls (response_events json_text r) = fr_calls r"
      "hd (response_events json_text r) = ResponseStarted (Some (fr_id r)) (fr_model r)"
      "last (response_events json_text r) = ResponseCompleted (fr_finish r)"
    by (simp_all add: response_events_def block_events_parts call_events_parts split: option.splits)
  have "fst (emit_response_events json_text sink r []) = Inr () \<longleftrightarrow>
      (rest = [] \<and> (\<forall>k. 0 < k \<and> k \<le> length shown \<longrightarrow> sink (take k shown) = None))"
    using parts(3) by (cases "rest = []") (simp_all add: parts(1))
  with parts(1,2) spelled show ?thesis unfolding parts(1) by blast
qed

subsection \<open>What is never sent\<close>

lemma missing_capability_iff:
  "missing_capability c r = None \<longleftrightarrow>
     text_input c \<and> (list_ex has_image (request_messages r) \<longrightarrow> image_input c) \<and>
     (request_tools r \<noteq> [] \<longrightarrow> tool_calling c) \<and> (request_reasoning r \<noteq> None \<longrightarrow> reasoning c) \<and>
     ((\<exists>k. request_reasoning r = Some k \<and> (reasoning_level k \<noteq> None \<or> budget_tokens k \<noteq> None)) \<longrightarrow>
        configurable_reasoning_effort c) \<and>
     (list_ex (\<lambda>m. role m = SystemRole) (request_messages r) \<longrightarrow> system_instructions c) \<and>
     (list_ex (\<lambda>m. role m = Developer) (request_messages r) \<longrightarrow> developer_instructions c)"
  by (cases "request_reasoning r") (auto simp: missing_capability_def)

text \<open>a request that needs what the model does not claim is not sent: whatever the provider would do, the
  result is the error, and the failure is the one event more.\<close>

theorem unsupported_request_is_not_sent:
  assumes "missing_capability (descriptor_capabilities (provider_descriptor p)) r = Some c"
  shows "generate json_text p r sink received =
      (Inl (UnsupportedCapability c),
       received @ [ResponseFailed (''model does not support requested capability: '' @ c)])"
  using assms
  by (simp add: generate_def generate_cancellable_def generate_checked_def deliver_def Let_def split: option.splits)

lemma lower_lower_char: "lower_char (lower_char c) = lower_char c"
proof -
  have "list_all (\<lambda>c. lower_char (lower_char c) = lower_char c) (map char_of [0..<256 :: nat])" by code_simp
  then have "\<forall>n < 256. lower_char (lower_char (char_of (n :: nat))) = lower_char (char_of n)"
    by (simp add: list_all_iff)
  from this [rule_format, of "of_char c"] show ?thesis by simp
qed

lemma thinking_mode_lower [simp]: "thinking_mode_of (to_ascii_lowercase m) = thinking_mode_of m"
  by (simp add: thinking_mode_of_def to_ascii_lowercase_def lower_lower_char comp_def)

text \<open>the thinking budget of a model with manual thinking cannot be set: \<open>request_body\<close> supports it, but
  its catalogue entry claims no configurable effort, and so \<open>generate\<close> refuses the request.\<close>

theorem thinking_budget_is_refused:
  assumes "thinking_mode_of m = ThinkingManual False"
    and "descriptor_capabilities (provider_descriptor p) = configured_capabilities m"
    and "request_reasoning r = Some k" "budget_tokens k = Some b" "1024 \<le> b" "b < max_tokens" "reasoning_level k = None"
  shows "(\<exists>c. fst (generate json_text p r sink received) = Inl (UnsupportedCapability c)) \<and>
    (\<exists>thinking. anthropic_reasoning m max_tokens k = Inr (thinking, None) \<and>
       json_get ''budget_tokens'' thinking = Some (json_nat b))"
proof
  have "\<not> configurable_reasoning_effort (configured_capabilities m)"
    using assms(1)
    by (simp add: configured_capabilities_def catalog_capabilities_def Let_def no_capabilities_def)
  then obtain c where "missing_capability (descriptor_capabilities (provider_descriptor p)) r = Some c"
    using assms(2-4) missing_capability_iff [of "configured_capabilities m" r]
    by (cases "missing_capability (configured_capabilities m) r") auto
  then show "\<exists>c. fst (generate json_text p r sink received) = Inl (UnsupportedCapability c)"
    by (simp add: generate_def generate_cancellable_def generate_checked_def)
  show "\<exists>thinking. anthropic_reasoning m max_tokens k = Inr (thinking, None) \<and>
       json_get ''budget_tokens'' thinking = Some (json_nat b)"
    using assms by (simp add: anthropic_reasoning_def optional_effort_def)
qed

subsection \<open>The messages of a request\<close>

text \<open>The blocks of a message under its wire role.\<close>

definition message_blocks :: "(string \<times> json list) list \<Rightarrow> message \<Rightarrow> (string \<times> json) list" where
  "message_blocks kept m =
     (case role m of
        UserRole \<Rightarrow> map (Pair ''user'') (List.map_filter user_content_block (content m))
      | AssistantRole \<Rightarrow> map (Pair ''assistant'') (assistant_blocks m kept)
      | ToolRole \<Rightarrow> [(''user'', tool_result_block (the (tool_call_id m)) m)]
      | _ \<Rightarrow> [])"

definition flat_blocks :: "(string \<times> json list) list \<Rightarrow> (string \<times> json) list" where
  "flat_blocks ms = concat (map (\<lambda>(r, bs). map (Pair r) bs) ms)"

definition alternating :: "(string \<times> json list) list \<Rightarrow> bool" where
  "alternating ms \<longleftrightarrow> distinct_adj (map fst ms) \<and>
     (\<forall>m \<in> set ms. fst m \<in> {''user'', ''assistant''} \<and> snd m \<noteq> [])"

lemma append_message_flat: "flat_blocks (append_message r bs ms) = flat_blocks ms @ map (Pair r) bs"
proof (cases "ms \<noteq> [] \<and> fst (last ms) = r")
  case True
  then obtain ms' bs' where "ms = ms' @ [(r, bs')]" by (metis append_butlast_last_id prod.collapse)
  then show ?thesis by (simp add: append_message_def flat_blocks_def)
qed (auto simp: append_message_def flat_blocks_def)

lemma append_message_alternating:
  assumes "alternating ms" "bs \<noteq> []" "r \<in> {''user'', ''assistant''}"
  shows "alternating (append_message r bs ms)"
proof (cases "ms \<noteq> [] \<and> fst (last ms) = r")
  case True
  then obtain ms' bs' where "ms = ms' @ [(r, bs')]" by (metis append_butlast_last_id prod.collapse)
  with assms show ?thesis by (auto simp: append_message_def alternating_def)
next
  case False
  with assms show ?thesis
    by (auto simp: append_message_def alternating_def distinct_adj_append_iff last_map)
qed

lemma add_message_wire:
  assumes "add_message kept (system, ms) m = Inr (system', ms')" "alternating ms"
  shows "alternating ms' \<and> flat_blocks ms' = flat_blocks ms @ message_blocks kept m"
  using assms
  by (auto simp: add_message_def message_blocks_def Let_def append_message_flat map_sum_Inr_iff
      intro!: append_message_alternating split: role.splits if_splits option.splits list.splits)

lemma add_messages_wire:
  assumes "add_messages kept (system, ms) history = Inr (system', ms')" "alternating ms"
  shows "alternating ms' \<and> flat_blocks ms' = flat_blocks ms @ concat (map (message_blocks kept) history)"
  using assms
proof (induction history arbitrary: system ms)
  case (Cons m history)
  then obtain system1 ms1 where "add_message kept (system, ms) m = Inr (system1, ms1)"
    by (cases "add_message kept (system, ms) m") auto
  with Cons add_message_wire [OF this] show ?case by auto
qed simp

lemma temperature_keeps:
  assumes "add_temperature r m body = Inr body'" "k \<noteq> ''temperature''"
  shows "json_get k body' = json_get k body"
  using assms by (auto simp: add_temperature_def json_get_set_other split: option.splits if_splits)

lemma reasoning_keeps:
  assumes "add_reasoning r m max_tokens body = Inr body'" "k \<noteq> ''thinking''" "k \<noteq> ''output_config''"
  shows "json_get k body' = json_get k body"
  using assms by (auto simp: add_reasoning_def json_get_set_other Let_def split: option.splits)



subsection \<open>Examples\<close>

definition silent_provider :: "model_capabilities \<Rightarrow> model_provider" where
  "silent_provider c =
     \<lparr>provider_descriptor = \<lparr>descriptor_provider = ''anthropic'', descriptor_id = ''claude-sonnet-4-5'',
        descriptor_name = ''Claude'', descriptor_capabilities = c\<rparr>,
      complete_with = (\<lambda>_. Inl (TransportFailed ''anthropic'')),
      stream_with = (\<lambda>_ _. yield_error (TransportFailed ''anthropic''))\<rparr>"

definition sample_request :: full_request where
  "sample_request = (model_request_new ''claude-sonnet-4-5''
     [plain_message SystemRole [Text ''Be brief.''], user_text ''Hi'', assistant_tool_calls
        [\<lparr>call_id = ''c1'', call_name = ''list_files'', arguments = JObject []\<rparr>],
      tool_result_message ''c1'' ''a.txt'' False, user_text ''And?''])
     \<lparr>request_reasoning := Some \<lparr>reasoning_level = None, budget_tokens = Some 2048, include_summary = False\<rparr>\<rparr>"

theorem unsupported_request_is_not_sent_witness:
  "generate (\<lambda>_. []) (silent_provider (no_capabilities\<lparr>text_input := True\<rparr>)) sample_request willing [] =
     (Inl (UnsupportedCapability ''reasoning''),
      [ResponseFailed ''model does not support requested capability: reasoning''])"
proof -
  have "missing_capability (descriptor_capabilities (provider_descriptor
      (silent_provider (no_capabilities\<lparr>text_input := True\<rparr>)))) sample_request = Some ''reasoning''" by code_simp
  from unsupported_request_is_not_sent [OF this] show ?thesis by simp
qed

theorem thinking_budget_is_refused_witness:
  "(\<exists>c. fst (generate (\<lambda>_. []) (silent_provider (configured_capabilities ''claude-sonnet-4-5'')) sample_request willing []) =
      Inl (UnsupportedCapability c)) \<and>
   (\<exists>thinking. anthropic_reasoning ''claude-sonnet-4-5'' 4096
      \<lparr>reasoning_level = None, budget_tokens = Some 2048, include_summary = False\<rparr> = Inr (thinking, None) \<and>
      json_get ''budget_tokens'' thinking = Some (json_nat 2048))"
  by (rule thinking_budget_is_refused)
    (simp_all add: silent_provider_def sample_request_def thinking_mode_of_def model_request_new_def, code_simp)


end
