(* ===== verification/Model_Stream_Properties.thy ===== *)
theory Model_Stream_Properties
  imports Model_Request_Properties
begin

section \<open>harness-models: properties of streamed responses\<close>

text \<open>
  A streamed message is put together to the message the API would have sent whole: the reference
  is \<open>parse_response\<close> of that message. The events of a stream are those the Messages API
  documents: \<open>message_start\<close>, for each block its start, its deltas and its stop, then
  \<open>message_delta\<close> and \<open>message_stop\<close>. What any other order of events can do is bounded too: a
  response comes with one completion event, the last one.
\<close>

subsection \<open>The events of a message\<close>

fun run_stream_events ::
  "(string \<Rightarrow> json option) \<Rightarrow> sink \<Rightarrow> anthropic_stream \<Rightarrow> json list \<Rightarrow> anthropic_stream emitting" where
  "run_stream_events dec sink st [] received = (Inr st, received)"
| "run_stream_events dec sink st (e # es) received =
     (case handle_event dec sink st e received of
        (Inl err, received) \<Rightarrow> (Inl err, received)
      | (Inr (go, st), received) \<Rightarrow> if go then run_stream_events dec sink st es received else (Inr st, received))"

text \<open>A block and the pieces it is sent in; a call has its input, and the text of it.\<close>

datatype block_script =
    TextScript "string list"
  | ThinkingScript "string list" string
  | CallScript string string "string list" "(string \<times> json) list"

fun valid_script :: "(string \<Rightarrow> json option) \<Rightarrow> block_script \<Rightarrow> bool" where
  "valid_script dec (CallScript i n pieces kvs) \<longleftrightarrow> i \<noteq> [] \<and> n \<noteq> [] \<and>
     (if concat pieces = [] then kvs = [] else dec (concat pieces) = Some (JObject kvs))"
| "valid_script dec _ \<longleftrightarrow> True"

definition text_json :: "string \<Rightarrow> json" where
  "text_json t = json_object [(''type'', JString ''text''), (''text'', JString t)]"

definition thinking_json :: "string \<Rightarrow> string \<Rightarrow> json" where
  "thinking_json t sig = json_object
     [(''type'', JString ''thinking''), (''thinking'', JString t), (''signature'', JString sig)]"

definition call_json :: "string \<Rightarrow> string \<Rightarrow> (string \<times> json) list \<Rightarrow> json" where
  "call_json i n kvs = json_object
     [(''type'', JString ''tool_use''), (''id'', JString i), (''name'', JString n), (''input'', JObject kvs)]"

fun script_block :: "block_script \<Rightarrow> json" where
  "script_block (TextScript pieces) = text_json (concat pieces)"
| "script_block (ThinkingScript pieces sig) = thinking_json (concat pieces) sig"
| "script_block (CallScript i n pieces kvs) = call_json i n kvs"

fun script_opening :: "block_script \<Rightarrow> json" where
  "script_opening (TextScript _) = text_json []"
| "script_opening (ThinkingScript _ _) = thinking_json [] []"
| "script_opening (CallScript i n _ _) = call_json i n []"

definition delta_json :: "string \<Rightarrow> string \<Rightarrow> string \<Rightarrow> json" where
  "delta_json kind key t = json_object [(''type'', JString kind), (key, JString t)]"

fun script_deltas :: "block_script \<Rightarrow> json list" where
  "script_deltas (TextScript pieces) = map (delta_json ''text_delta'' ''text'') pieces"
| "script_deltas (ThinkingScript pieces sig) =
     map (delta_json ''thinking_delta'' ''thinking'') pieces @ [delta_json ''signature_delta'' ''signature'' sig]"
| "script_deltas (CallScript _ _ pieces _) = map (delta_json ''input_json_delta'' ''partial_json'') pieces"

definition start_event :: "nat \<Rightarrow> json \<Rightarrow> json" where
  "start_event k b = json_object
     [(''type'', JString ''content_block_start''), (''index'', json_nat k), (''content_block'', b)]"

definition delta_event :: "nat \<Rightarrow> json \<Rightarrow> json" where
  "delta_event k d = json_object
     [(''type'', JString ''content_block_delta''), (''index'', json_nat k), (''delta'', d)]"

definition stop_event :: "nat \<Rightarrow> json" where
  "stop_event k = json_object [(''type'', JString ''content_block_stop''), (''index'', json_nat k)]"

definition script_events :: "nat \<times> block_script \<Rightarrow> json list" where
  "script_events p =
     (case p of (k, sc) \<Rightarrow>
        [start_event k (script_opening sc)] @ map (delta_event k) (script_deltas sc) @ [stop_event k])"

record whole_message =
  wm_id :: string
  wm_model :: string
  wm_scripts :: "block_script list"
  wm_reason :: string
  wm_input :: nat
  wm_output :: nat
  wm_cache_read :: nat
  wm_cache_creation :: nat

definition valid_message :: "(string \<Rightarrow> json option) \<Rightarrow> whole_message \<Rightarrow> bool" where
  "valid_message dec w \<longleftrightarrow> wm_id w \<noteq> [] \<and> list_all (valid_script dec) (wm_scripts w) \<and>
     length (wm_scripts w) \<le> u32_max \<and> wm_input w \<le> u32_max \<and> wm_output w \<le> u32_max \<and>
     wm_cache_read w \<le> u32_max \<and> wm_cache_creation w \<le> u32_max"

definition api_usage :: "whole_message \<Rightarrow> nat \<Rightarrow> json" where
  "api_usage w out = json_object
     [(''input_tokens'', json_nat (wm_input w)), (''output_tokens'', json_nat out),
      (''cache_read_input_tokens'', json_nat (wm_cache_read w)),
      (''cache_creation_input_tokens'', json_nat (wm_cache_creation w))]"

text \<open>The message sent whole, and sent as events.\<close>

definition message_json :: "whole_message \<Rightarrow> json" where
  "message_json w = json_object
     [(''type'', JString ''message''), (''id'', JString (wm_id w)), (''model'', JString (wm_model w)),
      (''content'', JArray (map script_block (wm_scripts w))), (''stop_reason'', JString (wm_reason w)),
      (''usage'', api_usage w (wm_output w))]"

definition opening_event :: "whole_message \<Rightarrow> json" where
  "opening_event w = json_object
     [(''type'', JString ''message_start''),
      (''message'', json_object [(''id'', JString (wm_id w)), (''model'', JString (wm_model w)), (''usage'', api_usage w 0)])]"

definition closing_event :: "whole_message \<Rightarrow> json" where
  "closing_event w = json_object
     [(''type'', JString ''message_delta''), (''delta'', json_object [(''stop_reason'', JString (wm_reason w))]),
      (''usage'', json_object [(''output_tokens'', json_nat (wm_output w))])]"

definition stopping_event :: json where
  "stopping_event = json_object [(''type'', JString ''message_stop'')]"

definition message_events :: "whole_message \<Rightarrow> json list" where
  "message_events w =
     [opening_event w] @ concat (map script_events (List.enumerate 0 (wm_scripts w))) @
     [closing_event w, stopping_event]"

subsection \<open>One block\<close>

lemma insert_behind:
  "\<forall>x \<in> set (map fst bs). x < k \<Longrightarrow> tree_map_insert k b bs = bs @ [(k, b)]"
  "\<forall>x \<in> set (map fst bs). x < k \<Longrightarrow> tree_map_insert k b (bs @ [(k, b')]) = bs @ [(k, b)]"
  by (induction bs) auto

lemma find_behind: "\<forall>x \<in> set (map fst bs). x < (k :: nat) \<Longrightarrow> ([k \<mapsto> b] ++ map_of bs) k = Some b"
  by (induction bs) auto

text \<open>Deltas that each add their piece to the block add them all.\<close>

lemma run_deltas:
  assumes "\<And>t piece received. apply_delta willing (as_shown st) (block t) (d piece) received =
      (Inr (block (t @ piece)), received @ evs piece)"
    and "\<forall>x \<in> set (map fst bs). x < k" "k \<le> u32_max"
  shows "run_stream_events dec willing (st\<lparr>as_blocks := bs @ [(k, block t)]\<rparr>) (map (delta_event k) (map d pieces) @ rest) received =
    run_stream_events dec willing (st\<lparr>as_blocks := bs @ [(k, block (t @ concat pieces))]\<rparr>) rest
      (received @ concat (map evs pieces))"
proof (induction pieces arbitrary: t received)
  case (Cons piece pieces)
  have "handle_event dec willing (st\<lparr>as_blocks := bs @ [(k, block t)]\<rparr>) (delta_event k (d piece)) received =
      (Inr (True, st\<lparr>as_blocks := bs @ [(k, block (t @ piece))]\<rparr>), received @ evs piece)"
    using assms
    by (simp add: handle_event_def delta_event_def block_delta_def stream_index_def then_step_simps
        find_behind insert_behind Let_def)
  with Cons show ?case by simp
qed simp

lemma text_piece:
  "append_json_string ''text'' piece (text_json t) = text_json (t @ piece)"
  by (simp add: append_json_string_def text_json_def) (rule json_object_cong, auto)

lemma thinking_piece:
  "append_json_string ''thinking'' piece (thinking_json t sig) = thinking_json (t @ piece) sig"
  "append_json_string ''signature'' piece (thinking_json t sig) = thinking_json t (sig @ piece)"
  by (simp_all add: append_json_string_def thinking_json_def; rule json_object_cong; auto)+

lemma concat_of_none [simp]: "concat (map (\<lambda>x. []) xs) = []"
  by (induction xs) auto

text \<open>The events a block makes, and the tool index after it.\<close>

definition pieces_sent :: "(string \<Rightarrow> stream_event) \<Rightarrow> string list \<Rightarrow> stream_event list" where
  "pieces_sent ev pieces = concat (map (\<lambda>t. if t = [] then [] else [ev t]) pieces)"

fun script_emits :: "bool \<Rightarrow> nat \<Rightarrow> block_script \<Rightarrow> stream_event list" where
  "script_emits shown n (TextScript pieces) = pieces_sent TextDelta pieces"
| "script_emits shown n (ThinkingScript pieces sig) = (if shown then pieces_sent ReasoningDelta pieces else [])"
| "script_emits shown n (CallScript i name pieces kvs) =
     [ToolCallStarted n (Some i) (Some name)] @ pieces_sent (ToolCallArgumentsDelta n) pieces @
     [ToolCallCompleted n \<lparr>call_id = i, call_name = name, arguments = JObject kvs\<rparr>]"

fun script_next :: "nat \<Rightarrow> block_script \<Rightarrow> nat" where
  "script_next n (CallScript _ _ _ _) = sat_add32 n 1"
| "script_next n _ = n"

lemma parse_call_json:
  assumes "i \<noteq> []" "n \<noteq> []"
  shows "parse_tool_call (call_json i n kvs) = Inr \<lparr>call_id = i, call_name = n, arguments = JObject kvs\<rparr>"
proof -
  obtain a i' d n' where "i = a # i'" "n = d # n'" using assms by (cases i; cases n) auto
  then show ?thesis by (simp add: parse_tool_call_def call_json_def is_json_object_def)
qed

lemma set_input: "json_set ''input'' (JObject kvs) (call_json i n old) = call_json i n kvs"
  by (simp add: call_json_def) (rule json_object_cong, auto)

lemma kinds [simp]:
  "json_type (text_json t) = Some ''text''" "json_type (thinking_json t sig) = Some ''thinking''"
  "json_type (call_json i n kvs) = Some ''tool_use''" "json_get ''input'' (call_json i n kvs) = Some (JObject kvs)"
  "is_json_object (text_json t)" "is_json_object (thinking_json t sig)" "is_json_object (call_json i n kvs)"
  by (simp_all add: text_json_def thinking_json_def call_json_def)

text \<open>The stream has started, and the blocks so far have smaller indices.\<close>

definition open_at :: "anthropic_stream \<Rightarrow> (nat \<times> stream_block) list \<Rightarrow> nat \<Rightarrow> bool" where
  "open_at st bs k \<longleftrightarrow> as_started st \<and> (\<forall>x \<in> set (map fst bs). x < k) \<and> k \<le> u32_max"

lemma run_opening:
  assumes "open_at st bs k" "is_json_object raw" "json_type raw \<noteq> Some ''tool_use''"
  shows "run_stream_events dec willing (st\<lparr>as_blocks := bs\<rparr>) (start_event k raw # rest) received =
    run_stream_events dec willing
      (st\<lparr>as_blocks := bs @ [(k, \<lparr>raw_block = raw, partial_json = [], tool_index = None\<rparr>)]\<rparr>) rest received"
  using assms
  by (simp add: open_at_def handle_event_def start_event_def block_started_def require_started_def stream_index_def
      then_step_simps insert_behind Let_def)

lemma run_call_opening:
  assumes "open_at st bs k" "i \<noteq> []" "n \<noteq> []"
  shows "run_stream_events dec willing (st\<lparr>as_blocks := bs\<rparr>) (start_event k (call_json i n []) # rest) received =
    run_stream_events dec willing
      (st\<lparr>as_next_tool := sat_add32 (as_next_tool st) 1, as_blocks := bs @
         [(k, \<lparr>raw_block = call_json i n [], partial_json = [], tool_index = Some (as_next_tool st)\<rparr>)]\<rparr>) rest
      (received @ [ToolCallStarted (as_next_tool st) (Some i) (Some n)])"
  using assms(1) parse_call_json [OF assms(2,3), of "[]"]
  by (simp add: open_at_def handle_event_def start_event_def block_started_def require_started_def stream_index_def
      then_step_simps insert_behind Let_def)

lemma run_stop:
  assumes "open_at st bs k" "json_type (raw_block b) \<noteq> Some ''tool_use''"
  shows "run_stream_events dec willing (st\<lparr>as_blocks := bs @ [(k, b)]\<rparr>) (stop_event k # rest) received =
    run_stream_events dec willing (st\<lparr>as_blocks := bs @ [(k, b)]\<rparr>) rest received"
  using assms
  by (simp add: open_at_def handle_event_def stop_event_def block_stopped_def stream_index_def then_step_simps find_behind Let_def)

lemma run_call_stop:
  assumes "open_at st bs k" "i \<noteq> []" "n \<noteq> []" "if text_sent = [] then kvs = [] else dec text_sent = Some (JObject kvs)"
  shows "run_stream_events dec willing
      (st\<lparr>as_blocks := bs @ [(k, \<lparr>raw_block = call_json i n [], partial_json = text_sent, tool_index = Some t\<rparr>)]\<rparr>)
      (stop_event k # rest) received =
    run_stream_events dec willing
      (st\<lparr>as_blocks := bs @ [(k, \<lparr>raw_block = call_json i n kvs, partial_json = text_sent, tool_index = Some t\<rparr>)]\<rparr>) rest
      (received @ [ToolCallCompleted t \<lparr>call_id = i, call_name = n, arguments = JObject kvs\<rparr>])"
proof -
  have "block_input dec \<lparr>raw_block = call_json i n [], partial_json = text_sent, tool_index = Some t\<rparr> received =
      (Inr (JObject kvs), received)"
    using assms(4) by (simp add: block_input_def then_step_simps is_json_object_def split: if_splits)
  with assms(1) parse_call_json [OF assms(2,3), of kvs] show ?thesis
    by (simp add: open_at_def handle_event_def stop_event_def block_stopped_def stream_index_def then_step_simps
        find_behind insert_behind set_input Let_def)
qed

lemma run_script:
  assumes opened: "open_at st bs k" and "valid_script dec sc"
  shows "\<exists>b. raw_block b = script_block sc \<and>
    run_stream_events dec willing (st\<lparr>as_blocks := bs\<rparr>) (script_events (k, sc) @ rest) received =
    run_stream_events dec willing
      (st\<lparr>as_next_tool := script_next (as_next_tool st) sc, as_blocks := bs @ [(k, b)]\<rparr>) rest
      (received @ script_emits (as_shown st) (as_next_tool st) sc)"
proof -
  note behind = opened [unfolded open_at_def, THEN conjunct2, THEN conjunct1]
    and bounded = opened [unfolded open_at_def, THEN conjunct2, THEN conjunct2]
  show ?thesis
  proof (cases sc)
  case (TextScript pieces)
  let ?block = "\<lambda>t. \<lparr>raw_block = text_json t, partial_json = [], tool_index = None\<rparr>"
  have "apply_delta willing (as_shown st) (?block t) (delta_json ''text_delta'' ''text'' piece) received =
      (Inr (?block (t @ piece)), received @ (if piece = [] then [] else [TextDelta piece]))" for t piece received
    by (simp add: apply_delta_def delta_json_def deliver_if_def then_step_simps text_piece)
  from run_deltas [OF this behind bounded, of dec "[]" pieces "stop_event k # rest"]
  show ?thesis
    by (intro exI [of _ "?block (concat pieces)"])
      (simp add: TextScript script_events_def run_opening [OF opened] run_stop [OF opened] pieces_sent_def del: run_stream_events.simps map_map)
next
  case (ThinkingScript pieces sig)
  let ?block = "\<lambda>t s. \<lparr>raw_block = thinking_json t s, partial_json = [], tool_index = None\<rparr>"
  have "apply_delta willing (as_shown st) (?block t []) (delta_json ''thinking_delta'' ''thinking'' piece) received =
      (Inr (?block (t @ piece) []), received @ (if as_shown st then if piece = [] then [] else [ReasoningDelta piece] else []))"
    for t piece received
    by (simp add: apply_delta_def delta_json_def deliver_if_def then_step_simps thinking_piece)
  from run_deltas [OF this behind bounded, of dec "[]" pieces "delta_event k (delta_json ''signature_delta'' ''signature'' sig) # stop_event k # rest"]
  have pieces: "run_stream_events dec willing (st\<lparr>as_blocks := bs @ [(k, ?block [] [])]\<rparr>)
      (map (delta_event k) (map (delta_json ''thinking_delta'' ''thinking'') pieces) @
         delta_event k (delta_json ''signature_delta'' ''signature'' sig) # stop_event k # rest) received =
    run_stream_events dec willing (st\<lparr>as_blocks := bs @ [(k, ?block (concat pieces) [])]\<rparr>)
      (delta_event k (delta_json ''signature_delta'' ''signature'' sig) # stop_event k # rest)
      (received @ script_emits (as_shown st) (as_next_tool st) sc)"
    by (simp add: ThinkingScript pieces_sent_def del: run_stream_events.simps map_map)
  have "run_stream_events dec willing (st\<lparr>as_blocks := bs @ [(k, ?block (concat pieces) [])]\<rparr>)
      (map (delta_event k) (map (delta_json ''signature_delta'' ''signature'') [sig]) @ stop_event k # rest) received' =
    run_stream_events dec willing (st\<lparr>as_blocks := bs @ [(k, ?block (concat pieces) ([] @ concat [sig]))]\<rparr>)
      (stop_event k # rest) (received' @ concat (map (\<lambda>_. []) [sig]))" for received'
    by (rule run_deltas [OF _ behind bounded])
      (simp add: apply_delta_def delta_json_def deliver_if_def thinking_piece)
  with pieces
  show ?thesis
    by (intro exI [of _ "?block (concat pieces) sig"])
      (simp add: ThinkingScript script_events_def run_opening [OF opened] run_stop [OF opened] del: run_stream_events.simps map_map)
next
  case (CallScript i n pieces kvs)
  with assms have call: "i \<noteq> []" "n \<noteq> []"
    "if concat pieces = [] then kvs = [] else dec (concat pieces) = Some (JObject kvs)" by auto
  let ?block = "\<lambda>raw t. \<lparr>raw_block = raw, partial_json = t, tool_index = Some (as_next_tool st)\<rparr>"
  have opened': "open_at (st\<lparr>as_next_tool := sat_add32 (as_next_tool st) 1\<rparr>) bs k" using opened by (simp add: open_at_def)
  let ?st = "st\<lparr>as_next_tool := sat_add32 (as_next_tool st) 1\<rparr>"
  have "run_stream_events dec willing (?st\<lparr>as_blocks := bs @ [(k, ?block (call_json i n []) [])]\<rparr>)
      (map (delta_event k) (map (delta_json ''input_json_delta'' ''partial_json'') pieces) @ stop_event k # rest) received' =
    run_stream_events dec willing (?st\<lparr>as_blocks := bs @ [(k, ?block (call_json i n []) ([] @ concat pieces))]\<rparr>)
      (stop_event k # rest)
      (received' @ concat (map (\<lambda>t. if t = [] then [] else [ToolCallArgumentsDelta (as_next_tool st) t]) pieces))"
    for received'
    by (rule run_deltas [OF _ behind bounded]) (simp add: apply_delta_def delta_json_def)
  with call
  show ?thesis
    by (intro exI [of _ "?block (call_json i n kvs) (concat pieces)"])
      (simp add: CallScript script_events_def run_call_opening [OF opened] run_call_stop [OF opened'] pieces_sent_def
        del: One_nat_def run_stream_events.simps map_map)
  qed
qed

subsection \<open>All blocks\<close>

fun scripts_emits :: "bool \<Rightarrow> nat \<Rightarrow> block_script list \<Rightarrow> stream_event list" where
  "scripts_emits shown n [] = []"
| "scripts_emits shown n (sc # scs) = script_emits shown n sc @ scripts_emits shown (script_next n sc) scs"

lemma run_scripts:
  assumes "as_started st" "\<forall>x \<in> set (map fst bs). x < k" "k + length scs \<le> u32_max"
    and "list_all (valid_script dec) scs"
  shows "\<exists>bs' n. map (\<lambda>(_, b). raw_block b) bs' = map script_block scs \<and>
    run_stream_events dec willing (st\<lparr>as_blocks := bs\<rparr>)
      (concat (map script_events (List.enumerate k scs)) @ rest) received =
    run_stream_events dec willing (st\<lparr>as_next_tool := n, as_blocks := bs @ bs'\<rparr>) rest
      (received @ scripts_emits (as_shown st) (as_next_tool st) scs)"
  using assms
proof (induction scs arbitrary: st bs k received)
  case Nil
  show ?case by (intro exI [of _ "[]"] exI [of _ "as_next_tool st"]) simp
next
  case (Cons sc scs)
  let ?more = "concat (map script_events (List.enumerate (Suc k) scs)) @ rest"
  let ?st = "st\<lparr>as_next_tool := script_next (as_next_tool st) sc\<rparr>"
  from Cons.prems obtain b where one: "raw_block b = script_block sc"
      "run_stream_events dec willing (st\<lparr>as_blocks := bs\<rparr>) (script_events (k, sc) @ ?more) received =
       run_stream_events dec willing (?st\<lparr>as_blocks := bs @ [(k, b)]\<rparr>) ?more
         (received @ script_emits (as_shown st) (as_next_tool st) sc)"
    using run_script [of st bs k dec sc ?more received] by (auto simp: open_at_def)
  from Cons.prems have "as_started ?st" "\<forall>x \<in> set (map fst (bs @ [(k, b)])). x < Suc k"
    "Suc k + length scs \<le> u32_max" "list_all (valid_script dec) scs" by auto
  from Cons.IH [OF this, of "received @ script_emits (as_shown st) (as_next_tool st) sc"]
  obtain bs' n where "map (\<lambda>(_, b). raw_block b) bs' = map script_block scs"
      "run_stream_events dec willing (?st\<lparr>as_blocks := bs @ [(k, b)]\<rparr>) ?more
         (received @ script_emits (as_shown st) (as_next_tool st) sc) =
       run_stream_events dec willing (st\<lparr>as_next_tool := n, as_blocks := bs @ (k, b) # bs'\<rparr>) rest
         (received @ scripts_emits (as_shown st) (as_next_tool st) (sc # scs))"
    by auto
  with one show ?case by (intro exI [of _ "(k, b) # bs'"] exI [of _ n]) simp
qed

lemma pieces_sent_parts [simp]:
  "streamed_text (pieces_sent TextDelta pieces) = concat pieces"
  "streamed_calls (pieces_sent TextDelta pieces) = []"
  "streamed_text (pieces_sent ReasoningDelta pieces) = []"
  "streamed_calls (pieces_sent ReasoningDelta pieces) = []"
  "streamed_text (pieces_sent (ToolCallArgumentsDelta n) pieces) = []"
  "streamed_calls (pieces_sent (ToolCallArgumentsDelta n) pieces) = []"
  by (induction pieces) (auto simp: pieces_sent_def)

lemma parse_scripts:
  assumes "list_all (valid_script dec) scs"
  shows "\<exists>shown_blocks. parse_blocks shown (map script_block scs) =
      Inr (shown_blocks, streamed_calls (scripts_emits shown n scs)) \<and>
    visible_text shown_blocks = streamed_text (scripts_emits shown n scs)"
  using assms
proof (induction scs arbitrary: n)
  case (Cons sc scs)
  then obtain shown_blocks where IH: "parse_blocks shown (map script_block scs) =
      Inr (shown_blocks, streamed_calls (scripts_emits shown (script_next n sc) scs))"
    "visible_text shown_blocks = streamed_text (scripts_emits shown (script_next n sc) scs)" by fastforce
  show ?case
  proof (cases sc)
    case (TextScript pieces)
    with IH show ?thesis by (simp add: visible_text_def) (simp add: text_json_def)
  next
    case (ThinkingScript pieces sig)
    have "json_text_at ''thinking'' (thinking_json (concat pieces) sig) = Some (concat pieces)"
      by (simp add: thinking_json_def)
    with IH ThinkingScript show ?thesis
      by (cases shown; cases "concat pieces") (auto simp: visible_text_def)
  next
    case (CallScript i name pieces kvs)
    with Cons.prems have "i \<noteq> []" "name \<noteq> []" by auto
    with IH CallScript show ?thesis by (simp add: parse_call_json visible_text_def)
  qed
qed (simp add: visible_text_def)

subsection \<open>Streamed is whole\<close>

definition without_cache_counts :: "token_usage \<Rightarrow> token_usage" where
  "without_cache_counts u = u\<lparr>cache_read_tokens := None, cache_creation_tokens := None\<rparr>"

definition api_counts :: "whole_message \<Rightarrow> nat \<Rightarrow> token_usage" where
  "api_counts w out = \<lparr>input_tokens = Some (wm_input w), output_tokens = Some out,
     total_tokens = Some (sat_add32 (wm_input w) out), cache_read_tokens = Some (wm_cache_read w),
     cache_creation_tokens = Some (wm_cache_creation w)\<rparr>"

lemma parse_api_usage:
  assumes "valid_message dec w" "out \<le> u32_max"
  shows "parse_usage (api_usage w out) = api_counts w out"
  using assms by (simp add: valid_message_def parse_usage_def api_usage_def api_counts_def Let_def)

lemma merge_closing:
  assumes "valid_message dec w"
  shows "merge_usage (api_counts w 0) (json_object [(''output_tokens'', json_nat (wm_output w))]) =
    api_counts w (wm_output w)"
  using assms by (simp add: valid_message_def merge_usage_def api_counts_def or_old_def Let_def)

lemma parse_written_usage:
  assumes "valid_message dec w"
  shows "parse_usage (usage_json (api_counts w (wm_output w))) = without_cache_counts (api_counts w (wm_output w))"
  using assms
  by (simp add: valid_message_def parse_usage_def usage_json_def json_count_def json_optional_def api_counts_def
      without_cache_counts_def Let_def)

lemma usage_objects: "\<exists>kvs. api_usage w out = json_object kvs" "\<exists>kvs. usage_json u = json_object kvs"
  unfolding api_usage_def usage_json_def by blast+

text \<open>What both ways read, but for the usage.\<close>

definition read_as :: "whole_message \<Rightarrow> content_block list \<Rightarrow> tool_call list \<Rightarrow> token_usage \<Rightarrow> full_response" where
  "read_as w shown_blocks cs u =
     \<lparr>fr_id = wm_id w, fr_model = wm_model w, fr_content = shown_blocks, fr_calls = cs,
      fr_finish = parse_finish_reason (Some (wm_reason w)) (cs \<noteq> []), fr_usage = Some u\<rparr>"

lemma parse_message:
  assumes "wm_id w \<noteq> []" "parse_blocks shown (map script_block (wm_scripts w)) = Inr (shown_blocks, cs)"
    and "\<exists>kvs. usage = json_object kvs"
  shows "parse_response (json_object
     [(''type'', JString ''message''), (''id'', JString (wm_id w)), (''model'', JString (wm_model w)),
      (''content'', JArray (map script_block (wm_scripts w))), (''stop_reason'', JString (wm_reason w)),
      (''usage'', usage)]) selected shown =
    Inr (read_as w shown_blocks cs (parse_usage usage), map script_block (wm_scripts w))"
proof -
  from assms(1) obtain a i where "wm_id w = a # i" by (cases "wm_id w") auto
  moreover from assms(3) obtain kvs where "usage = JObject kvs" using json_object_entries by metis
  ultimately show ?thesis using assms(2) by (simp add: parse_response_def read_as_def)
qed

text \<open>The stream when the message has been opened, and when its blocks have been read.\<close>

definition opened_stream :: "string \<Rightarrow> bool \<Rightarrow> whole_message \<Rightarrow> nat \<Rightarrow> (nat \<times> stream_block) list \<Rightarrow> anthropic_stream" where
  "opened_stream selected shown w n bs = (stream_state_new selected shown)
     \<lparr>as_id := Some (wm_id w), as_response_model := Some (wm_model w), as_usage := Some (api_counts w 0),
      as_started := True, as_next_tool := n, as_blocks := bs\<rparr>"

definition opening_reports :: "whole_message \<Rightarrow> stream_event list" where
  "opening_reports w = [ResponseStarted (Some (wm_id w)) (wm_model w), UsageUpdated (api_counts w 0)]"

lemma run_message_blocks:
  assumes "valid_message dec w"
  shows "\<exists>bs n. map (\<lambda>(_, b). raw_block b) bs = map script_block (wm_scripts w) \<and>
    run_stream_events dec willing (stream_state_new selected shown) (message_events w) [] =
    run_stream_events dec willing (opened_stream selected shown w n bs) [closing_event w, stopping_event]
      (opening_reports w @ scripts_emits shown 0 (wm_scripts w))"
proof -
  let ?st = "opened_stream selected shown w 0 []"
  from assms have valid: "list_all (valid_script dec) (wm_scripts w)" "wm_id w \<noteq> []"
    "0 + length (wm_scripts w) \<le> u32_max" by (simp_all add: valid_message_def)
  have "handle_event dec willing (stream_state_new selected shown) (opening_event w) [] = (Inr (True, ?st), opening_reports w)"
    using valid(2) parse_api_usage [OF assms, of 0]
    by (cases "wm_id w")
      (simp_all add: handle_event_def opening_event_def message_started_def stream_state_new_def opened_stream_def
        opening_reports_def Let_def)
  then have opened: "run_stream_events dec willing (stream_state_new selected shown) (message_events w) [] =
      run_stream_events dec willing (?st\<lparr>as_blocks := []\<rparr>)
        (concat (map script_events (List.enumerate 0 (wm_scripts w))) @ [closing_event w, stopping_event]) (opening_reports w)"
    by (simp add: message_events_def opened_stream_def)
  have fresh: "as_started ?st" "as_shown ?st = shown" "as_next_tool ?st = 0"
    by (simp_all add: opened_stream_def stream_state_new_def)
  have "?st\<lparr>as_next_tool := n, as_blocks := bs\<rparr> = opened_stream selected shown w n bs" for n bs
    by (simp add: opened_stream_def)
  with run_scripts [OF fresh(1) _ valid(3,1), of "[]" "[closing_event w, stopping_event]" "opening_reports w"]
  show ?thesis unfolding opened fresh append_Nil by auto
qed

lemma run_message_end:
  assumes "valid_message dec w" "map (\<lambda>(_, b). raw_block b) bs = map script_block (wm_scripts w)"
    and "parse_blocks shown (map script_block (wm_scripts w)) = Inr (shown_blocks, cs)"
  shows "\<exists>st. as_parsed st = Some (read_as w shown_blocks cs (without_cache_counts (api_counts w (wm_output w))),
      map script_block (wm_scripts w)) \<and>
    run_stream_events dec willing (opened_stream selected shown w n bs) [closing_event w, stopping_event] received =
    (Inr st, received @ [UsageUpdated (api_counts w (wm_output w)), UsageUpdated (without_cache_counts (api_counts w (wm_output w))),
       ResponseCompleted (parse_finish_reason (Some (wm_reason w)) (cs \<noteq> []))])"
proof -
  let ?counts = "api_counts w (wm_output w)"
  let ?st = "(opened_stream selected shown w n bs)\<lparr>as_finish := Some (wm_reason w), as_usage := Some ?counts\<rparr>"
  have "handle_event dec willing (opened_stream selected shown w n bs) (closing_event w) received =
      (Inr (True, ?st), received @ [UsageUpdated ?counts])" for received
    using merge_closing [OF assms(1)]
    by (simp add: handle_event_def closing_event_def message_changed_def require_started_def opened_stream_def Let_def)
  moreover have "wm_id w \<noteq> []" using assms(1) by (simp add: valid_message_def)
  then have "parse_response (assembled_message ?st) selected shown =
      Inr (read_as w shown_blocks cs (without_cache_counts ?counts), map script_block (wm_scripts w))"
    using parse_message [OF _ assms(3) usage_objects(2)] parse_written_usage [OF assms(1)] assms(2)
    by (simp add: assembled_message_def json_optional_def opened_stream_def)
  then have "handle_event dec willing ?st stopping_event received =
      (Inr (False, ?st\<lparr>as_parsed := Some (read_as w shown_blocks cs (without_cache_counts ?counts),
         map script_block (wm_scripts w)), as_stopped := True\<rparr>),
       received @ [UsageUpdated (without_cache_counts ?counts),
         ResponseCompleted (parse_finish_reason (Some (wm_reason w)) (cs \<noteq> []))])" for received
    by (simp add: handle_event_def stopping_event_def message_stopped_def require_started_def Let_def read_as_def
        stream_state_new_def opened_stream_def)
  ultimately show ?thesis by simp
qed

text \<open>C14: a well-formed message that is streamed in any pieces gives the response of the same message sent
  whole, and its events spell that response; only the counts of cached tokens are lost.\<close>

theorem streamed_message_is_whole_message:
  assumes "valid_message dec w"
  shows "\<exists>r u st es. parse_response (message_json w) selected shown = Inr (r, map script_block (wm_scripts w)) \<and>
    fr_usage r = Some u \<and> cache_read_tokens u = Some (wm_cache_read w) \<and>
    run_stream_events dec willing (stream_state_new selected shown) (message_events w) [] = (Inr st, es) \<and>
    as_parsed st = Some (r\<lparr>fr_usage := Some (without_cache_counts u)\<rparr>, map script_block (wm_scripts w)) \<and>
    streamed_text es = visible_text (fr_content r) \<and> streamed_calls es = fr_calls r \<and>
    last es = ResponseCompleted (fr_finish r)"
proof -
  let ?cs = "streamed_calls (scripts_emits shown 0 (wm_scripts w))"
  from assms have valid: "list_all (valid_script dec) (wm_scripts w)" "wm_id w \<noteq> []" by (simp_all add: valid_message_def)
  obtain shown_blocks where blocks: "parse_blocks shown (map script_block (wm_scripts w)) = Inr (shown_blocks, ?cs)"
    "visible_text shown_blocks = streamed_text (scripts_emits shown 0 (wm_scripts w))"
    using parse_scripts [OF valid(1)] by blast
  have whole: "parse_response (message_json w) selected shown =
      Inr (read_as w shown_blocks ?cs (api_counts w (wm_output w)), map script_block (wm_scripts w))"
    using parse_message [OF valid(2) blocks(1) usage_objects(1)] parse_api_usage [OF assms, of "wm_output w"] assms
    by (simp add: message_json_def valid_message_def)
  obtain bs n where "map (\<lambda>(_, b). raw_block b) bs = map script_block (wm_scripts w)"
      and run: "run_stream_events dec willing (stream_state_new selected shown) (message_events w) [] =
        run_stream_events dec willing (opened_stream selected shown w n bs) [closing_event w, stopping_event]
          (opening_reports w @ scripts_emits shown 0 (wm_scripts w))"
    using run_message_blocks [OF assms] by blast
  from run_message_end [OF assms this(1) blocks(1)] whole blocks(2) show ?thesis
    unfolding run by (fastforce simp: read_as_def api_counts_def opening_reports_def)
qed


text \<open>A text in two pieces, a thought, and a call.\<close>

definition sample_decode :: "string \<Rightarrow> json option" where
  "sample_decode s = (if s = ''[path]'' then Some (JObject [(''path'', JString ''a.txt'')]) else None)"

definition sample_message :: whole_message where
  "sample_message =
     \<lparr>wm_id = ''msg_1'', wm_model = ''claude'',
      wm_scripts = [ThinkingScript [''hm''] ''sig'', TextScript [''Hel'', ''lo''],
        CallScript ''c1'' ''read_file'' [''[pa'', ''th]''] [(''path'', JString ''a.txt'')]],
      wm_reason = ''tool_use'', wm_input = 10, wm_output = 20, wm_cache_read = 7, wm_cache_creation = 3\<rparr>"

theorem streamed_message_is_whole_message_witness:
  "\<exists>r u st es. parse_response (message_json sample_message) ''claude'' False =
      Inr (r, map script_block (wm_scripts sample_message)) \<and>
    fr_usage r = Some u \<and> cache_read_tokens u = Some 7 \<and>
    run_stream_events sample_decode willing (stream_state_new ''claude'' False) (message_events sample_message) [] = (Inr st, es) \<and>
    as_parsed st = Some (r\<lparr>fr_usage := Some (without_cache_counts u)\<rparr>, map script_block (wm_scripts sample_message)) \<and>
    streamed_text es = visible_text (fr_content r) \<and> streamed_calls es = fr_calls r \<and>
    last es = ResponseCompleted (fr_finish r)"
proof -
  have "valid_message sample_decode sample_message" by code_simp
  moreover have "wm_cache_read sample_message = 7" by (simp add: sample_message_def)
  ultimately show ?thesis using streamed_message_is_whole_message [of sample_decode sample_message "''claude''" False]
    by simp
qed

section \<open>harness-models: how a stream ends\<close>

text \<open>
  Whatever a server sends: a streamed response comes with one completion event, the last event of
  the stream, and never with counts of cached tokens. And what is kept of the turns with tool
  calls is bounded, but not by age.
\<close>

subsection \<open>Steps that keep within some events\<close>

text \<open>A step that succeeds has emitted only such events, and its value is such.\<close>

definition keeps_to :: "(stream_event \<Rightarrow> bool) \<Rightarrow> 'a emitting \<Rightarrow> ('a \<Rightarrow> bool) \<Rightarrow> bool" where
  "keeps_to E m P \<longleftrightarrow> (\<forall>received x received'. m received = (Inr x, received') \<longrightarrow>
     (\<exists>es. received' = received @ es \<and> list_all E es) \<and> P x)"

named_theorems keeping

lemma keeps_to_yield [keeping]: "P x \<Longrightarrow> keeps_to E (yield_value x) P"
  by (auto simp: keeps_to_def)

lemma keeps_to_error [keeping]: "keeps_to E (yield_error err) P"
  by (auto simp: keeps_to_def)

lemma keeps_to_checked [keeping]: "(\<And>x. r = Inr x \<Longrightarrow> P x) \<Longrightarrow> keeps_to E (checked_step r) P"
  by (auto simp: keeps_to_def)

lemma keeps_to_required [keeping]: "(\<And>x. found = Some x \<Longrightarrow> P x) \<Longrightarrow> keeps_to E (required reason found) P"
  by (auto simp: keeps_to_def required_Inr)

lemma keeps_to_emit [keeping]: "E e \<Longrightarrow> P () \<Longrightarrow> keeps_to E (deliver sink e) P"
  by (auto simp: keeps_to_def emit_Inr)

lemma keeps_to_emit_if [keeping]: "E e \<Longrightarrow> P () \<Longrightarrow> keeps_to E (deliver_if b sink e) P"
  by (auto simp: keeps_to_def deliver_if_def emit_Inr)

lemma keeps_to_then:
  assumes "keeps_to E m Q" "\<And>x. Q x \<Longrightarrow> keeps_to E (f x) P"
  shows "keeps_to E (then_step m f) P"
  unfolding keeps_to_def
proof (intro allI impI)
  fix received y received''
  assume "then_step m f received = (Inr y, received'')"
  then obtain x received' where m: "m received = (Inr x, received')" and f: "f x received' = (Inr y, received'')"
    by (rule then_step_Inr)
  from m assms(1) have "Q x" and "\<exists>es. received' = received @ es \<and> list_all E es" by (auto simp: keeps_to_def)
  moreover from f assms(2) [OF \<open>Q x\<close>] have "P y" and "\<exists>es. received'' = received' @ es \<and> list_all E es"
    by (auto simp: keeps_to_def)
  ultimately show "(\<exists>es. received'' = received @ es \<and> list_all E es) \<and> P y" by force
qed

lemma keeps_to_then_any [keeping]:
  assumes "keeps_to E m (\<lambda>_. True)" "\<And>x. keeps_to E (f x) P"
  shows "keeps_to E (then_step m f) P"
  using keeps_to_then [OF assms(1), of f P] assms(2) by simp

lemma keeps_to_if [keeping]:
  "(b \<Longrightarrow> keeps_to E m P) \<Longrightarrow> (\<not> b \<Longrightarrow> keeps_to E m' P) \<Longrightarrow> keeps_to E (if b then m else m') P"
  by simp

lemma keeps_to_option [keeping]:
  "(x = None \<Longrightarrow> keeps_to E m P) \<Longrightarrow> (\<And>y. x = Some y \<Longrightarrow> keeps_to E (f y) P) \<Longrightarrow>
     keeps_to E (case x of None \<Rightarrow> m | Some y \<Rightarrow> f y) P"
  by (cases x) auto

lemma keeps_to_pair [keeping]:
  "(\<And>a b. x = (a, b) \<Longrightarrow> keeps_to E (f a b) P) \<Longrightarrow> keeps_to E (case x of (a, b) \<Rightarrow> f a b) P"
  by (cases x) auto

subsection \<open>Events before the end\<close>

definition no_completion :: "stream_event \<Rightarrow> bool" where
  "no_completion e \<longleftrightarrow> (case e of ResponseCompleted _ \<Rightarrow> False | _ \<Rightarrow> True)"

abbreviation goes_on :: "anthropic_stream \<Rightarrow> anthropic_stream emitting \<Rightarrow> bool" where
  "goes_on st m \<equiv> keeps_to no_completion m (\<lambda>st'. as_parsed st' = as_parsed st)"

lemma require_started_keeps [keeping]: "keeps_to E (require_started st) (\<lambda>_. True)"
  unfolding require_started_def by (intro keeping TrueI)

lemma stream_index_keeps [keeping]: "keeps_to E (stream_index event) (\<lambda>_. True)"
  unfolding stream_index_def by (intro keeping TrueI)

lemma message_started_goes_on: "goes_on st (message_started sink st event)"
  unfolding message_started_def Let_def by (intro keeping TrueI) (simp_all add: no_completion_def)

lemma block_started_goes_on: "goes_on st (block_started sink st event)"
  unfolding block_started_def by (intro keeping TrueI) (simp_all add: no_completion_def)

lemma apply_delta_keeps [keeping]: "keeps_to no_completion (apply_delta sink shown b delta) (\<lambda>_. True)"
  unfolding apply_delta_def by (intro keeping TrueI) (simp_all add: no_completion_def)

lemma block_delta_goes_on: "goes_on st (block_delta sink st event)"
  unfolding block_delta_def by (intro keeping TrueI) (simp_all add: no_completion_def)

lemma block_input_keeps [keeping]: "keeps_to E (block_input dec b) (\<lambda>_. True)"
  unfolding block_input_def by (intro keeping TrueI)

lemma block_stopped_goes_on: "goes_on st (block_stopped dec sink st event)"
  unfolding block_stopped_def Let_def by (intro keeping TrueI) (simp_all add: no_completion_def)

lemma message_changed_goes_on: "goes_on st (message_changed sink st event)"
  unfolding message_changed_def Let_def
  by (intro keeping TrueI) (simp_all add: no_completion_def split: option.split)

lemma go_on_step:
  assumes "goes_on st m" "then_step m (\<lambda>st. yield_value (True, st)) received = (Inr (go, st'), received')"
  shows "go \<and> as_parsed st' = as_parsed st \<and> (\<exists>es. received' = received @ es \<and> list_all no_completion es)"
  using assms by (auto simp: keeps_to_def elim!: then_step_Inr)

text \<open>The usage of an assembled message has no counts of cached tokens.\<close>

definition no_cache_counts :: "full_response \<Rightarrow> bool" where
  "no_cache_counts r \<longleftrightarrow>
     (\<forall>u. fr_usage r = Some u \<longrightarrow> cache_read_tokens u = None \<and> cache_creation_tokens u = None)"

lemma usage_json_cache: "cache_read_tokens (parse_usage (usage_json u)) = None"
  "cache_creation_tokens (parse_usage (usage_json u)) = None"
  by (simp_all add: parse_usage_def usage_json_def Let_def)

lemma parse_response_usage:
  assumes "parse_response v selected shown = Inr (r, raw)"
  shows "fr_usage r = (case json_get ''usage'' v of None \<Rightarrow> None | Some JNull \<Rightarrow> None | Some u \<Rightarrow> Some (parse_usage u))"
proof -
  from assms obtain c where "json_get ''content'' v = Some c"
    by (cases "json_get ''content'' v") (auto simp: parse_response_def split: if_splits)
  moreover from assms this obtain blocks where "c = JArray blocks"
    by (cases c) (auto simp: parse_response_def split: if_splits)
  moreover from assms calculation obtain p where "parse_blocks shown blocks = Inr p"
    by (cases "parse_blocks shown blocks") (auto simp: parse_response_def split: if_splits)
  moreover from assms calculation obtain a i where "json_text_at ''id'' v = Some (a # i)"
    by (cases "json_text_at ''id'' v"; cases "the (json_text_at ''id'' v)"; cases p)
      (auto simp: parse_response_def split: if_splits)
  ultimately show ?thesis using assms by (cases p) (auto simp: parse_response_def split: if_split_asm)
qed

lemma assembled_no_cache:
  assumes "parse_response (assembled_message st) selected shown = Inr (r, raw)"
  shows "no_cache_counts r"
proof (cases "as_usage st")
  case None
  then have "json_get ''usage'' (assembled_message st) = Some JNull"
    by (simp add: assembled_message_def json_optional_def)
  with parse_response_usage [OF assms] show ?thesis by (simp add: no_cache_counts_def)
next
  case (Some u)
  then have "json_get ''usage'' (assembled_message st) = Some (usage_json u)"
    by (simp add: assembled_message_def json_optional_def)
  moreover obtain kvs where "usage_json u = JObject kvs"
    using json_object_entries usage_objects(2) by metis
  ultimately have "fr_usage r = Some (parse_usage (usage_json u))" using parse_response_usage [OF assms] by simp
  then show ?thesis by (simp add: no_cache_counts_def usage_json_cache)
qed

lemma require_started_Inr:
  "require_started st received = (Inr x, received') \<longleftrightarrow> as_started st \<and> received' = received"
  by (auto simp: require_started_def)

lemma stop_step:
  assumes "message_stopped sink st received = (Inr st', received')"
  shows "\<exists>r raw es. as_parsed st' = Some (r, raw) \<and> no_cache_counts r \<and>
    received' = received @ es @ [ResponseCompleted (fr_finish r)] \<and> list_all no_completion es"
proof -
  from assms obtain r raw received1 where "parse_response (assembled_message st) (as_model st) (as_shown st) = Inr (r, raw)"
      and usage: "(case fr_usage r of None \<Rightarrow> yield_value () | Some u \<Rightarrow> deliver sink (UsageUpdated u)) received = (Inr (), received1)"
      and last: "received' = received1 @ [ResponseCompleted (fr_finish r)]" "as_parsed st' = Some (r, raw)"
    by (auto simp: message_stopped_def require_started_Inr emit_Inr elim!: then_step_Inr)
  then have "no_cache_counts r" by (simp add: assembled_no_cache)
  moreover have "\<exists>es. received1 = received @ es \<and> list_all no_completion es"
    using usage by (cases "fr_usage r") (auto simp: emit_Inr no_completion_def)
  ultimately show ?thesis using last by auto
qed

lemma event_step:
  assumes "handle_event dec sink st event received = (Inr (go, st'), received')"
  shows "if go then as_parsed st' = as_parsed st \<and> (\<exists>es. received' = received @ es \<and> list_all no_completion es)
    else \<exists>r raw es. as_parsed st' = Some (r, raw) \<and> no_cache_counts r \<and>
      received' = received @ es @ [ResponseCompleted (fr_finish r)] \<and> list_all no_completion es"
proof (cases "json_type event = Some ''message_stop''")
  case True
  with assms show ?thesis
    by (auto simp: handle_event_def Let_def elim!: then_step_Inr dest!: stop_step)
next
  case False
  note steps = message_started_goes_on block_started_goes_on block_delta_goes_on block_stopped_goes_on
    message_changed_goes_on
  from False assms show ?thesis
    by (auto simp: handle_event_def Let_def split: if_splits dest!: go_on_step [OF steps(1)] go_on_step [OF steps(2)]
        go_on_step [OF steps(3)] go_on_step [OF steps(4)] go_on_step [OF steps(5)])
qed

subsection \<open>The whole stream\<close>

text \<open>What holds before each payload holds at the end, or what the last payload made.\<close>

lemma dispatch_rule:
  assumes "dispatch_data f s data = (Inr go, s')" "P s"
    and "\<And>s data s' go. P s \<Longrightarrow> f s data = (Inr go, s') \<Longrightarrow> if go then P s' else Q s'"
  shows "if go then P s' else Q s'"
  using assms by (auto simp: dispatch_data_def split: if_splits)

lemma sse_loop_rule:
  assumes "sse_loop provider interrupted f k r line data s = (Inr (), s')" "P s"
    and step: "\<And>s data s' go. P s \<Longrightarrow> f s data = (Inr go, s') \<Longrightarrow> if go then P s' else Q s'"
  shows "P s' \<or> Q s'"
  using assms(1,2)
proof (induction "stream_weight r" arbitrary: k r line data s rule: less_induct)
  case less
  obtain result line1 r1 where read: "read_line r line = (result, line1, r1)" by (metis prod_cases3)
  note lighter = read_line_weight [OF read]
  from less.prems(1) have go_on: "interrupted k = None"
    by (cases "interrupted k") (auto simp: sse_loop.simps [of _ _ _ k])
  show ?case
  proof (cases result)
    case (LineRead n)
    show ?thesis
    proof (cases "n = 0")
      case True
      with LineRead read less.prems(1) go_on obtain go
        where "dispatch_data f s (add_payload data (trim_line_end line1)) = (Inr go, s')"
        by (auto simp: sse_loop.simps [of _ _ _ k] split: prod.splits sum.splits)
      then have "if go then P s' else Q s'" using less.prems(2) step by (rule dispatch_rule)
      then show ?thesis by (auto split: if_splits)
    next
      case False
      with LineRead have lighter: "stream_weight r1 < stream_weight r" by (intro lighter) auto
      show ?thesis
      proof (cases "trim_line_end line1 = []")
        case True
        obtain res s1 where sent: "dispatch_data f s data = (res, s1)" by (cases "dispatch_data f s data")
        with True False LineRead read less.prems(1) go_on obtain go where res: "res = Inr go"
            "if go then sse_loop provider interrupted f (k + 1) r1 [] [] s1 = (Inr (), s') else s1 = s'"
          by (auto simp: sse_loop.simps [of _ _ _ k] split: sum.splits if_splits)
        have "if go then P s1 else Q s1" using sent [unfolded res(1)] less.prems(2) step by (rule dispatch_rule)
        with res(2) less.hyps [OF lighter] show ?thesis by (auto split: if_splits)
      next
        case new: False
        with False LineRead read less.prems(1) go_on
        have "sse_loop provider interrupted f (k + 1) r1 [] (add_payload data (trim_line_end line1)) s = (Inr (), s')"
          by (simp add: sse_loop.simps [of _ _ _ k])
        from less.hyps [OF lighter this less.prems(2)] show ?thesis .
      qed
    qed
  next
    case LineTimedOut
    with read less.prems(1) go_on have "sse_loop provider interrupted f (k + 1) r1 line1 data s = (Inr (), s')"
      by (simp add: sse_loop.simps [of _ _ _ k])
    moreover from LineTimedOut have "stream_weight r1 < stream_weight r" by (intro lighter) auto
    ultimately show ?thesis using less.hyps less.prems(2) by blast
  qed (use read less.prems(1) go_on in \<open>auto simp: sse_loop.simps [of _ _ _ k]\<close>)
qed

text \<open>C23: whatever the server sends and wherever reads time out, a streamed response comes with exactly one
  completion event, the last one, which names its finish reason; and its usage never has counts of
  cached tokens, also when the server sent them.\<close>

theorem streamed_response_is_completed_once:
  assumes "stream_request h tr r m sink [] = (Inr response, tr', received)"
  shows "\<exists>es. received = es @ [ResponseCompleted (fr_finish response)] \<and>
    (\<forall>e \<in> set es. \<forall>reason. e \<noteq> ResponseCompleted reason) \<and>
    (\<forall>u. fr_usage response = Some u \<longrightarrow> cache_read_tokens u = None \<and> cache_creation_tokens u = None)"
proof -
  let ?f = "handle_data (decode_json h) sink"
  let ?P = "\<lambda>(st, es). as_parsed st = None \<and> list_all no_completion es"
  let ?Q = "\<lambda>(st, es'). \<exists>r raw es. as_parsed st = Some (r, raw) \<and> no_cache_counts r \<and>
    es' = es @ [ResponseCompleted (fr_finish r)] \<and> list_all no_completion es"
  have step: "if go then ?P s' else ?Q s'" if P: "?P s" and f: "?f s data = (Inr go, s')" for s data s' go
  proof -
    obtain st es st' es' where s: "s = (st, es)" "s' = (st', es')" by (cases s; cases s')
    with f obtain event where "handle_event (decode_json h) sink st event es = (Inr (go, st'), es')"
      by (auto simp: handle_data_def split: option.splits prod.splits sum.splits)
    from event_step [OF this] P s show ?thesis by (cases go) auto
  qed
  from assms obtain reply :: http_reply and st raw
    where stream: "for_each_sse_data anthropic (stopped_before_read h) (reply_stream reply) ?f
        (stream_state_new m (reasoning_shown r), []) = (Inr (), (st, received))"
      and parsed: "as_parsed st = Some (response, raw)"
    by (auto simp: stream_request_def split: if_splits sum.splits prod.splits option.splits)
  have "?P (stream_state_new m (reasoning_shown r), [])" by (simp add: stream_state_new_def)
  from sse_loop_rule [OF stream [unfolded for_each_sse_data_def], of ?P ?Q, OF this step] parsed
  have "?Q (st, received)" by auto
  with parsed show ?thesis
    by (fastforce simp: no_cache_counts_def list_all_iff no_completion_def)
qed

subsection \<open>Turns with tool calls\<close>

text \<open>The kept turns are a map, of at most 256 calls; \<open>first_key\<close> yields one of its keys.\<close>

definition turns_ok :: "anthropic_transport \<Rightarrow> bool" where
  "turns_ok tr \<longleftrightarrow> distinct (map fst (at_turns tr)) \<and> length (at_turns tr) \<le> max_cached_tool_turns"

definition yields_key :: "((string \<times> json list) list \<Rightarrow> string) \<Rightarrow> bool" where
  "yields_key first_key \<longleftrightarrow> (\<forall>kept. kept \<noteq> [] \<longrightarrow> first_key kept \<in> fst ` set kept)"

lemma delete_absent: "k \<notin> fst ` set kept \<Longrightarrow> AList.delete k kept = kept"
  by (induction kept) auto

lemma length_delete_key:
  assumes "distinct (map fst kept)" "k \<in> fst ` set kept"
  shows "length (AList.delete k kept) = length kept - 1"
  using assms
proof (induction kept)
  case (Cons p kept)
  show ?case
  proof (cases "fst p = k")
    case True
    with Cons.prems(1) have "k \<notin> fst ` set kept" by auto
    then have "AList.delete k kept = kept" by (rule delete_absent)
    with True show ?thesis by (cases p) (simp add: AList.delete_eq)
  next
    case False
    with Cons have "length (AList.delete k kept) = length kept - 1" "kept \<noteq> []" by auto
    with False show ?thesis by (cases p; cases kept) (simp_all add: AList.delete_eq)
  qed
qed simp

lemma forget_turns_ok:
  assumes "yields_key first_key" "distinct (map fst kept)" "n \<le> length kept"
  shows "distinct (map fst (forget_turns first_key n kept)) \<and> length (forget_turns first_key n kept) = length kept - n \<and>
    set (forget_turns first_key n kept) \<subseteq> set kept"
  using assms(2,3)
proof (induction n arbitrary: kept)
  case (Suc n)
  then have "kept \<noteq> []" by auto
  with assms(1) have "first_key kept \<in> fst ` set kept" by (simp add: yields_key_def)
  note shorter = length_delete_key [OF Suc.prems(1) this]
  have "distinct (map fst (AList.delete (first_key kept) kept))" using Suc.prems(1) by (rule distinct_delete)
  moreover have "n \<le> length (AList.delete (first_key kept) kept)" using shorter Suc.prems(2) by linarith
  ultimately have IH: "distinct (map fst (forget_turns first_key n (AList.delete (first_key kept) kept)))"
      "length (forget_turns first_key n (AList.delete (first_key kept) kept)) = length (AList.delete (first_key kept) kept) - n"
      "set (forget_turns first_key n (AList.delete (first_key kept) kept)) \<subseteq> set (AList.delete (first_key kept) kept)"
    using Suc.IH by blast+
  have "set (AList.delete (first_key kept) kept) \<subseteq> set kept" by (auto simp: AList.delete_eq)
  with IH(3) have "set (forget_turns first_key n (AList.delete (first_key kept) kept)) \<subseteq> set kept" by (rule subset_trans)
  with IH(1,2) shorter show ?case unfolding forget_turns.simps by simp
qed simp

lemma set_update: "set (AList.update k v kept) \<subseteq> insert (k, v) (set kept)"
  by (induction kept) auto

lemma update_turns:
  "distinct (map fst kept) \<Longrightarrow> distinct (map fst (foldl (\<lambda>kept c. AList.update (call_id c) raw kept) kept cs)) \<and>
   snd ` set (foldl (\<lambda>kept c. AList.update (call_id c) raw kept) kept cs) \<subseteq> insert raw (snd ` set kept)"
proof (induction cs arbitrary: kept)
  case (Cons c cs)
  have "snd ` set (AList.update (call_id c) raw kept) \<subseteq> insert raw (snd ` set kept)"
    using set_update [of "call_id c" raw kept] by auto
  moreover note Cons.IH [OF distinct_update [OF Cons.prems], of "call_id c" raw]
  ultimately show ?case unfolding foldl_Cons by blast
qed auto

text \<open>at most 256 native turns are kept, each as the model sent it.\<close>

theorem kept_turns_are_bounded:
  assumes "yields_key first_key" "turns_ok tr"
  shows "turns_ok (remember_tool_turn first_key (r, raw) tr) \<and>
    snd ` set (at_turns (remember_tool_turn first_key (r, raw) tr)) \<subseteq> insert raw (snd ` set (at_turns tr))"
proof (cases "fr_calls r = []")
  case False
  let ?kept = "foldl (\<lambda>kept c. AList.update (call_id c) raw kept) (at_turns tr) (fr_calls r)"
  have updated: "distinct (map fst ?kept)" "snd ` set ?kept \<subseteq> insert raw (snd ` set (at_turns tr))"
    using update_turns [OF assms(2) [unfolded turns_ok_def, THEN conjunct1], of raw "fr_calls r"] by blast+
  let ?left = "forget_turns first_key (length ?kept - max_cached_tool_turns) ?kept"
  have left: "distinct (map fst ?left)" "length ?left \<le> max_cached_tool_turns" "set ?left \<subseteq> set ?kept"
    using forget_turns_ok [OF assms(1) updated(1), of "length ?kept - max_cached_tool_turns", OF diff_le_self]
    by (blast, linarith, blast)
  then have "snd ` set ?left \<subseteq> insert raw (snd ` set (at_turns tr))" using updated(2) by blast
  moreover have "at_turns (remember_tool_turn first_key (r, raw) tr) = ?left"
    using False by (simp add: remember_tool_turn_def Let_def)
  ultimately show ?thesis using left(1,2) by (simp only: turns_ok_def simp_thms)
next
  case True
  then have "remember_tool_turn first_key (r, raw) tr = tr" by (simp add: remember_tool_turn_def)
  with assms(2) show ?thesis by auto
qed

text \<open>when 256 turns are kept, the one just received can be the one that is forgotten, although the code
  calls it the oldest: a hash map yields its keys in no order. Its signed thinking is then missing
  from the next request.\<close>

theorem newest_turn_can_be_forgotten:
  assumes "turns_ok tr" "length (at_turns tr) = max_cached_tool_turns" "fr_calls r = [c]"
    and "call_id c \<notin> fst ` set (at_turns tr)" "first_key (AList.update (call_id c) raw (at_turns tr)) = call_id c"
    and "role msg = AssistantRole" "tool_calls msg = [c]" "content msg = []"
  shows "at_turns (remember_tool_turn first_key (r, raw) tr) = at_turns tr \<and>
    message_blocks (at_turns (remember_tool_turn first_key (r, raw) tr)) msg = [(''assistant'', anthropic_tool_use c)]"
proof -
  have new: "AList.update (call_id c) raw kept = kept @ [(call_id c, raw)]" if "call_id c \<notin> fst ` set kept" for kept
    using that by (induction kept) auto
  have "AList.delete (call_id c) (at_turns tr @ [(call_id c, raw)]) = at_turns tr"
    using delete_absent [OF assms(4)] by (simp add: AList.delete_eq)
  with new [OF assms(4)] assms(2,3,5) have same: "at_turns (remember_tool_turn first_key (r, raw) tr) = at_turns tr"
    by (simp add: remember_tool_turn_def Let_def)
  have "map_of (at_turns tr) (call_id c) = None" using assms(4) by (simp add: map_of_eq_None_iff)
  with same assms(6-8) show ?thesis
    by (simp add: message_blocks_def assistant_blocks_def cached_assistant_content_def List.map_filter_simps)
qed

subsection \<open>Examples\<close>

definition one_call :: full_response where
  "one_call = \<lparr>fr_id = ''m'', fr_model = ''claude'', fr_content = [], fr_calls =
     [\<lparr>call_id = ''new'', call_name = ''read_file'', arguments = JObject []\<rparr>], fr_finish = FinishToolCalls, fr_usage = None\<rparr>"

definition full_transport :: anthropic_transport where
  "full_transport = \<lparr>at_base_url = ''https://api'', at_key_env = ''KEY'', at_key = Some ''k'',
     at_turns = map (\<lambda>n. (replicate n (CHR ''x''), [])) [0..<256]\<rparr>"

lemma full_transport_ok: "turns_ok full_transport" "length (at_turns full_transport) = max_cached_tool_turns"
  "''new'' \<notin> fst ` set (at_turns full_transport)"
proof -
  have "inj (\<lambda>n. replicate n (CHR ''x''))" by (rule injI) (metis length_replicate)
  then show "turns_ok full_transport"
    by (simp add: turns_ok_def full_transport_def max_cached_tool_turns_def comp_def distinct_map inj_on_def inj_def)
  show "length (at_turns full_transport) = max_cached_tool_turns"
    by (simp add: full_transport_def max_cached_tool_turns_def)
  show "''new'' \<notin> fst ` set (at_turns full_transport)"
  proof
    assume "''new'' \<in> fst ` set (at_turns full_transport)"
    then obtain n where "''new'' = replicate n (CHR ''x'')" by (auto simp: full_transport_def)
    then have "CHR ''n'' \<in> set (replicate n (CHR ''x''))" by (metis list.set_intros(1))
    then show False by simp
  qed
qed

theorem kept_turns_are_bounded_witness:
  "turns_ok (remember_tool_turn (\<lambda>kept. fst (hd kept)) (one_call, [JNull]) full_transport) \<and>
   snd ` set (at_turns (remember_tool_turn (\<lambda>kept. fst (hd kept)) (one_call, [JNull]) full_transport))
     \<subseteq> insert [JNull] (snd ` set (at_turns full_transport))"
proof (rule kept_turns_are_bounded [OF _ full_transport_ok(1)])
  show "yields_key (\<lambda>kept. fst (hd kept))" by (simp add: yields_key_def)
qed

theorem newest_turn_can_be_forgotten_witness:
  "at_turns (remember_tool_turn (\<lambda>kept. fst (last kept)) (one_call, [JNull]) full_transport) = at_turns full_transport \<and>
   message_blocks (at_turns (remember_tool_turn (\<lambda>kept. fst (last kept)) (one_call, [JNull]) full_transport))
     (assistant_tool_calls (fr_calls one_call)) =
     [(''assistant'', anthropic_tool_use \<lparr>call_id = ''new'', call_name = ''read_file'', arguments = JObject []\<rparr>)]"
proof (rule newest_turn_can_be_forgotten [OF full_transport_ok(1,2)])
  have "AList.update k v kept = kept @ [(k, v)]" if "k \<notin> fst ` set kept" for k v and kept :: "(string \<times> json list) list"
    using that by (induction kept) auto
  from this [OF full_transport_ok(3)]
  show "fst (last (AList.update (call_id \<lparr>call_id = ''new'', call_name = ''read_file'', arguments = JObject []\<rparr>)
      [JNull] (at_turns full_transport))) = call_id \<lparr>call_id = ''new'', call_name = ''read_file'', arguments = JObject []\<rparr>"
    by simp
qed (use full_transport_ok(3) in \<open>simp_all add: one_call_def assistant_tool_calls_def plain_message_def\<close>)

text \<open>A short streamed answer: every payload of the transport is \<open>data\<close> of one event.\<close>

definition short_answer :: whole_message where
  "short_answer = sample_message\<lparr>wm_scripts := [TextScript [''hi'']]\<rparr>"

definition short_http :: model_http where
  "short_http =
     \<lparr>post = (\<lambda>_ _ _ _. Inr \<lparr>reply_json = None, reply_stream = \<lparr>stretches =
          [concat (map (\<lambda>n. ''data: '' @ show_nat n @ [newline, newline]) [0..<length (message_events short_answer)])],
          stream_end = EndOfStream\<rparr>\<rparr>),
      decode_json = (\<lambda>s. case parse_u64 s of None \<Rightarrow> None | Some n \<Rightarrow>
         if n < length (message_events short_answer) then Some (message_events short_answer ! n) else None),
      any_key = (\<lambda>kept. fst (hd kept)), stopped_before_read = (\<lambda>_. None),
      cancelled_first = False, cancelled_last = False\<rparr>"

definition fresh_transport :: anthropic_transport where
  "fresh_transport = transport_new ''https://api'' ''KEY'' (Some ''k'')"

theorem streamed_response_is_completed_once_witness:
  "\<exists>response tr received es.
     stream_request short_http fresh_transport (model_request_new ''claude'' [user_text ''Hi'']) ''claude'' willing [] =
       (Inr response, tr, received) \<and> received = es @ [ResponseCompleted (fr_finish response)]"
proof -
  have "case fst (stream_request short_http fresh_transport (model_request_new ''claude'' [user_text ''Hi'']) ''claude'' willing [])
      of Inr _ \<Rightarrow> True | Inl _ \<Rightarrow> False"
    by code_simp
  then obtain response tr received where
    "stream_request short_http fresh_transport (model_request_new ''claude'' [user_text ''Hi'']) ''claude'' willing [] =
       (Inr response, tr, received)"
    by (cases "stream_request short_http fresh_transport (model_request_new ''claude'' [user_text ''Hi'']) ''claude'' willing []")
      (auto split: sum.splits)
  from this streamed_response_is_completed_once [OF this] show ?thesis by blast
qed

end
