(* ===== verification/Model_Registry.thy ===== *)
theory Model_Registry
  imports Model_Config Files
begin

section \<open>harness-models: the registry of models\<close>

text \<open>
  \<open>harness-models/src/registry.rs\<close>: the catalogues of the providers, the models configured by hand,
  the default of each provider, and the cache file they are kept in. Maps are \<open>BTreeMap\<close>s, in
  the order of their keys. Providers, the JSON text of the cache and the clock are parameters, and
  so is whether an operation on a file fails.
\<close>

subsection \<open>What is known of a model\<close>

datatype metadata_source = SourceUnknown | SourceDiscovered | SourceCached | SourceManual

datatype capability_knowledge = KnownUnknown | KnownSupported | KnownUnsupported

datatype model_capability =
  CapText | CapVision | CapStreaming | CapToolCalling | CapParallelCalls | CapReasoning | CapEffort | CapStructured

instantiation model_capability :: enum
begin

definition enum_model_capability :: "model_capability list" where
  "enum_model_capability =
     [CapText, CapVision, CapStreaming, CapToolCalling, CapParallelCalls, CapReasoning, CapEffort, CapStructured]"

definition enum_all_model_capability :: "(model_capability \<Rightarrow> bool) \<Rightarrow> bool" where
  "enum_all_model_capability P \<longleftrightarrow> list_all P enum_class.enum"

definition enum_ex_model_capability :: "(model_capability \<Rightarrow> bool) \<Rightarrow> bool" where
  "enum_ex_model_capability P \<longleftrightarrow> list_ex P enum_class.enum"

instance
proof
  show all: "UNIV = set (enum_class.enum :: model_capability list)"
    by (auto simp: enum_model_capability_def intro: model_capability.exhaust)
  show "distinct (enum_class.enum :: model_capability list)" by (simp add: enum_model_capability_def)
  show "enum_class.enum_all P \<longleftrightarrow> Ball (UNIV :: model_capability set) P" for P
    by (simp add: enum_all_model_capability_def list_all_iff all)
  show "enum_class.enum_ex P \<longleftrightarrow> Bex (UNIV :: model_capability set) P" for P
    by (simp add: enum_ex_model_capability_def list_ex_iff all)
qed

end

text \<open>\<open>ModelCapabilityKnowledgeMap\<close>, with its \<open>get\<close>.\<close>

type_synonym knowledge_map = "model_capability \<Rightarrow> capability_knowledge"

record listed_pricing =
  input_price :: "string option"
  output_price :: "string option"

record model_metadata =
  md_source :: metadata_source
  md_stale :: bool
  md_refreshed :: "nat option"
  md_known :: knowledge_map
  md_levels :: "reasoning_effort list option"
  md_pricing :: "listed_pricing option"

definition metadata_default :: model_metadata where
  "metadata_default =
     \<lparr>md_source = SourceUnknown, md_stale = False, md_refreshed = None, md_known = (\<lambda>_. KnownUnknown),
      md_levels = None, md_pricing = None\<rparr>"

record listed_model = model_descriptor +
  listed_metadata :: model_metadata

fun claims :: "model_capabilities \<Rightarrow> model_capability \<Rightarrow> bool" where
  "claims c CapText = text_input c"
| "claims c CapVision = image_input c"
| "claims c CapStreaming = streaming c"
| "claims c CapToolCalling = tool_calling c"
| "claims c CapParallelCalls = parallel_tool_calls c"
| "claims c CapReasoning = reasoning c"
| "claims c CapEffort = configurable_reasoning_effort c"
| "claims c CapStructured = structured_output c"

definition record_known_support :: "model_capabilities \<Rightarrow> knowledge_map \<Rightarrow> knowledge_map" where
  "record_known_support c known =
     (\<lambda>cap. if known cap = KnownUnknown \<and> claims c cap then KnownSupported else known cap)"

definition change_metadata :: "(model_metadata \<Rightarrow> model_metadata) \<Rightarrow> listed_model \<Rightarrow> listed_model" where
  "change_metadata f m = m\<lparr>listed_metadata := f (listed_metadata m)\<rparr>"

definition record_capability_knowledge :: "listed_model \<Rightarrow> listed_model" where
  "record_capability_knowledge m =
     change_metadata (\<lambda>d. d\<lparr>md_known := record_known_support (descriptor_capabilities m) (md_known d)\<rparr>) m"

record capability_requirement =
  wanted_capability :: model_capability
  wanted_support :: capability_knowledge

record registry_filter =
  filter_provider :: "string option"
  filter_requirements :: "capability_requirement list"

definition no_filter :: registry_filter where
  "no_filter = \<lparr>filter_provider = None, filter_requirements = []\<rparr>"

definition matches_filter :: "listed_model \<Rightarrow> registry_filter \<Rightarrow> bool" where
  "matches_filter m f \<longleftrightarrow>
     (case filter_provider f of None \<Rightarrow> True | Some p \<Rightarrow> descriptor_provider m = p) \<and>
     list_all (\<lambda>q. md_known (listed_metadata m) (wanted_capability q) = wanted_support q) (filter_requirements f)"

subsection \<open>The state\<close>

record catalog_record =
  cr_refreshed :: nat
  cr_models :: "listed_model list"

record catalog_state =
  catalogs :: "(string \<times> catalog_record) list"
  manual_models_of :: "(string \<times> listed_model) list"
  defaults_of :: "(string \<times> string) list"

definition empty_state :: catalog_state where
  "empty_state = \<lparr>catalogs = [], manual_models_of = [], defaults_of = []\<rparr>"

datatype registry_error = ProviderNotRegistered string | CatalogRefreshFailed string | CacheFailed | RegistryConfiguration

fun registry_error_text :: "registry_error \<Rightarrow> string" where
  "registry_error_text (ProviderNotRegistered p) = ''model provider '' @ [CHR 0x27] @ p @ [CHR 0x27] @ '' is not registered''"
| "registry_error_text (CatalogRefreshFailed e) = ''provider catalog refresh failed: '' @ e"
| "registry_error_text CacheFailed = ''model catalog cache could not be read or written''"
| "registry_error_text RegistryConfiguration = ''model provider configuration is invalid''"

text \<open>
  The disk maps paths to contents. \<open>reg_reads\<close> counts what was asked of the outside: readings of
  the clock and operations on files.
\<close>

record 'p registry =
  reg_providers :: "(string \<times> 'p) list"
  reg_state :: catalog_state
  reg_path :: "path option"
  reg_ttl :: nat
  reg_disk :: "path \<rightharpoonup> string"
  reg_reads :: nat

text \<open>\<open>io_stops\<close> says after how many bytes an operation on a file fails, if it does.\<close>

record 'p registry_env =
  unix_time :: "nat \<Rightarrow> nat"
  io_stops :: "nat \<Rightarrow> nat option"
  encode_cache :: "nat \<Rightarrow> catalog_state \<Rightarrow> string"
  decode_cache :: "string \<Rightarrow> (nat \<times> catalog_state) option"
  refresh_models :: "'p \<Rightarrow> provider_error + listed_model list"
  make_provider :: "model_config \<Rightarrow> 'p option"

definition cache_schema :: nat where "cache_schema = 1"
definition default_ttl :: nat where "default_ttl = 24 * 60 * 60"

definition read_clock_of :: "'p registry_env \<Rightarrow> 'p registry \<Rightarrow> nat \<times> 'p registry" where
  "read_clock_of env r = (unix_time env (reg_reads r), r\<lparr>reg_reads := reg_reads r + 1\<rparr>)"

text \<open>\<open>entry(key).or_insert(value)\<close>.\<close>

definition or_insert :: "'k::linorder \<Rightarrow> 'v \<Rightarrow> ('k \<times> 'v) list \<Rightarrow> ('k \<times> 'v) list" where
  "or_insert k v m = (case map_of m k of None \<Rightarrow> tree_map_insert k v m | Some _ \<Rightarrow> m)"

subsection \<open>The cache file\<close>

text \<open>\<open>with_extension("json.tmp")\<close>: a path without a file name stays as it is.\<close>

definition temporary_of :: "path \<Rightarrow> path" where
  "temporary_of p = (case file_stem p of None \<Rightarrow> p | Some stem \<Rightarrow> with_file_name p (stem @ ''.json.tmp''))"

definition try_io :: "'p registry_env \<Rightarrow> 'p registry \<Rightarrow> nat option \<times> 'p registry" where
  "try_io env r = (io_stops env (reg_reads r), r\<lparr>reg_reads := reg_reads r + 1\<rparr>)"

text \<open>Creating the directory, writing the temporary file, renaming it over the cache.\<close>

definition persist_cache :: "'p registry_env \<Rightarrow> 'p registry \<Rightarrow> (registry_error + unit) \<times> 'p registry" where
  "persist_cache env r =
     (case reg_path r of
        None \<Rightarrow> (Inr (), r)
      | Some p \<Rightarrow>
          if path_parent p = None then (Inl CacheFailed, r)
          else
            let text_of = encode_cache env cache_schema (reg_state r) in
            (case try_io env r of
               (Some _, r) \<Rightarrow> (Inl CacheFailed, r)
             | (None, r) \<Rightarrow>
                 (case try_io env r of
                    (Some n, r) \<Rightarrow> (Inl CacheFailed, r\<lparr>reg_disk := (reg_disk r)(temporary_of p \<mapsto> take n text_of)\<rparr>)
                  | (None, r) \<Rightarrow>
                      let r = r\<lparr>reg_disk := (reg_disk r)(temporary_of p \<mapsto> text_of)\<rparr> in
                      (case try_io env r of
                         (Some _, r) \<Rightarrow> (Inl CacheFailed, r)
                       | (None, r) \<Rightarrow>
                           (Inr (), r\<lparr>reg_disk := ((reg_disk r)(temporary_of p := None))(p \<mapsto> text_of)\<rparr>)))))"

definition load_cache :: "'p registry_env \<Rightarrow> (path \<rightharpoonup> string) \<Rightarrow> path \<Rightarrow> catalog_state option" where
  "load_cache env disk p =
     Option.bind (disk p) (\<lambda>bytes. Option.bind (decode_cache env bytes) (\<lambda>(schema, st).
       if schema \<noteq> cache_schema then None else Some st))"

definition is_stale_at :: "nat \<Rightarrow> nat \<Rightarrow> nat \<Rightarrow> bool" where
  "is_stale_at ttl refreshed present \<longleftrightarrow> present - refreshed > ttl"

definition mark_catalog :: "nat \<Rightarrow> nat \<Rightarrow> catalog_record \<Rightarrow> catalog_record" where
  "mark_catalog ttl present c =
     c\<lparr>cr_models := map (change_metadata (\<lambda>d. d\<lparr>md_source := SourceCached, md_refreshed := Some (cr_refreshed c),
         md_stale := is_stale_at ttl (cr_refreshed c) present\<rparr>)) (cr_models c)\<rparr>"

definition mark_cached_records :: "nat \<Rightarrow> nat \<Rightarrow> catalog_state \<Rightarrow> catalog_state" where
  "mark_cached_records ttl present st =
     st\<lparr>catalogs := map (map_prod id (mark_catalog ttl present)) (catalogs st),
        manual_models_of := map (map_prod id (change_metadata (\<lambda>d. d\<lparr>md_source := SourceManual\<rparr>))) (manual_models_of st)\<rparr>"

definition registry_new :: "'p registry_env \<Rightarrow> (path \<rightharpoonup> string) \<Rightarrow> nat \<Rightarrow> path option \<Rightarrow> nat \<Rightarrow> 'p registry" where
  "registry_new env disk reads cache_path ttl =
     (let st = (case Option.bind cache_path (load_cache env disk) of None \<Rightarrow> empty_state | Some st \<Rightarrow> st)
      in \<lparr>reg_providers = [], reg_state = mark_cached_records ttl (unix_time env reads) st, reg_path = cache_path,
          reg_ttl = ttl, reg_disk = disk, reg_reads = reads + 1\<rparr>)"

subsection \<open>Providers, defaults and manual models\<close>

definition canonical_key :: "string \<Rightarrow> string \<Rightarrow> string" where
  "canonical_key p i =
     p @ ''/'' @ (case strip_prefix_str p i of
        None \<Rightarrow> i
      | Some rest \<Rightarrow> (case strip_prefix_str ''/'' rest of None \<Rightarrow> i | Some s \<Rightarrow> s))"

definition manual_descriptor :: "string \<Rightarrow> string \<Rightarrow> string option \<Rightarrow> listed_model" where
  "manual_descriptor p i shown_name =
     \<lparr>descriptor_provider = p, descriptor_id = i,
      descriptor_name = (case shown_name of None \<Rightarrow> i | Some n \<Rightarrow> n),
      descriptor_capabilities = no_capabilities, listed_metadata = metadata_default\<lparr>md_source := SourceManual\<rparr>\<rparr>"

definition register_provider :: "string \<Rightarrow> 'p \<Rightarrow> 'p registry \<Rightarrow> 'p registry" where
  "register_provider i p r = r\<lparr>reg_providers := tree_map_insert i p (reg_providers r)\<rparr>"

definition set_default_model :: "'p registry_env \<Rightarrow> string \<Rightarrow> string \<Rightarrow> 'p registry \<Rightarrow> 'p registry" where
  "set_default_model env p i r =
     snd (persist_cache env (r\<lparr>reg_state := (reg_state r)
       \<lparr>defaults_of := tree_map_insert p i (defaults_of (reg_state r)),
        manual_models_of := or_insert (canonical_key p i) (manual_descriptor p i None) (manual_models_of (reg_state r))\<rparr>\<rparr>))"

definition default_model :: "string \<Rightarrow> 'p registry \<Rightarrow> string option" where
  "default_model p r = map_of (defaults_of (reg_state r)) p"

definition register_manual_model :: "'p registry_env \<Rightarrow> string \<Rightarrow> string \<Rightarrow> string option \<Rightarrow> 'p registry \<Rightarrow> 'p registry" where
  "register_manual_model env p i shown_name r =
     snd (persist_cache env (r\<lparr>reg_state := (reg_state r)
       \<lparr>manual_models_of := or_insert (canonical_key p i) (manual_descriptor p i shown_name) (manual_models_of (reg_state r))\<rparr>\<rparr>))"

definition register_configured_model ::
  "'p registry_env \<Rightarrow> model_config \<Rightarrow> 'p registry \<Rightarrow> (registry_error + unit) \<times> 'p registry" where
  "register_configured_model env c r =
     (case make_provider env c of
        None \<Rightarrow> (Inl RegistryConfiguration, r)
      | Some p \<Rightarrow>
          let i = provider_id (config_provider c)
          in (Inr (), register_manual_model env i (config_model c) None
                (set_default_model env i (config_model c) (register_provider i p r))))"

definition register_builtin :: "'p registry_env \<Rightarrow> model_config \<Rightarrow> 'p registry \<Rightarrow> provider_kind \<Rightarrow> 'p registry" where
  "register_builtin env active r kind =
     (let c = (if config_provider active = kind then active else config_for_provider kind);
          i = provider_id kind;
          r = (case make_provider env c of None \<Rightarrow> r | Some p \<Rightarrow> register_provider i p r);
          r = set_default_model env i (config_model c) r
      in if config_provider active = kind then register_manual_model env i (config_model c) None r else r)"

definition with_builtins ::
  "'p registry_env \<Rightarrow> (path \<rightharpoonup> string) \<Rightarrow> nat \<Rightarrow> model_config \<Rightarrow> path option \<Rightarrow> 'p registry" where
  "with_builtins env disk reads active cache_path =
     foldl (register_builtin env active) (registry_new env disk reads cache_path default_ttl)
       [MockProvider, OpenAiProvider, AnthropicProvider, GeminiProvider, OpenCodeZenProvider, OpenCodeGoProvider]"

text \<open>What a cache at a new place adds to the state; nothing is replaced.\<close>

definition merge_state :: "catalog_state \<Rightarrow> catalog_state \<Rightarrow> catalog_state" where
  "merge_state cached st =
     st\<lparr>catalogs := foldl (\<lambda>m (k, v). or_insert k v m) (catalogs st) (catalogs cached),
        manual_models_of := foldl (\<lambda>m (k, v). or_insert k v m) (manual_models_of st) (manual_models_of cached),
        defaults_of := foldl (\<lambda>m (k, v). or_insert k v m) (defaults_of st) (defaults_of cached)\<rparr>"

definition set_cache_path :: "'p registry_env \<Rightarrow> path \<Rightarrow> 'p registry \<Rightarrow> 'p registry" where
  "set_cache_path env p r =
     (let r' = r\<lparr>reg_path := Some p\<rparr> in
      case load_cache env (reg_disk r) p of
        None \<Rightarrow> r'
      | Some cached \<Rightarrow>
          (case read_clock_of env r' of (present, r') \<Rightarrow>
             r'\<lparr>reg_state := merge_state (mark_cached_records (reg_ttl r) present cached) (reg_state r')\<rparr>))"

definition provider_ids :: "'p registry \<Rightarrow> string list" where
  "provider_ids r = map fst (reg_providers r)"

subsection \<open>Listing\<close>

definition listed_as :: "nat \<Rightarrow> nat \<Rightarrow> string \<Rightarrow> nat \<Rightarrow> listed_model \<Rightarrow> listed_model" where
  "listed_as ttl present p refreshed m =
     (let stale = is_stale_at ttl refreshed present in
      record_capability_knowledge (change_metadata (\<lambda>d. d\<lparr>
          md_source := (if stale then SourceCached else md_source d), md_stale := stale, md_refreshed := Some refreshed\<rparr>)
        (m\<lparr>descriptor_provider := p\<rparr>)))"

definition catalog_models :: "nat \<Rightarrow> nat \<Rightarrow> catalog_state \<Rightarrow> listed_model list" where
  "catalog_models ttl present st =
     concat (map (\<lambda>(p, c). map (listed_as ttl present p (cr_refreshed c)) (cr_models c)) (catalogs st))"

definition all_models :: "nat \<Rightarrow> nat \<Rightarrow> catalog_state \<Rightarrow> (string \<times> listed_model) list" where
  "all_models ttl present st =
     foldl (\<lambda>m d. or_insert (canonical_id d) d m)
       (foldl (\<lambda>m d. tree_map_insert (canonical_id d) d m) [] (catalog_models ttl present st))
       (map snd (manual_models_of st))"

definition models :: "'p registry_env \<Rightarrow> registry_filter \<Rightarrow> 'p registry \<Rightarrow> listed_model list \<times> 'p registry" where
  "models env f r =
     (case read_clock_of env r of (present, r) \<Rightarrow>
        (filter (\<lambda>m. matches_filter m f) (map snd (all_models (reg_ttl r) present (reg_state r))), r))"

subsection \<open>Refreshing\<close>

text \<open>Each model is stamped with a reading of the clock of its own.\<close>

fun stamp_models :: "'p registry_env \<Rightarrow> string \<Rightarrow> listed_model list \<Rightarrow> 'p registry \<Rightarrow> listed_model list \<times> 'p registry" where
  "stamp_models env p [] r = ([], r)"
| "stamp_models env p (m # ms) r =
     (case read_clock_of env r of (present, r) \<Rightarrow>
      (case stamp_models env p ms r of (ms, r) \<Rightarrow>
        (change_metadata (\<lambda>d. d\<lparr>md_source := SourceDiscovered, md_stale := False, md_refreshed := Some present\<rparr>)
           (record_capability_knowledge (m\<lparr>descriptor_provider := p\<rparr>)) # ms, r)))"

definition refresh_provider ::
  "'p registry_env \<Rightarrow> string \<Rightarrow> 'p registry \<Rightarrow> (registry_error + listed_model list) \<times> 'p registry" where
  "refresh_provider env p r =
     (case map_of (reg_providers r) p of
        None \<Rightarrow> (Inl (ProviderNotRegistered p), r)
      | Some provider \<Rightarrow>
          (case refresh_models env provider of
             Inl err \<Rightarrow> (Inl (CatalogRefreshFailed (provider_error_text err)), r)
           | Inr ms \<Rightarrow>
               (case stamp_models env p ms r of (ms, r) \<Rightarrow>
                 let ms = sort_key descriptor_id ms in
                 (case read_clock_of env r of (present, r) \<Rightarrow>
                   (case persist_cache env (r\<lparr>reg_state := (reg_state r)\<lparr>catalogs :=
                        tree_map_insert p \<lparr>cr_refreshed = present, cr_models = ms\<rparr> (catalogs (reg_state r))\<rparr>\<rparr>) of
                      (Inl err, r) \<Rightarrow> (Inl err, r)
                    | (Inr _, r) \<Rightarrow> (Inr ms, r))))))"

record refresh_result =
  refreshed_provider :: string
  model_count :: nat
  refresh_error :: "string option"

definition result_of :: "string \<Rightarrow> registry_error + listed_model list \<Rightarrow> refresh_result" where
  "result_of p result =
     (case result of
        Inr ms \<Rightarrow> \<lparr>refreshed_provider = p, model_count = length ms, refresh_error = None\<rparr>
      | Inl err \<Rightarrow> \<lparr>refreshed_provider = p, model_count = 0, refresh_error = Some (registry_error_text err)\<rparr>)"

fun refresh_each :: "'p registry_env \<Rightarrow> string list \<Rightarrow> 'p registry \<Rightarrow> refresh_result list \<times> 'p registry" where
  "refresh_each env [] r = ([], r)"
| "refresh_each env (p # ps) r =
     (case refresh_provider env p r of (result, r) \<Rightarrow>
      (case refresh_each env ps r of (results, r) \<Rightarrow> (result_of p result # results, r)))"

record refresh_report =
  refresh_results :: "refresh_result list"
  available_models :: nat

definition refresh_all :: "'p registry_env \<Rightarrow> 'p registry \<Rightarrow> refresh_report \<times> 'p registry" where
  "refresh_all env r =
     (case refresh_each env (provider_ids r) r of (results, r) \<Rightarrow>
      (case models env no_filter r of (ms, r) \<Rightarrow> (\<lparr>refresh_results = results, available_models = length ms\<rparr>, r)))"

definition refresh_provider_report :: "'p registry_env \<Rightarrow> string \<Rightarrow> 'p registry \<Rightarrow> refresh_report \<times> 'p registry" where
  "refresh_provider_report env p r =
     (case refresh_provider env p r of (result, r) \<Rightarrow>
      (case models env no_filter r of (ms, r) \<Rightarrow>
        (\<lparr>refresh_results = [result_of p result], available_models = length ms\<rparr>, r)))"

definition failed_provider_count :: "refresh_report \<Rightarrow> nat" where
  "failed_provider_count rep = length (filter (\<lambda>x. refresh_error x \<noteq> None) (refresh_results rep))"

definition succeeded_provider_count :: "refresh_report \<Rightarrow> nat" where
  "succeeded_provider_count rep = length (filter (\<lambda>x. refresh_error x = None) (refresh_results rep))"

end
