(* ===== verification/Model_Registry_Properties.thy ===== *)
theory Model_Registry_Properties
  imports Model_Registry
begin

section \<open>harness-models: properties of the registry\<close>

text \<open>
  A provider that fails keeps its catalogue and does not disturb the others; the cache file is
  replaced whole or not at all and gives the same state after a restart; a model configured by
  hand is always listed, and no model twice.
\<close>

subsection \<open>Ordered maps\<close>

abbreviation ordered_keys :: "('k::linorder \<times> 'v) list \<Rightarrow> bool" where
  "ordered_keys m \<equiv> sorted_wrt (<) (map fst m)"

definition registry_ok :: "'p registry \<Rightarrow> bool" where
  "registry_ok r \<longleftrightarrow> ordered_keys (reg_providers r) \<and> ordered_keys (catalogs (reg_state r)) \<and>
     ordered_keys (manual_models_of (reg_state r)) \<and> ordered_keys (defaults_of (reg_state r))"

lemma or_insert_keeps: "ordered_keys m \<Longrightarrow> ordered_keys (or_insert k v m)"
  by (simp add: or_insert_def sorted_tree_map_insert split: option.split)

lemma map_of_or_insert:
  "ordered_keys m \<Longrightarrow> map_of (or_insert k v m) x =
     (if x = k \<and> map_of m k = None then Some v else map_of m x)"
  by (auto simp: or_insert_def map_of_tree_map_insert split: option.split)

subsection \<open>What an operation leaves alone\<close>

text \<open>Writing the cache and reading the clock change no state.\<close>

definition same_but_io :: "'p registry \<Rightarrow> 'p registry \<Rightarrow> bool" where
  "same_but_io r r' \<longleftrightarrow> reg_providers r' = reg_providers r \<and> reg_state r' = reg_state r \<and>
     reg_path r' = reg_path r \<and> reg_ttl r' = reg_ttl r"

lemma same_but_io_trans: "same_but_io r r' \<Longrightarrow> same_but_io r' r'' \<Longrightarrow> same_but_io r r''"
  by (simp add: same_but_io_def)

lemma read_clock_same: "read_clock_of env r = (t, r') \<Longrightarrow> same_but_io r r' \<and> reg_disk r' = reg_disk r"
  by (auto simp: read_clock_of_def same_but_io_def)

lemma stamp_models_same: "stamp_models env p ms r = (ms', r') \<Longrightarrow>
    same_but_io r r' \<and> reg_disk r' = reg_disk r \<and> map descriptor_id ms' = map descriptor_id ms \<and>
    list_all (\<lambda>m. descriptor_provider m = p) ms'"
proof (induction ms arbitrary: r ms' r')
  case Nil
  then show ?case by (simp add: same_but_io_def)
next
  case (Cons m ms)
  obtain t r1 where clock: "read_clock_of env r = (t, r1)" by (cases "read_clock_of env r")
  obtain ms2 r2 where rest: "stamp_models env p ms r1 = (ms2, r2)" by (cases "stamp_models env p ms r1")
  from Cons.IH [OF rest] read_clock_same [OF clock] Cons.prems clock rest show ?case
    by (auto simp: change_metadata_def record_capability_knowledge_def dest: same_but_io_trans)
qed

lemma persist_same: "persist_cache env r = (result, r') \<Longrightarrow> same_but_io r r'"
  by (auto simp: persist_cache_def try_io_def same_but_io_def Let_def split: option.splits if_splits)

text \<open>A cache that cannot be written is as it was; one that can is written whole.\<close>

lemma persist_disk:
  assumes "persist_cache env r = (result, r')" "reg_path r = Some p" "temporary_of p \<noteq> p"
  shows "reg_disk r' p = (if is_ok result then Some (encode_cache env cache_schema (reg_state r)) else reg_disk r p)"
  using assms by (auto simp: persist_cache_def try_io_def Let_def split: option.splits if_splits)

lemma cache_can_be_written:
  assumes "\<forall>k. io_stops env k = None" "\<forall>p. reg_path r = Some p \<longrightarrow> path_parent p \<noteq> None"
  shows "fst (persist_cache env r) = Inr ()"
  using assms by (auto simp: persist_cache_def try_io_def Let_def split: option.splits)

subsection \<open>Refreshing\<close>

lemma refresh_cases:
  assumes "refresh_provider env p r = (result, r')"
  obtains (failed) err where "result = Inl err" "r' = r"
      "case map_of (reg_providers r) p of None \<Rightarrow> True | Some v \<Rightarrow> \<exists>e. refresh_models env v = Inl e"
  | (refreshed) v ms t listed where "map_of (reg_providers r) p = Some v" "refresh_models env v = Inr ms"
      "same_but_io (r\<lparr>reg_state := (reg_state r)\<lparr>catalogs :=
         tree_map_insert p \<lparr>cr_refreshed = t, cr_models = listed\<rparr> (catalogs (reg_state r))\<rparr>\<rparr>) r'"
      "map descriptor_id listed = sort (map descriptor_id ms)" "list_all (\<lambda>m. descriptor_provider m = p) listed"
      "result = Inr listed \<or> result = Inl CacheFailed"
proof (cases "map_of (reg_providers r) p")
  case None
  with assms show ?thesis by (intro failed) (auto simp: refresh_provider_def)
next
  case (Some v)
  show ?thesis
  proof (cases "refresh_models env v")
    case (Inl e)
    with Some assms show ?thesis by (intro failed) (auto simp: refresh_provider_def)
  next
    case (Inr ms)
    obtain ms1 r1 where stamped: "stamp_models env p ms r = (ms1, r1)" by (cases "stamp_models env p ms r")
    obtain t r2 where clock: "read_clock_of env r1 = (t, r2)" by (cases "read_clock_of env r1")
    let ?listed = "sort_key descriptor_id ms1"
    let ?r2 = "r2\<lparr>reg_state := (reg_state r2)\<lparr>catalogs :=
         tree_map_insert p \<lparr>cr_refreshed = t, cr_models = ?listed\<rparr> (catalogs (reg_state r2))\<rparr>\<rparr>"
    obtain res r3 where written: "persist_cache env ?r2 = (res, r3)" by (cases "persist_cache env ?r2")
    from assms Some Inr stamped clock written
    have out: "result = (case res of Inl err \<Rightarrow> Inl err | Inr _ \<Rightarrow> Inr ?listed)" "r' = r3"
      by (auto simp: refresh_provider_def Let_def split: sum.splits)
    have res: "res = Inr () \<or> res = Inl CacheFailed"
      using written by (auto simp: persist_cache_def try_io_def Let_def split: option.splits if_splits)
    have "same_but_io r r2" using stamp_models_same [OF stamped] read_clock_same [OF clock] same_but_io_trans by blast
    with persist_same [OF written] have same: "same_but_io (r\<lparr>reg_state := (reg_state r)\<lparr>catalogs :=
         tree_map_insert p \<lparr>cr_refreshed = t, cr_models = ?listed\<rparr> (catalogs (reg_state r))\<rparr>\<rparr>) r'"
      by (simp add: same_but_io_def out(2))
    have "map descriptor_id ?listed = sort (map descriptor_id ms1)"
      by (rule sym, rule properties_for_sort) simp_all
    then show ?thesis
      using refreshed [OF Some Inr same] stamp_models_same [OF stamped] res out(1) by (auto simp: list_all_iff)
  qed
qed

lemma refresh_written:
  assumes "refresh_provider env p r = (Inr ms, r')" "reg_path r = Some q"
  shows "\<exists>k. io_stops env k = None"
proof (rule ccontr)
  assume none: "\<not> (\<exists>k. io_stops env k = None)"
  have fails: "\<exists>e. fst (persist_cache env r0) = Inl e" if "reg_path r0 = Some q" for r0
  proof (cases "path_parent q")
    case (Some d)
    obtain n where "io_stops env (reg_reads r0) = Some n" using none by auto
    with that Some show ?thesis by (simp add: persist_cache_def try_io_def Let_def)
  qed (use that in \<open>simp add: persist_cache_def\<close>)
  from assms(1) obtain v ms0 where v: "map_of (reg_providers r) p = Some v" "refresh_models env v = Inr ms0"
    by (auto simp: refresh_provider_def split: option.splits sum.splits)
  obtain ms1 r1 where stamped: "stamp_models env p ms0 r = (ms1, r1)" by (cases "stamp_models env p ms0 r")
  obtain t r2 where clock: "read_clock_of env r1 = (t, r2)" by (cases "read_clock_of env r1")
  let ?r2 = "r2\<lparr>reg_state := (reg_state r2)\<lparr>catalogs :=
       tree_map_insert p \<lparr>cr_refreshed = t, cr_models = sort_key descriptor_id ms1\<rparr> (catalogs (reg_state r2))\<rparr>\<rparr>"
  have "reg_path ?r2 = Some q"
    using stamp_models_same [OF stamped] read_clock_same [OF clock] assms(2) by (simp add: same_but_io_def)
  from fails [OF this] obtain e r3 where "persist_cache env ?r2 = (Inl e, r3)" by (metis prod.collapse)
  with assms(1) v stamped clock show False by (simp add: refresh_provider_def Let_def)
qed

lemma refresh_keeps:
  assumes "refresh_provider env p r = (result, r')" "ordered_keys (catalogs (reg_state r))"
  shows "reg_providers r' = reg_providers r \<and> manual_models_of (reg_state r') = manual_models_of (reg_state r) \<and>
    defaults_of (reg_state r') = defaults_of (reg_state r) \<and> ordered_keys (catalogs (reg_state r')) \<and>
    (\<forall>q. q \<noteq> p \<longrightarrow> map_of (catalogs (reg_state r')) q = map_of (catalogs (reg_state r)) q)"
  using assms(1)
proof (cases rule: refresh_cases)
  case failed
  with assms(2) show ?thesis by simp
next
  case (refreshed v ms t listed)
  with assms(2) show ?thesis
    by (simp add: same_but_io_def map_of_tree_map_insert sorted_tree_map_insert)
qed


lemma refresh_own:
  assumes "refresh_provider env p r = (result, r')" "ordered_keys (catalogs (reg_state r))"
    and "map_of (reg_providers r) p = Some v"
  shows "case refresh_models env v of
      Inl e \<Rightarrow> (\<exists>err. result = Inl err) \<and> reg_state r' = reg_state r
    | Inr ms \<Rightarrow> \<exists>c. map_of (catalogs (reg_state r')) p = Some c \<and>
        map descriptor_id (cr_models c) = sort (map descriptor_id ms) \<and>
        list_all (\<lambda>m. descriptor_provider m = p) (cr_models c)"
  using assms(1)
proof (cases rule: refresh_cases)
  case (failed err)
  with assms(3) show ?thesis by auto
next
  case (refreshed v' ms t listed)
  with assms(2,3) show ?thesis by (simp add: same_but_io_def map_of_tree_map_insert)
qed

text \<open>A catalogue after a refresh: the old one if the provider failed, the sorted new one otherwise.\<close>

definition catalog_after :: "'p registry_env \<Rightarrow> (string \<times> catalog_record) list \<Rightarrow> string \<Rightarrow> 'p \<Rightarrow> (string \<times> catalog_record) list \<Rightarrow> bool" where
  "catalog_after env before p v after \<longleftrightarrow>
     (case refresh_models env v of
        Inl e \<Rightarrow> map_of after p = map_of before p
      | Inr ms \<Rightarrow> \<exists>c. map_of after p = Some c \<and> map descriptor_id (cr_models c) = sort (map descriptor_id ms) \<and>
          list_all (\<lambda>m. descriptor_provider m = p) (cr_models c))"

lemma refresh_each_spec:
  assumes "refresh_each env ps r = (results, r')" "ordered_keys (catalogs (reg_state r))" "distinct ps"
  shows "map refreshed_provider results = ps \<and> reg_providers r' = reg_providers r \<and>
    manual_models_of (reg_state r') = manual_models_of (reg_state r) \<and> defaults_of (reg_state r') = defaults_of (reg_state r) \<and>
    ordered_keys (catalogs (reg_state r')) \<and>
    (\<forall>q. q \<notin> set ps \<longrightarrow> map_of (catalogs (reg_state r')) q = map_of (catalogs (reg_state r)) q) \<and>
    (\<forall>q v. q \<in> set ps \<longrightarrow> map_of (reg_providers r) q = Some v \<longrightarrow>
       catalog_after env (catalogs (reg_state r)) q v (catalogs (reg_state r')))"
  using assms
proof (induction ps arbitrary: r results)
  case (Cons p ps)
  obtain result r1 where one: "refresh_provider env p r = (result, r1)" by (cases "refresh_provider env p r")
  obtain results1 where rest: "refresh_each env ps r1 = (results1, r')" "results = result_of p result # results1"
    using Cons.prems(1) one by (auto split: prod.splits)
  note kept = refresh_keeps [OF one Cons.prems(2)]
  note IH = Cons.IH [OF rest(1)]
  have own: "map_of (reg_providers r) p = Some v \<Longrightarrow> catalog_after env (catalogs (reg_state r)) p v (catalogs (reg_state r1))" for v
    using refresh_own [OF one Cons.prems(2), of v] by (auto simp: catalog_after_def split: sum.splits)
  have name: "refreshed_provider (result_of p result) = p" by (cases result) (simp_all add: result_of_def)
  have p: "p \<notin> set ps" "distinct ps" using Cons.prems(3) by auto
  have same: "map_of (catalogs (reg_state r')) p = map_of (catalogs (reg_state r1)) p" using IH kept p by auto
  have "catalog_after env (catalogs (reg_state r)) q v (catalogs (reg_state r'))"
    if "q \<in> set (p # ps)" "map_of (reg_providers r) q = Some v" for q v
  proof (cases "q = p")
    case True
    with own [of v] that same show ?thesis by (simp add: catalog_after_def split: sum.splits)
  next
    case False
    with that IH kept p have "catalog_after env (catalogs (reg_state r1)) q v (catalogs (reg_state r'))" by auto
    with False kept show ?thesis by (simp add: catalog_after_def split: sum.splits)
  qed
  with IH kept p name rest(2) show ?case by auto
qed simp

text \<open>Two providers, of which one fails; a cache that can be written, and one that cannot.\<close>

definition refresh_env :: "bool registry_env" where
  "refresh_env = \<lparr>unix_time = (\<lambda>_. 5), io_stops = (\<lambda>_. None), encode_cache = (\<lambda>_ _. ''{}''),
     decode_cache = (\<lambda>_. Some (cache_schema, empty_state)),
     refresh_models = (\<lambda>good. if good then Inr [manual_descriptor ''x'' ''n'' None, manual_descriptor ''x'' ''m'' None]
        else Inl RequestCancelled),
     make_provider = (\<lambda>_. None)\<rparr>"

definition demo_cache :: path where
  "demo_cache = ''/d/c.json''"

definition refresh_registry :: "bool registry" where
  "refresh_registry = \<lparr>reg_providers = [(''a'', False), (''b'', True)], reg_state = empty_state, reg_path = Some demo_cache,
     reg_ttl = 1, reg_disk = Map.empty, reg_reads = 0\<rparr>"

lemma refresh_registry_ok: "registry_ok refresh_registry"
  by (simp add: registry_ok_def refresh_registry_def empty_state_def)

lemma demo_parent: "path_parent demo_cache \<noteq> None"
  by code_simp

text \<open>C24: refreshing all providers reports each of them once, in order, and does not let one that fails disturb
  another: a provider that fails keeps its catalogue, one that answers gets its models, sorted; models
  configured by hand and defaults stay.\<close>

theorem refresh_isolates_failures:
  assumes "registry_ok r" "refresh_all env r = (rep, r')"
  shows "map refreshed_provider (refresh_results rep) = provider_ids r \<and>
    manual_models_of (reg_state r') = manual_models_of (reg_state r) \<and> defaults_of (reg_state r') = defaults_of (reg_state r) \<and>
    (\<forall>p v. map_of (reg_providers r) p = Some v \<longrightarrow>
       (case refresh_models env v of
          Inl e \<Rightarrow> map_of (catalogs (reg_state r')) p = map_of (catalogs (reg_state r)) p
        | Inr ms \<Rightarrow> \<exists>c. map_of (catalogs (reg_state r')) p = Some c \<and>
            map descriptor_id (cr_models c) = sort (map descriptor_id ms) \<and>
            list_all (\<lambda>m. descriptor_provider m = p) (cr_models c))) \<and>
    (\<forall>p. map_of (reg_providers r) p = None \<longrightarrow>
       map_of (catalogs (reg_state r')) p = map_of (catalogs (reg_state r)) p)"
proof -
  obtain results r1 where each: "refresh_each env (provider_ids r) r = (results, r1)" by (cases "refresh_each env (provider_ids r) r")
  with assms(2) have rep: "refresh_results rep = results" "reg_state r' = reg_state r1"
    by (auto simp: refresh_all_def models_def read_clock_of_def)
  have "distinct (provider_ids r)" "ordered_keys (catalogs (reg_state r))"
    using assms(1) by (simp_all add: registry_ok_def provider_ids_def sorted_keys_distinct)
  note spec = refresh_each_spec [OF each this(2,1)]
  have "map_of (reg_providers r) p = Some v \<Longrightarrow> p \<in> set (provider_ids r)" for p v
    by (force simp: provider_ids_def dest: map_of_SomeD)
  moreover have "map_of (reg_providers r) p = None \<Longrightarrow> p \<notin> set (provider_ids r)" for p
    by (simp add: provider_ids_def map_of_eq_None_iff)
  ultimately show ?thesis using spec unfolding rep catalog_after_def by blast
qed

theorem refresh_isolates_failures_witness:
  "map refreshed_provider (refresh_results (fst (refresh_all refresh_env refresh_registry))) = [''a'', ''b''] \<and>
   map_of (catalogs (reg_state (snd (refresh_all refresh_env refresh_registry)))) ''a'' = None \<and>
   (\<exists>c. map_of (catalogs (reg_state (snd (refresh_all refresh_env refresh_registry)))) ''b'' = Some c \<and>
      map descriptor_id (cr_models c) = [''m'', ''n''])"
proof -
  let ?after = "catalogs (reg_state (snd (refresh_all refresh_env refresh_registry)))"
  note kept = refresh_isolates_failures [OF refresh_registry_ok prod.collapse [symmetric], of refresh_env]
  have a: "map_of (reg_providers refresh_registry) ''a'' = Some False" "refresh_models refresh_env False = Inl RequestCancelled"
    and b: "map_of (reg_providers refresh_registry) ''b'' = Some True"
      "refresh_models refresh_env True = Inr [manual_descriptor ''x'' ''n'' None, manual_descriptor ''x'' ''m'' None]"
    and rest: "provider_ids refresh_registry = [''a'', ''b'']" "catalogs (reg_state refresh_registry) = []"
      "sort (map descriptor_id [manual_descriptor ''x'' ''n'' None, manual_descriptor ''x'' ''m'' None]) = [''m'', ''n'']"
    by code_simp+
  have "case refresh_models refresh_env v of
      Inl e \<Rightarrow> map_of ?after p = map_of (catalogs (reg_state refresh_registry)) p
    | Inr ms \<Rightarrow> \<exists>c. map_of ?after p = Some c \<and> map descriptor_id (cr_models c) = sort (map descriptor_id ms) \<and>
        list_all (\<lambda>m. descriptor_provider m = p) (cr_models c)"
    if "map_of (reg_providers refresh_registry) p = Some v" for p v using kept that by blast
  note after = this [OF a(1), unfolded a(2) sum.case rest] this [OF b(1), unfolded b(2) sum.case rest]
  show ?thesis using conjunct1 [OF kept] after unfolding rest by auto
qed

text \<open>a refresh whose cache cannot be written is reported as failed, with no models, although the catalogue
  has been replaced.\<close>

theorem unwritten_refresh_is_reported_failed:
  assumes "registry_ok r" "map_of (reg_providers r) p = Some v" "refresh_models env v = Inr ms"
    and "reg_path r = Some q" "\<forall>k. io_stops env k = Some 0"
  shows "\<exists>rep r' c. refresh_provider_report env p r = (rep, r') \<and>
    map refresh_error (refresh_results rep) = [Some ''model catalog cache could not be read or written''] \<and>
    map model_count (refresh_results rep) = [0] \<and>
    map_of (catalogs (reg_state r')) p = Some c \<and> map descriptor_id (cr_models c) = sort (map descriptor_id ms)"
proof -
  obtain result r1 where one: "refresh_provider env p r = (result, r1)" by (cases "refresh_provider env p r")
  from one have "result = Inl CacheFailed"
  proof (cases rule: refresh_cases)
    case (refreshed v' ms' t listed)
    with one refresh_written [of env p r] assms(4,5) show ?thesis by auto
  qed (use assms(2,3) in auto)
  moreover have "ordered_keys (catalogs (reg_state r))" using assms(1) by (simp add: registry_ok_def)
  from refresh_own [OF one this assms(2)] assms(3) obtain c where
    "map_of (catalogs (reg_state r1)) p = Some c" "map descriptor_id (cr_models c) = sort (map descriptor_id ms)" by auto
  ultimately show ?thesis using one
    by (simp add: refresh_provider_report_def models_def read_clock_of_def result_of_def)
qed

theorem unwritten_refresh_is_reported_failed_witness:
  "map model_count (refresh_results (fst (refresh_provider_report (refresh_env\<lparr>io_stops := (\<lambda>_. Some 0)\<rparr>) ''b'' refresh_registry))) = [0]"
proof -
  let ?env = "refresh_env\<lparr>io_stops := (\<lambda>_. Some 0)\<rparr>"
  have "map_of (reg_providers refresh_registry) ''b'' = Some True"
      "refresh_models ?env True = Inr [manual_descriptor ''x'' ''n'' None, manual_descriptor ''x'' ''m'' None]"
      "reg_path refresh_registry = Some demo_cache" "\<forall>k. io_stops ?env k = Some 0"
    by (simp_all add: refresh_registry_def refresh_env_def)
  from unwritten_refresh_is_reported_failed [OF refresh_registry_ok this] show ?thesis by auto
qed

subsection \<open>The cache file\<close>

text \<open>What \<open>serde_json\<close> writes of a state it reads back as that state.\<close>

definition cache_reads_back :: "'p registry_env \<Rightarrow> catalog_state \<Rightarrow> bool" where
  "cache_reads_back env st \<longleftrightarrow> decode_cache env (encode_cache env cache_schema st) = Some (cache_schema, st)"

text \<open>writing the cache replaces the file whole or leaves it as it was, wherever it fails; after it has
  succeeded, a registry made at the same path has the same state, but for the provenance of its models.\<close>

theorem cache_is_replaced_whole:
  assumes "cache_reads_back env (reg_state r)" "persist_cache env r = (result, r')" "reg_path r = Some p" "temporary_of p \<noteq> p"
  shows "(\<forall>err. result = Inl err \<longrightarrow> reg_disk r' p = reg_disk r p) \<and>
    (result = Inr () \<longrightarrow>
       reg_state (registry_new env (reg_disk r') reads (Some p) ttl) =
         mark_cached_records ttl (unix_time env reads) (reg_state r) \<and>
       defaults_of (reg_state (registry_new env (reg_disk r') reads (Some p) ttl)) = defaults_of (reg_state r))"
  using persist_disk [OF assms(2-4)] assms(1)
  by (auto simp: registry_new_def load_cache_def cache_reads_back_def Let_def mark_cached_records_def)

theorem cache_is_replaced_whole_witness:
  "reg_disk (snd (persist_cache refresh_env refresh_registry)) demo_cache = Some ''{}'' \<and>
   defaults_of (reg_state (registry_new refresh_env (reg_disk (snd (persist_cache refresh_env refresh_registry))) 0 (Some demo_cache) 1)) = []"
proof -
  have written: "persist_cache refresh_env refresh_registry = (Inr (), snd (persist_cache refresh_env refresh_registry))"
    using cache_can_be_written [of refresh_env refresh_registry] demo_parent
    by (simp add: prod_eq_iff refresh_env_def refresh_registry_def)
  have "cache_reads_back refresh_env (reg_state refresh_registry)" "reg_path refresh_registry = Some demo_cache"
      "temporary_of demo_cache \<noteq> demo_cache"
      "reg_disk (snd (persist_cache refresh_env refresh_registry)) demo_cache = Some ''{}''"
      "defaults_of (reg_state refresh_registry) = []"
    by code_simp+
  with cache_is_replaced_whole [OF this(1) written this(2,3), of 0 1] show ?thesis by auto
qed

subsection \<open>Listing\<close>

lemma canonical_id_manual: "canonical_id (manual_descriptor p i n) = canonical_key p i"
  by (simp add: canonical_id_def canonical_key_def manual_descriptor_def Let_def)

lemma fold_insert_models:
  assumes "ordered_keys m" "\<forall>(k, d) \<in> set m. canonical_id d = k"
  shows "ordered_keys (foldl (\<lambda>m d. tree_map_insert (canonical_id d) d m) m ds) \<and>
    (\<forall>(k, d) \<in> set (foldl (\<lambda>m d. tree_map_insert (canonical_id d) d m) m ds). canonical_id d = k) \<and>
    dom (map_of (foldl (\<lambda>m d. tree_map_insert (canonical_id d) d m) m ds)) = dom (map_of m) \<union> canonical_id ` set ds"
  using assms
proof (induction ds arbitrary: m)
  case (Cons d ds)
  let ?m = "tree_map_insert (canonical_id d) d m"
  have ordered: "ordered_keys ?m" by (rule sorted_tree_map_insert [OF Cons.prems(1)])
  have "canonical_id e = k" if "(k, e) \<in> set ?m" for k e
  proof -
    have "map_of ?m k = Some e" using that sorted_keys_distinct [OF ordered] by simp
    then show ?thesis using Cons.prems
      by (auto simp: map_of_tree_map_insert dest: map_of_SomeD split: if_splits)
  qed
  then have "\<forall>(k, e) \<in> set ?m. canonical_id e = k" by auto
  moreover have "dom (map_of ?m) = insert (canonical_id d) (dom (map_of m))"
    by (auto simp: map_of_tree_map_insert [OF Cons.prems(1)] dom_def)
  ultimately show ?case using Cons.IH [OF ordered] by auto
qed auto

lemma fold_or_insert_models:
  assumes "ordered_keys m" "\<forall>(k, d) \<in> set m. canonical_id d = k"
  shows "ordered_keys (foldl (\<lambda>m d. or_insert (canonical_id d) d m) m ds) \<and>
    (\<forall>(k, d) \<in> set (foldl (\<lambda>m d. or_insert (canonical_id d) d m) m ds). canonical_id d = k) \<and>
    dom (map_of (foldl (\<lambda>m d. or_insert (canonical_id d) d m) m ds)) = dom (map_of m) \<union> canonical_id ` set ds"
  using assms
proof (induction ds arbitrary: m)
  case (Cons d ds)
  let ?m = "or_insert (canonical_id d) d m"
  have ordered: "ordered_keys ?m" by (rule or_insert_keeps [OF Cons.prems(1)])
  have "canonical_id e = k" if "(k, e) \<in> set ?m" for k e
  proof -
    have "map_of ?m k = Some e" using that sorted_keys_distinct [OF ordered] by simp
    then show ?thesis using Cons.prems
      by (auto simp: map_of_or_insert dest: map_of_SomeD split: if_splits)
  qed
  then have "\<forall>(k, e) \<in> set ?m. canonical_id e = k" by auto
  moreover have "dom (map_of ?m) = insert (canonical_id d) (dom (map_of m))"
    by (auto simp: map_of_or_insert [OF Cons.prems(1)] dom_def)
  ultimately show ?case using Cons.IH [OF ordered] by auto
qed auto

lemma models_without_filter:
  "fst (models env no_filter r) = map snd (all_models (reg_ttl r) (unix_time env (reg_reads r)) (reg_state r))"
proof -
  have "matches_filter m no_filter" for m by (simp add: matches_filter_def no_filter_def)
  then show ?thesis by (simp add: models_def read_clock_of_def)
qed

lemma persist_snd: "same_but_io r (snd (persist_cache env r))"
  by (rule persist_same [OF prod.collapse [symmetric]])

lemma default_manual_models:
  "manual_models_of (reg_state (set_default_model env p i r)) =
     or_insert (canonical_key p i) (manual_descriptor p i None) (manual_models_of (reg_state r))"
  using persist_snd [of "r\<lparr>reg_state := (reg_state r)
       \<lparr>defaults_of := tree_map_insert p i (defaults_of (reg_state r)),
        manual_models_of := or_insert (canonical_key p i) (manual_descriptor p i None) (manual_models_of (reg_state r))\<rparr>\<rparr>" env]
  by (simp add: set_default_model_def same_but_io_def)

lemma manual_model_kept:
  assumes "ordered_keys (manual_models_of (reg_state r))"
    and "\<forall>(k, d) \<in> set (manual_models_of (reg_state r)). canonical_id d = k"
  obtains d where "(canonical_key p i, d) \<in> set (manual_models_of (reg_state (set_default_model env p i r)))"
    and "canonical_id d = canonical_key p i"
proof (cases "map_of (manual_models_of (reg_state r)) (canonical_key p i)")
  case None
  show ?thesis
  proof (rule that)
    show "(canonical_key p i, manual_descriptor p i None) \<in> set (manual_models_of (reg_state (set_default_model env p i r)))"
      by (rule map_of_SomeD) (simp add: default_manual_models map_of_or_insert [OF assms(1)] None)
  qed (rule canonical_id_manual)
next
  case (Some d)
  show ?thesis
  proof (rule that)
    show "(canonical_key p i, d) \<in> set (manual_models_of (reg_state (set_default_model env p i r)))"
      by (rule map_of_SomeD) (simp add: default_manual_models map_of_or_insert [OF assms(1)] Some)
    show "canonical_id d = canonical_key p i" using assms(2) map_of_SomeD [OF Some] by blast
  qed
qed

text \<open>The manual models are kept under their own names.\<close>

definition own_names :: "(string \<times> listed_model) list \<Rightarrow> bool" where
  "own_names m \<longleftrightarrow> (\<forall>(k, d) \<in> set m. canonical_id d = k)"

definition named_models :: "'p registry \<Rightarrow> bool" where
  "named_models r \<longleftrightarrow> own_names (manual_models_of (reg_state r))"

text \<open>C27: the models are listed by name, none twice, and a model set as a default or by hand is always among
  them, discovered or not.\<close>

theorem configured_models_are_listed_once:
  assumes "registry_ok r" "named_models r"
  shows "sorted_wrt (<) (map canonical_id (fst (models env no_filter r))) \<and>
    distinct (map canonical_id (fst (models env no_filter r))) \<and>
    canonical_id ` set (map snd (manual_models_of (reg_state r))) \<subseteq> canonical_id ` set (fst (models env no_filter r)) \<and>
    canonical_key p i \<in> canonical_id ` set (fst (models env no_filter (set_default_model env p i r)))"
proof -
  have listed: "ordered_keys (all_models ttl t st) \<and> (\<forall>(k, d) \<in> set (all_models ttl t st). canonical_id d = k) \<and>
      canonical_id ` set (map snd (manual_models_of st)) \<subseteq> dom (map_of (all_models ttl t st))" for ttl t st
    using fold_insert_models [of "[]" "catalog_models ttl t st"]
      fold_or_insert_models [of "foldl (\<lambda>m d. tree_map_insert (canonical_id d) d m) [] (catalog_models ttl t st)"
        "map snd (manual_models_of st)"]
    unfolding all_models_def by auto
  have names: "map canonical_id (map snd m) = map fst m" if "\<forall>(k, d) \<in> set m. canonical_id d = k"
    for m :: "(string \<times> listed_model) list" using that by (induction m) auto
  have all: "map canonical_id (fst (models env no_filter r1)) = map fst (all_models (reg_ttl r1) (unix_time env (reg_reads r1)) (reg_state r1))"
    for r1 :: "'a registry" using names listed models_without_filter [of env r1] by metis
  have incl: "canonical_id ` set (map snd (manual_models_of (reg_state r1))) \<subseteq> canonical_id ` set (fst (models env no_filter r1))"
    for r1 :: "'a registry"
    using listed all [of r1] by (metis dom_map_of_conv_image_fst set_map)
  obtain d where d: "(canonical_key p i, d) \<in> set (manual_models_of (reg_state (set_default_model env p i r)))"
      "canonical_id d = canonical_key p i"
    using manual_model_kept [of r p i env] assms by (auto simp: registry_ok_def named_models_def own_names_def)
  have "d \<in> set (map snd (manual_models_of (reg_state (set_default_model env p i r))))"
    using image_eqI [of d snd, OF _ d(1)] by simp
  then have "canonical_key p i \<in> canonical_id ` set (fst (models env no_filter (set_default_model env p i r)))"
    using incl [of "set_default_model env p i r"] d(2) by (metis image_eqI subsetD)
  moreover have "sorted_wrt (<) (map canonical_id (fst (models env no_filter r)))" using all listed by metis
  ultimately show ?thesis using incl sorted_keys_distinct by blast
qed

theorem configured_models_are_listed_once_witness:
  "''a/m'' \<in> canonical_id ` set (fst (models refresh_env no_filter (set_default_model refresh_env ''a'' ''m'' refresh_registry)))"
proof -
  have "named_models refresh_registry" by (simp add: named_models_def own_names_def refresh_registry_def empty_state_def)
  moreover have "canonical_key ''a'' ''m'' = ''a/m''" by code_simp
  ultimately show ?thesis
    using configured_models_are_listed_once [OF refresh_registry_ok, of refresh_env "''a''" "''m''"] by simp
qed

subsection \<open>Well-formed registries\<close>

text \<open>A state whose maps are ordered, and whose manual models are kept under their own names.\<close>

definition state_ok :: "catalog_state \<Rightarrow> bool" where
  "state_ok st \<longleftrightarrow> ordered_keys (catalogs st) \<and> ordered_keys (manual_models_of st) \<and> ordered_keys (defaults_of st) \<and>
     own_names (manual_models_of st)"

definition well_formed :: "'p registry \<Rightarrow> bool" where
  "well_formed r \<longleftrightarrow> ordered_keys (reg_providers r) \<and> state_ok (reg_state r)"

lemma well_formedD: "well_formed r \<Longrightarrow> registry_ok r \<and> named_models r"
  by (simp add: well_formed_def state_ok_def registry_ok_def named_models_def)

text \<open>What a session does with its registry.\<close>

datatype 'p registry_op =
    RegisterProvider string 'p
  | SetDefault string string
  | RegisterManual string string "string option"
  | RegisterConfigured model_config
  | SetCachePath path
  | ListModels registry_filter
  | RefreshProvider string
  | RefreshAll

fun apply_op :: "'p registry_env \<Rightarrow> 'p registry \<Rightarrow> 'p registry_op \<Rightarrow> 'p registry" where
  "apply_op env r (RegisterProvider i p) = register_provider i p r"
| "apply_op env r (SetDefault p i) = set_default_model env p i r"
| "apply_op env r (RegisterManual p i n) = register_manual_model env p i n r"
| "apply_op env r (RegisterConfigured c) = snd (register_configured_model env c r)"
| "apply_op env r (SetCachePath p) = set_cache_path env p r"
| "apply_op env r (ListModels f) = snd (models env f r)"
| "apply_op env r (RefreshProvider p) = snd (refresh_provider_report env p r)"
| "apply_op env r RefreshAll = snd (refresh_all env r)"

lemma same_well_formed: "same_but_io r r' \<Longrightarrow> well_formed r \<Longrightarrow> well_formed r'"
  by (simp add: same_but_io_def well_formed_def)

lemma or_insert_named:
  assumes "ordered_keys m" "own_names m" "canonical_id d = k"
  shows "own_names (or_insert k d m)"
  unfolding own_names_def
proof clarify
  fix k' d' assume "(k', d') \<in> set (or_insert k d m)"
  then have "map_of (or_insert k d m) k' = Some d'"
    using sorted_keys_distinct [OF or_insert_keeps [OF assms(1)]] by simp
  with assms show "canonical_id d' = k'"
    by (auto simp: own_names_def map_of_or_insert dest: map_of_SomeD split: if_splits)
qed

lemma fold_or_insert_keeps:
  "ordered_keys m \<Longrightarrow> ordered_keys (foldl (\<lambda>m (k, v). or_insert k v m) m kvs)"
  by (induction kvs arbitrary: m) (auto intro: or_insert_keeps)

lemma fold_or_insert_named:
  "ordered_keys m \<Longrightarrow> own_names m \<Longrightarrow> own_names kvs \<Longrightarrow> own_names (foldl (\<lambda>m (k, v). or_insert k v m) m kvs)"
proof (induction kvs arbitrary: m)
  case (Cons kv kvs)
  obtain k d where kv: "kv = (k, d)" by (cases kv)
  have rest: "own_names kvs" and own: "canonical_id d = k" using Cons.prems(3) kv by (simp_all add: own_names_def)
  show ?case
    using Cons.IH [OF or_insert_keeps [OF Cons.prems(1)] or_insert_named [OF Cons.prems(1,2) own] rest] kv by simp
qed simp

lemma canonical_id_change: "canonical_id (change_metadata f d) = canonical_id d"
  by (simp add: change_metadata_def canonical_id_def)

lemma keys_map_prod: "map fst (map (map_prod id f) m) = map fst m"
  by simp

lemma marked_ok: "state_ok st \<Longrightarrow> state_ok (mark_cached_records ttl present st)"
  by (auto simp: state_ok_def own_names_def mark_cached_records_def keys_map_prod canonical_id_change simp del: map_map)

lemma merged_ok: "state_ok cached \<Longrightarrow> state_ok st \<Longrightarrow> state_ok (merge_state cached st)"
  by (simp add: state_ok_def merge_state_def fold_or_insert_keeps fold_or_insert_named)

lemma default_well_formed: "well_formed r \<Longrightarrow> well_formed (set_default_model env p i r)"
  unfolding set_default_model_def
  by (rule same_well_formed [OF persist_snd])
    (simp add: well_formed_def state_ok_def or_insert_keeps sorted_tree_map_insert or_insert_named canonical_id_manual)

lemma manual_well_formed: "well_formed r \<Longrightarrow> well_formed (register_manual_model env p i n r)"
  unfolding register_manual_model_def
  by (rule same_well_formed [OF persist_snd])
    (simp add: well_formed_def state_ok_def or_insert_keeps or_insert_named canonical_id_manual)

lemma provider_well_formed: "well_formed r \<Longrightarrow> well_formed (register_provider i p r)"
  by (simp add: well_formed_def register_provider_def sorted_tree_map_insert)

lemma models_well_formed: "well_formed r \<Longrightarrow> well_formed (snd (models env f r))"
  by (simp add: models_def read_clock_of_def well_formed_def)

lemma refresh_well_formed: "refresh_provider env p r = (result, r') \<Longrightarrow> well_formed r \<Longrightarrow> well_formed r'"
  using refresh_keeps [of env p r result r'] by (simp add: well_formed_def state_ok_def)

lemma refresh_each_well_formed: "refresh_each env ps r = (results, r') \<Longrightarrow> well_formed r \<Longrightarrow> well_formed r'"
  by (induction ps arbitrary: r results) (auto split: prod.splits dest: refresh_well_formed)

lemma apply_op_well_formed:
  assumes "\<forall>bytes schema st. decode_cache env bytes = Some (schema, st) \<longrightarrow> state_ok st" "well_formed r"
  shows "well_formed (apply_op env r x)"
proof (cases x)
  case (RegisterConfigured c)
  with assms(2) show ?thesis
    by (simp add: register_configured_model_def manual_well_formed default_well_formed provider_well_formed Let_def
        split: option.split)
next
  case (SetCachePath p)
  have "load_cache env (reg_disk r) p = Some cached \<Longrightarrow> state_ok cached" for cached
    using assms(1) by (auto simp: load_cache_def bind_eq_Some_conv split: if_splits)
  with SetCachePath assms(2) show ?thesis
    by (simp add: set_cache_path_def well_formed_def read_clock_of_def merged_ok marked_ok Let_def split: option.split)
next
  case (RefreshProvider p)
  obtain result r1 where "refresh_provider env p r = (result, r1)" by (cases "refresh_provider env p r")
  with RefreshProvider assms(2) show ?thesis
    by (simp add: refresh_provider_report_def models_def read_clock_of_def well_formed_def split_beta)
      (use refresh_well_formed [of env p r result r1] in \<open>simp add: well_formed_def\<close>)
next
  case RefreshAll
  obtain results r1 where "refresh_each env (provider_ids r) r = (results, r1)" by (cases "refresh_each env (provider_ids r) r")
  with RefreshAll assms(2) show ?thesis
    by (simp add: refresh_all_def models_def read_clock_of_def well_formed_def split_beta)
      (use refresh_each_well_formed [of env "provider_ids r" r results r1] in \<open>simp add: well_formed_def\<close>)
qed (use assms(2) in \<open>simp_all add: manual_well_formed default_well_formed provider_well_formed models_well_formed\<close>)



end
