(* ===== verification/Repository_Index.thy ===== *)
theory Repository_Index
  imports Tool_Read Ordered_Maps
begin

section \<open>harness-tools: the repository index\<close>

text \<open>
  \<open>harness-tools/src/repository_index.rs\<close>: the files of a repository with their declarations and
  imports, kept up to date by size and time of modification. Parameters are the regular expressions, glob
  patterns, \<open>to_lowercase\<close>, the JSON parser, the times of modification, and the program \<open>rg\<close>: what it
  prints when it is run with some arguments in a directory, or \<open>None\<close> if it cannot be started. The
  tree does not change while one operation runs.
\<close>

definition max_index_files :: nat where "max_index_files = 50000"
definition max_index_file_bytes :: nat where "max_index_file_bytes = 1024 * 1024"
definition max_index_total_bytes :: nat where "max_index_total_bytes = 128 * 1024 * 1024"
definition max_query_results :: nat where "max_query_results = 200"
definition max_result_bytes :: nat where "max_result_bytes = 24 * 1024"
definition max_depth :: nat where "max_depth = 24"

datatype symbol_kind = FunctionSymbol | ClassSymbol | InterfaceSymbol | TypeSymbol | ModuleSymbol

fun symbol_kind_text :: "symbol_kind \<Rightarrow> string" where
  "symbol_kind_text FunctionSymbol = ''function''"
| "symbol_kind_text ClassSymbol = ''class''"
| "symbol_kind_text InterfaceSymbol = ''interface''"
| "symbol_kind_text TypeSymbol = ''type''"
| "symbol_kind_text ModuleSymbol = ''module''"

record symbol_definition =
  sym_name :: string
  sym_kind :: symbol_kind
  sym_path :: string
  sym_line :: nat
  sym_exported :: bool

record indexed_file =
  if_path :: string
  if_language :: "string option"
  if_package :: "string option"
  if_is_test :: bool
  if_is_configuration :: bool
  if_imports :: "string list"
  if_exports :: "string list"
  if_symbols :: "symbol_definition list"
  if_size :: nat
  if_modified :: "nat option"
  if_content :: bool

text \<open>The expressions of \<open>Patterns\<close>.\<close>

datatype index_pattern =
    FunctionPattern | ClassPattern | InterfacePattern | TypeAliasPattern | ModulePattern | RustTypePattern
  | RustFunctionPattern | GoTypePattern | GoFunctionPattern | PythonFunctionPattern | PythonClassPattern
  | TsFunctionPattern | TsArrowPattern

text \<open>A package: its directory and its name.\<close>

type_synonym package_root = "component list \<times> string"

record repository_index =
  ri_root :: "component list"
  ri_files :: "(string \<times> indexed_file) list"
  ri_packages :: "package_root list"
  ri_bytes :: nat
  ri_validated :: nat

record index_services =
  is_machine :: machine
  is_modified :: "tree \<Rightarrow> component list \<Rightarrow> nat option"
  is_run_rg :: "tree \<Rightarrow> component list \<Rightarrow> string list \<Rightarrow> string option"
  is_lower :: "string \<Rightarrow> string"
  is_parse_json :: "string \<Rightarrow> json option"
  is_toml_name :: "string \<Rightarrow> string option"
  is_symbol :: "index_pattern \<Rightarrow> string \<Rightarrow> string option"
  is_glob :: "string \<Rightarrow> string + (string \<Rightarrow> bool)"
  is_word :: "bool \<Rightarrow> string \<Rightarrow> string + (string \<Rightarrow> bool)"

subsection \<open>Paths\<close>

definition path_string :: "path \<Rightarrow> string" where
  "path_string p = forward_slashes (from_utf8_lossy p)"

definition ignored_names :: "string list" where
  "ignored_names =
     [''.git'', ''.hg'', ''.svn'', ''node_modules'', ''.pnpm-store'', ''target'', ''dist'', ''build'', ''coverage'',
      ''.next'', ''.turbo'', ''.pytest_cache'', ''.mypy_cache'', ''.gradle'', ''bower_components'', ''bin'', ''obj'',
      ''vendor'', ''.venv'', ''venv'', ''__pycache__'']"

definition is_ignored_directory :: "string \<Rightarrow> bool" where
  "is_ignored_directory name \<longleftrightarrow> name \<in> set ignored_names"

definition manifest_names :: "string list" where
  "manifest_names = [''Cargo.toml'', ''package.json'', ''pyproject.toml'', ''go.mod'', ''pom.xml'']"

definition is_package_manifest :: "path \<Rightarrow> bool" where
  "is_package_manifest p \<longleftrightarrow> (case file_name p of None \<Rightarrow> False | Some n \<Rightarrow> n \<in> set manifest_names)"

definition indexed_languages :: "(string list \<times> string) list" where
  "indexed_languages =
     [([''rs''], ''rust''), ([''py'', ''pyi''], ''python''), ([''ts'', ''tsx'', ''mts'', ''cts''], ''typescript''),
      ([''js'', ''jsx'', ''mjs'', ''cjs''], ''javascript''), ([''go''], ''go''), ([''java''], ''java''), ([''cs''], ''csharp''),
      ([''c'', ''h''], ''c''), ([''cc'', ''cpp'', ''cxx'', ''hpp''], ''cpp''), ([''rb''], ''ruby''), ([''kt'', ''kts''], ''kotlin'')]"

definition index_language_for :: "path \<Rightarrow> string option" where
  "index_language_for p =
     Option.bind (path_extension p) (\<lambda>ext. map_option snd (find (\<lambda>(exts, _). ext \<in> set exts) indexed_languages))"

definition indexed_test_path :: "(string \<Rightarrow> string) \<Rightarrow> path \<Rightarrow> bool" where
  "indexed_test_path lower p =
     (let s = lower (path_string p)
      in str_contains s ''/tests/'' \<or> str_contains s ''/__tests__/'' \<or>
         list_ex (ends_with s) [''_test.rs'', ''_test.py'', ''.test.ts'', ''.spec.ts'', ''.test.tsx'', ''.spec.tsx'', ''_test.go''])"

definition configuration_names :: "string list" where
  "configuration_names =
     [''Cargo.toml'', ''package.json'', ''pyproject.toml'', ''go.mod'', ''go.work'', ''tsconfig.json'', ''jsconfig.json'',
      ''vite.config.ts'', ''eslint.config.js'', ''Makefile'', ''justfile'', ''Justfile'', ''Dockerfile'', ''Cargo.lock'',
      ''pnpm-workspace.yaml'']"

definition is_configuration_path :: "path \<Rightarrow> bool" where
  "is_configuration_path p =
     (let n = (case file_name p of None \<Rightarrow> [] | Some n \<Rightarrow> n)
      in n \<in> set configuration_names \<or> list_ex (starts_with n) [''.eslintrc'', ''.prettierrc'', ''pytest.ini''])"

definition trim_both :: "char list \<Rightarrow> string \<Rightarrow> string" where
  "trim_both cs s = trim_end_chars cs (trim_start_chars cs s)"

definition normalize_query_path :: "path \<Rightarrow> string" where
  "normalize_query_path p =
     (let p = forward_slashes p in if p = ''.'' \<or> p = [] then [] else trim_both [slash] p @ [slash])"

text \<open>\<open>lexical_normalize\<close>, on components.\<close>

definition lexical_normalize :: "component list \<Rightarrow> component list" where
  "lexical_normalize cs =
     foldl (\<lambda>acc c. case c of CurDir \<Rightarrow> acc | ParentDir \<Rightarrow> pop_component acc | RootDir \<Rightarrow> [RootDir] | Normal s \<Rightarrow> acc @ [Normal s]) [] cs"

definition push_unique :: "string \<Rightarrow> string list \<Rightarrow> string list" where
  "push_unique v vs = (if v \<in> set vs then vs else vs @ [v])"

text \<open>\<open>metadata\<close> of a path: what it is and when it was modified; links are followed.\<close>

definition index_metadata :: "index_services \<Rightarrow> tree \<Rightarrow> path \<Rightarrow> (inode \<times> nat option) option" where
  "index_metadata s t p =
     (case resolve (is_machine s) t p of
        Inl _ \<Rightarrow> None
      | Inr cs \<Rightarrow> map_option (\<lambda>x. (x, is_modified s t cs)) (inode_at t cs))"

fun inode_length :: "inode \<Rightarrow> nat" where
  "inode_length (RegularFile bytes) = length bytes"
| "inode_length _ = 0"

definition host_read_text :: "machine \<Rightarrow> tree \<Rightarrow> path \<Rightarrow> os_error + string" where
  "host_read_text m t p =
     bind_result (host_read m t p) (\<lambda>bytes.
       if valid_utf8 bytes then Inr bytes else Inl (OsError KindInvalidData ''stream did not contain valid UTF-8''))"

subsection \<open>Reading a file\<close>

definition language_patterns :: "string \<Rightarrow> (index_pattern \<times> symbol_kind) list" where
  "language_patterns l =
     (if l = ''rust'' then [(RustTypePattern, TypeSymbol), (RustFunctionPattern, FunctionSymbol), (ModulePattern, ModuleSymbol)]
      else if l = ''python'' then [(PythonClassPattern, ClassSymbol), (PythonFunctionPattern, FunctionSymbol)]
      else if l = ''typescript'' \<or> l = ''javascript'' then
        [(ClassPattern, ClassSymbol), (InterfacePattern, InterfaceSymbol), (TypeAliasPattern, TypeSymbol),
         (TsFunctionPattern, FunctionSymbol), (TsArrowPattern, FunctionSymbol)]
      else if l = ''go'' then [(GoTypePattern, TypeSymbol), (GoFunctionPattern, FunctionSymbol)]
      else [(ClassPattern, ClassSymbol), (InterfacePattern, InterfaceSymbol), (TypeAliasPattern, TypeSymbol),
            (FunctionPattern, FunctionSymbol)])"

definition first_of :: "'a option \<Rightarrow> 'a option \<Rightarrow> 'a option" where
  "first_of x y = (case x of None \<Rightarrow> y | Some _ \<Rightarrow> x)"

definition module_text :: "string \<Rightarrow> string" where
  "module_text s = trim_both [CHR 0x22, CHR 0x27] (trim_end_chars [CHR '';''] (trim s))"

definition import_text :: "string \<Rightarrow> string \<Rightarrow> string option" where
  "import_text l line =
     (if l = ''rust'' then
        map_option (trim_end_chars [CHR '';'']) (first_of (strip_prefix_str ''use '' line) (strip_prefix_str ''pub use '' line))
      else if l = ''python'' then
        first_of (Option.bind (strip_prefix_str ''from '' line) (\<lambda>v. map_option fst (split_once '' import '' v)))
          (map_option (takeWhile (\<lambda>c. c \<noteq> CHR '','')) (strip_prefix_str ''import '' line))
      else if l = ''go'' then
        Option.bind (map_option (trim_both [CHR 0x22, CHR ''('', CHR '')'', CHR '' '']) (strip_prefix_str ''import '' line))
          (\<lambda>v. if v = [] then None else Some v)
      else (case split_once '' from '' line of
          Some (_, v) \<Rightarrow> Some (module_text v)
        | None \<Rightarrow> map_option module_text (strip_prefix_str ''import '' line)))"

definition parse_import :: "string \<Rightarrow> string \<Rightarrow> string option" where
  "parse_import l line = Option.bind (import_text l line) (\<lambda>v. if trim v = [] then None else Some (trim v))"

definition is_export :: "string \<Rightarrow> string \<Rightarrow> bool" where
  "is_export l line \<longleftrightarrow> starts_with line ''export '' \<or> l = ''rust'' \<and> starts_with line ''pub use '' \<or>
     l = ''python'' \<and> starts_with line ''__all__''"

definition export_words :: "string list" where
  "export_words =
     [''default'', ''async'', ''declare'', ''abstract'', ''function'', ''class'', ''interface'', ''type'', ''const'', ''let'', ''var'']"

text \<open>The pieces between white space, \<open>{\<close>, \<open>;\<close> and \<open>=\<close>; empty ones do not matter.\<close>

definition export_parts :: "string \<Rightarrow> string list" where
  "export_parts s = concat (map split_whitespace (split_on (\<lambda>c. c \<in> {CHR ''{'', CHR '';'', CHR ''=''}) s))"

definition parse_export_name :: "string \<Rightarrow> string option" where
  "parse_export_name line =
     (if starts_with line ''__all__'' then Some ''__all__''
      else Option.bind (first_of (strip_prefix_str ''export '' line) (strip_prefix_str ''pub use '' line)) (\<lambda>rest.
        map_option (trim_both [CHR ''{'', CHR ''}'', CHR ''*''])
          (find (\<lambda>w. w \<noteq> [] \<and> w \<notin> set export_words) (export_parts rest))))"

definition skipped_line :: "string \<Rightarrow> bool" where
  "skipped_line line \<longleftrightarrow> line = [] \<or> starts_with line ''#'' \<or> starts_with line ''//'' \<or> starts_with line ''*''"

definition add_symbol ::
  "index_services \<Rightarrow> string \<Rightarrow> string \<Rightarrow> nat \<Rightarrow> indexed_file \<Rightarrow> index_pattern \<times> symbol_kind \<Rightarrow> indexed_file" where
  "add_symbol s l line n f p =
     (case is_symbol s (fst p) line of
        None \<Rightarrow> f
      | Some name \<Rightarrow>
          let exported = is_export l line \<or> starts_with line ''pub '';
              f = (if exported then f\<lparr>if_exports := push_unique name (if_exports f)\<rparr> else f)
          in f\<lparr>if_symbols := if_symbols f @ [\<lparr>sym_name = name, sym_kind = snd p, sym_path = if_path f, sym_line = n,
                 sym_exported = exported\<rparr>]\<rparr>)"

definition parse_line :: "index_services \<Rightarrow> string \<Rightarrow> indexed_file \<Rightarrow> nat \<times> string \<Rightarrow> indexed_file" where
  "parse_line s l f entry =
     (let n = fst entry + 1; line = trim (snd entry)
      in if skipped_line line then f
         else
           let f = (case parse_import l line of None \<Rightarrow> f | Some i \<Rightarrow> f\<lparr>if_imports := push_unique i (if_imports f)\<rparr>);
               f = foldl (add_symbol s l line n) f (language_patterns l)
           in if is_export l line \<and>
                list_ex (starts_with line) [''export {'', ''pub use '', ''__all__'']
              then (case parse_export_name line of None \<Rightarrow> f | Some v \<Rightarrow> f\<lparr>if_exports := push_unique v (if_exports f)\<rparr>)
              else f)"

definition parse_file :: "index_services \<Rightarrow> indexed_file \<Rightarrow> string \<Rightarrow> indexed_file" where
  "parse_file s f contents =
     (case if_language f of
        None \<Rightarrow> f
      | Some l \<Rightarrow>
          let f = foldl (parse_line s l) f (List.enumerate 0 (str_lines contents))
          in f\<lparr>if_symbols := sort_key (\<lambda>x. (sym_line x, sym_name x)) (if_symbols f)\<rparr>)"

subsection \<open>The files of a repository\<close>

definition regular_files_below :: "component list \<Rightarrow> (string \<times> inode) list \<Rightarrow> component list list" where
  "regular_files_below dir entries =
     map (\<lambda>(n, _). dir @ [Normal n])
       (filter (\<lambda>(n, x). \<not> is_ignored_directory n \<and> (case x of RegularFile _ \<Rightarrow> True | _ \<Rightarrow> False)) entries)"

definition directories_below :: "component list \<Rightarrow> nat \<Rightarrow> (string \<times> inode) list \<Rightarrow> (component list \<times> nat) list" where
  "directories_below dir depth entries =
     map (\<lambda>(n, _). (dir @ [Normal n], depth + 1)) (filter (\<lambda>(n, x). \<not> is_ignored_directory n \<and> x = Directory) entries)"

definition walk_weight :: "tree \<Rightarrow> (component list \<times> nat) list \<Rightarrow> nat" where
  "walk_weight t pending = sum_list (map (\<lambda>(_, depth). Suc (length t) ^ (26 - depth)) pending)"

lemma walk_weight_step:
  assumes "host_entries m t p = Inr entries" "depth \<le> 24"
  shows "walk_weight t (rev (directories_below dir depth entries) @ pending) < walk_weight t ((dir, depth) # pending)"
proof -
  let ?k = "Suc (length t)"
  have "length entries \<le> length t"
    using assms(1) length_entries_in by (cases "resolve m t p") (auto simp: host_entries_def split: if_splits)
  then have few: "length (directories_below dir depth entries) \<le> length t"
    unfolding directories_below_def by (metis length_filter_le length_map order_trans)
  have "walk_weight t (directories_below dir depth entries) =
      length (directories_below dir depth entries) * ?k ^ (25 - depth)"
    unfolding walk_weight_def directories_below_def by (induction entries) auto
  also have "\<dots> \<le> length t * ?k ^ (25 - depth)" using few by simp
  also have "\<dots> < ?k * ?k ^ (25 - depth)" by simp
  also have "\<dots> = ?k ^ Suc (25 - depth)" by simp
  also have "Suc (25 - depth) = 26 - depth" using assms(2) by simp
  finally show ?thesis by (simp add: walk_weight_def rev_map [symmetric])
qed

function native_pending ::
  "machine \<Rightarrow> tree \<Rightarrow> (component list \<times> nat) list \<Rightarrow> component list list \<Rightarrow> component list list" where
  "native_pending m t [] found = found"
| "native_pending m t ((dir, depth) # pending) found =
     (if max_depth < depth \<or> max_index_files \<le> length found then native_pending m t pending found
      else case host_entries m t (path_text dir) of
        Inl _ \<Rightarrow> native_pending m t pending found
      | Inr entries \<Rightarrow>
          native_pending m t (rev (directories_below dir depth entries) @ pending) (found @ regular_files_below dir entries))"
  by pat_completeness auto
termination
  by (relation "measure (\<lambda>(m, t, pending, found). walk_weight t pending)")
    (auto simp: max_depth_def walk_weight_step, auto simp: walk_weight_def)

definition native_files :: "machine \<Rightarrow> tree \<Rightarrow> component list \<Rightarrow> path list" where
  "native_files m t root = map path_text (sort (native_pending m t [(root, 0)] []))"

definition excluded_globs :: "string list" where
  "excluded_globs =
     [''!.git/**'', ''!node_modules/**'', ''!.pnpm-store/**'', ''!target/**'', ''!dist/**'', ''!build/**'', ''!coverage/**'',
      ''!.next/**'', ''!.turbo/**'', ''!.pytest_cache/**'', ''!.mypy_cache/**'', ''!vendor/**'', ''!.venv/**'', ''!venv/**'',
      ''!__pycache__/**'']"

definition glob_args :: "string list \<Rightarrow> string list" where
  "glob_args globs = concat (map (\<lambda>g. [''-g'', g]) globs)"

definition ripgrep_files :: "index_services \<Rightarrow> tree \<Rightarrow> component list \<Rightarrow> path list option" where
  "ripgrep_files s t root =
     map_option (\<lambda>out.
         sort_paths (take max_index_files (filter (host_is_file (is_machine s) t)
           (map (path_join (path_text root)) (takeWhile valid_utf8 (take (max_index_files + 1) (str_lines out)))))))
       (is_run_rg s t root ([''--files'', ''--hidden'', ''--no-messages''] @ glob_args excluded_globs))"

definition enumerate_files :: "index_services \<Rightarrow> tree \<Rightarrow> component list \<Rightarrow> path list" where
  "enumerate_files s t root =
     (case ripgrep_files s t root of Some ps \<Rightarrow> ps | None \<Rightarrow> native_files (is_machine s) t root)"

subsection \<open>Packages\<close>

definition go_module :: "string \<Rightarrow> string option" where
  "go_module contents =
     Option.bind (find (\<lambda>l. starts_with (trim l) ''module '') (str_lines contents))
       (\<lambda>l. strip_prefix_str ''module '' (trim l))"

definition package_name :: "index_services \<Rightarrow> string \<Rightarrow> string \<Rightarrow> string option" where
  "package_name s manifest contents =
     (if manifest = ''package.json'' then
        Option.bind (is_parse_json s contents) (\<lambda>v. Option.bind (json_get ''name'' v) json_str)
      else if manifest \<in> {''Cargo.toml'', ''pyproject.toml''} then is_toml_name s contents
      else if manifest = ''go.mod'' then go_module contents
      else None)"

definition package_of_manifest :: "index_services \<Rightarrow> tree \<Rightarrow> component list \<Rightarrow> path \<Rightarrow> package_root option" where
  "package_of_manifest s t root p =
     (if \<not> is_package_manifest p then None
      else case index_metadata s t p of
        None \<Rightarrow> None
      | Some (x, _) \<Rightarrow>
          if max_index_file_bytes < inode_length x then None
          else (case host_read_text (is_machine s) t p of
             Inl _ \<Rightarrow> None
           | Inr contents \<Rightarrow>
               let dir = (case path_parent p of None \<Rightarrow> root | Some d \<Rightarrow> components d);
                   fallback = (case Option.bind (path_parent p) file_name of
                     None \<Rightarrow> ''workspace'' | Some n \<Rightarrow> from_utf8_lossy n)
               in Some (dir, case Option.bind (file_name p) (\<lambda>n. package_name s n contents) of
                    None \<Rightarrow> fallback | Some n \<Rightarrow> n)))"

fun dedup_packages :: "package_root list \<Rightarrow> package_root list" where
  "dedup_packages (p # q # ps) = (if fst p = fst q then dedup_packages (p # ps) else p # dedup_packages (q # ps))"
| "dedup_packages ps = ps"

definition discover_packages :: "index_services \<Rightarrow> tree \<Rightarrow> component list \<Rightarrow> path list \<Rightarrow> package_root list" where
  "discover_packages s t root ps =
     dedup_packages (sort_key (\<lambda>(d, _). (length d, d)) (List.map_filter (package_of_manifest s t root) ps))"

text \<open>\<open>filter(starts_with).max_by_key(components)\<close>: of packages as deep the last one.\<close>

definition package_for :: "package_root list \<Rightarrow> component list \<Rightarrow> string option" where
  "package_for packages cs =
     map_option snd (foldl (\<lambda>best p. case best of
         None \<Rightarrow> Some p
       | Some q \<Rightarrow> if length (fst q) \<le> length (fst p) then Some p else Some q) None
       (filter (\<lambda>p. prefix (fst p) cs) packages))"

subsection \<open>Keeping the index\<close>

fun tree_map_remove :: "'k::linorder \<Rightarrow> ('k \<times> 'v) list \<Rightarrow> ('k \<times> 'v) list" where
  "tree_map_remove k [] = []"
| "tree_map_remove k ((k', v) # rest) = (if k = k' then rest else (k', v) # tree_map_remove k rest)"

definition remove_indexed :: "string \<Rightarrow> repository_index \<Rightarrow> repository_index" where
  "remove_indexed rel ix =
     (case map_of (ri_files ix) rel of
        None \<Rightarrow> ix
      | Some old \<Rightarrow>
          ix\<lparr>ri_files := tree_map_remove rel (ri_files ix),
             ri_bytes := (if if_content old then ri_bytes ix - if_size old else ri_bytes ix)\<rparr>)"

definition index_relative_path :: "index_services \<Rightarrow> tree \<Rightarrow> component list \<Rightarrow> path \<Rightarrow> tool_error + string" where
  "index_relative_path s t root p =
     (let absolute = (if is_absolute p then p else path_join (path_text root) p) in
      bind_result
        (if host_exists (is_machine s) t absolute
         then map_sum (io_failure ''resolve indexed path'') id (resolve (is_machine s) t absolute)
         else Inr (lexical_normalize (components absolute))) (\<lambda>cs.
      if prefix root cs then Inr (path_string (path_text (drop (length root) cs))) else Inl (PathOutsideWorkspace p)))"

definition insert_indexed :: "indexed_file \<Rightarrow> repository_index \<Rightarrow> repository_index" where
  "insert_indexed f ix = ix\<lparr>ri_files := tree_map_insert (if_path f) f (ri_files ix)\<rparr>"

definition blank_record ::
  "index_services \<Rightarrow> package_root list \<Rightarrow> component list \<Rightarrow> string \<Rightarrow> inode \<Rightarrow> nat option \<Rightarrow> indexed_file" where
  "blank_record s packages absolute rel x modified =
     \<lparr>if_path = path_string rel, if_language = index_language_for rel, if_package = package_for packages absolute,
      if_is_test = indexed_test_path (is_lower s) rel, if_is_configuration = is_configuration_path rel,
      if_imports = [], if_exports = [], if_symbols = [], if_size = inode_length x, if_modified = modified,
      if_content = False\<rparr>"

text \<open>An index that is returned beside an error is what the failing operation leaves behind.\<close>

definition index_contents ::
  "index_services \<Rightarrow> tree \<Rightarrow> path \<Rightarrow> indexed_file \<Rightarrow> repository_index \<Rightarrow> (tool_error + unit) \<times> repository_index" where
  "index_contents s t absolute f ix =
     (if if_language f = None \<or> max_index_total_bytes \<le> ri_bytes ix \<or> max_index_file_bytes < if_size f \<or>
         max_index_total_bytes - ri_bytes ix < if_size f
      then (Inr (), insert_indexed f ix)
      else case host_read_text (is_machine s) t absolute of
        Inl err \<Rightarrow>
          if os_kind err = KindInvalidData then (Inr (), insert_indexed f ix)
          else (Inl (io_failure ''read indexed file'' err), ix)
      | Inr contents \<Rightarrow>
          (Inr (), insert_indexed ((parse_file s f contents)\<lparr>if_content := True\<rparr>)
             (ix\<lparr>ri_bytes := ri_bytes ix + if_size f\<rparr>)))"

definition update_indexed ::
  "index_services \<Rightarrow> tree \<Rightarrow> path \<Rightarrow> repository_index \<Rightarrow> (tool_error + unit) \<times> repository_index" where
  "update_indexed s t p ix =
     (case index_relative_path s t (ri_root ix) p of
        Inl err \<Rightarrow> (Inl err, ix)
      | Inr rel \<Rightarrow>
          let absolute = path_join (path_text (ri_root ix)) rel; ix = remove_indexed rel ix in
          (case index_metadata s t absolute of
             Some (RegularFile bytes, modified) \<Rightarrow>
               index_contents s t absolute
                 (blank_record s (ri_packages ix) (components absolute) rel (RegularFile bytes) modified) ix
           | _ \<Rightarrow> (Inr (), ix)))"

fun update_each ::
  "index_services \<Rightarrow> tree \<Rightarrow> path list \<Rightarrow> repository_index \<Rightarrow> (tool_error + unit) \<times> repository_index" where
  "update_each s t [] ix = (Inr (), ix)"
| "update_each s t (p # ps) ix =
     (case update_indexed s t p ix of
        (Inl err, ix) \<Rightarrow> (Inl err, ix)
      | (Inr _, ix) \<Rightarrow> update_each s t ps ix)"

definition index_build :: "index_services \<Rightarrow> tree \<Rightarrow> nat \<Rightarrow> path \<Rightarrow> tool_error + repository_index" where
  "index_build s t present root =
     (case resolve (is_machine s) t root of
        Inl err \<Rightarrow> Inl (io_failure ''resolve workspace'' err)
      | Inr cs \<Rightarrow>
          if inode_at t cs \<noteq> Some Directory then Inl (NotDirectory (path_text cs))
          else
            let ps = enumerate_files s t cs
            in (case update_each s t (take max_index_files ps)
                  \<lparr>ri_root = cs, ri_files = [], ri_packages = discover_packages s t cs ps, ri_bytes = 0, ri_validated = present\<rparr> of
                  (Inl err, _) \<Rightarrow> Inl err
                | (Inr _, ix) \<Rightarrow> Inr ix))"

definition assign_packages :: "repository_index \<Rightarrow> repository_index" where
  "assign_packages ix =
     ix\<lparr>ri_files := map (\<lambda>(k, f). (k, f\<lparr>if_package :=
         package_for (ri_packages ix) (components (path_join (path_text (ri_root ix)) (if_path f)))\<rparr>)) (ri_files ix)\<rparr>"

definition rediscover :: "index_services \<Rightarrow> tree \<Rightarrow> repository_index \<Rightarrow> repository_index" where
  "rediscover s t ix =
     assign_packages (ix\<lparr>ri_packages := discover_packages s t (ri_root ix) (enumerate_files s t (ri_root ix))\<rparr>)"

definition stripped :: "component list \<Rightarrow> path \<Rightarrow> string option" where
  "stripped root p = map_option path_string (path_strip_prefix (path_text root) p)"

text \<open>A file whose size or time of modification is not what the index has.\<close>

definition is_outdated :: "index_services \<Rightarrow> tree \<Rightarrow> repository_index \<Rightarrow> path \<Rightarrow> bool" where
  "is_outdated s t ix p =
     (case index_metadata s t p of
        None \<Rightarrow> False
      | Some (x, modified) \<Rightarrow>
          (case map_of (ri_files ix) (case stripped (ri_root ix) p of None \<Rightarrow> [] | Some rel \<Rightarrow> rel) of
             None \<Rightarrow> True
           | Some f \<Rightarrow> if_size f \<noteq> inode_length x \<or> if_modified f \<noteq> modified))"

text \<open>The files in turn, and whether a manifest was among the outdated ones.\<close>

fun refresh_files ::
  "index_services \<Rightarrow> tree \<Rightarrow> path list \<Rightarrow> bool \<Rightarrow> repository_index \<Rightarrow> (tool_error + bool) \<times> repository_index" where
  "refresh_files s t [] changed ix = (Inr changed, ix)"
| "refresh_files s t (p # ps) changed ix =
     (if is_outdated s t ix p
      then (case update_indexed s t p ix of
          (Inl err, ix) \<Rightarrow> (Inl err, ix)
        | (Inr _, ix) \<Rightarrow> refresh_files s t ps (changed \<or> is_package_manifest p) ix)
      else refresh_files s t ps changed ix)"

definition removed_files :: "repository_index \<Rightarrow> path list \<Rightarrow> string list" where
  "removed_files ix ps =
     filter (\<lambda>k. k \<notin> set (List.map_filter (stripped (ri_root ix)) ps)) (map fst (ri_files ix))"

definition refresh_if_stale ::
  "index_services \<Rightarrow> tree \<Rightarrow> nat \<Rightarrow> repository_index \<Rightarrow> (tool_error + unit) \<times> repository_index" where
  "refresh_if_stale s t present ix =
     (if present - ri_validated ix < 2000 then (Inr (), ix)
      else
        let ps = enumerate_files s t (ri_root ix); removed = removed_files ix ps in
        (case refresh_files s t (take max_index_files ps) (removed \<noteq> []) (foldl (\<lambda>ix p. remove_indexed p ix) ix removed) of
           (Inl err, ix) \<Rightarrow> (Inl err, ix)
         | (Inr changed, ix) \<Rightarrow>
             (Inr (), (if changed then rediscover s t ix else ix)\<lparr>ri_validated := present\<rparr>)))"

text \<open>\<open>RepositoryIndexService\<close>: one index for each root.\<close>

type_synonym index_service = "component list \<rightharpoonup> repository_index"

definition with_index ::
  "index_services \<Rightarrow> tree \<Rightarrow> nat \<Rightarrow> path \<Rightarrow> (repository_index \<Rightarrow> tool_error + 'a) \<Rightarrow> index_service
     \<Rightarrow> (tool_error + 'a) \<times> index_service" where
  "with_index s t present root f svc =
     (case resolve (is_machine s) t root of
        Inl err \<Rightarrow> (Inl (io_failure ''resolve workspace'' err), svc)
      | Inr cs \<Rightarrow>
          (case (case svc cs of Some ix \<Rightarrow> Inr ix | None \<Rightarrow> index_build s t present (path_text cs)) of
             Inl err \<Rightarrow> (Inl err, svc)
           | Inr ix \<Rightarrow>
               (case refresh_if_stale s t present ix of
                  (Inl err, ix) \<Rightarrow> (Inl err, svc(cs \<mapsto> ix))
                | (Inr _, ix) \<Rightarrow> (f ix, svc(cs \<mapsto> ix)))))"

definition update_changed ::
  "index_services \<Rightarrow> tree \<Rightarrow> path \<Rightarrow> path list \<Rightarrow> index_service \<Rightarrow> (tool_error + unit) \<times> index_service" where
  "update_changed s t root changed svc =
     (case resolve (is_machine s) t root of
        Inl err \<Rightarrow> (Inl (io_failure ''resolve workspace'' err), svc)
      | Inr cs \<Rightarrow>
          (case svc cs of
             None \<Rightarrow> (Inr (), svc)
           | Some ix \<Rightarrow>
               (case update_each s t changed ix of
                  (Inl err, ix) \<Rightarrow> (Inl err, svc(cs \<mapsto> ix))
                | (Inr _, ix) \<Rightarrow>
                    (Inr (), svc(cs \<mapsto> if list_ex is_package_manifest changed then rediscover s t ix else ix)))))"

section \<open>harness-tools: the index counts what it holds\<close>

text \<open>
  The bytes an index has counted are those of the files it holds the contents of, within the limit, in
  every session.
\<close>

subsection \<open>Text of a path, again\<close>

lemma match_ranges_taken: "match_ranges rs s = (True, n) \<Longrightarrow> match_ranges rs (take n s @ r) = (True, n)"
  by (induction rs s arbitrary: n rule: match_ranges.induct) (auto split: if_splits prod.splits)

lemma lossy_again: "from_utf8_lossy (from_utf8_lossy s) = from_utf8_lossy s"
proof (induction s rule: from_utf8_lossy.induct)
  case (2 a s)
  obtain ok n where head: "utf8_head a s = (ok, n)" by fastforce
  note IH = 2 [OF head [symmetric]]
  let ?r = "from_utf8_lossy (drop n s)"
  show ?case
  proof (cases ok)
    case True
    with head have "utf8_head a (take n s @ ?r) = (True, n)"
      by (auto simp: utf8_head_def match_ranges_taken split: option.splits)
    moreover have "length (take n s) = n" using utf8_head_length [OF head] by simp
    ultimately show ?thesis using True head IH by (simp add: from_utf8_lossy.simps(2))
  next
    case False
    have "utf8_head (CHR 0xEF) (CHR 0xBF # CHR 0xBD # ?r) = (True, 2)"
      by (simp add: utf8_head_def tail_ranges_def in_range_def byte_of_def numeral_2_eq_2)
    with False head IH show ?thesis by (simp add: from_utf8_lossy.simps(2) replacement_def numeral_2_eq_2)
  qed
qed simp

lemma lossy_map_ascii:
  assumes ascii: "\<And>c. byte_of c < 128 \<Longrightarrow> byte_of (g c) < 128" and other: "\<And>c. 128 \<le> byte_of c \<Longrightarrow> g c = c"
  shows "from_utf8_lossy (map g s) = map g (from_utf8_lossy s)"
proof (induction s rule: from_utf8_lossy.induct)
  case (2 a s)
  have ranges: "match_ranges rs (map g s) = match_ranges rs s" if "\<forall>r \<in> set rs. 128 \<le> fst r" for rs s
    using that
  proof (induction rs s rule: match_ranges.induct)
    case (3 r rs c cs)
    have "in_range r (g c) = in_range r c"
      using 3(2) ascii [of c] other [of c] by (cases "byte_of c < 128") (auto simp: in_range_def)
    with 3 show ?case by simp
  qed auto
  have "tail_ranges (g a) = tail_ranges a"
    using ascii [of a] other [of a] by (cases "byte_of a < 128") (auto simp: tail_ranges_def)
  then have heads: "utf8_head (g a) (map g s) = utf8_head a s"
    using tail_ranges_high [of a] ranges by (auto simp: utf8_head_def split: option.split)
  obtain ok n where head: "utf8_head a s = (ok, n)" by fastforce
  have "map g replacement = replacement" using other by (simp add: replacement_def byte_of_def)
  then show ?case using head heads 2 [OF head [symmetric]]
    by (simp add: from_utf8_lossy.simps(2) take_map drop_map)
qed simp

lemma path_string_again: "path_string (path_string p) = path_string p"
proof -
  let ?g = "\<lambda>c. if c = CHR 0x5C then slash else c"
  have g: "map ?g (map ?g s) = map ?g s" for s by (induction s) auto
  have "from_utf8_lossy (map ?g s) = map ?g (from_utf8_lossy s)" for s
    by (rule lossy_map_ascii) (auto simp: byte_of_def)
  then show ?thesis
    by (simp only: path_string_def forward_slashes_def replace_char_def lossy_again g)
qed

subsection \<open>Removal from an ordered map\<close>

lemma map_of_tree_map_remove:
  "sorted_wrt (<) (map fst xs) \<Longrightarrow> map_of (tree_map_remove k xs) = (map_of xs)(k := None)"
proof (induction xs)
  case (Cons p xs)
  obtain k' v where p: "p = (k', v)" by (cases p)
  have "map_of xs k' = None" using Cons.prems p by (auto simp: map_of_eq_None_iff)
  with Cons p show ?case by (auto simp: fun_eq_iff)
qed simp

lemma set_tree_map_remove: "set (tree_map_remove k xs) \<subseteq> set xs"
  by (induction k xs rule: tree_map_remove.induct) auto

lemma sorted_tree_map_remove:
  "sorted_wrt (<) (map fst xs) \<Longrightarrow> sorted_wrt (<) (map fst (tree_map_remove k xs))"
  by (induction k xs rule: tree_map_remove.induct) (use set_tree_map_remove in fastforce)+

lemma sum_tree_map_insert:
  "k \<notin> fst ` set xs \<Longrightarrow> sum_list (map g (tree_map_insert k v xs)) = g (k, v) + (sum_list (map g xs) :: nat)"
  by (induction k v xs rule: tree_map_insert.induct) auto

lemma sum_tree_map_remove:
  "map_of xs k = Some v \<Longrightarrow> sum_list (map g (tree_map_remove k xs)) + g (k, v) = (sum_list (map g xs) :: nat)"
  by (induction k xs rule: tree_map_remove.induct) auto

lemma list_all_tree_map_insert: "P (k, v) \<Longrightarrow> list_all P xs \<Longrightarrow> list_all P (tree_map_insert k v xs)"
  by (induction k v xs rule: tree_map_insert.induct) auto

subsection \<open>Reading keeps what is known of a file\<close>

lemma foldl_keeps: "(\<And>f x. g (h f x) = g f) \<Longrightarrow> g (foldl h f xs) = g f"
  by (induction xs arbitrary: f) auto

lemma add_symbol_keeps:
  "if_path (add_symbol s l line n f p) = if_path f" "if_size (add_symbol s l line n f p) = if_size f"
  "if_modified (add_symbol s l line n f p) = if_modified f"
  by (simp_all add: add_symbol_def Let_def split: option.split)

lemma parse_line_keeps:
  "if_path (parse_line s l f x) = if_path f" "if_size (parse_line s l f x) = if_size f"
  "if_modified (parse_line s l f x) = if_modified f"
  by (simp_all add: parse_line_def Let_def foldl_keeps [of if_path] foldl_keeps [of if_size] foldl_keeps [of if_modified]
      add_symbol_keeps split: option.split)

lemma parse_file_keeps:
  "if_path (parse_file s f c) = if_path f" "if_size (parse_file s f c) = if_size f"
  "if_modified (parse_file s f c) = if_modified f"
  by (simp_all add: parse_file_def Let_def foldl_keeps [of if_path] foldl_keeps [of if_size] foldl_keeps [of if_modified]
      parse_line_keeps split: option.split)

subsection \<open>The invariant\<close>

definition content_size :: "string \<times> indexed_file \<Rightarrow> nat" where
  "content_size p = (if if_content (snd p) then if_size (snd p) else 0)"

definition index_ok :: "repository_index \<Rightarrow> bool" where
  "index_ok ix \<longleftrightarrow> sorted_wrt (<) (map fst (ri_files ix)) \<and> list_all (\<lambda>p. if_path (snd p) = fst p) (ri_files ix) \<and>
     ri_bytes ix = sum_list (map content_size (ri_files ix)) \<and> ri_bytes ix \<le> max_index_total_bytes"

lemma remove_indexed_fields:
  "ri_root (remove_indexed rel ix) = ri_root ix" "ri_packages (remove_indexed rel ix) = ri_packages ix"
  "ri_bytes (remove_indexed rel ix) \<le> ri_bytes ix"
  by (simp_all add: remove_indexed_def split: option.split)

lemma remove_indexed_files:
  assumes "sorted_wrt (<) (map fst (ri_files ix))"
  shows "map_of (ri_files (remove_indexed rel ix)) = (map_of (ri_files ix))(rel := None)"
    and "sorted_wrt (<) (map fst (ri_files (remove_indexed rel ix)))"
  using assms by (auto simp: remove_indexed_def map_of_tree_map_remove sorted_tree_map_remove split: option.split)

lemma remove_indexed_ok: "index_ok ix \<Longrightarrow> index_ok (remove_indexed rel ix)"
proof (cases "map_of (ri_files ix) rel")
  case (Some old)
  assume ok: "index_ok ix"
  note total = sum_tree_map_remove [OF Some, of content_size]
  have "list_all (\<lambda>p. if_path (snd p) = fst p) (tree_map_remove rel (ri_files ix))"
    using ok set_tree_map_remove [of rel "ri_files ix"] by (auto simp: index_ok_def list_all_iff)
  with ok Some total show ?thesis
    by (auto simp: index_ok_def remove_indexed_def sorted_tree_map_remove content_size_def)
qed (simp add: remove_indexed_def)

lemma removed_is_absent:
  "sorted_wrt (<) (map fst (ri_files ix)) \<Longrightarrow> rel \<notin> fst ` set (ri_files (remove_indexed rel ix))"
  using remove_indexed_files(1) [of ix rel] by (simp add: map_of_eq_None_iff [symmetric])

lemma index_contents_ok:
  assumes "index_ok ix" "if_path f \<notin> fst ` set (ri_files ix)" "\<not> if_content f"
  shows "index_ok (snd (index_contents s t absolute f ix))"
proof -
  have insert: "index_ok (insert_indexed f' (ix\<lparr>ri_bytes := ri_bytes ix + content_size (if_path f, f')\<rparr>))"
    if "if_path f' = if_path f" "ri_bytes ix + content_size (if_path f, f') \<le> max_index_total_bytes" for f'
    using assms(1,2) that
    by (simp add: index_ok_def insert_indexed_def sorted_tree_map_insert list_all_tree_map_insert sum_tree_map_insert)
  have blank: "index_ok (insert_indexed f ix)"
    using insert [of f] assms(1,3) by (simp add: content_size_def index_ok_def)
  let ?f = "\<lambda>c. (parse_file s f c)\<lparr>if_content := True\<rparr>"
  have full: "index_ok (insert_indexed (?f c) (ix\<lparr>ri_bytes := ri_bytes ix + if_size f\<rparr>))"
    if "ri_bytes ix + if_size f \<le> max_index_total_bytes" for c
    using insert [of "?f c"] that by (simp add: content_size_def parse_file_keeps)
  show ?thesis
    using assms(1) blank full by (auto simp: index_contents_def split: sum.split)
qed

lemma update_indexed_ok: "index_ok ix \<Longrightarrow> index_ok (snd (update_indexed s t p ix))"
proof -
  assume ok: "index_ok ix"
  have "index_ok (snd (index_contents s t absolute (blank_record s pk cs rel x m) (remove_indexed rel ix)))"
    if "path_string rel = rel" for absolute pk cs rel x m
  proof (rule index_contents_ok [OF remove_indexed_ok [OF ok]])
    show "if_path (blank_record s pk cs rel x m) \<notin> fst ` set (ri_files (remove_indexed rel ix))"
      using removed_is_absent [of ix rel] ok that by (simp add: blank_record_def index_ok_def)
  qed (simp add: blank_record_def)
  moreover have "path_string rel = rel" if "index_relative_path s t root p = Inr rel" for rel root
    using that path_string_again by (auto simp: index_relative_path_def Let_def split: if_splits)
  ultimately show ?thesis
    using ok remove_indexed_ok [OF ok]
    by (auto simp: update_indexed_def Let_def split: sum.split option.split inode.split)
qed

lemma update_each_ok: "index_ok ix \<Longrightarrow> index_ok (snd (update_each s t ps ix))"
proof (induction ps arbitrary: ix)
  case (Cons p ps)
  then show ?case using update_indexed_ok [OF Cons.prems, of s t p]
    by (cases "update_indexed s t p ix") (auto split: sum.split)
qed simp

lemma empty_index_ok:
  "index_ok \<lparr>ri_root = cs, ri_files = [], ri_packages = pk, ri_bytes = 0, ri_validated = n\<rparr>"
  by (simp add: index_ok_def)

lemma index_build_ok: "index_build s t n root = Inr ix \<Longrightarrow> index_ok ix"
  using update_each_ok [OF empty_index_ok]
  by (auto simp: index_build_def Let_def split: sum.splits if_splits prod.splits) (metis snd_conv)

lemma rediscover_ok: "index_ok ix \<Longrightarrow> index_ok (rediscover s t ix)"
proof -
  assume ok: "index_ok ix"
  have "map fst (ri_files (rediscover s t ix)) = map fst (ri_files ix)"
    "map content_size (ri_files (rediscover s t ix)) = map content_size (ri_files ix)"
    "ri_bytes (rediscover s t ix) = ri_bytes ix"
    by (auto simp: rediscover_def assign_packages_def content_size_def)
  moreover have "list_all (\<lambda>p. if_path (snd p) = fst p) (ri_files (rediscover s t ix))"
    using ok by (auto simp: rediscover_def assign_packages_def index_ok_def list_all_iff)
  ultimately show ?thesis using ok by (simp add: index_ok_def)
qed

lemma refresh_files_ok: "index_ok ix \<Longrightarrow> index_ok (snd (refresh_files s t ps changed ix))"
proof (induction ps arbitrary: ix changed)
  case (Cons p ps)
  then show ?case using update_indexed_ok [OF Cons.prems, of s t p]
    by (cases "update_indexed s t p ix") (auto split: sum.split)
qed simp

lemma remove_all_ok: "index_ok ix \<Longrightarrow> index_ok (foldl (\<lambda>ix p. remove_indexed p ix) ix ps)"
  by (induction ps arbitrary: ix) (auto intro: remove_indexed_ok)

lemma refresh_ok:
  assumes "index_ok ix"
  shows "index_ok (snd (refresh_if_stale s t n ix))"
proof -
  let ?ps = "enumerate_files s t (ri_root ix)"
  let ?start = "foldl (\<lambda>ix p. remove_indexed p ix) ix (removed_files ix ?ps)"
  have "index_ok (snd (refresh_files s t (take max_index_files ?ps) (removed_files ix ?ps \<noteq> []) ?start))"
    by (rule refresh_files_ok [OF remove_all_ok [OF assms]])
  moreover have "index_ok (ix'\<lparr>ri_validated := n\<rparr>) \<longleftrightarrow> index_ok ix'" for ix' by (simp add: index_ok_def)
  ultimately show ?thesis using assms rediscover_ok
    by (auto simp: refresh_if_stale_def Let_def split: prod.split sum.split)
qed

text \<open>What a session does with the service, each operation on the disk as it is then.\<close>

datatype index_op = QueryIndex tree nat path | FilesChanged tree path "path list"

fun index_step :: "index_services \<Rightarrow> index_service \<Rightarrow> index_op \<Rightarrow> index_service" where
  "index_step s svc (QueryIndex t n root) = snd (with_index s t n root (\<lambda>_. Inr ()) svc)"
| "index_step s svc (FilesChanged t root changed) = snd (update_changed s t root changed svc)"

definition service_ok :: "index_service \<Rightarrow> bool" where
  "service_ok svc \<longleftrightarrow> (\<forall>r ix. svc r = Some ix \<longrightarrow> index_ok ix)"

lemma service_ok_upd:
  "service_ok svc \<Longrightarrow> index_ok ix \<Longrightarrow> service_ok (svc(r \<mapsto> ix))"
  "service_ok svc \<Longrightarrow> index_ok ix \<Longrightarrow> service_ok (\<lambda>a. if a = r then Some ix else svc a)"
  by (simp_all add: service_ok_def)

lemma index_step_ok: "service_ok svc \<Longrightarrow> service_ok (index_step s svc x)"
proof (induction x)
  case (QueryIndex t n root)
  show ?case
  proof (cases "resolve (is_machine s) t root")
    case (Inr cs)
    have "index_ok ix" if "(case svc cs of Some ix \<Rightarrow> Inr ix | None \<Rightarrow> index_build s t n (path_text cs)) = Inr ix" for ix
      using that QueryIndex index_build_ok by (auto simp: service_ok_def split: option.splits)
    then show ?thesis using Inr QueryIndex refresh_ok service_ok_upd
      by (auto simp: with_index_def split: sum.split prod.split) (metis snd_conv)+
  qed (simp add: with_index_def QueryIndex)
next
  case (FilesChanged t root changed)
  show ?case
  proof (cases "resolve (is_machine s) t root")
    case (Inr cs)
    show ?thesis
    proof (cases "svc cs")
      case (Some ix)
      then have "index_ok (snd (update_each s t changed ix))" using FilesChanged update_each_ok by (auto simp: service_ok_def)
      then show ?thesis using Inr Some FilesChanged service_ok_upd rediscover_ok
        by (cases "update_each s t changed ix") (auto simp: update_changed_def split: sum.split)
    qed (simp add: update_changed_def Inr FilesChanged)
  qed (simp add: update_changed_def FilesChanged)
qed

text \<open>C30: in every session, whatever happens on the disk between and during its operations' turns, an index has
  counted exactly the bytes of the files whose contents it holds, at most 128 MiB; its files are ordered and each
  is kept under its own path.\<close>

theorem index_counts_what_it_holds:
  "case foldl (index_step s) Map.empty xs r of
     None \<Rightarrow> True
   | Some ix \<Rightarrow>
       ri_bytes ix = (\<Sum>f \<leftarrow> map snd (ri_files ix). if if_content f then if_size f else 0) \<and>
       ri_bytes ix \<le> 128 * 1024 * 1024 \<and>
       sorted_wrt (<) (map fst (ri_files ix)) \<and> map fst (ri_files ix) = map (if_path \<circ> snd) (ri_files ix)"
proof (cases "foldl (index_step s) Map.empty xs r")
  case (Some ix)
  have "service_ok (foldl (index_step s) Map.empty xs)"
    by (induction xs rule: rev_induct) (auto simp: index_step_ok, simp add: service_ok_def)
  with Some have ok: "index_ok ix" by (simp add: service_ok_def)
  have "(\<Sum>f \<leftarrow> map snd fs. if if_content f then if_size f else 0) = sum_list (map content_size fs)"
    for fs :: "(string \<times> indexed_file) list" by (induction fs) (auto simp: content_size_def)
  moreover have "list_all (\<lambda>p. if_path (snd p) = fst p) fs \<Longrightarrow> map fst fs = map (if_path \<circ> snd) fs"
    for fs :: "(string \<times> indexed_file) list" by (induction fs) auto
  ultimately show ?thesis
    using ok unfolding Some option.case index_ok_def max_index_total_bytes_def by metis
qed simp

end
