(* ===== verification/Repository_Search.thy ===== *)
theory Repository_Search
  imports Repository_Index "HOL-Library.Code_Target_Nat"
begin

section \<open>harness-tools: queries on a repository\<close>

text \<open>
  The second half of \<open>harness-tools/src/repository_index.rs\<close>: what the tools ask the index, the map of the
  repository, and the search for text by \<open>rg\<close> or natively. Where the code panics, the model gives
  \<open>Panicked\<close>. The exchange with a language server is not modelled.
\<close>

subsection \<open>Asking the index\<close>

definition index_symbols :: "repository_index \<Rightarrow> symbol_definition list" where
  "index_symbols ix = concat (map (if_symbols \<circ> snd) (ri_files ix))"

definition search_files :: "(string \<Rightarrow> string) \<Rightarrow> repository_index \<Rightarrow> string \<Rightarrow> path \<Rightarrow> nat \<Rightarrow> string list" where
  "search_files lower ix query p limit =
     take limit (filter (\<lambda>f. starts_with f (normalize_query_path p) \<and> str_contains (lower f) (lower query))
       (map fst (ri_files ix)))"

text \<open>Asking for one more result than wanted tells whether there are more.\<close>

definition cut_results :: "nat \<Rightarrow> (nat \<Rightarrow> 'a list) \<Rightarrow> 'a list \<times> bool" where
  "cut_results limit f = (let results = f (limit + 1) in (take limit results, limit < length results))"

definition search_files_truncated ::
  "(string \<Rightarrow> string) \<Rightarrow> repository_index \<Rightarrow> string \<Rightarrow> path \<Rightarrow> nat \<Rightarrow> string list \<times> bool" where
  "search_files_truncated lower ix query p limit = cut_results limit (search_files lower ix query p)"

definition find_symbol :: "(string \<Rightarrow> string) \<Rightarrow> repository_index \<Rightarrow> string \<Rightarrow> nat \<Rightarrow> symbol_definition list" where
  "find_symbol lower ix query limit =
     take limit (filter (\<lambda>x. str_contains (lower (sym_name x)) (lower query)) (index_symbols ix))"

definition find_symbol_truncated ::
  "(string \<Rightarrow> string) \<Rightarrow> repository_index \<Rightarrow> string \<Rightarrow> nat \<Rightarrow> symbol_definition list \<times> bool" where
  "find_symbol_truncated lower ix query limit = cut_results limit (find_symbol lower ix query)"

definition goto_definition :: "repository_index \<Rightarrow> string \<Rightarrow> symbol_definition list" where
  "goto_definition ix name = take (max_query_results + 1) (filter (\<lambda>x. sym_name x = name) (index_symbols ix))"

definition resolve_query_path :: "index_services \<Rightarrow> tree \<Rightarrow> component list \<Rightarrow> path \<Rightarrow> tool_error + string" where
  "resolve_query_path s t root p =
     (if is_absolute p then Inl (PathOutsideWorkspace p)
      else
        let absolute = path_join (path_text root) p in
        if host_exists (is_machine s) t absolute
        then (case resolve (is_machine s) t absolute of
            Inl err \<Rightarrow> Inl (io_failure ''resolve query path'' err)
          | Inr cs \<Rightarrow>
              if prefix root cs then Inr (path_string (path_text (drop (length root) cs))) else Inl (PathOutsideWorkspace p))
        else index_relative_path s t root p)"

definition file_outline :: "index_services \<Rightarrow> tree \<Rightarrow> repository_index \<Rightarrow> path \<Rightarrow> tool_error + indexed_file option" where
  "file_outline s t ix p = map_sum id (map_of (ri_files ix)) (resolve_query_path s t (ri_root ix) p)"

definition depth_of :: "string \<Rightarrow> nat" where
  "depth_of p = length (filter (\<lambda>part. part \<noteq> []) (path_pieces p))"

definition repo_tree :: "repository_index \<Rightarrow> path \<Rightarrow> nat \<Rightarrow> nat \<Rightarrow> string list \<times> bool" where
  "repo_tree ix p depth limit =
     (let base = normalize_query_path p
      in cut_results limit (\<lambda>n. take n (filter (\<lambda>f. depth_of f \<le> depth_of base + max depth 1)
           (filter (\<lambda>f. starts_with f base) (map fst (ri_files ix))))))"

subsection \<open>Texts\<close>

definition bool_text :: "bool \<Rightarrow> string" where
  "bool_text b = (if b then ''true'' else ''false'')"

definition format_symbol :: "symbol_definition \<Rightarrow> string" where
  "format_symbol x = sym_name x @ '' ['' @ symbol_kind_text (sym_kind x) @ ''] at '' @ sym_path x @ '':'' @
     show_nat (sym_line x) @ (if sym_exported x then '' (exported)'' else [])"

definition or_unknown :: "string option \<Rightarrow> string" where
  "or_unknown v = (case v of None \<Rightarrow> ''unknown'' | Some s \<Rightarrow> s)"

definition format_file_outline :: "indexed_file \<Rightarrow> string" where
  "format_file_outline f =
     join [newline]
       ([if_path f @ '' | language: '' @ or_unknown (if_language f) @ '' | package: '' @ or_unknown (if_package f) @
           '' | test: '' @ bool_text (if_is_test f) @ '' | config: '' @ bool_text (if_is_configuration f)] @
        (if if_imports f = [] then [] else [''imports: '' @ join '', '' (if_imports f)]) @
        (if if_exports f = [] then [] else [''exports: '' @ join '', '' (if_exports f)]) @
        (if if_symbols f = [] then []
         else ''symbols:'' # map (\<lambda>x. ''  '' @ format_symbol x) (take 80 (if_symbols f))))"

definition truncate_value :: "string \<Rightarrow> nat \<Rightarrow> string" where
  "truncate_value v n = (if length v \<le> n then v else take (floor_boundary v n) v @ ellipsis)"

definition top_level_names :: "index_services \<Rightarrow> tree \<Rightarrow> component list \<Rightarrow> string list" where
  "top_level_names s t root =
     (case host_entries (is_machine s) t (path_text root) of
        Inl _ \<Rightarrow> []
      | Inr entries \<Rightarrow>
          take 20 (sort (map from_utf8_lossy (filter (\<lambda>n. \<not> is_ignored_directory n) (map fst entries)))))"

definition package_line :: "repository_index \<Rightarrow> package_root \<Rightarrow> string" where
  "package_line ix p =
     path_string (path_text (if prefix (ri_root ix) (fst p) then drop (length (ri_root ix)) (fst p) else fst p)) @
     '' ('' @ snd p @ '', '' @ show_nat (length (filter (\<lambda>(_, f). if_package f = Some (snd p)) (ri_files ix))) @ '' files)''"

definition key_symbols :: "repository_index \<Rightarrow> symbol_definition list" where
  "key_symbols ix =
     (let exported = filter sym_exported (index_symbols ix)
      in take 32 (sort_key (\<lambda>x. (sym_path x, sym_line x)) (if exported = [] then index_symbols ix else exported)))"

definition symbol_line :: "repository_index \<Rightarrow> symbol_definition \<Rightarrow> string" where
  "symbol_line ix x =
     sym_path x @ '':'' @ show_nat (sym_line x) @ '' '' @ symbol_kind_text (sym_kind x) @ '' '' @ sym_name x @
     (case Option.bind (map_of (ri_files ix) (sym_path x)) if_package of None \<Rightarrow> [] | Some n \<Rightarrow> '' ['' @ n @ '']'')"

definition add_relations :: "(string \<times> string list) list \<Rightarrow> indexed_file \<Rightarrow> (string \<times> string list) list" where
  "add_relations rels f =
     (case if_package f of
        None \<Rightarrow> rels
      | Some p \<Rightarrow>
          foldl (\<lambda>rels i. tree_map_insert p (push_unique i (case map_of rels p of None \<Rightarrow> [] | Some vs \<Rightarrow> vs)) rels)
            rels (if_imports f))"

definition relation_lines :: "repository_index \<Rightarrow> string list" where
  "relation_lines ix =
     map (\<lambda>(p, imports). p @ '' imports '' @ join '', '' (take 8 imports))
       (take 12 (foldl add_relations [] (map snd (ri_files ix))))"

definition bulleted_section :: "string \<Rightarrow> string list \<Rightarrow> string list" where
  "bulleted_section heading ls =
     (if ls = [] then [] else [heading @ [newline] @ ''- '' @ join ([newline] @ ''- '') ls])"

definition repo_map :: "index_services \<Rightarrow> tree \<Rightarrow> repository_index \<Rightarrow> string" where
  "repo_map s t ix =
     truncate_value (join [newline]
       ([''Top-level: '' @ join '', '' (top_level_names s t (ri_root ix))] @
        (if ri_packages ix = [] then []
         else [''Packages: '' @ join ''; '' (take 16 (map (package_line ix) (ri_packages ix)))]) @
        bulleted_section ''Key symbols:'' (map (symbol_line ix) (key_symbols ix)) @
        bulleted_section ''Module relationships:'' (relation_lines ix))) 4000"

subsection \<open>Arguments and results of the tools\<close>

definition query_string :: "json \<Rightarrow> string \<Rightarrow> string \<Rightarrow> tool_error + string" where
  "query_string args key tool =
     (case Option.bind (json_get key args) json_str of
        Some v \<Rightarrow> if trim v \<noteq> [] then Inr v
                  else Inl (InvalidArguments tool (key @ '' must be a non-empty string''))
      | None \<Rightarrow> Inl (InvalidArguments tool (key @ '' must be a non-empty string'')))"

definition query_string_or :: "json \<Rightarrow> string \<Rightarrow> string \<Rightarrow> string \<Rightarrow> tool_error + string" where
  "query_string_or args key dflt tool = (if json_get key args = None then Inr dflt else query_string args key tool)"

definition query_limit :: "json \<Rightarrow> string \<Rightarrow> nat \<Rightarrow> string \<Rightarrow> tool_error + nat" where
  "query_limit args key dflt tool = optional_u64 args key dflt 1 max_query_results tool"

definition query_bool :: "json \<Rightarrow> string \<Rightarrow> bool \<Rightarrow> string \<Rightarrow> tool_error + bool" where
  "query_bool args key dflt tool =
     (case json_get key args of
        None \<Rightarrow> Inr dflt
      | Some (JBool b) \<Rightarrow> Inr b
      | Some _ \<Rightarrow> Inl (InvalidArguments tool (key @ '' must be a boolean'')))"

definition bound_query_result :: "tool_result \<Rightarrow> tool_result" where
  "bound_query_result r =
     (if max_result_bytes < length (tr_output r)
      then r\<lparr>tr_output := take (floor_boundary (tr_output r) max_result_bytes) (tr_output r) @ [newline] @ ''[truncated]'',
             tr_truncated := True\<rparr>
      else r)"

definition lines_result :: "string list \<Rightarrow> bool \<Rightarrow> tool_result" where
  "lines_result ls cut_off =
     (insert_metadata ''count'' (json_nat (length ls)) (tool_result_new (join [newline] ls)))\<lparr>tr_truncated := cut_off\<rparr>"

datatype repository_action =
  SearchFiles | SearchText | FindSymbol | FindReferences | GotoDefinition | GetDiagnostics | GetFileOutline | GetRepoTree

fun repository_tool_name :: "repository_action \<Rightarrow> string" where
  "repository_tool_name SearchFiles = ''search_files''"
| "repository_tool_name SearchText = ''search_text''"
| "repository_tool_name FindSymbol = ''find_symbol''"
| "repository_tool_name FindReferences = ''find_references''"
| "repository_tool_name GotoDefinition = ''goto_definition''"
| "repository_tool_name GetDiagnostics = ''get_diagnostics''"
| "repository_tool_name GetFileOutline = ''get_file_outline''"
| "repository_tool_name GetRepoTree = ''get_repo_tree''"

text \<open>The five queries that use the index; the other actions never come here.\<close>

fun index_query ::
  "index_services \<Rightarrow> tree \<Rightarrow> repository_action \<Rightarrow> string \<Rightarrow> json \<Rightarrow> path \<Rightarrow> nat \<Rightarrow> repository_index \<Rightarrow> tool_error + tool_result" where
  "index_query s t SearchFiles tool args p limit ix =
     bind_result (query_string args ''query'' tool) (\<lambda>query.
       Inr (case_prod lines_result (search_files_truncated (is_lower s) ix query p limit)))"
| "index_query s t FindSymbol tool args p limit ix =
     bind_result (query_string args ''name'' tool) (\<lambda>name.
       case find_symbol_truncated (is_lower s) ix name limit of (hits, cut_off) \<Rightarrow>
         Inr (lines_result (map format_symbol hits) cut_off))"
| "index_query s t GotoDefinition tool args p limit ix =
     bind_result (query_string args ''name'' tool) (\<lambda>name.
       let hits = goto_definition ix name
       in Inr (lines_result (map format_symbol (take limit hits)) (limit < length hits)))"
| "index_query s t GetFileOutline tool args p limit ix =
     bind_result (query_string args ''path'' tool) (\<lambda>file_path.
     bind_result (file_outline s t ix file_path) (\<lambda>found.
       case found of
         None \<Rightarrow> Inl (ToolPathNotFound file_path)
       | Some f \<Rightarrow> Inr ((tool_result_new (format_file_outline f))\<lparr>tr_truncated := 80 < length (if_symbols f)\<rparr>)))"
| "index_query s t GetRepoTree tool args p limit ix =
     bind_result (optional_u64 args ''depth'' 4 1 12 tool) (\<lambda>depth.
     bind_result (query_limit args ''max_entries'' 100 tool) (\<lambda>max_entries.
       Inr (case_prod lines_result (repo_tree ix p depth max_entries))))"
| "index_query s t _ tool args p limit ix = Inl NoMatches"

definition indexed_tool ::
  "index_services \<Rightarrow> tree \<Rightarrow> nat \<Rightarrow> path \<Rightarrow> repository_action \<Rightarrow> string \<Rightarrow> json \<Rightarrow> index_service
     \<Rightarrow> (tool_error + tool_result) \<times> index_service" where
  "indexed_tool s t present root act tool args svc =
     (case bind_result (query_string_or args ''path'' ''.'' tool) (\<lambda>p.
             map_sum id (Pair p) (query_limit args ''max_results'' max_query_results tool)) of
        Inl err \<Rightarrow> (Inl err, svc)
      | Inr (p, limit) \<Rightarrow>
          (case with_index s t present root (index_query s t act tool args p limit) svc of
             (result, svc) \<Rightarrow> (map_sum id bound_query_result result, svc)))"

subsection \<open>Searching for text\<close>

datatype 'a search_outcome = Searched 'a | Panicked

definition resolve_search_root :: "index_services \<Rightarrow> tree \<Rightarrow> component list \<Rightarrow> path \<Rightarrow> tool_error + component list" where
  "resolve_search_root s t root p =
     (if is_absolute p then Inl (PathOutsideWorkspace p)
      else case resolve (is_machine s) t (path_join (path_text root) p) of
        Inl err \<Rightarrow> Inl (io_failure ''resolve search path'' err)
      | Inr cs \<Rightarrow>
          if prefix root cs \<and> inode_at t cs = Some Directory then Inr cs else Inl (PathOutsideWorkspace p))"

definition search_excluded_globs :: "string list" where
  "search_excluded_globs =
     [''!.git/**'', ''!node_modules/**'', ''!.pnpm-store/**'', ''!target/**'', ''!dist/**'', ''!build/**'', ''!.next/**'',
      ''!.turbo/**'', ''!.pytest_cache/**'', ''!.mypy_cache/**'', ''!vendor/**'']"

definition ripgrep_args :: "component list \<Rightarrow> component list \<Rightarrow> string \<Rightarrow> string \<Rightarrow> bool \<Rightarrow> bool \<Rightarrow> string list" where
  "ripgrep_args root search_root query glob case_sensitive whole_word =
     [''--line-number'', ''--no-heading'', ''--color'', ''never'', ''--hidden'', ''--fixed-strings'', ''--path-separator'', ''/'',
      ''--max-columns'', ''2048'', ''--max-columns-preview'',
      if case_sensitive then ''--case-sensitive'' else ''--ignore-case''] @
     (if whole_word then [''--word-regexp''] else []) @ glob_args search_excluded_globs @
     [''-g'', glob, ''--'', query,
      if search_root = root then ''.'' else path_text (drop (length root) search_root)]"

text \<open>A line of output as it is handed on.\<close>

definition ripgrep_line :: "string \<Rightarrow> string" where
  "ripgrep_line bytes =
     (let line = trim_end (from_utf8_lossy (take 2048 bytes))
      in forward_slashes (case first_of (strip_prefix_str ''./'' line) (strip_prefix_str [CHR ''.'', CHR 0x5C] line) of
           None \<Rightarrow> line | Some rest \<Rightarrow> rest))"

definition ripgrep_lines :: "nat \<Rightarrow> string \<Rightarrow> string list \<times> bool" where
  "ripgrep_lines limit out =
     (let raw = split_inclusive out in (map ripgrep_line (take limit raw), limit < length raw))"

text \<open>Lines of a file from line \<open>n\<close>; \<open>truncate(500)\<close> panics when byte 500 is inside a character.\<close>

fun native_lines ::
  "(string \<Rightarrow> bool) \<Rightarrow> string \<Rightarrow> nat \<Rightarrow> nat \<Rightarrow> string list \<Rightarrow> string list \<Rightarrow> (string list \<times> bool) search_outcome" where
  "native_lines hit name limit n [] acc = Searched (acc, False)"
| "native_lines hit name limit n (l # ls) acc =
     (if \<not> hit l then native_lines hit name limit (n + 1) ls acc
      else if limit \<le> length acc then Searched (acc, True)
      else if 500 < length l \<and> \<not> is_char_boundary l 500 then Panicked
      else native_lines hit name limit (n + 1) ls (acc @ [name @ '':'' @ show_nat n @ '':'' @ take 500 l]))"

fun native_search_files ::
  "index_services \<Rightarrow> tree \<Rightarrow> component list \<Rightarrow> (string \<Rightarrow> bool) \<Rightarrow> (string \<Rightarrow> bool) \<Rightarrow> nat \<Rightarrow> path list \<Rightarrow> nat \<Rightarrow> string list
     \<Rightarrow> (string list \<times> bool) search_outcome" where
  "native_search_files s t base matcher hit limit [] scanned acc = Searched (acc, False)"
| "native_search_files s t base matcher hit limit (p # ps) scanned acc =
     (let rel = (case path_strip_prefix (path_text base) p of None \<Rightarrow> p | Some rel \<Rightarrow> rel);
          skip = native_search_files s t base matcher hit limit ps in
      if \<not> matcher rel then skip scanned acc
      else case index_metadata s t p of
        None \<Rightarrow> skip scanned acc
      | Some (x, _) \<Rightarrow>
          if max_index_file_bytes < inode_length x then skip scanned acc
          else if max_index_total_bytes < scanned + inode_length x then Searched (acc, True)
          else (case host_read_text (is_machine s) t p of
             Inl _ \<Rightarrow> skip (scanned + inode_length x) acc
           | Inr contents \<Rightarrow>
               (case native_lines hit (path_string rel) limit 1 (str_lines contents) acc of
                  Panicked \<Rightarrow> Panicked
                | Searched (acc, True) \<Rightarrow> Searched (acc, True)
                | Searched (acc, False) \<Rightarrow> skip (scanned + inode_length x) acc)))"

definition line_test ::
  "index_services \<Rightarrow> string \<Rightarrow> bool \<Rightarrow> bool \<Rightarrow> tool_error + (string \<Rightarrow> bool)" where
  "line_test s query case_sensitive whole_word =
     (let needle = (if case_sensitive then query else is_lower s query)
      in if whole_word
         then (case is_word s (\<not> case_sensitive) needle of
             Inl err \<Rightarrow> Inl (InvalidArguments ''find_references'' err) | Inr hit \<Rightarrow> Inr hit)
         else Inr (\<lambda>l. str_contains (if case_sensitive then l else is_lower s l) needle))"

definition native_search ::
  "index_services \<Rightarrow> tree \<Rightarrow> component list \<Rightarrow> string \<Rightarrow> string \<Rightarrow> bool \<Rightarrow> bool \<Rightarrow> nat
     \<Rightarrow> (tool_error + string list \<times> bool) search_outcome" where
  "native_search s t base query glob case_sensitive whole_word limit =
     (case bind_result (compiled ''search_text'' (is_glob s glob)) (\<lambda>matcher.
             map_sum id (Pair matcher) (line_test s query case_sensitive whole_word)) of
        Inl err \<Rightarrow> Searched (Inl err)
      | Inr (matcher, hit) \<Rightarrow>
          (case native_search_files s t base matcher hit limit
              (take max_index_files (native_files (is_machine s) t base)) 0 [] of
             Panicked \<Rightarrow> Panicked
           | Searched found \<Rightarrow> Searched (Inr found)))"

definition has_ripgrep :: "index_services \<Rightarrow> tree \<Rightarrow> component list \<Rightarrow> bool" where
  "has_ripgrep s t root \<longleftrightarrow> is_run_rg s t root [''--version''] \<noteq> None"

definition ripgrep_search ::
  "index_services \<Rightarrow> tree \<Rightarrow> component list \<Rightarrow> component list \<Rightarrow> string \<Rightarrow> string \<Rightarrow> bool \<Rightarrow> bool \<Rightarrow> nat
     \<Rightarrow> (tool_error + string list \<times> bool) search_outcome" where
  "ripgrep_search s t root search_root query glob case_sensitive whole_word limit =
     (case is_glob s glob of
        Inl err \<Rightarrow> Searched (Inl (InvalidArguments ''search_text'' err))
      | Inr _ \<Rightarrow>
          (case (if has_ripgrep s t root
                 then is_run_rg s t root (ripgrep_args root search_root query glob case_sensitive whole_word) else None) of
             Some out \<Rightarrow> Searched (Inr (ripgrep_lines limit out))
           | None \<Rightarrow> native_search s t search_root query glob case_sensitive whole_word limit))"

record text_query =
  tq_query :: string
  tq_path :: path
  tq_glob :: string
  tq_limit :: nat
  tq_case :: bool

definition text_query_of :: "repository_action \<Rightarrow> string \<Rightarrow> json \<Rightarrow> tool_error + text_query" where
  "text_query_of act tool args =
     bind_result (query_string args (if act = SearchText then ''query'' else ''name'') tool) (\<lambda>query.
     bind_result (query_string_or args ''path'' ''.'' tool) (\<lambda>p.
     bind_result (if act = SearchText then query_string_or args ''glob'' ''**'' tool else Inr ''**'') (\<lambda>glob.
     bind_result (query_limit args ''max_results'' 100 tool) (\<lambda>limit.
     bind_result (if act = SearchText then query_bool args ''case_sensitive'' False tool else Inr True) (\<lambda>sensitive.
       Inr \<lparr>tq_query = query, tq_path = p, tq_glob = glob, tq_limit = limit, tq_case = sensitive\<rparr>)))))"

text \<open>\<open>search_text\<close> and \<open>find_references\<close>, which looks for whole words.\<close>

definition text_tool ::
  "index_services \<Rightarrow> tree \<Rightarrow> path \<Rightarrow> repository_action \<Rightarrow> string \<Rightarrow> json \<Rightarrow> (tool_error + tool_result) search_outcome" where
  "text_tool s t dir act tool args =
     (case bind_result (text_query_of act tool args) (\<lambda>q.
           bind_result (map_sum (io_failure ''resolve workspace'') id (resolve (is_machine s) t dir)) (\<lambda>root.
             map_sum id (\<lambda>base. (q, root, base)) (resolve_search_root s t root (tq_path q)))) of
        Inl err \<Rightarrow> Searched (Inl err)
      | Inr (q, root, base) \<Rightarrow>
          (case ripgrep_search s t root base (tq_query q) (tq_glob q) (tq_case q) (act = FindReferences) (tq_limit q) of
             Panicked \<Rightarrow> Panicked
           | Searched (Inl err) \<Rightarrow> Searched (Inl err)
           | Searched (Inr (ls, cut_off)) \<Rightarrow>
               let r = lines_result ls cut_off;
                   r = (if act = SearchText
                        then insert_metadata ''engine''
                          (JString (if has_ripgrep s t root then ''ripgrep'' else ''native-fallback'')) r
                        else r)
               in Searched (Inr (bound_query_result r))))"

end
