(* ===== verification/Repository_Refresh.thy ===== *)
theory Repository_Refresh
  imports Repository_Index "HOL-Library.Code_Target_Nat"
begin

section \<open>harness-tools: an index brought up to date is a new index\<close>

text \<open>
  \<open>refresh_if_stale\<close> of \<open>harness-tools/src/repository_index.rs\<close> reads again what the sizes and times of the
  files tell it has changed, and drops what is gone. The result is compared with \<open>RepositoryIndex::build\<close>
  on the tree as it is then, by the table of the files an index knows.
\<close>

subsection \<open>What a build reads of a file\<close>

text \<open>A file that is listed under its own path below the root and can be read: its name, contents and time.\<close>

definition plain_file :: "index_services \<Rightarrow> tree \<Rightarrow> component list \<Rightarrow> path \<Rightarrow> (string \<times> string \<times> nat option) option" where
  "plain_file s t root p =
     (case (stripped root p, index_metadata s t p) of
        (Some rel, Some (RegularFile bytes, m)) \<Rightarrow>
          if index_relative_path s t root p = Inr rel \<and> path_string rel = rel \<and>
             index_metadata s t (path_join (path_text root) rel) = Some (RegularFile bytes, m) \<and>
             host_read (is_machine s) t (path_join (path_text root) rel) = Inr bytes
          then Some (rel, bytes, m) else None
      | _ \<Rightarrow> None)"

definition forget_package :: "indexed_file \<Rightarrow> indexed_file" where
  "forget_package f = f\<lparr>if_package := None\<rparr>"

definition read_record :: "index_services \<Rightarrow> string \<Rightarrow> string \<Rightarrow> nat option \<Rightarrow> indexed_file" where
  "read_record s rel bytes m =
     (let f = blank_record s [] [] rel (RegularFile bytes) m
      in if if_language f = None \<or> max_index_file_bytes < length bytes \<or> \<not> valid_utf8 bytes then f
         else (parse_file s f bytes)\<lparr>if_content := True\<rparr>)"

text \<open>The files of an index by their names, but for the packages they belong to.\<close>

definition index_table :: "repository_index \<Rightarrow> string \<rightharpoonup> indexed_file" where
  "index_table ix = map_option forget_package \<circ> map_of (ri_files ix)"

lemma add_symbol_package: "add_symbol s l line n (forget_package f) p = forget_package (add_symbol s l line n f p)"
  by (simp add: add_symbol_def forget_package_def Let_def split: option.split)

lemma add_symbols_package:
  "foldl (add_symbol s l line n) (forget_package f) ps = forget_package (foldl (add_symbol s l line n) f ps)"
  by (induction ps arbitrary: f) (auto simp: add_symbol_package)

lemma forget_package_updates:
  "(forget_package f)\<lparr>if_imports := push_unique v (if_imports (forget_package f))\<rparr> =
     forget_package (f\<lparr>if_imports := push_unique v (if_imports f)\<rparr>)"
  "(forget_package f)\<lparr>if_exports := push_unique v (if_exports (forget_package f))\<rparr> =
     forget_package (f\<lparr>if_exports := push_unique v (if_exports f)\<rparr>)"
  by (simp_all add: forget_package_def)

lemma parse_line_package: "parse_line s l (forget_package f) x = forget_package (parse_line s l f x)"
  by (cases "parse_import l (trim (snd x))"; cases "parse_export_name (trim (snd x))")
    (auto simp: parse_line_def Let_def forget_package_updates add_symbols_package)

lemma parse_lines_package: "foldl (parse_line s l) (forget_package f) xs = forget_package (foldl (parse_line s l) f xs)"
  by (induction xs arbitrary: f) (auto simp: parse_line_package)

lemma parse_file_package: "parse_file s (forget_package f) c = forget_package (parse_file s f c)"
proof -
  have "if_language (forget_package f) = if_language f" by (simp add: forget_package_def)
  moreover have "(forget_package g)\<lparr>if_symbols := sort_key k (if_symbols (forget_package g))\<rparr> =
      forget_package (g\<lparr>if_symbols := sort_key k (if_symbols g)\<rparr>)" for g and k :: "symbol_definition \<Rightarrow> nat \<times> string"
    by (simp add: forget_package_def)
  ultimately show ?thesis
    by (simp add: parse_file_def Let_def parse_lines_package split: option.split)
qed

lemma blank_without_package: "forget_package (blank_record s pk cs rel x m) = blank_record s [] [] rel x m"
  by (simp add: forget_package_def blank_record_def package_for_def)

lemma record_without_package:
  "forget_package ((parse_file s (blank_record s pk cs rel x m) c)\<lparr>if_content := True\<rparr>) =
     (parse_file s (blank_record s [] [] rel x m) c)\<lparr>if_content := True\<rparr>"
proof -
  have "forget_package (g\<lparr>if_content := True\<rparr>) = (forget_package g)\<lparr>if_content := True\<rparr>" for g
    by (simp add: forget_package_def)
  then show ?thesis by (simp add: blank_without_package flip: parse_file_package)
qed

lemma read_record_fields: "if_size (read_record s rel bytes m) = length bytes" "if_modified (read_record s rel bytes m) = m"
  by (simp_all add: read_record_def blank_record_def parse_file_keeps Let_def)

subsection \<open>One update\<close>

lemma table_of_insert:
  "sorted_wrt (<) (map fst (ri_files ix)) \<Longrightarrow>
     index_table (insert_indexed f ix) = (index_table ix)(if_path f \<mapsto> forget_package f)"
  by (auto simp: index_table_def insert_indexed_def map_of_tree_map_insert fun_eq_iff)

lemma table_of_bytes: "index_table (ix\<lparr>ri_bytes := n\<rparr>) = index_table ix"
  by (simp add: index_table_def)

lemma plain_fileD:
  assumes "plain_file s t root p = Some (rel, bytes, m)"
  shows "stripped root p = Some rel" "index_metadata s t p = Some (RegularFile bytes, m)"
    "index_relative_path s t root p = Inr rel" "path_string rel = rel"
    "index_metadata s t (path_join (path_text root) rel) = Some (RegularFile bytes, m)"
    "host_read (is_machine s) t (path_join (path_text root) rel) = Inr bytes"
  using assms by (auto simp: plain_file_def split: option.splits prod.splits inode.splits if_splits)

text \<open>How an index with room for it is after a file has been read.\<close>

definition has_read ::
  "repository_index \<Rightarrow> (string \<rightharpoonup> indexed_file) \<Rightarrow> nat \<Rightarrow> repository_index \<Rightarrow> bool" where
  "has_read ix table k ix' \<longleftrightarrow> index_table ix' = table \<and> ri_bytes ix' \<le> ri_bytes ix + k \<and> ri_root ix' = ri_root ix \<and>
     sorted_wrt (<) (map fst (ri_files ix'))"

lemma update_plain:
  assumes plain: "plain_file s t (ri_root ix) p = Some (rel, bytes, m)"
    and room: "ri_bytes ix + length bytes < max_index_total_bytes"
    and ordered: "sorted_wrt (<) (map fst (ri_files ix))"
  shows "\<exists>ix'. update_indexed s t p ix = (Inr (), ix') \<and>
    has_read ix ((index_table ix)(rel \<mapsto> read_record s rel bytes m)) (length bytes) ix'"
proof -
  note facts = plain_fileD [OF plain]
  let ?ix = "remove_indexed rel ix"
  let ?f = "blank_record s (ri_packages ?ix) (components (path_join (path_text (ri_root ix)) rel)) rel (RegularFile bytes) m"
  have start: "index_table ?ix = (index_table ix)(rel := None)" "sorted_wrt (<) (map fst (ri_files ?ix))"
    "ri_bytes ?ix \<le> ri_bytes ix" "ri_root ?ix = ri_root ix"
    using remove_indexed_files [OF ordered, of rel] by (auto simp: index_table_def remove_indexed_fields fun_eq_iff)
  have path: "if_path ?f = rel" "if_size ?f = length bytes" using facts(4) by (simp_all add: blank_record_def)
  have step: "update_indexed s t p ix = index_contents s t (path_join (path_text (ri_root ix)) rel) ?f ?ix"
    using facts(3,5) by (simp add: update_indexed_def Let_def remove_indexed_fields)
  have room': "\<not> max_index_total_bytes \<le> ri_bytes ?ix" "\<not> max_index_total_bytes - ri_bytes ?ix < length bytes"
    using room start(3) by auto
  have text_read: "host_read_text (is_machine s) t (path_join (path_text (ri_root ix)) rel) =
      (if valid_utf8 bytes then Inr bytes else Inl (OsError KindInvalidData ''stream did not contain valid UTF-8''))"
    using facts(6) by (simp add: host_read_text_def)
  have blank: "has_read ix ((index_table ix)(rel \<mapsto> blank_record s [] [] rel (RegularFile bytes) m)) (length bytes) (insert_indexed ?f ?ix)"
    using start by (simp add: has_read_def table_of_insert path(1) blank_without_package)
      (simp add: insert_indexed_def sorted_tree_map_insert)
  have full: "has_read ix ((index_table ix)(rel \<mapsto> (parse_file s (blank_record s [] [] rel (RegularFile bytes) m) bytes)\<lparr>if_content := True\<rparr>))
      (length bytes) (insert_indexed ((parse_file s ?f bytes)\<lparr>if_content := True\<rparr>) (?ix\<lparr>ri_bytes := ri_bytes ?ix + length bytes\<rparr>))"
    using start
    by (simp add: has_read_def table_of_insert table_of_bytes parse_file_keeps path(1) record_without_package)
      (simp add: insert_indexed_def sorted_tree_map_insert)
  have language: "if_language ?f = if_language (blank_record s [] [] rel (RegularFile bytes) m)" by (simp add: blank_record_def)
  show ?thesis unfolding step
    using blank full room' by (simp add: index_contents_def path(2) text_read read_record_def Let_def language)
qed

subsection \<open>All files\<close>

definition plain_size :: "index_services \<Rightarrow> tree \<Rightarrow> component list \<Rightarrow> path \<Rightarrow> nat" where
  "plain_size s t root p = (case plain_file s t root p of None \<Rightarrow> 0 | Some (rel, bytes, m) \<Rightarrow> length bytes)"

definition read_entry :: "index_services \<Rightarrow> tree \<Rightarrow> component list \<Rightarrow> path \<Rightarrow> string \<times> indexed_file" where
  "read_entry s t root p = (case the (plain_file s t root p) of (rel, bytes, m) \<Rightarrow> (rel, read_record s rel bytes m))"

text \<open>The files of a tree are plain, listed once, not too many and within half of the limit of bytes.\<close>

definition tidy :: "index_services \<Rightarrow> tree \<Rightarrow> component list \<Rightarrow> path list \<Rightarrow> bool" where
  "tidy s t root ps \<longleftrightarrow> list_all (\<lambda>p. plain_file s t root p \<noteq> None) ps \<and> distinct (map (stripped root) ps) \<and>
     length ps \<le> max_index_files \<and> 2 * sum_list (map (plain_size s t root) ps) < max_index_total_bytes"

definition all_plain :: "index_services \<Rightarrow> tree \<Rightarrow> component list \<Rightarrow> path list \<Rightarrow> bool" where
  "all_plain s t root ps \<longleftrightarrow> list_all (\<lambda>p. plain_file s t root p \<noteq> None) ps \<and> distinct (map (stripped root) ps)"

lemma entry_names:
  assumes "all_plain s t root (p # ps)" "plain_file s t root p = Some (rel, bytes, m)"
  shows "map_of (map (read_entry s t root) ps) rel = None"
proof -
  have "fst (read_entry s t root q) \<noteq> rel" if "q \<in> set ps" for q
  proof -
    have "plain_file s t root q \<noteq> None" using assms(1) that by (auto simp: all_plain_def list_all_iff)
    then obtain rel' b' m' where q: "plain_file s t root q = Some (rel', b', m')" by (cases "plain_file s t root q") auto
    have "stripped root q \<noteq> stripped root p" using assms(1) that by (metis all_plain_def distinct.simps(2) image_eqI list.simps(9) list.set_map)
    then show ?thesis using plain_fileD(1) [OF q] plain_fileD(1) [OF assms(2)] by (simp add: read_entry_def q)
  qed
  then have "rel \<notin> (\<lambda>q. fst (read_entry s t root q)) ` set ps" by blast
  then show ?thesis by (simp add: map_of_eq_None_iff image_image)
qed

lemma update_all:
  assumes "all_plain s t (ri_root ix) ps" "ri_bytes ix + sum_list (map (plain_size s t (ri_root ix)) ps) < max_index_total_bytes"
    and "sorted_wrt (<) (map fst (ri_files ix))"
  shows "\<exists>ix'. update_each s t ps ix = (Inr (), ix') \<and>
    has_read ix (index_table ix ++ map_of (map (read_entry s t (ri_root ix)) ps)) (sum_list (map (plain_size s t (ri_root ix)) ps)) ix'"
  using assms
proof (induction ps arbitrary: ix)
  case (Cons p ps)
  obtain rel bytes m where p: "plain_file s t (ri_root ix) p = Some (rel, bytes, m)" using Cons.prems(1) by (auto simp: all_plain_def)
  then have size: "plain_size s t (ri_root ix) p = length bytes" and entry: "read_entry s t (ri_root ix) p = (rel, read_record s rel bytes m)"
    by (simp_all add: plain_size_def read_entry_def)
  obtain ix1 where one: "update_indexed s t p ix = (Inr (), ix1)"
      "has_read ix ((index_table ix)(rel \<mapsto> read_record s rel bytes m)) (length bytes) ix1"
    using update_plain [OF p _ Cons.prems(3)] Cons.prems(2) size by auto
  have "all_plain s t (ri_root ix1) ps" "ri_bytes ix1 + sum_list (map (plain_size s t (ri_root ix1)) ps) < max_index_total_bytes"
      "sorted_wrt (<) (map fst (ri_files ix1))"
    using Cons.prems one(2) size by (auto simp: all_plain_def has_read_def)
  from Cons.IH [OF this] obtain ix' where rest: "update_each s t ps ix1 = (Inr (), ix')"
      "has_read ix1 (index_table ix1 ++ map_of (map (read_entry s t (ri_root ix1)) ps)) (sum_list (map (plain_size s t (ri_root ix1)) ps)) ix'" by blast
  have "map_of (map (read_entry s t (ri_root ix)) ps) rel = None" by (rule entry_names [OF Cons.prems(1) p])
  then have tables: "index_table ix ++ map_of (map (read_entry s t (ri_root ix)) (p # ps)) =
      (index_table ix)(rel \<mapsto> read_record s rel bytes m) ++ map_of (map (read_entry s t (ri_root ix)) ps)"
    by (auto simp: entry map_add_def fun_eq_iff split: option.split)
  have total: "sum_list (map (plain_size s t (ri_root ix)) (p # ps)) = length bytes + sum_list (map (plain_size s t (ri_root ix)) ps)"
    by (simp add: size)
  have step: "update_each s t (p # ps) ix = (Inr (), ix')" by (simp add: one(1) rest(1))
  have "has_read ix (index_table ix ++ map_of (map (read_entry s t (ri_root ix)) (p # ps)))
      (length bytes + sum_list (map (plain_size s t (ri_root ix)) ps)) ix'"
    unfolding tables using one(2) rest(2) by (simp add: has_read_def)
  then show ?case unfolding total using step by blast
qed (simp add: has_read_def)

lemma update_each_keeps:
  "ri_root (snd (update_each s t ps ix)) = ri_root ix \<and> ri_validated (snd (update_each s t ps ix)) = ri_validated ix"
proof (induction ps arbitrary: ix)
  case (Cons p ps)
  have "ri_root (snd (update_indexed s t p ix)) = ri_root ix \<and> ri_validated (snd (update_indexed s t p ix)) = ri_validated ix"
    by (auto simp: update_indexed_def index_contents_def insert_indexed_def remove_indexed_def Let_def
        split: sum.split option.split inode.split)
  with Cons show ?case by (cases "update_indexed s t p ix") (auto split: sum.split)
qed simp

text \<open>The files an index knows are as it knows them, where size and time are those of the tree.\<close>

definition known_right :: "index_services \<Rightarrow> tree \<Rightarrow> (string \<rightharpoonup> indexed_file) \<Rightarrow> component list \<Rightarrow> path \<Rightarrow> bool" where
  "known_right s t table root p =
     (case plain_file s t root p of
        None \<Rightarrow> True
      | Some (rel, bytes, m) \<Rightarrow>
          (case table rel of
             None \<Rightarrow> True
           | Some f \<Rightarrow> if_size f = length bytes \<and> if_modified f = m \<longrightarrow> f = read_record s rel bytes m))"

lemma outdated_iff:
  assumes "plain_file s t (ri_root ix) p = Some (rel, bytes, m)"
  shows "is_outdated s t ix p \<longleftrightarrow>
    (case index_table ix rel of None \<Rightarrow> True | Some f \<Rightarrow> if_size f \<noteq> length bytes \<or> if_modified f \<noteq> m)"
  using plain_fileD [OF assms]
  by (cases "map_of (ri_files ix) rel") (auto simp: is_outdated_def index_table_def forget_package_def)

lemma refresh_one:
  assumes p: "plain_file s t (ri_root ix) p = Some (rel, bytes, m)"
    and "ri_bytes ix + length bytes < max_index_total_bytes" "sorted_wrt (<) (map fst (ri_files ix))"
    and known: "known_right s t (index_table ix) (ri_root ix) p"
  shows "\<exists>c ix1. refresh_files s t (p # ps) changed ix = refresh_files s t ps c ix1 \<and>
    has_read ix ((index_table ix)(rel \<mapsto> read_record s rel bytes m)) (length bytes) ix1"
proof (cases "is_outdated s t ix p")
  case True
  obtain ix' where ix': "update_indexed s t p ix = (Inr (), ix')"
      "has_read ix ((index_table ix)(rel \<mapsto> read_record s rel bytes m)) (length bytes) ix'"
    using update_plain [OF p assms(2,3)] by blast
  then have "refresh_files s t (p # ps) changed ix = refresh_files s t ps (changed \<or> is_package_manifest p) ix'"
    using True by simp
  with ix'(2) show ?thesis by blast
next
  case False
  then obtain f where f: "index_table ix rel = Some f" "if_size f = length bytes" "if_modified f = m"
    by (auto simp: outdated_iff [OF p] split: option.splits)
  with known p have "f = read_record s rel bytes m" by (simp add: known_right_def)
  with f(1) have "(index_table ix)(rel \<mapsto> read_record s rel bytes m) = index_table ix" by (simp add: fun_upd_idem)
  then have "has_read ix ((index_table ix)(rel \<mapsto> read_record s rel bytes m)) (length bytes) ix"
    using assms(3) by (simp add: has_read_def)
  moreover have "refresh_files s t (p # ps) changed ix = refresh_files s t ps changed ix" using False by simp
  ultimately show ?thesis by blast
qed

lemma refresh_all_files:
  assumes "all_plain s t (ri_root ix) ps" "ri_bytes ix + sum_list (map (plain_size s t (ri_root ix)) ps) < max_index_total_bytes"
    and "sorted_wrt (<) (map fst (ri_files ix))" "list_all (known_right s t (index_table ix) (ri_root ix)) ps"
  shows "\<exists>c ix'. refresh_files s t ps changed ix = (Inr c, ix') \<and>
    has_read ix (index_table ix ++ map_of (map (read_entry s t (ri_root ix)) ps)) (sum_list (map (plain_size s t (ri_root ix)) ps)) ix'"
  using assms
proof (induction ps arbitrary: ix changed)
  case (Cons p ps)
  obtain rel bytes m where p: "plain_file s t (ri_root ix) p = Some (rel, bytes, m)" using Cons.prems(1) by (auto simp: all_plain_def)
  then have size: "plain_size s t (ri_root ix) p = length bytes" and entry: "read_entry s t (ri_root ix) p = (rel, read_record s rel bytes m)"
    by (simp_all add: plain_size_def read_entry_def)
  have room: "ri_bytes ix + length bytes < max_index_total_bytes" using Cons.prems(2) size by simp
  have known: "known_right s t (index_table ix) (ri_root ix) p" using Cons.prems(4) by simp
  obtain c ix1 where one: "refresh_files s t (p # ps) changed ix = refresh_files s t ps c ix1"
      "has_read ix ((index_table ix)(rel \<mapsto> read_record s rel bytes m)) (length bytes) ix1"
    using refresh_one [OF p room Cons.prems(3) known] by blast
  have fresh: "map_of (map (read_entry s t (ri_root ix)) ps) rel = None" by (rule entry_names [OF Cons.prems(1) p])
  have "known_right s t (index_table ix1) (ri_root ix1) q" if "q \<in> set ps" for q
  proof (cases "plain_file s t (ri_root ix) q")
    case None
    then show ?thesis using one(2) by (simp add: known_right_def has_read_def)
  next
    case (Some x)
    obtain rel' b' m' where q: "plain_file s t (ri_root ix) q = Some (rel', b', m')" using Some by (cases x) auto
    have "rel' \<noteq> rel"
    proof
      assume "rel' = rel"
      then have "rel \<in> fst ` set (map (read_entry s t (ri_root ix)) ps)" using that q by (force simp: read_entry_def)
      with fresh show False by (simp add: map_of_eq_None_iff)
    qed
    moreover have "known_right s t (index_table ix) (ri_root ix) q" using Cons.prems(4) that by (simp add: list_all_iff)
    ultimately show ?thesis using one(2) q by (simp add: known_right_def has_read_def)
  qed
  then have "all_plain s t (ri_root ix1) ps" "ri_bytes ix1 + sum_list (map (plain_size s t (ri_root ix1)) ps) < max_index_total_bytes"
      "sorted_wrt (<) (map fst (ri_files ix1))" "list_all (known_right s t (index_table ix1) (ri_root ix1)) ps"
    using Cons.prems one(2) size by (auto simp: all_plain_def has_read_def list_all_iff)
  from Cons.IH [OF this, of c] obtain d ix' where rest: "refresh_files s t ps c ix1 = (Inr d, ix')"
      "has_read ix1 (index_table ix1 ++ map_of (map (read_entry s t (ri_root ix1)) ps)) (sum_list (map (plain_size s t (ri_root ix1)) ps)) ix'" by blast
  from fresh have tables: "index_table ix ++ map_of (map (read_entry s t (ri_root ix)) (p # ps)) =
      (index_table ix)(rel \<mapsto> read_record s rel bytes m) ++ map_of (map (read_entry s t (ri_root ix)) ps)"
    by (auto simp: entry map_add_def fun_eq_iff split: option.split)
  have total: "sum_list (map (plain_size s t (ri_root ix)) (p # ps)) = length bytes + sum_list (map (plain_size s t (ri_root ix)) ps)"
    by (simp add: size)
  have "has_read ix (index_table ix ++ map_of (map (read_entry s t (ri_root ix)) (p # ps)))
      (length bytes + sum_list (map (plain_size s t (ri_root ix)) ps)) ix'"
    unfolding tables using one(2) rest(2) by (simp add: has_read_def)
  then show ?case unfolding total one(1) rest(1) by blast
qed (simp add: has_read_def)

lemma table_of_remove:
  "sorted_wrt (<) (map fst (ri_files ix)) \<Longrightarrow> index_table (remove_indexed k ix) = (index_table ix)(k := None)"
  by (simp add: index_table_def remove_indexed_files(1) fun_eq_iff)

lemma table_of_removals:
  assumes "sorted_wrt (<) (map fst (ri_files ix))"
  shows "has_read ix (index_table ix |` (- set ks)) 0 (foldl (\<lambda>ix p. remove_indexed p ix) ix ks)"
  using assms
proof (induction ks arbitrary: ix)
  case (Cons k ks)
  have "has_read (remove_indexed k ix) (index_table (remove_indexed k ix) |` (- set ks)) 0
      (foldl (\<lambda>ix p. remove_indexed p ix) ix (k # ks))"
    using Cons.IH [OF remove_indexed_files(2) [OF Cons.prems]] by simp
  moreover have "index_table (remove_indexed k ix) |` (- set ks) = index_table ix |` (- set (k # ks))"
    by (auto simp: table_of_remove [OF Cons.prems] restrict_map_def fun_eq_iff)
  ultimately show ?case using remove_indexed_fields [of k ix] by (auto simp: has_read_def)
qed (simp add: has_read_def restrict_map_def)

lemma table_of_rediscover: "index_table (rediscover s t ix) = index_table ix"
proof -
  have "map_option forget_package (map_of (map (\<lambda>(k, f). (k, f\<lparr>if_package := g f\<rparr>)) xs) k) = map_option forget_package (map_of xs k)"
    for g and xs :: "(string \<times> indexed_file) list" and k
    by (induction xs) (auto simp: forget_package_def)
  then show ?thesis by (simp add: index_table_def rediscover_def assign_packages_def fun_eq_iff)
qed

subsection \<open>A refresh is a build\<close>

definition read_table :: "index_services \<Rightarrow> tree \<Rightarrow> component list \<Rightarrow> string \<rightharpoonup> indexed_file" where
  "read_table s t root = map_of (map (read_entry s t root) (enumerate_files s t root))"

lemma tidyD:
  assumes "tidy s t root (enumerate_files s t root)"
  shows "all_plain s t root (enumerate_files s t root)"
    "take max_index_files (enumerate_files s t root) = enumerate_files s t root"
    "2 * sum_list (map (plain_size s t root) (enumerate_files s t root)) < max_index_total_bytes"
  using assms by (simp_all add: tidy_def all_plain_def)

lemma build_reads:
  assumes "index_build s t n dir = Inr ix" "tidy s t (ri_root ix) (enumerate_files s t (ri_root ix))"
  shows "index_table ix = read_table s t (ri_root ix)" "2 * ri_bytes ix < max_index_total_bytes" "ri_validated ix = n"
    "sorted_wrt (<) (map fst (ri_files ix))"
proof -
  from assms(1) obtain cs where built: "update_each s t (take max_index_files (enumerate_files s t cs))
      \<lparr>ri_root = cs, ri_files = [], ri_packages = discover_packages s t cs (enumerate_files s t cs), ri_bytes = 0,
        ri_validated = n\<rparr> = (Inr (), ix)"
    by (auto simp: index_build_def Let_def split: sum.splits if_splits prod.splits)
  let ?start = "\<lparr>ri_root = cs, ri_files = [], ri_packages = discover_packages s t cs (enumerate_files s t cs), ri_bytes = 0,
        ri_validated = n\<rparr>"
  have kept: "ri_root (snd (update_each s t ps ix0)) = ri_root ix0 \<and> ri_validated (snd (update_each s t ps ix0)) = ri_validated ix0" for ps ix0
    by (rule update_each_keeps)
  from kept [of "take max_index_files (enumerate_files s t cs)" ?start] built
  have root: "ri_root ix = cs" and "ri_validated ix = n" by simp_all
  then show "ri_validated ix = n" by simp
  note facts = tidyD [OF assms(2) [unfolded root]]
  have "index_table ?start = Map.empty" by (simp add: index_table_def fun_eq_iff)
  moreover from facts obtain ix' where "update_each s t (enumerate_files s t cs) ?start = (Inr (), ix')"
      "has_read ?start (index_table ?start ++ map_of (map (read_entry s t cs) (enumerate_files s t cs)))
        (sum_list (map (plain_size s t cs) (enumerate_files s t cs))) ix'"
    using update_all [of s t ?start "enumerate_files s t cs"] by auto
  ultimately show "index_table ix = read_table s t (ri_root ix)" "2 * ri_bytes ix < max_index_total_bytes"
      "sorted_wrt (<) (map fst (ri_files ix))"
    using built facts(2,3) root by (auto simp: has_read_def read_table_def)
qed

text \<open>When length and time of a file that is listed twice are the same, its contents are.\<close>

definition times_tell :: "index_services \<Rightarrow> tree \<Rightarrow> tree \<Rightarrow> component list \<Rightarrow> bool" where
  "times_tell s t t' root \<longleftrightarrow>
     list_all (\<lambda>p. list_all (\<lambda>q. case (plain_file s t root p, plain_file s t' root q) of
         (Some (rel, bytes, m), Some (rel', bytes', m')) \<Rightarrow>
           \<not> (rel = rel' \<and> m = m' \<and> length bytes = length bytes') \<or> bytes = bytes'
       | _ \<Rightarrow> True) (enumerate_files s t' root)) (enumerate_files s t root)"

lemma known_after_build:
  assumes "times_tell s t0 t root" "all_plain s t0 root (enumerate_files s t0 root)" "q \<in> set (enumerate_files s t root)"
  shows "known_right s t (read_table s t0 root |` A) root q"
proof (cases "plain_file s t root q")
  case (Some x)
  obtain rel bytes m where q: "plain_file s t root q = Some (rel, bytes, m)" using Some by (cases x) auto
  have "f = read_record s rel bytes m"
    if "read_table s t0 root rel = Some f" "if_size f = length bytes" "if_modified f = m" for f
  proof -
    have "(rel, f) \<in> set (map (read_entry s t0 root) (enumerate_files s t0 root))"
      using that(1) unfolding read_table_def by (rule map_of_SomeD)
    then obtain p where p: "p \<in> set (enumerate_files s t0 root)" "read_entry s t0 root p = (rel, f)"
      by (metis imageE set_map)
    then obtain rel0 b0 m0 where plain: "plain_file s t0 root p = Some (rel0, b0, m0)"
      using assms(2) by (cases "plain_file s t0 root p") (auto simp: all_plain_def list_all_iff)
    with p(2) have f: "rel0 = rel" "f = read_record s rel b0 m0" by (auto simp: read_entry_def)
    have "b0 = bytes"
      using assms(1) p(1) assms(3) plain q f that(2,3)
      by (fastforce simp: times_tell_def list_all_iff read_record_fields)
    with f that(3) show ?thesis by (simp add: read_record_fields)
  qed
  then show ?thesis using q by (auto simp: known_right_def restrict_map_def split: option.split)
qed (simp add: known_right_def)

lemma removed_complement:
  assumes "all_plain s t (ri_root ix) ps" "sorted_wrt (<) (map fst (ri_files ix))"
  shows "index_table ix |` (- set (removed_files ix ps)) ++ map_of (map (read_entry s t (ri_root ix)) ps) =
    map_of (map (read_entry s t (ri_root ix)) ps)"
proof -
  let ?names = "(\<lambda>p. fst (read_entry s t (ri_root ix) p)) ` set ps"
  have name: "stripped (ri_root ix) p = Some (fst (read_entry s t (ri_root ix) p))" if "p \<in> set ps" for p
  proof -
    have "plain_file s t (ri_root ix) p \<noteq> None" using assms(1) that by (auto simp: all_plain_def list_all_iff)
    then obtain x where x: "plain_file s t (ri_root ix) p = Some x" by blast
    then show ?thesis using plain_fileD(1) [of s t "ri_root ix" p "fst x" "fst (snd x)" "snd (snd x)"]
      by (cases x) (simp add: read_entry_def)
  qed
  have present: "set (List.map_filter (stripped (ri_root ix)) ps) = ?names"
    using name by (force simp: List.map_filter_def)
  have "k \<in> ?names" if "(index_table ix |` (- set (removed_files ix ps))) k = Some f" for k f
  proof -
    from that have "k \<notin> set (removed_files ix ps)" "k \<in> fst ` set (ri_files ix)"
      by (auto simp: restrict_map_def index_table_def dest!: map_of_SomeD split: if_splits intro: rev_image_eqI)
    then show ?thesis by (auto simp: removed_files_def present)
  qed
  moreover have "map_of (map (read_entry s t (ri_root ix)) ps) k \<noteq> None" if "k \<in> ?names" for k
    using that by (simp add: map_of_eq_None_iff image_image)
  ultimately show ?thesis
    by (intro ext) (force simp: map_add_def split: option.split)
qed

text \<open>C15: an index that is brought up to date, two seconds or more after it was validated, lists the files a new
  index of the tree as it is now would list, with the same languages, imports, exports and symbols, whatever
  was added, changed or removed in between. (Only the packages of the files are left out; the trees are
  plain: every file can be read under its own path, and together they take less than half of the limit of
  bytes. A change that keeps both the length and the time of a file goes unseen, so there is none.)\<close>

theorem refresh_is_rebuild:
  assumes "index_build s t0 n0 dir = Inr ix" "index_build s t n dir = Inr fresh" "ri_root fresh = ri_root ix"
    and "tidy s t0 (ri_root ix) (enumerate_files s t0 (ri_root ix))"
    and "tidy s t (ri_root ix) (enumerate_files s t (ri_root ix))"
    and "times_tell s t0 t (ri_root ix)" "n0 + 2000 \<le> n"
  shows "\<exists>ix'. refresh_if_stale s t n ix = (Inr (), ix') \<and> index_table ix' = index_table fresh"
proof -
  let ?root = "ri_root ix" and ?ps = "enumerate_files s t (ri_root ix)"
  note old = build_reads [OF assms(1,4)] and files = tidyD [OF assms(5)]
  have new: "index_table fresh = read_table s t ?root"
    using build_reads(1) [OF assms(2)] assms(3,5) by simp
  define start where "start = foldl (\<lambda>ix p. remove_indexed p ix) ix (removed_files ix ?ps)"
  have start: "has_read ix (index_table ix |` (- set (removed_files ix ?ps))) 0 start"
    unfolding start_def by (rule table_of_removals [OF old(4)])
  then have root: "ri_root start = ?root" by (simp add: has_read_def)
  have "list_all (known_right s t (index_table start) (ri_root start)) ?ps"
    using known_after_build [OF assms(6) tidyD(1) [OF assms(4)]] start old(1)
    by (simp add: list_all_iff has_read_def)
  moreover have "ri_bytes start + sum_list (map (plain_size s t (ri_root start)) ?ps) < max_index_total_bytes"
    using start old(2) files(3) by (simp add: has_read_def)
  moreover have "sorted_wrt (<) (map fst (ri_files start))" using start by (simp add: has_read_def)
  ultimately obtain c ix1 where refreshed:
      "refresh_files s t ?ps (removed_files ix ?ps \<noteq> []) start = (Inr c, ix1)"
      "has_read start (index_table start ++ map_of (map (read_entry s t ?root) ?ps))
        (sum_list (map (plain_size s t ?root) ?ps)) ix1"
    using refresh_all_files [of s t start ?ps] files(1) unfolding root by blast
  then have table: "index_table ix1 = read_table s t ?root"
    using removed_complement [OF files(1) old(4)] start by (simp add: has_read_def read_table_def)
  have "refresh_if_stale s t n ix = (Inr (), (if c then rediscover s t ix1 else ix1)\<lparr>ri_validated := n\<rparr>)"
    using assms(7) old(3) files(2) refreshed(1) by (simp add: refresh_if_stale_def Let_def start_def)
  moreover have "index_table ((if c then rediscover s t ix1 else ix1)\<lparr>ri_validated := n\<rparr>) = index_table fresh"
    using table new table_of_rediscover [of s t ix1] by (simp add: index_table_def)
  ultimately show ?thesis by blast
qed

definition sample_services :: index_services where
  "sample_services = \<lparr>is_machine = \<lparr>cwd = [RootDir], io_fault = (\<lambda>_ _. None), meanwhile = (\<lambda>_ t. t)\<rparr>,
     is_modified = (\<lambda>t cs. map_option inode_length (inode_at t cs)), is_run_rg = (\<lambda>_ _ _. None),
     is_lower = to_ascii_lowercase, is_parse_json = (\<lambda>_. None), is_toml_name = (\<lambda>_. None),
     is_symbol = (\<lambda>p line. if p = PythonFunctionPattern then strip_prefix_str ''def '' line else None),
     is_glob = (\<lambda>_. Inl ''none''), is_word = (\<lambda>_ _. Inl ''none'')\<rparr>"

definition sample_root :: "component list" where
  "sample_root = [RootDir, Normal ''w'']"

definition sample_tree :: "(string \<times> string) list \<Rightarrow> tree" where
  "sample_tree fs = ([RootDir], Directory) # (sample_root, Directory) #
     map (\<lambda>(n, b). (sample_root @ [Normal n], RegularFile b)) fs"

definition tree_then :: tree where "tree_then = sample_tree [(''a.py'', ''def f''), (''b.py'', ''def g'')]"
definition tree_now :: tree where "tree_now = sample_tree [(''a.py'', ''def ff''), (''c.py'', ''def h'')]"

lemma sample_tidy:
  "tidy sample_services tree_then sample_root (enumerate_files sample_services tree_then sample_root)"
  "tidy sample_services tree_now sample_root (enumerate_files sample_services tree_now sample_root)"
  "times_tell sample_services tree_then tree_now sample_root"
  by code_simp+

theorem refresh_is_rebuild_witness:
  "\<exists>ix fresh ix'. index_build sample_services tree_then 0 ''/w'' = Inr ix \<and>
     refresh_if_stale sample_services tree_now 2000 ix = (Inr (), ix') \<and>
     index_build sample_services tree_now 2000 ''/w'' = Inr fresh \<and> index_table ix' = index_table fresh \<and>
     map (\<lambda>(k, f). (k, map sym_name (if_symbols f))) (ri_files fresh) = [(''a.py'', [''ff'']), (''c.py'', [''h''])]"
proof -
  have "map_sum id ri_root (index_build sample_services tree_then 0 ''/w'') = Inr sample_root"
    "map_sum id (\<lambda>ix. (ri_root ix, map (\<lambda>(k, f). (k, map sym_name (if_symbols f))) (ri_files ix)))
       (index_build sample_services tree_now 2000 ''/w'') =
     Inr (sample_root, [(''a.py'', [''ff'']), (''c.py'', [''h''])])"
    by code_simp+
  then obtain ix fresh where built: "index_build sample_services tree_then 0 ''/w'' = Inr ix" "ri_root ix = sample_root"
      "index_build sample_services tree_now 2000 ''/w'' = Inr fresh" "ri_root fresh = sample_root"
      "map (\<lambda>(k, f). (k, map sym_name (if_symbols f))) (ri_files fresh) = [(''a.py'', [''ff'']), (''c.py'', [''h''])]"
    by (cases "index_build sample_services tree_then 0 ''/w''"; cases "index_build sample_services tree_now 2000 ''/w''") auto
  obtain ix' where "refresh_if_stale sample_services tree_now 2000 ix = (Inr (), ix')" "index_table ix' = index_table fresh"
    using refresh_is_rebuild [OF built(1,3), unfolded built(2,4), OF refl sample_tidy] by auto
  with built(1,3,5) show ?thesis by (intro exI conjI)
qed

end
