(* ===== verification/Spec2Isabelle.thy ===== *)
theory Spec2Isabelle
  imports  Session_Properties Policy_Properties Context_Properties Agent_Plan_Properties
    Workspace_Properties Verification_Properties Agent_Loop_Properties Agent_Call_Properties
    Tool_Registry_Properties Git_Properties Model_Config Model_Stream_Properties Model_Registry_Properties Web
    Repository_Search Repository_Refresh
begin

text \<open>
  Verification development for the CogitoAI harness, a coding agent in Rust (\<open>src/crates/\<close>).

  \<^bold>\<open>The program.\<close> \<open>harness-core\<close> holds errors, identifiers, configuration, the redaction of
  credentials and the discovery of a workspace. \<open>harness-session\<close> defines the events of a
  session, publishes them on a bus and stores them in append-only logs. \<open>harness-policy\<close> decides
  for every tool request whether it is allowed, denied, or put to the user. \<open>harness-context\<close>
  builds the prompt within a token budget. \<open>harness-verification\<close> plans and runs the checks of a
  workspace. \<open>harness-tools\<close> is what a model can call: tools on files, processes and the web, behind
  a registry that asks the policy and publishes what happens. \<open>harness-git\<close> reads a work tree and
  keeps the checkpoints by which a run is undone. \<open>harness-models\<close> turns a neutral request into that
  of a provider, reads its streamed answer, and keeps the catalogue of models. \<open>harness-agent\<close>
  drives it all: \<open>AgentRunner::run\<close> resumes or creates a session, and then, turn by turn, builds a
  prompt, asks the model, executes the tool calls of the answer through the policy, the hooks and
  the tool registry, verifies what changed, and ends with an outcome. Everything a run does is
  published as an event and persisted in the session store.

  \<^bold>\<open>The theories.\<close> Each opens with the functions it models; definitions have the names of the
  code, with a suffix or prefix where HOL or another crate uses the name. \<open>X_Laws\<close> holds lemmas,
  \<open>X_Properties\<close> the properties.

  \<^item> \<open>Prelude\<close>, \<open>Ordered_Maps\<close>, \<open>Utf8\<close>, \<open>Paths\<close>, \<open>Files\<close>, \<open>Process\<close>: what the crates use of the Rust
    standard library (strings, lines, trimming, lossy UTF-8, \<open>BTreeMap\<close>, paths, a snapshot of the
    disk, processes). \<open>Host_Files\<close>, \<open>Host_Files_Laws\<close>: a file system with links that changes while
    a tool works on it.
  \<^item> \<open>Core\<close>: \<open>harness-core\<close> but for \<open>workspace.rs\<close>, which is \<open>Workspace\<close>, \<open>Workspace_Scan\<close>,
    \<open>Workspace_Discovery\<close>, with \<open>Workspace_Properties\<close>.
  \<^item> \<open>Events\<close>, \<open>Bus\<close>, \<open>Session\<close>: \<open>harness-session\<close>; \<open>Session_Laws\<close> and \<open>Session_Properties\<close> prove
    what loads after which write; a concrete codec is at the end of \<open>Session_Laws\<close>.
  \<^item> \<open>Policy\<close>, \<open>Policy_Engine\<close>, \<open>Policy_Properties\<close>: \<open>harness-policy\<close>.
  \<^item> \<open>Context\<close>, \<open>Context_Properties\<close>: \<open>harness-context\<close>.
  \<^item> \<open>Verification\<close> (planning), \<open>Verification_Targets\<close> (narrowing), \<open>Verification_Run\<close> (running and
    reporting), \<open>Verification_Properties\<close>: \<open>harness-verification\<close>.
  \<^item> \<open>harness-tools\<close>: \<open>Tool_Environment\<close> (\<open>environment.rs\<close>: where paths resolve and how files are
    replaced), \<open>Tool_Text\<close>, \<open>Tool_Files\<close>, \<open>Tool_Edit\<close>, \<open>Tool_Read\<close> (\<open>filesystem.rs\<close>: text and diffs,
    arguments, the tools that edit, the tools that read and the shell), \<open>Tool_Registry\<close> (\<open>lib.rs\<close>),
    \<open>Web\<close> (\<open>web.rs\<close>), \<open>Repository_Index\<close> and \<open>Repository_Search\<close> (\<open>repository_index.rs\<close>: keeping the
    index, and what is asked of it); \<open>Tool_Diff\<close> is a reader of diffs to compare with. Properties are in
    \<open>Tool_Edit_Properties\<close>, \<open>Tool_Registry_Properties\<close>, \<open>Web\<close>, \<open>Repository_Index\<close> and
    \<open>Repository_Refresh\<close>.
  \<^item> \<open>harness-git\<close>: \<open>Git_Client\<close> (running git, views of files), \<open>Git_Checkpoint\<close> (the store of
    checkpoints), \<open>Git_Checkpoint_Laws\<close>, \<open>Git_Properties\<close>.
  \<^item> \<open>harness-models\<close>: \<open>Model_Types\<close> (\<open>lib.rs\<close>: requests, responses, capability checks),
    \<open>Model_Config\<close> (configuration), \<open>Model_Transport\<close> (retries, server-sent events),
    \<open>Model_Anthropic\<close> (\<open>anthropic.rs\<close>: bodies, whole and streamed answers, the turns it keeps),
    \<open>Model_Registry\<close> (\<open>registry.rs\<close>); properties are in \<open>Model_Request_Properties\<close>,
    \<open>Model_Stream_Properties\<close> and \<open>Model_Registry_Properties\<close>.
  \<^item> \<open>harness-agent/src/lib.rs\<close> in the order a run uses it: \<open>Agent_Text\<close> (text helpers),
    \<open>Agent_Plan\<close> (goals and plans), \<open>Agent_Approval\<close> (\<open>ApprovedPolicy\<close>, \<open>execute_tool\<close>),
    \<open>Agent_History\<close> (trimming), \<open>Agent_Instructions\<close> (system instructions),
    \<open>Agent_Compaction\<close> (compaction, attachments), \<open>Agent_Completion\<close> (limits, directives, final
    events), \<open>Agent_Hooks\<close> (\<open>hooks.rs\<close> and the functions that run hooks), \<open>Agent_Tools\<close> (calls and
    results), \<open>Agent_State\<close> (the state of a run and the action type), \<open>Agent_Verify\<close>
    (\<open>run_verification_if_needed\<close>), \<open>Agent_Turn\<close>, \<open>Agent_Answer\<close>, \<open>Agent_Call\<close> (the
    parts of a turn), \<open>Agent_Run\<close> (the loop), \<open>Agent_Start\<close> (what \<open>run\<close> does before the loop).
    \<open>Agent_Rules\<close>, \<open>Agent_Frame_Loop\<close>, \<open>Agent_Outcome\<close> carry the invariants of the
    run; \<open>Agent_Samples\<close> is a concrete world; the properties are in \<open>Agent_Plan_Properties\<close>,
    \<open>Agent_Loop_Properties\<close> and \<open>Agent_Call_Properties\<close>.

  \<^bold>\<open>Conventions.\<close> A Rust string is the list of its UTF-8 bytes; where the code works by \<open>char\<close>, the
  model splits the bytes into characters. A path is its text; comparison by components is
  \<open>path_starts_with\<close> and friends. A \<open>BTreeMap\<close> is a sorted entry list or a map, a \<open>HashMap\<close> a list of
  entries or a function, whose iteration order the code does not rely on unless said otherwise.
  \<open>u32\<close> and \<open>u64\<close> counters with saturating arithmetic are naturals; a width is kept where
  wrap-around or bits matter (rule priorities, token sums, IP addresses). A \<open>Result\<close> is a sum with
  the error on the left. A run is a function of its state: \<open>'a action\<close> either passes a value on,
  returns an error to the caller, or ends the run with an outcome; \<open>and_then\<close> is sequencing,
  \<open>or_return\<close> the \<open>?\<close> operator. What the run observes of the world (clock, cancellation, host,
  model) is a function in the environment; an observation is indexed by the number of events
  published so far, so that the world may change between any two steps. In the same way a tool
  works on a tree that \<open>meanwhile\<close> changes between its calls, a call to the file system can fail
  (\<open>io_fault\<close>), and a provider adapter hands its events to a consumer that may stop it.

  \<^bold>\<open>What is shown.\<close>
  \<^item> Session store: append and load, creation, exactly which bytes load after a short write,
    which events are refused, the state as a reading of the log in every field, the list of recent
    sessions.
  \<^item> Policy: allowed exactly under the stated conditions; denials, the workspace boundary and
    sensitive commands hold whatever the rules say.
  \<^item> Context: the prompt stays within the budget, every candidate is accounted for.
  \<^item> Workspace: the scan terminates and lists files below the root only; instruction files come
    from the root down.
  \<^item> Verification: a run is the reports of all steps cut after the first failure; narrowing keeps
    every check and applies exactly when one package holds all changes; command lines are read
    back as written.
  \<^item> Tools: an edit changes nothing outside the workspace as long as links stay below the limit of
    the system, a failed one changes no file, a patch replaces exactly its context, concurrent
    changes are kept; the reported diff turns the old lines into the new ones; a call the policy
    forbids does nothing, a sensitive one waits for the user, a file that was changed since it was
    read is not overwritten.
  \<^item> Approvals: what a sequence of requests gets after the user has granted some of them.
  \<^item> Index: the bytes counted are those of the files whose contents are held, in every session;
    bringing an index up to date gives what a new build would.
  \<^item> Web: every request goes to an address that was checked to be public, also after a redirect and
    whatever the name resolves to later; the tests on octets are the special-purpose ranges.
  \<^item> Git: undoing a run gives back every recorded file and leaves the others alone; a file somebody
    else changed stops the restore before it begins.
  \<^item> Models: a streamed message is the message the API would have sent whole; a stream completes a
    response at most once; the body of a request holds an alternating history; lines do not depend
    on where reads time out; switching providers keeps what the user set. The registry isolates
    providers that fail, replaces its cache whole, and keeps its maps in order in every session.
  \<^item> Plans: the invariant of the plan, completion, at most three revisions.
  \<^item> Run: the number of model requests and tool calls is bounded whatever the model answers,
    modes that only read reach no other tool, a task that is done has no unresolved errors and a
    diff recorded as inspected, hooks run in CODE mode and behind the permission only. Defects that modelling
    showed are stated as theorems as well.

  \<^bold>\<open>Locales.\<close> \<open>byte_bounded\<close> (texts cut to a length: the context builder, shell summaries and the
  history), \<open>guarded_policy\<close> (the engine behind \<open>ApprovedPolicy\<close>), \<open>session_log\<close> (the JSONL store),
  \<open>action_relation\<close> (what all actions of a run keep: \<open>step_ok\<close>, \<open>results_kept\<close>) and
  \<open>workspace_change\<close> (the operations of the execution environment that change the tree: writing,
  creating, deleting, moving) are each interpreted on the definitions of the model.

  \<^bold>\<open>Bounds and termination.\<close> A plan makes at most 72 steps (12 milestones of 6 tasks), revisions are
  counted to 3. Prompt budgets are taken up to \<open>3 \<cdot> 2\<^bsup>30\<^esup>\<close>, below which sums of \<open>u32\<close> token counts
  do not wrap; event numbers up to \<open>2\<^bsup>64\<^esup>\<close>. The scan goes 16 levels deep, to 20,000 files, and
  terminates by a multiset order on its stack; the walk of the search tools has the same shape. The
  index goes 24 levels deep, to 50,000 files and 128 MiB, and its walk terminates by a weight of the stack.
  Resolving a path follows at most 40 links, the limit of Linux, and fails beyond it, so that limit
  is the fuel of the walk and not an addition of the model. A snapshot takes files up to 10 MB, a
  view up to 2 MB. A model request is tried three times, an adapter keeps 256 turns, a web request
  follows three redirects and reads 2 MiB. The loop of the run terminates because every turn
  that goes on counts, and the limit on turns stops it; no fuel is used.

  \<^bold>\<open>Parameters.\<close> serde_json, toml, globset, regex, base64, SHA-256, the lower case of Unicode text, \<open>rg\<close>, the URL parser and the HTTP client,
  name resolution, the git program and its answers, the model provider, processes, the tool host
  and the user as the run loop sees them, the clock, cancellation, what other processes do to the
  disk and which calls to it fail are arguments of the definitions. A property that needs one of
  their documented laws (for instance that a serialised event has no newline and is read back)
  names it as a hypothesis, and its witness discharges it for a concrete function.

  \<^bold>\<open>Not modelled.\<close> Delegation to subagents and the deltas of a streamed answer inside the run loop;
  the loading of the session and of the hook configuration happens before the modelled part of
  \<open>run\<close>. Mutexes, threads and the zeroing of memory. The adapters for OpenAI, Gemini and OpenCode
  (the same shape as the Anthropic one over other protocols), the discovery of models, the key
  stores, background processes, the exchange with a language server, skills, the MCP client, pseudo terminals, the
  RPC server, the desktop application and the command line: transport, presentation and the
  operating system around the parts above.
\<close>

end
